(* ===== verification/Prelude.thy ===== *)
theory Prelude
  imports Main "HOL-Library.Word" "HOL-Library.Char_ord" "HOL-Library.List_Lexorder"
    "HOL-Library.Sublist" "HOL-Library.AList" "HOL-Library.Multiset"
begin

text \<open>
  Shared vocabulary of the development: the Go values the components are written over and the
  functions of Go's standard library (\<open>strings\<close>, \<open>path\<close>, \<open>sort\<close>, \<open>hash/fnv\<close>,
  \<open>unicode/utf8\<close>) that the sources call.

  A Go \<open>string\<close> and a Go \<open>[]byte\<close> are sequences of bytes, and a HOL \<open>char\<close> is a byte,
  so both are \<open>string\<close>. Go compares strings byte by byte, which is the lexicographic order
  of \<open>List_Lexorder\<close> over the byte order of \<open>Char_ord\<close>. A \<open>time.Time\<close> is a number
  of nanoseconds counted from Go's zero time, so that \<open>IsZero\<close>, \<open>Before\<close> and
  \<open>After\<close> are comparisons of integers. A Go map whose entries the code enumerates is an
  association list with distinct keys; one that the code only looks up is a HOL map.
\<close>

declare map_of_eq_Some_iff [simp del] Some_eq_map_of_iff [simp del]

type_synonym bytes = string
type_synonym time = int
type_synonym 'v gomap = "(string \<times> 'v) list"

named_theorems go_strings \<open>facts about the models of Go's string functions\<close>

abbreviation isZero :: "time \<Rightarrow> bool" where "isZero t \<equiv> t = 0"

abbreviation second :: time where "second \<equiv> 1000000000"

subsection \<open>Package strings\<close>

definition hasPrefix :: "string \<Rightarrow> string \<Rightarrow> bool" where
  "hasPrefix s p = (take (length p) s = p)"

definition hasSuffix :: "string \<Rightarrow> string \<Rightarrow> bool" where
  "hasSuffix s p = hasPrefix (rev s) (rev p)"

definition trimPrefix :: "string \<Rightarrow> string \<Rightarrow> string" where
  "trimPrefix s p = (if hasPrefix s p then drop (length p) s else s)"

definition trimSuffix :: "string \<Rightarrow> string \<Rightarrow> string" where
  "trimSuffix s p = (if hasSuffix s p then take (length s - length p) s else s)"

text \<open>\<open>strings.Index\<close> returns -1 when the substring is absent; the model returns \<open>None\<close>.\<close>

fun indexOf :: "string \<Rightarrow> string \<Rightarrow> nat option" where
  "indexOf [] sub = (if sub = [] then Some 0 else None)"
| "indexOf (c # s) sub =
     (if hasPrefix (c # s) sub then Some 0 else map_option Suc (indexOf s sub))"

fun indexByte :: "string \<Rightarrow> char \<Rightarrow> nat option" where
  "indexByte [] b = None"
| "indexByte (c # s) b = (if c = b then Some 0 else map_option Suc (indexByte s b))"

definition contains :: "string \<Rightarrow> string \<Rightarrow> bool" where
  "contains s sub = (indexOf s sub \<noteq> None)"

fun splitOn :: "char \<Rightarrow> string \<Rightarrow> string list" where
  "splitOn b [] = [[]]"
| "splitOn b (c # s) =
     (if c = b then [] # splitOn b s
      else (case splitOn b s of [] \<Rightarrow> [[c]] | x # xs \<Rightarrow> (c # x) # xs))"

fun joinWith :: "string \<Rightarrow> string list \<Rightarrow> string" where
  "joinWith sep [] = []"
| "joinWith sep [x] = x"
| "joinWith sep (x # y # xs) = x @ sep @ joinWith sep (y # xs)"

definition isSpace :: "char \<Rightarrow> bool" where
  "isSpace c = (c \<in> {CHR '' '', CHR 0x09, CHR 0x0A, CHR 0x0B, CHR 0x0C, CHR 0x0D})"

definition trimSpaceS :: "string \<Rightarrow> string" where
  "trimSpaceS s = rev (dropWhile isSpace (rev (dropWhile isSpace s)))"

definition lowerChar :: "char \<Rightarrow> char" where
  "lowerChar c = (if CHR ''A'' \<le> c \<and> c \<le> CHR ''Z'' then char_of (of_char c + 32 :: nat) else c)"

definition toLower :: "string \<Rightarrow> string" where
  "toLower s = map lowerChar s"

lemma hasPrefix_iff [go_strings]: "hasPrefix s p \<longleftrightarrow> (\<exists>r. s = p @ r)"
  by (metis append_eq_conv_conj append_take_drop_id hasPrefix_def)

lemma hasPrefix_append [simp]: "hasPrefix (p @ r) p"
  by (simp add: hasPrefix_def)

lemma hasPrefix_Nil [simp]: "hasPrefix s []"
  by (simp add: hasPrefix_def)

lemma hasPrefix_refl [simp]: "hasPrefix s s"
  by (simp add: hasPrefix_def)

lemma hasPrefix_trans: "hasPrefix a b \<Longrightarrow> hasPrefix b c \<Longrightarrow> hasPrefix a c"
  by (auto simp: hasPrefix_iff)

lemma hasSuffix_iff [go_strings]: "hasSuffix s p \<longleftrightarrow> (\<exists>r. s = r @ p)"
proof
  assume "hasSuffix s p"
  then obtain r where "rev s = rev p @ r" by (auto simp: hasSuffix_def hasPrefix_iff)
  then have "s = rev r @ p" by (metis rev_append rev_rev_ident)
  then show "\<exists>r. s = r @ p" by blast
next
  assume "\<exists>r. s = r @ p"
  then show "hasSuffix s p" by (auto simp: hasSuffix_def)
qed

lemma trimPrefix_append [simp]: "trimPrefix (p @ r) p = r"
  by (simp add: trimPrefix_def)

lemma indexByte_None [go_strings]: "indexByte s b = None \<longleftrightarrow> b \<notin> set s"
  by (induction s) auto

lemma indexByte_Some [go_strings]:
  "indexByte s b = Some i \<longleftrightarrow> i < length s \<and> s ! i = b \<and> b \<notin> set (take i s)"
proof (induction s arbitrary: i)
  case (Cons c s)
  then show ?case by (cases i) auto
qed simp

lemma indexByte_append [simp]: "b \<notin> set s \<Longrightarrow> indexByte (s @ b # t) b = Some (length s)"
  by (induction s) auto

lemma indexOf_Some_split:
  "indexOf s sub = Some i \<Longrightarrow> i + length sub \<le> length s \<and> take (length sub) (drop i s) = sub"
proof (induction s arbitrary: i)
  case Nil
  then show ?case by (auto split: if_splits)
next
  case (Cons c s)
  show ?case
  proof (cases "hasPrefix (c # s) sub")
    case True
    with Cons.prems have [simp]: "i = 0" by simp
    from True obtain r where "c # s = sub @ r" by (auto simp: hasPrefix_iff)
    then show ?thesis by (metis append_eq_conv_conj drop0 le_add1 length_append add.left_neutral \<open>i = 0\<close>)
  next
    case False
    with Cons.prems obtain j where j: "indexOf s sub = Some j" and "i = Suc j" by auto
    with Cons.IH [OF j] show ?thesis by auto
  qed
qed

lemma splitOn_nonempty [simp]: "splitOn b s \<noteq> []"
  by (induction s) (auto split: list.splits)

lemma splitOn_no_sep: "b \<notin> set s \<Longrightarrow> splitOn b s = [s]"
  by (induction s) auto

lemma joinWith_splitOn: "joinWith [b] (splitOn b s) = s"
proof (induction s)
  case (Cons c s)
  obtain x xs where xs: "splitOn b s = x # xs" by (cases "splitOn b s") auto
  show ?case using Cons xs by (cases xs) auto
qed simp

lemma splitOn_parts_no_sep: "x \<in> set (splitOn b s) \<Longrightarrow> b \<notin> set x"
  by (induction s arbitrary: x) (auto split: if_splits list.splits)

subsection \<open>Package strconv\<close>

definition digitVal :: "char \<Rightarrow> nat option" where
  "digitVal c = indexByte ''0123456789'' c"

fun parseDigits :: "nat \<Rightarrow> string \<Rightarrow> nat option" where
  "parseDigits acc [] = Some acc"
| "parseDigits acc (c # s) =
     (case digitVal c of None \<Rightarrow> None | Some d \<Rightarrow> parseDigits (10 * acc + d) s)"

text \<open>\<open>strconv.Atoi\<close> and \<open>ParseInt(s, 10, 64)\<close>: an optional sign, at least one digit, the int64 range.\<close>

definition Atoi :: "string \<Rightarrow> int option" where
  "Atoi s =
     (let (neg, ds) = (case s of c # r \<Rightarrow> if c = CHR ''+'' then (False, r)
                                         else if c = CHR ''-'' then (True, r) else (False, s)
                       | [] \<Rightarrow> (False, []))
      in if ds = [] then None
         else case parseDigits 0 ds of None \<Rightarrow> None
              | Some n \<Rightarrow> if neg then (if n > 2 ^ 63 then None else Some (- int n))
                          else (if n \<ge> 2 ^ 63 then None else Some (int n)))"

fun itoaNat :: "nat \<Rightarrow> string" where
  "itoaNat n = (if n < 10 then [''0123456789'' ! n] else itoaNat (n div 10) @ [''0123456789'' ! (n mod 10)])"

declare itoaNat.simps [simp del]

definition Itoa :: "int \<Rightarrow> string" where
  "Itoa n = (if n < 0 then CHR ''-'' # itoaNat (nat (- n)) else itoaNat (nat n))"

subsection \<open>Package encoding/hex\<close>

definition hexDigit :: "string \<Rightarrow> nat \<Rightarrow> char" where
  "hexDigit alphabet n = alphabet ! n"

definition hexLower :: string where "hexLower = ''0123456789abcdef''"
definition hexUpper :: string where "hexUpper = ''0123456789ABCDEF''"

definition hexEncode :: "bytes \<Rightarrow> string" where
  "hexEncode b = concat (map (\<lambda>c. [hexDigit hexLower (of_char c div 16), hexDigit hexLower (of_char c mod 16)]) b)"

fun hexDecode :: "string \<Rightarrow> bytes option" where
  "hexDecode [] = Some []"
| "hexDecode [c] = None"
| "hexDecode (a # b # s) =
     (case (indexByte hexLower (lowerChar a), indexByte hexLower (lowerChar b)) of
        (Some x, Some y) \<Rightarrow> map_option (\<lambda>t. char_of (16 * x + y) # t) (hexDecode s)
      | _ \<Rightarrow> None)"

lemma hexDigit_index: "n < 16 \<Longrightarrow> indexByte hexLower (lowerChar (hexDigit hexLower n)) = Some n"
proof -
  have "\<forall>n \<in> set [0..<16]. indexByte hexLower (lowerChar (hexDigit hexLower n)) = Some n" by code_simp
  then show "n < 16 \<Longrightarrow> indexByte hexLower (lowerChar (hexDigit hexLower n)) = Some n" by simp
qed

lemma hexDecode_hexEncode [simp]: "hexDecode (hexEncode b) = Some b"
proof (induction b)
  case (Cons c b)
  have "of_char c mod (256 :: nat) < 256" by (rule mod_less_divisor) simp
  then have c: "of_char c < (256 :: nat)" by simp
  then have "of_char c div 16 < (16 :: nat)" "of_char c mod 16 < (16 :: nat)" by (simp_all add: less_mult_imp_div_less)
  then show ?case using Cons hexDigit_index by (simp add: hexEncode_def)
qed (simp add: hexEncode_def)

subsection \<open>Package path\<close>

text \<open>
  A slash-separated path is kept as its list of segments; empty segments (from a doubled or trailing
  slash) are dropped and \<open>cleanSegs\<close> resolves \<open>.\<close> and \<open>..\<close>, as \<open>path.Clean\<close> does on a relative path.
  Cleaning the parts of a path before joining them or cleaning only the joined path is the same, so
  \<open>path.Join\<close> is concatenation and the cleaning is done once, where a path meets the file system.
\<close>

type_synonym path = "string list"

definition segs :: "string \<Rightarrow> path" where
  "segs s = filter (\<lambda>x. x \<noteq> []) (splitOn (CHR ''/'') s)"

definition pjoin :: "string \<Rightarrow> string \<Rightarrow> string" where
  "pjoin a b = a @ ''/'' @ b"

lemma splitOn_append_sep: "splitOn b (x @ b # s) = splitOn b x @ splitOn b s"
proof (induction x)
  case (Cons c x)
  then show ?case by (cases "splitOn b x") auto
qed simp

lemma segs_pjoin [simp]: "segs (pjoin a b) = segs a @ segs b"
  by (simp add: segs_def pjoin_def splitOn_append_sep)

text \<open>The segments already resolved, last first, and those to come.\<close>

fun cleanSegs :: "path \<Rightarrow> path \<Rightarrow> path" where
  "cleanSegs acc [] = rev acc"
| "cleanSegs acc (x # xs) =
     (if x = ''.'' then cleanSegs acc xs
      else if x = ''..'' then
        (case acc of [] \<Rightarrow> cleanSegs [''..''] xs
         | a # as \<Rightarrow> if a = ''..'' then cleanSegs (''..'' # acc) xs else cleanSegs as xs)
      else cleanSegs (x # acc) xs)"

abbreviation plainSeg :: "string \<Rightarrow> bool" where
  "plainSeg x \<equiv> x \<noteq> ''.'' \<and> x \<noteq> ''..''"

definition plainName :: "string \<Rightarrow> bool" where
  "plainName s \<longleftrightarrow> s \<noteq> [] \<and> CHR ''/'' \<notin> set s \<and> plainSeg s"

lemma cleanSegs_append: "cleanSegs acc (xs @ ys) = cleanSegs (rev (cleanSegs acc xs)) ys"
  by (induction acc xs rule: cleanSegs.induct) (auto split: list.splits)

lemma cleanSegs_plain: "\<forall>x \<in> set xs. plainSeg x \<Longrightarrow> cleanSegs acc xs = rev acc @ xs"
  by (induction xs arbitrary: acc) auto

lemma segs_single: "s \<noteq> [] \<Longrightarrow> CHR ''/'' \<notin> set s \<Longrightarrow> segs s = [s]"
  by (simp add: segs_def splitOn_no_sep)

lemma segs_empty [simp]: "segs [] = []"
  by (simp add: segs_def)

lemma segs_plainName: "plainName s \<Longrightarrow> segs s = [s]"
  by (simp add: plainName_def segs_single)

definition unsegs :: "path \<Rightarrow> string" where
  "unsegs p = joinWith ''/'' p"

subsection \<open>Package hash/fnv\<close>

unbundle bit_operations_syntax

definition fnv32a_step :: "32 word \<Rightarrow> char \<Rightarrow> 32 word" where
  "fnv32a_step h c = (h XOR of_nat (of_char c)) * 16777619"

definition fnv32a :: "string \<Rightarrow> 32 word" where
  "fnv32a s = fold (\<lambda>c h. fnv32a_step h c) s 2166136261"

subsection \<open>Counting in lists\<close>

definition countTrue :: "bool list \<Rightarrow> nat" where
  "countTrue bs = length (filter id bs)"

lemma countTrue_simps [simp]:
  "countTrue [] = 0" "countTrue (b # bs) = (if b then 1 else 0) + countTrue bs"
  by (simp_all add: countTrue_def)

lemma countTrue_le [simp]: "countTrue bs \<le> length bs"
  by (simp add: countTrue_def)

lemma filter_overlap:
  assumes "length xs < length (filter P xs) + length (filter Q xs)"
  shows "\<exists>x \<in> set xs. P x \<and> Q x"
proof (rule ccontr)
  assume none: "\<not> ?thesis"
  then have "length (filter P xs) + length (filter Q xs) \<le> length xs"
    by (induction xs) auto
  with assms show False by simp
qed

lemma length_filter_mono:
  "(\<And>x. x \<in> set xs \<Longrightarrow> P x \<Longrightarrow> Q x) \<Longrightarrow> length (filter P xs) \<le> length (filter Q xs)"
  by (induction xs) (auto simp: le_SucI)

text \<open>Two quorums over the same index range share an index.\<close>

lemma quorum_overlap:
  assumes "n < length (filter P [0..<n]) + length (filter Q [0..<n])"
  shows "\<exists>i < n. P i \<and> Q i"
  using filter_overlap [of "[0..<n]" P Q] assms by auto

lemma filter_nth_eq:
  "length (filter P xs) = length (filter (\<lambda>i. P (xs ! i)) [0..<length xs])"
proof -
  have "filter P xs = filter P (map ((!) xs) [0..<length xs])" by (simp add: map_nth)
  then show ?thesis by (simp add: filter_map o_def)
qed

text \<open>Reading a range of a concatenation piece by piece.\<close>

lemma take_drop_split:
  "take r (drop i a) @ take (r - length (take r (drop i a))) (drop (i - length a) b) = take r (drop i (a @ b))"
  by (simp add: min_def)

end
