(* ===== verification/SigV4.thy ===== *)
theory SigV4
  imports Prelude
begin

text \<open>
  AWS Signature Version 4 as implemented by \<open>internal/auth\<close>: URI encoding and canonical
  query strings (\<open>canonical.go\<close>), the credential store (\<open>credentials.go\<close>), the header
  parser, the canonical request and the signing key (\<open>sigv4.go\<close>), and the request checks of
  \<open>internal/api/middleware_auth.go\<close>. The hash functions (\<open>crypto/hmac\<close>,
  \<open>crypto/sha256\<close>) are the fields of the record \<open>crypto\<close>; \<open>time.Parse\<close> is a parameter
  of the checks. Header values are ASCII, where a rune is a byte.
\<close>

record crypto =
  hmacRaw :: "bytes \<Rightarrow> bytes \<Rightarrow> bytes"
  sha256Raw :: "bytes \<Rightarrow> bytes"

subsection \<open>Canonical encoding (canonical.go)\<close>

definition isAlnum :: "char \<Rightarrow> bool" where
  "isAlnum c = ((CHR ''A'' \<le> c \<and> c \<le> CHR ''Z'') \<or> (CHR ''a'' \<le> c \<and> c \<le> CHR ''z'') \<or> (CHR ''0'' \<le> c \<and> c \<le> CHR ''9''))"

definition pctByte :: "char \<Rightarrow> string" where
  "pctByte c = [CHR ''%'', hexDigit hexUpper (of_char c div 16), hexDigit hexUpper (of_char c mod 16)]"

definition encodePathByte :: "char \<Rightarrow> string" where
  "encodePathByte c =
     (if isAlnum c then [c] else if c \<in> set ''-_.~/'' then [c] else pctByte c)"

definition EncodePath :: "string \<Rightarrow> string" where
  "EncodePath p = (if p = [] then ''/'' else concat (map encodePathByte p))"

definition encodeQueryByte :: "char \<Rightarrow> string" where
  "encodeQueryByte c =
     (if isAlnum c then [c] else if c \<in> set ''-_.~'' then [c] else pctByte c)"

definition encodeQueryComponent :: "string \<Rightarrow> string" where
  "encodeQueryComponent s = concat (map encodeQueryByte s)"

definition CanonicalQuery :: "(string list) gomap \<Rightarrow> string list \<Rightarrow> string" where
  "CanonicalQuery q omit =
     (let keys = sort (filter (\<lambda>k. k \<notin> set omit) (map fst q));
          parts = concat (map (\<lambda>k. let vals = sort (the (map_of q k)); ek = encodeQueryComponent k
                                   in map (\<lambda>v. ek @ ''='' @ encodeQueryComponent v) vals) keys)
      in joinWith ''&'' parts)"

subsection \<open>Credential store (credentials.go)\<close>

record credentials =
  keys :: "string \<rightharpoonup> string"
  rootKey :: string

definition NewRoot :: "string \<Rightarrow> string \<Rightarrow> credentials" where
  "NewRoot ak sk = \<lparr>keys = [ak \<mapsto> sk], rootKey = ak\<rparr>"

definition credLookup :: "credentials \<Rightarrow> string \<Rightarrow> string option" where
  "credLookup c ak = keys c ak"

definition credIsRoot :: "credentials \<Rightarrow> string \<Rightarrow> bool" where
  "credIsRoot c ak = (ak = rootKey c)"

definition credAdd :: "string \<Rightarrow> string \<Rightarrow> credentials \<Rightarrow> credentials" where
  "credAdd ak sk c = c\<lparr>keys := (keys c)(ak \<mapsto> sk)\<rparr>"

definition credDelete :: "string \<Rightarrow> credentials \<Rightarrow> credentials" where
  "credDelete ak c = (if ak \<noteq> rootKey c then c\<lparr>keys := (keys c)(ak := None)\<rparr> else c)"

subsection \<open>Signatures (sigv4.go)\<close>

definition Algorithm :: string where "Algorithm = ''AWS4-HMAC-SHA256''"
definition UnsignedPayload :: string where "UnsignedPayload = ''UNSIGNED-PAYLOAD''"
definition terminator :: string where "terminator = ''aws4_request''"
definition EmptyStringSHA256 :: string where
  "EmptyStringSHA256 = ''e3b0c44298fc1c149afbf4c8996fb92427ae41e4649b934ca495991b7852b855''"

abbreviation newline :: string where "newline \<equiv> [CHR 0x0A]"

definition SHA256Hex :: "crypto \<Rightarrow> bytes \<Rightarrow> string" where
  "SHA256Hex cr b = hexEncode (sha256Raw cr b)"

definition SigningKey :: "crypto \<Rightarrow> string \<Rightarrow> string \<Rightarrow> string \<Rightarrow> string \<Rightarrow> bytes" where
  "SigningKey cr secret dateStamp region service =
     (let kDate = hmacRaw cr (''AWS4'' @ secret) dateStamp;
          kRegion = hmacRaw cr kDate region;
          kService = hmacRaw cr kRegion service
      in hmacRaw cr kService terminator)"

definition HexHMACSHA256 :: "crypto \<Rightarrow> bytes \<Rightarrow> string \<Rightarrow> string" where
  "HexHMACSHA256 cr key d = hexEncode (hmacRaw cr key d)"

record credentialScope =
  ScopeAccessKey :: string
  ScopeDate :: string
  Region :: string
  Service :: string

definition scopeString :: "credentialScope \<Rightarrow> string" where
  "scopeString c = ScopeDate c @ ''/'' @ Region c @ ''/'' @ Service c @ ''/'' @ terminator"

record parsedAuthHeader =
  Scope :: credentialScope
  SignedHeaders :: "string list"
  Signature :: string

definition emptyAuthHeader :: parsedAuthHeader where
  "emptyAuthHeader = \<lparr>Scope = \<lparr>ScopeAccessKey = [], ScopeDate = [], Region = [], Service = []\<rparr>,
     SignedHeaders = [], Signature = []\<rparr>"

fun parseAuthParts :: "string list \<Rightarrow> parsedAuthHeader \<Rightarrow> parsedAuthHeader option" where
  "parseAuthParts [] out = Some out"
| "parseAuthParts (part0 # rest) out =
     (let part = trimSpaceS part0
      in if hasPrefix part ''Credential='' then
           (case splitOn (CHR ''/'') (trimPrefix part ''Credential='') of
              [a, d, r, s, t] \<Rightarrow> parseAuthParts rest
                (out\<lparr>Scope := \<lparr>ScopeAccessKey = a, ScopeDate = d, Region = r, Service = s\<rparr>\<rparr>)
            | _ \<Rightarrow> None)
         else if hasPrefix part ''SignedHeaders='' then
           parseAuthParts rest
             (out\<lparr>SignedHeaders := splitOn (CHR '';'') (trimPrefix part ''SignedHeaders='')\<rparr>)
         else if hasPrefix part ''Signature='' then
           parseAuthParts rest (out\<lparr>Signature := trimPrefix part ''Signature=''\<rparr>)
         else parseAuthParts rest out)"

definition ParseAuthHeader :: "string \<Rightarrow> parsedAuthHeader option" where
  "ParseAuthHeader v =
     (if \<not> hasPrefix v (Algorithm @ '' '') then None
      else case parseAuthParts (splitOn (CHR '','') (drop (length Algorithm + 1) v)) emptyAuthHeader of
        None \<Rightarrow> None
      | Some out \<Rightarrow>
          if ScopeAccessKey (Scope out) = [] \<or> length (SignedHeaders out) = 0 \<or> Signature out = []
          then None
          else Some (out\<lparr>SignedHeaders := sort (SignedHeaders out)\<rparr>))"

text \<open>\<open>trimAll\<close>: the loop over the trimmed value, with the pending-space flag.\<close>

fun trimLoop :: "bool \<Rightarrow> string \<Rightarrow> string \<Rightarrow> string" where
  "trimLoop space b [] = b"
| "trimLoop space b (r # rs) =
     (if r = CHR '' '' \<or> r = CHR 0x09 then trimLoop True b rs
      else trimLoop False ((if space \<and> b \<noteq> [] then b @ '' '' else b) @ [r]) rs)"

definition trimAll :: "string \<Rightarrow> string" where
  "trimAll s = trimLoop False [] (trimSpaceS s)"

definition CanonicalRequest ::
  "string \<Rightarrow> string \<Rightarrow> string \<Rightarrow> string list \<Rightarrow> (string \<Rightarrow> string) \<Rightarrow> string \<Rightarrow> string" where
  "CanonicalRequest method canonURI canonQuery signedHeaders headerLookup hashedPayload =
     (let ch = concat (map (\<lambda>h. h @ '':'' @ trimAll (headerLookup h) @ newline) signedHeaders)
      in method @ newline @ canonURI @ newline @ canonQuery @ newline @ ch @ newline
         @ joinWith '';'' signedHeaders @ newline @ hashedPayload)"

definition StringToSign :: "crypto \<Rightarrow> string \<Rightarrow> credentialScope \<Rightarrow> string \<Rightarrow> string" where
  "StringToSign cr amzDate scope canonicalRequest =
     Algorithm @ newline @ amzDate @ newline @ scopeString scope @ newline
     @ SHA256Hex cr canonicalRequest"

definition SecureCompare :: "string \<Rightarrow> string \<Rightarrow> bool" where
  "SecureCompare a b = (a = b)"

subsection \<open>Request authentication (middleware\_auth.go)\<close>

text \<open>
  A request is its method, decoded URL path, query values, header lookup (\<open>r.Header.Get\<close> is
  case-insensitive in the name, which the lookup function carries), host and content length.
\<close>

record httpReq =
  Method :: string
  URLPath :: string
  Query :: "(string list) gomap"
  Header :: "string \<Rightarrow> string"
  Host :: string
  ContentLength :: int

datatype authCode = ErrNone | ErrAuthHeaderEmpty | ErrInvalidAccessKeyID | ErrMissingDateHeader
  | ErrRequestTimeTooSkewed | ErrSignatureDoesNotMatch | ErrUnsupportedSignatureVersion
  | ErrInvalidArgument

definition maxClockSkew :: time where "maxClockSkew = 15 * 60 * second"

definition queryGet :: "httpReq \<Rightarrow> string \<Rightarrow> string" where
  "queryGet r k = (case map_of (Query r) k of Some (v # _) \<Rightarrow> v | _ \<Rightarrow> [])"

text \<open>\<open>headerLookup\<close>; \<open>itoa\<close> is \<open>strconv.FormatInt\<close>.\<close>

definition headerLookup :: "(int \<Rightarrow> string) \<Rightarrow> httpReq \<Rightarrow> string \<Rightarrow> string" where
  "headerLookup itoa r name =
     (if toLower name = ''host'' then Host r
      else if toLower name = ''content-length'' then
        (if ContentLength r \<ge> 0 then itoa (ContentLength r) else Header r ''Content-Length'')
      else Header r name)"

record authEnv =
  cry :: crypto
  lookupSecret :: "string \<Rightarrow> string option"
  parseAMZDate :: "string \<Rightarrow> time option"
  formatInt :: "int \<Rightarrow> string"
  atoi :: "string \<Rightarrow> int"

record chunkOpts =
  SeedSignature :: string
  ChunkKey :: bytes
  ChunkDate :: string
  ChunkScope :: credentialScope
  Verify :: bool

text \<open>The signature the server expects for a request.\<close>

definition expectedSignature ::
  "authEnv \<Rightarrow> httpReq \<Rightarrow> credentialScope \<Rightarrow> string list \<Rightarrow> string \<Rightarrow> string \<Rightarrow> string \<Rightarrow> string \<Rightarrow> string" where
  "expectedSignature env r scope shs canonQuery amzDate hashedPayload secret =
     (let canonReq = CanonicalRequest (Method r) (EncodePath (URLPath r)) canonQuery shs
                       (headerLookup (formatInt env) r) hashedPayload;
          sts = StringToSign (cry env) amzDate scope canonReq;
          key = SigningKey (cry env) secret (ScopeDate scope) (Region scope) (Service scope)
      in HexHMACSHA256 (cry env) key sts)"

definition verifyHeader ::
  "authEnv \<Rightarrow> time \<Rightarrow> bool \<Rightarrow> httpReq \<Rightarrow> string \<Rightarrow> chunkOpts option \<times> string \<times> authCode" where
  "verifyHeader env now skipChunkVerify r authHeader =
     (case ParseAuthHeader authHeader of
        None \<Rightarrow> (None, [], ErrAuthHeaderEmpty)
      | Some parsed \<Rightarrow>
        (case lookupSecret env (ScopeAccessKey (Scope parsed)) of
           None \<Rightarrow> (None, [], ErrInvalidAccessKeyID)
         | Some secret \<Rightarrow>
           (let ak = ScopeAccessKey (Scope parsed);
                amzDate0 = Header r ''X-Amz-Date'';
                amzDate = (if amzDate0 = [] then Header r ''Date'' else amzDate0)
            in if amzDate = [] then (None, [], ErrMissingDateHeader)
               else case parseAMZDate env amzDate of
                 None \<Rightarrow> (None, [], ErrMissingDateHeader)
               | Some t \<Rightarrow>
                 (if \<bar>now - t\<bar> > maxClockSkew then (None, [], ErrRequestTimeTooSkewed)
                  else
                    (let hp0 = Header r ''X-Amz-Content-Sha256'';
                         hashedPayload = (if hp0 = [] then UnsignedPayload else hp0);
                         want = expectedSignature env r (Scope parsed) (SignedHeaders parsed)
                                  (CanonicalQuery (Query r) []) amzDate hashedPayload secret
                     in if \<not> SecureCompare want (Signature parsed) then (None, [], ErrSignatureDoesNotMatch)
                        else if hasPrefix hashedPayload ''STREAMING-'' then
                          (Some \<lparr>SeedSignature = Signature parsed,
                             ChunkKey = SigningKey (cry env) secret (ScopeDate (Scope parsed))
                                          (Region (Scope parsed)) (Service (Scope parsed)),
                             ChunkDate = amzDate, ChunkScope = Scope parsed,
                             Verify = contains hashedPayload ''AWS4-HMAC-SHA256'' \<and> \<not> skipChunkVerify\<rparr>,
                           ak, ErrNone)
                        else (None, ak, ErrNone))))))"

fun insertBack :: "string \<Rightarrow> string list \<Rightarrow> string list" where
  "insertBack x [] = [x]"
| "insertBack x (y # ys) = (if y > x then y # insertBack x ys else x # y # ys)"

text \<open>
  \<open>sortedLower\<close>: lower-case and trim, then the in-place insertion sort; \<open>insertBack\<close> is the
  inner loop, which moves an element left past every greater one (the sorted part is kept
  reversed).
\<close>

definition sortedLower :: "string list \<Rightarrow> string list" where
  "sortedLower hs = rev (fold insertBack (map (\<lambda>h. toLower (trimSpaceS h)) hs) [])"

definition verifyPresigned :: "authEnv \<Rightarrow> time \<Rightarrow> httpReq \<Rightarrow> string \<times> authCode" where
  "verifyPresigned env now r =
     (if queryGet r ''X-Amz-Algorithm'' \<noteq> Algorithm then ([], ErrUnsupportedSignatureVersion)
      else case splitOn (CHR ''/'') (queryGet r ''X-Amz-Credential'') of
        [a, d, rg, s, t0] \<Rightarrow>
          (let scope = \<lparr>ScopeAccessKey = a, ScopeDate = d, Region = rg, Service = s\<rparr>
           in case lookupSecret env a of
                None \<Rightarrow> ([], ErrInvalidAccessKeyID)
              | Some secret \<Rightarrow>
                (case parseAMZDate env (queryGet r ''X-Amz-Date'') of
                   None \<Rightarrow> ([], ErrMissingDateHeader)
                 | Some t \<Rightarrow>
                   (let expSecs = atoi env (queryGet r ''X-Amz-Expires'')
                    in if expSecs \<le> 0 \<or> expSecs > 7 * 24 * 3600 then ([], ErrInvalidArgument)
                       else if now > t + expSecs * second then ([], ErrRequestTimeTooSkewed)
                       else
                         (let shs = sortedLower (splitOn (CHR '';'') (queryGet r ''X-Amz-SignedHeaders''));
                              want = expectedSignature env r scope shs
                                       (CanonicalQuery (Query r) [''X-Amz-Signature''])
                                       (queryGet r ''X-Amz-Date'') UnsignedPayload secret
                          in if \<not> SecureCompare want (queryGet r ''X-Amz-Signature'')
                             then ([], ErrSignatureDoesNotMatch)
                             else (a, ErrNone)))))
      | _ \<Rightarrow> ([], ErrInvalidArgument))"

definition authenticate ::
  "authEnv \<Rightarrow> time \<Rightarrow> bool \<Rightarrow> httpReq \<Rightarrow> chunkOpts option \<times> string \<times> authCode" where
  "authenticate env now skipChunkVerify r =
     (let authHeader = Header r ''Authorization'';
          isPresign = (queryGet r ''X-Amz-Signature'' \<noteq> [])
      in if authHeader = [] \<and> \<not> isPresign then (None, [], ErrNone)
         else if isPresign then (let (ak, code) = verifyPresigned env now r in (None, ak, code))
         else verifyHeader env now skipChunkVerify r authHeader)"

subsection \<open>URI encoding is invertible\<close>

definition hexVal :: "char \<Rightarrow> nat option" where
  "hexVal c = indexByte hexUpper c"

text \<open>The reference decoder: percent escapes with upper-case hexadecimal digits.\<close>

fun pctDecode :: "string \<Rightarrow> string option" where
  "pctDecode [] = Some []"
| "pctDecode (c # s) =
     (if c = CHR ''%'' then
        (case s of h # l # rest \<Rightarrow>
           (case (hexVal h, hexVal l) of
              (Some a, Some b) \<Rightarrow> map_option (\<lambda>t. char_of (16 * a + b) # t) (pctDecode rest)
            | _ \<Rightarrow> None)
         | _ \<Rightarrow> None)
      else map_option (\<lambda>t. c # t) (pctDecode s))"

lemma hexVal_hexDigit: "n < 16 \<Longrightarrow> hexVal (hexDigit hexUpper n) = Some n"
proof -
  have "\<forall>n \<in> set [0..<16]. hexVal (hexDigit hexUpper n) = Some n" by code_simp
  then show "n < 16 \<Longrightarrow> ?thesis" by auto
qed

lemma of_char_bound: "of_char c < (256 :: nat)"
  using nat_of_char_less_256 [of c] by simp

lemma pctDecode_pctByte [simp]: "pctDecode (pctByte c @ s) = map_option (\<lambda>t. c # t) (pctDecode s)"
proof -
  obtain n :: nat where n: "n = of_char c" by simp
  have "n < 256" unfolding n by (rule of_char_bound)
  then have "n div 16 < 16" and "n mod 16 < 16" by auto
  moreover have "char_of (16 * (n div 16) + n mod 16) = c" by (simp add: n)
  ultimately show ?thesis
    by (simp add: pctByte_def hexVal_hexDigit flip: n)
qed

lemma pctDecode_plain: "c \<noteq> CHR ''%'' \<Longrightarrow> pctDecode (c # s) = map_option (\<lambda>t. c # t) (pctDecode s)"
  by simp

lemma isAlnum_pct: "\<not> isAlnum (CHR ''%'')"
  by (simp add: isAlnum_def less_eq_char_def)

lemma pctDecode_pathByte: "pctDecode (encodePathByte c @ s) = map_option (\<lambda>t. c # t) (pctDecode s)"
  using isAlnum_pct by (auto simp: encodePathByte_def simp del: pctDecode.simps(2) intro!: pctDecode_plain)

lemma pctDecode_queryByte: "pctDecode (encodeQueryByte c @ s) = map_option (\<lambda>t. c # t) (pctDecode s)"
  using isAlnum_pct by (auto simp: encodeQueryByte_def simp del: pctDecode.simps(2) intro!: pctDecode_plain)

text \<open>
  The URI encoding used in canonical requests loses nothing: decoding an encoded query
  component or an encoded non-empty path gives it back, so two different paths or parameters
  never have the same canonical form.
\<close>

theorem encode_roundtrip:
  "pctDecode (encodeQueryComponent s) = Some s \<and> pctDecode (EncodePath (c # p)) = Some (c # p)"
proof
  show "pctDecode (encodeQueryComponent s) = Some s"
    by (induction s) (auto simp: encodeQueryComponent_def pctDecode_queryByte)
  have "pctDecode (concat (map encodePathByte q)) = Some q" for q
    by (induction q) (auto simp: pctDecode_pathByte)
  from this [of "c # p"] show "pctDecode (EncodePath (c # p)) = Some (c # p)"
    by (simp add: EncodePath_def)
qed

subsection \<open>Canonical query strings do not depend on map order\<close>

lemma map_of_perm:
  assumes "mset q = mset q'" "distinct (map fst q)"
  shows "map_of q = map_of q'"
proof -
  have st: "set q = set q'" using assms(1) by (rule mset_eq_setD)
  have "mset (map fst q) = mset (map fst q')" using assms(1) by (simp add: mset_map)
  then have d: "distinct (map fst q')" using assms(2) mset_eq_imp_distinct_iff by blast
  show ?thesis by (rule map_of_inject_set [THEN iffD2, OF assms(2) d st])
qed

lemma CanonicalQuery_perm:
  assumes "mset q = mset q'" "distinct (map fst q)"
  shows "CanonicalQuery q omit = CanonicalQuery q' omit"
proof -
  have "mset (filter (\<lambda>k. k \<notin> set omit) (map fst q)) = mset (filter (\<lambda>k. k \<notin> set omit) (map fst q'))"
    using assms(1) by (simp add: mset_map mset_filter)
  then have "sort (filter (\<lambda>k. k \<notin> set omit) (map fst q)) = sort (filter (\<lambda>k. k \<notin> set omit) (map fst q'))"
    by (intro properties_for_sort) simp_all
  then show ?thesis
    using map_of_perm [OF assms] by (simp add: CanonicalQuery_def)
qed

subsection \<open>The insertion sort of the signed headers\<close>

lemma mset_insertBack: "mset (insertBack x ys) = add_mset x (mset ys)"
  by (induction ys) auto

lemma sorted_insertBack: "sorted_wrt (\<ge>) ys \<Longrightarrow> sorted_wrt (\<ge>) (insertBack x ys)"
proof (induction ys)
  case (Cons y ys)
  have "set (insertBack x ys) = insert x (set ys)"
    by (metis mset_insertBack set_mset_add_mset_insert set_mset_mset)
  with Cons show ?case by auto
qed simp

lemma sortedLower_sort: "sortedLower hs = sort (map (\<lambda>h. toLower (trimSpaceS h)) hs)"
proof -
  have f: "sorted_wrt (\<ge>) acc \<Longrightarrow> sorted_wrt (\<ge>) (fold insertBack xs acc)
        \<and> mset (fold insertBack xs acc) = mset xs + mset acc" for xs acc
    by (induction xs arbitrary: acc) (auto simp: sorted_insertBack mset_insertBack)
  let ?xs = "map (\<lambda>h. toLower (trimSpaceS h)) hs"
  from f [of "[]" ?xs] have s: "sorted_wrt (\<ge>) (fold insertBack ?xs [])"
    and m: "mset (fold insertBack ?xs []) = mset ?xs" by auto
  have "sorted (rev (fold insertBack ?xs []))" using s by (simp add: sorted_wrt_rev)
  moreover have "mset (rev (fold insertBack ?xs [])) = mset ?xs" using m by simp
  ultimately show ?thesis unfolding sortedLower_def by (metis properties_for_sort)
qed

subsection \<open>The command-line client's signer (gostorecli/cli.go)\<close>

text \<open>
  \<open>signV4\<close> sets three headers on the request; \<open>amzDate\<close> and \<open>dateStamp\<close> are the two
  formats of the current time, and \<open>Host\<close> is both the URL's host the client signs and the
  host the server receives.
\<close>

definition setHeader :: "string \<Rightarrow> string \<Rightarrow> httpReq \<Rightarrow> httpReq" where
  "setHeader name v r = r\<lparr>Header := (\<lambda>n. if toLower n = toLower name then v else Header r n)\<rparr>"

definition cliScope :: "string \<Rightarrow> string \<Rightarrow> string" where
  "cliScope dateStamp region = dateStamp @ ''/'' @ region @ ''/s3/aws4_request''"

definition cliSigned :: string where "cliSigned = ''host;x-amz-content-sha256;x-amz-date''"

definition signV4 ::
  "crypto \<Rightarrow> string \<Rightarrow> string \<Rightarrow> httpReq \<Rightarrow> bytes \<Rightarrow> string \<Rightarrow> string \<Rightarrow> string \<Rightarrow> httpReq" where
  "signV4 cr amzDate dateStamp req payload ak sk region =
     (let ph = SHA256Hex cr payload;
          req1 = setHeader ''X-Amz-Content-Sha256'' ph (setHeader ''X-Amz-Date'' amzDate req);
          canonHeaders = ''host:'' @ Host req @ newline @ ''x-amz-content-sha256:'' @ ph @ newline
                         @ ''x-amz-date:'' @ amzDate @ newline;
          canonReq = Method req @ newline @ EncodePath (URLPath req) @ newline
                     @ CanonicalQuery (Query req) [] @ newline @ canonHeaders @ newline
                     @ cliSigned @ newline @ ph;
          scope = cliScope dateStamp region;
          sts = ''AWS4-HMAC-SHA256'' @ newline @ amzDate @ newline @ scope @ newline
                @ SHA256Hex cr canonReq;
          k1 = hmacRaw cr (''AWS4'' @ sk) dateStamp;
          k2 = hmacRaw cr k1 region;
          k3 = hmacRaw cr k2 ''s3'';
          k4 = hmacRaw cr k3 ''aws4_request'';
          sig = hexEncode (hmacRaw cr k4 sts)
      in setHeader ''Authorization''
           (''AWS4-HMAC-SHA256 Credential='' @ ak @ ''/'' @ scope @ '', SignedHeaders='' @ cliSigned
            @ '', Signature='' @ sig) req1)"

lemma splitOn_sep: "b \<notin> set x \<Longrightarrow> splitOn b (x @ b # s) = x # splitOn b s"
  by (induction x) auto

lemma trimSpaceS_id: "\<forall>c\<in>set s. \<not> isSpace c \<Longrightarrow> trimSpaceS s = s"
proof -
  have d: "\<forall>c\<in>set t. \<not> isSpace c \<Longrightarrow> dropWhile isSpace t = t" for t by (cases t) auto
  assume "\<forall>c\<in>set s. \<not> isSpace c"
  then show ?thesis by (simp add: trimSpaceS_def d)
qed

lemma trimSpaceS_space: "trimSpaceS (CHR '' '' # s) = trimSpaceS s"
  by (simp add: trimSpaceS_def isSpace_def)

lemma trimLoop_id: "\<forall>c\<in>set s. \<not> isSpace c \<Longrightarrow> trimLoop False b s = b @ s"
  by (induction s arbitrary: b) (auto simp: isSpace_def)

lemma trimAll_id: "\<forall>c\<in>set s. \<not> isSpace c \<Longrightarrow> trimAll s = s"
  by (simp add: trimAll_def trimSpaceS_id trimLoop_id)

definition plainChar :: "char \<Rightarrow> bool" where
  "plainChar c = (\<not> isSpace c \<and> c \<noteq> CHR ''/'' \<and> c \<noteq> CHR '','')"

lemma hexEncode_plain: "c \<in> set (hexEncode b) \<Longrightarrow> plainChar c"
proof -
  have "\<forall>n \<in> set [0..<16]. plainChar (hexDigit hexLower n)" by code_simp
  then have h: "n < 16 \<Longrightarrow> plainChar (hexDigit hexLower n)" for n by auto
  have d: "(of_char x :: nat) div 16 < 16" for x :: char
    by (rule less_mult_imp_div_less) (use of_char_bound [of x] in simp)
  assume "c \<in> set (hexEncode b)"
  then show ?thesis by (auto simp: hexEncode_def h d)
qed

lemma hexEncode_Nil: "hexEncode b = [] \<longleftrightarrow> b = []"
  by (cases b) (auto simp: hexEncode_def)

text \<open>The header a client writes, as the server reads it.\<close>

lemma ParseAuthHeader_client:
  assumes ak: "\<forall>c\<in>set ak. plainChar c" "ak \<noteq> []"
    and ds: "\<forall>c\<in>set dateStamp. plainChar c" and rg: "\<forall>c\<in>set region. plainChar c"
    and sig: "\<forall>c\<in>set sig. plainChar c" "sig \<noteq> []"
  shows "ParseAuthHeader (''AWS4-HMAC-SHA256 Credential='' @ ak @ ''/'' @ cliScope dateStamp region
           @ '', SignedHeaders='' @ cliSigned @ '', Signature='' @ sig) =
         Some \<lparr>Scope = \<lparr>ScopeAccessKey = ak, ScopeDate = dateStamp, Region = region, Service = ''s3''\<rparr>,
               SignedHeaders = [''host'', ''x-amz-content-sha256'', ''x-amz-date''], Signature = sig\<rparr>"
proof -
  let ?cred = "''Credential='' @ ak @ ''/'' @ cliScope dateStamp region"
  let ?sh = "''SignedHeaders='' @ cliSigned" and ?sg = "''Signature='' @ sig"
  have comma: "CHR '','' \<notin> set ak" "CHR '','' \<notin> set dateStamp" "CHR '','' \<notin> set region"
    "CHR '','' \<notin> set sig" using ak ds rg sig plainChar_def by blast+
  have slash: "CHR ''/'' \<notin> set ak" "CHR ''/'' \<notin> set dateStamp" "CHR ''/'' \<notin> set region"
    using ak ds rg plainChar_def by blast+
  have sp: "\<forall>c\<in>set ak. \<not> isSpace c" "\<forall>c\<in>set dateStamp. \<not> isSpace c"
    "\<forall>c\<in>set region. \<not> isSpace c" "\<forall>c\<in>set sig. \<not> isSpace c"
    using ak ds rg sig plainChar_def by blast+
  have lit: "\<forall>c\<in>set ''Credential=''. \<not> isSpace c" "\<forall>c\<in>set ''Signature=''. \<not> isSpace c"
    "\<forall>c\<in>set ''/s3/aws4_request''. \<not> isSpace c" "\<forall>c\<in>set ''/''. \<not> isSpace c" by code_simp+
  have nc: "CHR '','' \<notin> set ?cred" "CHR '','' \<notin> set ('' '' @ ?sh)" "CHR '','' \<notin> set ('' '' @ ?sg)"
    by (simp_all add: comma cliScope_def cliSigned_def)
  have parts: "splitOn (CHR '','') (?cred @ CHR '','' # ('' '' @ ?sh) @ CHR '','' # '' '' @ ?sg)
                 = [?cred, '' '' @ ?sh, '' '' @ ?sg]"
    by (simp only: splitOn_sep [OF nc(1)] splitOn_sep [OF nc(2)] splitOn_no_sep [OF nc(3)])
  have t1: "trimSpaceS ?cred = ?cred"
    using sp lit by (intro trimSpaceS_id) (simp only: cliScope_def set_append ball_Un)
  have t2: "trimSpaceS ('' '' @ ?sh) = ?sh" by code_simp
  have "trimSpaceS ('' '' @ ?sg) = trimSpaceS ?sg" using trimSpaceS_space by simp
  moreover have "trimSpaceS ?sg = ?sg"
    using sp lit by (intro trimSpaceS_id) (simp only: set_append ball_Un)
  ultimately have t3: "trimSpaceS ('' '' @ ?sg) = ?sg" by simp
  have scope: "splitOn (CHR ''/'') (ak @ ''/'' @ cliScope dateStamp region)
                 = [ak, dateStamp, region, ''s3'', ''aws4_request'']"
    by (simp add: cliScope_def splitOn_sep slash)
  have np: "\<not> hasPrefix ?sh ''Credential=''" "\<not> hasPrefix ?sg ''Credential=''"
    "\<not> hasPrefix ?sg ''SignedHeaders=''" by (simp_all add: hasPrefix_def)
  have shl: "splitOn (CHR '';'') cliSigned = [''host'', ''x-amz-content-sha256'', ''x-amz-date'']"
    by code_simp
  have p: "parseAuthParts [?cred, '' '' @ ?sh, '' '' @ ?sg] emptyAuthHeader =
        Some \<lparr>Scope = \<lparr>ScopeAccessKey = ak, ScopeDate = dateStamp, Region = region, Service = ''s3''\<rparr>,
              SignedHeaders = [''host'', ''x-amz-content-sha256'', ''x-amz-date''], Signature = sig\<rparr>"
    by (simp only: parseAuthParts.simps Let_def t1 t2 t3 hasPrefix_append if_True trimPrefix_append
          scope list.case np if_False shl emptyAuthHeader_def parsedAuthHeader.update_convs)
  have srt: "sort [''host'', ''x-amz-content-sha256'', ''x-amz-date'']
               = [''host'', ''x-amz-content-sha256'', ''x-amz-date'']" by code_simp
  have eq: "''AWS4-HMAC-SHA256 Credential='' @ ak @ ''/'' @ cliScope dateStamp region
           @ '', SignedHeaders='' @ cliSigned @ '', Signature='' @ sig
        = (Algorithm @ '' '') @ (?cred @ CHR '','' # ('' '' @ ?sh) @ CHR '','' # '' '' @ ?sg)"
    by (simp add: Algorithm_def)
  have hp: "hasPrefix ((Algorithm @ '' '') @ x) (Algorithm @ '' '') = True" for x
    by (simp only: hasPrefix_append)
  have dr: "drop (length Algorithm + 1) ((Algorithm @ '' '') @ x) = x" for x by simp
  show ?thesis
    unfolding ParseAuthHeader_def eq dr hp parts p
    using ak sig srt by (simp del: sort_key_simps)
qed

lemma toLower_headers:
  "toLower ''X-Amz-Date'' = ''x-amz-date''" "toLower ''x-amz-date'' = ''x-amz-date''"
  "toLower ''X-Amz-Content-Sha256'' = ''x-amz-content-sha256''"
  "toLower ''x-amz-content-sha256'' = ''x-amz-content-sha256''"
  "toLower ''Authorization'' = ''authorization''" "toLower ''host'' = ''host''"
  by code_simp+

lemma hex_not_streaming: "\<not> hasPrefix (hexEncode b) ''STREAMING-''"
proof
  have "\<forall>n \<in> set [0..<16]. hexDigit hexLower n \<noteq> CHR ''S''" by code_simp
  then have h: "n < 16 \<Longrightarrow> hexDigit hexLower n \<noteq> CHR ''S''" for n by auto
  have d: "(of_char x :: nat) div 16 < 16" for x :: char
    by (rule less_mult_imp_div_less) (use of_char_bound [of x] in simp)
  assume "hasPrefix (hexEncode b) ''STREAMING-''"
  then obtain r where "hexEncode b = ''STREAMING-'' @ r" by (auto simp: hasPrefix_iff)
  then show False using h d by (cases b) (auto simp: hexEncode_def)
qed

lemma expectedSignature_client:
  assumes host: "\<forall>c\<in>set (Host r). \<not> isSpace c" and date: "\<forall>c\<in>set amzDate. \<not> isSpace c"
    and h: "Header r ''x-amz-content-sha256'' = SHA256Hex (cry env) payload" "Header r ''x-amz-date'' = amzDate"
  shows "expectedSignature env r \<lparr>ScopeAccessKey = ak, ScopeDate = ds, Region = region, Service = ''s3''\<rparr>
           [''host'', ''x-amz-content-sha256'', ''x-amz-date''] (CanonicalQuery (Query r) []) amzDate
           (SHA256Hex (cry env) payload) sk =
         hexEncode (hmacRaw (cry env)
           (hmacRaw (cry env) (hmacRaw (cry env) (hmacRaw (cry env) (hmacRaw (cry env) (''AWS4'' @ sk) ds) region)
              ''s3'') ''aws4_request'')
           (''AWS4-HMAC-SHA256'' @ newline @ amzDate @ newline @ cliScope ds region @ newline
            @ SHA256Hex (cry env) (Method r @ newline @ EncodePath (URLPath r) @ newline
                @ CanonicalQuery (Query r) [] @ newline
                @ (''host:'' @ Host r @ newline @ ''x-amz-content-sha256:'' @ SHA256Hex (cry env) payload @ newline
                   @ ''x-amz-date:'' @ amzDate @ newline) @ newline
                @ cliSigned @ newline @ SHA256Hex (cry env) payload)))"
proof -
  have ph: "\<forall>c\<in>set (SHA256Hex (cry env) payload). \<not> isSpace c"
    unfolding SHA256Hex_def using hexEncode_plain plainChar_def by blast
  have lk: "headerLookup (formatInt env) r ''host'' = Host r"
    "headerLookup (formatInt env) r ''x-amz-content-sha256'' = SHA256Hex (cry env) payload"
    "headerLookup (formatInt env) r ''x-amz-date'' = amzDate"
    by (simp_all add: headerLookup_def toLower_headers h)
  show ?thesis
    by (simp add: expectedSignature_def CanonicalRequest_def StringToSign_def SigningKey_def Let_def
        HexHMACSHA256_def lk trimAll_id [OF ph] trimAll_id [OF host] trimAll_id [OF date]
        scopeString_def terminator_def cliScope_def cliSigned_def Algorithm_def)
qed

text \<open>
  C20: the command-line client and the server agree on signatures: a request signed by
  \<open>signV4\<close> with a key the server knows is authenticated as that key, for every method, path
  and query, whenever the clocks agree within the allowed skew. The digests are assumed
  non-empty, as SHA-256 digests are.
\<close>

theorem signV4_accepted:
  assumes digests: "\<forall>b. sha256Raw (cry env) b \<noteq> []" "\<forall>k d. hmacRaw (cry env) k d \<noteq> []"
    and key: "lookupSecret env ak = Some sk" "ak \<noteq> []"
    and plain: "\<forall>c\<in>set (ak @ dateStamp @ region). plainChar c"
    and clock: "parseAMZDate env amzDate = Some t" "\<bar>now - t\<bar> \<le> maxClockSkew" "amzDate \<noteq> []"
    and nosp: "\<forall>c\<in>set (Host req @ amzDate). \<not> isSpace c"
    and notpre: "queryGet req ''X-Amz-Signature'' = []"
  shows "authenticate env now skip (signV4 (cry env) amzDate dateStamp req payload ak sk region)
           = (None, ak, ErrNone)"
proof -
  let ?r = "signV4 (cry env) amzDate dateStamp req payload ak sk region"
  let ?ph = "SHA256Hex (cry env) payload"
  have same: "Method ?r = Method req" "URLPath ?r = URLPath req" "Query ?r = Query req" "Host ?r = Host req"
    by (simp_all add: signV4_def setHeader_def Let_def)
  have hd: "Header ?r ''X-Amz-Date'' = amzDate" "Header ?r ''X-Amz-Content-Sha256'' = ?ph"
    "Header ?r ''x-amz-content-sha256'' = ?ph" "Header ?r ''x-amz-date'' = amzDate"
    by (simp_all add: signV4_def setHeader_def Let_def toLower_headers)
  have phne: "?ph \<noteq> []" using digests by (simp add: SHA256Hex_def hexEncode_Nil)
  have st: "\<not> hasPrefix ?ph ''STREAMING-''" unfolding SHA256Hex_def by (rule hex_not_streaming)
  let ?scope = "\<lparr>ScopeAccessKey = ak, ScopeDate = dateStamp, Region = region, Service = ''s3''\<rparr>"
  let ?shs = "[''host'', ''x-amz-content-sha256'', ''x-amz-date'']"
  define want where "want = expectedSignature env ?r ?scope ?shs (CanonicalQuery (Query ?r) []) amzDate ?ph sk"
  have host: "\<forall>c\<in>set (Host ?r). \<not> isSpace c" and date: "\<forall>c\<in>set amzDate. \<not> isSpace c"
    using nosp same by auto
  have w: "want \<noteq> []" "\<forall>c\<in>set want. plainChar c"
    unfolding want_def expectedSignature_client [OF host date hd(3,4)]
    using digests hexEncode_plain by (blast intro: hexEncode_Nil [THEN iffD1])+
  have auth: "Header ?r ''Authorization'' = ''AWS4-HMAC-SHA256 Credential='' @ ak @ ''/''
      @ cliScope dateStamp region @ '', SignedHeaders='' @ cliSigned @ '', Signature='' @ want"
    unfolding want_def expectedSignature_client [OF host date hd(3,4)]
    unfolding same
    by (simp add: signV4_def setHeader_def Let_def)
  have parse: "ParseAuthHeader (Header ?r ''Authorization'') =
      Some \<lparr>Scope = ?scope, SignedHeaders = ?shs, Signature = want\<rparr>"
    unfolding auth using plain key w by (intro ParseAuthHeader_client) auto
  have "verifyHeader env now skip ?r (Header ?r ''Authorization'') = (None, ak, ErrNone)"
    using clock key phne st
    by (simp add: verifyHeader_def parse hd Let_def SecureCompare_def flip: want_def)
  moreover have "queryGet ?r ''X-Amz-Signature'' = []" using notpre same by (simp add: queryGet_def)
  moreover have "Header ?r ''Authorization'' \<noteq> []" unfolding auth by simp
  ultimately show ?thesis by (simp add: authenticate_def)
qed

definition wit_crypto :: crypto where
  "wit_crypto = \<lparr>hmacRaw = (\<lambda>k d. ''k''), sha256Raw = (\<lambda>b. ''h'')\<rparr>"

definition wit_authEnv :: authEnv where
  "wit_authEnv = \<lparr>cry = wit_crypto, lookupSecret = [''AK'' \<mapsto> ''SK''],
     parseAMZDate = (\<lambda>s. Some 100), formatInt = (\<lambda>i. ''0''), atoi = (\<lambda>s. 0)\<rparr>"

definition wit_req :: httpReq where
  "wit_req = \<lparr>Method = ''GET'', URLPath = ''/b/a key'', Query = [(''prefix'', [''x''])],
     Header = (\<lambda>n. []), Host = ''s3.local:9000'', ContentLength = 0\<rparr>"

theorem signV4_accepted_witness:
  "authenticate wit_authEnv 100 False
     (signV4 wit_crypto ''20240101T000000Z'' ''20240101'' wit_req [] ''AK'' ''SK'' ''us-east-1'')
   = (None, ''AK'', ErrNone)"
proof -
  have p: "\<forall>c\<in>set (''AK'' @ ''20240101'' @ ''us-east-1''). plainChar c" by code_simp
  have n: "\<forall>c\<in>set (Host wit_req @ ''20240101T000000Z''). \<not> isSpace c" by code_simp
  have q: "queryGet wit_req ''X-Amz-Signature'' = []" by code_simp
  have c: "cry wit_authEnv = wit_crypto" by (simp add: wit_authEnv_def)
  show ?thesis unfolding c [symmetric]
    by (rule signV4_accepted [OF _ _ _ _ p _ _ _ n q, where t = 100])
      (simp_all add: wit_authEnv_def wit_crypto_def maxClockSkew_def)
qed

end
