(* ===== verification/Chunked.thy ===== *)
theory Chunked
  imports SigV4
begin

text \<open>
  The \<open>aws-chunked\<close> body decoder of \<open>internal/auth/chunked.go\<close>. The raw request body is the
  finite byte sequence the client sent before closing; a read past its end is \<open>io.EOF\<close>.
  \<open>readAll\<close> is \<open>io.ReadAll\<close> over the decoder, with a caller buffer of \<open>n\<close> bytes.
\<close>

datatype chunkErr = ErrMalformedChunk | ErrChunkSignature | EOF | MakeslicePanic

record chunkedReader =
  br :: bytes
  copts :: chunkOpts
  prevSig :: string
  cbuf :: bytes
  cdone :: bool
  cerr :: "chunkErr option"

definition NewChunkedReader :: "bytes \<Rightarrow> chunkOpts \<Rightarrow> chunkedReader" where
  "NewChunkedReader r opts =
     \<lparr>br = r, copts = opts, prevSig = SeedSignature opts, cbuf = [], cdone = False, cerr = None\<rparr>"

subsection \<open>Lines and sizes\<close>

fun readLineFrom :: "string \<Rightarrow> bytes \<Rightarrow> string option \<times> bytes" where
  "readLineFrom sb [] = ((if sb \<noteq> [] then Some sb else None), [])"
| "readLineFrom sb (b # s) =
     (if b = CHR 0x0A then (Some (trimSuffix sb [CHR 0x0D]), s) else readLineFrom (sb @ [b]) s)"

definition readLine :: "bytes \<Rightarrow> string option \<times> bytes" where
  "readLine s = readLineFrom [] s"

definition hexDigitVal :: "char \<Rightarrow> nat option" where
  "hexDigitVal c = indexByte hexLower (lowerChar c)"

fun parseHexDigits :: "nat \<Rightarrow> string \<Rightarrow> nat option" where
  "parseHexDigits acc [] = Some acc"
| "parseHexDigits acc (c # s) =
     (case hexDigitVal c of None \<Rightarrow> None | Some d \<Rightarrow> parseHexDigits (16 * acc + d) s)"

text \<open>\<open>strconv.ParseInt(s, 16, 64)\<close>: an optional sign, at least one digit, the int64 range.\<close>

definition ParseInt16 :: "string \<Rightarrow> int option" where
  "ParseInt16 s =
     (let (neg, ds) = (case s of c # r \<Rightarrow> if c = CHR ''+'' then (False, r)
                                         else if c = CHR ''-'' then (True, r) else (False, s)
                       | [] \<Rightarrow> (False, []))
      in if ds = [] then None
         else case parseHexDigits 0 ds of None \<Rightarrow> None
              | Some n \<Rightarrow> if neg then (if n > 2 ^ 63 then None else Some (- int n))
                          else (if n \<ge> 2 ^ 63 then None else Some (int n)))"

text \<open>The largest slice \<open>make\<close> accepts on a 64-bit platform; a larger one panics.\<close>

definition maxAlloc :: int where "maxAlloc = 2 ^ 48"

subsection \<open>Chunks\<close>

definition chunkPayloadSTS :: string where "chunkPayloadSTS = ''AWS4-HMAC-SHA256-PAYLOAD''"

definition chunkSignature :: "crypto \<Rightarrow> chunkOpts \<Rightarrow> string \<Rightarrow> bytes \<Rightarrow> string" where
  "chunkSignature cr o' prev d =
     HexHMACSHA256 cr (ChunkKey o')
       (chunkPayloadSTS @ newline @ ChunkDate o' @ newline @ scopeString (ChunkScope o') @ newline
        @ prev @ newline @ EmptyStringSHA256 @ newline @ hexEncode (sha256Raw cr d))"

fun drainTrailer :: "nat \<Rightarrow> bytes \<Rightarrow> bytes" where
  "drainTrailer 0 s = s"
| "drainTrailer (Suc i) s =
     (case readLine s of (None, r) \<Rightarrow> r | (Some l, r) \<Rightarrow> if l = [] then r else drainTrailer i r)"

definition lastSig :: "string list \<Rightarrow> string" where
  "lastSig kvs = fold (\<lambda>kv sig. if hasPrefix kv ''chunk-signature='' then trimPrefix kv ''chunk-signature='' else sig) kvs []"

definition splitHeader :: "string \<Rightarrow> string \<times> string" where
  "splitHeader line =
     (case indexByte line (CHR '';'') of
        Some i \<Rightarrow> (take i line, lastSig (splitOn (CHR '';'') (drop (i + 1) line)))
      | None \<Rightarrow> (line, []))"

definition readChunk :: "crypto \<Rightarrow> chunkedReader \<Rightarrow> chunkErr option \<times> chunkedReader" where
  "readChunk cr c =
     (case readLine (br c) of
        (None, s1) \<Rightarrow> (Some EOF, c\<lparr>br := s1\<rparr>)
      | (Some line, s1) \<Rightarrow>
        (let (sizeHex, sig) = splitHeader line in
         case ParseInt16 (trimSpaceS sizeHex) of
           None \<Rightarrow> (Some ErrMalformedChunk, c\<lparr>br := s1\<rparr>)
         | Some sz \<Rightarrow>
           if sz < 0 then (Some ErrMalformedChunk, c\<lparr>br := s1\<rparr>)
           else if sz > maxAlloc then (Some MakeslicePanic, c\<lparr>br := s1\<rparr>)
           else if length s1 < nat sz then (Some ErrMalformedChunk, c\<lparr>br := []\<rparr>)
           else
             (let data = take (nat sz) s1 in
              case readLine (drop (nat sz) s1) of
                (None, s2) \<Rightarrow> (Some EOF, c\<lparr>br := s2\<rparr>)
              | (Some crlf, s2) \<Rightarrow>
                if crlf \<noteq> [] then (Some ErrMalformedChunk, c\<lparr>br := s2\<rparr>)
                else if Verify (copts c) \<and> sig \<noteq> []
                        \<and> \<not> SecureCompare (chunkSignature cr (copts c) (prevSig c) data) sig
                then (Some ErrChunkSignature, c\<lparr>br := s2\<rparr>)
                else
                  (let c1 = (if Verify (copts c) \<and> sig \<noteq> [] then c\<lparr>br := s2, prevSig := sig\<rparr>
                             else c\<lparr>br := s2\<rparr>)
                   in if sz = 0 then (None, c1\<lparr>cdone := True, br := drainTrailer 8 s2\<rparr>)
                      else (None, c1\<lparr>cbuf := cbuf c1 @ data\<rparr>)))))"

lemma readLineFrom_shrinks: "length (snd (readLineFrom sb s)) \<le> length s"
  by (induction sb s rule: readLineFrom.induct) (auto simp: le_SucI)

lemma readLineFrom_consumes:
  "readLineFrom sb s = (Some l, r) \<Longrightarrow> s = [] \<and> r = [] \<and> sb = l \<and> l \<noteq> [] \<or> length r < length s"
  by (induction sb s rule: readLineFrom.induct) (auto split: if_splits)

lemma readLine_shrinks: "readLine s = (l, r) \<Longrightarrow> length r \<le> length s"
  using readLineFrom_shrinks [of "[]" s] by (auto simp: readLine_def)

lemma readLine_consumes: "readLine s = (Some l, r) \<Longrightarrow> length r < length s"
  using readLineFrom_consumes [of "[]" s l r] by (auto simp: readLine_def)

lemma drainTrailer_shrinks: "length (drainTrailer i s) \<le> length s"
proof (induction i arbitrary: s)
  case (Suc i)
  obtain l r where lr: "readLine s = (l, r)" by fastforce
  have "length r \<le> length s" using readLine_shrinks [OF lr] .
  with Suc [of r] lr show ?case by (auto split: option.splits)
qed simp

lemma readChunk_progress:
  assumes "readChunk cr c = (None, c')"
  shows "length (br c') < length (br c)"
    and "length (br c') + length (cbuf c') < length (br c) + length (cbuf c)"
    and "copts c' = copts c" and "cerr c' = cerr c"
proof -
  obtain line s1 where l1: "readLine (br c) = (Some line, s1)"
    using assms by (cases "readLine (br c)"; cases "fst (readLine (br c))") (auto simp: readChunk_def)
  obtain sizeHex sig where sh: "splitHeader line = (sizeHex, sig)" by fastforce
  obtain sz where szf: "ParseInt16 (trimSpaceS sizeHex) = Some sz" "\<not> sz < 0" "\<not> sz > maxAlloc"
      "\<not> length s1 < nat sz"
    using assms l1 sh by (auto simp: readChunk_def split: option.splits if_splits)
  obtain s2 where l2: "readLine (drop (nat sz) s1) = (Some [], s2)"
    using assms l1 sh szf
    by (cases "readLine (drop (nat sz) s1)"; cases "fst (readLine (drop (nat sz) s1))")
      (auto simp: readChunk_def Let_def split: if_splits)
  have le: "length s1 < length (br c)" "length s2 < length s1 - nat sz"
    using readLine_consumes [OF l1] readLine_consumes [OF l2] by auto
  have dt: "length (drainTrailer 8 s2) \<le> length s2" by (rule drainTrailer_shrinks)
  have c': "(sz = 0 \<and> br c' = drainTrailer 8 s2 \<and> cbuf c' = cbuf c \<or>
            br c' = s2 \<and> cbuf c' = cbuf c @ take (nat sz) s1) \<and> copts c' = copts c \<and> cerr c' = cerr c"
    using assms l1 sh szf l2 by (auto simp: readChunk_def Let_def split: if_splits)
  then show "length (br c') < length (br c)" "copts c' = copts c" "cerr c' = cerr c"
    using le dt szf by auto
  show "length (br c') + length (cbuf c') < length (br c) + length (cbuf c)"
    using c' le dt szf by auto
qed

text \<open>The loop of \<open>Read\<close>: chunks are read until there is data or the last chunk was seen.\<close>

function readLoop :: "crypto \<Rightarrow> chunkedReader \<Rightarrow> chunkErr option \<times> chunkedReader" where
  "readLoop cr c =
     (if cbuf c = [] \<and> \<not> cdone c then
        (case readChunk cr c of
           (Some e, c') \<Rightarrow> (Some e, c'\<lparr>cerr := Some e\<rparr>)
         | (None, c') \<Rightarrow> readLoop cr c')
      else (None, c))"
  by pat_completeness auto
termination
  by (relation "measure (\<lambda>(cr, c). length (br c))") (auto dest: readChunk_progress(1) [OF sym])

declare readLoop.simps [simp del]

text \<open>\<open>Read\<close> with a buffer of \<open>n\<close> bytes: the bytes copied and the error.\<close>

definition Read :: "crypto \<Rightarrow> nat \<Rightarrow> chunkedReader \<Rightarrow> bytes \<times> chunkErr option \<times> chunkedReader" where
  "Read cr n c =
     (case cerr c of Some e \<Rightarrow> ([], Some e, c)
      | None \<Rightarrow>
        (case readLoop cr c of
           (Some e, c') \<Rightarrow> ([], Some e, c')
         | (None, c') \<Rightarrow>
             if cbuf c' = [] then ([], Some EOF, c')
             else (take n (cbuf c'), None, c'\<lparr>cbuf := drop n (cbuf c')\<rparr>)))"

lemma readLoop_progress:
  "readLoop cr c = (None, c') \<Longrightarrow> length (br c') + length (cbuf c') \<le> length (br c) + length (cbuf c)"
proof (induction cr c rule: readLoop.induct)
  case (1 cr c)
  show ?case
  proof (cases "cbuf c = [] \<and> \<not> cdone c")
    case True
    then obtain c1 where c1: "readChunk cr c = (None, c1)" "readLoop cr c1 = (None, c')"
      using 1(2) by (subst (asm) readLoop.simps) (auto split: prod.splits option.splits)
    then show ?thesis using 1(1) [OF True c1(1) [symmetric] _ c1(2)] readChunk_progress(2) [OF c1(1)] by simp
  next
    case False
    then show ?thesis using 1(2) by (subst (asm) readLoop.simps) auto
  qed
qed

text \<open>\<open>io.ReadAll\<close> over the decoder: the bytes read, and the error unless it is \<open>io.EOF\<close>.\<close>

function readAll :: "crypto \<Rightarrow> nat \<Rightarrow> chunkedReader \<Rightarrow> bytes \<times> chunkErr option" where
  "readAll cr n c =
     (case Read cr (Suc n) c of
        (d, Some e, c') \<Rightarrow> (d, if e = EOF then None else Some e)
      | (d, None, c') \<Rightarrow> (case readAll cr n c' of (d', e) \<Rightarrow> (d @ d', e)))"
  by pat_completeness auto
termination
proof (relation "measure (\<lambda>(cr, n, c). length (br c) + length (cbuf c))", goal_cases)
  case (2 cr n c x y z c')
  then obtain c1 where c1: "readLoop cr c = (None, c1)" "cbuf c1 \<noteq> []"
      "c' = c1\<lparr>cbuf := drop (Suc n) (cbuf c1)\<rparr>"
    by (auto simp: Read_def split: option.splits prod.splits if_splits)
  then show ?case using readLoop_progress [OF c1(1)] by (cases "cbuf c1") auto
qed simp

declare readAll.simps [simp del]

subsection \<open>The encoding a client sends\<close>

text \<open>
  The reference encoder, from the protocol the decoder's comment describes: each chunk is its
  size in hexadecimal, its signature, the data, and a line end; a chunk of size zero is last.
\<close>

fun hexNat :: "nat \<Rightarrow> string" where
  "hexNat n = (if n < 16 then [hexDigit hexLower n] else hexNat (n div 16) @ [hexDigit hexLower (n mod 16)])"

declare hexNat.simps [simp del]

definition frame :: "string \<Rightarrow> bytes \<Rightarrow> bytes" where
  "frame sig d = hexNat (length d) @ '';chunk-signature='' @ sig @ [CHR 0x0D, CHR 0x0A] @ d @ [CHR 0x0D, CHR 0x0A]"

fun encodeFrames :: "crypto \<Rightarrow> chunkOpts \<Rightarrow> string \<Rightarrow> bytes list \<Rightarrow> bytes \<times> string" where
  "encodeFrames cr o' prev [] = ([], prev)"
| "encodeFrames cr o' prev (d # ds) =
     (let sig = chunkSignature cr o' prev d; (b, p) = encodeFrames cr o' sig ds in (frame sig d @ b, p))"

definition encodeBody :: "crypto \<Rightarrow> chunkOpts \<Rightarrow> bytes list \<Rightarrow> bytes" where
  "encodeBody cr o' ds =
     (let (b, p) = encodeFrames cr o' (SeedSignature o') ds in b @ frame (chunkSignature cr o' p []) [])"

lemma readLineFrom_line:
  "CHR 0x0A \<notin> set l \<Longrightarrow> readLineFrom sb (l @ CHR 0x0A # r) = (Some (trimSuffix (sb @ l) [CHR 0x0D]), r)"
  by (induction l arbitrary: sb) auto

lemma readLine_crlf: "CHR 0x0A \<notin> set l \<Longrightarrow> readLine (l @ CHR 0x0D # CHR 0x0A # r) = (Some l, r)"
  using readLineFrom_line [of "l @ [CHR 0x0D]" "[]" r]
  by (simp add: readLine_def trimSuffix_def hasSuffix_def hasPrefix_def)

lemma readLine_empty: "readLine (CHR 0x0D # CHR 0x0A # r) = (Some [], r)"
  using readLine_crlf [of "[]" r] by simp

lemma parseHexDigits_snoc:
  "parseHexDigits acc (xs @ [c]) =
     (case parseHexDigits acc xs of None \<Rightarrow> None
      | Some a \<Rightarrow> (case hexDigitVal c of None \<Rightarrow> None | Some d \<Rightarrow> Some (16 * a + d)))"
  by (induction xs arbitrary: acc) (auto split: option.splits)

definition hexChar :: "char \<Rightarrow> bool" where "hexChar c = (c \<in> set hexLower)"

lemma hexDigitVal_digit: "n < 16 \<Longrightarrow> hexDigitVal (hexDigit hexLower n) = Some n"
proof -
  have "\<forall>n \<in> set [0..<16]. hexDigitVal (hexDigit hexLower n) = Some n" by code_simp
  then show "n < 16 \<Longrightarrow> ?thesis" by auto
qed

lemma parse_hexNat: "parseHexDigits 0 (hexNat n) = Some n"
proof (induction n rule: hexNat.induct)
  case (1 n)
  show ?case
  proof (cases "n < 16")
    case True
    then show ?thesis by (subst hexNat.simps) (simp add: hexDigitVal_digit)
  next
    case False
    then show ?thesis using 1 by (subst hexNat.simps) (simp add: parseHexDigits_snoc hexDigitVal_digit)
  qed
qed

lemma hexNat_chars: "c \<in> set (hexNat n) \<Longrightarrow> hexChar c"
proof (induction n rule: hexNat.induct)
  case (1 n)
  have d: "m < 16 \<Longrightarrow> hexChar (hexDigit hexLower m)" for m
    unfolding hexChar_def hexDigit_def by (rule nth_mem) (simp add: hexLower_def)
  show ?case using 1 d by (cases "n < 16"; subst (asm) (2) hexNat.simps) auto
qed

lemma hexNat_nonempty: "hexNat n \<noteq> []"
  by (subst hexNat.simps) simp

lemma hexChar_plain: "hexChar c \<Longrightarrow> \<not> isSpace c \<and> c \<noteq> CHR '';'' \<and> c \<noteq> CHR 0x0A \<and> c \<noteq> CHR ''+'' \<and> c \<noteq> CHR ''-''"
proof -
  have "\<forall>c \<in> set hexLower. \<not> isSpace c \<and> c \<noteq> CHR '';'' \<and> c \<noteq> CHR 0x0A \<and> c \<noteq> CHR ''+'' \<and> c \<noteq> CHR ''-''"
    by code_simp
  then show "hexChar c \<Longrightarrow> ?thesis" by (simp add: hexChar_def)
qed

lemma ParseInt16_hexNat: "n < 2 ^ 63 \<Longrightarrow> ParseInt16 (hexNat n) = Some (int n)"
proof -
  assume n: "n < 2 ^ 63"
  obtain c r where cr: "hexNat n = c # r" using hexNat_nonempty [of n] by (cases "hexNat n") auto
  then have "hexChar c" using hexNat_chars [of c n] by simp
  then have "c \<noteq> CHR ''+''" "c \<noteq> CHR ''-''" using hexChar_plain by blast+
  then show ?thesis using n cr parse_hexNat [of n] by (simp add: ParseInt16_def)
qed

lemma splitHeader_frame:
  assumes "CHR '';'' \<notin> set sig"
  shows "splitHeader (hexNat n @ '';chunk-signature='' @ sig) = (hexNat n, sig)"
proof -
  have nin: "CHR '';'' \<notin> set (hexNat n)" using hexNat_chars hexChar_plain by blast
  have "splitOn (CHR '';'') (''chunk-signature='' @ sig) = [''chunk-signature='' @ sig]"
    by (rule splitOn_no_sep) (use assms in simp)
  moreover have "hexNat n @ '';chunk-signature='' @ sig = hexNat n @ CHR '';'' # (''chunk-signature='' @ sig)"
    by simp
  ultimately show ?thesis
    unfolding splitHeader_def
    by (simp only: indexByte_append [OF nin]) (simp add: lastSig_def hasPrefix_def trimPrefix_def)
qed

text \<open>One frame with a plain signature, as \<open>readChunk\<close> sees it.\<close>

lemma readChunk_frame:
  assumes br: "br c = frame sig d @ rest" and sig: "sig \<noteq> []" "\<forall>x\<in>set sig. hexChar x"
    and len: "int (length d) \<le> maxAlloc"
  shows "readChunk cr c =
     (if Verify (copts c) \<and> chunkSignature cr (copts c) (prevSig c) d \<noteq> sig
      then (Some ErrChunkSignature, c\<lparr>br := rest\<rparr>)
      else let c1 = (if Verify (copts c) then c\<lparr>br := rest, prevSig := sig\<rparr> else c\<lparr>br := rest\<rparr>)
           in if d = [] then (None, c1\<lparr>cdone := True, br := drainTrailer 8 rest\<rparr>)
              else (None, c1\<lparr>cbuf := cbuf c @ d\<rparr>))"
proof -
  let ?hdr = "hexNat (length d) @ '';chunk-signature='' @ sig"
  have "CHR 0x0A \<notin> set (hexNat (length d))" using hexNat_chars hexChar_plain by blast
  moreover have "CHR 0x0A \<notin> set sig" "CHR '';'' \<notin> set sig" using sig hexChar_plain by blast+
  ultimately have nl: "CHR 0x0A \<notin> set ?hdr" and semi: "CHR '';'' \<notin> set sig" by auto
  have eq: "br c = ?hdr @ CHR 0x0D # CHR 0x0A # (d @ CHR 0x0D # CHR 0x0A # rest)"
    by (simp add: br frame_def)
  have l1: "readLine (br c) = (Some ?hdr, d @ CHR 0x0D # CHR 0x0A # rest)"
    unfolding eq by (rule readLine_crlf [OF nl])
  have tr: "trimSpaceS (hexNat (length d)) = hexNat (length d)"
    by (rule trimSpaceS_id) (use hexNat_chars hexChar_plain in blast)
  have pi: "ParseInt16 (hexNat (length d)) = Some (int (length d))"
    by (rule ParseInt16_hexNat) (use len in \<open>simp add: maxAlloc_def\<close>)
  show ?thesis
    unfolding readChunk_def l1 prod.case option.case splitHeader_frame [OF semi] tr pi Let_def
    using len sig by (simp add: readLine_empty SecureCompare_def)
qed

subsection \<open>Decoding what a client encoded\<close>

lemma hexEncode_hexChar: "c \<in> set (hexEncode b) \<Longrightarrow> hexChar c"
proof -
  have d: "m < 16 \<Longrightarrow> hexChar (hexDigit hexLower m)" for m
    unfolding hexChar_def hexDigit_def by (rule nth_mem) (simp add: hexLower_def)
  have q: "(of_char x :: nat) div 16 < 16" for x :: char
    by (rule less_mult_imp_div_less) (use of_char_bound [of x] in simp)
  show "c \<in> set (hexEncode b) \<Longrightarrow> ?thesis" by (auto simp: hexEncode_def d q)
qed

lemma chunkSignature_hex:
  assumes "\<forall>k d. hmacRaw cr k d \<noteq> []"
  shows "chunkSignature cr o' p d \<noteq> []" "\<forall>x\<in>set (chunkSignature cr o' p d). hexChar x"
  using assms hexEncode_hexChar
  by (auto simp: chunkSignature_def HexHMACSHA256_def hexEncode_Nil)

lemma readAll_buffered:
  assumes "cerr c = None" "cbuf c \<noteq> []"
  shows "readAll cr n c = (case readAll cr n (c\<lparr>cbuf := []\<rparr>) of (d, e) \<Rightarrow> (cbuf c @ d, e))"
  using assms
proof (induction "length (cbuf c)" arbitrary: c rule: less_induct)
  case less
  have l: "readLoop cr c = (None, c)" using less.prems by (subst readLoop.simps) simp
  have rd: "Read cr (Suc n) c = (take (Suc n) (cbuf c), None, c\<lparr>cbuf := drop (Suc n) (cbuf c)\<rparr>)"
    using less.prems l by (simp add: Read_def)
  let ?c1 = "c\<lparr>cbuf := drop (Suc n) (cbuf c)\<rparr>"
  have st: "readAll cr n c = (case readAll cr n ?c1 of (d', e) \<Rightarrow> (take (Suc n) (cbuf c) @ d', e))"
    by (subst readAll.simps) (simp add: rd)
  show ?case
  proof (cases "cbuf ?c1 = []")
    case True
    then have "?c1 = c\<lparr>cbuf := []\<rparr>" "take (Suc n) (cbuf c) = cbuf c" by auto
    with st show ?thesis by simp
  next
    case False
    have "length (cbuf ?c1) < length (cbuf c)" using less.prems by (cases "cbuf c") auto
    from less.hyps [OF this] False less.prems
    have "readAll cr n ?c1 = (case readAll cr n (c\<lparr>cbuf := []\<rparr>) of (d, e) \<Rightarrow> (drop (Suc n) (cbuf c) @ d, e))"
      by simp
    with st show ?thesis by (simp add: split_beta flip: append_assoc)
  qed
qed

lemma readAll_chunk:
  assumes "cerr c = None" "cbuf c = []" "\<not> cdone c" "readChunk cr c = (None, c')"
  shows "readAll cr n c = readAll cr n c'"
proof -
  have "readLoop cr c = readLoop cr c'" using assms by (subst readLoop.simps) simp
  moreover have "cerr c' = None" using readChunk_progress(4) [OF assms(4)] assms by simp
  ultimately have "Read cr (Suc n) c = Read cr (Suc n) c'" using assms by (simp add: Read_def)
  then show ?thesis by (subst (1 2) readAll.simps) simp
qed

lemma readAll_error:
  assumes "cerr c = None" "cbuf c = []" "\<not> cdone c" "readChunk cr c = (Some e, c')"
  shows "readAll cr n c = ([], if e = EOF then None else Some e)"
proof -
  have "readLoop cr c = (Some e, c'\<lparr>cerr := Some e\<rparr>)" using assms by (subst readLoop.simps) simp
  then show ?thesis using assms by (subst readAll.simps) (simp add: Read_def)
qed

lemma readAll_frames:
  assumes hm: "\<forall>k d. hmacRaw cr k d \<noteq> []" and ds: "\<forall>d\<in>set ds. d \<noteq> [] \<and> int (length d) \<le> maxAlloc"
    and e: "encodeFrames cr o' prev ds = (b, p)"
  shows "readAll cr n \<lparr>br = b @ rest, copts = o', prevSig = (if Verify o' then prev else q), cbuf = [], cdone = False, cerr = None\<rparr> =
    (case readAll cr n \<lparr>br = rest, copts = o', prevSig = (if Verify o' then p else q), cbuf = [], cdone = False, cerr = None\<rparr>
     of (t, e') \<Rightarrow> (concat ds @ t, e'))"
  using ds e
proof (induction ds arbitrary: prev b)
  case (Cons d ds)
  let ?sig = "chunkSignature cr o' prev d"
  obtain b' where b': "encodeFrames cr o' ?sig ds = (b', p)" "b = frame ?sig d @ b'"
    using Cons.prems by (auto simp: Let_def split: prod.splits)
  let ?c = "\<lparr>br = b @ rest, copts = o', prevSig = (if Verify o' then prev else q), cbuf = [], cdone = False, cerr = None\<rparr>"
  let ?c1 = "\<lparr>br = b' @ rest, copts = o', prevSig = (if Verify o' then ?sig else q), cbuf = d, cdone = False, cerr = None\<rparr>"
  have rc: "readChunk cr ?c = (None, ?c1)"
    using readChunk_frame [of ?c ?sig d "b' @ rest" cr] chunkSignature_hex [OF hm, of o' prev d] Cons.prems b'
    by (auto simp: Let_def)
  have "readAll cr n ?c = readAll cr n ?c1" by (rule readAll_chunk [OF _ _ _ rc]) auto
  also have "\<dots> = (case readAll cr n (?c1\<lparr>cbuf := []\<rparr>) of (t, e') \<Rightarrow> (d @ t, e'))"
    using readAll_buffered [of ?c1 cr n] Cons.prems by simp
  finally show ?case using Cons.IH [OF _ b'(1)] Cons.prems by (simp add: split_beta)
qed simp

text \<open>
  C21: chunked bodies round-trip: what a client encodes as signed chunks, the decoder returns as
  the concatenation of the chunks, without an error and for every size of the caller's buffer,
  with and without signature verification.
\<close>

theorem chunked_roundtrip:
  assumes "\<forall>k d. hmacRaw cr k d \<noteq> []" "\<forall>d\<in>set ds. d \<noteq> [] \<and> int (length d) \<le> maxAlloc"
  shows "readAll cr n (NewChunkedReader (encodeBody cr o' ds) o') = (concat ds, None)"
proof -
  obtain b p where bp: "encodeFrames cr o' (SeedSignature o') ds = (b, p)" by fastforce
  let ?sig = "chunkSignature cr o' p []"
  let ?c = "\<lparr>br = frame ?sig [], copts = o', prevSig = (if Verify o' then p else SeedSignature o'), cbuf = [],
     cdone = False, cerr = None\<rparr>"
  obtain c' where rc: "readChunk cr ?c = (None, c')" "cdone c'" "cbuf c' = []"
    using readChunk_frame [of ?c ?sig "[]" "[]" cr] chunkSignature_hex [OF assms(1), of o' p "[]"]
    by (auto simp: Let_def maxAlloc_def)
  have "readAll cr n ?c = readAll cr n c'" by (rule readAll_chunk [OF _ _ _ rc(1)]) auto
  also have "\<dots> = ([], None)"
    using rc readChunk_progress(4) [OF rc(1)]
    by (subst readAll.simps) (simp add: Read_def readLoop.simps)
  finally show ?thesis
    using readAll_frames [OF assms bp, of n "frame ?sig []" "SeedSignature o'"]
    by (simp add: NewChunkedReader_def encodeBody_def bp)
qed


definition wit_opts :: chunkOpts where
  "wit_opts = \<lparr>SeedSignature = ''5eed'', ChunkKey = ''k'', ChunkDate = ''20240101T000000Z'',
     ChunkScope = \<lparr>ScopeAccessKey = ''AK'', ScopeDate = ''20240101'', Region = ''r'', Service = ''s3''\<rparr>, Verify = True\<rparr>"

theorem chunked_roundtrip_witness:
  "readAll wit_crypto 3 (NewChunkedReader (encodeBody wit_crypto wit_opts [''hello '', ''world'']) wit_opts)
     = (''hello world'', None)"
  using chunked_roundtrip [of wit_crypto "[''hello '', ''world'']" 3 wit_opts]
  by (simp add: wit_crypto_def maxAlloc_def)


text \<open>Chunks without a signature, as the \<open>UNSIGNED\<close> variants send them.\<close>

definition plainHeader :: "nat \<Rightarrow> bytes" where
  "plainHeader n = hexNat n @ [CHR 0x0D, CHR 0x0A]"

definition plainFrame :: "bytes \<Rightarrow> bytes" where
  "plainFrame d = plainHeader (length d) @ d @ [CHR 0x0D, CHR 0x0A]"

lemma readChunk_plain:
  assumes br: "br c = plainHeader (length d) @ d @ line @ [CHR 0x0D, CHR 0x0A] @ rest"
    and len: "int (length d) \<le> maxAlloc" and nl: "CHR 0x0A \<notin> set line"
  shows "readChunk cr c =
     (if line \<noteq> [] then (Some ErrMalformedChunk, c\<lparr>br := rest\<rparr>)
      else if d = [] then (None, c\<lparr>br := rest, cdone := True, br := drainTrailer 8 rest\<rparr>)
      else (None, c\<lparr>br := rest, cbuf := cbuf c @ d\<rparr>))"
proof -
  have hn: "CHR 0x0A \<notin> set (hexNat (length d))" "CHR '';'' \<notin> set (hexNat (length d))"
    using hexNat_chars hexChar_plain by blast+
  have l1: "readLine (br c) = (Some (hexNat (length d)), d @ line @ CHR 0x0D # CHR 0x0A # rest)"
    unfolding br plainHeader_def using readLine_crlf [OF hn(1)] by simp
  have sh: "splitHeader (hexNat (length d)) = (hexNat (length d), [])"
    using hn(2) by (simp add: splitHeader_def indexByte_None [THEN iffD2])
  have tr: "trimSpaceS (hexNat (length d)) = hexNat (length d)"
    by (rule trimSpaceS_id) (use hexNat_chars hexChar_plain in blast)
  have pi: "ParseInt16 (hexNat (length d)) = Some (int (length d))"
    by (rule ParseInt16_hexNat) (use len in \<open>simp add: maxAlloc_def\<close>)
  show ?thesis
    unfolding readChunk_def l1 prod.case option.case sh tr pi Let_def
    using len readLine_crlf [OF nl] by simp
qed

lemma readAll_plain:
  assumes "d \<noteq> []" "int (length d) \<le> maxAlloc"
  shows "readAll cr n (NewChunkedReader (plainFrame d @ rest) o') =
    (case readAll cr n (NewChunkedReader rest o') of (t, e) \<Rightarrow> (d @ t, e))"
proof -
  have rc: "readChunk cr (NewChunkedReader (plainFrame d @ rest) o') = (None, (NewChunkedReader rest o')\<lparr>cbuf := d\<rparr>)"
    using readChunk_plain [of "NewChunkedReader (plainFrame d @ rest) o'" d "[]" rest cr] assms
    by (simp add: NewChunkedReader_def plainFrame_def)
  show ?thesis
    using readAll_chunk [OF _ _ _ rc, of n]
      readAll_buffered [of "(NewChunkedReader rest o')\<lparr>cbuf := d\<rparr>" cr n] assms
    by (simp add: NewChunkedReader_def)
qed

text \<open>
  Signature verification can be switched off by the sender: with \<open>Verify\<close> set, a body
  whose chunks carry no signature at all is decoded without an error, whatever the data.
\<close>

theorem unsigned_chunk_accepted:
  assumes "d \<noteq> []" "int (length d) \<le> maxAlloc" "Verify o'"
  shows "readAll cr n (NewChunkedReader (plainFrame d @ plainFrame []) o') = (d, None)"
proof -
  obtain c' where rc: "readChunk cr (NewChunkedReader (plainFrame []) o') = (None, c')" "cdone c'" "cbuf c' = []"
    using readChunk_plain [of "NewChunkedReader (plainFrame []) o'" "[]" "[]" "[]" cr]
    by (simp add: NewChunkedReader_def plainFrame_def maxAlloc_def)
  have "readAll cr n (NewChunkedReader (plainFrame []) o') = readAll cr n c'"
    by (rule readAll_chunk [OF _ _ _ rc(1)]) (auto simp: NewChunkedReader_def)
  also have "\<dots> = ([], None)"
    using rc readChunk_progress(4) [OF rc(1)]
    by (subst readAll.simps) (simp add: Read_def readLoop.simps NewChunkedReader_def)
  finally show ?thesis using readAll_plain [OF assms(1,2)] by simp
qed

theorem unsigned_chunk_accepted_witness:
  "readAll wit_crypto 3 (NewChunkedReader (plainFrame ''evil'' @ plainFrame []) wit_opts) = (''evil'', None)"
  using unsigned_chunk_accepted [of "''evil''" wit_opts] by (simp add: wit_opts_def maxAlloc_def)

text \<open>
  A checksum trailer after the last chunk, which \<open>drainTrailer\<close> is written to skip, is
  refused: after the header of the size-zero chunk only an empty line is accepted.
\<close>

theorem trailer_refused:
  assumes "trailer \<noteq> []" "CHR 0x0A \<notin> set trailer" "d \<noteq> []" "int (length d) \<le> maxAlloc"
  shows "readAll cr n (NewChunkedReader
           (plainFrame d @ plainHeader 0 @ trailer @ [CHR 0x0D, CHR 0x0A] @ rest) o') = (d, Some ErrMalformedChunk)"
proof -
  let ?c = "NewChunkedReader (plainHeader 0 @ trailer @ [CHR 0x0D, CHR 0x0A] @ rest) o'"
  have "readChunk cr ?c = (Some ErrMalformedChunk, ?c\<lparr>br := rest\<rparr>)"
    using readChunk_plain [of ?c "[]" trailer rest cr] assms by (simp add: NewChunkedReader_def maxAlloc_def)
  then have "readAll cr n ?c = ([], Some ErrMalformedChunk)"
    using readAll_error [of ?c cr ErrMalformedChunk] by (simp add: NewChunkedReader_def)
  then show ?thesis using readAll_plain [OF assms(3,4)] by simp
qed

theorem trailer_refused_witness:
  "readAll wit_crypto 3 (NewChunkedReader
     (plainFrame ''data'' @ plainHeader 0 @ ''x-amz-checksum-crc32:AAAAAA=='' @ [CHR 0x0D, CHR 0x0A] @ [CHR 0x0D, CHR 0x0A])
     wit_opts) = (''data'', Some ErrMalformedChunk)"
  by (rule trailer_refused) (simp_all add: maxAlloc_def)

end
