(* ===== verification/LockTable.thy ===== *)
theory LockTable
  imports Prelude
begin

text \<open>
  The distributed namespace lock of \<open>internal/cluster/dsync.go\<close>: the lock table each node keeps
  (\<open>acquire\<close>, \<open>release\<close>, \<open>refresh\<close>), the RPC entry point, and the coordinator that asks every
  node and needs a majority. A call to a peer is a node's table transition together with what
  became of the message (\<open>delivery\<close>): a request can be lost before it takes effect, or its
  answer can be lost after it did. The shared readers of a hold are a list without repetition.
\<close>

definition lockTTL :: time where "lockTTL = 60 * second"
definition lockTimeout :: time where "lockTimeout = 10 * second"

record hold =
  token :: string
  exclusive :: bool
  readers :: "string list"
  expiry :: time

record lockTable =
  lm :: "string \<rightharpoonup> hold"
  high :: "string \<Rightarrow> 64 word"

definition newLockTable :: lockTable where
  "newLockTable = \<lparr>lm = Map.empty, high = (\<lambda>_. 0)\<rparr>"

subsection \<open>Tokens\<close>

definition digit36 :: "char \<Rightarrow> nat option" where
  "digit36 c = indexByte ''0123456789abcdefghijklmnopqrstuvwxyz'' (lowerChar c)"

text \<open>\<open>strconv.ParseUint(s, 36, 64)\<close> with its error dropped: 0 on a bad digit, the maximum on overflow.\<close>

fun parseUint36 :: "nat \<Rightarrow> string \<Rightarrow> nat" where
  "parseUint36 acc [] = acc"
| "parseUint36 acc (c # s) =
     (case digit36 c of None \<Rightarrow> 0
      | Some d \<Rightarrow> if acc * 36 + d \<ge> 2 ^ 64 then 2 ^ 64 - 1 else parseUint36 (acc * 36 + d) s)"

definition tokenSeqOf :: "string \<Rightarrow> 64 word" where
  "tokenSeqOf tok =
     (case indexByte tok (CHR ''-'') of
        Some i \<Rightarrow> if i > 0 then of_nat (parseUint36 0 (take i tok)) else 0
      | None \<Rightarrow> 0)"

definition tokenNewer :: "string \<Rightarrow> string \<Rightarrow> bool" where
  "tokenNewer a b = (tokenSeqOf a > tokenSeqOf b)"

subsection \<open>One node's table\<close>

definition acquire :: "time \<Rightarrow> string \<Rightarrow> string \<Rightarrow> bool \<Rightarrow> lockTable \<Rightarrow> bool \<times> lockTable" where
  "acquire now res tok excl t =
     (if excl \<and> tokenSeqOf tok < high t res then (False, t)
      else
        (case (case lm t res of Some h \<Rightarrow> if now > expiry h then None else Some h | None \<Rightarrow> None) of
           None \<Rightarrow>
             (True, t\<lparr>lm := (lm t)(res \<mapsto> \<lparr>token = tok, exclusive = excl,
                               readers = (if excl then [] else [tok]), expiry = now + lockTTL\<rparr>),
                      high := (if excl \<and> tokenSeqOf tok > high t res
                               then (high t)(res := tokenSeqOf tok) else high t)\<rparr>)
         | Some h \<Rightarrow>
             if excl \<or> exclusive h then
               (if excl \<and> exclusive h \<and> token h = tok
                then (True, t\<lparr>lm := (lm t)(res \<mapsto> h\<lparr>expiry := now + lockTTL\<rparr>)\<rparr>)
                else (False, t))
             else (True, t\<lparr>lm := (lm t)(res \<mapsto> h\<lparr>readers := List.insert tok (readers h),
                                                  expiry := now + lockTTL\<rparr>)\<rparr>)))"

definition release :: "string \<Rightarrow> string \<Rightarrow> bool \<Rightarrow> lockTable \<Rightarrow> lockTable" where
  "release res tok excl t =
     (case lm t res of
        None \<Rightarrow> t
      | Some h \<Rightarrow>
          if excl then
            (if exclusive h \<and> token h = tok
             then t\<lparr>lm := (lm t)(res := None), high := (high t)(res := 0)\<rparr> else t)
          else if exclusive h then t
          else if tok \<notin> set (readers h) then t
          else (let rs = remove1 tok (readers h)
                in if rs = [] then t\<lparr>lm := (lm t)(res := None)\<rparr>
                   else t\<lparr>lm := (lm t)(res \<mapsto> h\<lparr>readers := rs\<rparr>)\<rparr>))"

definition refresh :: "time \<Rightarrow> string \<Rightarrow> string \<Rightarrow> lockTable \<Rightarrow> bool \<times> lockTable" where
  "refresh now res tok t =
     (case lm t res of
        None \<Rightarrow> (False, t)
      | Some h \<Rightarrow>
          if exclusive h \<and> token h \<noteq> tok then (False, t)
          else if \<not> exclusive h \<and> tok \<notin> set (readers h) then (False, t)
          else (True, t\<lparr>lm := (lm t)(res \<mapsto> h\<lparr>expiry := now + lockTTL\<rparr>)\<rparr>))"

text \<open>
  The operation of a request, by name: \<open>lockPeer.do\<close> on the local table. \<open>handleLock\<close> does the
  same for a remote caller, who reads the status code: 200 is \<open>True\<close>, 409 and 404 are \<open>False\<close>.
\<close>

definition peerDo :: "time \<Rightarrow> string \<Rightarrow> string \<Rightarrow> string \<Rightarrow> lockTable \<Rightarrow> bool \<times> lockTable" where
  "peerDo now op res tok t =
     (if op = ''lock'' then acquire now res tok True t
      else if op = ''rlock'' then acquire now res tok False t
      else if op = ''unlock'' then (True, release res tok True t)
      else if op = ''runlock'' then (True, release res tok False t)
      else if op = ''refresh'' then refresh now res tok t
      else (False, t))"

definition handleLock :: "time \<Rightarrow> string \<Rightarrow> string \<Rightarrow> string \<Rightarrow> lockTable \<Rightarrow> nat \<times> lockTable" where
  "handleLock now op res tok t =
     (if op = ''lock'' then (case acquire now res tok True t of (g, t') \<Rightarrow> (if g then 200 else 409, t'))
      else if op = ''rlock'' then (case acquire now res tok False t of (g, t') \<Rightarrow> (if g then 200 else 409, t'))
      else if op = ''unlock'' then (200, release res tok True t)
      else if op = ''runlock'' then (200, release res tok False t)
      else if op = ''refresh'' then (case refresh now res tok t of (g, t') \<Rightarrow> (if g then 200 else 409, t'))
      else (404, t))"

subsection \<open>The coordinator\<close>

datatype delivery = Delivered | RequestLost | ReplyLost

definition remoteDo ::
  "delivery \<Rightarrow> time \<Rightarrow> string \<Rightarrow> string \<Rightarrow> string \<Rightarrow> lockTable \<Rightarrow> bool \<times> lockTable" where
  "remoteDo dl now op res tok t =
     (case dl of
        RequestLost \<Rightarrow> (False, t)
      | Delivered \<Rightarrow> (case handleLock now op res tok t of (code, t') \<Rightarrow> (code = 200, t'))
      | ReplyLost \<Rightarrow> (case handleLock now op res tok t of (code, t') \<Rightarrow> (False, t')))"

definition tryAll ::
  "time \<Rightarrow> delivery list \<Rightarrow> string \<Rightarrow> string \<Rightarrow> string \<Rightarrow> lockTable list \<Rightarrow> nat \<times> lockTable list" where
  "tryAll now dls op res tok tabs =
     (let rs = map (\<lambda>(dl, t). remoteDo dl now op res tok t) (zip dls tabs)
      in (countTrue (map fst rs), map snd rs))"

definition quorumOf :: "nat \<Rightarrow> nat" where "quorumOf n = n div 2 + 1"

text \<open>
  \<open>grab\<close>: one element of the schedule per turn of its loop, with the time, the token drawn, what
  became of the messages of the attempt and of its undo, and whether the context had ended. An
  exhausted schedule (\<open>Nothing\<close>) is a loop that is still running.
\<close>

record attempt =
  atTime :: time
  atToken :: string
  atOp :: "delivery list"
  atUndo :: "delivery list"
  ctxDone :: bool

datatype grabResult = Granted string | GrabErrWriteQuorum | CtxErr | Nothing

fun grabLoop ::
  "time \<Rightarrow> string \<Rightarrow> string \<Rightarrow> string \<Rightarrow> attempt list \<Rightarrow> lockTable list \<Rightarrow> grabResult \<times> lockTable list" where
  "grabLoop deadline op undo res [] tabs = (Nothing, tabs)"
| "grabLoop deadline op undo res (a # as) tabs =
     (case tryAll (atTime a) (atOp a) op res (atToken a) tabs of
        (g, tabs1) \<Rightarrow>
          if g \<ge> quorumOf (length tabs) then (Granted (atToken a), tabs1)
          else (case tryAll (atTime a) (atUndo a) undo res (atToken a) tabs1 of
                  (g', tabs2) \<Rightarrow>
                    if atTime a > deadline then (GrabErrWriteQuorum, tabs2)
                    else if ctxDone a then (CtxErr, tabs2)
                    else grabLoop deadline op undo res as tabs2))"

definition grab ::
  "time \<Rightarrow> time \<Rightarrow> string \<Rightarrow> string \<Rightarrow> string \<Rightarrow> attempt list \<Rightarrow> lockTable list \<Rightarrow> grabResult \<times> lockTable list" where
  "grab start timeout op undo res as tabs =
     grabLoop (start + (if timeout \<le> 0 then lockTimeout else timeout)) op undo res as tabs"

definition drop_lock :: "time \<Rightarrow> delivery list \<Rightarrow> string \<Rightarrow> string \<Rightarrow> string \<Rightarrow> lockTable list \<Rightarrow> lockTable list" where
  "drop_lock now dls undo res tok tabs =
     (if tok = [] then tabs else snd (tryAll now dls undo res tok tabs))"

text \<open>One tick of the refresher: whether it keeps running (the lock context stays open).\<close>

definition refresherTick :: "time \<Rightarrow> delivery list \<Rightarrow> string \<Rightarrow> string \<Rightarrow> lockTable list \<Rightarrow> bool \<times> lockTable list" where
  "refresherTick now dls res tok tabs =
     (case tryAll now dls ''refresh'' res tok tabs of (g, tabs') \<Rightarrow> (\<not> g < quorumOf (length tabs), tabs'))"

subsection \<open>A node's grant excludes others until it expires\<close>

definition heldX :: "lockTable \<Rightarrow> string \<Rightarrow> string \<Rightarrow> time \<Rightarrow> bool" where
  "heldX t res tok u =
     (case lm t res of None \<Rightarrow> False | Some h \<Rightarrow> exclusive h \<and> token h = tok \<and> u \<le> expiry h)"

lemma handleLock_peerDo: "handleLock now op res tok t = (code, t') \<Longrightarrow> peerDo now op res tok t = (code = 200, t')"
  by (auto simp: handleLock_def peerDo_def split: if_splits prod.splits)

lemma acquire_grants: "acquire now res tok True t = (True, t') \<Longrightarrow> heldX t' res tok (now + lockTTL)"
  by (auto simp: acquire_def heldX_def split: if_splits option.splits)

lemma heldX_refuses: "heldX t res tok u \<Longrightarrow> now \<le> u \<Longrightarrow> tok' \<noteq> tok \<Longrightarrow> fst (acquire now res tok' ex t) = False"
  by (auto simp: acquire_def heldX_def split: option.splits)

lemma peerDo_keeps_heldX:
  assumes h: "heldX t res tok u" and time: "now \<le> u" "u \<le> now + lockTTL"
    and nu: "\<not> (op = ''unlock'' \<and> res' = res \<and> tok' = tok)"
  shows "heldX (snd (peerDo now op res' tok' t)) res tok u"
proof -
  have ac: "heldX (snd (acquire now res' tok' ex t)) res tok u" for ex
    using h time by (auto simp: acquire_def heldX_def split: option.splits)
  have rf: "heldX (snd (refresh now res' tok' t)) res tok u"
    using h time by (auto simp: refresh_def heldX_def split: option.splits)
  have rl: "heldX (release res' tok' False t) res tok u"
    using h by (auto simp: release_def heldX_def Let_def split: option.splits)
  have rx: "heldX (release res' tok' True t) res tok u" if "\<not> (res' = res \<and> tok' = tok)"
    using h that by (auto simp: release_def heldX_def Let_def split: option.splits)
  show ?thesis using h ac rf rl rx nu by (auto simp: peerDo_def)
qed

text \<open>
  Interleavings: a step is one request served by one node, for any resource, token and
  operation, at that node's time.
\<close>

record step =
  atNode :: nat
  stTime :: time
  stOp :: string
  stRes :: string
  stTok :: string

definition applyStep :: "step \<Rightarrow> lockTable list \<Rightarrow> lockTable list" where
  "applyStep s tabs =
     (if atNode s < length tabs
      then tabs[atNode s := snd (peerDo (stTime s) (stOp s) (stRes s) (stTok s) (tabs ! atNode s))]
      else tabs)"

definition runSteps :: "step list \<Rightarrow> lockTable list \<Rightarrow> lockTable list" where
  "runSteps ss tabs = fold applyStep ss tabs"

definition stepWithin :: "string \<Rightarrow> string \<Rightarrow> time \<Rightarrow> step \<Rightarrow> bool" where
  "stepWithin res tok u s =
     (stTime s \<le> u \<and> u \<le> stTime s + lockTTL \<and> \<not> (stOp s = ''unlock'' \<and> stRes s = res \<and> stTok s = tok))"

lemma runSteps_length [simp]: "length (runSteps ss tabs) = length tabs"
  unfolding runSteps_def by (induction ss arbitrary: tabs) (auto simp: applyStep_def)

lemma runSteps_keeps_heldX:
  "list_all (stepWithin res tok u) ss \<Longrightarrow> i < length tabs \<Longrightarrow> heldX (tabs ! i) res tok u
     \<Longrightarrow> heldX (runSteps ss tabs ! i) res tok u"
proof (induction ss arbitrary: tabs)
  case (Cons s ss)
  have "heldX (applyStep s tabs ! i) res tok u"
    using Cons.prems peerDo_keeps_heldX [of "tabs ! i" res tok u "stTime s" "stOp s" "stRes s" "stTok s"]
    by (auto simp: applyStep_def stepWithin_def nth_list_update)
  moreover have "i < length (applyStep s tabs)" using Cons.prems by (simp add: applyStep_def)
  ultimately show ?case using Cons by (simp add: runSteps_def)
qed (simp add: runSteps_def)

lemma remoteDo_peerDo:
  "snd (remoteDo dl now op res tok t) = (if dl = RequestLost then t else snd (peerDo now op res tok t))"
  "fst (remoteDo dl now op res tok t) \<longleftrightarrow> dl = Delivered \<and> fst (peerDo now op res tok t)"
  using handleLock_peerDo by (cases dl; fastforce simp: remoteDo_def split: prod.splits)+

lemma tryAll_nth:
  assumes "length dls = length tabs" "i < length tabs"
  shows "snd (tryAll now dls op res tok tabs) ! i = snd (remoteDo (dls ! i) now op res tok (tabs ! i))"
  using assms by (simp add: tryAll_def Let_def)

lemma tryAll_count:
  assumes "length dls = length tabs"
  shows "fst (tryAll now dls op res tok tabs) =
    length (filter (\<lambda>i. fst (remoteDo (dls ! i) now op res tok (tabs ! i))) [0..<length tabs])"
proof -
  let ?bs = "map fst (map (\<lambda>(dl, t). remoteDo dl now op res tok t) (zip dls tabs))"
  have "fst (tryAll now dls op res tok tabs) = length (filter id ?bs)"
    by (simp add: tryAll_def Let_def countTrue_def)
  also have "\<dots> = length (filter (\<lambda>i. id (?bs ! i)) [0..<length ?bs])" by (rule filter_nth_eq)
  also have "\<dots> = length (filter (\<lambda>i. fst (remoteDo (dls ! i) now op res tok (tabs ! i))) [0..<length tabs])"
    using assms by (intro arg_cong [where f = length] filter_cong) auto
  finally show ?thesis .
qed

text \<open>
  C17: mutual exclusion of the distributed lock. Once a quorum granted an exclusive lock to a
  token at some time, no other token can win a quorum on the same resource, exclusive or shared,
  before the grants' time to live has passed: whatever requests the nodes serve in between, in any
  interleaving and with any messages lost, as long as the holder does not unlock.
\<close>

theorem lock_mutual_exclusion:
  assumes len: "length dls = length tabs" "length dls2 = length tabs"
    and won: "tryAll now dls ''lock'' res tok tabs = (g, tabs1)" "g \<ge> quorumOf (length tabs)"
    and between: "list_all (stepWithin res tok (now + lockTTL)) ss"
    and other: "tok' \<noteq> tok" "op = ''lock'' \<or> op = ''rlock''" "now' \<le> now + lockTTL"
  shows "fst (tryAll now' dls2 op res tok' (runSteps ss tabs1)) < quorumOf (length tabs)"
proof (rule ccontr)
  let ?n = "length tabs" and ?tabs2 = "runSteps ss tabs1"
  have l1: "length tabs1 = ?n" using won len by (auto simp: tryAll_def Let_def)
  have l2: "length ?tabs2 = ?n" using l1 by simp
  let ?P = "\<lambda>i. fst (remoteDo (dls ! i) now ''lock'' res tok (tabs ! i))"
  let ?Q = "\<lambda>i. fst (remoteDo (dls2 ! i) now' op res tok' (?tabs2 ! i))"
  have g: "g = length (filter ?P [0..<?n])" using tryAll_count [OF len(1), of now "''lock''" res tok] won by simp
  assume "\<not> ?thesis"
  then have "quorumOf ?n \<le> length (filter ?Q [0..<?n])" using tryAll_count [of dls2 ?tabs2] l2 len by simp
  then have "?n < length (filter ?P [0..<?n]) + length (filter ?Q [0..<?n])"
    using won g by (simp add: quorumOf_def)
  then obtain i where i: "i < ?n" "?P i" "?Q i" using quorum_overlap by blast
  have "tabs1 ! i = snd (remoteDo (dls ! i) now ''lock'' res tok (tabs ! i))"
    using tryAll_nth [OF len(1) i(1), of now "''lock''" res tok] won by simp
  then have "peerDo now ''lock'' res tok (tabs ! i) = (True, tabs1 ! i)"
    using i(2) remoteDo_peerDo by (cases "peerDo now ''lock'' res tok (tabs ! i)") auto
  then have "heldX (tabs1 ! i) res tok (now + lockTTL)" using acquire_grants by (simp add: peerDo_def)
  then have "heldX (?tabs2 ! i) res tok (now + lockTTL)" using runSteps_keeps_heldX [OF between] i l1 by simp
  then have "\<not> fst (acquire now' res tok' ex (?tabs2 ! i))" for ex using heldX_refuses other by blast
  moreover have "fst (peerDo now' op res tok' (?tabs2 ! i))" using i(3) remoteDo_peerDo by blast
  ultimately show False using other(2) by (auto simp: peerDo_def)
qed

definition wit_tabs :: "lockTable list" where
  "wit_tabs = [newLockTable, newLockTable, newLockTable]"

definition wit_steps :: "step list" where
  "wit_steps = [\<lparr>atNode = 0, stTime = 5, stOp = ''lock'', stRes = ''b/k'', stTok = ''2-bb''\<rparr>,
                \<lparr>atNode = 2, stTime = 6, stOp = ''lock'', stRes = ''b/k'', stTok = ''2-bb''\<rparr>]"

lemma wit_tokenSeq: "tokenSeqOf ''1-aa'' = 1"
  by (simp add: tokenSeqOf_def digit36_def lowerChar_def less_eq_char_def)

theorem lock_mutual_exclusion_witness:
  "fst (tryAll 9 [Delivered, Delivered, Delivered] ''rlock'' ''b/k'' ''3-cc''
         (runSteps wit_steps (snd (tryAll 5 [Delivered, Delivered, RequestLost] ''lock'' ''b/k'' ''1-aa'' wit_tabs)))) < 2"
proof -
  have w: "tryAll 5 [Delivered, Delivered, RequestLost] ''lock'' ''b/k'' ''1-aa'' wit_tabs =
      (2, snd (tryAll 5 [Delivered, Delivered, RequestLost] ''lock'' ''b/k'' ''1-aa'' wit_tabs))"
    by (simp add: tryAll_def remoteDo_def handleLock_def acquire_def wit_tabs_def newLockTable_def wit_tokenSeq)
  have st: "list_all (stepWithin ''b/k'' ''1-aa'' (5 + lockTTL)) wit_steps"
    by (simp add: stepWithin_def wit_steps_def lockTTL_def)
  have "fst (tryAll 9 [Delivered, Delivered, Delivered] ''rlock'' ''b/k'' ''3-cc''
         (runSteps wit_steps (snd (tryAll 5 [Delivered, Delivered, RequestLost] ''lock'' ''b/k'' ''1-aa'' wit_tabs))))
       < quorumOf (length wit_tabs)"
    by (rule lock_mutual_exclusion [OF _ _ w _ st]) (simp_all add: wit_tabs_def quorumOf_def lockTTL_def)
  then show ?thesis by (simp add: wit_tabs_def quorumOf_def)
qed

subsection \<open>What the fence does and does not do\<close>

text \<open>
  The table invariant: the fence of a resource is at least its exclusive holder's sequence
  number, and a shared hold has a reader.
\<close>

definition table_ok :: "lockTable \<Rightarrow> bool" where
  "table_ok t \<longleftrightarrow> (\<forall>res h. lm t res = Some h \<longrightarrow>
     (if exclusive h then tokenSeqOf (token h) \<le> high t res else readers h \<noteq> [] \<and> distinct (readers h)))"

lemma table_ok_new: "table_ok newLockTable"
  by (simp add: table_ok_def newLockTable_def)

text \<open>
  Every request a node serves keeps its lock table well formed: an exclusive hold is covered
  by the fence, and a shared hold always has at least one reader.
\<close>

theorem table_ok_peerDo:
  assumes ok: "table_ok t"
  shows "table_ok (snd (peerDo now op res tok t))"
proof -
  have [simp]: "List.insert x xs \<noteq> []" for x :: string and xs
    by (auto simp: List.insert_def)
  have "table_ok (snd (acquire now res tok ex t))" for ex
    using ok by (auto simp: acquire_def table_ok_def split: option.splits)
  moreover have "table_ok (snd (refresh now res tok t))"
    using ok by (auto simp: refresh_def table_ok_def split: option.splits)
  moreover have "table_ok (release res tok ex t)" for ex
    using ok by (auto simp: release_def table_ok_def Let_def split: option.splits)
  ultimately show ?thesis using ok by (simp add: peerDo_def)
qed

theorem table_ok_peerDo_witness: "table_ok (snd (peerDo 5 ''rlock'' ''b/k'' ''1-aa'' newLockTable))"
  by (rule table_ok_peerDo) (rule table_ok_new)

text \<open>
  While a fence stands, every older token is refused, for ever: after an exclusive grant that
  was never released, a token with a smaller sequence number fails at every later time, even
  though the grant expired. Sequence numbers count per process, so a node with a lower counter
  starves.
\<close>

theorem fence_refuses_older:
  assumes ok: "table_ok t"
    and grant: "acquire now res tok True t = (True, t')" and older: "tokenSeqOf tok' < tokenSeqOf tok"
  shows "acquire later res tok' True t' = (False, t')"
proof -
  have "tokenSeqOf tok \<le> high t' res"
    using ok grant by (fastforce simp: acquire_def table_ok_def not_less split: if_splits option.splits)
  then have "tokenSeqOf tok' < high t' res" using older by (meson order_less_le_trans)
  then show ?thesis by (simp add: acquire_def)
qed

theorem fence_refuses_older_witness:
  "acquire (10 ^ 18) ''b/k'' ''0-zz'' True (snd (acquire 0 ''b/k'' ''1-aa'' True newLockTable))
     = (False, snd (acquire 0 ''b/k'' ''1-aa'' True newLockTable))"
proof (rule fence_refuses_older [OF table_ok_new])
  show "acquire 0 ''b/k'' ''1-aa'' True newLockTable = (True, snd (acquire 0 ''b/k'' ''1-aa'' True newLockTable))"
    by (simp add: acquire_def newLockTable_def wit_tokenSeq)
  show "tokenSeqOf ''0-zz'' < tokenSeqOf ''1-aa''"
    by (simp add: tokenSeqOf_def digit36_def lowerChar_def less_eq_char_def)
qed

text \<open>
  The fence does not survive a release: whenever a newer exclusive grant is released by its
  holder, an older token is granted again, although the comment in \<open>acquire\<close> says an older token
  is never granted after a newer one.
\<close>

theorem fence_dropped_by_release:
  assumes "acquire now res newer True t = (True, t')" "tokenSeqOf older < tokenSeqOf newer"
  shows "fst (acquire later res older True (release res newer True t'))"
proof -
  have h: "heldX t' res newer (now + lockTTL)" by (rule acquire_grants [OF assms(1)])
  then have "release res newer True t' = t'\<lparr>lm := (lm t')(res := None), high := (high t')(res := 0)\<rparr>"
    by (auto simp: release_def heldX_def split: option.splits)
  then show ?thesis by (simp add: acquire_def)
qed

theorem fence_dropped_by_release_witness:
  "fst (acquire 100 ''b/k'' ''0-zz'' True
     (release ''b/k'' ''1-aa'' True (snd (acquire 0 ''b/k'' ''1-aa'' True newLockTable))))"
proof (rule fence_dropped_by_release)
  show "acquire 0 ''b/k'' ''1-aa'' True newLockTable = (True, snd (acquire 0 ''b/k'' ''1-aa'' True newLockTable))"
    by (simp add: acquire_def newLockTable_def wit_tokenSeq)
  show "tokenSeqOf ''0-zz'' < tokenSeqOf ''1-aa''"
    by (simp add: tokenSeqOf_def digit36_def lowerChar_def less_eq_char_def)
qed

end
