(* ===== verification/Admission.thy ===== *)
theory Admission
  imports SigV4 Complex_Main
begin

text \<open>
  What may refuse a request before it is looked at (\<open>internal/api/ratelimit.go\<close>, \<open>admission.go\<close>,
  \<open>readonly.go\<close>): a token bucket per identity, a cap on the bytes of request bodies in flight, shedding of writes
  while the heap is large, and the read-only mode.
\<close>

subsection \<open>Rate limit (ratelimit.go)\<close>

text \<open>Tokens are rationals: the rounding of \<open>float64\<close> is not modelled. Times are nanoseconds.\<close>

record tokenBucket =
  tbTokens :: rat
  tbLast :: time

record rateLimiter =
  rlRate :: rat
  rlBurst :: rat
  rlM :: "tokenBucket gomap"
  rlCalls :: "64 word"

definition newRateLimiter :: "rat \<Rightarrow> rat \<Rightarrow> rateLimiter option" where
  "newRateLimiter rate burst0 =
     (if rate \<le> 0 then None
      else (let b1 = (if burst0 \<le> 0 then rate * 2 else burst0); b2 = (if b1 < 5 then 5 else b1)
            in Some \<lparr>rlRate = rate, rlBurst = b2, rlM = [], rlCalls = 0\<rparr>))"

definition dropIdle :: "time \<Rightarrow> rateLimiter \<Rightarrow> rateLimiter" where
  "dropIdle now l =
     (if rlCalls l mod 4096 = 0 \<and> length (rlM l) > 4096
      then l\<lparr>rlM := filter (\<lambda>(k, b). \<not> now - tbLast b > 600 * second) (rlM l)\<rparr> else l)"

definition refill :: "rateLimiter \<Rightarrow> time \<Rightarrow> tokenBucket \<Rightarrow> rat" where
  "refill l now b = min (tbTokens b + of_int (now - tbLast b) / of_int second * rlRate l) (rlBurst l)"

definition rlAllow :: "time \<Rightarrow> string \<Rightarrow> rateLimiter \<Rightarrow> bool \<times> rateLimiter" where
  "rlAllow now key l0 =
     (let l = dropIdle now (l0\<lparr>rlCalls := rlCalls l0 + 1\<rparr>);
          b = (case map_of (rlM l) key of Some b \<Rightarrow> b | None \<Rightarrow> \<lparr>tbTokens = rlBurst l, tbLast = now\<rparr>);
          t = refill l now b
      in if t < 1 then (False, l\<lparr>rlM := AList.update key \<lparr>tbTokens = t, tbLast = now\<rparr> (rlM l)\<rparr>)
         else (True, l\<lparr>rlM := AList.update key \<lparr>tbTokens = t - 1, tbLast = now\<rparr> (rlM l)\<rparr>))"

subsection \<open>Admission (admission.go)\<close>

text \<open>The soft memory limit and the environment variables that parse are inputs of the construction.\<close>

record admissionControl =
  adMaxInFlight :: int
  adInFlight :: int
  adMemLimit :: nat
  adShedUntil :: time
  adLast :: time

definition newAdmissionControl :: "int \<Rightarrow> int option \<Rightarrow> nat option \<Rightarrow> admissionControl" where
  "newAdmissionControl softLim maxEnv memEnv =
     (let limited = (0 < softLim \<and> softLim < 2 ^ 62);
          scaled = softLim div 100 * 35;
          m0 = (if limited \<and> scaled \<ge> 32 * 2 ^ 20 then scaled else 512 * 2 ^ 20);
          m1 = (case maxEnv of Some n \<Rightarrow> if n \<ge> 0 then n else m0 | None \<Rightarrow> m0);
          l0 = (if limited then nat softLim div 100 * 80 else 0);
          l1 = (case memEnv of Some n \<Rightarrow> n | None \<Rightarrow> l0)
      in \<lparr>adMaxInFlight = m1, adInFlight = 0, adMemLimit = l1, adShedUntil = 0, adLast = 0\<rparr>)"

text \<open>\<open>heap\<close> is \<open>HeapInuse\<close> at the time of the call.\<close>

definition memShedding :: "time \<Rightarrow> nat \<Rightarrow> admissionControl \<Rightarrow> bool \<times> admissionControl" where
  "memShedding now heap a =
     (if adMemLimit a = 0 then (False, a)
      else
        (let stale = (now - adLast a > 2 * second);
             a1 = (if stale then a\<lparr>adLast := now\<rparr> else a);
             a2 = (if stale \<and> heap > adMemLimit a then a1\<lparr>adShedUntil := now + 5 * second\<rparr> else a1)
         in (now < adShedUntil a2, a2)))"

text \<open>The result is the reservation the request holds, \<open>None\<close> when it is refused.\<close>

definition admit :: "time \<Rightarrow> nat \<Rightarrow> int \<Rightarrow> admissionControl \<Rightarrow> int option \<times> admissionControl" where
  "admit now heap n a =
     (case memShedding now heap a of (shed, a1) \<Rightarrow>
        if shed then (None, a1)
        else if adMaxInFlight a1 > 0 \<and> n > 0 then
          (if adInFlight a1 + n > adMaxInFlight a1 then (None, a1)
           else (Some n, a1\<lparr>adInFlight := adInFlight a1 + n\<rparr>))
        else (Some 0, a1))"

definition release :: "int \<Rightarrow> admissionControl \<Rightarrow> admissionControl" where
  "release n a = a\<lparr>adInFlight := adInFlight a - n\<rparr>"

text \<open>\<open>parseInt\<close> is \<open>strconv.ParseInt\<close> in base 10.\<close>

definition admissionBytes :: "(string \<Rightarrow> int option) \<Rightarrow> httpReq \<Rightarrow> int" where
  "admissionBytes parseInt r =
     (if ContentLength r > 0 then ContentLength r
      else (let v = Header r ''x-amz-decoded-content-length'' in
            if v = [] then 0 else case parseInt v of Some n \<Rightarrow> if n > 0 then n else 0 | None \<Rightarrow> 0))"

subsection \<open>Read-only mode (readonly.go)\<close>

record readOnlyState =
  roManual :: bool
  roAuto :: bool

definition roOn :: "readOnlyState \<Rightarrow> bool" where
  "roOn s \<longleftrightarrow> roManual s \<or> roAuto s"

definition roWhy :: "readOnlyState \<Rightarrow> string" where
  "roWhy s = (if roManual s then ''manual'' else if roAuto s then ''auto (write quorum unavailable)'' else [])"

text \<open>One tick of \<open>watchQuorum\<close>, given what the backend reports.\<close>

definition watchQuorum :: "bool \<Rightarrow> nat \<Rightarrow> readOnlyState \<Rightarrow> readOnlyState" where
  "watchQuorum healthy writeQuorum s =
     (let bad = (\<not> healthy \<and> writeQuorum > 0) in if bad \<noteq> roAuto s then s\<lparr>roAuto := bad\<rparr> else s)"

definition handleAdminReadOnly :: "bool \<Rightarrow> readOnlyState \<Rightarrow> readOnlyState" where
  "handleAdminReadOnly enabled s = s\<lparr>roManual := enabled\<rparr>"

definition adStats :: "admissionControl \<Rightarrow> int \<times> int" where
  "adStats a = (adInFlight a, adMaxInFlight a)"

definition has :: "(string list) gomap \<Rightarrow> string \<Rightarrow> bool" where
  "has q k \<longleftrightarrow> map_of q k \<noteq> None"

definition isMutatingRequest :: "httpReq \<Rightarrow> bool" where
  "isMutatingRequest r =
     (let q = Query r in
      if Method r \<in> {''GET'', ''HEAD'', ''OPTIONS''} then False
      else if Method r = ''POST'' then
        has q ''delete'' \<or> has q ''uploads'' \<or> has q ''uploadId'' \<or> hasPrefix (Header r ''Content-Type'') ''multipart/form-data''
      else True)"

subsection \<open>Bounds\<close>

text \<open>The bytes in flight are the sum of the reservations that are held, and never more than the cap.\<close>

definition adm_ok :: "int list \<Rightarrow> admissionControl \<Rightarrow> bool" where
  "adm_ok held a \<longleftrightarrow> adInFlight a = sum_list held \<and> (\<forall>n \<in> set held. 0 \<le> n) \<and> (adMaxInFlight a > 0 \<longrightarrow> adInFlight a \<le> adMaxInFlight a)"

lemma memShedding_keeps [simp]:
  "adInFlight (snd (memShedding now heap a)) = adInFlight a" "adMaxInFlight (snd (memShedding now heap a)) = adMaxInFlight a"
  by (simp_all add: memShedding_def Let_def)

lemma admit_ok:
  assumes "adm_ok held a" "admit now heap n a = (r, a')"
  shows "adm_ok (case r of Some k \<Rightarrow> k # held | None \<Rightarrow> held) a'"
  using assms memShedding_keeps [of now heap a]
  by (cases "memShedding now heap a") (auto simp: admit_def adm_ok_def split: if_splits)

lemma release_ok: "adm_ok (xs @ n # ys) a \<Longrightarrow> adm_ok (xs @ ys) (release n a)"
  by (auto simp: adm_ok_def release_def)

text \<open>A bucket never holds less than nothing nor more than the burst.\<close>

definition rl_ok :: "rateLimiter \<Rightarrow> bool" where
  "rl_ok l \<longleftrightarrow> 0 \<le> rlRate l \<and> 1 \<le> rlBurst l \<and> (\<forall>(k, b) \<in> set (rlM l). 0 \<le> tbTokens b \<and> tbTokens b \<le> rlBurst l)"

lemma update_set: "(k, v) \<in> set (AList.update k' v' m) \<Longrightarrow> (k, v) = (k', v') \<or> (k, v) \<in> set m"
  by (induction m) (auto split: if_splits)

lemma dropIdle_keeps: "rlRate (dropIdle now l) = rlRate l" "rlBurst (dropIdle now l) = rlBurst l" "set (rlM (dropIdle now l)) \<subseteq> set (rlM l)"
  by (auto simp: dropIdle_def)

lemma rlAllow_ok:
  assumes ok: "rl_ok l" and mono: "\<forall>(k, b) \<in> set (rlM l). tbLast b \<le> now"
  shows "rl_ok (snd (rlAllow now key l))"
proof -
  define l1 where "l1 = dropIdle now (l\<lparr>rlCalls := rlCalls l + 1\<rparr>)"
  have k: "rlRate l1 = rlRate l" "rlBurst l1 = rlBurst l" "set (rlM l1) \<subseteq> set (rlM l)"
    using dropIdle_keeps [of now "l\<lparr>rlCalls := rlCalls l + 1\<rparr>"] by (simp_all add: l1_def)
  define b where "b = (case map_of (rlM l1) key of Some b \<Rightarrow> b | None \<Rightarrow> \<lparr>tbTokens = rlBurst l1, tbLast = now\<rparr>)"
  have b: "0 \<le> tbTokens b" "tbLast b \<le> now"
    using ok mono k map_of_SomeD [of "rlM l1" key] by (auto simp: b_def rl_ok_def split: option.split)
  have "0 \<le> of_int (now - tbLast b) / of_int second * rlRate l1" using b(2) ok k by (simp add: rl_ok_def)
  then have t: "0 \<le> refill l1 now b" "refill l1 now b \<le> rlBurst l" using b(1) ok k by (auto simp: refill_def rl_ok_def)
  show ?thesis
    unfolding rlAllow_def Let_def l1_def [symmetric] b_def [symmetric]
    using ok k t by (fastforce simp: rl_ok_def dest!: update_set)
qed

text \<open>What a key could spend at a time; a key without a bucket would be given a full one.\<close>

definition avail :: "rateLimiter \<Rightarrow> time \<Rightarrow> string \<Rightarrow> rat" where
  "avail l now key = (case map_of (rlM l) key of Some b \<Rightarrow> refill l now b | None \<Rightarrow> rlBurst l)"

definition rl_inv :: "time \<Rightarrow> rateLimiter \<Rightarrow> bool" where
  "rl_inv t l \<longleftrightarrow> rl_ok l \<and> distinct (map fst (rlM l)) \<and> (\<forall>(k, b) \<in> set (rlM l). tbLast b \<le> t)"

lemma refill_updates [simp]:
  "refill (l\<lparr>rlCalls := n\<rparr>) now b = refill l now b" "refill (l\<lparr>rlM := m\<rparr>) now b = refill l now b"
  by (simp_all add: refill_def)

lemma avail_nonneg:
  assumes "rl_inv t l"
  shows "0 \<le> avail l t key"
proof (cases "map_of (rlM l) key")
  case (Some b)
  then have b: "0 \<le> tbTokens b" "tbLast b \<le> t" "0 \<le> rlRate l" "0 \<le> rlBurst l"
    using assms map_of_SomeD [OF Some] by (auto simp: rl_inv_def rl_ok_def)
  then have "0 \<le> of_int (t - tbLast b) / of_int second * rlRate l" by simp
  then show ?thesis using Some b by (simp add: avail_def refill_def)
qed (use assms in \<open>simp add: avail_def rl_inv_def rl_ok_def\<close>)

lemma avail_later:
  assumes "rl_inv t l" "t \<le> now"
  shows "avail l now key \<le> avail l t key + of_int (now - t) / of_int second * rlRate l"
proof -
  have r: "0 \<le> rlRate l" using assms(1) by (simp add: rl_inv_def rl_ok_def)
  then have "0 \<le> of_int (now - t) / of_int second * rlRate l" using assms(2) by simp
  then show ?thesis
    by (auto simp: avail_def refill_def diff_divide_distrib algebra_simps min_def split: option.split)
qed

text \<open>A bucket idle for ten minutes is full when that time earns a burst, so dropping it gives nothing away.\<close>

lemma dropIdle_avail:
  assumes "rl_inv t l" "t \<le> now" "rlBurst l \<le> 600 * rlRate l"
  shows "avail (dropIdle now l) now key = avail l now key"
proof (cases "map_of (rlM l) key")
  case None
  then have "key \<notin> fst ` set (rlM l)" by (simp add: map_of_eq_None_iff)
  then have "key \<notin> fst ` set (rlM (dropIdle now l))" using dropIdle_keeps(3) by blast
  then have "map_of (rlM (dropIdle now l)) key = None" by (simp add: map_of_eq_None_iff)
  then show ?thesis using None by (simp add: avail_def dropIdle_keeps)
next
  case (Some b)
  have d: "distinct (map fst (rlM l))" using assms(1) by (simp add: rl_inv_def)
  have inb: "(key, b) \<in> set (rlM l)" using map_of_SomeD [OF Some] .
  have bt: "0 \<le> tbTokens b" "0 \<le> rlRate l" using assms(1) inb by (auto simp: rl_inv_def rl_ok_def)
  have k: "refill (dropIdle now l) now b = refill l now b" by (simp add: refill_def dropIdle_keeps)
  let ?p = "\<lambda>(k, b). \<not> now - tbLast b > 600 * second"
  have m: "map_of (filter ?p (rlM l)) key = (if ?p (key, b) then Some b else None)"
    using d inb by (auto simp: map_of_eq_Some_iff [OF distinct_map_filter [OF d]] map_of_eq_None_iff dest: eq_key_imp_eq_value [OF d])
  have full: "refill l now b = rlBurst l" if "now - tbLast b > 600 * second"
  proof -
    have "(of_int (600 * second) :: rat) \<le> of_int (now - tbLast b)" using that by (simp only: of_int_le_iff less_imp_le)
    then have "(600 :: rat) \<le> of_int (now - tbLast b) / of_int second" by (simp add: le_divide_eq)
    then have "600 * rlRate l \<le> of_int (now - tbLast b) / of_int second * rlRate l" using bt(2) by (rule mult_right_mono)
    then show ?thesis using assms(3) bt(1) by (simp add: refill_def)
  qed
  show ?thesis
    using Some m full k by (auto simp: avail_def dropIdle_def refill_def split: if_splits)
qed

lemma rlAllow_step:
  assumes "rl_inv t l" "t \<le> now" "rlBurst l \<le> 600 * rlRate l" "rlAllow now key l = (ok, l')"
  shows "rl_inv now l' \<and> rlRate l' = rlRate l \<and> rlBurst l' = rlBurst l
    \<and> avail l' now k = avail l now k - (if ok \<and> k = key then 1 else 0)"
proof -
  define l0 where "l0 = l\<lparr>rlCalls := rlCalls l + 1\<rparr>"
  define l1 where "l1 = dropIdle now l0"
  have l0: "rl_inv t l0" "rlRate l0 = rlRate l" "rlBurst l0 = rlBurst l" "rlM l0 = rlM l" "avail l0 now k' = avail l now k'" for k'
    using assms(1) by (auto simp: l0_def rl_inv_def rl_ok_def avail_def split: option.split)
  have l1: "rlRate l1 = rlRate l" "rlBurst l1 = rlBurst l" "set (rlM l1) \<subseteq> set (rlM l)" "avail l1 now k' = avail l now k'" for k'
    using dropIdle_keeps [of now l0] dropIdle_avail [OF l0(1) assms(2)] l0(2-5) assms(3) by (simp_all add: l1_def)
  have d: "distinct (map fst (rlM l1))" using l0(1) by (auto simp: l1_def dropIdle_def rl_inv_def distinct_map_filter)
  have t: "\<forall>(k, b) \<in> set (rlM l). tbLast b \<le> now" using assms(1,2) by (fastforce simp: rl_inv_def)
  define b where "b = (case map_of (rlM l1) key of Some b \<Rightarrow> b | None \<Rightarrow> \<lparr>tbTokens = rlBurst l1, tbLast = now\<rparr>)"
  have a: "refill l1 now b = avail l1 now key" by (auto simp: b_def avail_def refill_def split: option.split)
  define x where "x = (if refill l1 now b < 1 then refill l1 now b else refill l1 now b - 1)"
  have l': "l' = l1\<lparr>rlM := AList.update key \<lparr>tbTokens = x, tbLast = now\<rparr> (rlM l1)\<rparr>" "ok = (\<not> refill l1 now b < 1)"
    using assms(4) unfolding rlAllow_def Let_def l0_def [symmetric] l1_def [symmetric] b_def [symmetric] by (auto simp: x_def split: if_splits)
  have "rl_ok l'" using rlAllow_ok [of l now key] assms(1,4) t by (auto simp: rl_inv_def)
  moreover have "distinct (map fst (rlM l'))" using d by (simp add: l'(1) distinct_update)
  moreover have "\<forall>(k, b) \<in> set (rlM l'). tbLast b \<le> now" using t l1(3) by (fastforce simp: l'(1) dest!: update_set)
  moreover have "avail l' now k = avail l1 now k - (if ok \<and> k = key then 1 else 0)"
  proof (cases "k = key")
    case True
    have "x \<le> rlBurst l1" using a by (auto simp: x_def avail_def refill_def split: option.splits)
    then have "avail l' now key = x" by (simp add: l'(1) avail_def refill_def update_conv)
    then show ?thesis using True a l'(2) by (simp add: x_def)
  qed (simp add: l'(1) avail_def update_conv split: option.split)
  ultimately show ?thesis using l1 by (simp add: rl_inv_def l'(1))
qed

text \<open>A sequence of requests and how many of them were let through for one identity.\<close>

fun rlRun :: "(time \<times> string) list \<Rightarrow> rateLimiter \<Rightarrow> (string \<times> bool) list \<times> rateLimiter" where
  "rlRun [] l = ([], l)"
| "rlRun ((now, key) # cs) l =
     (case rlAllow now key l of (ok, l1) \<Rightarrow> (case rlRun cs l1 of (oks, l2) \<Rightarrow> ((key, ok) # oks, l2)))"

definition passed :: "string \<Rightarrow> (string \<times> bool) list \<Rightarrow> nat" where
  "passed key oks = length (filter (\<lambda>x. x = (key, True)) oks)"

definition earned :: "rateLimiter \<Rightarrow> time \<Rightarrow> rat" where
  "earned l d = of_int d / of_int second * rlRate l"

lemma earned_add: "earned l (now - t) + earned l (u - now) = earned l (u - t)"
  by (simp add: earned_def diff_divide_distrib algebra_simps)

lemma rlRun_bound:
  assumes "rl_inv t l" "sorted (map fst cs)" "\<And>c. c \<in> set cs \<Longrightarrow> t \<le> fst c" "\<And>c. c \<in> set cs \<Longrightarrow> fst c \<le> u" "t \<le> u"
    "rlBurst l \<le> 600 * rlRate l" "rlRun cs l = (oks, l')"
  shows "rl_inv u l' \<and> rlRate l' = rlRate l \<and> rlBurst l' = rlBurst l
    \<and> of_nat (passed key oks) + avail l' u key \<le> avail l t key + of_int (u - t) / of_int second * rlRate l"
  using assms
proof (induction cs arbitrary: t l oks)
  case Nil
  have "rl_inv u l" using Nil(1,5) by (fastforce simp: rl_inv_def)
  then show ?case using Nil avail_later [OF Nil(1,5), of key] by (simp add: passed_def)
next
  case (Cons c cs)
  obtain now k where c: "c = (now, k)" by (cases c)
  obtain ok l1 where a: "rlAllow now k l = (ok, l1)" by fastforce
  obtain oks1 where r: "rlRun cs l1 = (oks1, l')" "oks = (k, ok) # oks1" using Cons.prems(7) c a by (auto split: prod.splits)
  have n: "t \<le> now" "now \<le> u" using Cons.prems(3,4) [of c] c by auto
  note s = rlAllow_step [OF Cons.prems(1) n(1) Cons.prems(6) a]
  have "rl_inv u l' \<and> rlRate l' = rlRate l1 \<and> rlBurst l' = rlBurst l1
      \<and> of_nat (passed key oks1) + avail l' u key \<le> avail l1 now key + of_int (u - now) / of_int second * rlRate l1"
    by (rule Cons.IH) (use Cons.prems s r n c in auto)
  then have i: "rl_inv u l'" "rlRate l' = rlRate l" "rlBurst l' = rlBurst l"
    "of_nat (passed key oks1) + avail l' u key \<le> avail l1 now key + earned l (u - now)"
    using s by (auto simp: earned_def)
  moreover have "avail l now key \<le> avail l t key + earned l (now - t)"
    unfolding earned_def by (rule avail_later [OF Cons.prems(1) n(1)])
  moreover have "of_nat (passed key oks) = (of_nat (passed key oks1) :: rat) + (if ok \<and> key = k then 1 else 0)"
    by (simp add: passed_def r(2))
  ultimately have "of_nat (passed key oks) + avail l' u key \<le> avail l t key + earned l (u - t)"
    using s [of key] earned_add [of l now t u] by linarith
  then show ?case using i by (simp add: earned_def)
qed



end
