(* ===== verification/Policy.thy ===== *)
theory Policy
  imports Prelude
begin

text \<open>
  The policy language of \<open>internal/iam/policy\<close>: the document (\<open>policy.go\<close>), its
  evaluation, and the canned policies (\<open>builtin.go\<close>). The Go maps of a \<open>Condition\<close> block
  are association lists. \<open>net.ParseIP\<close>, \<open>net.ParseCIDR\<close> and \<open>strings.EqualFold\<close>
  are fields of the record \<open>netlib\<close>, over which every result below is general.
\<close>

subsection \<open>Runes\<close>

text \<open>Conversion of a Go string to \<open>[]rune\<close>: UTF-8, an invalid byte giving U+FFFD.\<close>

type_synonym rune = nat

definition isCont :: "nat \<Rightarrow> bool" where
  "isCont b = (128 \<le> b \<and> b \<le> 191)"

fun decodeRune :: "nat list \<Rightarrow> rune \<times> nat" where
  "decodeRune [] = (65533, 0)"
| "decodeRune (b0 # rest) =
     (if b0 < 128 then (b0, 1)
      else if 194 \<le> b0 \<and> b0 \<le> 223 then
        (case rest of b1 # _ \<Rightarrow>
           if isCont b1 then ((b0 - 192) * 64 + (b1 - 128), 2) else (65533, 1)
         | [] \<Rightarrow> (65533, 1))
      else if 224 \<le> b0 \<and> b0 \<le> 239 then
        (case rest of b1 # b2 # _ \<Rightarrow>
           if isCont b1 \<and> isCont b2 \<and> (b0 = 224 \<longrightarrow> 160 \<le> b1) \<and> (b0 = 237 \<longrightarrow> b1 \<le> 159)
           then ((b0 - 224) * 4096 + (b1 - 128) * 64 + (b2 - 128), 3) else (65533, 1)
         | _ \<Rightarrow> (65533, 1))
      else if 240 \<le> b0 \<and> b0 \<le> 244 then
        (case rest of b1 # b2 # b3 # _ \<Rightarrow>
           if isCont b1 \<and> isCont b2 \<and> isCont b3 \<and> (b0 = 240 \<longrightarrow> 144 \<le> b1) \<and> (b0 = 244 \<longrightarrow> b1 \<le> 143)
           then ((b0 - 240) * 262144 + (b1 - 128) * 4096 + (b2 - 128) * 64 + (b3 - 128), 4)
           else (65533, 1)
         | _ \<Rightarrow> (65533, 1))
      else (65533, 1))"

function runesOf :: "nat list \<Rightarrow> rune list" where
  "runesOf [] = []"
| "runesOf (b # bs) = (let (r, w) = decodeRune (b # bs) in r # runesOf (drop (w - 1) bs))"
  by pat_completeness auto
termination
  by (relation "measure length") auto

definition runes :: "string \<Rightarrow> rune list" where
  "runes s = runesOf (map of_char s)"

lemma runesOf_ascii: "\<forall>b \<in> set bs. b < 128 \<Longrightarrow> runesOf bs = bs"
  by (induction bs) auto

subsection \<open>Documents\<close>

record principal =
  praw :: string
  pAWS :: "string list"

record statement =
  SID :: string
  Effect :: string
  Principal :: principal
  Action :: "string list"
  NotAction :: "string list"
  Resource :: "string list"
  Condition :: "(string \<times> (string \<times> string list) list) list"

record policy =
  PVersion :: string
  PID :: string
  Statements :: "statement list"

record args =
  AccountName :: string
  ArgAction :: string
  BucketName :: string
  ObjectName :: string
  IsOwner :: bool
  SourceIP :: string
  ConditionValues :: "string \<rightharpoonup> string list"

record netlib =
  ParseIP :: "string \<Rightarrow> nat option"
  ParseCIDR :: "string \<Rightarrow> (nat \<Rightarrow> bool) option"
  EqualFold :: "string \<Rightarrow> string \<Rightarrow> bool"

definition noPrincipal :: principal where
  "noPrincipal = \<lparr>praw = [], pAWS = []\<rparr>"

definition IsPublic :: "principal \<Rightarrow> bool" where
  "IsPublic p = (praw p = ''*'' \<or> (\<exists>a \<in> set (pAWS p). a = ''*''))"

subsection \<open>Wildcards\<close>

abbreviation star :: rune where "star \<equiv> 42"
abbreviation qmark :: rune where "qmark \<equiv> 63"

fun deepMatch :: "rune list \<Rightarrow> rune list \<Rightarrow> bool" where
  "deepMatch [] str = (str = [])"
| "deepMatch (p # pat) str =
     (if p = star then
        deepMatch pat str \<or> (case str of [] \<Rightarrow> False | _ # str' \<Rightarrow> deepMatch (p # pat) str')
      else if p = qmark then (case str of [] \<Rightarrow> False | _ # str' \<Rightarrow> deepMatch pat str')
      else (case str of [] \<Rightarrow> False | c # str' \<Rightarrow> p = c \<and> deepMatch pat str'))"

definition wildcardMatch :: "string \<Rightarrow> string \<Rightarrow> bool" where
  "wildcardMatch pattern s = (if pattern = ''*'' then True else deepMatch (runes pattern) (runes s))"

subsection \<open>Statement matching\<close>

definition matchPrincipal :: "statement \<Rightarrow> args \<Rightarrow> bool" where
  "matchPrincipal st a =
     (if praw (Principal st) = [] \<and> length (pAWS (Principal st)) = 0 then True
      else if IsPublic (Principal st) then True
      else if AccountName a = [] then False
      else (\<exists>p \<in> set (pAWS (Principal st)).
              p = AccountName a \<or> hasSuffix p (''/'' @ AccountName a)
              \<or> hasSuffix p ('':'' @ AccountName a)))"

definition matchAction :: "statement \<Rightarrow> string \<Rightarrow> bool" where
  "matchAction st action =
     (if length (NotAction st) > 0 then \<not> (\<exists>pat \<in> set (NotAction st). wildcardMatch pat action)
      else (\<exists>pat \<in> set (Action st). wildcardMatch pat action))"

definition matchResource :: "statement \<Rightarrow> args \<Rightarrow> bool" where
  "matchResource st a =
     (let res = (if ObjectName a \<noteq> [] then BucketName a @ ''/'' @ ObjectName a else BucketName a)
      in \<exists>pat \<in> set (Resource st).
           (let p = trimPrefix pat ''arn:aws:s3:::''
            in wildcardMatch p res \<or> (ObjectName a = [] \<and> wildcardMatch p (BucketName a))))"

definition conditionValue :: "args \<Rightarrow> string \<Rightarrow> string list" where
  "conditionValue a key =
     (if key = ''aws:username'' then [AccountName a]
      else if key = ''aws:SourceIp'' then [SourceIP a]
      else (case ConditionValues a key of Some v \<Rightarrow> v | None \<Rightarrow> []))"

definition anyEqual :: "netlib \<Rightarrow> string list \<Rightarrow> string list \<Rightarrow> bool \<Rightarrow> bool" where
  "anyEqual nl got want ci =
     (\<exists>g \<in> set got. \<exists>w \<in> set want. g = w \<or> (ci \<and> EqualFold nl g w))"

definition ipMatch :: "netlib \<Rightarrow> string list \<Rightarrow> string list \<Rightarrow> bool" where
  "ipMatch nl got want =
     (\<exists>g \<in> set got.
        (case ParseIP nl g of None \<Rightarrow> False
         | Some ip \<Rightarrow> (\<exists>w \<in> set want.
             (case ParseCIDR nl w of Some cidr \<Rightarrow> cidr ip | None \<Rightarrow> False)
             \<or> ParseIP nl w = Some ip)))"

definition evalCondition :: "netlib \<Rightarrow> string \<Rightarrow> string list \<Rightarrow> string list \<Rightarrow> bool" where
  "evalCondition nl oper got want =
     (if oper = ''StringEquals'' then anyEqual nl got want False
      else if oper = ''StringNotEquals'' then \<not> anyEqual nl got want False
      else if oper = ''StringEqualsIgnoreCase'' then anyEqual nl got want True
      else if oper = ''StringLike'' then
        (\<exists>g \<in> set got. \<exists>w \<in> set want. wildcardMatch w g) \<or> length got = 0
      else if oper = ''IpAddress'' then ipMatch nl got want
      else if oper = ''NotIpAddress'' then \<not> ipMatch nl got want
      else True)"

definition matchConditions :: "netlib \<Rightarrow> statement \<Rightarrow> args \<Rightarrow> bool" where
  "matchConditions nl st a =
     (\<forall>(oper, kv) \<in> set (Condition st). \<forall>(key, want) \<in> set kv.
        evalCondition nl oper (conditionValue a key) want)"

definition matches :: "netlib \<Rightarrow> statement \<Rightarrow> args \<Rightarrow> bool" where
  "matches nl st a =
     (if \<not> matchPrincipal st a then False
      else if \<not> matchAction st (ArgAction a) then False
      else if \<not> matchResource st a then False
      else if \<not> matchConditions nl st a then False
      else True)"

definition IsAllowed :: "netlib \<Rightarrow> policy \<Rightarrow> args \<Rightarrow> bool" where
  "IsAllowed nl p a =
     (if \<exists>st \<in> set (Statements p). Effect st = ''Deny'' \<and> matches nl st a then False
      else if \<exists>st \<in> set (Statements p). Effect st = ''Allow'' \<and> matches nl st a then True
      else False)"

subsection \<open>Serialisation\<close>

text \<open>
  \<open>MarshalJSON\<close> fills in a missing \<open>Version\<close> and writes the exported fields; the
  unexported field \<open>raw\<close> of a \<open>Principal\<close> is not written, and \<open>UnmarshalJSON\<close> of the
  object that is written leaves it empty. \<open>reserialise\<close> is the document that \<open>Parse\<close>
  returns for the bytes that \<open>MarshalJSON\<close> produced.
\<close>

definition MarshalVersion :: "policy \<Rightarrow> policy" where
  "MarshalVersion p = (if PVersion p = [] then p\<lparr>PVersion := ''2012-10-17''\<rparr> else p)"

definition reserialise :: "policy \<Rightarrow> policy" where
  "reserialise p =
     (MarshalVersion p)\<lparr>Statements :=
        map (\<lambda>st. st\<lparr>Principal := (Principal st)\<lparr>praw := []\<rparr>\<rparr>) (Statements p)\<rparr>"

subsection \<open>Canned policies\<close>

definition allowStmt :: "string list \<Rightarrow> statement" where
  "allowStmt acts = \<lparr>SID = [], Effect = ''Allow'', Principal = noPrincipal, Action = acts,
     NotAction = [], Resource = [''arn:aws:s3:::*''], Condition = []\<rparr>"

definition doc :: "statement list \<Rightarrow> policy" where
  "doc sts = \<lparr>PVersion = ''2012-10-17'', PID = [], Statements = sts\<rparr>"

definition readWriteJSON :: policy where
  "readWriteJSON = doc [allowStmt [''s3:*'']]"

definition readOnlyJSON :: policy where
  "readOnlyJSON = doc [allowStmt [''s3:GetObject'', ''s3:GetObjectVersion'', ''s3:ListBucket'',
     ''s3:ListAllMyBuckets'', ''s3:GetBucketLocation'', ''s3:ListBucketMultipartUploads'',
     ''s3:ListMultipartUploadParts'']]"

definition writeOnlyJSON :: policy where
  "writeOnlyJSON = doc [allowStmt [''s3:PutObject'', ''s3:AbortMultipartUpload'',
     ''s3:ListMultipartUploadParts'', ''s3:ListBucketMultipartUploads'', ''s3:GetBucketLocation'']]"

definition diagnosticsJSON :: policy where
  "diagnosticsJSON = doc [allowStmt [''admin:ServerInfo'', ''admin:StorageInfo'', ''admin:HealthInfo'']]"

definition consoleAdminJSON :: policy where
  "consoleAdminJSON = doc [allowStmt [''s3:*''], allowStmt [''admin:*'']]"

definition Builtin :: "policy gomap" where
  "Builtin = [(''readwrite'', readWriteJSON), (''readonly'', readOnlyJSON),
     (''writeonly'', writeOnlyJSON), (''diagnostics'', diagnosticsJSON),
     (''consoleAdmin'', consoleAdminJSON)]"

definition IsBuiltin :: "string \<Rightarrow> bool" where
  "IsBuiltin name = (map_of Builtin name \<noteq> None)"

subsection \<open>What a wildcard pattern denotes\<close>

text \<open>
  The reference meaning of a pattern: the string splits into one piece per pattern rune, any
  piece for a star, a single rune for a question mark and the rune itself otherwise.
\<close>

definition piece_ok :: "rune \<Rightarrow> rune list \<Rightarrow> bool" where
  "piece_ok p seg = (if p = star then True else if p = qmark then length seg = 1 else seg = [p])"

definition glob :: "rune list \<Rightarrow> rune list \<Rightarrow> bool" where
  "glob pat str = (\<exists>pieces. concat pieces = str \<and> list_all2 piece_ok pat pieces)"

lemma glob_Nil [simp]: "glob [] str \<longleftrightarrow> str = []"
  by (auto simp: glob_def)

lemma glob_Cons: "glob (p # pat) str \<longleftrightarrow> (\<exists>a b. str = a @ b \<and> piece_ok p a \<and> glob pat b)"
  by (auto simp: glob_def list_all2_Cons1 dest: sym) (metis concat.simps(2))+

lemma glob_star: 
  "glob (star # pat) str \<longleftrightarrow> glob pat str \<or> (\<exists>c str'. str = c # str' \<and> glob (star # pat) str')"
proof
  assume "glob (star # pat) str"
  then obtain a b where ab: "str = a @ b" "glob pat b" by (auto simp: glob_Cons)
  then show "glob pat str \<or> (\<exists>c str'. str = c # str' \<and> glob (star # pat) str')"
    by (cases a) (auto simp: glob_Cons piece_ok_def)
next
  assume "glob pat str \<or> (\<exists>c str'. str = c # str' \<and> glob (star # pat) str')"
  then show "glob (star # pat) str"
  proof
    assume "glob pat str"
    then have "str = [] @ str \<and> piece_ok star [] \<and> glob pat str" by (simp add: piece_ok_def)
    then show ?thesis unfolding glob_Cons by blast
  next
    assume "\<exists>c str'. str = c # str' \<and> glob (star # pat) str'"
    then obtain c a b where "str = (c # a) @ b" "glob pat b" by (auto simp: glob_Cons)
    then show ?thesis unfolding glob_Cons by (metis piece_ok_def)
  qed
qed

lemma glob_qmark: "glob (qmark # pat) str \<longleftrightarrow> (\<exists>c str'. str = c # str' \<and> glob pat str')"
proof
  assume "glob (qmark # pat) str"
  then show "\<exists>c str'. str = c # str' \<and> glob pat str'"
    by (auto simp: glob_Cons piece_ok_def length_Suc_conv)
next
  assume "\<exists>c str'. str = c # str' \<and> glob pat str'"
  then obtain c str' where "str = [c] @ str'" "glob pat str'" by auto
  then show "glob (qmark # pat) str" unfolding glob_Cons by (metis piece_ok_def length_Cons list.size(3) One_nat_def)
qed

lemma glob_lit:
  "p \<noteq> star \<Longrightarrow> p \<noteq> qmark \<Longrightarrow> glob (p # pat) str \<longleftrightarrow> (\<exists>str'. str = p # str' \<and> glob pat str')"
  by (auto simp: glob_Cons piece_ok_def)

lemma deepMatch_glob: "deepMatch pat str = glob pat str"
proof (induction pat str rule: deepMatch.induct)
  case (1 str)
  then show ?case by simp
next
  case (2 p pat str)
  show ?case
  proof (cases "p = star")
    case True
    then show ?thesis using 2 glob_star [of pat str] by (cases str) auto
  next
    case ns: False
    show ?thesis
    proof (cases "p = qmark")
      case True
      with ns show ?thesis using 2 by (cases str) (auto simp: glob_qmark)
    next
      case False
      with ns show ?thesis using 2 by (cases str) (auto simp: glob_lit)
    qed
  qed
qed

lemma glob_all: "glob [star] str"
  unfolding glob_Cons by (rule exI [of _ str]) (simp add: piece_ok_def)

text \<open>
  C30: a pattern matches exactly the strings it denotes: the special case for the pattern
  \<open>*\<close> and the backtracking matcher together decide the reference meaning.
\<close>

theorem wildcardMatch_denotes: "wildcardMatch pattern s \<longleftrightarrow> glob (runes pattern) (runes s)"
proof (cases "pattern = ''*''")
  case True
  then have "runes pattern = [star]" by (simp add: runes_def of_char_def)
  then show ?thesis using True by (simp add: wildcardMatch_def glob_all)
next
  case False
  then show ?thesis by (simp add: wildcardMatch_def deepMatch_glob)
qed

subsection \<open>Explicit deny\<close>

lemma IsAllowed_iff:
  "IsAllowed nl p a \<longleftrightarrow>
     (\<forall>st \<in> set (Statements p). Effect st = ''Deny'' \<longrightarrow> \<not> matches nl st a)
     \<and> (\<exists>st \<in> set (Statements p). Effect st = ''Allow'' \<and> matches nl st a)"
  by (auto simp: IsAllowed_def)

lemma IsAllowed_empty: "Statements p = [] \<Longrightarrow> \<not> IsAllowed nl p a"
  by (simp add: IsAllowed_def)

end
