(* ===== verification/Docs.thy ===== *)
theory Docs
  imports Prelude
begin

text \<open>
  The JSON documents the program keeps. Configuration blobs: the identity database
  (\<open>internal/iam/store.go\<close>), the bucket configurations (\<open>internal/bucketcfg/bucketcfg.go\<close>),
  the repair queue (\<open>internal/erasure/mrf.go\<close>) and the layout of the pool (\<open>decommission.go\<close>); and the
  documents of the single-disk backend (\<open>internal/object/fs\<close>). A nil pointer is \<open>None\<close>; a map or a list that is
  nil and one that is empty are the same value, as the program does not tell them apart.
\<close>

text \<open>What a read of a blob gives its client: absent, a failed read, bytes that do not parse, a document.\<close>

datatype 'c readResult = ReadNotFound | ReadErr | ReadBad | ReadOk 'c

subsection \<open>The identity database\<close>

record userRec =
  uSecretKey :: string
  uPolicies :: "string list"
  uStatus :: string

record svcAcctRec =
  sSecretKey :: string
  sParentUser :: string
  sInlinePolicy :: string
  sStatus :: string

record persisted =
  Users :: "userRec gomap"
  PPolicies :: "string gomap"
  SvcAccts :: "svcAcctRec gomap"
  UpdatedAt :: time

subsection \<open>Bucket configurations\<close>

record ingestKey =
  ikID :: string
  ikHash :: string
  ikPrefix :: string
  ikLabel :: string
  ikCreatedAt :: time

record websiteConfig =
  IndexDocument :: string
  ErrorDocument :: string

record lifecycleRule =
  lcID :: string
  lcPrefix :: string
  lcStatus :: string
  ExpirationDays :: int
  ExpirationDate :: string
  ExpiredObjectDeleteMarker :: bool
  NoncurrentVersionExpirationDays :: int
  AbortIncompleteMultipartDays :: int
  TransitionDays :: int
  TransitionTier :: string

record replicationRule =
  rrID :: string
  rrPrefix :: string
  DestBucket :: string
  DestEndpoint :: string
  DestRegion :: string
  DestAccessKey :: string
  DestSecretKey :: string
  DeleteRepl :: bool

record objectLockConfig =
  olEnabled :: bool
  DefaultMode :: string
  DefaultDays :: int
  DefaultYears :: int

record corsRule =
  AllowedOrigins :: "string list"
  AllowedMethods :: "string list"
  AllowedHeaders :: "string list"
  ExposeHeaders :: "string list"
  MaxAgeSeconds :: int

record webhookTarget =
  whID :: string
  whURL :: string
  whEvents :: "string list"
  whPrefix :: string
  whSuffix :: string

record bucketConfig =
  cfgPolicy :: string
  cfgCORS :: "corsRule list"
  cfgTags :: "string gomap"
  cfgNotification :: "webhookTarget list option"
  cfgVersioning :: string
  cfgObjectLock :: "objectLockConfig option"
  cfgReplication :: "replicationRule list"
  cfgLifecycle :: "lifecycleRule list"
  QuotaBytes :: int
  QuotaObjects :: int
  cfgWebsite :: "websiteConfig option"
  cfgCompress :: bool
  IngestKeys :: "ingestKey list"

definition emptyConfig :: bucketConfig where
  "emptyConfig = \<lparr>cfgPolicy = [], cfgCORS = [], cfgTags = [], cfgNotification = None, cfgVersioning = [],
     cfgObjectLock = None, cfgReplication = [], cfgLifecycle = [], QuotaBytes = 0, QuotaObjects = 0,
     cfgWebsite = None, cfgCompress = False, IngestKeys = []\<rparr>"

record envelope =
  Buckets :: "bucketConfig gomap"
  EUpdatedAt :: time

subsection \<open>The layout of the pool (erasure/decommission.go)\<close>

record poolLayoutDoc =
  lyDraining :: "int list"
  lyUpdatedAt :: time

subsection \<open>The single-disk backend (object/fs)\<close>

record diskFormat =
  dfVersion :: int
  dfID :: string
  dfCreated :: time

record bucketMeta =
  bmName :: string
  bmCreated :: time
  bmVersioning :: bool
  bmObjectLock :: bool

record objMetaPart =
  ompNumber :: int
  ompSize :: int
  ompActualSize :: int
  ompETag :: string

record objMeta =
  omSize :: int
  omModTime :: time
  omETag :: string
  omContentType :: string
  omContentEnc :: string
  omUserMeta :: "string gomap"
  omUserTags :: string
  omParts :: "objMetaPart list"
  omSSE :: string
  omPlainSize :: int
  omEncDEK :: string
  omNoncePrefix :: string

record verEntry =
  veID :: string
  veDeleteMarker :: bool
  veSize :: int
  veETag :: string
  veModTime :: time
  veContentType :: string
  veContentEnc :: string
  veUserMeta :: "string gomap"
  veUserTags :: string
  veParts :: "objMetaPart list"
  veLockMode :: string
  veRetainUntil :: time
  veLegalHold :: bool

record mpUploadMeta =
  muBucket :: string
  muObject :: string
  muInitiated :: time
  muContentType :: string
  muContentEnc :: string
  muUserMeta :: "string gomap"
  muUserTags :: string

record mpPartMeta =
  mpNumber :: int
  mpSize :: int
  mpActualSize :: int
  mpETag :: string
  mpModified :: time

end
