(* ===== verification/IAM.thy ===== *)
theory IAM
  imports Policy Docs
begin

text \<open>
  Identity and access management: \<open>internal/iam/iam.go\<close> and \<open>internal/iam/store.go\<close>.
  The \<open>Manager\<close> is a record; an operation takes the manager and returns it with the
  error of the call (\<open>None\<close> for \<open>nil\<close>). The configuration backend is a parameter: the
  state \<open>'b\<close> with a write and a read function, since \<open>configstore.Backend\<close> is an
  interface; a write reports success and returns the new state of the backend in either case. The policy parser and printer (\<open>encoding/json\<close>) are parameters too. The
  clock is an argument \<open>now\<close>. The locks of the manager serialise its operations, so each
  operation is one step.
\<close>

datatype iamErr = ErrNoSuchUser | ErrNoSuchPolicy | ErrUserExists | ErrInvalidCred | ErrIsRoot
  | ErrBadPolicyName | ErrParse | ErrStore

record stsRec =
  stsSecret :: string
  stsParentUser :: string
  stsPol :: "policy option"
  stsExpiry :: time

record identity =
  AccessKey :: string
  SecretKey :: string
  ParentUser :: string
  IsRoot :: bool
  Policies :: "string list"
  Inline :: "policy option"
  Expiry :: time

record 'b manager =
  rootAccess :: string
  rootSecret :: string
  users :: "userRec gomap"
  svcAccts :: "svcAcctRec gomap"
  custom :: "policy gomap"
  builtin :: "policy gomap"
  sts :: "stsRec gomap"
  store :: 'b
  inlineCache :: "(string \<times> policy option) gomap"
  lastSync :: time

type_synonym 'b writer = "'b \<Rightarrow> persisted \<Rightarrow> bool \<times> 'b"
type_synonym parser = "string \<Rightarrow> policy option"

subsection \<open>Persistence (store.go)\<close>

definition emptyPersisted :: persisted where
  "emptyPersisted = \<lparr>Users = [], PPolicies = [], SvcAccts = [], UpdatedAt = 0\<rparr>"

text \<open>
  \<open>load\<close>: a missing blob and one that does not parse both give the empty database; any
  other read error is returned.
\<close>

fun load :: "persisted readResult \<Rightarrow> persisted option" where
  "load ReadNotFound = Some emptyPersisted"
| "load ReadErr = None"
| "load ReadBad = Some emptyPersisted"
| "load (ReadOk p) = Some p"

definition save :: "'b writer \<Rightarrow> time \<Rightarrow> 'b \<Rightarrow> persisted \<Rightarrow> bool \<times> 'b" where
  "save w now be p = w be (if isZero (UpdatedAt p) then p\<lparr>UpdatedAt := now\<rparr> else p)"

fun parseAll :: "parser \<Rightarrow> string gomap \<Rightarrow> policy gomap" where
  "parseAll parse [] = []"
| "parseAll parse ((name, d) # rest) =
     (case parse d of None \<Rightarrow> parseAll parse rest | Some pol \<Rightarrow> (name, pol) # parseAll parse rest)"

definition applyPersisted :: "parser \<Rightarrow> persisted \<Rightarrow> 'b manager \<Rightarrow> 'b manager" where
  "applyPersisted parse p m =
     m\<lparr>users := Users p, svcAccts := SvcAccts p, custom := parseAll parse (PPolicies p),
       lastSync := UpdatedAt p\<rparr>"

definition newManager ::
  "parser \<Rightarrow> string \<Rightarrow> string \<Rightarrow> 'b \<Rightarrow> persisted readResult \<Rightarrow> 'b manager option" where
  "newManager parse ra rs be r =
     (let m = \<lparr>rootAccess = ra, rootSecret = rs, users = [], svcAccts = [], custom = [],
               builtin = Builtin, sts = [], store = be, inlineCache = [], lastSync = 0\<rparr>
      in case load r of None \<Rightarrow> None | Some p \<Rightarrow> Some (applyPersisted parse p m))"

text \<open>One tick of the goroutine of \<open>StartRefresh\<close>.\<close>

definition refreshTick :: "parser \<Rightarrow> persisted readResult \<Rightarrow> 'b manager \<Rightarrow> 'b manager" where
  "refreshTick parse r m =
     (case load r of None \<Rightarrow> m
      | Some p \<Rightarrow> if lastSync m < UpdatedAt p then applyPersisted parse p m else m)"

definition toPersisted :: "(policy \<Rightarrow> string) \<Rightarrow> time \<Rightarrow> 'b manager \<Rightarrow> persisted" where
  "toPersisted marshal now m =
     \<lparr>Users = users m, PPolicies = map (\<lambda>(n, p). (n, marshal p)) (custom m),
      SvcAccts = svcAccts m, UpdatedAt = now\<rparr>"

definition flush ::
  "'b writer \<Rightarrow> (policy \<Rightarrow> string) \<Rightarrow> time \<Rightarrow> 'b manager \<Rightarrow> iamErr option \<times> 'b manager" where
  "flush w marshal now m =
     (let p = toPersisted marshal now m
      in case save w now (store m) p of
           (False, be') \<Rightarrow> (Some ErrStore, m\<lparr>store := be'\<rparr>)
         | (True, be') \<Rightarrow> (None, m\<lparr>store := be', lastSync := UpdatedAt p\<rparr>))"

subsection \<open>Credential lookup\<close>

text \<open>The last two tests of \<open>LookupSecret\<close>, which a failed earlier test falls through to.\<close>

definition lookupSTS :: "time \<Rightarrow> 'b manager \<Rightarrow> string \<Rightarrow> string option" where
  "lookupSTS now m ak =
     (case map_of (sts m) ak of
        Some t \<Rightarrow> if now < stsExpiry t then Some (stsSecret t) else None
      | None \<Rightarrow> None)"

definition lookupSvc :: "time \<Rightarrow> 'b manager \<Rightarrow> string \<Rightarrow> string option" where
  "lookupSvc now m ak =
     (case map_of (svcAccts m) ak of
        Some s \<Rightarrow> if sStatus s \<noteq> ''disabled'' then Some (sSecretKey s) else lookupSTS now m ak
      | None \<Rightarrow> lookupSTS now m ak)"

definition LookupSecret :: "time \<Rightarrow> 'b manager \<Rightarrow> string \<Rightarrow> string option" where
  "LookupSecret now m ak =
     (if ak = rootAccess m then Some (rootSecret m)
      else case map_of (users m) ak of
        Some u \<Rightarrow> if uStatus u \<noteq> ''disabled'' then Some (uSecretKey u) else lookupSvc now m ak
      | None \<Rightarrow> lookupSvc now m ak)"

definition compileInline :: "parser \<Rightarrow> string \<Rightarrow> string \<Rightarrow> 'b manager \<Rightarrow> policy option \<times> 'b manager" where
  "compileInline parse ak d m =
     (if d = [] then (None, m)
      else case map_of (inlineCache m) ak of
        Some e \<Rightarrow> if fst e = d then (snd e, m)
                  else (parse d, m\<lparr>inlineCache := AList.update ak (d, parse d) (inlineCache m)\<rparr>)
      | None \<Rightarrow> (parse d, m\<lparr>inlineCache := AList.update ak (d, parse d) (inlineCache m)\<rparr>))"

definition identityOf :: "string \<Rightarrow> string \<Rightarrow> identity" where
  "identityOf ak sk = \<lparr>AccessKey = ak, SecretKey = sk, ParentUser = [], IsRoot = False,
     Policies = [], Inline = None, Expiry = 0\<rparr>"

definition inheritParent :: "'b manager \<Rightarrow> string \<Rightarrow> identity \<Rightarrow> identity" where
  "inheritParent m parent i =
     (case map_of (users m) parent of Some pu \<Rightarrow> i\<lparr>Policies := uPolicies pu\<rparr>
      | None \<Rightarrow> if parent = rootAccess m then i\<lparr>IsRoot := True\<rparr> else i)"

definition Identity :: "parser \<Rightarrow> time \<Rightarrow> 'b manager \<Rightarrow> string \<Rightarrow> identity option \<times> 'b manager" where
  "Identity parse now m ak =
     (if ak = rootAccess m then (Some ((identityOf ak (rootSecret m))\<lparr>IsRoot := True\<rparr>), m)
      else case map_of (users m) ak of
        Some u \<Rightarrow> (Some ((identityOf ak (uSecretKey u))\<lparr>Policies := uPolicies u\<rparr>), m)
      | None \<Rightarrow>
        (case map_of (svcAccts m) ak of
           Some s \<Rightarrow>
             (let i = inheritParent m (sParentUser s)
                        ((identityOf ak (sSecretKey s))\<lparr>ParentUser := sParentUser s\<rparr>);
                  (inl, m') = compileInline parse ak (sInlinePolicy s) m
              in (Some (i\<lparr>Inline := inl\<rparr>), m'))
         | None \<Rightarrow>
           (case map_of (sts m) ak of
              Some t \<Rightarrow>
                if now < stsExpiry t then
                  (Some (inheritParent m (stsParentUser t)
                     ((identityOf ak (stsSecret t))\<lparr>ParentUser := stsParentUser t,
                        Inline := stsPol t, Expiry := stsExpiry t\<rparr>)), m)
                else (None, m)
            | None \<Rightarrow> (None, m))))"

definition resolveLocked :: "'b manager \<Rightarrow> string \<Rightarrow> policy option" where
  "resolveLocked m name =
     (case map_of (custom m) name of Some p \<Rightarrow> Some p
      | None \<Rightarrow> (case map_of (builtin m) name of Some p \<Rightarrow> Some p | None \<Rightarrow> None))"

definition managerIsAllowed ::
  "netlib \<Rightarrow> parser \<Rightarrow> time \<Rightarrow> 'b manager \<Rightarrow> string \<Rightarrow> args \<Rightarrow> bool \<times> 'b manager" where
  "managerIsAllowed nl parse now m ak a =
     (case Identity parse now m ak of
        (None, m') \<Rightarrow> (False, m')
      | (Some i, m') \<Rightarrow>
          (let a' = a\<lparr>AccountName := ak\<rparr>
           in if IsRoot i \<and> Inline i = None then (True, m')
              else if (case Inline i of Some p \<Rightarrow> \<not> IsAllowed nl p a' | None \<Rightarrow> False) then (False, m')
              else if IsRoot i then (True, m')
              else (\<exists>name \<in> set (Policies i).
                      (case resolveLocked m' name of Some p \<Rightarrow> IsAllowed nl p a' | None \<Rightarrow> False), m')))"

subsection \<open>User management\<close>

definition AddUser ::
  "'b writer \<Rightarrow> (policy \<Rightarrow> string) \<Rightarrow> time \<Rightarrow> string \<Rightarrow> string \<Rightarrow> string list \<Rightarrow> 'b manager
   \<Rightarrow> iamErr option \<times> 'b manager" where
  "AddUser w marshal now ak sk pols m =
     (if length ak < 3 \<or> length sk < 8 then (Some ErrInvalidCred, m)
      else if ak = rootAccess m then (Some ErrIsRoot, m)
      else if \<exists>p \<in> set pols. resolveLocked m p = None then (Some ErrNoSuchPolicy, m)
      else flush w marshal now
        (m\<lparr>users := AList.update ak \<lparr>uSecretKey = sk, uPolicies = pols, uStatus = ''enabled''\<rparr> (users m)\<rparr>))"

definition RemoveUser ::
  "'b writer \<Rightarrow> (policy \<Rightarrow> string) \<Rightarrow> time \<Rightarrow> string \<Rightarrow> 'b manager \<Rightarrow> iamErr option \<times> 'b manager" where
  "RemoveUser w marshal now ak m =
     (case map_of (users m) ak of
        None \<Rightarrow> (Some ErrNoSuchUser, m)
      | Some _ \<Rightarrow> flush w marshal now
          (m\<lparr>users := AList.delete ak (users m),
             svcAccts := filter (\<lambda>(k, s). sParentUser s \<noteq> ak) (svcAccts m)\<rparr>))"

definition SetUserSecret ::
  "'b writer \<Rightarrow> (policy \<Rightarrow> string) \<Rightarrow> time \<Rightarrow> string \<Rightarrow> string \<Rightarrow> 'b manager
   \<Rightarrow> iamErr option \<times> 'b manager" where
  "SetUserSecret w marshal now ak newSecret m =
     (if length newSecret < 8 then (Some ErrInvalidCred, m)
      else case map_of (users m) ak of
        None \<Rightarrow> (Some ErrNoSuchUser, m)
      | Some u \<Rightarrow> flush w marshal now
          (m\<lparr>users := AList.update ak (u\<lparr>uSecretKey := newSecret\<rparr>) (users m)\<rparr>))"

definition SetUserStatus ::
  "'b writer \<Rightarrow> (policy \<Rightarrow> string) \<Rightarrow> time \<Rightarrow> string \<Rightarrow> string \<Rightarrow> 'b manager
   \<Rightarrow> iamErr option \<times> 'b manager" where
  "SetUserStatus w marshal now ak status m =
     (case map_of (users m) ak of
        None \<Rightarrow> (Some ErrNoSuchUser, m)
      | Some u \<Rightarrow>
          (let st = (if status \<noteq> ''enabled'' \<and> status \<noteq> ''disabled'' then ''enabled'' else status)
           in flush w marshal now
                (m\<lparr>users := AList.update ak (u\<lparr>uStatus := st\<rparr>) (users m)\<rparr>)))"

definition ListUsers :: "'b manager \<Rightarrow> (string \<times> string list \<times> string) list" where
  "ListUsers m = map (\<lambda>(k, u). (k, uPolicies u, uStatus u)) (users m)"

subsection \<open>Policy management\<close>

definition badPolicyName :: "string \<Rightarrow> bool" where
  "badPolicyName name = (name = [] \<or> (\<exists>c \<in> set name. c \<in> {CHR ''/'', CHR 0x5C, CHR '' ''}))"

definition SetPolicy ::
  "'b writer \<Rightarrow> (policy \<Rightarrow> string) \<Rightarrow> parser \<Rightarrow> time \<Rightarrow> string \<Rightarrow> string \<Rightarrow> 'b manager
   \<Rightarrow> iamErr option \<times> 'b manager" where
  "SetPolicy w marshal parse now name d m =
     (if badPolicyName name then (Some ErrBadPolicyName, m)
      else case parse d of
        None \<Rightarrow> (Some ErrParse, m)
      | Some pol \<Rightarrow> flush w marshal now (m\<lparr>custom := AList.update name pol (custom m)\<rparr>))"

definition RemovePolicy ::
  "'b writer \<Rightarrow> (policy \<Rightarrow> string) \<Rightarrow> time \<Rightarrow> string \<Rightarrow> 'b manager \<Rightarrow> iamErr option \<times> 'b manager" where
  "RemovePolicy w marshal now name m =
     (case map_of (custom m) name of
        None \<Rightarrow> (Some ErrNoSuchPolicy, m)
      | Some _ \<Rightarrow> flush w marshal now (m\<lparr>custom := AList.delete name (custom m)\<rparr>))"

definition ListPolicies :: "(policy \<Rightarrow> string) \<Rightarrow> 'b manager \<Rightarrow> (string \<times> bool \<times> string) list" where
  "ListPolicies marshal m =
     map (\<lambda>(n, p). (n, True, marshal p)) (builtin m) @ map (\<lambda>(n, p). (n, False, marshal p)) (custom m)"

subsection \<open>Service accounts and STS\<close>

definition AddServiceAccount ::
  "'b writer \<Rightarrow> (policy \<Rightarrow> string) \<Rightarrow> parser \<Rightarrow> time \<Rightarrow> string \<Rightarrow> string \<Rightarrow> string \<Rightarrow> string
   \<Rightarrow> 'b manager \<Rightarrow> iamErr option \<times> 'b manager" where
  "AddServiceAccount w marshal parse now parent ak sk inlineDoc m =
     (if length ak < 3 \<or> length sk < 8 then (Some ErrInvalidCred, m)
      else if parent \<noteq> rootAccess m \<and> map_of (users m) parent = None then (Some ErrNoSuchUser, m)
      else if inlineDoc \<noteq> [] \<and> parse inlineDoc = None then (Some ErrParse, m)
      else flush w marshal now
        (m\<lparr>svcAccts := AList.update ak \<lparr>sSecretKey = sk, sParentUser = parent,
             sInlinePolicy = inlineDoc, sStatus = ''enabled''\<rparr> (svcAccts m)\<rparr>))"

definition RemoveServiceAccount ::
  "'b writer \<Rightarrow> (policy \<Rightarrow> string) \<Rightarrow> time \<Rightarrow> string \<Rightarrow> 'b manager \<Rightarrow> iamErr option \<times> 'b manager" where
  "RemoveServiceAccount w marshal now ak m =
     (case map_of (svcAccts m) ak of
        None \<Rightarrow> (Some ErrNoSuchUser, m)
      | Some _ \<Rightarrow> flush w marshal now (m\<lparr>svcAccts := AList.delete ak (svcAccts m)\<rparr>))"

definition ListServiceAccounts :: "string \<Rightarrow> 'b manager \<Rightarrow> (string \<times> string \<times> string) list" where
  "ListServiceAccounts parent m =
     map (\<lambda>(k, s). (k, sParentUser s, sStatus s))
       (filter (\<lambda>(k, s). \<not> (parent \<noteq> [] \<and> sParentUser s \<noteq> parent)) (svcAccts m))"

definition AddSTS ::
  "time \<Rightarrow> string \<Rightarrow> string \<Rightarrow> string \<Rightarrow> policy option \<Rightarrow> time \<Rightarrow> 'b manager \<Rightarrow> 'b manager" where
  "AddSTS now ak sk parent pol ttl m =
     m\<lparr>sts := AList.update ak \<lparr>stsSecret = sk, stsParentUser = parent, stsPol = pol,
                 stsExpiry = now + ttl\<rparr> (sts m)\<rparr>"

subsection \<open>Sequences of management calls\<close>

datatype iamOp =
    OAddUser string string "string list" | ORemoveUser string | OSetSecret string string
  | OSetStatus string string | OSetPolicy string string | ORemovePolicy string
  | OAddSvc string string string string | ORemoveSvc string
  | OAddSTS string string string "policy option" time

fun runOp ::
  "'b writer \<Rightarrow> (policy \<Rightarrow> string) \<Rightarrow> parser \<Rightarrow> time \<Rightarrow> iamOp \<Rightarrow> 'b manager \<Rightarrow> 'b manager" where
  "runOp w marshal parse now (OAddUser ak sk pols) m = snd (AddUser w marshal now ak sk pols m)"
| "runOp w marshal parse now (ORemoveUser ak) m = snd (RemoveUser w marshal now ak m)"
| "runOp w marshal parse now (OSetSecret ak sk) m = snd (SetUserSecret w marshal now ak sk m)"
| "runOp w marshal parse now (OSetStatus ak st) m = snd (SetUserStatus w marshal now ak st m)"
| "runOp w marshal parse now (OSetPolicy n d) m = snd (SetPolicy w marshal parse now n d m)"
| "runOp w marshal parse now (ORemovePolicy n) m = snd (RemovePolicy w marshal now n m)"
| "runOp w marshal parse now (OAddSvc p ak sk d) m = snd (AddServiceAccount w marshal parse now p ak sk d m)"
| "runOp w marshal parse now (ORemoveSvc ak) m = snd (RemoveServiceAccount w marshal now ak m)"
| "runOp w marshal parse now (OAddSTS ak sk p pol ttl) m = AddSTS now ak sk p pol ttl m"

fun runOps ::
  "'b writer \<Rightarrow> (policy \<Rightarrow> string) \<Rightarrow> parser \<Rightarrow> (time \<times> iamOp) list \<Rightarrow> 'b manager \<Rightarrow> 'b manager" where
  "runOps w marshal parse [] m = m"
| "runOps w marshal parse ((now, oper) # ops) m = runOps w marshal parse ops (runOp w marshal parse now oper m)"

text \<open>
  The manager's invariant: keys are distinct, the root key is never a user, and the parent of a
  service account is the root account or a user.
\<close>

definition manager_ok :: "'b manager \<Rightarrow> bool" where
  "manager_ok m \<longleftrightarrow> distinct (map fst (users m)) \<and> distinct (map fst (svcAccts m))
     \<and> map_of (users m) (rootAccess m) = None
     \<and> (\<forall>k s. map_of (svcAccts m) k = Some s \<longrightarrow>
          sParentUser s = rootAccess m \<or> map_of (users m) (sParentUser s) \<noteq> None)"

named_theorems iam_ops \<open>definitions of the management calls\<close>

lemmas [iam_ops] = AddUser_def RemoveUser_def SetUserSecret_def SetUserStatus_def SetPolicy_def
  RemovePolicy_def AddServiceAccount_def RemoveServiceAccount_def AddSTS_def

lemma flush_fields [simp]:
  "users (snd (flush w marshal now m)) = users m"
  "svcAccts (snd (flush w marshal now m)) = svcAccts m"
  "custom (snd (flush w marshal now m)) = custom m"
  "builtin (snd (flush w marshal now m)) = builtin m"
  "rootAccess (snd (flush w marshal now m)) = rootAccess m"
  "rootSecret (snd (flush w marshal now m)) = rootSecret m"
  "sts (snd (flush w marshal now m)) = sts m"
  "inlineCache (snd (flush w marshal now m)) = inlineCache m"
  by (auto simp: flush_def Let_def split: prod.splits bool.splits)

lemma manager_ok_flush [simp]: "manager_ok (snd (flush w marshal now m)) = manager_ok m"
  by (simp add: manager_ok_def)

lemma map_of_filter_distinct:
  "distinct (map fst xs) \<Longrightarrow>
     map_of (filter (\<lambda>(k, v). P v) xs) k
     = (case map_of xs k of None \<Rightarrow> None | Some v \<Rightarrow> if P v then Some v else None)"
proof (induction xs)
  case (Cons x xs)
  obtain a b where [simp]: "x = (a, b)" by (cases x)
  from Cons show ?case by (auto split: option.splits if_splits simp: map_of_eq_None_iff)
qed simp

lemma manager_ok_same:
  assumes "manager_ok m" "users m' = users m" "svcAccts m' = svcAccts m" "rootAccess m' = rootAccess m"
  shows "manager_ok m'"
  using assms by (simp add: manager_ok_def)

lemma manager_ok_update_user:
  assumes "manager_ok m" "ak \<noteq> rootAccess m"
  shows "manager_ok (m\<lparr>users := AList.update ak u (users m)\<rparr>)"
  using assms by (auto simp: manager_ok_def update_conv' distinct_update)

lemma manager_ok_RemoveUser:
  assumes ok: "manager_ok m" and u: "map_of (users m) ak = Some u"
  shows "manager_ok (m\<lparr>users := AList.delete ak (users m),
     svcAccts := filter (\<lambda>(k, s). sParentUser s \<noteq> ak) (svcAccts m)\<rparr>)"
proof -
  have d: "distinct (map fst (svcAccts m))" using ok by (simp add: manager_ok_def)
  have df: "distinct (map fst (filter (\<lambda>(k, s). sParentUser s \<noteq> ak) (svcAccts m)))"
    using d by (rule distinct_map_filter)
  show ?thesis
    using ok df by (auto simp: manager_ok_def delete_conv' distinct_delete map_of_filter_distinct [OF d]
      split: option.splits if_splits)
qed

lemma manager_ok_user_key: "manager_ok m \<Longrightarrow> map_of (users m) ak = Some u \<Longrightarrow> ak \<noteq> rootAccess m"
  by (auto simp: manager_ok_def)

lemma runOp_manager_ok: "manager_ok m \<Longrightarrow> manager_ok (runOp w marshal parse now oper m)"
proof (induction oper)
  case (OAddUser ak sk pols)
  then show ?case by (auto simp: AddUser_def intro: manager_ok_update_user)
next
  case (ORemoveUser ak)
  then show ?case by (auto simp: RemoveUser_def intro: manager_ok_RemoveUser split: option.splits)
next
  case (OSetSecret ak sk)
  then show ?case
    by (auto simp: SetUserSecret_def intro!: manager_ok_update_user dest: manager_ok_user_key split: option.splits)
next
  case (OSetStatus ak st)
  then show ?case
    by (auto simp: SetUserStatus_def Let_def intro!: manager_ok_update_user dest: manager_ok_user_key split: option.splits)
next
  case (OAddSvc p ak sk d)
  then show ?case
    by (auto simp: AddServiceAccount_def manager_ok_def update_conv' distinct_update split: if_splits)
next
  case (ORemoveSvc ak)
  then show ?case
    by (auto simp: RemoveServiceAccount_def manager_ok_def delete_conv' distinct_delete
        split: option.splits if_splits)
qed (auto simp: SetPolicy_def RemovePolicy_def AddSTS_def intro: manager_ok_same split: option.splits)

text \<open>
  C23: every sequence of management calls, whatever their outcome and whatever the backend does,
  keeps the manager's invariant; in particular no service account outlives its parent user.
\<close>

theorem manager_ok_runOps:
  assumes "manager_ok m"
  shows "manager_ok (runOps w marshal parse ops m)"
  using assms by (induction ops arbitrary: m) (auto simp: runOp_manager_ok)

subsection \<open>The cache of compiled inline policies\<close>

definition cache_ok :: "parser \<Rightarrow> 'b manager \<Rightarrow> bool" where
  "cache_ok parse m \<longleftrightarrow> (\<forall>ak raw pol. map_of (inlineCache m) ak = Some (raw, pol) \<longrightarrow> pol = parse raw)"

definition inlineOf :: "parser \<Rightarrow> string \<Rightarrow> policy option" where
  "inlineOf parse d = (if d = [] then None else parse d)"

lemma compileInline_result:
  assumes "cache_ok parse m"
  shows "fst (compileInline parse ak d m) = inlineOf parse d"
    and "cache_ok parse (snd (compileInline parse ak d m))"
  using assms by (auto simp: compileInline_def inlineOf_def cache_ok_def update_conv' split: option.splits)

lemma compileInline_fields [simp]:
  "users (snd (compileInline parse ak d m)) = users m"
  "svcAccts (snd (compileInline parse ak d m)) = svcAccts m"
  "custom (snd (compileInline parse ak d m)) = custom m"
  "builtin (snd (compileInline parse ak d m)) = builtin m"
  "rootAccess (snd (compileInline parse ak d m)) = rootAccess m"
  by (auto simp: compileInline_def split: option.splits)

lemma Identity_state:
  "resolveLocked (snd (Identity parse now m ak)) = resolveLocked m"
  by (auto simp: Identity_def resolveLocked_def fun_eq_iff Let_def case_prod_beta split: option.splits)

subsection \<open>What a request may do\<close>

text \<open>The attached policies of an identity grant a request when one of them allows it.\<close>

definition grants :: "netlib \<Rightarrow> 'b manager \<Rightarrow> string list \<Rightarrow> args \<Rightarrow> bool" where
  "grants nl m pols a \<longleftrightarrow> (\<exists>name \<in> set pols. \<exists>p. resolveLocked m name = Some p \<and> IsAllowed nl p a)"

lemma managerIsAllowed_iff:
  "fst (managerIsAllowed nl parse now m ak a) \<longleftrightarrow>
     (\<exists>i. fst (Identity parse now m ak) = Some i
        \<and> (\<forall>p. Inline i = Some p \<longrightarrow> IsAllowed nl p (a\<lparr>AccountName := ak\<rparr>))
        \<and> (IsRoot i \<or> grants nl m (Policies i) (a\<lparr>AccountName := ak\<rparr>)))"
proof -
  obtain io m' where e: "Identity parse now m ak = (io, m')" by (cases "Identity parse now m ak")
  have r: "resolveLocked m' = resolveLocked m" using Identity_state [of parse now m ak] e by simp
  show ?thesis
    by (auto simp: managerIsAllowed_def e grants_def r Let_def split: option.splits)
qed

lemma Identity_svcAcct:
  assumes "ak \<noteq> rootAccess m" "map_of (users m) ak = None" "map_of (svcAccts m) ak = Some s"
    and "cache_ok parse m"
  shows "fst (Identity parse now m ak) = Some ((inheritParent m (sParentUser s)
     ((identityOf ak (sSecretKey s))\<lparr>ParentUser := sParentUser s\<rparr>))\<lparr>Inline := inlineOf parse (sInlinePolicy s)\<rparr>)"
  using assms compileInline_result(1) [OF assms(4), of ak "sInlinePolicy s"]
  by (simp add: Identity_def Let_def case_prod_beta)

text \<open>
  C24: a service account of a user has exactly the intersection of its inline policy (when it has
  one) with the policies attached to its parent, and nothing else: it never exceeds its parent.
\<close>

theorem svcAcct_permissions:
  assumes "ak \<noteq> rootAccess m" "map_of (users m) ak = None" "map_of (svcAccts m) ak = Some s"
    and "map_of (users m) (sParentUser s) = Some pu" and "cache_ok parse m"
  shows "fst (managerIsAllowed nl parse now m ak a) \<longleftrightarrow>
     (\<forall>p. inlineOf parse (sInlinePolicy s) = Some p \<longrightarrow> IsAllowed nl p (a\<lparr>AccountName := ak\<rparr>))
     \<and> grants nl m (uPolicies pu) (a\<lparr>AccountName := ak\<rparr>)"
  by (auto simp: managerIsAllowed_iff Identity_svcAcct [OF assms(1-3,5)] inheritParent_def assms(4)
      identityOf_def)

definition wit_nl :: netlib where
  "wit_nl = \<lparr>ParseIP = (\<lambda>_. None), ParseCIDR = (\<lambda>_. None), EqualFold = (=)\<rparr>"

definition wit_args :: args where
  "wit_args = \<lparr>AccountName = [], ArgAction = ''s3:GetObject'', BucketName = ''b'', ObjectName = ''k'',
     IsOwner = False, SourceIP = [], ConditionValues = Map.empty\<rparr>"

definition wit_manager :: "unit manager" where
  "wit_manager = \<lparr>rootAccess = ''root'', rootSecret = ''rootsecret'',
     users = [(''bob'', \<lparr>uSecretKey = ''bobsecret'', uPolicies = [''readwrite''], uStatus = ''enabled''\<rparr>)],
     svcAccts = [(''svc'', \<lparr>sSecretKey = ''svcsecret'', sParentUser = ''bob'', sInlinePolicy = [],
        sStatus = ''enabled''\<rparr>)],
     custom = [], builtin = Builtin, sts = [], store = (), inlineCache = [], lastSync = 0\<rparr>"

theorem svcAcct_permissions_witness:
  "fst (managerIsAllowed wit_nl (\<lambda>_. None) 5 wit_manager ''svc'' wit_args) \<longleftrightarrow>
     grants wit_nl wit_manager [''readwrite''] (wit_args\<lparr>AccountName := ''svc''\<rparr>)"
  using svcAcct_permissions [of "''svc''" wit_manager
      "\<lparr>sSecretKey = ''svcsecret'', sParentUser = ''bob'', sInlinePolicy = [], sStatus = ''enabled''\<rparr>"
      "\<lparr>uSecretKey = ''bobsecret'', uPolicies = [''readwrite''], uStatus = ''enabled''\<rparr>"
      "\<lambda>_. None" wit_nl 5 wit_args]
  by (simp add: wit_manager_def cache_ok_def inlineOf_def)

theorem manager_ok_runOps_witness:
  "manager_ok (runOps (\<lambda>b _. (True, b)) (\<lambda>_. []) (\<lambda>_. None) [(1, ORemoveUser ''bob'')] wit_manager)"
  by (rule manager_ok_runOps) (simp add: wit_manager_def manager_ok_def)

text \<open>
  C25: once a user is removed, no credential derived from that user (service account or unexpired
  STS credential) is allowed any request, whether or not the change reached the backend.
\<close>

theorem removed_user_powerless:
  assumes ok: "manager_ok m" and rm: "RemoveUser w marshal now ak m = (e, m')" and "e \<noteq> Some ErrNoSuchUser"
    and i: "fst (Identity parse now' m' k) = Some i" and par: "ParentUser i = ak" and "ak \<noteq> []"
  shows "\<not> fst (managerIsAllowed nl parse now' m' k a)"
proof -
  from rm assms(3) obtain u where u: "map_of (users m) ak = Some u"
    by (auto simp: RemoveUser_def split: option.splits)
  have m': "m' = snd (RemoveUser w marshal now ak m)" using rm by simp
  have nu: "map_of (users m') ak = None" and root: "rootAccess m' = rootAccess m"
    using u by (auto simp: m' RemoveUser_def delete_conv' split: option.splits)
  have ne: "ak \<noteq> rootAccess m'" using manager_ok_user_key [OF ok u] root by simp
  have "\<not> IsRoot i \<and> Policies i = []"
    using i par nu ne \<open>ak \<noteq> []\<close>
    by (auto simp: Identity_def inheritParent_def identityOf_def Let_def case_prod_beta
        split: option.splits if_splits)
  then show ?thesis using i by (simp add: managerIsAllowed_iff grants_def)
qed

theorem removed_user_powerless_witness:
  "\<not> fst (managerIsAllowed wit_nl (\<lambda>_. None) 5
     (snd (RemoveUser (\<lambda>b _. (True, b)) (\<lambda>_. []) 1 ''bob''
        (AddSTS 0 ''tmp'' ''secret'' ''bob'' None 100 wit_manager))) ''tmp'' wit_args)"
proof -
  let ?m = "AddSTS 0 ''tmp'' ''secret'' ''bob'' None 100 wit_manager"
  let ?r = "RemoveUser (\<lambda>b _. (True, b)) (\<lambda>_. []) 1 ''bob'' ?m"
  have ok: "manager_ok ?m" by (simp add: AddSTS_def wit_manager_def manager_ok_def)
  have ne: "fst ?r \<noteq> Some ErrNoSuchUser"
    by (simp add: RemoveUser_def AddSTS_def wit_manager_def flush_def save_def Let_def)
  have i: "\<exists>i. fst (Identity (\<lambda>_. None) 5 (snd ?r) ''tmp'') = Some i \<and> ParentUser i = ''bob''"
    by (simp add: RemoveUser_def AddSTS_def wit_manager_def flush_def save_def Let_def Identity_def
        inheritParent_def identityOf_def)
  then obtain i where "fst (Identity (\<lambda>_. None) 5 (snd ?r) ''tmp'') = Some i" "ParentUser i = ''bob''"
    by blast
  then show ?thesis
    using removed_user_powerless [OF ok, of "\<lambda>b _. (True, b)" "\<lambda>_. []" 1 "''bob''" "fst ?r" "snd ?r"] ne
    by simp
qed

subsection \<open>Persistence\<close>

lemma parseAll_map:
  assumes "\<forall>(n, p) \<in> set ps. parse (marshal p) = Some (reserialise p)"
  shows "parseAll parse (map (\<lambda>(n, p). (n, marshal p)) ps) = map (\<lambda>(n, p). (n, reserialise p)) ps"
  using assms by (induction ps) auto

text \<open>
  The interface of the configuration backend (\<open>configstore.Backend\<close>) as its clients use it. A read
  is a relation, since the order in which a backend looks at its copies is not determined: the
  document it may return and the backend it may leave, which the read may have repaired. While the
  backend is healthy (\<open>good\<close>), a successful write makes it hold the document, what it holds is what
  every read returns, and reads keep both.
\<close>

locale config_backend =
  fixes good :: "'b \<Rightarrow> bool" and w :: "'b \<Rightarrow> 'c \<Rightarrow> bool \<times> 'b"
    and reads :: "'b \<Rightarrow> 'c readResult \<Rightarrow> 'b \<Rightarrow> bool" and holds :: "'b \<Rightarrow> 'c \<Rightarrow> bool"
  assumes write_good: "good be \<Longrightarrow> w be c = (ok, be') \<Longrightarrow> good be'"
    and write_holds: "good be \<Longrightarrow> w be c = (True, be') \<Longrightarrow> holds be' c"
    and read_good: "good be \<Longrightarrow> reads be x be' \<Longrightarrow> good be'"
    and read_holds: "good be \<Longrightarrow> holds be c \<Longrightarrow> reads be x be' \<Longrightarrow> holds be' c"
    and holds_read: "good be \<Longrightarrow> holds be c \<Longrightarrow> reads be x be' \<Longrightarrow> x = ReadOk c"
begin

text \<open>What was written survives any number of reads, by whatever clients.\<close>

lemma settled:
  assumes "(\<lambda>a b. \<exists>x. reads a x b)\<^sup>*\<^sup>* be1 be2" "good be1" "holds be1 c"
  shows "good be2 \<and> holds be2 c"
  using assms by (induction rule: rtranclp_induct) (auto intro: read_good read_holds)

lemma written_is_read:
  assumes "good be" "w be c = (True, be1)" "(\<lambda>a b. \<exists>x. reads a x b)\<^sup>*\<^sup>* be1 be2" "reads be2 x be3"
  shows "x = ReadOk c"
  using settled [OF assms(3) write_good [OF assms(1,2)] write_holds [OF assms(1,2)]] holds_read assms(4) by blast

end

text \<open>The same interface at the manager's own document type, with what a restart restores.\<close>

locale iam_backend = config_backend good w reads holds
  for good and w :: "'b \<Rightarrow> persisted \<Rightarrow> bool \<times> 'b" and reads holds
begin

lemma restart_after_flush:
  assumes fl: "flush w marshal now m = (None, m')" and now: "now \<noteq> 0" and be: "good (store m)"
    and json: "\<forall>(n, p) \<in> set (custom m). parse (marshal p) = Some (reserialise p)"
    and rd: "(\<lambda>a b. \<exists>x. reads a x b)\<^sup>*\<^sup>* (store m') be2" "reads be2 x be3"
  shows "\<exists>m''. newManager parse ra rs be3 x = Some m''
     \<and> users m'' = users m \<and> svcAccts m'' = svcAccts m
     \<and> custom m'' = map (\<lambda>(n, p). (n, reserialise p)) (custom m) \<and> lastSync m'' = lastSync m'"
proof -
  from fl now have wr: "w (store m) (toPersisted marshal now m) = (True, store m')"
    and ls: "lastSync m' = now"
    by (auto simp: flush_def save_def Let_def toPersisted_def split: prod.splits bool.splits)
  from written_is_read [OF be wr rd] show ?thesis
    by (auto simp: newManager_def applyPersisted_def toPersisted_def parseAll_map [OF json] ls)
qed

end


end
