(* ===== verification/Meta.thy ===== *)
theory Meta
  imports Docs
begin

text \<open>
  The documents the erasure backend stores on every disk: \<open>XLMeta\<close> with its parts and coding
  parameters (\<open>internal/erasure/xlmeta.go\<close>), the version log (\<open>versioning.go\<close>), the multipart
  upload record (\<open>multipart.go\<close>) and the CAS marker (\<open>dedup.go\<close>). A file's content is raw bytes
  or one of these documents; \<open>marshal\<close> and \<open>unmarshal\<close> are the JSON codec, whose one lossy
  effect that the program can observe is kept: \<open>omitempty\<close> drops an empty \<open>Inline\<close>, which then
  reads back as \<open>nil\<close>. SHA-256 content hashes are represented by the hashed data itself.
\<close>

subsection \<open>Names (names.go)\<close>

definition isLowerName :: "char \<Rightarrow> bool" where
  "isLowerName r = ((CHR ''a'' \<le> r \<and> r \<le> CHR ''z'') \<or> (CHR ''0'' \<le> r \<and> r \<le> CHR ''9'') \<or> r = CHR ''-'' \<or> r = CHR ''.'')"

definition validBucketName :: "string \<Rightarrow> bool" where
  "validBucketName name =
     (if length name < 3 \<or> length name > 63 then False
      else if hasPrefix name ''-'' \<or> hasSuffix name ''-'' \<or> hasPrefix name ''.'' \<or> hasSuffix name ''.''
           \<or> contains name ''..'' then False
      else if \<not> list_all isLowerName name then False
      else name \<noteq> ''.gostore.sys'')"

definition validObjectName :: "string \<Rightarrow> bool" where
  "validObjectName name =
     (if name = [] \<or> length name > 1024 \<or> contains name [CHR 0x00] then False
      else if hasPrefix name ''/'' \<or> contains name [CHR 0x5C] then False
      else if list_ex (\<lambda>seg. seg = ''.'' \<or> seg = ''..'') (splitOn (CHR ''/'') name) then False
      else \<not> hasPrefix name ''.gostore.sys/'')"

subsection \<open>Object metadata (xlmeta.go)\<close>

record partMeta =
  Number :: nat
  PSize :: nat
  ActualSize :: nat
  PETag :: string
  Bitrot :: string
  Checksums :: "string list list"

record erasureMeta =
  EAlgorithm :: string
  DataBlocks :: nat
  ParityBlocks :: nat
  BlockSize :: nat
  Distribution :: "nat list"
  ChecksumAlgo :: string

record xlMeta =
  MVersion :: int
  Erasure :: erasureMeta
  Revision :: "64 word"
  DataRef :: string
  Tier :: string
  TierKey :: string
  MSize :: nat
  ModTime :: time
  ETag :: string
  VersionID :: string
  LockMode :: string
  RetainUntil :: time
  LegalHold :: bool
  ContentType :: string
  ContentEnc :: string
  UserMeta :: "string gomap"
  UserTags :: string
  Parts :: "partMeta list"
  Inline :: "bytes option"
  Compressed :: string
  SSE :: string
  PlainSize :: nat
  EncDEK :: string
  NoncePrefix :: string

definition xlMetaVersion :: int where "xlMetaVersion = 1"

datatype contentId = ContentId nat time string "partMeta list" bytes

definition contentHash :: "xlMeta \<Rightarrow> contentId" where
  "contentHash m = ContentId (MSize m) (ModTime m) (ETag m) (Parts m) (case Inline m of Some b \<Rightarrow> b | None \<Rightarrow> [])"

definition casDir :: "string \<Rightarrow> string" where
  "casDir h = ''.gostore.sys/cas/'' @ h"

definition dataLoc :: "xlMeta \<Rightarrow> string \<Rightarrow> string \<Rightarrow> string \<times> string" where
  "dataLoc m bucket key = (if DataRef m \<noteq> [] then ([], casDir (DataRef m)) else (bucket, key))"

fun indexFrom :: "nat \<Rightarrow> nat \<Rightarrow> nat list \<Rightarrow> int" where
  "indexFrom j diskIdx [] = -1"
| "indexFrom j diskIdx (d # ds) = (if d = diskIdx then int j else indexFrom (Suc j) diskIdx ds)"

definition shardForDisk :: "erasureMeta \<Rightarrow> nat \<Rightarrow> int" where
  "shardForDisk em diskIdx = indexFrom 0 diskIdx (Distribution em)"

text \<open>
  \<open>int(h.Sum32())\<close> is non-negative on the 64-bit platforms, so the correction of a negative
  remainder does not act.
\<close>

definition buildDistribution :: "string \<Rightarrow> nat \<Rightarrow> nat list" where
  "buildDistribution key n =
     (let rot = unat (fnv32a key) mod n in map (\<lambda>j. (j + rot) mod n) [0..<n])"

definition identityDist :: "nat \<Rightarrow> nat list" where
  "identityDist n = [0..<n]"

subsection \<open>Other documents\<close>

record vlogEntry =
  VlogID :: string
  DeleteMarker :: bool
  VModTime :: time
  VLockMode :: string
  VRetainUntil :: time
  VLegalHold :: bool

record casMarker =
  CSize :: nat
  CParts :: nat
  InstalledAt :: time

record uploadInfo =
  UBucket :: string
  UObject :: string
  Initiated :: time
  UContentType :: string
  UContentEnc :: string
  UUserMeta :: "string gomap"
  UUserTags :: string

datatype content = Raw bytes | MetaDoc xlMeta | VlogDoc "vlogEntry list" | CasDoc casMarker
  | UploadDoc uploadInfo | IamDoc persisted | BucketsDoc envelope | MrfDoc "int gomap" | LayoutDoc poolLayoutDoc
  | FormatDoc diskFormat | BucketDoc bucketMeta | ObjDoc objMeta | VerDoc "verEntry list" | MpUploadDoc mpUploadMeta | MpPartDoc mpPartMeta

definition marshal :: "xlMeta \<Rightarrow> content" where
  "marshal m = MetaDoc (m\<lparr>Inline := (case Inline m of Some [] \<Rightarrow> None | i \<Rightarrow> i)\<rparr>)"

definition unmarshalXLMeta :: "content \<Rightarrow> xlMeta option" where
  "unmarshalXLMeta c = (case c of MetaDoc m \<Rightarrow> Some m | _ \<Rightarrow> None)"

definition unmarshalVlog :: "content \<Rightarrow> vlogEntry list option" where
  "unmarshalVlog c = (case c of VlogDoc v \<Rightarrow> Some v | _ \<Rightarrow> None)"

definition normMeta :: "xlMeta \<Rightarrow> xlMeta" where
  "normMeta m = m\<lparr>Inline := (case Inline m of Some [] \<Rightarrow> None | i \<Rightarrow> i)\<rparr>"

lemma unmarshal_marshal [simp]: "unmarshalXLMeta (marshal m) = Some (normMeta m)"
  by (simp add: unmarshalXLMeta_def marshal_def normMeta_def)

lemma marshal_norm: "marshal m = MetaDoc (normMeta m)"
  by (simp add: marshal_def normMeta_def)

lemma contentHash_norm [simp]: "contentHash (normMeta m) = contentHash m"
  by (auto simp: contentHash_def normMeta_def split: option.splits list.splits)

lemma normMeta_sel [simp]:
  "MSize (normMeta m) = MSize m" "Parts (normMeta m) = Parts m" "Erasure (normMeta m) = Erasure m"
  "ETag (normMeta m) = ETag m" "SSE (normMeta m) = SSE m" "Compressed (normMeta m) = Compressed m"
  "DataRef (normMeta m) = DataRef m" "Revision (normMeta m) = Revision m" "VersionID (normMeta m) = VersionID m"
  by (simp_all add: normMeta_def)

subsection \<open>The shard distribution is a permutation\<close>

lemma rotation_inj:
  assumes "i < n" "j < n" "(i + r) mod n = (j + r) mod (n :: nat)"
  shows "i = j"
proof -
  have *: "a = b" if "a \<le> b" "b < n" "(a + r) mod n = (b + r) mod n" for a b
  proof -
    have "n dvd (b + r) - (a + r)" using that by (subst mod_eq_dvd_iff_nat [symmetric]) auto
    then have "n dvd b - a" by simp
    then show ?thesis using that by (auto dest!: dvd_imp_le)
  qed
  show ?thesis using * [of i j] * [of j i] assms by (cases "i \<le> j") auto
qed

lemma buildDistribution_length [simp]: "length (buildDistribution key n) = n"
  by (simp add: buildDistribution_def Let_def)

lemma buildDistribution_distinct: "distinct (buildDistribution key n)"
  by (auto simp: buildDistribution_def Let_def distinct_map inj_on_def dest: rotation_inj)

lemma buildDistribution_set: "set (buildDistribution key n) = {0..<n}"
proof (rule card_subset_eq)
  show "set (buildDistribution key n) \<subseteq> {0..<n}"
    by (cases "n = 0") (auto simp: buildDistribution_def Let_def)
  show "card (set (buildDistribution key n)) = card {0..<n}"
    by (simp add: distinct_card buildDistribution_distinct)
qed simp

lemma indexFrom_nth:
  "distinct ds \<Longrightarrow> k < length ds \<Longrightarrow> indexFrom j (ds ! k) ds = int (j + k)"
proof (induction ds arbitrary: j k)
  case (Cons d ds)
  then show ?case by (cases k) auto
qed simp

definition perm_dist :: "nat \<Rightarrow> nat list \<Rightarrow> bool" where
  "perm_dist n dist \<longleftrightarrow> length dist = n \<and> distinct dist \<and> set dist = {0..<n}"

lemma perm_dist_build: "perm_dist n (buildDistribution key n)"
  by (simp add: perm_dist_def buildDistribution_distinct buildDistribution_set)

lemma perm_dist_identity: "perm_dist n (identityDist n)"
  by (auto simp: perm_dist_def identityDist_def)

lemma perm_dist_nth_less: "perm_dist n dist \<Longrightarrow> j < n \<Longrightarrow> dist ! j < n"
  unfolding perm_dist_def by (metis atLeastLessThan_iff nth_mem)

lemma perm_dist_surj:
  assumes "perm_dist n dist" "i < n"
  shows "\<exists>j < n. dist ! j = i"
  using assms unfolding perm_dist_def by (metis atLeastLessThan_iff in_set_conv_nth le0)

text \<open>
  Shard placement: for every key and every number of disks, each disk holds exactly one shard,
  and \<open>shardForDisk\<close> inverts the placement.
\<close>

theorem buildDistribution_bijective:
  assumes "i < n"
  shows "perm_dist n (buildDistribution key n) \<and>
    (\<exists>j < n. buildDistribution key n ! j = i
       \<and> shardForDisk (em\<lparr>Distribution := buildDistribution key n\<rparr>) i = int j)"
proof -
  let ?d = "buildDistribution key n"
  have p: "perm_dist n ?d" by (rule perm_dist_build)
  obtain j where j: "j < n" "?d ! j = i" using perm_dist_surj [OF p assms] by blast
  then have "indexFrom 0 i ?d = int j" using indexFrom_nth [of ?d j 0] buildDistribution_distinct by auto
  then show ?thesis using p j by (auto simp: shardForDisk_def)
qed

definition wit_em :: erasureMeta where
  "wit_em = \<lparr>EAlgorithm = ''reedsolomon'', DataBlocks = 2, ParityBlocks = 2, BlockSize = 1048576,
     Distribution = [], ChecksumAlgo = ''highwayhash256''\<rparr>"

theorem buildDistribution_bijective_witness:
  "perm_dist 4 (buildDistribution ''a/b'' 4) \<and>
    (\<exists>j < 4. buildDistribution ''a/b'' 4 ! j = 3
       \<and> shardForDisk (wit_em\<lparr>Distribution := buildDistribution ''a/b'' 4\<rparr>) 3 = int j)"
  by (rule buildDistribution_bijective) simp

end
