(* ===== verification/Disk.thy ===== *)
theory Disk
  imports Meta
begin

text \<open>
  One disk of the erasure backend (\<open>internal/storage/local.go\<close>, \<open>util.go\<close>): a directory tree on
  the local file system. The tree is an association list from paths to nodes with distinct keys;
  the root always exists. Every operation of a disk draws its outcome from the disk's fault
  schedule: it may work, fail before it does anything (the disk is offline or read-only), or fail
  half-way, with the partial effect the code leaves behind. Modification times of directories
  (the \<open>Created\<close> field of a volume) are not modelled.
\<close>

datatype node = Dir | File content

type_synonym fs = "(path \<times> node) list"

datatype diskErr = ErrVolumeExists | ErrVolumeNotFound | ErrVolumeNotEmpty | ErrFileNotFound
  | ErrUnexpectedEOF | ErrDiskIO

definition sysDir :: string where "sysDir = ''.gostore.sys''"

subsection \<open>The file system\<close>

definition lookupF :: "fs \<Rightarrow> path \<Rightarrow> node option" where
  "lookupF f p = (if p = [] then Some Dir else map_of f p)"

fun mkdirFrom :: "path \<Rightarrow> path \<Rightarrow> fs \<Rightarrow> fs option" where
  "mkdirFrom done [] f = Some f"
| "mkdirFrom done (s # ss) f =
     (case lookupF f (done @ [s]) of
        Some Dir \<Rightarrow> mkdirFrom (done @ [s]) ss f
      | Some (File c) \<Rightarrow> None
      | None \<Rightarrow> mkdirFrom (done @ [s]) ss (AList.update (done @ [s]) Dir f))"

definition mkdirAll :: "path \<Rightarrow> fs \<Rightarrow> fs option" where
  "mkdirAll p f = mkdirFrom [] p f"

definition removeAll :: "path \<Rightarrow> fs \<Rightarrow> fs" where
  "removeAll p f = filter (\<lambda>(q, _). \<not> prefix p q) f"

datatype rmErr = RmNotExist | RmNotEmpty

definition removeF :: "path \<Rightarrow> fs \<Rightarrow> rmErr + fs" where
  "removeF p f =
     (case lookupF f p of
        None \<Rightarrow> Inl RmNotExist
      | Some (File c) \<Rightarrow> Inr (AList.delete p f)
      | Some Dir \<Rightarrow> if list_ex (\<lambda>(q, _). strict_prefix p q) f then Inl RmNotEmpty else Inr (AList.delete p f))"

definition movePath :: "path \<Rightarrow> path \<Rightarrow> path \<Rightarrow> path" where
  "movePath src dst q = (if prefix src q then dst @ drop (length src) q else q)"

text \<open>\<open>os.Rename\<close> of a directory to a path that does not exist, in an existing directory.\<close>

definition renameF :: "path \<Rightarrow> path \<Rightarrow> fs \<Rightarrow> fs option" where
  "renameF src dst f =
     (if lookupF f src = None \<or> prefix src dst then None
      else Some (map (\<lambda>(q, nd). (movePath src dst q, nd)) f))"

definition writeFile :: "path \<Rightarrow> content \<Rightarrow> fs \<Rightarrow> fs option" where
  "writeFile p c f =
     (case mkdirAll (butlast p) f of
        None \<Rightarrow> None
      | Some f1 \<Rightarrow> if lookupF f1 p = Some Dir then None else Some (AList.update p (File c) f1))"

definition childNames :: "path \<Rightarrow> fs \<Rightarrow> (string \<times> bool) list" where
  "childNames p f =
     map (\<lambda>(q, nd). (last q, nd = Dir))
       (filter (\<lambda>(q, _). strict_prefix p q \<and> length q = length p + 1) f)"

subsection \<open>The disk and its fault schedule\<close>

datatype fault = Works | FailsBefore | FailsMid

record disk =
  dfs :: fs
  dfaults :: "nat \<Rightarrow> fault"
  dopno :: nat

definition nextFault :: "disk \<Rightarrow> fault \<times> disk" where
  "nextFault d = (dfaults d (dopno d), d\<lparr>dopno := Suc (dopno d)\<rparr>)"

definition dpath :: "string \<Rightarrow> string \<Rightarrow> path" where
  "dpath bucket object = cleanSegs [] (segs bucket @ segs object)"

lemma dpath_child: "plainName x \<Longrightarrow> dpath b (pjoin key x) = dpath b key @ [x]"
  by (simp add: dpath_def segs_plainName cleanSegs_append flip: append_assoc) (simp add: plainName_def)

lemma dpath_plain: "\<forall>x \<in> set (segs b) \<union> set (segs ob). plainSeg x \<Longrightarrow> dpath b ob = segs b @ segs ob"
  unfolding dpath_def by (subst cleanSegs_plain) auto

text \<open>\<open>IsOnline\<close> stats the root: one more operation of the schedule.\<close>

definition IsOnline :: "disk \<Rightarrow> bool \<times> disk" where
  "IsOnline d = (case nextFault d of (ft, d1) \<Rightarrow> (ft = Works, d1))"

definition MakeVol :: "string \<Rightarrow> disk \<Rightarrow> (diskErr + unit) \<times> disk" where
  "MakeVol bucket d =
     (case nextFault d of (ft, d1) \<Rightarrow>
        if ft \<noteq> Works then (Inl ErrDiskIO, d1)
        else case lookupF (dfs d1) (dpath bucket []) of
          Some _ \<Rightarrow> (Inl ErrVolumeExists, d1)
        | None \<Rightarrow> (Inr (), d1\<lparr>dfs := AList.update (dpath bucket []) Dir (dfs d1)\<rparr>))"

definition StatVol :: "string \<Rightarrow> disk \<Rightarrow> (diskErr + unit) \<times> disk" where
  "StatVol bucket d =
     (case nextFault d of (ft, d1) \<Rightarrow>
        if ft \<noteq> Works then (Inl ErrDiskIO, d1)
        else case lookupF (dfs d1) (dpath bucket []) of
          Some _ \<Rightarrow> (Inr (), d1) | None \<Rightarrow> (Inl ErrVolumeNotFound, d1))"

definition ListVols :: "disk \<Rightarrow> (diskErr + string list) \<times> disk" where
  "ListVols d =
     (case nextFault d of (ft, d1) \<Rightarrow>
        if ft \<noteq> Works then (Inl ErrDiskIO, d1)
        else (Inr (sort (map fst (filter (\<lambda>(nm, isDir). isDir \<and> nm \<noteq> sysDir) (childNames [] (dfs d1))))), d1))"

definition DeleteVol :: "string \<Rightarrow> bool \<Rightarrow> disk \<Rightarrow> (diskErr + unit) \<times> disk" where
  "DeleteVol bucket force d =
     (case nextFault d of (ft, d1) \<Rightarrow>
        if ft \<noteq> Works then (Inl ErrDiskIO, d1)
        else if force then (Inr (), d1\<lparr>dfs := removeAll (dpath bucket []) (dfs d1)\<rparr>)
        else case removeF (dpath bucket []) (dfs d1) of
          Inr f' \<Rightarrow> (Inr (), d1\<lparr>dfs := f'\<rparr>)
        | Inl RmNotExist \<Rightarrow> (Inl ErrVolumeNotFound, d1)
        | Inl RmNotEmpty \<Rightarrow> (Inl ErrVolumeNotEmpty, d1))"

text \<open>
  \<open>WriteAll\<close> writes a temporary file beside the target and renames it, so a failure half-way has
  at most created the directories.
\<close>

definition WriteAll :: "string \<Rightarrow> string \<Rightarrow> content \<Rightarrow> disk \<Rightarrow> (diskErr + unit) \<times> disk" where
  "WriteAll bucket object c d =
     (case nextFault d of (ft, d1) \<Rightarrow>
        (let p = dpath bucket object in
         if ft = FailsBefore then (Inl ErrDiskIO, d1)
         else if ft = FailsMid then
           (Inl ErrDiskIO, case mkdirAll (butlast p) (dfs d1) of Some f' \<Rightarrow> d1\<lparr>dfs := f'\<rparr> | None \<Rightarrow> d1)
         else case writeFile p c (dfs d1) of
           Some f' \<Rightarrow> (Inr (), d1\<lparr>dfs := f'\<rparr>) | None \<Rightarrow> (Inl ErrDiskIO, d1)))"

definition ReadAll :: "string \<Rightarrow> string \<Rightarrow> disk \<Rightarrow> (diskErr + content) \<times> disk" where
  "ReadAll bucket object d =
     (case nextFault d of (ft, d1) \<Rightarrow>
        if ft \<noteq> Works then (Inl ErrDiskIO, d1)
        else case lookupF (dfs d1) (dpath bucket object) of
          Some (File c) \<Rightarrow> (Inr c, d1)
        | Some Dir \<Rightarrow> (Inl ErrDiskIO, d1)
        | None \<Rightarrow> (Inl ErrFileNotFound, d1))"

text \<open>
  \<open>CreateFile\<close> truncates the target and copies the reader's bytes into it; \<open>size\<close> is -1 when the
  length is not known. A failure while copying, or a wrong length, removes the file.
\<close>

definition CreateFile :: "string \<Rightarrow> string \<Rightarrow> int \<Rightarrow> bytes \<Rightarrow> disk \<Rightarrow> (diskErr + unit) \<times> disk" where
  "CreateFile bucket object sz b d =
     (case nextFault d of (ft, d1) \<Rightarrow>
        (let p = dpath bucket object in
         if ft = FailsBefore then (Inl ErrDiskIO, d1)
         else case writeFile p (Raw b) (dfs d1) of
           None \<Rightarrow> (Inl ErrDiskIO, d1)
         | Some f' \<Rightarrow>
             if ft = FailsMid then (Inl ErrDiskIO, d1\<lparr>dfs := removeAll p f'\<rparr>)
             else if sz \<ge> 0 \<and> int (length b) \<noteq> sz then (Inl ErrUnexpectedEOF, d1\<lparr>dfs := removeAll p f'\<rparr>)
             else (Inr (), d1\<lparr>dfs := f'\<rparr>)))"

text \<open>
  \<open>ReadFileStream\<close> from an offset to the end (\<open>length < 0\<close>, the only use of the erasure layer);
  seeking past the end gives an empty stream.
\<close>

definition ReadFileStream :: "string \<Rightarrow> string \<Rightarrow> nat \<Rightarrow> disk \<Rightarrow> (diskErr + bytes) \<times> disk" where
  "ReadFileStream bucket object offset d =
     (case nextFault d of (ft, d1) \<Rightarrow>
        if ft \<noteq> Works then (Inl ErrDiskIO, d1)
        else case lookupF (dfs d1) (dpath bucket object) of
          Some (File (Raw b)) \<Rightarrow> (Inr (drop offset b), d1)
        | Some _ \<Rightarrow> (Inl ErrDiskIO, d1)
        | None \<Rightarrow> (Inl ErrFileNotFound, d1))"

definition RenameDir :: "string \<Rightarrow> string \<Rightarrow> string \<Rightarrow> string \<Rightarrow> disk \<Rightarrow> (diskErr + unit) \<times> disk" where
  "RenameDir srcBucket srcObject dstBucket dstObject d =
     (case nextFault d of (ft, d1) \<Rightarrow>
        (let src = dpath srcBucket srcObject; dst = dpath dstBucket dstObject in
         if ft = FailsBefore then (Inl ErrDiskIO, d1)
         else case mkdirAll (butlast dst) (dfs d1) of
           None \<Rightarrow> (Inl ErrDiskIO, d1)
         | Some f1 \<Rightarrow>
             (let f2 = removeAll dst f1 in
              if ft = FailsMid then (Inl ErrDiskIO, d1\<lparr>dfs := f2\<rparr>)
              else case renameF src dst f2 of
                None \<Rightarrow> (Inl ErrDiskIO, d1\<lparr>dfs := f2\<rparr>)
              | Some f3 \<Rightarrow> (Inr (), d1\<lparr>dfs := f3\<rparr>))))"

function prune :: "nat \<Rightarrow> path \<Rightarrow> fs \<Rightarrow> fs" where
  "prune stop leaf f =
     (if length leaf > stop then
        (case removeF leaf f of Inr f' \<Rightarrow> prune stop (butlast leaf) f' | Inl e \<Rightarrow> f)
      else f)"
  by pat_completeness auto
termination by (relation "measure (\<lambda>(stop, leaf, f). length leaf)") auto

declare prune.simps [simp del]

definition Delete :: "string \<Rightarrow> string \<Rightarrow> bool \<Rightarrow> disk \<Rightarrow> (diskErr + unit) \<times> disk" where
  "Delete bucket object recursive d =
     (case nextFault d of (ft, d1) \<Rightarrow>
        (let p = dpath bucket object in
         if ft \<noteq> Works then (Inl ErrDiskIO, d1)
         else if recursive then
           (Inr (), d1\<lparr>dfs := prune (length (dpath bucket [])) (butlast p) (removeAll p (dfs d1))\<rparr>)
         else case removeF p (dfs d1) of
           Inl RmNotEmpty \<Rightarrow> (Inl ErrDiskIO, d1)
         | Inl RmNotExist \<Rightarrow> (Inr (), d1\<lparr>dfs := prune (length (dpath bucket [])) (butlast p) (dfs d1)\<rparr>)
         | Inr f' \<Rightarrow> (Inr (), d1\<lparr>dfs := prune (length (dpath bucket [])) (butlast p) f'\<rparr>)))"

definition ListDir :: "string \<Rightarrow> string \<Rightarrow> disk \<Rightarrow> (diskErr + string list) \<times> disk" where
  "ListDir bucket dir d =
     (case nextFault d of (ft, d1) \<Rightarrow>
        (let p = dpath bucket dir in
         if ft \<noteq> Works then (Inl ErrDiskIO, d1)
         else case lookupF (dfs d1) p of
           None \<Rightarrow> (Inr [], d1)
         | Some (File c) \<Rightarrow> (Inl ErrDiskIO, d1)
         | Some Dir \<Rightarrow>
             (Inr (map (\<lambda>(nm, isDir). if isDir then nm @ ''/'' else nm) (sort_key fst (childNames p (dfs d1)))), d1)))"

subsection \<open>What the file-system operations change\<close>

lemma lookupF_Nil [simp]: "lookupF f [] = Some Dir"
  by (simp add: lookupF_def)

lemma lookupF_update: "p \<noteq> [] \<Longrightarrow> lookupF (AList.update p nd f) q = (if q = p then Some nd else lookupF f q)"
  by (auto simp: lookupF_def update_conv)

lemma lookupF_removeAll: "lookupF (removeAll p f) q = (if q \<noteq> [] \<and> prefix p q then None else lookupF f q)"
proof -
  have "map_of (removeAll p f) q = (if prefix p q then None else map_of f q)"
    unfolding removeAll_def by (induction f) auto
  then show ?thesis by (simp add: lookupF_def)
qed

lemma lookupF_delete: "lookupF (AList.delete p f) q = (if q = p \<and> q \<noteq> [] then None else lookupF f q)"
  by (auto simp: lookupF_def delete_conv)

lemma lookupF_mkdirFrom:
  "mkdirFrom dn ss f = Some f' \<Longrightarrow>
   lookupF f' q = (if strict_prefix dn q \<and> prefix q (dn @ ss) then Some Dir else lookupF f q)"
proof (induction dn ss f rule: mkdirFrom.induct)
  case (1 dn f)
  then show ?case by (auto simp: strict_prefix_def)
next
  case (2 dn s ss f)
  have split: "strict_prefix dn q \<and> prefix q (dn @ s # ss) \<longleftrightarrow>
      q = dn @ [s] \<or> (strict_prefix (dn @ [s]) q \<and> prefix q ((dn @ [s]) @ ss))"
    by (auto simp: strict_prefix_def prefix_def append_eq_Cons_conv) (metis append_eq_Cons_conv)+
  show ?case
  proof (cases "lookupF f (dn @ [s])")
    case None
    then show ?thesis using 2 split by (auto simp: lookupF_update)
  next
    case (Some nd)
    then show ?thesis using 2 split by (cases nd) auto
  qed
qed

lemma lookupF_mkdirAll: "mkdirAll p f = Some f' \<Longrightarrow> lookupF f' q = (if prefix q p then Some Dir else lookupF f q)"
  using lookupF_mkdirFrom [of "[]" p f f' q] by (cases q) (auto simp: mkdirAll_def strict_prefix_def)

lemma lookupF_writeFile:
  assumes "writeFile p c f = Some f'"
  shows "p \<noteq> []" and "lookupF f' q = (if q = p then Some (File c) else if prefix q (butlast p) then Some Dir else lookupF f q)"
proof -
  obtain f1 where f1: "mkdirAll (butlast p) f = Some f1" "lookupF f1 p \<noteq> Some Dir" "f' = AList.update p (File c) f1"
    using assms by (auto simp: writeFile_def split: option.splits if_splits)
  then show "p \<noteq> []" by auto
  then show "lookupF f' q = (if q = p then Some (File c) else if prefix q (butlast p) then Some Dir else lookupF f q)"
    using f1 lookupF_mkdirAll [OF f1(1)] by (simp add: lookupF_update)
qed

lemma map_of_movePath:
  assumes "\<forall>(k, v) \<in> set f. \<not> prefix dst k"
  shows "map_of (map (\<lambda>(k, v). (movePath src dst k, v)) f) q =
    (if prefix dst q then map_of f (src @ drop (length dst) q) else if prefix src q then None else map_of f q)"
  using assms
proof (induction f)
  case (Cons a f)
  obtain k v where a: "a = (k, v)" by fastforce
  have nk: "\<not> prefix dst k" using Cons.prems a by auto
  show ?case
  proof (cases "prefix src k")
    case True
    then obtain r where r: "k = src @ r" by (auto elim: prefixE)
    show ?thesis using Cons True a r by (auto simp: movePath_def prefix_def)
  next
    case False
    then show ?thesis using Cons a nk by (auto simp: movePath_def)
  qed
qed simp

lemma lookupF_renameF:
  assumes "renameF src dst f = Some f'" "dst \<noteq> []" and none: "\<forall>q. prefix dst q \<longrightarrow> lookupF f q = None"
  shows "lookupF f' q =
    (if prefix dst q then lookupF f (src @ drop (length dst) q)
     else if q \<noteq> [] \<and> prefix src q then None else lookupF f q)"
proof -
  have f': "f' = map (\<lambda>(q, nd). (movePath src dst q, nd)) f" and s: "\<not> prefix src dst"
    using assms(1) by (auto simp: renameF_def split: if_splits)
  have "src \<noteq> []" using s by auto
  have "\<forall>(k, v) \<in> set f. \<not> prefix dst k"
  proof (rule ccontr)
    assume "\<not> ?thesis"
    then obtain k v where k: "(k, v) \<in> set f" "prefix dst k" by auto
    then have "k \<noteq> []" using assms(2) by auto
    moreover have "map_of f k \<noteq> None" using k by (simp add: map_of_eq_None_iff) force
    ultimately show False using none [rule_format, OF k(2)] by (simp add: lookupF_def)
  qed
  from map_of_movePath [OF this, of src q] show ?thesis
    using \<open>src \<noteq> []\<close> assms(2) by (cases q) (auto simp: lookupF_def f')
qed

lemma lookupF_removeF: "removeF p f = Inr f' \<Longrightarrow> lookupF f' q = (if q = p \<and> q \<noteq> [] then None else lookupF f q)"
  by (auto simp: removeF_def lookupF_delete split: option.splits node.splits if_splits)

lemma lookupF_prune: "\<not> prefix q leaf \<Longrightarrow> lookupF (prune stop leaf f) q = lookupF f q"
proof (induction stop leaf f rule: prune.induct)
  case (1 stop leaf f)
  show ?case
  proof (cases "removeF leaf f")
    case (Inl e)
    then show ?thesis by (subst prune.simps) simp
  next
    case (Inr f')
    have nb: "\<not> prefix q (butlast leaf)" using 1(2) by (meson prefixeq_butlast prefix_order.trans)
    have "q \<noteq> leaf" using 1(2) by auto
    then have "lookupF f' q = lookupF f q" using lookupF_removeF [OF Inr] by auto
    then show ?thesis using 1(1) [OF _ Inr nb] Inr by (subst prune.simps) simp
  qed
qed

subsection \<open>What the disk operations change\<close>

abbreviation at :: "disk \<Rightarrow> path \<Rightarrow> node option" where
  "at d q \<equiv> lookupF (dfs d) q"

definition sched :: "disk \<Rightarrow> fault" where
  "sched d = dfaults d (dopno d)"

lemma nextFault_simp [simp]: "nextFault d = (sched d, d\<lparr>dopno := Suc (dopno d)\<rparr>)"
  by (simp add: nextFault_def sched_def)

lemma WriteAll_ok:
  assumes "WriteAll b ob c d = (Inr u, d')"
  shows "at d' q = (if q = dpath b ob then Some (File c)
                    else if prefix q (butlast (dpath b ob)) then Some Dir else at d q)"
    and "dpath b ob \<noteq> []"
  using assms lookupF_writeFile [of "dpath b ob" c "dfs d"]
  by (auto simp: WriteAll_def Let_def split: if_splits option.splits)

lemma WriteAll_fail:
  assumes "WriteAll b ob c d = (Inl e, d')"
  shows "at d' q = at d q \<or> (prefix q (butlast (dpath b ob)) \<and> at d' q = Some Dir)"
  using assms lookupF_mkdirAll [of "butlast (dpath b ob)" "dfs d"]
  by (auto simp: WriteAll_def Let_def split: if_splits option.splits)

lemma ReadAll_state [simp]: "dfs (snd (ReadAll b ob d)) = dfs d"
  by (auto simp: ReadAll_def split: option.splits node.splits)

lemma ReadAll_sound: "ReadAll b ob d = (Inr c, d') \<Longrightarrow> at d (dpath b ob) = Some (File c) \<and> dfs d' = dfs d"
  by (auto simp: ReadAll_def split: option.splits node.splits if_splits)

lemma ReadAll_works: "sched d = Works \<Longrightarrow> at d (dpath b ob) = Some (File c) \<Longrightarrow> fst (ReadAll b ob d) = Inr c"
  by (simp add: ReadAll_def)

lemma ReadAll_absent: "at d (dpath b ob) = None \<Longrightarrow> fst (ReadAll b ob d) \<noteq> Inr c"
  by (auto simp: ReadAll_def)

lemma RenameDir_ok:
  assumes "RenameDir sb so tb tobj d = (Inr u, d')"
  shows "at d' q =
    (if prefix (dpath tb tobj) q then
       (let r = dpath sb so @ drop (length (dpath tb tobj)) q in
        if prefix r (butlast (dpath tb tobj)) then Some Dir else at d r)
     else if q \<noteq> [] \<and> prefix (dpath sb so) q then None
     else if prefix q (butlast (dpath tb tobj)) then Some Dir else at d q)"
proof -
  let ?src = "dpath sb so" and ?dst = "dpath tb tobj"
  obtain f1 f3 where f1: "mkdirAll (butlast ?dst) (dfs d) = Some f1"
    and f3: "renameF ?src ?dst (removeAll ?dst f1) = Some f3" "dfs d' = f3"
    using assms by (auto simp: RenameDir_def Let_def split: if_splits option.splits)
  have ns: "\<not> prefix ?src ?dst" "lookupF (removeAll ?dst f1) ?src \<noteq> None"
    using f3 by (auto simp: renameF_def split: if_splits)
  show ?thesis
  proof (cases "?dst = []")
    case True
    then have "?src \<noteq> []" using ns by auto
    then show ?thesis using ns True by (auto simp: lookupF_removeAll)
  next
    case False
    have none: "\<forall>q. prefix ?dst q \<longrightarrow> lookupF (removeAll ?dst f1) q = None"
      using False by (auto simp: lookupF_removeAll)
    have nd: "\<not> prefix ?dst ?src" using ns none by auto
    have ndr: "\<not> prefix ?dst (?src @ r)" for r
      using nd ns by (metis prefix_append prefix_order.refl prefix_same_cases prefixI)
    show ?thesis
      unfolding f3(2) lookupF_renameF [OF f3(1) False none]
      using ns nd ndr by (auto simp: lookupF_removeAll lookupF_mkdirAll [OF f1] Let_def)
  qed
qed

lemma Delete_rec:
  assumes "Delete b ob True d = (Inr u, d')"
  shows "q \<noteq> [] \<and> prefix (dpath b ob) q \<Longrightarrow> at d' q = None \<or> prefix q (butlast (dpath b ob))"
    and "\<not> prefix q (dpath b ob) \<Longrightarrow> \<not> prefix (dpath b ob) q \<Longrightarrow> at d' q = at d q"
proof -
  have d': "dfs d' = prune (length (dpath b [])) (butlast (dpath b ob)) (removeAll (dpath b ob) (dfs d))"
    using assms by (auto simp: Delete_def Let_def split: if_splits)
  have nb: "\<not> prefix q (butlast (dpath b ob))" if "\<not> prefix q (dpath b ob)"
    using that by (meson prefixeq_butlast prefix_order.trans)
  show "at d' q = at d q" if "\<not> prefix q (dpath b ob)" "\<not> prefix (dpath b ob) q"
    using that nb [OF that(1)] by (simp add: d' lookupF_prune lookupF_removeAll)
  show "at d' q = None \<or> prefix q (butlast (dpath b ob))" if "q \<noteq> [] \<and> prefix (dpath b ob) q"
    using that by (cases "prefix q (butlast (dpath b ob))") (simp_all add: d' lookupF_prune lookupF_removeAll)
qed

end
