(* ===== verification/Codec.thy ===== *)
theory Codec
  imports Meta
begin

text \<open>
  The erasure codec (\<open>internal/erasure/erasure.go\<close>) and the interleaved bitrot format
  (\<open>bitrot.go\<close>). The Reed-Solomon encoder (\<open>klauspost/reedsolomon\<close>) and HighwayHash are
  parameters: a codec is a record of the five methods the code calls, and \<open>rs_ok\<close> states what
  that package documents about them. A missing shard (\<open>nil\<close>) is \<open>None\<close>.
\<close>

record rscodec =
  rsSplit :: "bytes \<Rightarrow> bytes list option"
  rsEncode :: "bytes list \<Rightarrow> bytes list option"
  rsVerify :: "bytes option list \<Rightarrow> bool option"
  rsReconstruct :: "bytes option list \<Rightarrow> bytes list option"
  rsJoin :: "bytes option list \<Rightarrow> nat \<Rightarrow> bytes option"

definition blockSizeV2 :: nat where "blockSizeV2 = 1048576"

record erasure =
  enc :: rscodec
  dataBlocks :: nat
  parityBlocks :: nat
  blockSize :: nat

definition NewErasure :: "(nat \<Rightarrow> nat \<Rightarrow> rscodec) \<Rightarrow> int \<Rightarrow> int \<Rightarrow> erasure option" where
  "NewErasure newRS dat par =
     (if dat \<le> 0 \<or> par < 0 \<or> dat + par > 256 then None
      else Some \<lparr>enc = newRS (nat dat) (nat par), dataBlocks = nat dat, parityBlocks = nat par,
                 blockSize = blockSizeV2\<rparr>)"

definition ceilInt64 :: "nat \<Rightarrow> nat \<Rightarrow> nat" where
  "ceilInt64 a b = (a + b - 1) div b"

definition stripeInputSize :: "erasure \<Rightarrow> nat" where
  "stripeInputSize e = blockSize e * dataBlocks e"

definition shardSize :: "erasure \<Rightarrow> nat" where
  "shardSize e = blockSize e"

definition shardFileSize :: "erasure \<Rightarrow> int \<Rightarrow> int" where
  "shardFileSize e totalLength =
     (if totalLength = 0 then 0
      else if totalLength < 0 then -1
      else
        (let full = totalLength div int (stripeInputSize e);
             rem = totalLength mod int (stripeInputSize e);
             sz = full * int (blockSize e)
         in if rem > 0 then sz + int (ceilInt64 (nat rem) (dataBlocks e)) else sz))"

definition lastStripeShardSize :: "erasure \<Rightarrow> nat \<Rightarrow> nat" where
  "lastStripeShardSize e totalLength =
     (let rem = totalLength mod stripeInputSize e
      in if rem = 0 then blockSize e else ceilInt64 rem (dataBlocks e))"

definition EncodeData :: "erasure \<Rightarrow> bytes \<Rightarrow> bytes list option" where
  "EncodeData e d = (case rsSplit (enc e) d of None \<Rightarrow> None | Some sh \<Rightarrow> rsEncode (enc e) sh)"

definition DecodeData :: "erasure \<Rightarrow> bytes option list \<Rightarrow> nat \<Rightarrow> bytes option" where
  "DecodeData e shards dataLen =
     (if rsVerify (enc e) shards = Some True then rsJoin (enc e) shards dataLen
      else case rsReconstruct (enc e) shards of
        None \<Rightarrow> None
      | Some sh \<Rightarrow> rsJoin (enc e) (map Some sh) dataLen)"

definition defaultParity :: "nat \<Rightarrow> nat" where
  "defaultParity n = (let p = n div 2 in if p < 1 then 1 else p)"

subsection \<open>What the Reed-Solomon package promises\<close>

text \<open>
  \<open>Split\<close> cuts non-empty data into equal shards, padding the last; \<open>Encode\<close> keeps the data shards
  and fills the parity; \<open>Verify\<close> accepts a complete consistent set; \<open>Reconstruct\<close> restores every
  shard from any \<open>k\<close> of them; \<open>Join\<close> concatenates the data shards and cuts to the length.
\<close>

definition partOf :: "bytes option list \<Rightarrow> bytes list \<Rightarrow> bool" where
  "partOf xs sh \<longleftrightarrow> length xs = length sh \<and> (\<forall>j < length sh. xs ! j = None \<or> xs ! j = Some (sh ! j))"

definition present :: "'a option list \<Rightarrow> nat" where
  "present xs = length (filter (\<lambda>x. x \<noteq> None) xs)"

definition rs_ok :: "rscodec \<Rightarrow> nat \<Rightarrow> nat \<Rightarrow> bool" where
  "rs_ok rs k m \<longleftrightarrow>
     (\<forall>d. d \<noteq> [] \<longrightarrow> (\<exists>sp sh. rsSplit rs d = Some sp \<and> rsEncode rs sp = Some sh
        \<and> length sh = k + m \<and> (\<forall>s \<in> set sh. length s = ceilInt64 (length d) k)
        \<and> (\<forall>xs. partOf xs sh \<and> present xs \<ge> k \<longrightarrow>
             (rsVerify rs xs = Some True \<longrightarrow> xs = map Some sh) \<and> rsReconstruct rs xs = Some sh)
        \<and> rsJoin rs (map Some sh) (length d) = Some d))"

lemma EncodeData_ok:
  assumes "rs_ok (enc e) (dataBlocks e) (parityBlocks e)" "d \<noteq> []"
  shows "\<exists>sh. EncodeData e d = Some sh \<and> length sh = dataBlocks e + parityBlocks e
           \<and> (\<forall>s \<in> set sh. length s = ceilInt64 (length d) (dataBlocks e))
           \<and> (\<forall>xs. partOf xs sh \<and> present xs \<ge> dataBlocks e \<longrightarrow> DecodeData e xs (length d) = Some d)
           \<and> (\<forall>xs. partOf xs sh \<and> present xs \<ge> dataBlocks e \<longrightarrow> rsReconstruct (enc e) xs = Some sh)"
proof -
  obtain sp sh where h: "rsSplit (enc e) d = Some sp" "rsEncode (enc e) sp = Some sh"
      "length sh = dataBlocks e + parityBlocks e" "\<forall>s \<in> set sh. length s = ceilInt64 (length d) (dataBlocks e)"
      "\<forall>xs. partOf xs sh \<and> present xs \<ge> dataBlocks e \<longrightarrow>
             (rsVerify (enc e) xs = Some True \<longrightarrow> xs = map Some sh) \<and> rsReconstruct (enc e) xs = Some sh"
      "rsJoin (enc e) (map Some sh) (length d) = Some d"
    using assms unfolding rs_ok_def by blast
  have "DecodeData e xs (length d) = Some d" if "partOf xs sh \<and> present xs \<ge> dataBlocks e" for xs
    using h(5) [rule_format, OF that] h(6) by (auto simp: DecodeData_def)
  then show ?thesis using h by (auto simp: EncodeData_def)
qed

subsection \<open>Stripes\<close>

text \<open>The stripes \<open>encodePart\<close> reads: full stripes, then the rest. A size of zero reads nothing.\<close>

function stripesOf :: "nat \<Rightarrow> bytes \<Rightarrow> bytes list" where
  "stripesOf n d = (if d = [] \<or> n = 0 then [] else take n d # stripesOf n (drop n d))"
  by pat_completeness auto
termination by (relation "measure (\<lambda>(n, d). length d)") (auto simp: diff_less)

declare stripesOf.simps [simp del]

lemma stripesOf_Nil [simp]: "stripesOf n [] = []"
  by (simp add: stripesOf.simps)

lemma concat_stripesOf: "n > 0 \<Longrightarrow> concat (stripesOf n d) = d"
proof (induction n d rule: stripesOf.induct)
  case (1 n d)
  then show ?case by (cases "d = []") (simp_all add: stripesOf.simps [of n d])
qed

text \<open>One disk's shard file of a part: for each stripe, the hash of the block and the block.\<close>

definition shardFile :: "(bytes \<Rightarrow> bytes) \<Rightarrow> bytes list list \<Rightarrow> nat \<Rightarrow> bytes" where
  "shardFile bitrotRaw shardss j = concat (map (\<lambda>sh. bitrotRaw (sh ! j) @ sh ! j) shardss)"

subsection \<open>Sizes\<close>

lemma ceilInt64_bounds:
  assumes "k > 0"
  shows "a \<le> k * ceilInt64 a k" "k * ceilInt64 a k < a + k"
proof -
  have e: "k * ((a + k - 1) div k) + (a + k - 1) mod k = a + k - 1" by simp
  have r: "(a + k - 1) mod k < k" using assms by simp
  show "a \<le> k * ceilInt64 a k" "k * ceilInt64 a k < a + k"
    using e r assms unfolding ceilInt64_def by linarith+
qed

lemma ceilInt64_mult:
  assumes "k > 0"
  shows "ceilInt64 (b * k) k = b"
proof -
  let ?c = "ceilInt64 (b * k) k"
  have "b * k \<le> ?c * k" "?c * k < Suc b * k"
    using ceilInt64_bounds [OF assms, of "b * k"] by (simp_all add: mult.commute)
  then show ?thesis using assms by (metis less_Suc_eq_le mult_le_cancel2 mult_less_cancel2 order_antisym)
qed

lemma stripesOf_short: "d \<noteq> [] \<Longrightarrow> length d \<le> n \<Longrightarrow> stripesOf n d = [d]"
  by (cases n; subst stripesOf.simps) auto

text \<open>
  The size formula for shard files is the size the encoder produces: for every part, the
  blocks that each disk gets over all stripes of the part add up to \<open>shardFileSize\<close>.
\<close>

theorem shardFileSize_correct:
  assumes "dataBlocks e > 0" "blockSize e > 0"
  shows "shardFileSize e (int (length d)) =
    int (sum_list (map (\<lambda>s. ceilInt64 (length s) (dataBlocks e)) (stripesOf (stripeInputSize e) d)))"
proof (induction "stripeInputSize e" d rule: stripesOf.induct)
  case (1 d)
  let ?n = "stripeInputSize e" and ?k = "dataBlocks e"
  have n: "?n > 0" using assms by (simp add: stripeInputSize_def)
  show ?case
  proof (cases "length d < ?n")
    case True
    have "ceilInt64 (length d) ?k > 0" if "d \<noteq> []"
      using ceilInt64_bounds(1) [OF assms(1), of "length d"] that by (cases "ceilInt64 (length d) ?k") auto
    then show ?thesis
      using True by (cases "d = []") (auto simp: shardFileSize_def Let_def stripesOf_short)
  next
    case False
    then have ne: "d \<noteq> []" using n by auto
    have ih: "shardFileSize e (int (length (drop ?n d))) =
        int (sum_list (map (\<lambda>s. ceilInt64 (length s) ?k) (stripesOf ?n (drop ?n d))))"
      using 1 ne n by simp
    have st: "stripesOf ?n d = take ?n d # stripesOf ?n (drop ?n d)" using ne n by (subst stripesOf.simps) simp
    have full: "ceilInt64 ?n ?k = blockSize e"
      using ceilInt64_mult [OF assms(1), of "blockSize e"] by (simp add: stripeInputSize_def)
    obtain r where r: "length d = ?n + r" using False by (metis le_add_diff_inverse not_le)
    have "shardFileSize e (int (?n + r)) = int (blockSize e) + shardFileSize e (int r)"
      using n div_add_self2 [of "int ?n" "int r"] by (simp add: shardFileSize_def Let_def algebra_simps)
    then show ?thesis using ih r by (simp add: st full)
  qed
qed

definition wit_erasure :: erasure where
  "wit_erasure = \<lparr>enc = \<lparr>rsSplit = (\<lambda>_. None), rsEncode = (\<lambda>_. None), rsVerify = (\<lambda>_. None),
     rsReconstruct = (\<lambda>_. None), rsJoin = (\<lambda>_ _. None)\<rparr>, dataBlocks = 2, parityBlocks = 2, blockSize = 4\<rparr>"

theorem shardFileSize_correct_witness:
  "shardFileSize wit_erasure (int (length ''hello world'')) =
    int (sum_list (map (\<lambda>s. ceilInt64 (length s) (dataBlocks wit_erasure))
                       (stripesOf (stripeInputSize wit_erasure) ''hello world'')))"
  by (rule shardFileSize_correct) (simp_all add: wit_erasure_def)

end
