(* ===== verification/ErasureSet.thy ===== *)
theory ErasureSet
  imports Disk Codec
begin

text \<open>
  One erasure set (\<open>internal/erasure/set.go\<close>, \<open>compress.go\<close>, the CAS part of \<open>dedup.go\<close>): bucket
  operations over all disks, the object write path (staging, erasure coding, commit of \<open>xl.meta\<close>
  under a write quorum), and the read path (majority metadata, shard reading with bitrot checks,
  reconstruction). The goroutines of one operation touch different disks, so their order does not
  matter and the fan-out is a map over the disks. Map iteration order is the parameter
  \<open>mapOrder\<close>; hash functions, compression and encryption are parameters too.
\<close>

record senv =
  bitrotRaw :: "bytes \<Rightarrow> bytes"
  md5Raw :: "bytes \<Rightarrow> bytes"
  sha256RawE :: "bytes \<Rightarrow> bytes"
  zstdC :: "bytes \<Rightarrow> bytes"
  inlineMaxBytes :: int
  dedupEnabled :: bool
  compressDisabled :: bool
  mapOrder :: "contentId list \<Rightarrow> contentId list"

definition md5Hex :: "senv \<Rightarrow> bytes \<Rightarrow> string" where
  "md5Hex env b = hexEncode (md5Raw env b)"

record eset =
  disks :: "disk list"
  ec :: erasure
  hasMrf :: bool
  mrfCalls :: "(string \<times> string) list"

datatype setErr = EReadQuorum | EWriteQuorum | EBitrot | ECorrupt | EObjectMismatch | EWriteConflict
  | EDisk diskErr | EReader | EPanic

definition NewSet :: "(nat \<Rightarrow> nat \<Rightarrow> rscodec) \<Rightarrow> disk list \<Rightarrow> eset option" where
  "NewSet newRS ds =
     (let n = length ds in
      if n < 4 \<or> n mod 2 \<noteq> 0 then None
      else (let parity = defaultParity n in
            case NewErasure newRS (int n - int parity) (int parity) of
              None \<Rightarrow> None
            | Some e \<Rightarrow> Some \<lparr>disks = ds, ec = e, hasMrf = False, mrfCalls = []\<rparr>))"

definition setN :: "eset \<Rightarrow> nat" where "setN s = length (disks s)"

definition readQuorum :: "eset \<Rightarrow> nat" where "readQuorum s = dataBlocks (ec s)"

definition writeQuorum :: "eset \<Rightarrow> nat" where
  "writeQuorum s = (if dataBlocks (ec s) + 1 > setN s then setN s else dataBlocks (ec s) + 1)"

definition callMrf :: "string \<Rightarrow> string \<Rightarrow> eset \<Rightarrow> eset" where
  "callMrf bucket key s = s\<lparr>mrfCalls := mrfCalls s @ [(bucket, key)]\<rparr>"

definition metaFile :: string where "metaFile = ''xl.meta''"
definition tmpPrefix :: string where "tmpPrefix = ''.gostore.sys/tmp''"

definition pad5 :: "string \<Rightarrow> string" where
  "pad5 s = replicate (5 - length s) (CHR ''0'') @ s"

definition partFile :: "nat \<Rightarrow> string" where
  "partFile n = ''part.'' @ pad5 (itoaNat n)"

definition forEachDisk :: "(disk \<Rightarrow> 'e \<times> disk) \<Rightarrow> eset \<Rightarrow> 'e list \<times> eset" where
  "forEachDisk fn s =
     (let rs = map fn (disks s) in (map fst rs, s\<lparr>disks := map snd rs\<rparr>))"

definition okCount :: "(diskErr + unit) list \<Rightarrow> nat" where
  "okCount errs = length (filter (\<lambda>e. case e of Inr _ \<Rightarrow> True | Inl _ \<Rightarrow> False) errs)"

definition countErr :: "diskErr \<Rightarrow> (diskErr + unit) list \<Rightarrow> nat" where
  "countErr x errs = length (filter (\<lambda>e. e = Inl x) errs)"

subsection \<open>Buckets\<close>

datatype bucketErr = BVolumeExists | BVolumeNotFound | BVolumeNotEmpty | BWriteQuorum

definition MakeBucket :: "string \<Rightarrow> eset \<Rightarrow> bucketErr option \<times> eset" where
  "MakeBucket bucket s =
     (case forEachDisk (MakeVol bucket) s of (errs, s1) \<Rightarrow>
        (let ok = okCount errs; ex = countErr ErrVolumeExists errs
         in if ok + ex \<ge> writeQuorum s then ((if ok = 0 then Some BVolumeExists else None), s1)
            else (Some BWriteQuorum, s1)))"

definition DeleteBucket :: "string \<Rightarrow> bool \<Rightarrow> eset \<Rightarrow> bucketErr option \<times> eset" where
  "DeleteBucket bucket force s =
     (case forEachDisk (DeleteVol bucket force) s of (errs, s1) \<Rightarrow>
        (let ok = okCount errs + countErr ErrVolumeNotFound errs; notEmpty = countErr ErrVolumeNotEmpty errs
         in if notEmpty > 0 then (Some BVolumeNotEmpty, s1)
            else if ok \<ge> writeQuorum s then (None, s1)
            else (Some BWriteQuorum, s1)))"

definition StatBucket :: "string \<Rightarrow> eset \<Rightarrow> bucketErr option \<times> eset" where
  "StatBucket bucket s =
     (case forEachDisk (StatVol bucket) s of (errs, s1) \<Rightarrow>
        ((if okCount errs \<ge> readQuorum s then None else Some BVolumeNotFound), s1))"

definition ListBuckets :: "eset \<Rightarrow> string list \<times> eset" where
  "ListBuckets s =
     (case forEachDisk ListVols s of (rs, s1) \<Rightarrow>
        (let vols = concat (map (\<lambda>r. case r of Inr vs \<Rightarrow> vs | Inl _ \<Rightarrow> []) rs)
         in (sort (filter (\<lambda>nm. count_list vols nm \<ge> readQuorum s) (remdups vols)), s1)))"

subsection \<open>Metadata read\<close>

definition readMetaOf :: "string \<Rightarrow> string \<Rightarrow> disk \<Rightarrow> xlMeta option \<times> disk" where
  "readMetaOf bucket key d =
     (case ReadAll bucket (pjoin key metaFile) d of
        (Inl e, d1) \<Rightarrow> (None, d1)
      | (Inr c, d1) \<Rightarrow> (unmarshalXLMeta c, d1))"

text \<open>\<open>decide\<close>: the winner, its votes, and how many copies were read.\<close>

definition votes :: "xlMeta option list \<Rightarrow> contentId \<Rightarrow> nat" where
  "votes metas h = length (filter (\<lambda>m. map_option contentHash m = Some h) metas)"

definition sampleOf :: "xlMeta option list \<Rightarrow> contentId \<Rightarrow> xlMeta option" where
  "sampleOf metas h =
     (case filter (\<lambda>m. map_option contentHash m = Some h) metas of [] \<Rightarrow> None | ms \<Rightarrow> last ms)"

definition decideStep ::
  "xlMeta option list \<Rightarrow> contentId \<Rightarrow> contentId option \<times> nat \<Rightarrow> contentId option \<times> nat" where
  "decideStep metas h b =
     (case b of (best, bestN) \<Rightarrow>
        (let c = votes metas h in
         if c > bestN then (Some h, c)
         else case best of
           None \<Rightarrow> (best, bestN)
         | Some b' \<Rightarrow>
             (case (sampleOf metas h, sampleOf metas b') of
                (Some mh, Some mb) \<Rightarrow> if c = bestN \<and> Revision mh > Revision mb then (Some h, bestN) else (best, bestN)
              | _ \<Rightarrow> (best, bestN))))"

definition hashesOf :: "xlMeta option list \<Rightarrow> contentId list" where
  "hashesOf metas = remdups (map contentHash (map the (filter (\<lambda>m. m \<noteq> None) metas)))"

definition decide :: "senv \<Rightarrow> xlMeta option list \<Rightarrow> xlMeta option \<times> nat \<times> nat" where
  "decide env metas =
     (case fold (decideStep metas) (mapOrder env (hashesOf metas)) (None, 0) of
        (best, bestN) \<Rightarrow>
          ((case best of None \<Rightarrow> None | Some h \<Rightarrow> sampleOf metas h), bestN, present metas))"

definition readMeta :: "senv \<Rightarrow> string \<Rightarrow> string \<Rightarrow> eset \<Rightarrow> (setErr + xlMeta) \<times> eset" where
  "readMeta env bucket key s =
     (let q = readQuorum s; n = setN s;
          r1 = map (readMetaOf bucket key) (take q (disks s));
          metas1 = map fst r1 @ replicate (n - q) None;
          s1 = s\<lparr>disks := map snd r1 @ drop q (disks s)\<rparr>
      in case decide env metas1 of (m, bestN, _) \<Rightarrow>
           (if bestN \<ge> q \<and> m \<noteq> None then (Inr (the m), s1)
            else
              (let r2 = map (readMetaOf bucket key) (drop q (disks s));
                   metas2 = map fst r1 @ map fst r2;
                   s2 = s\<lparr>disks := map snd r1 @ map snd r2\<rparr>
               in case decide env metas2 of (m2, bestN2, have2) \<Rightarrow>
                    (if bestN2 \<ge> q \<and> m2 \<noteq> None then (Inr (the m2), s2)
                     else if have2 = 0 then (Inl (EDisk ErrFileNotFound), s2)
                     else (Inl ECorrupt, s2)))))"

subsection \<open>Commit\<close>

definition cleanupStaging :: "string \<Rightarrow> eset \<Rightarrow> eset" where
  "cleanupStaging staging s = snd (forEachDisk (Delete [] staging True) s)"

text \<open>
  \<open>commitMeta\<close>; \<open>expectRev\<close> is -1 for an unfenced write. A revision is a \<open>uint64\<close> and wraps.
\<close>

definition commitMeta ::
  "senv \<Rightarrow> string \<Rightarrow> string \<Rightarrow> string \<Rightarrow> xlMeta \<Rightarrow> int \<Rightarrow> eset \<Rightarrow> (setErr + xlMeta) \<times> eset" where
  "commitMeta env staging bucket key meta expectRev s0 =
     (case readMeta env bucket key s0 of (prev, s) \<Rightarrow>
        (let curRev = (case prev of Inr pm \<Rightarrow> Revision pm | Inl _ \<Rightarrow> 0) in
         if expectRev \<ge> 0 \<and> curRev \<noteq> word_of_int expectRev then (Inl EWriteConflict, s)
         else
           (let meta1 = meta\<lparr>Revision := curRev + 1\<rparr>; mb = marshal meta1 in
            case forEachDisk (WriteAll [] (pjoin staging metaFile) mb) s of (metaErrs, s1) \<Rightarrow>
              (if okCount metaErrs < writeQuorum s then (Inl EWriteQuorum, s1)
               else case forEachDisk (RenameDir [] staging bucket key) s1 of (commitErrs, s2) \<Rightarrow>
                 (let committed = okCount commitErrs in
                  if committed < writeQuorum s then
                    (Inl EWriteQuorum, snd (forEachDisk (Delete bucket key True) s2))
                  else if committed < setN s \<and> hasMrf s \<and> bucket \<noteq> [] then
                    (Inr meta1, callMrf bucket key s2)
                  else (Inr meta1, s2))))))"

subsection \<open>Encoding a part\<close>

text \<open>
  A reader is the bytes it yields and whether it then fails. When the code aborts (the reader
  failed, or a disk's pipe was closed by a failing \<open>CreateFile\<close>), every other disk's
  \<open>CreateFile\<close> sees the error and removes its file.
\<close>

record reader =
  rdata :: bytes
  rfails :: bool

definition CreateFileAborted :: "string \<Rightarrow> string \<Rightarrow> disk \<Rightarrow> (diskErr + unit) \<times> disk" where
  "CreateFileAborted bucket object d =
     (case nextFault d of (ft, d1) \<Rightarrow>
        if ft = FailsBefore then (Inl ErrDiskIO, d1)
        else case writeFile (dpath bucket object) (Raw []) (dfs d1) of
          None \<Rightarrow> (Inl ErrDiskIO, d1)
        | Some f' \<Rightarrow> (Inl ErrUnexpectedEOF, d1\<lparr>dfs := removeAll (dpath bucket object) f'\<rparr>))"

definition shardOfDisk :: "nat list \<Rightarrow> nat \<Rightarrow> nat" where
  "shardOfDisk dist di = nat (indexFrom 0 di dist)"

definition encodeStripes :: "erasure \<Rightarrow> bytes \<Rightarrow> bytes list list option" where
  "encodeStripes e d = those (map (EncodeData e) (stripesOf (stripeInputSize e) d))"

definition encodePart ::
  "senv \<Rightarrow> string \<Rightarrow> nat \<Rightarrow> nat list \<Rightarrow> reader \<Rightarrow> eset \<Rightarrow> (setErr + (string \<times> nat \<times> bool)) \<times> eset" where
  "encodePart env staging partNum dist r s =
     (let obj = pjoin staging (partFile partNum); n = setN s in
      case encodeStripes (ec s) (rdata r) of
        None \<Rightarrow> (Inl EReader, snd (forEachDisk (CreateFileAborted [] obj) s))
      | Some shardss \<Rightarrow>
          (let rs = map (\<lambda>i. CreateFile [] obj (-1) (shardFile (bitrotRaw env) shardss (shardOfDisk dist i)) (disks s ! i)) [0..<n];
               errs = map fst rs;
               failed = list_ex (\<lambda>e. case e of Inl _ \<Rightarrow> True | Inr _ \<Rightarrow> False) errs
           in if rfails r then (Inl EReader, snd (forEachDisk (CreateFileAborted [] obj) s))
              else if failed \<and> shardss \<noteq> [] then
                (Inl (EDisk ErrDiskIO), snd (forEachDisk (CreateFileAborted [] obj) s))
              else
                (let writeOK = okCount errs; s1 = s\<lparr>disks := map snd rs\<rparr>
                 in if writeOK < writeQuorum s then (Inl EWriteQuorum, s1)
                    else (Inr (md5Hex env (rdata r), length (rdata r), writeOK = n), s1))))"

subsection \<open>Compression and content-addressed blobs\<close>

definition alreadyCompressed :: "string list" where
  "alreadyCompressed =
     [''image/jpeg'', ''image/png'', ''image/gif'', ''image/webp'', ''image/avif'', ''video/'', ''audio/'',
      ''application/zip'', ''application/gzip'', ''application/x-gzip'', ''application/x-7z-compressed'',
      ''application/x-rar-compressed'', ''application/x-bzip2'', ''application/x-xz'', ''application/zstd'',
      ''application/x-compressed'', ''application/octet-stream'']"

definition shouldCompress :: "senv \<Rightarrow> bool \<Rightarrow> bool \<Rightarrow> string \<Rightarrow> int \<Rightarrow> bool" where
  "shouldCompress env want sse contentType sz =
     (if \<not> want \<or> compressDisabled env \<or> sse then False
      else if sz \<ge> 0 \<and> sz < 512 then False
      else \<not> list_ex (\<lambda>p. hasPrefix (toLower (trimSpaceS contentType)) p) alreadyCompressed)"

definition casJson :: "string \<Rightarrow> string" where
  "casJson h = pjoin (casDir h) ''cas.json''"

fun casCount :: "string \<Rightarrow> disk list \<Rightarrow> nat \<times> disk list" where
  "casCount h [] = (0, [])"
| "casCount h (d # ds) =
     (case IsOnline d of (onl, d1) \<Rightarrow>
        (case (if onl then ReadAll [] (casJson h) d1 else (Inl ErrDiskIO, d1)) of (r, d2) \<Rightarrow>
           (case casCount h ds of (c, ds') \<Rightarrow>
              ((case r of Inr _ \<Rightarrow> Suc c | Inl _ \<Rightarrow> c), d2 # ds'))))"

definition casExists :: "string \<Rightarrow> eset \<Rightarrow> bool \<times> eset" where
  "casExists h s = (case casCount h (disks s) of (ok, ds) \<Rightarrow> (ok \<ge> readQuorum s, s\<lparr>disks := ds\<rparr>))"

definition installCAS :: "string \<Rightarrow> string \<Rightarrow> nat \<Rightarrow> nat \<Rightarrow> time \<Rightarrow> eset \<Rightarrow> bool \<times> eset" where
  "installCAS staging h sz parts now s =
     (let mk = CasDoc \<lparr>CSize = sz, CParts = parts, InstalledAt = now\<rparr>;
          s1 = snd (forEachDisk (WriteAll [] (pjoin staging ''cas.json'') mk) s)
      in case forEachDisk (RenameDir [] staging [] (casDir h)) s1 of (errs, s2) \<Rightarrow>
           (if okCount errs < writeQuorum s then (False, snd (forEachDisk (Delete [] (casDir h) True) s2))
            else (True, s2)))"

subsection \<open>Object write\<close>

record partSource =
  psNumber :: nat
  psSize :: int
  psReader :: reader

record userMeta =
  umContentType :: string
  umContentEnc :: string
  umUser :: "string gomap"
  umTags :: string
  umCompress :: bool

text \<open>\<open>sseParams\<close>: the sealing of the whole stream, and what the metadata records of the key.\<close>

record sseParams =
  spSeal :: "bytes \<Rightarrow> bytes"
  spEncDEK :: string
  spPrefix :: bytes

definition sealReader :: "sseParams option \<Rightarrow> reader \<Rightarrow> reader" where
  "sealReader sp r = (case sp of None \<Rightarrow> r | Some p \<Rightarrow> r\<lparr>rdata := spSeal p (rdata r)\<rparr>)"

definition sseFields :: "sseParams option \<Rightarrow> nat \<Rightarrow> xlMeta \<Rightarrow> xlMeta" where
  "sseFields sp plainLen m =
     (case sp of None \<Rightarrow> m
      | Some p \<Rightarrow> m\<lparr>SSE := ''AES256'', PlainSize := plainLen, EncDEK := spEncDEK p,
                    NoncePrefix := hexEncode (spPrefix p)\<rparr>)"

text \<open>
  \<open>putObjectInline\<close>: the part is read into \<open>Inline\<close>. The two reads of the source return the
  whole reader, whether or not it was longer than declared.
\<close>

definition putObjectInline ::
  "senv \<Rightarrow> string \<Rightarrow> string \<Rightarrow> string \<Rightarrow> xlMeta \<Rightarrow> partSource \<Rightarrow> sseParams option \<Rightarrow> eset \<Rightarrow> (setErr + xlMeta) \<times> eset" where
  "putObjectInline env staging bucket key meta ps sp s =
     (let plain = psReader ps; r = sealReader sp plain in
      if rfails r then (Inl EReader, s)
      else
        (let buf = rdata r;
             partETag = (if sp = None then md5Hex env buf else md5Hex env (rdata plain));
             meta1 = meta\<lparr>MSize := length buf, ETag := partETag, Inline := Some buf,
                          Parts := [\<lparr>Number = psNumber ps, PSize = length buf, ActualSize = length buf,
                                     PETag = partETag, Bitrot = [], Checksums = []\<rparr>]\<rparr>
         in commitMeta env staging bucket key (sseFields sp (length (rdata plain)) meta1) (-1) s))"

text \<open>The loop over the parts: the metadata of the parts, the md5 digests, the total, and whether a disk missed a shard.\<close>

record partAcc =
  paParts :: "partMeta list"
  paMD5 :: bytes
  paTotal :: nat
  paPartial :: bool

definition partReader :: "senv \<Rightarrow> bool \<Rightarrow> sseParams option \<Rightarrow> reader \<Rightarrow> reader" where
  "partReader env compress sp r =
     sealReader sp (if compress then r\<lparr>rdata := zstdC env (rdata r)\<rparr> else r)"

fun encodeParts ::
  "senv \<Rightarrow> string \<Rightarrow> nat list \<Rightarrow> bool \<Rightarrow> sseParams option \<Rightarrow> partSource list \<Rightarrow> partAcc \<Rightarrow> eset
     \<Rightarrow> (setErr + partAcc) \<times> eset" where
  "encodeParts env staging dist compress sp [] acc s = (Inr acc, s)"
| "encodeParts env staging dist compress sp (ps # pss) acc s =
     (case encodePart env staging (psNumber ps) dist (partReader env compress sp (psReader ps)) s of
        (Inl e, s1) \<Rightarrow> (Inl e, s1)
      | (Inr (ctMD5, written, full), s1) \<Rightarrow>
          (let partETag = (if sp = None then ctMD5 else md5Hex env (rdata (psReader ps)));
               raw = (case hexDecode partETag of Some b \<Rightarrow> b | None \<Rightarrow> [])
           in encodeParts env staging dist compress sp pss
                \<lparr>paParts = paParts acc @ [\<lparr>Number = psNumber ps, PSize = written, ActualSize = written,
                     PETag = partETag, Bitrot = ''highwayhash256-stream'', Checksums = []\<rparr>],
                 paMD5 = paMD5 acc @ raw, paTotal = paTotal acc + written,
                 paPartial = (paPartial acc \<or> \<not> full)\<rparr> s1))"

definition baseMeta :: "time \<Rightarrow> nat list \<Rightarrow> userMeta \<Rightarrow> eset \<Rightarrow> xlMeta" where
  "baseMeta now dist um s =
     \<lparr>MVersion = xlMetaVersion,
      Erasure = \<lparr>EAlgorithm = ''reedsolomon'', DataBlocks = dataBlocks (ec s), ParityBlocks = parityBlocks (ec s),
                 BlockSize = blockSize (ec s), Distribution = dist, ChecksumAlgo = ''highwayhash256''\<rparr>,
      Revision = 0, DataRef = [], Tier = [], TierKey = [], MSize = 0, ModTime = now, ETag = [],
      VersionID = [], LockMode = [], RetainUntil = 0, LegalHold = False, ContentType = umContentType um,
      ContentEnc = umContentEnc um, UserMeta = umUser um, UserTags = umTags um, Parts = [], Inline = None,
      Compressed = [], SSE = [], PlainSize = 0, EncDEK = [], NoncePrefix = []\<rparr>"

definition setPartETag :: "string \<Rightarrow> partMeta list \<Rightarrow> partMeta list" where
  "setPartETag et ps = (case ps of [] \<Rightarrow> [] | p # r \<Rightarrow> p\<lparr>PETag := et\<rparr> # r)"

text \<open>The metadata of the finished parts, before dedup and commit.\<close>

definition finishMeta ::
  "senv \<Rightarrow> bool \<Rightarrow> sseParams option \<Rightarrow> partSource list \<Rightarrow> partAcc \<Rightarrow> xlMeta \<Rightarrow> xlMeta" where
  "finishMeta env compress sp parts acc meta =
     (let m1 = meta\<lparr>Parts := paParts acc, MSize := paTotal acc,
                    ETag := (if length parts = 1 then PETag (paParts acc ! 0)
                             else md5Hex env (paMD5 acc) @ ''-'' @ itoaNat (length parts))\<rparr>;
          plain = rdata (psReader (parts ! 0));
          m2 = (if compress then m1\<lparr>Compressed := ''zstd'', PlainSize := length plain, ETag := md5Hex env plain,
                                    Parts := setPartETag (md5Hex env plain) (Parts m1)\<rparr>
                else m1)
      in sseFields sp (length plain) m2)"

definition putStaged ::
  "senv \<Rightarrow> string \<Rightarrow> string \<Rightarrow> time \<Rightarrow> string \<Rightarrow> string \<Rightarrow> partSource list \<Rightarrow> userMeta \<Rightarrow> sseParams option \<Rightarrow> bool \<Rightarrow> eset
     \<Rightarrow> (setErr + xlMeta) \<times> eset" where
  "putStaged env staging staging2 now bucket key parts um sp dedup0 s =
     (let compress = (length parts = 1 \<and> sp = None
                      \<and> shouldCompress env (umCompress um) False (umContentType um) (psSize (parts ! 0)));
          dedup = (dedup0 \<and> dedupEnabled env \<and> sp = None \<and> \<not> compress);
          dist = (if dedup then identityDist (setN s) else buildDistribution key (setN s));
          meta = baseMeta now dist um s
      in if length parts = 1 \<and> inlineMaxBytes env > 0 \<and> psSize (parts ! 0) \<ge> 0
            \<and> psSize (parts ! 0) \<le> inlineMaxBytes env
         then putObjectInline env staging bucket key meta (parts ! 0) sp s
         else case encodeParts env staging dist compress sp parts
                     \<lparr>paParts = [], paMD5 = [], paTotal = 0, paPartial = False\<rparr> s of
           (Inl e, s1) \<Rightarrow> (Inl e, s1)
         | (Inr acc, s1) \<Rightarrow>
             (let meta1 = finishMeta env compress sp parts acc meta in
              if dedup then
                (let h = hexEncode (sha256RawE env (concat (map (\<lambda>p. rdata (psReader p)) parts))) in
                 case casExists h s1 of (ex, s2) \<Rightarrow>
                   (case (if ex then (True, cleanupStaging staging s2)
                          else installCAS staging h (paTotal acc) (length parts) now s2) of
                      (ok, s3) \<Rightarrow>
                        if \<not> ok then (Inl EWriteQuorum, s3)
                        else (case commitMeta env staging2 bucket key (meta1\<lparr>DataRef := h\<rparr>) (-1) s3 of
                                (r, s4) \<Rightarrow> (r, cleanupStaging staging2 s4))))
              else
                (case commitMeta env staging bucket key meta1 (-1) s1 of
                   (Inl e, s2) \<Rightarrow> (Inl e, s2)
                 | (Inr m, s2) \<Rightarrow>
                     (Inr m, if paPartial acc \<and> hasMrf s2 \<and> bucket \<noteq> [] then callMrf bucket key s2 else s2))))"

text \<open>
  \<open>putObjectSSE\<close>; \<open>id1\<close> and \<open>id2\<close> are the identifiers \<open>storage.NewID\<close> draws. The staging
  directory is removed on every path out of the function.
\<close>

definition putObjectSSE ::
  "senv \<Rightarrow> string \<Rightarrow> string \<Rightarrow> time \<Rightarrow> string \<Rightarrow> string \<Rightarrow> partSource list \<Rightarrow> userMeta \<Rightarrow> sseParams option \<Rightarrow> bool \<Rightarrow> eset
     \<Rightarrow> (setErr + xlMeta) \<times> eset" where
  "putObjectSSE env id1 id2 now bucket key parts um sp dedup s =
     (let staging = pjoin tmpPrefix id1; staging2 = pjoin tmpPrefix id2 in
      case putStaged env staging staging2 now bucket key parts um sp dedup s of
        (r, s') \<Rightarrow> (r, cleanupStaging staging s'))"

definition putObject ::
  "senv \<Rightarrow> string \<Rightarrow> string \<Rightarrow> time \<Rightarrow> string \<Rightarrow> string \<Rightarrow> partSource list \<Rightarrow> userMeta \<Rightarrow> bool \<Rightarrow> eset
     \<Rightarrow> (setErr + xlMeta) \<times> eset" where
  "putObject env id1 id2 now bucket key parts um dedup s =
     putObjectSSE env id1 id2 now bucket key parts um None dedup s"

subsection \<open>Object read\<close>

definition isMd5Hex :: "string \<Rightarrow> bool" where
  "isMd5Hex etag = (length etag = 32 \<and>
     list_all (\<lambda>c. (CHR ''0'' \<le> c \<and> c \<le> CHR ''9'') \<or> (CHR ''a'' \<le> c \<and> c \<le> CHR ''f'')) etag)"

definition verifiableETag :: "xlMeta \<Rightarrow> string \<Rightarrow> bool" where
  "verifiableETag m etag = (if SSE m \<noteq> [] \<or> Compressed m \<noteq> [] \<or> length etag \<noteq> 32 then False else isMd5Hex etag)"

definition openShards :: "string \<Rightarrow> string \<Rightarrow> nat \<Rightarrow> nat \<Rightarrow> eset \<Rightarrow> bytes option list \<times> eset" where
  "openShards bucket key partNum offset s =
     (case forEachDisk (ReadFileStream bucket (pjoin key (partFile partNum)) offset) s of
        (rs, s1) \<Rightarrow> (map (\<lambda>r. case r of Inr b \<Rightarrow> Some b | Inl _ \<Rightarrow> None) rs, s1))"

text \<open>
  One shard of one stripe: the reader of shard \<open>j\<close> (\<open>None\<close> once it failed), the block when it passes
  its bitrot check, and the reader afterwards. \<open>hdr\<close> is the length of the inline hash, 0 for legacy
  parts, whose hashes are in the metadata.
\<close>

definition readShard ::
  "senv \<Rightarrow> partMeta \<Rightarrow> nat \<Rightarrow> nat \<Rightarrow> nat \<Rightarrow> nat \<Rightarrow> bytes option \<Rightarrow> bytes option \<times> bytes option" where
  "readShard env pm hdr stripeIdx di thisShardLen rd =
     (case rd of
        None \<Rightarrow> (None, None)
      | Some b \<Rightarrow>
          if length b < hdr + thisShardLen then (None, None)
          else
            (let h = take hdr b; buf = take thisShardLen (drop hdr b); rest = drop (hdr + thisShardLen) b;
                 bad = (if hdr > 0 then h \<noteq> bitrotRaw env buf
                        else stripeIdx < length (Checksums pm) \<and> di < length (Checksums pm ! stripeIdx)
                             \<and> hexEncode (bitrotRaw env buf) \<noteq> Checksums pm ! stripeIdx ! di)
             in ((if bad then None else Some buf), Some rest)))"

record loopOut =
  loOut :: bytes
  loErr :: "setErr option"
  loRemaining :: nat
  loPartRemaining :: nat
  loDegraded :: bool

function stripeLoop ::
  "senv \<Rightarrow> erasure \<Rightarrow> nat \<Rightarrow> nat list \<Rightarrow> partMeta \<Rightarrow> nat \<Rightarrow> nat \<Rightarrow> nat \<Rightarrow> nat \<Rightarrow> nat \<Rightarrow> nat \<Rightarrow> bytes option list
     \<Rightarrow> bool \<Rightarrow> loopOut" where
  "stripeLoop env e k dist pm hdr stripeLen stripeIdx intraSkip partRemaining remaining rds degraded =
     (if partRemaining > 0 \<and> remaining > 0 \<and> stripeLen > 0 then
        (let thisStripeLogical = (if partRemaining < stripeLen then partRemaining else stripeLen);
             thisShardLen = ceilInt64 thisStripeLogical k;
             rs = map (\<lambda>j. readShard env pm hdr stripeIdx (dist ! j) thisShardLen (rds ! j)) [0..<length rds];
             shards = map fst rs;
             have' = present shards
         in if have' < k then
              \<lparr>loOut = [], loErr = Some EReadQuorum, loRemaining = remaining, loPartRemaining = partRemaining,
               loDegraded = degraded\<rparr>
            else case DecodeData e shards thisStripeLogical of
              None \<Rightarrow> \<lparr>loOut = [], loErr = Some EReadQuorum, loRemaining = remaining,
                       loPartRemaining = partRemaining, loDegraded = degraded\<rparr>
            | Some dat0 \<Rightarrow>
                (let dat1 = drop intraSkip dat0;
                     intraSkip' = intraSkip - length dat0;
                     dat = take remaining dat1;
                     r = stripeLoop env e k dist pm hdr stripeLen (Suc stripeIdx) intraSkip'
                           (partRemaining - thisStripeLogical) (remaining - length dat) (map snd rs)
                           (degraded \<or> have' < length rds)
                 in r\<lparr>loOut := dat @ loOut r\<rparr>))
      else \<lparr>loOut = [], loErr = None, loRemaining = remaining, loPartRemaining = partRemaining,
            loDegraded = degraded\<rparr>)"
  by pat_completeness auto
termination
  by (relation "measure (\<lambda>(env, e, k, dist, pm, hdr, stripeLen, stripeIdx, intraSkip, partRemaining, rest). partRemaining)") auto

declare stripeLoop.simps [simp del]

definition validDist :: "nat \<Rightarrow> nat list \<Rightarrow> bool" where
  "validDist n dist = (n \<le> length dist \<and> list_all (\<lambda>d. d < n) (take n dist))"

text \<open>
  \<open>readPart\<close>: what it wrote, the error, what remains to be read, and the set. A part whose metadata
  would make the code divide by zero or index out of range panics.
\<close>

definition readPart ::
  "senv \<Rightarrow> string \<Rightarrow> string \<Rightarrow> xlMeta \<Rightarrow> partMeta \<Rightarrow> nat \<Rightarrow> nat \<Rightarrow> eset \<Rightarrow> bytes \<times> setErr option \<times> nat \<times> eset" where
  "readPart env bucket key meta pm skip remaining s =
     (let em = Erasure meta; k = DataBlocks em; fullShard = BlockSize em; stripeLen = fullShard * k;
          dist = Distribution em; n = setN s in
      if stripeLen = 0 \<or> \<not> validDist n dist then ([], Some EPanic, remaining, s)
      else
        (let interleaved = (Bitrot pm = ''highwayhash256-stream'');
             hdr = (if interleaved then 32 else 0);
             stride = fullShard + hdr;
             firstStripe = skip div stripeLen;
             (dataBucket, dataKey) = dataLoc meta bucket key in
         case openShards dataBucket dataKey (Number pm) (firstStripe * stride) s of (streams, s1) \<Rightarrow>
           (let verify = (skip = 0 \<and> remaining \<ge> PSize pm \<and> verifiableETag meta (PETag pm));
                rds = map (\<lambda>j. streams ! (dist ! j)) [0..<n];
                r = stripeLoop env (ec s) k dist pm hdr stripeLen firstStripe (skip - firstStripe * stripeLen)
                      (PSize pm - firstStripe * stripeLen) remaining rds False
            in if loErr r \<noteq> None then (loOut r, loErr r, loRemaining r, s1)
               else if verify \<and> loPartRemaining r = 0 \<and> md5Hex env (loOut r) \<noteq> PETag pm
               then (loOut r, Some EObjectMismatch, loRemaining r, s1)
               else (loOut r, None, loRemaining r,
                     if loDegraded r \<and> hasMrf s \<and> bucket \<noteq> [] then callMrf bucket key s1 else s1))))"

fun readParts ::
  "senv \<Rightarrow> string \<Rightarrow> string \<Rightarrow> xlMeta \<Rightarrow> partMeta list \<Rightarrow> nat \<Rightarrow> nat \<Rightarrow> eset \<Rightarrow> bytes \<times> setErr option \<times> eset" where
  "readParts env bucket key meta [] skip remaining s = ([], None, s)"
| "readParts env bucket key meta (pm # pms) skip remaining s =
     (if remaining = 0 then ([], None, s)
      else if skip \<ge> PSize pm then readParts env bucket key meta pms (skip - PSize pm) remaining s
      else case readPart env bucket key meta pm skip remaining s of
        (out, Some e, remaining', s1) \<Rightarrow> (out, Some e, s1)
      | (out, None, remaining', s1) \<Rightarrow>
          (case readParts env bucket key meta pms 0 remaining' s1 of
             (out', e, s2) \<Rightarrow> (out @ out', e, s2)))"

definition getObjectMeta ::
  "senv \<Rightarrow> string \<Rightarrow> string \<Rightarrow> xlMeta \<Rightarrow> int \<Rightarrow> int \<Rightarrow> eset \<Rightarrow> bytes \<times> setErr option \<times> eset" where
  "getObjectMeta env bucket key meta off0 length0 s =
     (let off = (if off0 < 0 then 0 else off0);
          len = (if length0 < 0 \<or> off + length0 > int (MSize meta) then int (MSize meta) - off else length0)
      in if len \<le> 0 then ([], None, s)
         else case Inline meta of
           Some b \<Rightarrow>
             (let end = (if off + len > int (length b) then int (length b) else off + len) in
              if off \<ge> end then ([], None, s)
              else
                (let body = take (nat (end - off)) (drop (nat off) b) in
                 if off = 0 \<and> length body = MSize meta \<and> verifiableETag meta (ETag meta) \<and> md5Hex env body \<noteq> ETag meta
                 then ([], Some EObjectMismatch, s)
                 else (body, None, s)))
         | None \<Rightarrow> readParts env bucket key meta (Parts meta) (nat off) (nat len) s)"

definition getObject ::
  "senv \<Rightarrow> string \<Rightarrow> string \<Rightarrow> int \<Rightarrow> int \<Rightarrow> eset \<Rightarrow> bytes \<times> setErr option \<times> eset" where
  "getObject env bucket key off len s =
     (case readMeta env bucket key s of
        (Inl e, s1) \<Rightarrow> ([], Some e, s1)
      | (Inr meta, s1) \<Rightarrow> getObjectMeta env bucket key meta off len s1)"

definition statObject :: "senv \<Rightarrow> string \<Rightarrow> string \<Rightarrow> eset \<Rightarrow> (setErr + xlMeta) \<times> eset" where
  "statObject env bucket key s = readMeta env bucket key s"

definition deleteObject :: "string \<Rightarrow> string \<Rightarrow> eset \<Rightarrow> setErr option \<times> eset" where
  "deleteObject bucket key s =
     (case forEachDisk (Delete bucket key True) s of (errs, s1) \<Rightarrow>
        ((if okCount errs < writeQuorum s then Some EWriteQuorum else None), s1))"

end
