(* ===== verification/ErasureRead.thy ===== *)
theory ErasureRead
  imports ErasureSet
begin

text \<open>
  The read path of an erasure set is correct: majority metadata, and reconstruction of any byte
  range of a part from any read quorum of intact shards, with missing or detectably corrupt shards
  on the other disks.
\<close>

subsection \<open>Counting\<close>

lemma present_map_ge:
  assumes "\<And>j. j \<in> set js \<Longrightarrow> P j \<Longrightarrow> f j \<noteq> None"
  shows "length (filter P js) \<le> present (map f js)"
  using assms
proof (induction js)
  case (Cons a js)
  then have "length (filter P js) \<le> present (map f js)" by simp
  then show ?case using Cons.prems [of a] by (cases "f a") (auto simp: present_def)
qed (simp add: present_def)

subsection \<open>Streams of one shard\<close>

text \<open>
  \<open>harmless\<close>: reading a stream as the blocks of shard \<open>j\<close> of the given stripes never accepts a wrong
  block: at each stripe the stream is too short, its hash does not match, or the block is right.
  Intact streams are harmless, and so are streams with detectable bit rot.
\<close>

fun harmless :: "(bytes \<Rightarrow> bytes) \<Rightarrow> nat \<Rightarrow> bytes list list \<Rightarrow> bytes option \<Rightarrow> bool" where
  "harmless hf j [] st = True"
| "harmless hf j (sh # shs) st =
     (case st of None \<Rightarrow> True
      | Some b \<Rightarrow>
          if length b < 32 + length (sh ! j) then True
          else (take 32 b = hf (take (length (sh ! j)) (drop 32 b)) \<longrightarrow> take (length (sh ! j)) (drop 32 b) = sh ! j)
               \<and> harmless hf j shs (Some (drop (32 + length (sh ! j)) b)))"

declare harmless.simps(2) [simp del]

lemma harmless_None [simp]: "harmless hf j shs None"
  by (cases shs) (auto simp: harmless.simps)

lemma shardFile_simps [simp]:
  "shardFile hf [] j = []" "shardFile hf (sh # shs) j = hf (sh ! j) @ sh ! j @ shardFile hf shs j"
  by (simp_all add: shardFile_def)

lemma harmless_intact: "\<forall>b. length (hf b) = 32 \<Longrightarrow> harmless hf j shs (Some (shardFile hf shs j))"
  by (induction shs) (auto simp: harmless.simps)

subsection \<open>One part\<close>

definition shardsOf :: "erasure \<Rightarrow> bytes \<Rightarrow> bytes list list" where
  "shardsOf e d = map (\<lambda>st. the (EncodeData e st)) (stripesOf (stripeInputSize e) d)"

definition coding_ok :: "erasure \<Rightarrow> bool" where
  "coding_ok e \<longleftrightarrow> dataBlocks e > 0 \<and> blockSize e > 0 \<and> rs_ok (enc e) (dataBlocks e) (parityBlocks e)"

lemma stripeInput_pos: "coding_ok e \<Longrightarrow> stripeInputSize e > 0"
  by (simp add: coding_ok_def stripeInputSize_def)

lemma shardsOf_step:
  assumes "coding_ok e" "d \<noteq> []"
  shows "shardsOf e d = the (EncodeData e (take (stripeInputSize e) d)) # shardsOf e (drop (stripeInputSize e) d)"
  using assms stripeInput_pos [OF assms(1)] unfolding shardsOf_def by (subst stripesOf.simps) simp

lemma readShard_harmless:
  assumes "harmless (bitrotRaw env) j (sh # shs) st" "len = length (sh ! j)"
  shows "fst (readShard env pm 32 si di len st) \<in> {None, Some (sh ! j)}"
    and "harmless (bitrotRaw env) j shs (snd (readShard env pm 32 si di len st))"
  using assms by (auto simp: readShard_def harmless.simps Let_def split: option.splits if_splits)

lemma readShard_intact:
  assumes "\<forall>b. length (bitrotRaw env b) = 32" "len = length (sh ! j)"
  shows "readShard env pm 32 si di len (Some (shardFile (bitrotRaw env) (sh # shs) j))
           = (Some (sh ! j), Some (shardFile (bitrotRaw env) shs j))"
  using assms by (simp add: readShard_def Let_def)

lemma stripeLoop_ok:
  assumes ok: "coding_ok e" and hash: "\<forall>b. length (bitrotRaw env b) = 32"
    and n: "length rds = dataBlocks e + parityBlocks e"
    and harm: "\<forall>j < length rds. harmless (bitrotRaw env) j (shardsOf e d) (rds ! j)"
    and good: "dataBlocks e \<le> length (filter (\<lambda>j. rds ! j = Some (shardFile (bitrotRaw env) (shardsOf e d) j)) [0..<length rds])"
  shows "loErr (stripeLoop env e (dataBlocks e) dist pm 32 (stripeInputSize e) si iskip (length d) rem rds dg) = None
       \<and> loOut (stripeLoop env e (dataBlocks e) dist pm 32 (stripeInputSize e) si iskip (length d) rem rds dg)
           = take rem (drop iskip d)
       \<and> loRemaining (stripeLoop env e (dataBlocks e) dist pm 32 (stripeInputSize e) si iskip (length d) rem rds dg)
           = rem - length (take rem (drop iskip d))"
  using n harm good
proof (induction "stripeInputSize e" d arbitrary: si iskip rem rds dg rule: stripesOf.induct)
  case (1 d)
  let ?L = "stripeInputSize e" and ?k = "dataBlocks e" and ?hf = "bitrotRaw env"
  have L: "?L > 0" by (rule stripeInput_pos [OF ok])
  show ?case
  proof (cases "d = [] \<or> rem = 0")
    case True
    then show ?thesis by (subst (1 2 3) stripeLoop.simps) auto
  next
    case False
    then have ne: "d \<noteq> []" and r: "rem > 0" by auto
    let ?st = "take ?L d" and ?d' = "drop ?L d"
    have stne: "?st \<noteq> []" using ne L by auto
    obtain sh where sh: "EncodeData e ?st = Some sh" "length sh = ?k + parityBlocks e"
        "\<forall>s \<in> set sh. length s = ceilInt64 (length ?st) ?k"
        "\<forall>xs. partOf xs sh \<and> present xs \<ge> ?k \<longrightarrow> DecodeData e xs (length ?st) = Some ?st"
      using EncodeData_ok [of e ?st] stne ok unfolding coding_ok_def by blast
    let ?shs = "shardsOf e ?d'"
    have shd: "shardsOf e d = sh # ?shs" using shardsOf_step [OF ok ne] sh by simp
    let ?len = "ceilInt64 (length ?st) ?k"
    let ?rs = "map (\<lambda>j. readShard env pm 32 si (dist ! j) ?len (rds ! j)) [0..<length rds]"
    have lenj: "length (sh ! j) = ?len" if "j < length rds" for j
      using sh(2,3) that "1.prems"(1) by auto
    have rj: "fst (readShard env pm 32 si (dist ! j) ?len (rds ! j)) \<in> {None, Some (sh ! j)}"
      "harmless ?hf j ?shs (snd (readShard env pm 32 si (dist ! j) ?len (rds ! j)))" if "j < length rds" for j
      using readShard_harmless [of env j sh ?shs "rds ! j" ?len] "1.prems"(2) that lenj [OF that] shd by auto
    have ri: "readShard env pm 32 si (dist ! j) ?len (rds ! j) = (Some (sh ! j), Some (shardFile ?hf ?shs j))"
      if "j < length rds" "rds ! j = Some (shardFile ?hf (shardsOf e d) j)" for j
      using readShard_intact [OF hash lenj [OF that(1), symmetric]] that(2) shd by simp
    have po: "partOf (map fst ?rs) sh"
      unfolding partOf_def using rj(1) sh(2) "1.prems"(1) by simp
    have pres: "present (map fst ?rs) \<ge> ?k"
    proof -
      have "map fst ?rs = map (\<lambda>j. fst (readShard env pm 32 si (dist ! j) ?len (rds ! j))) [0..<length rds]" by simp
      moreover have "length (filter (\<lambda>j. rds ! j = Some (shardFile ?hf (shardsOf e d) j)) [0..<length rds])
          \<le> present (map (\<lambda>j. fst (readShard env pm 32 si (dist ! j) ?len (rds ! j))) [0..<length rds])"
        by (rule present_map_ge) (use ri in simp)
      ultimately show ?thesis using "1.prems"(3) by (metis (no_types, lifting) order_trans)
    qed
    have dec: "DecodeData e (map fst ?rs) (length ?st) = Some ?st" using sh(4) po pres by blast
    let ?rds' = "map snd ?rs"
    let ?dat = "take rem (drop iskip ?st)"
    have n': "length ?rds' = ?k + parityBlocks e" using "1.prems"(1) by simp
    have harm': "\<forall>j < length ?rds'. harmless ?hf j ?shs (?rds' ! j)"
      using rj(2) by simp
    have good': "?k \<le> length (filter (\<lambda>j. ?rds' ! j = Some (shardFile ?hf ?shs j)) [0..<length ?rds'])"
    proof -
      have "length (filter (\<lambda>j. rds ! j = Some (shardFile ?hf (shardsOf e d) j)) [0..<length rds])
          \<le> length (filter (\<lambda>j. ?rds' ! j = Some (shardFile ?hf ?shs j)) [0..<length rds])"
        by (rule length_filter_mono) (use ri in simp)
      then show ?thesis using "1.prems"(3) by simp
    qed
    let ?r = "stripeLoop env e ?k dist pm 32 ?L (Suc si) (iskip - length ?st) (length ?d') (rem - length ?dat) ?rds'
                (dg \<or> present (map fst ?rs) < length rds)"
    have lg: "(if length d < ?L then length d else ?L) = length ?st" by (simp add: min_def)
    have ld: "length d - length ?st = length ?d'" by (simp add: min_def)
    have step: "stripeLoop env e ?k dist pm 32 ?L si iskip (length d) rem rds dg = ?r\<lparr>loOut := ?dat @ loOut ?r\<rparr>"
      using ne r L pres dec
      by (subst stripeLoop.simps) (simp add: lg ld Let_def del: length_take length_drop)
    have ih: "loErr ?r = None \<and> loOut ?r = take (rem - length ?dat) (drop (iskip - length ?st) ?d')
        \<and> loRemaining ?r = rem - length ?dat - length (take (rem - length ?dat) (drop (iskip - length ?st) ?d'))"
      using "1.hyps" [OF _ n' harm' good'] ne L by simp
    have "?dat @ loOut ?r = take rem (drop iskip d)"
      using ih take_drop_split [of rem iskip ?st ?d'] by (simp del: length_take)
    then show ?thesis using ih by (auto simp: step simp del: length_take) (metis diff_diff_left length_append)
  qed
qed

lemma shardsOf_drop:
  assumes "coding_ok e" "f * stripeInputSize e \<le> length d"
  shows "shardsOf e (drop (f * stripeInputSize e) d) = drop f (shardsOf e d)"
  using assms(2)
proof (induction f arbitrary: d)
  case (Suc f)
  have L: "stripeInputSize e > 0" by (rule stripeInput_pos [OF assms(1)])
  then have ne: "d \<noteq> []" using Suc.prems by auto
  have "shardsOf e (drop (f * stripeInputSize e) (drop (stripeInputSize e) d)) = drop f (shardsOf e (drop (stripeInputSize e) d))"
    using Suc.prems by (intro Suc.IH) simp
  then show ?case by (simp add: shardsOf_step [OF assms(1) ne] add.commute)
qed simp

lemma shardFile_drop:
  assumes ok: "coding_ok e" and hash: "\<forall>b. length (bitrotRaw env b) = 32"
    and "f * stripeInputSize e \<le> length d" and j: "j < dataBlocks e + parityBlocks e"
  shows "drop (f * (blockSize e + 32)) (shardFile (bitrotRaw env) (shardsOf e d) j)
       = shardFile (bitrotRaw env) (shardsOf e (drop (f * stripeInputSize e) d)) j"
  using assms(3)
proof (induction f arbitrary: d)
  case (Suc f)
  let ?L = "stripeInputSize e"
  have L: "?L > 0" by (rule stripeInput_pos [OF ok])
  then have ne: "d \<noteq> []" and le: "?L \<le> length d" using Suc.prems by auto
  then have stne: "take ?L d \<noteq> []" using L by auto
  have "length (take ?L d) = blockSize e * dataBlocks e" using le by (simp add: stripeInputSize_def)
  then obtain sh where sh: "EncodeData e (take ?L d) = Some sh" "length sh = dataBlocks e + parityBlocks e"
      "\<forall>s \<in> set sh. length s = blockSize e"
    using EncodeData_ok [of e "take ?L d"] stne ok ceilInt64_mult unfolding coding_ok_def by metis
  have lj: "length (sh ! j) = blockSize e" using sh j by simp
  have ih: "drop (f * (blockSize e + 32)) (shardFile (bitrotRaw env) (shardsOf e (drop ?L d)) j)
       = shardFile (bitrotRaw env) (shardsOf e (drop (f * ?L) (drop ?L d))) j"
    using Suc.prems by (intro Suc.IH) simp
  have d1: "drop (Suc f * (blockSize e + 32)) x = drop (f * (blockSize e + 32)) (drop (32 + blockSize e) x)"
    for x :: bytes by (simp add: add.commute add.left_commute)
  have d2: "drop (Suc f * ?L) d = drop (f * ?L) (drop ?L d)" by (simp add: add.commute)
  have "drop (32 + blockSize e) (shardFile (bitrotRaw env) (shardsOf e d) j)
      = shardFile (bitrotRaw env) (shardsOf e (drop ?L d)) j"
    using lj hash sh by (simp add: shardsOf_step [OF ok ne])
  then show ?case unfolding d1 d2 using ih by simp
qed simp

subsection \<open>Working and failed disks\<close>

definition up :: "disk \<Rightarrow> bool" where "up d \<longleftrightarrow> (\<forall>i. dfaults d i = Works)"
definition down :: "disk \<Rightarrow> bool" where "down d \<longleftrightarrow> (\<forall>i. dfaults d i \<noteq> Works)"

definition steady :: "disk \<Rightarrow> bool" where "steady d \<longleftrightarrow> up d \<or> down d"

text \<open>What a disk shows to a reader.\<close>

definition shown :: "disk \<Rightarrow> path \<Rightarrow> content option" where
  "shown d p = (if up d then (case at d p of Some (File c) \<Rightarrow> Some c | _ \<Rightarrow> None) else None)"

lemma same_disk_shown: "dfs d' = dfs d \<Longrightarrow> dfaults d' = dfaults d \<Longrightarrow> shown d' p = shown d p \<and> (steady d' \<longleftrightarrow> steady d)"
  by (simp add: shown_def up_def down_def steady_def)

definition same_store :: "eset \<Rightarrow> eset \<Rightarrow> bool" where
  "same_store s s' \<longleftrightarrow> map dfs (disks s') = map dfs (disks s) \<and> map dfaults (disks s') = map dfaults (disks s)
     \<and> ec s' = ec s \<and> hasMrf s' = hasMrf s"

lemma same_store_refl [simp]: "same_store s s"
  by (simp add: same_store_def)

lemma same_store_trans: "same_store a b \<Longrightarrow> same_store b c \<Longrightarrow> same_store a c"
  by (simp add: same_store_def)

lemma same_store_length: "same_store s s' \<Longrightarrow> length (disks s') = length (disks s)"
  unfolding same_store_def by (metis length_map)

lemma same_store_nth:
  assumes "same_store s s'" "i < length (disks s)"
  shows "dfs (disks s' ! i) = dfs (disks s ! i)" "dfaults (disks s' ! i) = dfaults (disks s ! i)"
  using assms same_store_length [OF assms(1)] unfolding same_store_def by (metis nth_map)+

lemma same_store_view:
  assumes "same_store s s'" "i < length (disks s)"
  shows "up (disks s' ! i) = up (disks s ! i)" "steady (disks s' ! i) = steady (disks s ! i)"
    "shown (disks s' ! i) p = shown (disks s ! i) p"
  using same_store_nth [OF assms] by (auto simp: up_def down_def steady_def shown_def)

lemma ReadAll_shown: "steady d \<Longrightarrow> fst (ReadAll b ob d) = Inr c \<longleftrightarrow> shown d (dpath b ob) = Some c"
  by (auto simp: steady_def up_def down_def shown_def ReadAll_def sched_def split: option.splits node.splits)

lemma ReadAll_keeps: "dfs (snd (ReadAll b ob d)) = dfs d" "dfaults (snd (ReadAll b ob d)) = dfaults d"
  by (auto simp: ReadAll_def split: option.splits node.splits)

lemma ReadFileStream_shown:
  "steady d \<Longrightarrow> fst (ReadFileStream b ob off d) = Inr x \<longleftrightarrow>
     (\<exists>f. shown d (dpath b ob) = Some (Raw f) \<and> x = drop off f)"
  by (auto simp: steady_def up_def down_def shown_def ReadFileStream_def sched_def split: option.splits node.splits content.splits)

lemma ReadFileStream_keeps:
  "dfs (snd (ReadFileStream b ob off d)) = dfs d" "dfaults (snd (ReadFileStream b ob off d)) = dfaults d"
  by (auto simp: ReadFileStream_def split: option.splits node.splits content.splits)

subsection \<open>Majority metadata\<close>

definition metaSeen :: "string \<Rightarrow> string \<Rightarrow> disk \<Rightarrow> xlMeta option" where
  "metaSeen b key d = Option.bind (shown d (dpath b (pjoin key metaFile))) unmarshalXLMeta"

lemma readMetaOf_seen: "steady d \<Longrightarrow> fst (readMetaOf b key d) = metaSeen b key d"
  using ReadAll_shown [of d b "pjoin key metaFile"]
  by (cases "ReadAll b (pjoin key metaFile) d"; cases "shown d (dpath b (pjoin key metaFile))")
    (auto simp: readMetaOf_def metaSeen_def split: sum.splits)

lemma readMetaOf_keeps: "dfs (snd (readMetaOf b key d)) = dfs d" "dfaults (snd (readMetaOf b key d)) = dfaults d"
  using ReadAll_keeps [of b "pjoin key metaFile" d]
  by (cases "ReadAll b (pjoin key metaFile) d"; auto simp: readMetaOf_def simp del: ReadAll_state split: sum.splits)+

lemma fold_decideStep:
  assumes "fold (decideStep metas) hs (b0, n0) = (b1, n1)"
    and "case b0 of None \<Rightarrow> n0 = 0 | Some h \<Rightarrow> votes metas h = n0"
  shows "(case b1 of None \<Rightarrow> n1 = 0 | Some h \<Rightarrow> votes metas h = n1) \<and> n0 \<le> n1 \<and> (\<forall>h \<in> set hs. votes metas h \<le> n1)"
  using assms
proof (induction hs arbitrary: b0 n0)
  case (Cons h hs)
  obtain b2 n2 where st: "decideStep metas h (b0, n0) = (b2, n2)" by fastforce
  have inv: "case b2 of None \<Rightarrow> n2 = 0 | Some h \<Rightarrow> votes metas h = n2"
    and mono: "n0 \<le> n2" "votes metas h \<le> n2"
    using st Cons.prems(2) by (auto simp: decideStep_def Let_def split: if_splits option.splits)
  show ?case using Cons.IH [of b2 n2] Cons.prems(1) st inv mono by auto
qed simp

lemma votes_in_hashes: "votes metas h > 0 \<Longrightarrow> h \<in> set (hashesOf metas)"
  unfolding votes_def hashesOf_def by (induction metas) (auto split: if_splits)

definition order_ok :: "senv \<Rightarrow> bool" where
  "order_ok env \<longleftrightarrow> (\<forall>hs. set (mapOrder env hs) = set hs)"

lemma decide_bound:
  assumes "order_ok env" "decide env metas = (m, bestN, hv)"
  shows "votes metas h \<le> bestN" and "bestN > 0 \<Longrightarrow> \<exists>h. votes metas h = bestN \<and> m = sampleOf metas h"
proof -
  obtain b n where f: "fold (decideStep metas) (mapOrder env (hashesOf metas)) (None, 0) = (b, n)" by fastforce
  have r: "m = (case b of None \<Rightarrow> None | Some h \<Rightarrow> sampleOf metas h)" "bestN = n"
    using assms(2) f by (auto simp: decide_def)
  have inv: "(case b of None \<Rightarrow> n = 0 | Some h \<Rightarrow> votes metas h = n) \<and> (\<forall>h \<in> set (hashesOf metas). votes metas h \<le> n)"
    using fold_decideStep [OF f] assms(1) by (simp add: order_ok_def)
  show "votes metas h \<le> bestN" using inv r votes_in_hashes [of metas h] by (cases "votes metas h") auto
  show "bestN > 0 \<Longrightarrow> \<exists>h. votes metas h = bestN \<and> m = sampleOf metas h"
    using inv r by (cases b) auto
qed

definition elected :: "nat \<Rightarrow> xlMeta option list \<Rightarrow> xlMeta \<Rightarrow> bool" where
  "elected q metas m \<longleftrightarrow> q \<le> votes metas (contentHash m) \<and> (\<forall>h. h \<noteq> contentHash m \<longrightarrow> votes metas h < q)
     \<and> (\<forall>m'. Some m' \<in> set metas \<and> contentHash m' = contentHash m \<longrightarrow> m' = m)"

lemma sampleOf_elected:
  assumes "\<forall>m'. Some m' \<in> set metas \<and> contentHash m' = contentHash m \<longrightarrow> m' = m" "votes metas (contentHash m) > 0"
  shows "sampleOf metas (contentHash m) = Some m"
proof -
  let ?f = "filter (\<lambda>x. map_option contentHash x = Some (contentHash m)) metas"
  have ne: "?f \<noteq> []" using assms(2) by (auto simp: votes_def)
  then have "last ?f \<in> set ?f" by (rule last_in_set)
  then have "last ?f = Some m" using assms(1) by auto
  then show ?thesis using ne unfolding sampleOf_def by (cases ?f) simp_all
qed

lemma votes_mono: "votes (xs @ replicate k None) h \<le> votes (xs @ ys) h"
  by (simp add: votes_def)

lemma readMeta_elected:
  assumes ord: "order_ok env" and q: "readQuorum s > 0" "readQuorum s \<le> length (disks s)"
    and el: "elected (readQuorum s) (map (\<lambda>d. fst (readMetaOf b key d)) (disks s)) m"
  shows "fst (readMeta env b key s) = Inr m"
proof -
  let ?q = "readQuorum s"
  define f where "f d = fst (readMetaOf b key d)" for d
  let ?m1 = "map f (take ?q (disks s)) @ replicate (setN s - ?q) None"
  let ?m2 = "map f (take ?q (disks s)) @ map f (drop ?q (disks s))"
  have all: "?m2 = map f (disks s)" by (metis append_take_drop_id map_append)
  have el2: "elected ?q ?m2 m" using el unfolding all f_def .
  have win: "mm = Some m" if dc: "decide env ms = (mm, bn, hv)" and bn: "bn \<ge> ?q"
      and sub: "\<forall>h. votes ms h \<le> votes ?m2 h" "\<forall>x. Some x \<in> set ms \<longrightarrow> Some x \<in> set ?m2" for ms mm bn hv
  proof -
    have "bn > 0" using bn q by simp
    then obtain h where h: "votes ms h = bn" "mm = sampleOf ms h" using decide_bound(2) [OF ord dc] by blast
    then have "votes ?m2 h \<ge> ?q" using sub(1) bn by (metis order_trans)
    then have "h = contentHash m" using el2 unfolding elected_def by (metis not_le)
    then show ?thesis
      using h sampleOf_elected [of ms m] el2 sub(2) \<open>bn > 0\<close> unfolding elected_def by auto
  qed
  obtain m1 n1 h1 where d1: "decide env ?m1 = (m1, n1, h1)" by (metis prod_cases3)
  obtain m2 n2 h2 where d2: "decide env ?m2 = (m2, n2, h2)" by (metis prod_cases3)
  have w1: "n1 \<ge> ?q \<Longrightarrow> m1 = Some m" using win [OF d1] votes_mono by auto
  have "n2 \<ge> ?q" using decide_bound(1) [OF ord d2, of "contentHash m"] el2 unfolding elected_def by simp
  then have w2: "n2 \<ge> ?q \<and> m2 = Some m" using win [OF d2] by auto
  show ?thesis
    using w1 w2 d1 d2 unfolding readMeta_def Let_def f_def by (auto simp: o_def)
qed

lemma readMeta_keeps: "same_store s (snd (readMeta env b key s))"
  unfolding readMeta_def Let_def same_store_def
  by (auto simp: o_def readMetaOf_keeps split: prod.splits) (simp_all flip: map_append)

end
