(* ===== verification/ErasureGet.thy ===== *)
theory ErasureGet
  imports ErasureRead
begin

text \<open>
  Reading an object back: any byte range of an object of any number of parts, when a read quorum of
  the disks holds it intact and the other disks are down, empty, or detectably damaged.
\<close>

subsection \<open>Paths of an object's files\<close>

lemma itoaNat_digits: "c \<in> set (itoaNat n) \<Longrightarrow> c \<in> set ''0123456789''"
proof (induction n rule: itoaNat.induct)
  case (1 n)
  have d: "m < 10 \<Longrightarrow> ''0123456789'' ! m \<in> set ''0123456789''" for m by (rule nth_mem) simp
  show ?case
  proof (cases "n < 10")
    case True
    then have "c = ''0123456789'' ! n" using 1(2) by (simp add: itoaNat.simps [of n])
    then show ?thesis using d [OF True] by simp
  next
    case False
    then have "c \<in> set (itoaNat (n div 10)) \<or> c = ''0123456789'' ! (n mod 10)"
      using 1(2) by (auto simp: itoaNat.simps [of n])
    then show ?thesis using 1(1) [OF False] d [of "n mod 10"] by auto
  qed
qed

lemma plain_metaFile: "plainName metaFile"
  by code_simp

lemma plain_partFile: "plainName (partFile n)"
  using itoaNat_digits [of "CHR ''/''" n] by (auto simp: plainName_def partFile_def pad5_def)

lemma dpath_meta [simp]: "dpath b (pjoin key metaFile) = dpath b key @ [metaFile]"
  by (rule dpath_child [OF plain_metaFile])

lemma dpath_part [simp]: "dpath b (pjoin key (partFile n)) = dpath b key @ [partFile n]"
  by (rule dpath_child [OF plain_partFile])

subsection \<open>Opening the shards\<close>

definition streamOf :: "content option \<Rightarrow> bytes option" where
  "streamOf c = (case c of Some (Raw b) \<Rightarrow> Some b | _ \<Rightarrow> None)"

lemma openShards_streams:
  assumes "\<forall>d \<in> set (disks s). steady d"
  shows "fst (openShards b key pn off s) =
     map (\<lambda>d. map_option (drop off) (streamOf (shown d (dpath b key @ [partFile pn])))) (disks s)"
proof -
  have "(case fst (ReadFileStream b (pjoin key (partFile pn)) off d) of Inr x \<Rightarrow> Some x | Inl _ \<Rightarrow> None)
      = map_option (drop off) (streamOf (shown d (dpath b key @ [partFile pn])))" if "steady d" for d
  proof (cases "fst (ReadFileStream b (pjoin key (partFile pn)) off d)")
    case (Inl e)
    then have "shown d (dpath b key @ [partFile pn]) \<noteq> Some (Raw f)" for f
      using ReadFileStream_shown [OF that, of b "pjoin key (partFile pn)" off "drop off f"] by auto
    then show ?thesis using Inl by (auto simp: streamOf_def split: option.splits content.splits)
  next
    case (Inr x)
    then show ?thesis
      using ReadFileStream_shown [OF that, of b "pjoin key (partFile pn)" off x] by (auto simp: streamOf_def)
  qed
  then show ?thesis using assms by (simp add: openShards_def forEachDisk_def Let_def)
qed

lemma openShards_keeps: "same_store s (snd (openShards b key pn off s))"
  by (auto simp: openShards_def forEachDisk_def Let_def same_store_def ReadFileStream_keeps)

subsection \<open>What is stored\<close>

definition partPath :: "string \<Rightarrow> string \<Rightarrow> partMeta \<Rightarrow> path" where
  "partPath b key pm = dpath b key @ [partFile (Number pm)]"

text \<open>The metadata of an object whose parts hold the given data, coded by \<open>e\<close>.\<close>

definition describes :: "senv \<Rightarrow> erasure \<Rightarrow> xlMeta \<Rightarrow> bytes list \<Rightarrow> bool" where
  "describes env e m ds \<longleftrightarrow>
     Inline m = None \<and> DataRef m = [] \<and> DataBlocks (Erasure m) = dataBlocks e \<and> BlockSize (Erasure m) = blockSize e
     \<and> perm_dist (dataBlocks e + parityBlocks e) (Distribution (Erasure m))
     \<and> MSize m = length (concat ds)
     \<and> list_all2 (\<lambda>pm d. PSize pm = length d \<and> Bitrot pm = ''highwayhash256-stream''
          \<and> (verifiableETag m (PETag pm) \<longrightarrow> PETag pm = md5Hex env d)) (Parts m) ds"

text \<open>Disk \<open>i\<close> shows the intact shard of a part; or shows nothing that would be taken for a wrong block.\<close>

definition intactPart :: "senv \<Rightarrow> erasure \<Rightarrow> string \<Rightarrow> string \<Rightarrow> nat list \<Rightarrow> nat \<Rightarrow> disk \<Rightarrow> partMeta \<Rightarrow> bytes \<Rightarrow> bool" where
  "intactPart env e b key dist j d pm dat \<longleftrightarrow>
     shown d (partPath b key pm) = Some (Raw (shardFile (bitrotRaw env) (shardsOf e dat) j))"

definition tolerablePart :: "senv \<Rightarrow> erasure \<Rightarrow> string \<Rightarrow> string \<Rightarrow> nat list \<Rightarrow> nat \<Rightarrow> disk \<Rightarrow> partMeta \<Rightarrow> bytes \<Rightarrow> bool" where
  "tolerablePart env e b key dist j d pm dat \<longleftrightarrow>
     (\<forall>f. f * stripeInputSize e \<le> length dat \<longrightarrow>
        harmless (bitrotRaw env) j (shardsOf e (drop (f * stripeInputSize e) dat))
          (map_option (drop (f * (blockSize e + 32))) (streamOf (shown d (partPath b key pm)))))"

lemma intact_tolerable:
  assumes "coding_ok e" "\<forall>x. length (bitrotRaw env x) = 32" "j < dataBlocks e + parityBlocks e"
    and "intactPart env e b key dist j d pm dat"
  shows "tolerablePart env e b key dist j d pm dat"
  unfolding tolerablePart_def
proof (intro allI impI)
  fix f
  assume f: "f * stripeInputSize e \<le> length dat"
  have eq: "map_option (drop (f * (blockSize e + 32))) (streamOf (shown d (partPath b key pm)))
      = Some (shardFile (bitrotRaw env) (shardsOf e (drop (f * stripeInputSize e) dat)) j)"
    using assms shardFile_drop [OF assms(1,2) f assms(3)] by (simp add: intactPart_def streamOf_def)
  show "harmless (bitrotRaw env) j (shardsOf e (drop (f * stripeInputSize e) dat))
          (map_option (drop (f * (blockSize e + 32))) (streamOf (shown d (partPath b key pm))))"
    unfolding eq by (rule harmless_intact [OF assms(2)])
qed

text \<open>A set whose disks serve every part of the object: \<open>k\<close> intact shards of each, none harmful.\<close>

definition servesPart :: "senv \<Rightarrow> string \<Rightarrow> string \<Rightarrow> nat list \<Rightarrow> eset \<Rightarrow> partMeta \<Rightarrow> bytes \<Rightarrow> bool" where
  "servesPart env b key dist s pm dat \<longleftrightarrow>
     (\<forall>j < setN s. tolerablePart env (ec s) b key dist j (disks s ! (dist ! j)) pm dat)
     \<and> dataBlocks (ec s) \<le>
         length (filter (\<lambda>j. intactPart env (ec s) b key dist j (disks s ! (dist ! j)) pm dat) [0..<setN s])"

definition set_ok :: "eset \<Rightarrow> bool" where
  "set_ok s \<longleftrightarrow> coding_ok (ec s) \<and> setN s = dataBlocks (ec s) + parityBlocks (ec s)
     \<and> (\<forall>d \<in> set (disks s). steady d)"

lemma same_store_set_ok:
  assumes "same_store s s'" "set_ok s"
  shows "set_ok s'"
proof -
  have "steady d" if d: "d \<in> set (disks s')" for d
  proof -
    obtain i where i: "i < length (disks s)" "d = disks s' ! i"
      using d same_store_length [OF assms(1)] in_set_conv_nth [of d "disks s'"] by auto
    then show ?thesis using same_store_view(2) [OF assms(1) i(1)] assms(2) nth_mem [OF i(1)] by (simp add: set_ok_def)
  qed
  then show ?thesis using assms same_store_length [OF assms(1)] by (auto simp: set_ok_def same_store_def setN_def)
qed

lemma same_store_serves:
  assumes "same_store s s'" "perm_dist (setN s) dist"
  shows "servesPart env b key dist s' pm dat = servesPart env b key dist s pm dat"
proof -
  have e: "ec s' = ec s" "setN s' = setN s"
    using assms(1) same_store_length [OF assms(1)] by (simp_all add: same_store_def setN_def)
  have v: "shown (disks s' ! (dist ! j)) p = shown (disks s ! (dist ! j)) p" if "j < setN s" for j p
    using same_store_view(3) [OF assms(1)] perm_dist_nth_less [OF assms(2) that] by (simp add: setN_def)
  have "filter (\<lambda>j. intactPart env (ec s) b key dist j (disks s' ! (dist ! j)) pm dat) [0..<setN s]
      = filter (\<lambda>j. intactPart env (ec s) b key dist j (disks s ! (dist ! j)) pm dat) [0..<setN s]"
    using v by (intro filter_cong) (auto simp: intactPart_def)
  then show ?thesis using v by (simp add: servesPart_def e tolerablePart_def)
qed

subsection \<open>Reading\<close>

lemma readPart_ok:
  assumes ok: "set_ok s" and hash: "\<forall>x. length (bitrotRaw env x) = 32"
    and m: "DataRef m = []" "DataBlocks (Erasure m) = dataBlocks (ec s)" "BlockSize (Erasure m) = blockSize (ec s)"
      "perm_dist (setN s) (Distribution (Erasure m))"
    and pm: "PSize pm = length dat" "Bitrot pm = ''highwayhash256-stream''"
      "verifiableETag m (PETag pm) \<longrightarrow> PETag pm = md5Hex env dat"
    and skip: "skip < length dat"
    and sv: "servesPart env b key (Distribution (Erasure m)) s pm dat"
  shows "\<exists>s'. readPart env b key m pm skip rem s
           = (take rem (drop skip dat), None, rem - length (take rem (drop skip dat)), s') \<and> same_store s s'"
proof -
  let ?e = "ec s" and ?L = "stripeInputSize (ec s)" and ?n = "setN s" and ?dist = "Distribution (Erasure m)"
  have co: "coding_ok ?e" and n: "?n = dataBlocks ?e + parityBlocks ?e" and st: "\<forall>d \<in> set (disks s). steady d"
    using ok by (auto simp: set_ok_def)
  have L: "?L > 0" by (rule stripeInput_pos [OF co])
  have SL: "blockSize ?e * dataBlocks ?e = ?L" by (simp add: stripeInputSize_def)
  have vd: "validDist ?n ?dist"
    using m(4) by (auto simp: validDist_def perm_dist_def list_all_iff)
  let ?f = "skip div ?L"
  have fL: "?f * ?L \<le> skip" by (simp add: div_times_less_eq_dividend)
  let ?d' = "drop (?f * ?L) dat"
  let ?streams = "map (\<lambda>d. map_option (drop (?f * (blockSize ?e + 32))) (streamOf (shown d (partPath b key pm)))) (disks s)"
  obtain s1 where os: "openShards b key (Number pm) (?f * (blockSize ?e + 32)) s = (?streams, s1)"
    using openShards_streams [OF st, of b key "Number pm"] by (metis partPath_def prod.collapse)
  have ss: "same_store s s1" using openShards_keeps [of s b key "Number pm" "?f * (blockSize ?e + 32)"] os by simp
  let ?rds = "map (\<lambda>j. ?streams ! (?dist ! j)) [0..<?n]"
  have rd: "?rds ! j = map_option (drop (?f * (blockSize ?e + 32))) (streamOf (shown (disks s ! (?dist ! j)) (partPath b key pm)))"
    if "j < ?n" for j
    using that perm_dist_nth_less [OF m(4) that] by (simp add: setN_def)
  have harm: "\<forall>j < length ?rds. harmless (bitrotRaw env) j (shardsOf ?e ?d') (?rds ! j)"
  proof (intro allI impI)
    fix j
    assume "j < length ?rds"
    then have j: "j < ?n" by simp
    have le: "?f * ?L \<le> length dat" using fL skip by linarith
    from sv j have "tolerablePart env ?e b key ?dist j (disks s ! (?dist ! j)) pm dat" by (simp add: servesPart_def)
    with le show "harmless (bitrotRaw env) j (shardsOf ?e ?d') (?rds ! j)"
      unfolding rd [OF j] tolerablePart_def by blast
  qed
  have "dataBlocks ?e \<le> length (filter (\<lambda>j. intactPart env ?e b key ?dist j (disks s ! (?dist ! j)) pm dat) [0..<?n])"
    using sv by (simp add: servesPart_def)
  also have "\<dots> \<le> length (filter (\<lambda>j. ?rds ! j = Some (shardFile (bitrotRaw env) (shardsOf ?e ?d') j)) [0..<?n])"
  proof (rule length_filter_mono)
    fix j
    assume "j \<in> set [0..<?n]" "intactPart env ?e b key ?dist j (disks s ! (?dist ! j)) pm dat"
    then show "?rds ! j = Some (shardFile (bitrotRaw env) (shardsOf ?e ?d') j)"
      using rd shardFile_drop [OF co hash, of ?f dat j] fL skip n
      by (simp add: intactPart_def streamOf_def)
  qed
  finally have good: "dataBlocks ?e \<le> length (filter (\<lambda>j. ?rds ! j = Some (shardFile (bitrotRaw env) (shardsOf ?e ?d') j)) [0..<length ?rds])"
    by simp
  let ?r = "stripeLoop env ?e (dataBlocks ?e) ?dist pm 32 ?L ?f (skip - ?f * ?L) (length ?d') rem ?rds False"
  have lr: "length ?rds = dataBlocks ?e + parityBlocks ?e" using n by simp
  have loop: "loErr ?r = None" "loOut ?r = take rem (drop (skip - ?f * ?L) ?d')"
    "loRemaining ?r = rem - length (take rem (drop (skip - ?f * ?L) ?d'))"
    using stripeLoop_ok [OF co hash lr harm good] by blast+
  have dd: "drop (skip - ?f * ?L) ?d' = drop skip dat" using fL by simp
  have ld: "PSize pm - ?f * ?L = length ?d'" using pm by simp
  let ?s2 = "if loDegraded ?r \<and> hasMrf s \<and> b \<noteq> [] then callMrf b key s1 else s1"
  have ss2: "same_store s ?s2" using ss by (simp add: same_store_def callMrf_def)
  define r where "r = ?r"
  have rl: "loErr r = None" "loOut r = take rem (drop skip dat)"
    "loRemaining r = rem - length (take rem (drop skip dat))"
    using loop unfolding r_def dd by blast+
  have ver: "\<not> (skip = 0 \<and> PSize pm \<le> rem \<and> verifiableETag m (PETag pm) \<and> md5Hex env (loOut r) \<noteq> PETag pm)"
    using pm by (cases "skip = 0") (auto simp: rl)
  have "readPart env b key m pm skip rem s =
      (loOut r, None, loRemaining r, if loDegraded r \<and> hasMrf s \<and> b \<noteq> [] then callMrf b key s1 else s1)"
    unfolding readPart_def Let_def dataLoc_def m(1,2,3) pm(2) SL
    using L vd rl ver by (simp add: os ld m flip: r_def del: length_drop) blast
  then show ?thesis using ss2 unfolding rl r_def [symmetric] by blast
qed

lemma readParts_ok:
  assumes ok: "set_ok s" and hash: "\<forall>x. length (bitrotRaw env x) = 32"
    and m: "DataRef m = []" "DataBlocks (Erasure m) = dataBlocks (ec s)" "BlockSize (Erasure m) = blockSize (ec s)"
      "perm_dist (setN s) (Distribution (Erasure m))"
    and parts: "list_all2 (\<lambda>pm d. PSize pm = length d \<and> Bitrot pm = ''highwayhash256-stream''
          \<and> (verifiableETag m (PETag pm) \<longrightarrow> PETag pm = md5Hex env d)
          \<and> servesPart env b key (Distribution (Erasure m)) s pm d) pms ds"
  shows "\<exists>s'. readParts env b key m pms skip rem s = (take rem (drop skip (concat ds)), None, s')"
  using ok m parts
proof (induction pms arbitrary: ds skip rem s)
  case (Cons pm pms)
  obtain d ds' where ds: "ds = d # ds'" using Cons.prems(6) by (cases ds) auto
  show ?case
  proof (cases "rem = 0")
    case True
    then show ?thesis by simp
  next
    case False
    show ?thesis
    proof (cases "skip \<ge> length d")
      case True
      then show ?thesis
        using Cons.IH [OF Cons.prems(1-5), of ds' "skip - length d" rem] Cons.prems(6) ds False by auto
    next
      case skip: False
      have p: "PSize pm = length d" "Bitrot pm = ''highwayhash256-stream''"
          "verifiableETag m (PETag pm) \<longrightarrow> PETag pm = md5Hex env d"
          "servesPart env b key (Distribution (Erasure m)) s pm d"
        using Cons.prems(6) ds by auto
      have sk: "skip < length d" using skip by simp
      obtain s1 where s1: "readPart env b key m pm skip rem s
           = (take rem (drop skip d), None, rem - length (take rem (drop skip d)), s1)" "same_store s s1"
        using readPart_ok [OF Cons.prems(1) hash Cons.prems(2-5) p(1-3) sk p(4)] by blast
      have e1: "ec s1 = ec s" "setN s1 = setN s"
        using s1(2) same_store_length [OF s1(2)] by (simp_all add: same_store_def setN_def)
      have rest: "list_all2 (\<lambda>pm d. PSize pm = length d \<and> Bitrot pm = ''highwayhash256-stream''
          \<and> (verifiableETag m (PETag pm) \<longrightarrow> PETag pm = md5Hex env d)
          \<and> servesPart env b key (Distribution (Erasure m)) s1 pm d) pms ds'"
        using Cons.prems(6) ds same_store_serves [OF s1(2) Cons.prems(5)] by simp
      obtain s2 where "readParts env b key m pms 0 (rem - length (take rem (drop skip d))) s1
          = (take (rem - length (take rem (drop skip d))) (drop 0 (concat ds')), None, s2)"
        using Cons.IH [OF same_store_set_ok [OF s1(2) Cons.prems(1)] Cons.prems(2) _ _ _ rest] Cons.prems(3,4,5) e1
        by metis
      then have "readParts env b key m (pm # pms) skip rem s
          = (take rem (drop skip d) @ take (rem - length (take rem (drop skip d))) (concat ds'), None, s2)"
        using s1 sk p False by simp
      moreover have "take rem (drop skip d) @ take (rem - length (take rem (drop skip d))) (concat ds') = take rem (drop skip (concat ds))"
        using sk by (simp add: ds min_def)
      ultimately show ?thesis by simp
    qed
  qed
qed simp

text \<open>The byte range a caller asks for, clipped to the object.\<close>

definition clip :: "bytes \<Rightarrow> int \<Rightarrow> int \<Rightarrow> bytes" where
  "clip b off len =
     (let o' = nat (max 0 off) in
      if len < 0 then drop o' b else take (nat len) (drop o' b))"

lemma clip_eq:
  fixes b :: bytes
  assumes "o' = (if off < 0 then 0 else off)" "l = (if len < 0 \<or> o' + len > int (length b) then int (length b) - o' else len)"
  shows "take (nat l) (drop (nat o') b) = clip b off len"
proof -
  have mx: "nat (max 0 off) = nat o'" using assms(1) by (simp add: max_def)
  show ?thesis
  proof (cases "len < 0 \<or> o' + len > int (length b)")
    case True
    then have all: "length (drop (nat o') b) \<le> nat l" using assms by auto
    have "len \<ge> 0 \<Longrightarrow> length (drop (nat o') b) \<le> nat len" using True assms by auto
    then show ?thesis using all by (cases "len < 0") (simp_all add: clip_def mx Let_def)
  next
    case False
    then show ?thesis using assms by (simp add: clip_def mx Let_def)
  qed
qed

lemma getObjectMeta_ok:
  assumes ok: "set_ok s" and hash: "\<forall>x. length (bitrotRaw env x) = 32"
    and d: "describes env (ec s) m ds"
    and sv: "list_all2 (servesPart env b key (Distribution (Erasure m)) s) (Parts m) ds"
  shows "\<exists>s'. getObjectMeta env b key m off len s = (clip (concat ds) off len, None, s')"
proof -
  have n: "setN s = dataBlocks (ec s) + parityBlocks (ec s)" using ok by (simp add: set_ok_def)
  define o' where "o' = (if off < 0 then 0 else off)"
  define l where "l = (if len < 0 \<or> o' + len > int (MSize m) then int (MSize m) - o' else len)"
  have parts: "list_all2 (\<lambda>pm d. PSize pm = length d \<and> Bitrot pm = ''highwayhash256-stream''
          \<and> (verifiableETag m (PETag pm) \<longrightarrow> PETag pm = md5Hex env d)
          \<and> servesPart env b key (Distribution (Erasure m)) s pm d) (Parts m) ds"
    using d sv by (auto simp: describes_def list_all2_conv_all_nth)
  obtain s' where rp: "readParts env b key m (Parts m) (nat o') (nat l) s = (take (nat l) (drop (nat o') (concat ds)), None, s')"
    using readParts_ok [OF ok hash _ _ _ _ parts] d n unfolding describes_def by metis
  have sz: "MSize m = length (concat ds)" "Inline m = None" using d by (auto simp: describes_def)
  have eq: "take (nat l) (drop (nat o') (concat ds)) = clip (concat ds) off len"
    by (rule clip_eq) (simp_all add: l_def o'_def sz del: length_concat)
  have g: "getObjectMeta env b key m off len s =
      (if l \<le> 0 then ([], None, s) else readParts env b key m (Parts m) (nat o') (nat l) s)"
    by (simp add: getObjectMeta_def Let_def sz(2) flip: o'_def l_def)
  show ?thesis using rp eq by (cases "l \<le> 0") (auto simp: g)
qed

end
