(* ===== verification/ErasurePut.thy ===== *)
theory ErasurePut
  imports ErasureGet
begin

text \<open>
  The write path of an erasure set: what a successful \<open>putObjectSSE\<close> leaves on the disks, and the
  durability theorem that joins it with the read path.
\<close>

subsection \<open>One disk through a write\<close>

definition userPath :: "path \<Rightarrow> bool" where
  "userPath p \<longleftrightarrow> p \<noteq> [] \<and> hd p \<noteq> sysDir"

definition stagingPath :: "path \<Rightarrow> bool" where
  "stagingPath p \<longleftrightarrow> p \<noteq> [] \<and> hd p = sysDir"

lemma user_staging_disjoint:
  assumes "userPath p" "stagingPath q"
  shows "\<not> prefix (p @ r) q" "\<not> prefix (q @ r) p" "\<not> prefix p q" "\<not> prefix q p"
    "\<not> prefix (q @ r) (butlast p)" "\<not> prefix (p @ r) (butlast q)" "\<not> prefix (p @ r) (q @ t)" "\<not> prefix (q @ t) (p @ r)"
proof -
  obtain a p' q' where p: "p = a # p'" "q = sysDir # q'" "a \<noteq> sysDir"
    using assms unfolding userPath_def stagingPath_def by (cases p; cases q) auto
  show "\<not> prefix (p @ r) q" "\<not> prefix (q @ r) p" "\<not> prefix p q" "\<not> prefix q p"
    "\<not> prefix (q @ r) (butlast p)" "\<not> prefix (p @ r) (butlast q)" "\<not> prefix (p @ r) (q @ t)" "\<not> prefix (q @ t) (p @ r)"
    using p(3) unfolding p(1,2) by auto
qed

lemma CreateFile_ok:
  assumes "CreateFile b ob sz x d = (Inr u, d')"
  shows "at d' q = (if q = dpath b ob then Some (File (Raw x))
                    else if prefix q (butlast (dpath b ob)) then Some Dir else at d q)"
    and "dfaults d' = dfaults d"
  using assms lookupF_writeFile [of "dpath b ob" "Raw x" "dfs d"]
  by (auto simp: CreateFile_def Let_def split: if_splits option.splits)

lemma WriteAll_faults: "dfaults (snd (WriteAll b ob c d)) = dfaults d"
  by (auto simp: WriteAll_def Let_def split: option.splits)

lemma RenameDir_faults: "dfaults (snd (RenameDir sb so tb tobj d)) = dfaults d"
  by (auto simp: RenameDir_def Let_def split: option.splits)

lemma Delete_faults: "dfaults (snd (Delete b ob r d)) = dfaults d"
  by (auto simp: Delete_def Let_def split: sum.splits rmErr.splits)

lemma Delete_other:
  assumes "\<not> prefix q (dpath b ob)" "\<not> prefix (dpath b ob) q"
  shows "at (snd (Delete b ob True d)) q = at d q"
proof (cases "Delete b ob True d")
  case (Pair r d')
  show ?thesis
  proof (cases r)
    case (Inl e)
    then show ?thesis using Pair by (auto simp: Delete_def Let_def split: if_splits)
  next
    case (Inr u)
    then show ?thesis using Pair Delete_rec(2) [of b ob d u d' q] assms by simp
  qed
qed

lemma disk_commit:
  assumes dst: "userPath (dpath b key)" and stg: "stagingPath (dpath [] stgs)"
    and ren: "RenameDir [] stgs b key d = (Inr u, d1)"
  shows "at (snd (Delete [] stgs True d1)) (dpath b key @ [x]) = at d (dpath [] stgs @ [x])"
proof -
  let ?dst = "dpath b key" and ?stg = "dpath [] stgs"
  note dj = user_staging_disjoint [OF dst stg]
  have "at d1 (?dst @ [x]) = at d (?stg @ [x])"
    using RenameDir_ok [OF ren, of "?dst @ [x]"] dj by (simp add: Let_def)
  moreover have "at (snd (Delete [] stgs True d1)) (?dst @ [x]) = at d1 (?dst @ [x])"
    using dj by (intro Delete_other) auto
  ultimately show ?thesis by simp
qed

subsection \<open>Writing under a fresh staging directory\<close>

definition fresh :: "path \<Rightarrow> disk \<Rightarrow> bool" where
  "fresh p d \<longleftrightarrow> (\<forall>q. prefix p q \<longrightarrow> at d q = None)"

lemma RenameDir_needs_src:
  assumes "RenameDir sb so tb tobj d = (Inr u, d')" "\<not> prefix (dpath sb so) (butlast (dpath tb tobj))"
  shows "at d (dpath sb so) \<noteq> None" "sched d = Works"
proof -
  obtain f1 f3 where f: "mkdirAll (butlast (dpath tb tobj)) (dfs d) = Some f1"
      "renameF (dpath sb so) (dpath tb tobj) (removeAll (dpath tb tobj) f1) = Some f3" "sched d = Works"
    using assms(1) by (cases "sched d") (auto simp: RenameDir_def Let_def split: if_splits option.splits)
  then have l: "lookupF (removeAll (dpath tb tobj) f1) (dpath sb so) \<noteq> None"
    by (auto simp: renameF_def split: if_splits)
  then have "lookupF f1 (dpath sb so) \<noteq> None" by (auto simp: lookupF_removeAll split: if_splits)
  then show "at d (dpath sb so) \<noteq> None" using assms(2) by (simp add: lookupF_mkdirAll [OF f(1)])
  show "sched d = Works" by (rule f(3))
qed

text \<open>
  On a disk that either works or does not, a rename of the staging directory succeeds only where the
  metadata was written into it.
\<close>

lemma commit_implies_meta:
  assumes st: "steady d" and stg: "stagingPath (dpath [] stgs)" and dst: "userPath (dpath b key)"
    and clean: "at d (dpath [] (pjoin stgs metaFile)) \<noteq> Some Dir"
      "(\<forall>q. prefix q (dpath [] stgs) \<longrightarrow> at d q = Some Dir) \<or> at d (dpath [] stgs) = None"
    and w: "WriteAll [] (pjoin stgs metaFile) mb d = (r, d1)"
    and ren: "RenameDir [] stgs b key d1 = (Inr u, d2)"
  shows "r = Inr ()"
proof (rule ccontr)
  let ?stg = "dpath [] stgs"
  note dj = user_staging_disjoint [OF dst stg]
  assume "r \<noteq> Inr ()"
  then obtain e where r: "r = Inl e" by (cases r) auto
  have src: "at d1 ?stg \<noteq> None" "sched d1 = Works" using RenameDir_needs_src [OF ren] dj(5) [of "[]"] by auto
  have "dfaults d1 = dfaults d" using WriteAll_faults [of "[]" "pjoin stgs metaFile" mb d] w by simp
  then have "up d" using st src(2) by (auto simp: steady_def up_def down_def sched_def)
  then have "sched d = Works" by (simp add: up_def sched_def)
  then have wf: "writeFile (?stg @ [metaFile]) mb (dfs d) = None" and same: "dfs d1 = dfs d"
    using w r by (auto simp: WriteAll_def Let_def split: if_splits option.splits)
  have dirs: "\<forall>q. prefix q ?stg \<longrightarrow> at d q = Some Dir" using clean(2) src(1) same by auto
  have "mkdirFrom dn ss (dfs d) = Some (dfs d)" if "prefix (dn @ ss) ?stg" for dn ss
    using that
  proof (induction ss arbitrary: dn)
    case (Cons x ss)
    have "prefix (dn @ [x]) ?stg" using Cons.prems by (auto simp: prefix_def)
    then have "at d (dn @ [x]) = Some Dir" using dirs by blast
    then show ?case using Cons.IH [of "dn @ [x]"] Cons.prems by simp
  qed simp
  from this [of "[]" ?stg] have "mkdirAll ?stg (dfs d) = Some (dfs d)" by (simp add: mkdirAll_def)
  then show False using wf clean(1) by (simp add: writeFile_def split: if_splits)
qed

subsection \<open>Commit on a write quorum\<close>

lemma forEachDisk_disks [simp]: "disks (snd (forEachDisk fn s)) = map (\<lambda>d. snd (fn d)) (disks s)"
  by (simp add: forEachDisk_def Let_def)

lemma forEachDisk_errs: "fst (forEachDisk fn s) = map (\<lambda>d. fst (fn d)) (disks s)"
  by (simp add: forEachDisk_def Let_def)

lemma forEachDisk_rest [simp]:
  "ec (snd (forEachDisk fn s)) = ec s" "hasMrf (snd (forEachDisk fn s)) = hasMrf s"
  by (simp_all add: forEachDisk_def Let_def)

lemma isOk_iff:
  "(case e of Inr _ \<Rightarrow> True | Inl _ \<Rightarrow> False) \<longleftrightarrow> e = Inr ()" "(case e of Inl _ \<Rightarrow> True | Inr _ \<Rightarrow> False) \<longleftrightarrow> e \<noteq> Inr ()"
  by (cases e; simp)+

lemma okCount_card: "okCount (map f ds) = card {i. i < length ds \<and> f (ds ! i) = Inr ()}"
  unfolding okCount_def length_filter_conv_card isOk_iff by (intro arg_cong [where f = card]) auto

definition staged_clean :: "string \<Rightarrow> disk \<Rightarrow> bool" where
  "staged_clean stgs d \<longleftrightarrow> at d (dpath [] (pjoin stgs metaFile)) \<noteq> Some Dir
     \<and> ((\<forall>q. prefix q (dpath [] stgs) \<longrightarrow> at d q = Some Dir) \<or> at d (dpath [] stgs) = None)"

text \<open>
  What a commit leaves behind: on a write quorum of disks, after the staging directory is removed,
  the object's directory holds the metadata and what was staged.
\<close>

definition committedOn :: "string \<Rightarrow> string \<Rightarrow> string \<Rightarrow> xlMeta \<Rightarrow> eset \<Rightarrow> eset \<Rightarrow> nat set \<Rightarrow> bool" where
  "committedOn stgs b key m s s' C \<longleftrightarrow> C \<subseteq> {..<setN s} \<and> writeQuorum s \<le> card C
     \<and> (\<forall>i \<in> C. \<forall>x. at (snd (Delete [] stgs True (disks s' ! i))) (dpath b key @ [x]) =
          (if x = metaFile then Some (File (marshal m)) else at (disks s ! i) (dpath [] stgs @ [x])))"

lemma commitMeta_commits:
  assumes st: "\<forall>d \<in> set (disks s). steady d \<and> staged_clean stgs d"
    and stg: "stagingPath (dpath [] stgs)" and dst: "userPath (dpath b key)"
    and cm: "commitMeta env stgs b key meta (-1) s = (Inr m, s')"
  shows "\<exists>C. committedOn stgs b key m s s' C" and "\<exists>r. m = meta\<lparr>Revision := r\<rparr>"
    and "setN s' = setN s" and "ec s' = ec s" and "\<forall>i < setN s. dfaults (disks s' ! i) = dfaults (disks s ! i)"
proof -
  obtain pr s0 where rm: "readMeta env b key s = (pr, s0)" by fastforce
  have ss: "same_store s s0" using readMeta_keeps [of s env b key] rm by simp
  have n0: "length (disks s0) = setN s" using same_store_length [OF ss] by (simp add: setN_def)
  define m1 where "m1 = meta\<lparr>Revision := (case pr of Inr pm \<Rightarrow> Revision pm | Inl _ \<Rightarrow> 0) + 1\<rparr>"
  define w where "w = WriteAll [] (pjoin stgs metaFile) (marshal m1)"
  define rn where "rn = RenameDir [] stgs b key"
  define s1 where "s1 = snd (forEachDisk w s0)"
  define s2 where "s2 = snd (forEachDisk rn s1)"
  have wq: "writeQuorum s0 = writeQuorum s"
    using ss n0 by (simp add: writeQuorum_def setN_def same_store_def)
  have m: "m = m1" and q: "writeQuorum s \<le> okCount (fst (forEachDisk rn s1))"
    and s': "s' = s2 \<or> s' = callMrf b key s2"
    using cm rm wq
    unfolding commitMeta_def m1_def [symmetric] Let_def prod.case s1_def s2_def w_def rn_def
    by (auto simp: split_beta simp flip: m1_def split: if_splits)
  then show "\<exists>r. m = meta\<lparr>Revision := r\<rparr>" unfolding m1_def by blast
  have n1: "length (disks s1) = setN s" by (simp add: s1_def n0)
  have n2: "length (disks s2) = setN s" by (simp add: s2_def n1)
  have d's: "disks s' = disks s2" using s' by (auto simp: callMrf_def)
  show "setN s' = setN s" using n2 d's by (simp add: setN_def)
  have e0: "ec s0 = ec s" using ss by (simp add: same_store_def)
  show "ec s' = ec s" using s' by (auto simp: callMrf_def s2_def s1_def e0)
  let ?C = "{i. i < setN s \<and> fst (rn (disks s1 ! i)) = Inr ()}"
  have card: "writeQuorum s \<le> card ?C"
    using q n1 by (simp add: forEachDisk_errs okCount_card)
  have di: "disks s1 ! i = snd (w (disks s0 ! i))" "disks s2 ! i = snd (rn (disks s1 ! i))" if "i < setN s" for i
    using that n0 n1 by (simp_all add: s1_def s2_def)
  show "\<forall>i < setN s. dfaults (disks s' ! i) = dfaults (disks s ! i)"
    using di d's same_store_nth(2) [OF ss] WriteAll_faults RenameDir_faults by (simp add: w_def rn_def setN_def)
  have "at (snd (Delete [] stgs True (disks s' ! i))) (dpath b key @ [x]) =
          (if x = metaFile then Some (File (marshal m)) else at (disks s ! i) (dpath [] stgs @ [x]))"
    if "i \<in> ?C" for i x
  proof -
    have i: "i < setN s" "fst (rn (disks s1 ! i)) = Inr ()" using that by auto
    let ?d = "disks s0 ! i"
    have f0: "dfs ?d = dfs (disks s ! i)" and fl: "dfaults ?d = dfaults (disks s ! i)"
      using same_store_nth [OF ss] i by (simp_all add: setN_def)
    have "disks s ! i \<in> set (disks s)" using i by (simp add: setN_def)
    then have "steady (disks s ! i)" "staged_clean stgs (disks s ! i)" using st by auto
    then have st0: "steady ?d" and cl: "staged_clean stgs ?d"
      using f0 fl by (auto simp: steady_def up_def down_def staged_clean_def)
    obtain r d1 where w1: "WriteAll [] (pjoin stgs metaFile) (marshal m1) ?d = (r, d1)" by fastforce
    have d1: "disks s1 ! i = d1" using di(1) [OF i(1)] w1 by (simp add: w_def)
    obtain d2 where r2: "RenameDir [] stgs b key d1 = (Inr (), d2)"
      using i(2) d1 by (metis prod.collapse rn_def)
    have "r = Inr ()"
      using commit_implies_meta [OF st0 stg dst _ _ w1 r2] cl by (simp add: staged_clean_def)
    then have wo: "at d1 q = (if q = dpath [] stgs @ [metaFile] then Some (File (marshal m1))
        else if prefix q (dpath [] stgs) then Some Dir else at ?d q)" for q
      using WriteAll_ok(1) [of "[]" "pjoin stgs metaFile" "marshal m1" ?d "()" d1 q] w1 by simp
    have "disks s' ! i = d2" using d's di(2) [OF i(1)] d1 r2 by (simp add: rn_def)
    then show ?thesis
      using disk_commit [OF dst stg r2, of x] wo [of "dpath [] stgs @ [x]"] m f0 by simp
  qed
  then show "\<exists>C. committedOn stgs b key m s s' C"
    using card unfolding committedOn_def by (intro exI [of _ ?C]) auto
qed

subsection \<open>Encoding onto all disks\<close>

lemma those_Some: "those xs = Some ys \<Longrightarrow> ys = map the xs"
  by (induction xs arbitrary: ys) (auto split: option.splits)

lemma encodeStripes_shardsOf: "encodeStripes e d = Some shs \<Longrightarrow> shs = shardsOf e d"
  using those_Some unfolding encodeStripes_def shardsOf_def by fastforce

lemma shardOfDisk_nth: "perm_dist n dist \<Longrightarrow> j < n \<Longrightarrow> shardOfDisk dist (dist ! j) = j"
  using indexFrom_nth [of dist j 0] by (simp add: perm_dist_def shardOfDisk_def)

lemma encodePart_all:
  assumes "encodePart env stgs pn dist r s = (Inr (et, wr, full), s1)" "rdata r \<noteq> []" "coding_ok (ec s)"
  shows "et = md5Hex env (rdata r)" "wr = length (rdata r)" "ec s1 = ec s" "setN s1 = setN s" "\<not> rfails r"
    and "\<forall>i < setN s. \<exists>u. CreateFile [] (pjoin stgs (partFile pn)) (-1)
           (shardFile (bitrotRaw env) (shardsOf (ec s) (rdata r)) (shardOfDisk dist i)) (disks s ! i) = (Inr u, disks s1 ! i)"
    and "full" and "hasMrf s1 = hasMrf s"
proof -
  obtain shs where shs: "encodeStripes (ec s) (rdata r) = Some shs"
    using assms(1) by (auto simp: encodePart_def Let_def split: option.splits)
  have e: "shs = shardsOf (ec s) (rdata r)" by (rule encodeStripes_shardsOf [OF shs])
  then have ne: "shs \<noteq> []" using shardsOf_step [OF assms(3,2)] by simp
  define cf where "cf i = CreateFile [] (pjoin stgs (partFile pn)) (-1) (shardFile (bitrotRaw env) shs (shardOfDisk dist i)) (disks s ! i)" for i
  have a: "\<not> rfails r" "\<forall>i < setN s. \<exists>u. fst (cf i) = Inr u" "s1 = s\<lparr>disks := map (\<lambda>i. snd (cf i)) [0..<setN s]\<rparr>"
    "et = md5Hex env (rdata r)" "wr = length (rdata r)"
    and fu: "full = (okCount (map (\<lambda>i. fst (cf i)) [0..<setN s]) = setN s)"
    using assms(1) shs ne
    by (auto simp: encodePart_def Let_def list_ex_iff o_def isOk_iff simp flip: cf_def split: if_splits)
  then show "et = md5Hex env (rdata r)" "wr = length (rdata r)" "ec s1 = ec s" "setN s1 = setN s" "\<not> rfails r"
    "hasMrf s1 = hasMrf s" by (auto simp: setN_def)
  show "\<forall>i < setN s. \<exists>u. CreateFile [] (pjoin stgs (partFile pn)) (-1)
           (shardFile (bitrotRaw env) (shardsOf (ec s) (rdata r)) (shardOfDisk dist i)) (disks s ! i) = (Inr u, disks s1 ! i)"
  proof (intro allI impI)
    fix i
    assume i: "i < setN s"
    then obtain u where "fst (cf i) = Inr u" using a(2) by blast
    then have "cf i = (Inr u, disks s1 ! i)" using a(3) i by (simp add: prod_eq_iff)
    then show "\<exists>u. CreateFile [] (pjoin stgs (partFile pn)) (-1)
           (shardFile (bitrotRaw env) (shardsOf (ec s) (rdata r)) (shardOfDisk dist i)) (disks s ! i) = (Inr u, disks s1 ! i)"
      unfolding cf_def e by blast
  qed
  have "okCount (map (\<lambda>i. fst (cf i)) [0..<setN s]) = setN s"
    using a(2) unfolding okCount_def isOk_iff by (simp add: filter_True)
  then show full using fu by simp
qed

subsection \<open>Durability\<close>

lemma staging_dpath: "plainName x \<Longrightarrow> dpath [] (pjoin tmpPrefix x) = [sysDir, ''tmp'', x]"
proof -
  assume "plainName x"
  moreover have "dpath [] tmpPrefix = [sysDir, ''tmp'']" by code_simp
  ultimately show ?thesis by (simp add: dpath_child)
qed

lemma partFile_not_meta: "partFile n \<noteq> metaFile"
  by (simp add: partFile_def metaFile_def)

text \<open>The object a successful single-part write stores: data, metadata, and the disks that took it.\<close>

definition storedOn :: "senv \<Rightarrow> string \<Rightarrow> string \<Rightarrow> xlMeta \<Rightarrow> bytes \<Rightarrow> eset \<Rightarrow> nat set \<Rightarrow> bool" where
  "storedOn env b key m dat s C \<longleftrightarrow> C \<subseteq> {..<setN s} \<and> writeQuorum s \<le> card C \<and> describes env (ec s) m [dat]
     \<and> (\<forall>i \<in> C. at (disks s ! i) (dpath b key @ [metaFile]) = Some (File (MetaDoc m))
          \<and> (\<forall>pm \<in> set (Parts m). at (disks s ! i) (partPath b key pm) =
               Some (File (Raw (shardFile (bitrotRaw env) (shardsOf (ec s) dat) (shardOfDisk (Distribution (Erasure m)) i))))))"

lemma put_stores:
  assumes ok: "set_ok s" and ne: "rdata (psReader ps) \<noteq> []"
    and idp: "plainName id1" and fr: "\<forall>d \<in> set (disks s). fresh (dpath [] (pjoin tmpPrefix id1)) d"
    and dst: "userPath (dpath b key)"
    and big: "\<not> (inlineMaxBytes env > 0 \<and> 0 \<le> psSize ps \<and> psSize ps \<le> inlineMaxBytes env)"
    and nc: "\<not> umCompress um"
    and put: "putObjectSSE env id1 id2 now b key [ps] um None False s = (Inr m, s')"
  shows "\<exists>C. storedOn env b key (normMeta m) (rdata (psReader ps)) s' C"
    and "setN s' = setN s" "ec s' = ec s"
proof -
  define stgs where "stgs = pjoin tmpPrefix id1"
  let ?dat = "rdata (psReader ps)" and ?n = "setN s"
  have co: "coding_ok (ec s)" and nn: "?n = dataBlocks (ec s) + parityBlocks (ec s)" using ok by (auto simp: set_ok_def)
  have stg: "stagingPath (dpath [] stgs)" by (simp add: stgs_def staging_dpath [OF idp] stagingPath_def)
  define dist where "dist = buildDistribution key ?n"
  have comp: "\<not> shouldCompress env (umCompress um) False ct z" for ct z using nc by (simp add: shouldCompress_def)
  obtain s4 where ps4: "putStaged env stgs (pjoin tmpPrefix id2) now b key [ps] um None False s = (Inr m, s4)"
    and s': "s' = cleanupStaging stgs s4"
    using put by (auto simp: putObjectSSE_def Let_def stgs_def split: prod.splits)
  obtain et wr full s1 where ep: "encodePart env stgs (psNumber ps) dist (psReader ps) s = (Inr (et, wr, full), s1)"
    using ps4 big comp
    by (auto simp: putStaged_def Let_def dist_def partReader_def sealReader_def split: prod.splits sum.splits)
  note epf = encodePart_all [OF ep ne co]
  let ?pm = "\<lparr>Number = psNumber ps, PSize = wr, ActualSize = wr, PETag = et, Bitrot = ''highwayhash256-stream'', Checksums = []\<rparr>"
  define meta1 where "meta1 = (baseMeta now dist um s)\<lparr>Parts := [?pm], MSize := wr, ETag := et\<rparr>"
  obtain s3 where cm: "commitMeta env stgs b key meta1 (-1) s1 = (Inr m, s3)" and s4: "disks s4 = disks s3" "ec s4 = ec s3"
    using ps4 big comp ep
    by (auto simp: putStaged_def Let_def finishMeta_def sseFields_def partReader_def sealReader_def callMrf_def
        simp flip: dist_def meta1_def split: prod.splits sum.splits if_splits)
  have dsk: "at (disks s1 ! i) q =
      (if q = dpath [] stgs @ [partFile (psNumber ps)]
       then Some (File (Raw (shardFile (bitrotRaw env) (shardsOf (ec s) ?dat) (shardOfDisk dist i))))
       else if prefix q (dpath [] stgs) then Some Dir else at (disks s ! i) q)"
    "dfaults (disks s1 ! i) = dfaults (disks s ! i)" if "i < ?n" for i q
    using epf(6) that CreateFile_ok by fastforce+
  have st: "\<forall>d \<in> set (disks s1). steady d \<and> staged_clean stgs d"
  proof
    fix d
    assume "d \<in> set (disks s1)"
    then obtain i where i: "i < ?n" "d = disks s1 ! i" using epf(4) by (auto simp: in_set_conv_nth setN_def)
    then have "disks s ! i \<in> set (disks s)" by (simp add: setN_def)
    then have "steady (disks s ! i)" "fresh (dpath [] stgs) (disks s ! i)" using ok fr by (auto simp: set_ok_def stgs_def)
    then show "steady d \<and> staged_clean stgs d"
      using i dsk [OF i(1)] partFile_not_meta [of "psNumber ps"]
      by (auto simp: steady_def up_def down_def staged_clean_def fresh_def)
  qed
  note cf = commitMeta_commits [OF st stg dst cm]
  obtain C where C: "committedOn stgs b key m s1 s3 C" using cf(1) by blast
  obtain rv where m: "m = meta1\<lparr>Revision := rv\<rparr>" using cf(2) by blast
  show n': "setN s' = setN s" and e': "ec s' = ec s"
    using s' s4 cf(3,4) epf(3,4) by (auto simp: cleanupStaging_def setN_def)
  have inl: "normMeta m = m" by (simp add: m meta1_def normMeta_def baseMeta_def)
  have desc: "describes env (ec s) m [?dat]"
    using perm_dist_build [of ?n key] nn epf(1,2)
    by (simp add: describes_def m meta1_def baseMeta_def dist_def)
  have fin: "disks s' ! i = snd (Delete [] stgs True (disks s3 ! i))" if "i < ?n" for i
    using s' s4 cf(3) epf(4) that by (simp add: cleanupStaging_def setN_def)
  have "at (disks s' ! i) (dpath b key @ [metaFile]) = Some (File (MetaDoc m))
          \<and> at (disks s' ! i) (partPath b key ?pm) =
             Some (File (Raw (shardFile (bitrotRaw env) (shardsOf (ec s) ?dat) (shardOfDisk dist i))))"
    if "i \<in> C" for i
  proof -
    have i: "i < ?n" using C that epf(4) by (auto simp: committedOn_def)
    have "at (disks s' ! i) (dpath b key @ [x]) =
          (if x = metaFile then Some (File (marshal m)) else at (disks s1 ! i) (dpath [] stgs @ [x]))" for x
      using C that fin [OF i] by (simp add: committedOn_def)
    then show ?thesis
      using dsk(1) [OF i] partFile_not_meta inl by (simp add: partPath_def marshal_norm)
  qed
  moreover have "writeQuorum s' = writeQuorum s1" using n' e' epf(3,4) by (simp add: writeQuorum_def)
  ultimately have "storedOn env b key m ?dat s' C"
    using C desc n' e' epf(4) unfolding storedOn_def committedOn_def
    by (simp add: m meta1_def baseMeta_def)
  then show "\<exists>C. storedOn env b key (normMeta m) ?dat s' C" using inl by auto
qed

end
