(* ===== verification/Config.thy ===== *)
theory Config
  imports IAM ErasurePut
begin

text \<open>
  Configuration blobs on the erasure pool (\<open>internal/erasure/config.go\<close>): identity database, bucket
  configuration and repair queue are replicated to every disk of every set and read back by majority,
  with a repair of the copies that differ. The operations act on the pool's sets. The map iteration
  order of the tally is the parameter \<open>ord\<close>; the SHA-256 of a blob is represented by the blob. The
  repair goroutine of a read is run to its end, or not at all when another repair of the key holds
  the gate.
\<close>

definition configObjectPath :: "string \<Rightarrow> string" where
  "configObjectPath key = pjoin ''.gostore.sys'' key"

definition allDisks :: "eset list \<Rightarrow> disk list" where
  "allDisks sets = concat (map disks sets)"

fun setAllDisks :: "eset list \<Rightarrow> disk list \<Rightarrow> eset list" where
  "setAllDisks [] ds = []"
| "setAllDisks (s # ss) ds = s\<lparr>disks := take (length (disks s)) ds\<rparr> # setAllDisks ss (drop (length (disks s)) ds)"

definition configQuorum :: "nat \<Rightarrow> nat" where
  "configQuorum n = n div 2 + 1"

definition forEachAllDisks :: "(disk \<Rightarrow> 'e \<times> disk) \<Rightarrow> eset list \<Rightarrow> 'e list \<times> eset list" where
  "forEachAllDisks fn sets =
     (let rs = map fn (allDisks sets) in (map fst rs, setAllDisks sets (map snd rs)))"

definition readBlob :: "string \<Rightarrow> disk \<Rightarrow> content option \<times> disk" where
  "readBlob key d =
     (case ReadAll [] (configObjectPath key) d of (Inr b, d1) \<Rightarrow> (Some b, d1) | (Inl e, d1) \<Rightarrow> (None, d1))"

definition tally :: "content option list \<Rightarrow> content \<Rightarrow> nat" where
  "tally blobs c = length (filter (\<lambda>b. b = Some c) blobs)"

definition tallyStep :: "content option list \<Rightarrow> content \<Rightarrow> content option \<times> nat \<Rightarrow> content option \<times> nat" where
  "tallyStep blobs c acc = (case acc of (best, bestN) \<Rightarrow> if tally blobs c > bestN then (Some c, tally blobs c) else (best, bestN))"

definition winner :: "(content list \<Rightarrow> content list) \<Rightarrow> content option list \<Rightarrow> content option \<times> nat" where
  "winner ord blobs = fold (tallyStep blobs) (ord (remdups (map the (filter (\<lambda>b. b \<noteq> None) blobs)))) (None, 0)"

text \<open>A missing copy has the length and the hash of an empty one.\<close>

definition needsRepair :: "content \<Rightarrow> content option \<Rightarrow> bool" where
  "needsRepair w b = (case b of None \<Rightarrow> w \<noteq> Raw [] | Some c \<Rightarrow> c \<noteq> w)"

definition repairDisk :: "string \<Rightarrow> content \<Rightarrow> content option \<times> disk \<Rightarrow> disk" where
  "repairDisk key w bd =
     (case bd of (b, d) \<Rightarrow> if needsRepair w b then snd (WriteAll [] (configObjectPath key) w d) else d)"

text \<open>\<open>None\<close> is \<open>configstore.ErrNotFound\<close>.\<close>

definition ReadConfig ::
  "(content list \<Rightarrow> content list) \<Rightarrow> bool \<Rightarrow> string \<Rightarrow> eset list \<Rightarrow> content option \<times> eset list" where
  "ReadConfig ord gate key sets =
     (case forEachAllDisks (readBlob key) sets of
        (blobs, sets1) \<Rightarrow>
          if list_all (\<lambda>b. b = None) blobs then (None, sets1)
          else (case winner ord blobs of
                  (best, bestN) \<Rightarrow>
                    (best,
                     if bestN \<ge> configQuorum (length blobs) \<and> bestN < length blobs \<and> gate
                     then setAllDisks sets1 (map (repairDisk key (the best)) (zip blobs (allDisks sets1)))
                     else sets1)))"

definition WriteConfig :: "string \<Rightarrow> content \<Rightarrow> eset list \<Rightarrow> (setErr + unit) \<times> eset list" where
  "WriteConfig key c sets =
     (case forEachAllDisks (WriteAll [] (configObjectPath key) c) sets of
        (errs, sets1) \<Rightarrow>
          if okCount errs < configQuorum (length (allDisks sets)) then (Inl EWriteQuorum, sets1)
          else (Inr (), sets1))"

text \<open>\<open>DeleteConfig\<close> reports success whatever the disks answer.\<close>

definition DeleteConfig :: "string \<Rightarrow> eset list \<Rightarrow> (setErr + unit) \<times> eset list" where
  "DeleteConfig key sets = (Inr (), snd (forEachAllDisks (Delete [] (configObjectPath key) False) sets))"

text \<open>The first disk that is online and lists the directory answers.\<close>

fun listFirst :: "string \<Rightarrow> disk list \<Rightarrow> string list option \<times> disk list" where
  "listFirst dir [] = (None, [])"
| "listFirst dir (d # ds) =
     (case IsOnline d of (on, d1) \<Rightarrow>
        if \<not> on then (case listFirst dir ds of (r, ds') \<Rightarrow> (r, d1 # ds'))
        else case ListDir [] dir d1 of
          (Inl e, d2) \<Rightarrow> (case listFirst dir ds of (r, ds') \<Rightarrow> (r, d2 # ds'))
        | (Inr names, d2) \<Rightarrow> (Some names, d2 # ds))"

definition ListConfig :: "string \<Rightarrow> eset list \<Rightarrow> string list option \<times> eset list" where
  "ListConfig pfx sets =
     (case listFirst (configObjectPath pfx) (allDisks sets) of
        (r, ds) \<Rightarrow> (map_option (map (\<lambda>n. pjoin pfx n)) r, setAllDisks sets ds))"

subsection \<open>The pool's disks as one list\<close>

lemma allDisks_setAllDisks [simp]:
  "length ds = length (allDisks sets) \<Longrightarrow> allDisks (setAllDisks sets ds) = ds"
  by (induction sets ds rule: setAllDisks.induct) (auto simp: allDisks_def)

lemma forEachAllDisks_simps [simp]:
  "fst (forEachAllDisks f sets) = map (\<lambda>d. fst (f d)) (allDisks sets)"
  "allDisks (snd (forEachAllDisks f sets)) = map (\<lambda>d. snd (f d)) (allDisks sets)"
  by (simp_all add: forEachAllDisks_def Let_def o_def)

definition cfgPath :: "string \<Rightarrow> path" where "cfgPath key = dpath [] (configObjectPath key)"

definition poolSteady :: "eset list \<Rightarrow> bool" where
  "poolSteady sets \<longleftrightarrow> (\<forall>d \<in> set (allDisks sets). steady d)"

text \<open>A majority of all disks works and has the blob.\<close>

definition holdsConfig :: "string \<Rightarrow> eset list \<Rightarrow> content \<Rightarrow> bool" where
  "holdsConfig key sets c \<longleftrightarrow>
     configQuorum (length (allDisks sets)) \<le> length (filter (\<lambda>d. shown d (cfgPath key) = Some c) (allDisks sets))"

lemma readBlob_shown: "steady d \<Longrightarrow> fst (readBlob key d) = shown d (cfgPath key)"
  using ReadAll_shown [of d "[]" "configObjectPath key"]
  by (cases "ReadAll [] (configObjectPath key) d"; cases "shown d (cfgPath key)")
    (auto simp: readBlob_def cfgPath_def split: sum.splits)

lemma readBlob_keeps: "dfs (snd (readBlob key d)) = dfs d" "dfaults (snd (readBlob key d)) = dfaults d"
  using ReadAll_keeps [of "[]" "configObjectPath key" d]
  by (cases "ReadAll [] (configObjectPath key) d"; auto simp: readBlob_def simp del: ReadAll_state split: sum.splits)+

lemma WriteAll_steady: "steady (snd (WriteAll b ob c d)) \<longleftrightarrow> steady d"
  by (simp add: steady_def up_def down_def WriteAll_faults)

lemma WriteAll_shown:
  assumes "steady d" "fst (WriteAll b ob c d) = Inr u"
  shows "shown (snd (WriteAll b ob c d)) (dpath b ob) = Some c"
proof -
  obtain d' where w: "WriteAll b ob c d = (Inr u, d')" using assms(2) by (cases "WriteAll b ob c d") auto
  then have "sched d = Works" by (cases "sched d") (auto simp: WriteAll_def Let_def)
  then have "up d" using assms(1) by (auto simp: steady_def up_def down_def sched_def)
  then have "up d'" using WriteAll_faults [of b ob c d] w by (simp add: up_def)
  then show ?thesis using WriteAll_ok(1) [OF w, of "dpath b ob"] w by (simp add: shown_def)
qed

lemma WriteAll_shown_same:
  "shown d (dpath b ob) = Some c \<Longrightarrow> shown (snd (WriteAll b ob c d)) (dpath b ob) = Some c"
proof -
  assume sh: "shown d (dpath b ob) = Some c"
  obtain r d' where w: "WriteAll b ob c d = (r, d')" by fastforce
  have u: "up d' \<longleftrightarrow> up d" using WriteAll_faults [of b ob c d] w by (simp add: up_def)
  have "at d (dpath b ob) = Some (File c)" "up d"
    using sh by (auto simp: shown_def split: if_splits option.splits node.splits)
  then show ?thesis using w u WriteAll_ok(1) [of b ob c d "()" d' "dpath b ob"] WriteAll_fail [of b ob c d _ d' "dpath b ob"]
    by (cases r) (auto simp: shown_def WriteAll_def Let_def up_def sched_def split: option.splits)
qed

subsection \<open>A majority blob wins the tally\<close>

lemma fold_tallyStep:
  assumes "fold (tallyStep blobs) cs (b0, n0) = (b1, n1)" "case b0 of None \<Rightarrow> n0 = 0 | Some c \<Rightarrow> tally blobs c = n0"
  shows "(case b1 of None \<Rightarrow> n1 = 0 | Some c \<Rightarrow> tally blobs c = n1) \<and> n0 \<le> n1 \<and> (\<forall>c \<in> set cs. tally blobs c \<le> n1)"
  using assms
proof (induction cs arbitrary: b0 n0)
  case (Cons c cs)
  obtain b2 n2 where st: "tallyStep blobs c (b0, n0) = (b2, n2)" by fastforce
  have inv: "case b2 of None \<Rightarrow> n2 = 0 | Some c \<Rightarrow> tally blobs c = n2" "n0 \<le> n2" "tally blobs c \<le> n2"
    using st Cons.prems(2) by (auto simp: tallyStep_def split: if_splits option.splits)
  show ?case using Cons.IH [of b2 n2] Cons.prems(1) st inv by auto
qed simp

lemma tally_member: "0 < tally blobs c \<Longrightarrow> Some c \<in> set blobs"
  unfolding tally_def by (induction blobs) (auto split: if_splits)

lemma winner_majority:
  assumes "\<forall>cs. set (ord cs) = set cs" "configQuorum (length blobs) \<le> tally blobs c"
  shows "winner ord blobs = (Some c, tally blobs c)"
proof -
  obtain b n where w: "winner ord blobs = (b, n)" by fastforce
  have pos: "0 < tally blobs c" using assms(2) by (simp add: configQuorum_def)
  then have mem: "Some c \<in> set blobs" by (rule tally_member)
  note fs = fold_tallyStep [OF w [unfolded winner_def]]
  have "c \<in> set (remdups (map the (filter (\<lambda>b. b \<noteq> None) blobs)))" using mem by force
  then have le: "tally blobs c \<le> n" and inv: "case b of None \<Rightarrow> n = 0 | Some c \<Rightarrow> tally blobs c = n"
    using fs assms(1) by (auto)
  then obtain c' where c': "b = Some c'" "tally blobs c' = n" using pos by (cases b) auto
  have "length blobs < tally blobs c + tally blobs c'" using assms(2) le c'(2) by (auto simp: configQuorum_def)
  then have "c' = c" using filter_overlap [of blobs "\<lambda>b. b = Some c" "\<lambda>b. b = Some c'"] unfolding tally_def by auto
  then show ?thesis using w c' by simp
qed

lemma tally_shown:
  "poolSteady sets \<Longrightarrow> tally (map (\<lambda>d. fst (readBlob key d)) (allDisks sets)) c
     = length (filter (\<lambda>d. shown d (cfgPath key) = Some c) (allDisks sets))"
  unfolding tally_def poolSteady_def filter_map length_map
  by (intro arg_cong [where f = length] filter_cong) (auto simp: readBlob_shown)

lemma same_disks_pool:
  assumes "length ds = length (allDisks sets)"
    and "\<And>i. i < length ds \<Longrightarrow> steady (allDisks sets ! i) \<Longrightarrow>
           steady (ds ! i) \<and> (shown (allDisks sets ! i) (cfgPath key) = Some c \<longrightarrow> shown (ds ! i) (cfgPath key) = Some c)"
    and "poolSteady sets"
  shows "poolSteady (setAllDisks sets ds)" and "holdsConfig key sets c \<Longrightarrow> holdsConfig key (setAllDisks sets ds) c"
proof -
  let ?P = "\<lambda>d. shown d (cfgPath key) = Some c"
  have st: "steady (ds ! i)" if "i < length ds" for i
    using assms that by (metis nth_mem poolSteady_def)
  then show "poolSteady (setAllDisks sets ds)"
    using assms(1) by (auto simp: poolSteady_def in_set_conv_nth)
  have "length (filter ?P (allDisks sets)) \<le> length (filter ?P ds)"
    unfolding filter_nth_eq [of ?P "allDisks sets"] filter_nth_eq [of ?P ds] assms(1)
    using assms by (intro length_filter_mono) (auto simp: poolSteady_def)
  then show "holdsConfig key sets c \<Longrightarrow> holdsConfig key (setAllDisks sets ds) c"
    using assms(1) by (simp add: holdsConfig_def)
qed

lemma WriteConfig_steady: "poolSteady sets \<Longrightarrow> poolSteady (snd (WriteConfig key c sets))"
  by (auto simp: WriteConfig_def split_beta poolSteady_def WriteAll_steady)

lemma WriteConfig_holds:
  assumes "poolSteady sets" "WriteConfig key c sets = (Inr u, sets')"
  shows "holdsConfig key sets' c"
proof -
  let ?w = "WriteAll [] (configObjectPath key) c"
  have s': "sets' = snd (forEachAllDisks ?w sets)"
    and q: "configQuorum (length (allDisks sets)) \<le> okCount (map (\<lambda>d. fst (?w d)) (allDisks sets))"
    using assms(2) by (auto simp: WriteConfig_def split_beta not_less split: if_splits)
  have "okCount (map (\<lambda>d. fst (?w d)) ds) \<le> length (filter (\<lambda>d. shown (snd (?w d)) (cfgPath key) = Some c) ds)"
    if "\<forall>d \<in> set ds. steady d" for ds
    using that
  proof (induction ds)
    case (Cons d ds)
    then show ?case using WriteAll_shown [of d "[]" "configObjectPath key" c]
      by (auto simp: okCount_def cfgPath_def split: sum.splits)
  qed (simp add: okCount_def)
  then show "holdsConfig key sets' c"
    using q assms(1) by (fastforce simp: holdsConfig_def s' filter_map o_def poolSteady_def)
qed

lemma ReadConfig_majority:
  assumes ok: "poolSteady sets" "holdsConfig key sets c" and ord: "\<forall>cs. set (ord cs) = set cs"
  shows "fst (ReadConfig ord gate key sets) = Some c"
proof -
  let ?bs = "map (\<lambda>d. fst (readBlob key d)) (allDisks sets)"
  have q: "configQuorum (length ?bs) \<le> tally ?bs c" using ok by (simp add: tally_shown holdsConfig_def)
  then have "Some c \<in> set ?bs" by (intro tally_member) (simp add: configQuorum_def)
  then have "\<not> list_all (\<lambda>b. b = None) ?bs" by (fastforce simp: list_all_iff)
  then show ?thesis using winner_majority [OF ord q] by (simp add: ReadConfig_def split_beta)
qed

lemma repairDisk_keeps:
  assumes "steady d"
  shows "steady (repairDisk key w (b, d)) \<and> (shown d (cfgPath key) = Some w \<longrightarrow> shown (repairDisk key w (b, d)) (cfgPath key) = Some w)"
  using assms WriteAll_shown_same [of d "[]" "configObjectPath key" w]
  by (auto simp: repairDisk_def WriteAll_steady cfgPath_def)

lemma ReadConfig_keeps:
  assumes ok: "poolSteady sets" and ord: "\<forall>cs. set (ord cs) = set cs"
  shows "poolSteady (snd (ReadConfig ord gate key sets))"
    and "holdsConfig key sets c \<Longrightarrow> holdsConfig key (snd (ReadConfig ord gate key sets)) c"
proof -
  let ?bs = "map (\<lambda>d. fst (readBlob key d)) (allDisks sets)"
  obtain sets1 where fe: "forEachAllDisks (readBlob key) sets = (?bs, sets1)"
    using forEachAllDisks_simps(1) [of "readBlob key" sets] by (cases "forEachAllDisks (readBlob key) sets") auto
  have s1: "sets1 = setAllDisks sets (map (\<lambda>d. snd (readBlob key d)) (allDisks sets))"
    using fe by (auto simp: forEachAllDisks_def Let_def o_def)
  have sd: "shown (snd (readBlob key d)) p = shown d p \<and> (steady (snd (readBlob key d)) \<longleftrightarrow> steady d)" for d p
    by (intro same_disk_shown readBlob_keeps)
  have k1: "poolSteady sets1" "holdsConfig key sets c \<Longrightarrow> holdsConfig key sets1 c" for c
    unfolding s1 by (rule same_disks_pool [OF _ _ ok]; simp add: sd)+
  have len: "length ?bs = length (allDisks sets1)" by (simp add: s1)
  define w where "w = the (fst (winner ord ?bs))"
  define ds where "ds = map (repairDisk key w) (zip ?bs (allDisks sets1))"
  have k2: "poolSteady (setAllDisks sets1 ds)" "holdsConfig key sets1 w \<Longrightarrow> holdsConfig key (setAllDisks sets1 ds) w"
    by (rule same_disks_pool [OF _ _ k1(1), where key = key and c = w]; use len in \<open>simp add: ds_def repairDisk_keeps\<close>)+
  have st: "snd (ReadConfig ord gate key sets) \<in> {sets1, setAllDisks sets1 ds}"
    by (auto simp: ReadConfig_def fe ds_def w_def split: prod.splits)
  then show "poolSteady (snd (ReadConfig ord gate key sets))" using k1 k2 by auto
  assume h: "holdsConfig key sets c"
  have "configQuorum (length ?bs) \<le> tally ?bs c" using ok h by (simp add: tally_shown holdsConfig_def)
  then have "w = c" using winner_majority [OF ord] by (simp add: w_def)
  then show "holdsConfig key (snd (ReadConfig ord gate key sets)) c" using st k1(2) [OF h] k2(2) by auto
qed

subsection \<open>The pool implements the configuration backend\<close>

definition isOk :: "'e + 'a \<Rightarrow> bool" where
  "isOk r = (case r of Inl _ \<Rightarrow> False | Inr _ \<Rightarrow> True)"

definition writeBlob :: "string \<Rightarrow> eset list \<Rightarrow> content \<Rightarrow> bool \<times> eset list" where
  "writeBlob key sets c = (case WriteConfig key c sets of (r, sets') \<Rightarrow> (isOk r, sets'))"

definition blobResult :: "content option \<Rightarrow> content readResult" where
  "blobResult b = (case b of None \<Rightarrow> ReadNotFound | Some c \<Rightarrow> ReadOk c)"

inductive readsBlob :: "string \<Rightarrow> eset list \<Rightarrow> content readResult \<Rightarrow> eset list \<Rightarrow> bool" for key where
  "\<forall>cs. set (ord cs) = set cs \<Longrightarrow>
   readsBlob key sets (blobResult (fst (ReadConfig ord gate key sets))) (snd (ReadConfig ord gate key sets))"

inductive_cases readsBlobE: "readsBlob key sets x sets'"

interpretation blobs: config_backend poolSteady "writeBlob key" "readsBlob key" "holdsConfig key" for key
proof unfold_locales
  fix sets sets' :: "eset list" and c ok x
  assume good: "poolSteady sets"
  show "writeBlob key sets c = (ok, sets') \<Longrightarrow> poolSteady sets'"
    using good WriteConfig_steady [OF good, of key c] by (auto simp: writeBlob_def split: prod.splits)
  show "writeBlob key sets c = (True, sets') \<Longrightarrow> holdsConfig key sets' c"
    using WriteConfig_holds [OF good] by (auto simp: writeBlob_def isOk_def split: prod.splits sum.splits)
  show "readsBlob key sets x sets' \<Longrightarrow> poolSteady sets'"
    by (erule readsBlobE) (simp add: ReadConfig_keeps(1) good)
  assume holds: "holdsConfig key sets c"
  show "readsBlob key sets x sets' \<Longrightarrow> holdsConfig key sets' c"
    by (erule readsBlobE) (simp add: ReadConfig_keeps(2) good holds)
  show "readsBlob key sets x sets' \<Longrightarrow> x = ReadOk c"
    using ReadConfig_majority [OF good holds] by (elim readsBlobE) (simp add: blobResult_def)
qed

text \<open>
  A backend of blobs is a backend of documents, for any document type with a codec: a blob that does
  not parse is a document that cannot be read.
\<close>

definition parseBlob :: "(content \<Rightarrow> 'd option) \<Rightarrow> content readResult \<Rightarrow> 'd readResult" where
  "parseBlob dec r = (case r of ReadNotFound \<Rightarrow> ReadNotFound | ReadErr \<Rightarrow> ReadErr | ReadBad \<Rightarrow> ReadBad
     | ReadOk c \<Rightarrow> (case dec c of None \<Rightarrow> ReadBad | Some d \<Rightarrow> ReadOk d))"

inductive readsDoc :: "(content \<Rightarrow> 'd option) \<Rightarrow> ('b \<Rightarrow> content readResult \<Rightarrow> 'b \<Rightarrow> bool) \<Rightarrow> 'b \<Rightarrow> 'd readResult \<Rightarrow> 'b \<Rightarrow> bool"
  for dec reads where
  "reads be y be' \<Longrightarrow> readsDoc dec reads be (parseBlob dec y) be'"

inductive_cases readsDocE: "readsDoc dec reads be x be'"

locale doc_backend = config_backend good w reads holds
  for good and w :: "'b \<Rightarrow> content \<Rightarrow> bool \<times> 'b" and reads holds +
  fixes enc :: "'d \<Rightarrow> content" and dec :: "content \<Rightarrow> 'd option"
  assumes dec_enc: "dec (enc d) = Some d"
begin

lemma doc_laws: "config_backend good (\<lambda>be d. w be (enc d)) (readsDoc dec reads) (\<lambda>be d. holds be (enc d))"
proof unfold_locales
  fix be be' d ok x
  assume g: "good be"
  show "w be (enc d) = (ok, be') \<Longrightarrow> good be'" using write_good g by blast
  show "w be (enc d) = (True, be') \<Longrightarrow> holds be' (enc d)" using write_holds g by blast
  show "readsDoc dec reads be x be' \<Longrightarrow> good be'" using read_good g by (blast elim: readsDocE)
  assume h: "holds be (enc d)"
  show "readsDoc dec reads be x be' \<Longrightarrow> holds be' (enc d)" using read_holds g h by (blast elim: readsDocE)
  have "parseBlob dec y = ReadOk d" if "reads be y be'" for y
    using holds_read [OF g h that] dec_enc by (simp add: parseBlob_def)
  then show "readsDoc dec reads be x be' \<Longrightarrow> x = ReadOk d" by (blast elim: readsDocE)
qed

end

sublocale doc_backend \<subseteq> doc: config_backend good "\<lambda>be d. w be (enc d)" "readsDoc dec reads" "\<lambda>be d. holds be (enc d)"
  by (rule doc_laws)

subsection \<open>The identity database on the pool\<close>

definition iamStoreKey :: string where "iamStoreKey = ''iam/store.json''"

definition iamWrite :: "eset list \<Rightarrow> persisted \<Rightarrow> bool \<times> eset list" where
  "iamWrite sets p = writeBlob iamStoreKey sets (IamDoc p)"

definition iamParse :: "content \<Rightarrow> persisted option" where
  "iamParse c = (case c of IamDoc p \<Rightarrow> Some p | _ \<Rightarrow> None)"

abbreviation iamReads :: "eset list \<Rightarrow> persisted readResult \<Rightarrow> eset list \<Rightarrow> bool" where
  "iamReads \<equiv> readsDoc iamParse (readsBlob iamStoreKey)"

interpretation iam_docs: doc_backend poolSteady "writeBlob iamStoreKey" "readsBlob iamStoreKey" "holdsConfig iamStoreKey" IamDoc iamParse
  by unfold_locales (simp add: iamParse_def)

interpretation iam_pool: iam_backend poolSteady iamWrite iamReads "\<lambda>sets p. holdsConfig iamStoreKey sets (IamDoc p)"
  unfolding iam_backend_def iamWrite_def by (rule iam_docs.doc_laws)

subsection \<open>Properties\<close>


definition wit_cdisk :: disk where "wit_cdisk = \<lparr>dfs = [], dfaults = (\<lambda>_. Works), dopno = 0\<rparr>"
definition wit_cdown :: disk where "wit_cdown = \<lparr>dfs = [], dfaults = (\<lambda>_. FailsBefore), dopno = 0\<rparr>"

definition wit_csets :: "eset list" where
  "wit_csets = [\<lparr>disks = [wit_cdisk, wit_cdisk, wit_cdisk, wit_cdown], ec = undefined, hasMrf = False, mrfCalls = []\<rparr>]"

lemma wit_csets_ok: "poolSteady wit_csets"
  by (simp add: poolSteady_def wit_csets_def allDisks_def steady_def up_def down_def wit_cdisk_def wit_cdown_def)

lemma wit_write: "fst (WriteConfig ''iam/store.json'' (Raw ''x'') wit_csets) = Inr ()"
  by code_simp


text \<open>
  A read has no quorum. There are four disks on which two writes of a key succeed one after the
  other, the second missing one disk; when only that disk answers the next read, the read reports the
  overwritten value as the current one.
\<close>

theorem config_stale_read:
  "\<exists>sets s1 s2. length (allDisks sets) = 4
     \<and> WriteConfig ''iam/store.json'' (Raw ''old'') sets = (Inr (), s1)
     \<and> WriteConfig ''iam/store.json'' (Raw ''new'') s1 = (Inr (), s2)
     \<and> fst (ReadConfig id True ''iam/store.json'' s2) = Some (Raw ''old'')"
proof -
  define flaky where "flaky = \<lparr>dfs = [], dfaults = (\<lambda>i. if i = 1 then FailsBefore else Works), dopno = 0\<rparr>"
  define late where "late = \<lparr>dfs = [], dfaults = (\<lambda>i. if i = 2 then FailsBefore else Works), dopno = 0\<rparr>"
  define sets :: "eset list" where "sets = [\<lparr>disks = [flaky, late, late, late], ec = undefined, hasMrf = False, mrfCalls = []\<rparr>]"
  have "length (allDisks sets) = 4" by (simp add: sets_def allDisks_def)
  moreover have "fst (WriteConfig ''iam/store.json'' (Raw ''old'') sets) = Inr ()"
    "fst (WriteConfig ''iam/store.json'' (Raw ''new'') (snd (WriteConfig ''iam/store.json'' (Raw ''old'') sets))) = Inr ()"
    "fst (ReadConfig id True ''iam/store.json'' (snd (WriteConfig ''iam/store.json'' (Raw ''new'') (snd (WriteConfig ''iam/store.json'' (Raw ''old'') sets))))) = Some (Raw ''old'')"
    unfolding sets_def flaky_def late_def by code_simp+
  ultimately show ?thesis by (metis prod.collapse)
qed


definition wit_pmanager :: "eset list manager" where
  "wit_pmanager = \<lparr>rootAccess = ''root'', rootSecret = ''rootsecret'',
     users = [(''bob'', \<lparr>uSecretKey = ''bobsecret'', uPolicies = [''readwrite''], uStatus = ''enabled''\<rparr>)],
     svcAccts = [], custom = [(''p'', readOnlyJSON)], builtin = Builtin, sts = [], store = wit_csets,
     inlineCache = [], lastSync = 0\<rparr>"

lemma wit_flush: "fst (flush iamWrite (\<lambda>_. ''doc'') 7 wit_pmanager) = None"
  by code_simp


end
