(* ===== verification/BucketCfg.thy ===== *)
theory BucketCfg
  imports Config
begin

text \<open>
  The bucket configuration store (\<open>internal/bucketcfg/bucketcfg.go\<close>): a map from buckets to their
  configuration, kept in memory by every node and persisted as one blob. The backend is a parameter
  as for the identity manager: a write reports success and returns the backend in either case. The
  legacy shape of the blob (a bare map, accepted by \<open>loadBytes\<close>) is not modelled.
\<close>

type_synonym 'b cfgWriter = "'b \<Rightarrow> envelope \<Rightarrow> bool \<times> 'b"

record 'b cfgStore =
  cbe :: 'b
  call :: "bucketConfig gomap"
  clastSync :: time

text \<open>\<open>None\<close> is the error return: a read that failed for another reason than a missing key.\<close>

definition Open :: "'b \<Rightarrow> envelope readResult \<Rightarrow> 'b cfgStore option" where
  "Open be r =
     (let s = \<lparr>cbe = be, call = [], clastSync = 0\<rparr> in
      case r of
        ReadErr \<Rightarrow> None
      | ReadNotFound \<Rightarrow> Some s
      | ReadBad \<Rightarrow> Some s
      | ReadOk env \<Rightarrow> Some (s\<lparr>call := Buckets env, clastSync := EUpdatedAt env\<rparr>))"

text \<open>One tick of the goroutine of \<open>StartRefresh\<close>.\<close>

definition cfgRefreshTick :: "envelope readResult \<Rightarrow> 'b cfgStore \<Rightarrow> 'b cfgStore" where
  "cfgRefreshTick r s =
     (case r of
        ReadOk env \<Rightarrow> if clastSync s < EUpdatedAt env then s\<lparr>call := Buckets env, clastSync := EUpdatedAt env\<rparr> else s
      | _ \<Rightarrow> s)"

definition Get :: "string \<Rightarrow> 'b cfgStore \<Rightarrow> bucketConfig" where
  "Get bucket s = (case map_of (call s) bucket of None \<Rightarrow> emptyConfig | Some c \<Rightarrow> c)"

text \<open>\<open>True\<close> is a nil error. The in-memory map keeps the change when the write fails.\<close>

definition saveLocked :: "'b cfgWriter \<Rightarrow> time \<Rightarrow> 'b cfgStore \<Rightarrow> bool \<times> 'b cfgStore" where
  "saveLocked w now s =
     (case w (cbe s) \<lparr>Buckets = call s, EUpdatedAt = now\<rparr> of
        (False, be') \<Rightarrow> (False, s\<lparr>cbe := be'\<rparr>)
      | (True, be') \<Rightarrow> (True, s\<lparr>cbe := be', clastSync := now\<rparr>))"

definition Update :: "'b cfgWriter \<Rightarrow> time \<Rightarrow> string \<Rightarrow> (bucketConfig \<Rightarrow> bucketConfig) \<Rightarrow> 'b cfgStore \<Rightarrow> bool \<times> 'b cfgStore" where
  "Update w now bucket fn s =
     saveLocked w now (s\<lparr>call := AList.update bucket (fn (Get bucket s)) (call s)\<rparr>)"

definition DeleteCfg :: "'b cfgWriter \<Rightarrow> time \<Rightarrow> string \<Rightarrow> 'b cfgStore \<Rightarrow> bool \<times> 'b cfgStore" where
  "DeleteCfg w now bucket s = saveLocked w now (s\<lparr>call := AList.delete bucket (call s)\<rparr>)"

lemma Get_Update: "Get b (snd (Update w now bucket fn s)) = (if b = bucket then fn (Get b s) else Get b s)"
  by (auto simp: Update_def saveLocked_def Get_def update_conv split: prod.splits bool.splits)

lemma Get_DeleteCfg: "Get b (snd (DeleteCfg w now bucket s)) = (if b = bucket then emptyConfig else Get b s)"
  by (auto simp: DeleteCfg_def saveLocked_def Get_def delete_conv split: prod.splits bool.splits)

text \<open>The interface of the backend at the store's document, with what other nodes and a restart see.\<close>

locale cfg_backend = config_backend good w reads holds
  for good and w :: "'b \<Rightarrow> envelope \<Rightarrow> bool \<times> 'b" and reads holds
begin

lemma saved_is_read:
  assumes "good (cbe s)" "saveLocked w now s = (True, s')"
    and "(\<lambda>a b. \<exists>x. reads a x b)\<^sup>*\<^sup>* (cbe s') be2" "reads be2 x be3"
  shows "x = ReadOk \<lparr>Buckets = call s, EUpdatedAt = now\<rparr>"
  by (rule written_is_read [OF assms(1) _ assms(3,4)])
    (use assms(2) in \<open>auto simp: saveLocked_def split: prod.splits bool.splits\<close>)

lemma update_visible:
  assumes "good (cbe s)" "Update w now bucket fn s = (True, s')"
    and "(\<lambda>a b. \<exists>x. reads a x b)\<^sup>*\<^sup>* (cbe s') be2" "reads be2 x be3"
  shows "\<exists>s2. Open be3 x = Some s2 \<and> (\<forall>b. Get b s2 = (if b = bucket then fn (Get b s) else Get b s))"
  using saved_is_read [OF _ assms(2) [unfolded Update_def] assms(3,4)] assms(1)
  by (auto simp: Open_def Get_def update_conv)

lemma other_node_refreshes:
  assumes "good (cbe s)" "Update w now bucket fn s = (True, s')" "reads (cbe s') x be3" "clastSync s2 < now"
  shows "Get b (cfgRefreshTick x s2) = (if b = bucket then fn (Get b s) else Get b s)"
  using saved_is_read [OF _ assms(2) [unfolded Update_def] rtranclp.rtrancl_refl assms(3)] assms(1,4)
  by (auto simp: cfgRefreshTick_def Get_def update_conv)

text \<open>Two nodes that update different buckets between two refreshes: the second write drops the first.\<close>

lemma lost_update:
  assumes be: "good be" "cbe s1 = be" and u1: "Update w now1 bucket1 fn1 s1 = (True, s1')"
    and u2: "cbe s2 = cbe s1'" "Update w now2 bucket2 fn2 s2 = (True, s2')" "bucket2 \<noteq> bucket1"
    and rd: "(\<lambda>a b. \<exists>x. reads a x b)\<^sup>*\<^sup>* (cbe s2') be2" "reads be2 x be3"
  shows "\<exists>s3. Open be3 x = Some s3 \<and> Get bucket1 s3 = Get bucket1 s2"
proof -
  have "good (cbe s2)" unfolding u2(1)
    by (rule write_good [OF be(1)]) (use u1 be(2) in \<open>auto simp: Update_def saveLocked_def split: prod.splits bool.splits\<close>)
  then show ?thesis using update_visible [OF _ u2(2) rd] u2(3) by auto
qed

end

subsection \<open>The store on the pool\<close>

definition cfgStoreKey :: string where "cfgStoreKey = ''bucketcfg/config.json''"

definition cfgWrite :: "eset list \<Rightarrow> envelope \<Rightarrow> bool \<times> eset list" where
  "cfgWrite sets e = writeBlob cfgStoreKey sets (BucketsDoc e)"

definition cfgParse :: "content \<Rightarrow> envelope option" where
  "cfgParse c = (case c of BucketsDoc e \<Rightarrow> Some e | _ \<Rightarrow> None)"

abbreviation cfgReads :: "eset list \<Rightarrow> envelope readResult \<Rightarrow> eset list \<Rightarrow> bool" where
  "cfgReads \<equiv> readsDoc cfgParse (readsBlob cfgStoreKey)"

interpretation cfg_docs: doc_backend poolSteady "writeBlob cfgStoreKey" "readsBlob cfgStoreKey" "holdsConfig cfgStoreKey" BucketsDoc cfgParse
  by unfold_locales (simp add: cfgParse_def)

interpretation cfg_pool: cfg_backend poolSteady cfgWrite cfgReads "\<lambda>sets e. holdsConfig cfgStoreKey sets (BucketsDoc e)"
  unfolding cfg_backend_def cfgWrite_def by (rule cfg_docs.doc_laws)

definition wit_cfgStore :: "eset list cfgStore" where
  "wit_cfgStore = \<lparr>cbe = wit_csets, call = [(''photos'', emptyConfig)], clastSync = 3\<rparr>"

definition setVersioned :: "bucketConfig \<Rightarrow> bucketConfig" where
  "setVersioned c = c\<lparr>cfgVersioning := ''Enabled''\<rparr>"

lemma wit_cfgStore_ok: "poolSteady (cbe wit_cfgStore)"
  by (simp add: wit_cfgStore_def wit_csets_ok)

lemma cfgReads_ex: "\<exists>x be3. cfgReads be x be3"
  by (blast intro: readsDoc.intros readsBlob.intros [where ord = id, simplified])



text \<open>
  Concurrent updates from two nodes are lost. Two nodes with the same state update the
  configurations of different buckets, one after the other and both successfully; whoever reads the
  store afterwards finds the first node's bucket as the second node last knew it.
\<close>

theorem bucketcfg_lost_update:
  assumes "poolSteady be" "cbe s1 = be" "Update cfgWrite now1 bucket1 fn1 s1 = (True, s1')"
    and "cbe s2 = cbe s1'" "Update cfgWrite now2 bucket2 fn2 s2 = (True, s2')" "bucket2 \<noteq> bucket1"
    and "(\<lambda>a b. \<exists>x. cfgReads a x b)\<^sup>*\<^sup>* (cbe s2') be2" "cfgReads be2 x be3"
  shows "\<exists>s3. Open be3 x = Some s3 \<and> Get bucket1 s3 = Get bucket1 s2"
  by (rule cfg_pool.lost_update [OF assms])

theorem bucketcfg_lost_update_witness:
  "\<exists>s1' s2' x be3 s3. Update cfgWrite 9 ''docs'' setVersioned wit_cfgStore = (True, s1')
     \<and> Update cfgWrite 10 ''photos'' setVersioned (wit_cfgStore\<lparr>cbe := cbe s1'\<rparr>) = (True, s2')
     \<and> cfgReads (cbe s2') x be3 \<and> Open be3 x = Some s3 \<and> cfgVersioning (Get ''docs'' s3) = []"
proof -
  let ?r1 = "Update cfgWrite 9 ''docs'' setVersioned wit_cfgStore"
  let ?s2 = "wit_cfgStore\<lparr>cbe := cbe (snd ?r1)\<rparr>"
  let ?r2 = "Update cfgWrite 10 ''photos'' setVersioned ?s2"
  have "fst ?r1" "fst ?r2" by code_simp+
  then have u: "?r1 = (True, snd ?r1)" "?r2 = (True, snd ?r2)" by (metis prod.collapse)+
  obtain x be3 where rd: "cfgReads (cbe (snd ?r2)) x be3" using cfgReads_ex by blast
  have "\<exists>s3. Open be3 x = Some s3 \<and> Get ''docs'' s3 = Get ''docs'' ?s2"
    by (rule bucketcfg_lost_update [OF wit_cfgStore_ok refl u(1) _ u(2) _ rtranclp.rtrancl_refl rd]) simp_all
  moreover have "cfgVersioning (Get ''docs'' ?s2) = []" by (simp add: Get_def wit_cfgStore_def emptyConfig_def)
  ultimately show ?thesis using u rd by metis
qed

end
