(* ===== verification/Router.thy ===== *)
theory Router
  imports Admission BucketCfg
begin

text \<open>
  The S3 entry point (\<open>internal/api/router.go\<close>, \<open>authz.go\<close>): which bucket and object a request names, which action
  it needs, whether it may proceed, and which handler serves it. A handler is named by its function in the source.
\<close>

subsection \<open>Requests\<close>

record s3Request =
  rqBucket :: string
  rqObject :: string
  rqStyle :: string

text \<open>\<open>net.SplitHostPort\<close>, as far as the host.\<close>

definition lastIndexByte :: "string \<Rightarrow> char \<Rightarrow> nat option" where
  "lastIndexByte s c = map_option (\<lambda>i. length s - 1 - i) (indexByte (rev s) c)"

definition splitHostPort :: "string \<Rightarrow> string option" where
  "splitHostPort s =
     (case lastIndexByte s (CHR '':'') of
        None \<Rightarrow> None
      | Some i \<Rightarrow>
          (case (if hasPrefix s ''['' then
                   (case indexByte s (CHR '']'') of
                      None \<Rightarrow> None
                    | Some e \<Rightarrow> if e + 1 = i then Some (take (e - 1) (drop 1 s), 1, e + 1) else None)
                 else if CHR '':'' \<in> set (take i s) then None
                 else Some (take i s, 0, 0)) of
             None \<Rightarrow> None
           | Some (host, j, k) \<Rightarrow>
               if CHR ''['' \<in> set (drop j s) \<or> CHR '']'' \<in> set (drop k s) then None else Some host))"

fun vhost :: "string list \<Rightarrow> string \<Rightarrow> string option" where
  "vhost [] host = None"
| "vhost (d # ds) host =
     (if host = d then None
      else if hasSuffix host (''.'' @ d) then Some (trimSuffix host (''.'' @ d))
      else vhost ds host)"

definition parseRequest :: "string list \<Rightarrow> httpReq \<Rightarrow> s3Request" where
  "parseRequest domainNames r =
     (let host = (case splitHostPort (Host r) of Some h \<Rightarrow> h | None \<Rightarrow> Host r);
          p = trimPrefix (URLPath r) ''/''
      in case vhost domainNames host of
           Some b \<Rightarrow> \<lparr>rqBucket = b, rqObject = p, rqStyle = ''vhost''\<rparr>
         | None \<Rightarrow>
             (case indexByte p (CHR ''/'') of
                Some i \<Rightarrow> \<lparr>rqBucket = take i p, rqObject = drop (Suc i) p, rqStyle = ''path''\<rparr>
              | None \<Rightarrow> \<lparr>rqBucket = p, rqObject = [], rqStyle = ''path''\<rparr>))"

subsection \<open>Actions (authz.go)\<close>

definition s3Action :: "httpReq \<Rightarrow> s3Request \<Rightarrow> string" where
  "s3Action r req =
     (let q = Query r; m = Method r in
      if rqBucket req = [] then ''s3:ListAllMyBuckets''
      else if rqObject req = [] then
        (if m = ''GET'' \<or> m = ''HEAD'' then
           (if has q ''location'' then ''s3:GetBucketLocation''
            else if has q ''uploads'' then ''s3:ListBucketMultipartUploads''
            else if has q ''versioning'' then ''s3:GetBucketVersioning''
            else if has q ''policy'' then ''s3:GetBucketPolicy''
            else if has q ''tagging'' then ''s3:GetBucketTagging''
            else ''s3:ListBucket'')
         else if m = ''PUT'' then
           (if has q ''versioning'' then ''s3:PutBucketVersioning''
            else if has q ''policy'' then ''s3:PutBucketPolicy''
            else if has q ''tagging'' then ''s3:PutBucketTagging''
            else ''s3:CreateBucket'')
         else if m = ''DELETE'' then
           (if has q ''policy'' then ''s3:DeleteBucketPolicy''
            else if has q ''tagging'' then ''s3:PutBucketTagging''
            else ''s3:DeleteBucket'')
         else if m = ''POST'' \<and> has q ''delete'' then ''s3:DeleteObject''
         else ''s3:ListBucket'')
      else
        (if m = ''GET'' then
           (if has q ''uploadId'' then ''s3:ListMultipartUploadParts''
            else if has q ''tagging'' then ''s3:GetObjectTagging''
            else ''s3:GetObject'')
         else if m = ''HEAD'' then ''s3:GetObject''
         else if m = ''PUT'' then (if has q ''tagging'' then ''s3:PutObjectTagging'' else ''s3:PutObject'')
         else if m = ''POST'' \<and> (has q ''uploads'' \<or> has q ''uploadId'') then ''s3:PutObject''
         else if m = ''DELETE'' then (if has q ''uploadId'' then ''s3:AbortMultipartUpload'' else ''s3:DeleteObject'')
         else ''s3:GetObject''))"

definition blank :: "char \<Rightarrow> bool" where "blank c \<longleftrightarrow> c = CHR '' '' \<or> c = CHR 0x09"

definition trimBlank :: "string \<Rightarrow> string" where
  "trimBlank s = rev (dropWhile blank (rev (dropWhile blank s)))"

definition clientIP :: "string \<Rightarrow> httpReq \<Rightarrow> string" where
  "clientIP remoteAddr r =
     (let h = Header r ''X-Forwarded-For'' in
      if h \<noteq> [] then (case indexByte h (CHR '','') of Some i \<Rightarrow> trimBlank (take i h) | None \<Rightarrow> trimBlank h)
      else case splitHostPort remoteAddr of Some host \<Rightarrow> host | None \<Rightarrow> remoteAddr)"

definition firstOf :: "string list option \<Rightarrow> string list" where
  "firstOf v = (case v of Some (x # _) \<Rightarrow> [x] | _ \<Rightarrow> [[]])"

definition argsOf :: "string \<Rightarrow> httpReq \<Rightarrow> s3Request \<Rightarrow> string \<Rightarrow> args" where
  "argsOf remoteAddr r req ak =
     \<lparr>AccountName = ak, ArgAction = s3Action r req, BucketName = rqBucket req, ObjectName = rqObject req, IsOwner = False,
      SourceIP = clientIP remoteAddr r, ConditionValues = [''s3:prefix'' \<mapsto> firstOf (map_of (Query r) ''prefix'')]\<rparr>"

subsection \<open>The cache of bucket policies (authz.go)\<close>

record compiledPolicy =
  cpRaw :: string
  cpPol :: "policy option"

definition polGet :: "parser \<Rightarrow> string \<Rightarrow> string \<Rightarrow> compiledPolicy gomap \<Rightarrow> policy option \<times> compiledPolicy gomap" where
  "polGet parse bucket raw c =
     (if raw = [] then (None, c)
      else case map_of c bucket of
        Some e \<Rightarrow> if cpRaw e = raw then (cpPol e, c)
                  else (parse raw, AList.update bucket \<lparr>cpRaw = raw, cpPol = parse raw\<rparr> c)
      | None \<Rightarrow> (parse raw, AList.update bucket \<lparr>cpRaw = raw, cpPol = parse raw\<rparr> c))"

subsection \<open>The server\<close>

record 'b server =
  svIam :: "'b manager"
  svPolCache :: "compiledPolicy gomap"
  svRL :: "rateLimiter option"
  svAdm :: admissionControl
  svRO :: readOnlyState

text \<open>What is configured or is not code of the repository.\<close>

record serverEnv =
  seAuth :: authEnv
  seNet :: netlib
  seParse :: parser
  seParseInt :: "string \<Rightarrow> int option"
  seDomains :: "string list"
  seSkipChunkVerify :: bool
  seAllowAnonymous :: bool

definition bucketPolicyAllows ::
  "serverEnv \<Rightarrow> (string \<Rightarrow> bucketConfig) \<Rightarrow> args \<Rightarrow> compiledPolicy gomap \<Rightarrow> bool \<times> compiledPolicy gomap" where
  "bucketPolicyAllows se cfg a c =
     (if BucketName a = [] then (False, c)
      else case polGet (seParse se) (BucketName a) (cfgPolicy (cfg (BucketName a))) c of (p, c1) \<Rightarrow>
        ((case p of Some pol \<Rightarrow> IsAllowed (seNet se) pol a | None \<Rightarrow> False), c1))"

definition authorizeS3 ::
  "serverEnv \<Rightarrow> time \<Rightarrow> (string \<Rightarrow> bucketConfig) \<Rightarrow> string \<Rightarrow> httpReq \<Rightarrow> s3Request \<Rightarrow> string \<Rightarrow> 'b server \<Rightarrow> bool \<times> 'b server" where
  "authorizeS3 se now cfg remoteAddr r req ak sv =
     (let a = argsOf remoteAddr r req ak in
      case (if ak \<noteq> [] then managerIsAllowed (seNet se) (seParse se) now (svIam sv) ak a else (False, svIam sv)) of (iam, m1) \<Rightarrow>
        (let sv1 = sv\<lparr>svIam := m1\<rparr> in
         if iam then (True, sv1)
         else case bucketPolicyAllows se cfg a (svPolCache sv1) of (bp, c1) \<Rightarrow>
           (bp \<or> (ak = [] \<and> seAllowAnonymous se), sv1\<lparr>svPolCache := c1\<rparr>)))"

subsection \<open>Dispatch (router.go)\<close>

text \<open>The codes of \<open>api/errors.go\<close>; those of the authentication are wrapped.\<close>

datatype apiCode = AuthErr authCode | ErrAccessDenied | ErrSlowDown | ErrServerReadOnly | ErrBusy | ErrMethodNotAllowed | ErrNotImplemented
  | ErrBadDigest | ErrEntityTooSmall | ErrEntityTooLarge | ErrIncompleteBody | ErrInternalError | ErrInvalidBucketName
  | ErrInvalidDigest | ErrInvalidRange | ErrInvalidMaxKeys | ErrInvalidPart | ErrInvalidPartOrder | ErrInvalidRequest
  | ErrMalformedXML | ErrMissingContentLength | ErrMissingRequestBodyError | ErrNoSuchBucket | ErrNoSuchKey | ErrNoSuchUpload
  | ErrPreconditionFailed | ErrBucketNotEmpty | ErrBucketAlreadyOwnedByYou | ErrBucketAlreadyExists | ErrMissingSecurityHeader
  | ErrNoSuchBucketPolicy | ErrNoSuchCORSConfiguration | ErrNoSuchTagSet | ErrNoSuchObjectLockConfiguration | ErrObjectLockConflict
  | ErrInvalidBucketState | ErrNoSuchLifecycleConfiguration | ErrQuotaExceeded | ErrMalformedPOSTRequest | ErrInvalidPolicyDocument
  | ErrNoSuchWebsiteConfiguration | ErrInvalidWriteOffset

datatype outcome = Handler string | Reply apiCode | SuccessOK

fun firstMatch :: "(bool \<times> 'a) list \<Rightarrow> 'a \<Rightarrow> 'a" where
  "firstMatch [] dflt = dflt"
| "firstMatch ((c, x) # cs) dflt = (if c then x else firstMatch cs dflt)"

definition dispatchBucket :: "httpReq \<Rightarrow> outcome" where
  "dispatchBucket r =
     (let q = Query r in
      if Method r = ''GET'' then
        firstMatch
          [(has q ''location'', Handler ''handleGetBucketLocation''), (has q ''uploads'', Handler ''handleListMultipartUploads''),
           (has q ''versioning'', Handler ''handleGetBucketVersioning''), (has q ''versions'', Handler ''handleListObjectVersions''),
           (has q ''policy'', Handler ''handleGetBucketPolicy''), (has q ''tagging'', Handler ''handleGetBucketTagging''),
           (has q ''cors'', Handler ''handleGetBucketCORS''), (has q ''object-lock'', Handler ''handleGetBucketObjectLock''),
           (has q ''replication'', Handler ''handleGetBucketReplication''), (has q ''lifecycle'', Handler ''handleGetBucketLifecycle''),
           (has q ''notification'', Handler ''handleGetBucketNotification''), (has q ''website'', Handler ''handleGetBucketWebsite''),
           (has q ''compression'', Handler ''handleGetBucketCompression''), (has q ''quota'', Handler ''handleGetBucketQuota''),
           ((case map_of q ''list-type'' of Some (v # _) \<Rightarrow> v = ''2'' | _ \<Rightarrow> False), Handler ''handleListObjectsV2'')]
          (Handler ''handleListObjectsV1'')
      else if Method r = ''PUT'' then
        firstMatch
          [(has q ''policy'', Handler ''handlePutBucketPolicy''), (has q ''tagging'', Handler ''handlePutBucketTagging''),
           (has q ''cors'', Handler ''handlePutBucketCORS''), (has q ''notification'', Handler ''handlePutBucketNotification''),
           (has q ''versioning'', Handler ''handlePutBucketVersioning''), (has q ''object-lock'', Handler ''handlePutBucketObjectLock''),
           (has q ''replication'', Handler ''handlePutBucketReplication''), (has q ''lifecycle'', Handler ''handlePutBucketLifecycle''),
           (has q ''website'', Handler ''handlePutBucketWebsite''), (has q ''compression'', Handler ''handlePutBucketCompression''),
           (has q ''quota'', Handler ''handlePutBucketQuota''), (has q ''acl'', SuccessOK)]
          (Handler ''handleCreateBucket'')
      else if Method r = ''DELETE'' then
        firstMatch
          [(has q ''policy'', Handler ''handleDeleteBucketPolicy''), (has q ''tagging'', Handler ''handleDeleteBucketTagging''),
           (has q ''cors'', Handler ''handleDeleteBucketCORS''), (has q ''replication'', Handler ''handleDeleteBucketReplication''),
           (has q ''lifecycle'', Handler ''handleDeleteBucketLifecycle''), (has q ''website'', Handler ''handleDeleteBucketWebsite''),
           (has q ''quota'', Handler ''handleDeleteBucketQuota'')]
          (Handler ''handleDeleteBucket'')
      else if Method r = ''HEAD'' then Handler ''handleHeadBucket''
      else if Method r = ''POST'' \<and> has q ''delete'' then Handler ''handleDeleteObjects''
      else Reply ErrMethodNotAllowed)"

definition dispatchObject :: "httpReq \<Rightarrow> outcome" where
  "dispatchObject r =
     (let q = Query r; copies = (Header r ''x-amz-copy-source'' \<noteq> []) in
      if Method r = ''GET'' then
        firstMatch
          [(has q ''uploadId'', Handler ''handleListObjectParts''),
           (has q ''preview'' \<or> has q ''img'' \<or> has q ''w'' \<or> has q ''h'', Handler ''handleObjectPreview''),
           (has q ''tagging'', Handler ''handleGetObjectTagging''), (has q ''retention'', Handler ''handleGetObjectRetention''),
           (has q ''legal-hold'', Handler ''handleGetObjectLegalHold''), (has q ''acl'', Reply ErrNotImplemented)]
          (Handler ''handleGetObject'')
      else if Method r = ''HEAD'' then Handler ''handleHeadObject''
      else if Method r = ''PUT'' then
        firstMatch
          [(has q ''uploadId'' \<and> has q ''partNumber'', Handler (if copies then ''handleCopyObjectPart'' else ''handlePutObjectPart'')),
           (copies, Handler ''handleCopyObject''),
           (has q ''tagging'', Handler ''handlePutObjectTagging''), (has q ''retention'', Handler ''handlePutObjectRetention''),
           (has q ''legal-hold'', Handler ''handlePutObjectLegalHold''), (has q ''acl'', SuccessOK)]
          (Handler ''handlePutObject'')
      else if Method r = ''POST'' then
        firstMatch [(has q ''uploads'', Handler ''handleNewMultipartUpload''), (has q ''uploadId'', Handler ''handleCompleteMultipartUpload'')]
          (Reply ErrMethodNotAllowed)
      else if Method r = ''DELETE'' then
        firstMatch [(has q ''uploadId'', Handler ''handleAbortMultipartUpload''), (has q ''tagging'', Handler ''handleDeleteObjectTagging'')]
          (Handler ''handleDeleteObject'')
      else Reply ErrMethodNotAllowed)"

definition dispatch :: "httpReq \<Rightarrow> s3Request \<Rightarrow> outcome" where
  "dispatch r req =
     (if rqBucket req = [] then (if Method r = ''GET'' then Handler ''handleListBuckets'' else Reply ErrMethodNotAllowed)
      else if rqObject req = [] then dispatchBucket r
      else dispatchObject r)"

subsection \<open>The gate (router.go)\<close>

definition originAllowed :: "string list \<Rightarrow> string \<Rightarrow> bool" where
  "originAllowed patterns origin \<longleftrightarrow>
     list_ex (\<lambda>p. p = ''*'' \<or> p = origin \<or> (hasPrefix p ''*'' \<and> hasSuffix origin (drop 1 p))) patterns"

text \<open>Whether the request was answered as a preflight; the response headers are not modelled.\<close>

definition applyCORS :: "(string \<Rightarrow> bucketConfig) \<Rightarrow> httpReq \<Rightarrow> string \<Rightarrow> bool" where
  "applyCORS cfg r bucket =
     (let origin = Header r ''Origin'';
          m0 = Header r ''Access-Control-Request-Method'';
          method = (if m0 = [] then Method r else m0)
      in if origin = [] \<or> bucket = [] then False
         else Method r = ''OPTIONS'' \<and>
           list_ex (\<lambda>rule. originAllowed (AllowedOrigins rule) origin
              \<and> (method \<in> set (AllowedMethods rule) \<or> ''*'' \<in> set (AllowedMethods rule))) (cfgCORS (cfg bucket)))"

definition isPostFormUpload :: "httpReq \<Rightarrow> s3Request \<Rightarrow> bool" where
  "isPostFormUpload r req \<longleftrightarrow> Method r = ''POST'' \<and> rqBucket req \<noteq> [] \<and> rqObject req = []
     \<and> hasPrefix (toLower (trimSpaceS (Header r ''Content-Type''))) ''multipart/form-data''"

text \<open>\<open>formAction\<close> is the field \<open>Action\<close> of the parsed form.\<close>

definition isSTSRequest :: "string \<Rightarrow> httpReq \<Rightarrow> bool" where
  "isSTSRequest formAction r \<longleftrightarrow> Method r = ''POST''
     \<and> (if queryGet r ''Action'' = [] then formAction else queryGet r ''Action'') = ''AssumeRole''"

definition websiteConfigFor :: "(string \<Rightarrow> bucketConfig) \<Rightarrow> string \<Rightarrow> httpReq \<Rightarrow> websiteConfig option" where
  "websiteConfigFor cfg bucket r = (if bucket = [] \<or> Query r \<noteq> [] then None else cfgWebsite (cfg bucket))"

text \<open>How a request leaves the gate; \<open>Serve\<close> is what an authorised request gets, with the bytes it holds reserved until it ends.\<close>

datatype gate = Refuse apiCode | AssumeRole string | PostForm string | Website string string websiteConfig string | Preflight
  | Serve outcome s3Request string int

definition rateGate :: "time \<Rightarrow> string \<Rightarrow> httpReq \<Rightarrow> string \<Rightarrow> 'b server \<Rightarrow> bool \<times> 'b server" where
  "rateGate now remoteAddr r ak sv =
     (case svRL sv of
        None \<Rightarrow> (True, sv)
      | Some l \<Rightarrow>
          (case rlAllow now (if ak = [] then ''anon:'' @ clientIP remoteAddr r else ak) l of (ok, l1) \<Rightarrow> (ok, sv\<lparr>svRL := Some l1\<rparr>)))"

text \<open>The reservation of an admitted request; 0 for one that needs none.\<close>

definition writeGate :: "serverEnv \<Rightarrow> time \<Rightarrow> nat \<Rightarrow> httpReq \<Rightarrow> 'b server \<Rightarrow> (apiCode + int) \<times> 'b server" where
  "writeGate se now heap r sv =
     (if \<not> isMutatingRequest r then (Inr 0, sv)
      else if roOn (svRO sv) then (Inl ErrServerReadOnly, sv)
      else case admit now heap (admissionBytes (seParseInt se) r) (svAdm sv) of (res, a) \<Rightarrow>
        ((case res of Some n \<Rightarrow> Inr n | None \<Rightarrow> Inl ErrBusy), sv\<lparr>svAdm := a\<rparr>))"

definition handleS3 ::
  "serverEnv \<Rightarrow> time \<Rightarrow> nat \<Rightarrow> (string \<Rightarrow> bucketConfig) \<Rightarrow> string \<Rightarrow> string \<Rightarrow> httpReq \<Rightarrow> 'b server \<Rightarrow> gate \<times> 'b server" where
  "handleS3 se now heap cfg remoteAddr formAction r sv =
     (let req = parseRequest (seDomains se) r in
      case authenticate (seAuth se) now (seSkipChunkVerify se) r of (body, ak, code) \<Rightarrow>
        if code \<noteq> ErrNone then (Refuse (AuthErr code), sv)
        else case rateGate now remoteAddr r ak sv of (ok, sv1) \<Rightarrow>
          if \<not> ok then (Refuse ErrSlowDown, sv1)
          else if rqBucket req = [] \<and> isSTSRequest formAction r then (AssumeRole ak, sv1)
          else if isPostFormUpload r req then (PostForm (rqBucket req), sv1)
          else case writeGate se now heap r sv1 of
            (Inl e, sv2) \<Rightarrow> (Refuse e, sv2)
          | (Inr n, sv2) \<Rightarrow>
              (case (if Method r = ''GET'' then websiteConfigFor cfg (rqBucket req) r else None) of
                 Some ws \<Rightarrow> (Website (rqBucket req) (rqObject req) ws ak, sv2)
               | None \<Rightarrow>
                   if applyCORS cfg r (rqBucket req) then (Preflight, sv2)
                   else case authorizeS3 se now cfg remoteAddr r req ak sv2 of (ok2, sv3) \<Rightarrow>
                     if ok2 then (Serve (dispatch r req) req ak n, sv3)
                     else (Refuse ErrAccessDenied, sv3\<lparr>svAdm := release n (svAdm sv3)\<rparr>)))"

subsection \<open>Properties\<close>

text \<open>What the cache of compiled policies holds is what parsing gives, so it is transparent.\<close>

definition polCache_ok :: "parser \<Rightarrow> compiledPolicy gomap \<Rightarrow> bool" where
  "polCache_ok parse c \<longleftrightarrow> (\<forall>b e. map_of c b = Some e \<longrightarrow> cpPol e = parse (cpRaw e))"

lemma polGet_transparent:
  assumes "polCache_ok parse c"
  shows "fst (polGet parse b raw c) = (if raw = [] then None else parse raw)" "polCache_ok parse (snd (polGet parse b raw c))"
  using assms by (auto simp: polGet_def polCache_ok_def update_conv split: option.splits if_splits)

definition bucketPolicyGrants :: "serverEnv \<Rightarrow> (string \<Rightarrow> bucketConfig) \<Rightarrow> args \<Rightarrow> bool" where
  "bucketPolicyGrants se cfg a \<longleftrightarrow> BucketName a \<noteq> [] \<and> cfgPolicy (cfg (BucketName a)) \<noteq> []
     \<and> (\<exists>pol. seParse se (cfgPolicy (cfg (BucketName a))) = Some pol \<and> IsAllowed (seNet se) pol a)"

lemma authorizeS3_iff:
  assumes "polCache_ok (seParse se) (svPolCache sv)"
  shows "fst (authorizeS3 se now cfg ra r req ak sv) \<longleftrightarrow>
      (ak \<noteq> [] \<and> fst (managerIsAllowed (seNet se) (seParse se) now (svIam sv) ak (argsOf ra r req ak)))
      \<or> bucketPolicyGrants se cfg (argsOf ra r req ak) \<or> (ak = [] \<and> seAllowAnonymous se)"
    "polCache_ok (seParse se) (svPolCache (snd (authorizeS3 se now cfg ra r req ak sv)))"
  using assms polGet_transparent [OF assms]
  by (auto simp: authorizeS3_def Let_def bucketPolicyAllows_def bucketPolicyGrants_def split_beta split: option.splits)

lemma gates_keep [simp]:
  "svPolCache (snd (rateGate now ra r ak sv)) = svPolCache sv" "svIam (snd (rateGate now ra r ak sv)) = svIam sv"
  "svPolCache (snd (writeGate se now heap r sv)) = svPolCache sv" "svIam (snd (writeGate se now heap r sv)) = svIam sv"
  by (auto simp: rateGate_def writeGate_def split_beta split: option.split)


text \<open>A browser form upload leaves the gate before the read-only mode and the admission control are looked at.\<close>

lemma postform_skips_write_gate:
  assumes "isPostFormUpload r (parseRequest (seDomains se) r)" "authenticate (seAuth se) now (seSkipChunkVerify se) r = (body, ak, ErrNone)"
    "fst (rateGate now ra r ak sv)"
  shows "fst (handleS3 se now heap cfg ra form r sv) = PostForm (rqBucket (parseRequest (seDomains se) r))"
  using assms by (auto simp: handleS3_def Let_def split_beta isPostFormUpload_def)

text \<open>
  The action a request is checked for and the handler that serves it are chosen in different orders. A PUT that has both
  \<open>versioning\<close> and \<open>policy\<close> is checked for setting versioning and replaces the bucket policy; a PUT of an
  object with \<open>tagging\<close> and a copy source is checked for tagging and overwrites the object; and the source of a copy is no part of the check.
\<close>

lemma action_handler_mismatch:
  assumes "Method r = ''PUT''" "rqBucket req \<noteq> []"
  shows "(rqObject req = [] \<and> has (Query r) ''versioning'' \<and> has (Query r) ''policy'' \<longrightarrow>
      s3Action r req = ''s3:PutBucketVersioning'' \<and> dispatch r req = Handler ''handlePutBucketPolicy'')
    \<and> (rqObject req \<noteq> [] \<and> has (Query r) ''tagging'' \<and> \<not> has (Query r) ''uploadId'' \<and> Header r ''x-amz-copy-source'' \<noteq> [] \<longrightarrow>
      s3Action r req = ''s3:PutObjectTagging'' \<and> dispatch r req = Handler ''handleCopyObject'')
    \<and> argsOf ra (r\<lparr>Header := (Header r)(''x-amz-copy-source'' := src)\<rparr>) req ak = argsOf ra r req ak"
  using assms by (simp add: s3Action_def dispatch_def dispatchBucket_def dispatchObject_def argsOf_def clientIP_def Let_def)

subsection \<open>Concrete requests\<close>

definition wit_getReq :: httpReq where
  "wit_getReq = \<lparr>Method = ''GET'', URLPath = ''/bkt/k'', Query = [], Header = (\<lambda>_. []), Host = ''h'', ContentLength = 0\<rparr>"

definition wit_putReq :: httpReq where
  "wit_putReq = \<lparr>Method = ''PUT'', URLPath = ''/bkt'', Query = [(''policy'', [[]]), (''versioning'', [[]])], Header = (\<lambda>_. []), Host = ''h'',
     ContentLength = 0\<rparr>"

definition wit_serverEnv :: serverEnv where
  "wit_serverEnv = \<lparr>seAuth = wit_authEnv, seNet = wit_nl, seParse = (\<lambda>_. None), seParseInt = (\<lambda>_. None), seDomains = [],
     seSkipChunkVerify = False, seAllowAnonymous = True\<rparr>"

definition wit_server :: "unit server" where
  "wit_server = \<lparr>svIam = wit_manager, svPolCache = [], svRL = None, svAdm = \<lparr>adMaxInFlight = 100, adInFlight = 0, adMemLimit = 0, adShedUntil = 0, adLast = 0\<rparr>,
     svRO = \<lparr>roManual = False, roAuto = False\<rparr>\<rparr>"


lemma action_handler_mismatch_witness:
  "s3Action wit_putReq \<lparr>rqBucket = ''bkt'', rqObject = [], rqStyle = ''path''\<rparr> = ''s3:PutBucketVersioning''
     \<and> dispatch wit_putReq \<lparr>rqBucket = ''bkt'', rqObject = [], rqStyle = ''path''\<rparr> = Handler ''handlePutBucketPolicy''"
  using action_handler_mismatch [of wit_putReq "\<lparr>rqBucket = ''bkt'', rqObject = [], rqStyle = ''path''\<rparr>"] by (simp add: wit_putReq_def has_def)

end
