(* ===== verification/SSEnc.thy ===== *)
theory SSEnc
  imports ErasureSet
begin

text \<open>
  Server-side encryption: the chunked AES-GCM format of \<open>internal/sse/sse.go\<close>, the local mode of the
  key manager (\<open>internal/kms/kms.go\<close>) and their use by the erasure backend
  (\<open>internal/erasure/encryption.go\<close>). AES-GCM (\<open>crypto/cipher\<close>) is the record \<open>aead\<close>; what the code
  relies on is \<open>aead_ok\<close> and, where authenticity matters, \<open>aead_auth\<close>. A reader is its bytes and
  whether it fails after them; sizes and offsets are non-negative.
\<close>

record aead =
  aSeal :: "bytes \<Rightarrow> bytes \<Rightarrow> bytes \<Rightarrow> bytes"
  aOpen :: "bytes \<Rightarrow> bytes \<Rightarrow> bytes \<Rightarrow> bytes option"

definition aead_ok :: "aead \<Rightarrow> bool" where
  "aead_ok a \<longleftrightarrow> (\<forall>k n x. aOpen a k n (aSeal a k n x) = Some x \<and> length (aSeal a k n x) = length x + 16)"

definition aead_auth :: "aead \<Rightarrow> bool" where
  "aead_auth a \<longleftrightarrow> (\<forall>k n c x. aOpen a k n c = Some x \<longrightarrow> c = aSeal a k n x)"

subsection \<open>The format (sse.go)\<close>

definition ChunkPlain :: nat where "ChunkPlain = 65536"
definition tagLen :: nat where "tagLen = 16"
definition ChunkCipher :: nat where "ChunkCipher = ChunkPlain + tagLen"

definition CipherSize :: "nat \<Rightarrow> nat" where
  "CipherSize n =
     (if n = 0 then 0
      else (let full = n div ChunkPlain; rem = n mod ChunkPlain; sz = full * ChunkCipher
            in if rem > 0 then sz + (rem + tagLen) else sz))"

definition PlainSizeOf :: "nat \<Rightarrow> nat" where
  "PlainSizeOf n =
     (if n = 0 then 0
      else (let full = n div ChunkCipher; rem = n mod ChunkCipher; sz = full * ChunkPlain
            in if rem > 0 then sz + (rem - tagLen) else sz))"

text \<open>\<open>aes.NewCipher\<close> accepts keys of 16, 24 or 32 bytes.\<close>

definition keyOK :: "bytes \<Rightarrow> bool" where
  "keyOK key = (length key = 16 \<or> length key = 24 \<or> length key = 32)"

definition be64 :: "nat \<Rightarrow> bytes" where
  "be64 c = map (\<lambda>i. char_of (c div 256 ^ (7 - i) mod 256 :: nat)) [0..<8]"

definition nonce :: "bytes \<Rightarrow> nat \<Rightarrow> bytes" where
  "nonce pfx counter = take 4 (pfx @ replicate 4 (CHR 0x00)) @ be64 counter"

text \<open>The chunks the encrypting reader yields, from chunk number \<open>counter\<close> on.\<close>

function encLoop :: "aead \<Rightarrow> bytes \<Rightarrow> bytes \<Rightarrow> nat \<Rightarrow> bytes \<Rightarrow> bytes" where
  "encLoop a key pfx counter d =
     (if d = [] then []
      else aSeal a key (nonce pfx counter) (take ChunkPlain d) @ encLoop a key pfx (Suc counter) (drop ChunkPlain d))"
  by pat_completeness auto
termination by (relation "measure (\<lambda>(a, key, pfx, counter, d). length d)") (auto simp: ChunkPlain_def)

declare encLoop.simps [simp del]

definition EncryptReader :: "aead \<Rightarrow> bytes \<Rightarrow> bytes \<Rightarrow> reader \<Rightarrow> reader" where
  "EncryptReader a key pfx r =
     (if \<not> keyOK key then \<lparr>rdata = [], rfails = True\<rparr>
      else \<lparr>rdata = encLoop a key pfx 0 (rdata r), rfails = rfails r\<rparr>)"

datatype sseErr = SseKey | SseSource | SseTruncated | SseAuth

text \<open>
  The plaintext the decrypting reader yields and the error that ends it; \<open>None\<close> is the end of the
  stream, which is also what a source that ends on a chunk boundary gives.
\<close>

function decLoop :: "aead \<Rightarrow> bytes \<Rightarrow> bytes \<Rightarrow> bool \<Rightarrow> nat \<Rightarrow> nat \<Rightarrow> nat \<Rightarrow> bytes \<Rightarrow> bytes \<times> sseErr option" where
  "decLoop a key pfx srcFails counter skip remain src =
     (if remain = 0 then ([], None)
      else if src = [] then ([], if srcFails then Some SseSource else None)
      else if length src < ChunkCipher \<and> length src < tagLen + 1 then ([], Some SseTruncated)
      else case aOpen a key (nonce pfx counter) (take ChunkCipher src) of
        None \<Rightarrow> ([], Some SseAuth)
      | Some pt \<Rightarrow>
          (let out = take remain (drop skip pt)
           in case decLoop a key pfx srcFails (Suc counter) (skip - length pt) (remain - length out) (drop ChunkCipher src) of
                (rest, e) \<Rightarrow> (out @ rest, e)))"
  by pat_completeness auto
termination by (relation "measure (\<lambda>(a, key, pfx, sf, counter, skip, remain, src). length src)") (auto simp: ChunkCipher_def ChunkPlain_def)

declare decLoop.simps [simp del]

definition DecryptRange :: "aead \<Rightarrow> reader \<Rightarrow> bytes \<Rightarrow> bytes \<Rightarrow> nat \<Rightarrow> nat \<Rightarrow> nat \<Rightarrow> bytes \<times> sseErr option" where
  "DecryptRange a src key pfx firstChunk intraSkip len =
     (if \<not> keyOK key then ([], Some SseKey)
      else decLoop a key pfx (rfails src) firstChunk intraSkip len (rdata src))"

definition CipherOffsetForPlain :: "nat \<Rightarrow> nat \<times> nat \<times> nat" where
  "CipherOffsetForPlain off = (let fc = off div ChunkPlain in (fc, fc * ChunkCipher, off mod ChunkPlain))"

subsection \<open>The key manager (kms.go, local mode; Vault is a parameter)\<close>

record kms =
  master :: bytes
  vaultAddr :: string
  vaultEncrypt :: "bytes \<Rightarrow> bytes option"
  vaultDecrypt :: "bytes \<Rightarrow> bytes option"

datatype kmsErr = KmsVault | KmsNoVault | KmsTooShort | KmsAuth

definition WrapKey :: "aead \<Rightarrow> kms \<Rightarrow> bytes \<Rightarrow> bytes \<Rightarrow> kmsErr + bytes" where
  "WrapKey a m nonce12 dek =
     (if vaultAddr m \<noteq> [] then (case vaultEncrypt m dek of
          None \<Rightarrow> Inl KmsVault
        | Some ct \<Rightarrow> if hasPrefix ct ''vault:'' then Inr ct else Inl KmsVault)
      else Inr (nonce12 @ aSeal a (master m) nonce12 dek))"

definition UnwrapKey :: "aead \<Rightarrow> kms \<Rightarrow> bytes \<Rightarrow> kmsErr + bytes" where
  "UnwrapKey a m wrapped =
     (if hasPrefix wrapped ''vault:'' then
        (if vaultAddr m = [] then Inl KmsNoVault
         else case vaultDecrypt m wrapped of None \<Rightarrow> Inl KmsVault | Some dek \<Rightarrow> Inr dek)
      else if length wrapped < 12 + 16 then Inl KmsTooShort
      else case aOpen a (master m) (take 12 wrapped) (drop 12 wrapped) of
        None \<Rightarrow> Inl KmsAuth | Some dek \<Rightarrow> Inr dek)"

subsection \<open>Use by the backend (encryption.go)\<close>

text \<open>\<open>dek\<close>, \<open>pfx\<close> and \<open>nonce12\<close> are what \<open>crypto/rand\<close> draws.\<close>

definition newSSEParams :: "aead \<Rightarrow> kms \<Rightarrow> bytes \<Rightarrow> bytes \<Rightarrow> bytes \<Rightarrow> kmsErr + sseParams" where
  "newSSEParams a m dek pfx nonce12 =
     (case WrapKey a m nonce12 dek of
        Inl e \<Rightarrow> Inl e
      | Inr wrapped \<Rightarrow> Inr \<lparr>spSeal = encLoop a dek pfx 0, spEncDEK = hexEncode wrapped, spPrefix = pfx\<rparr>)"

datatype decErr = DecHex | DecKms kmsErr

definition decryptReader :: "aead \<Rightarrow> kms \<Rightarrow> xlMeta \<Rightarrow> reader \<Rightarrow> nat \<Rightarrow> nat \<Rightarrow> decErr + (bytes \<times> sseErr option)" where
  "decryptReader a km m src plainOff plainLen =
     (case hexDecode (EncDEK m) of
        None \<Rightarrow> Inl DecHex
      | Some wrapped \<Rightarrow>
          (case UnwrapKey a km wrapped of
             Inl e \<Rightarrow> Inl (DecKms e)
           | Inr dek \<Rightarrow>
               (case hexDecode (NoncePrefix m) of
                  None \<Rightarrow> Inl DecHex
                | Some pfx \<Rightarrow>
                    (case CipherOffsetForPlain plainOff of
                       (firstChunk, _, intraSkip) \<Rightarrow> Inr (DecryptRange a src dek pfx firstChunk intraSkip plainLen)))))"

definition cipherRange :: "nat \<Rightarrow> nat \<Rightarrow> nat \<Rightarrow> nat \<times> nat" where
  "cipherRange plainOff plainLen cipherTotal =
     (case CipherOffsetForPlain plainOff of
        (_, co, intra) \<Rightarrow>
          (let chunks = (intra + plainLen + ChunkPlain - 1) div ChunkPlain;
               cl = chunks * ChunkCipher
           in (co, if co + cl > cipherTotal then cipherTotal - co else cl)))"

subsection \<open>Lemmas\<close>

lemma chunk_pos [simp]: "ChunkPlain > 0" "ChunkCipher > 0" "ChunkCipher > ChunkPlain"
  by (simp_all add: ChunkPlain_def ChunkCipher_def tagLen_def)

lemma chunk_nonzero [simp]: "ChunkPlain \<noteq> 0" "ChunkCipher \<noteq> 0"
  by (simp_all add: ChunkPlain_def ChunkCipher_def tagLen_def)

lemma encLoop_Nil [simp]: "encLoop a key pfx c [] = []"
  by (simp add: encLoop.simps)

lemma encLoop_step:
  "d \<noteq> [] \<Longrightarrow> encLoop a key pfx c d = aSeal a key (nonce pfx c) (take ChunkPlain d) @ encLoop a key pfx (Suc c) (drop ChunkPlain d)"
  by (subst encLoop.simps) simp

lemma encLoop_drop:
  assumes "aead_ok a" "f * ChunkPlain \<le> length d"
  shows "drop (f * ChunkCipher) (encLoop a key pfx c d) = encLoop a key pfx (c + f) (drop (f * ChunkPlain) d)"
  using assms(2)
proof (induction f arbitrary: c d)
  case (Suc f)
  have ne: "d \<noteq> []" using Suc.prems chunk_pos(1) by auto
  have l: "length (aSeal a key (nonce pfx c) (take ChunkPlain d)) = ChunkCipher"
    using assms(1) Suc.prems by (simp add: aead_ok_def ChunkCipher_def tagLen_def min_def)
  have "drop (Suc f * ChunkCipher) (encLoop a key pfx c d) = drop (f * ChunkCipher) (encLoop a key pfx (Suc c) (drop ChunkPlain d))"
    using l by (simp add: encLoop_step [OF ne])
  then show ?case using Suc.IH [of "drop ChunkPlain d" "Suc c"] Suc.prems by (simp add: add.commute)
qed simp

lemma encLoop_take:
  assumes "aead_ok a"
  shows "take (f * ChunkCipher) (encLoop a key pfx c d) = encLoop a key pfx c (take (f * ChunkPlain) d)"
proof (induction f arbitrary: c d)
  case (Suc f)
  show ?case
  proof (cases "d = []")
    case False
    let ?x = "take ChunkPlain d"
    have ne': "take (Suc f * ChunkPlain) d \<noteq> []" using False by auto
    have t: "take ChunkPlain (take (Suc f * ChunkPlain) d) = ?x" "drop ChunkPlain (take (Suc f * ChunkPlain) d) = take (f * ChunkPlain) (drop ChunkPlain d)"
      by (simp_all add: min_def drop_take)
    have l: "length (aSeal a key (nonce pfx c) ?x) = length ?x + 16" using assms by (simp add: aead_ok_def)
    show ?thesis
    proof (cases "length d \<ge> ChunkPlain")
      case True
      then have "length (aSeal a key (nonce pfx c) ?x) = ChunkCipher" using l by (simp add: ChunkCipher_def tagLen_def)
      then have "take (Suc f * ChunkCipher) (encLoop a key pfx c d) = aSeal a key (nonce pfx c) ?x @ encLoop a key pfx (Suc c) (take (f * ChunkPlain) (drop ChunkPlain d))"
        using Suc.IH [of "Suc c" "drop ChunkPlain d"] by (simp add: encLoop_step [OF False])
      also have "\<dots> = encLoop a key pfx c (take (Suc f * ChunkPlain) d)" unfolding encLoop_step [OF ne'] t ..
      finally show ?thesis .
    next
      case short: False
      have "length (aSeal a key (nonce pfx c) d) \<le> ChunkCipher" using assms short by (simp add: aead_ok_def ChunkCipher_def tagLen_def)
      moreover have "take (Suc f * ChunkPlain) d = d" using short by simp
      ultimately show ?thesis using short by (simp add: encLoop_step [OF False] del: take_take)
    qed
  qed simp
qed simp

lemma length_encLoop: "aead_ok a \<Longrightarrow> length (encLoop a key pfx c d) = CipherSize (length d)"
proof (induction "length d" arbitrary: c d rule: less_induct)
  case less
  show ?case
  proof (cases "d = []")
    case True
    then show ?thesis by (simp add: CipherSize_def)
  next
    case False
    have ih: "length (encLoop a key pfx (Suc c) (drop ChunkPlain d)) = CipherSize (length (drop ChunkPlain d))"
      using less False by simp
    have s: "length (aSeal a key (nonce pfx c) (take ChunkPlain d)) = min ChunkPlain (length d) + 16"
      using less.prems by (simp add: aead_ok_def min.commute)
    show ?thesis
    proof (cases "length d < ChunkPlain")
      case True
      then show ?thesis using False ih s by (simp add: encLoop_step [OF False] CipherSize_def Let_def tagLen_def)
    next
      case big: False
      then obtain r where r: "length d = ChunkPlain + r" by (metis le_add_diff_inverse not_le)
      have "CipherSize (ChunkPlain + r) = ChunkCipher + CipherSize r"
        by (simp add: CipherSize_def Let_def div_add_self1 algebra_simps)
      then show ?thesis using ih s r by (simp add: encLoop_step [OF False] ChunkCipher_def tagLen_def)
    qed
  qed
qed

lemma decLoop_encLoop:
  assumes ok: "aead_ok a"
  shows "decLoop a key pfx False c skip remain (encLoop a key pfx c d) = (take remain (drop skip d), None)"
proof (induction "length d" arbitrary: c d skip remain rule: less_induct)
  case less
  show ?case
  proof (cases "d = [] \<or> remain = 0")
    case True
    then show ?thesis by (auto simp: decLoop.simps)
  next
    case False
    then have ne: "d \<noteq> []" and r: "remain \<noteq> 0" by auto
    let ?x = "take ChunkPlain d" and ?c = "aSeal a key (nonce pfx c) (take ChunkPlain d)"
    have l: "length ?c = length ?x + 16" and op: "aOpen a key (nonce pfx c) ?c = Some ?x" using ok by (simp_all add: aead_ok_def)
    have xne: "length ?x \<ge> 1" using ne by (cases d) (auto simp: ChunkPlain_def)
    have tk: "take ChunkCipher (encLoop a key pfx c d) = ?c" "drop ChunkCipher (encLoop a key pfx c d) = encLoop a key pfx (Suc c) (drop ChunkPlain d)"
    proof -
      have "length ?c = ChunkCipher \<or> length ?c \<le> ChunkCipher \<and> drop ChunkPlain d = []"
        using l by (auto simp: ChunkCipher_def tagLen_def min_def)
      then show "take ChunkCipher (encLoop a key pfx c d) = ?c" "drop ChunkCipher (encLoop a key pfx c d) = encLoop a key pfx (Suc c) (drop ChunkPlain d)"
        by (auto simp: encLoop_step [OF ne])
    qed
    have big: "\<not> length (encLoop a key pfx c d) < tagLen + 1" "encLoop a key pfx c d \<noteq> []"
      using l xne by (auto simp: encLoop_step [OF ne] tagLen_def)
    have ih: "decLoop a key pfx False (Suc c) sk rm (encLoop a key pfx (Suc c) (drop ChunkPlain d)) = (take rm (drop sk (drop ChunkPlain d)), None)" for sk rm
      using less.hyps ne by simp
    have "decLoop a key pfx False c skip remain (encLoop a key pfx c d) =
        (take remain (drop skip ?x) @ take (remain - length (take remain (drop skip ?x))) (drop (skip - length ?x) (drop ChunkPlain d)), None)"
      using r big by (subst decLoop.simps) (simp add: tk op ih Let_def del: length_take length_drop take_drop drop_drop)
    also have "take remain (drop skip ?x) @ take (remain - length (take remain (drop skip ?x))) (drop (skip - length ?x) (drop ChunkPlain d))
        = take remain (drop skip (?x @ drop ChunkPlain d))"
      by (rule take_drop_split)
    finally show ?thesis by simp
  qed
qed

lemma ceil_chunks: "n \<le> (n + ChunkPlain - 1) div ChunkPlain * ChunkPlain"
  using ceilInt64_bounds(1) [of ChunkPlain n] by (simp add: ceilInt64_def mult.commute)

lemma range_decrypts:
  assumes ok: "aead_ok a" "keyOK key" and off: "off \<le> length d"
    and cr: "cipherRange off len (CipherSize (length d)) = (co, cl)" and fo: "CipherOffsetForPlain off = (fc, co', intra)"
    and src: "rdata src = take cl (drop co (encLoop a key pfx 0 d))" "\<not> rfails src"
  shows "DecryptRange a src key pfx fc intra len = (take len (drop off d), None)"
proof -
  define chunks where "chunks = (intra + len + ChunkPlain - 1) div ChunkPlain"
  have f: "fc = off div ChunkPlain" "co' = fc * ChunkCipher" "intra = off mod ChunkPlain" using fo by (auto simp: CipherOffsetForPlain_def Let_def)
  have oe: "off = fc * ChunkPlain + intra" by (simp add: f)
  have cl: "co = fc * ChunkCipher" "cl = (if co + chunks * ChunkCipher > CipherSize (length d) then CipherSize (length d) - co else chunks * ChunkCipher)"
    using cr fo f(2) by (auto simp: cipherRange_def Let_def chunks_def)
  have le: "fc * ChunkPlain \<le> length d" using off oe by simp
  let ?E = "encLoop a key pfx 0 d"
  have "take cl (drop co ?E) = take (chunks * ChunkCipher) (drop co ?E)"
    using length_encLoop [OF ok(1), of key pfx 0 d] by (auto simp: cl(2))
  also have "\<dots> = encLoop a key pfx fc (take (chunks * ChunkPlain) (drop (fc * ChunkPlain) d))"
    using encLoop_drop [OF ok(1) le, of key pfx 0] by (simp add: cl(1) encLoop_take [OF ok(1)])
  finally have "DecryptRange a src key pfx fc intra len = (take len (drop intra (take (chunks * ChunkPlain) (drop (fc * ChunkPlain) d))), None)"
    using ok(2) src by (simp add: DecryptRange_def decLoop_encLoop [OF ok(1)])
  moreover have "take len (drop intra (take (chunks * ChunkPlain) (drop (fc * ChunkPlain) d))) = take len (drop off d)"
  proof -
    have "intra + len \<le> chunks * ChunkPlain" unfolding chunks_def by (rule ceil_chunks)
    then show ?thesis by (simp add: drop_take oe add.commute min_def)
  qed
  ultimately show ?thesis by simp
qed

lemma unwrap_wrap:
  assumes "aead_ok a" "vaultAddr km = []" "length nonce12 = 12" "\<not> hasPrefix nonce12 ''vault:''" "WrapKey a km nonce12 dek = Inr wr"
  shows "UnwrapKey a km wr = Inr dek"
proof -
  have wr: "wr = nonce12 @ aSeal a (master km) nonce12 dek" using assms(2,5) by (simp add: WrapKey_def)
  have "hasPrefix wr ''vault:'' = hasPrefix nonce12 ''vault:''" using assms(3) by (simp add: wr hasPrefix_def)
  then show ?thesis using assms(1,3,4) by (simp add: UnwrapKey_def wr aead_ok_def)
qed

subsection \<open>Properties\<close>

text \<open>
  C14: encrypted objects can be read in any range. For an object encrypted under a fresh data key
  wrapped by the local master key, reading the ciphertext range that \<open>cipherRange\<close> computes for a
  plaintext range and decrypting it as the metadata says gives exactly those plaintext bytes, and no
  error. (The wrapped key must not by chance look like one of Vault's.)
\<close>

theorem sse_range_roundtrip:
  assumes "aead_ok a" "keyOK dek" "vaultAddr km = []" "length nonce12 = 12" "\<not> hasPrefix nonce12 ''vault:''"
    and "newSSEParams a km dek pfx nonce12 = Inr sp" "m = sseFields (Some sp) (length d) m0"
    and "off \<le> length d" "cipherRange off len (length (spSeal sp d)) = (co, cl)"
  shows "decryptReader a km m \<lparr>rdata = take cl (drop co (spSeal sp d)), rfails = False\<rparr> off len
           = Inr (take len (drop off d), None)"
proof -
  obtain wr where wr: "WrapKey a km nonce12 dek = Inr wr" and sp: "sp = \<lparr>spSeal = encLoop a dek pfx 0, spEncDEK = hexEncode wr, spPrefix = pfx\<rparr>"
    using assms(6) by (auto simp: newSSEParams_def split: sum.splits)
  have m: "EncDEK m = hexEncode wr" "NoncePrefix m = hexEncode pfx" by (simp_all add: assms(7) sp sseFields_def)
  obtain fc co' intra where fo: "CipherOffsetForPlain off = (fc, co', intra)" by (rule prod_cases3)
  have cr: "cipherRange off len (CipherSize (length d)) = (co, cl)" using assms(1,9) by (simp add: sp length_encLoop)
  show ?thesis
    using unwrap_wrap [OF assms(1,3-5) wr] range_decrypts [OF assms(1,2,8) cr fo, of "\<lparr>rdata = take cl (drop co (spSeal sp d)), rfails = False\<rparr>" pfx]
    by (simp add: decryptReader_def m fo sp)
qed

definition wit_aead :: aead where
  "wit_aead = \<lparr>aSeal = (\<lambda>k n x. x @ replicate 16 (CHR ''t'')), aOpen = (\<lambda>k n c. Some (take (length c - 16) c))\<rparr>"

definition wit_kms :: kms where
  "wit_kms = \<lparr>master = replicate 32 (CHR ''m''), vaultAddr = [], vaultEncrypt = (\<lambda>_. None), vaultDecrypt = (\<lambda>_. None)\<rparr>"

definition wit_sp :: sseParams where
  "wit_sp = \<lparr>spSeal = encLoop wit_aead (replicate 32 (CHR ''k'')) ''pfx1'' 0,
     spEncDEK = hexEncode (''nonce0123456'' @ replicate 32 (CHR ''k'') @ replicate 16 (CHR ''t'')), spPrefix = ''pfx1''\<rparr>"

lemma wit_aead_ok: "aead_ok wit_aead"
  by (simp add: aead_ok_def wit_aead_def)

theorem sse_range_roundtrip_witness:
  "decryptReader wit_aead wit_kms (sseFields (Some wit_sp) (length ''hello world'') (undefined :: xlMeta))
     \<lparr>rdata = spSeal wit_sp ''hello world'', rfails = False\<rparr> 6 3 = Inr (''wor'', None)"
proof -
  have p: "newSSEParams wit_aead wit_kms (replicate 32 (CHR ''k'')) ''pfx1'' ''nonce0123456'' = Inr wit_sp"
    by (simp add: newSSEParams_def WrapKey_def wit_kms_def wit_sp_def wit_aead_def)
  have l: "length (spSeal wit_sp ''hello world'') = 27"
    using length_encLoop [OF wit_aead_ok] by (simp add: wit_sp_def CipherSize_def Let_def ChunkPlain_def tagLen_def)
  have c: "cipherRange 6 3 (length (spSeal wit_sp ''hello world'')) = (0, 27)"
    unfolding l by (simp add: cipherRange_def CipherOffsetForPlain_def ChunkPlain_def ChunkCipher_def tagLen_def)
  have "keyOK (replicate 32 (CHR ''k''))" "\<not> hasPrefix ''nonce0123456'' ''vault:''" "vaultAddr wit_kms = []"
    by (simp_all add: keyOK_def hasPrefix_def wit_kms_def)
  from sse_range_roundtrip [OF wit_aead_ok this(1,3) _ this(2) p refl _ c] show ?thesis using l by simp
qed

text \<open>
  The sizes of the format are consistent: the encrypted stream has the size \<open>CipherSize\<close> says, and
  \<open>PlainSize\<close> recovers the plaintext size from it.
\<close>

theorem sse_sizes:
  assumes "aead_ok a"
  shows "length (encLoop a key pfx c d) = CipherSize (length d) \<and> PlainSizeOf (CipherSize n) = n"
proof -
  have d: "ChunkCipher * q + r < ChunkCipher * Suc q \<and> (ChunkCipher * q + r) div ChunkCipher = q \<and> (ChunkCipher * q + r) mod ChunkCipher = r"
    if "r < ChunkCipher" for q r using that by simp
  have n: "n = ChunkPlain * (n div ChunkPlain) + n mod ChunkPlain" by simp
  have "n mod ChunkPlain + tagLen < ChunkCipher" by (simp add: ChunkCipher_def)
  then have "PlainSizeOf (CipherSize n) = n"
    using n d [of "n mod ChunkPlain + tagLen" "n div ChunkPlain"]
    by (cases "n mod ChunkPlain = 0") (auto simp: PlainSizeOf_def CipherSize_def Let_def mult.commute tagLen_def)
  then show ?thesis using length_encLoop [OF assms] by simp
qed

theorem sse_sizes_witness:
  "length (encLoop wit_aead ''k'' ''p'' 0 ''hello'') = CipherSize (length ''hello'') \<and> PlainSizeOf (CipherSize 65537) = 65537"
  by (rule sse_sizes [OF wit_aead_ok])

text \<open>
  Truncation on a chunk boundary is not detected: when the stored stream lost all chunks from some
  chunk on, decrypting the whole object ends without an error after the plaintext of the chunks left.
\<close>

theorem sse_truncation_undetected:
  assumes "aead_ok a" "keyOK key"
  shows "DecryptRange a \<lparr>rdata = take (f * ChunkCipher) (encLoop a key pfx 0 d), rfails = False\<rparr> key pfx 0 0 (length d)
           = (take (f * ChunkPlain) d, None)"
  using assms(2) by (simp add: DecryptRange_def encLoop_take [OF assms(1)] decLoop_encLoop [OF assms(1)] min_def)

theorem sse_truncation_undetected_witness:
  "DecryptRange wit_aead \<lparr>rdata = take (0 * ChunkCipher) (encLoop wit_aead (replicate 32 (CHR ''k'')) ''p'' 0 ''hello''), rfails = False\<rparr>
     (replicate 32 (CHR ''k'')) ''p'' 0 0 (length ''hello'') = ([], None)"
  using sse_truncation_undetected [OF wit_aead_ok, of "replicate 32 (CHR ''k'')" 0 "''p''" "''hello''"] by (simp add: keyOK_def)

end
