(* ===== verification/Pool.thy ===== *)
theory Pool
  imports SSEnc
begin

text \<open>
  The pool (\<open>internal/erasure/pool.go\<close>): one or more erasure sets behind the object layer. This
  theory has the pool's state, the placement of keys on sets (with the draining sets of
  \<open>decommission.go\<close>), bucket operations, the conversions between requests, metadata and object
  descriptions, the version log of a key (\<open>versioning.go\<close>) and the streaming of an object's
  bytes. A request is one step: writes hold the namespace lock of their key, and a GET, which takes none, is
  not interleaved with them.
  What a request draws (identifiers, keys, the clock) is a record; the zstd decoder, AES-GCM and the
  remote tiers are parameters.
\<close>

subsection \<open>Requests, descriptions and errors (object/types.go, object/errors.go)\<close>

datatype objErr = OBucketNotFound string | OBucketExists string | OBucketNotEmpty | OBucketNameInvalid
  | OObjectNotFound | OObjectNameInvalid | OPreconditionFailed | OInvalidRange | OObjectLocked | ONotVersioned
  | OReadQuorum | OWriteQuorum | OCorruptedData | OSet setErr | OBucketOp bucketErr | OKms kmsErr | ODec decErr
  | OZstd | OTierRead | OTierPut | OUnknownTier | OInvalidUploadID | OInvalidPart | OPartTooSmall | OInvalidPartOrder

record objectInfo =
  iBucket :: string
  iName :: string
  iSize :: int
  iModTime :: time
  iETag :: string
  iContentType :: string
  iContentEnc :: string
  iVersionID :: string
  iIsLatest :: bool
  iDeleteMarker :: bool
  iStorageClass :: string
  iUserDefined :: "string gomap"
  iUserTags :: string
  iParts :: "(nat \<times> nat \<times> nat \<times> string) list"

record objectOptions =
  oVersionID :: string
  oMTime :: time
  oUserDefined :: "string gomap"
  oUserTags :: string
  oCompress :: bool
  oCheckPrecondFn :: "(objectInfo \<Rightarrow> bool) option"
  oVersioned :: bool
  oVersionSuspended :: bool
  oLockMode :: string
  oLockRetainUntil :: time
  oLockLegalHold :: string
  oBypassGovernance :: bool

record rangeSpec =
  rsIsSuffixLength :: bool
  rsStart :: int
  rsEnd :: int

definition noInfo :: objectInfo where
  "noInfo = \<lparr>iBucket = [], iName = [], iSize = 0, iModTime = 0, iETag = [], iContentType = [], iContentEnc = [],
     iVersionID = [], iIsLatest = False, iDeleteMarker = False, iStorageClass = [], iUserDefined = [], iUserTags = [],
     iParts = []\<rparr>"

definition noOptions :: objectOptions where
  "noOptions = \<lparr>oVersionID = [], oMTime = 0, oUserDefined = [], oUserTags = [], oCompress = False,
     oCheckPrecondFn = None, oVersioned = False, oVersionSuspended = False, oLockMode = [], oLockRetainUntil = 0,
     oLockLegalHold = [], oBypassGovernance = False\<rparr>"

subsection \<open>The pool\<close>

text \<open>A cached namespace (listcache.go): the sorted keys, the set each is on, and when the walk ended.\<close>

record listCacheEntry =
  lcKeys :: "string list"
  lcOwner :: "nat gomap"
  lcCreated :: time

record pool =
  psets :: "eset list"
  pkms :: "kms option"
  bucketsOK :: "time gomap"
  draining :: "nat list"
  lcache :: "listCacheEntry gomap"

text \<open>What is not code of the repository, and what one request draws.\<close>

record penv =
  senvOf :: senv
  aeadOf :: aead
  zstdD :: "reader \<Rightarrow> reader"
  tierClient :: "string \<Rightarrow> (string \<Rightarrow> reader option) option"
  tierPut :: "string \<Rightarrow> string \<Rightarrow> reader \<Rightarrow> int \<Rightarrow> string \<Rightarrow> bool"
  listCacheTTL :: time
  walkKeysMax :: nat

record draws =
  dNow :: time
  dVid :: string
  dId1 :: string
  dId2 :: string
  dDek :: bytes
  dPfx :: bytes
  dNonce :: bytes

definition onSet :: "nat \<Rightarrow> (eset \<Rightarrow> 'r \<times> eset) \<Rightarrow> pool \<Rightarrow> 'r \<times> pool" where
  "onSet i f p = (case f (psets p ! i) of (r, s) \<Rightarrow> (r, p\<lparr>psets := (psets p)[i := s]\<rparr>))"

definition NewPool :: "eset list \<Rightarrow> pool option" where
  "NewPool sets =
     (if sets = [] then None else Some \<lparr>psets = sets, pkms = None, bucketsOK = [], draining = [], lcache = []\<rparr>)"

definition keyHash :: "string \<Rightarrow> 32 word" where
  "keyHash key = fnv32a key"

definition activeSets :: "pool \<Rightarrow> nat list" where
  "activeSets p = filter (\<lambda>i. i \<notin> set (draining p)) [0..<length (psets p)]"

text \<open>\<open>hasInactive\<close> is stored as \<open>len(draining) > 0\<close> whenever the layout changes.\<close>

definition setFor :: "pool \<Rightarrow> string \<Rightarrow> nat" where
  "setFor p key =
     (let n = length (psets p); act = activeSets p in
      if n = 1 then 0
      else if draining p \<noteq> [] \<and> act \<noteq> [] then act ! (unat (keyHash key) mod length act)
      else unat (keyHash key) mod n)"

subsection \<open>The version log (versioning.go)\<close>

definition nullVersionID :: string where "nullVersionID = ''null''"

definition lockBlocks :: "time \<Rightarrow> bool \<Rightarrow> vlogEntry \<Rightarrow> bool" where
  "lockBlocks now bypassGovernance e =
     (if VLegalHold e then True
      else if isZero (VRetainUntil e) \<or> \<not> now < VRetainUntil e then False
      else if VLockMode e = ''COMPLIANCE'' then True
      else if VLockMode e = ''GOVERNANCE'' then \<not> bypassGovernance
      else False)"

definition vlogPath :: "string \<Rightarrow> string" where
  "vlogPath key = pjoin (pjoin ''.gostore.sys/vlog'' key) ''vlog.json''"

definition vsDir :: "string \<Rightarrow> string \<Rightarrow> string" where
  "vsDir key vid = pjoin (pjoin ''.gostore.sys/vs'' key) vid"

fun readVlogFrom :: "string \<Rightarrow> string \<Rightarrow> disk list \<Rightarrow> vlogEntry list \<times> disk list" where
  "readVlogFrom bucket key [] = ([], [])"
| "readVlogFrom bucket key (d # ds) =
     (case ReadAll bucket (vlogPath key) d of (r, d1) \<Rightarrow>
        (case (case r of Inr c \<Rightarrow> unmarshalVlog c | Inl e \<Rightarrow> None) of
           Some v \<Rightarrow> (v, d1 # ds)
         | None \<Rightarrow> (case readVlogFrom bucket key ds of (v, ds') \<Rightarrow> (v, d1 # ds'))))"

definition readVlog :: "string \<Rightarrow> string \<Rightarrow> eset \<Rightarrow> vlogEntry list \<times> eset" where
  "readVlog bucket key s = (case readVlogFrom bucket key (disks s) of (v, ds) \<Rightarrow> (v, s\<lparr>disks := ds\<rparr>))"

definition writeVlog :: "string \<Rightarrow> string \<Rightarrow> vlogEntry list \<Rightarrow> eset \<Rightarrow> setErr option \<times> eset" where
  "writeVlog bucket key v s =
     (case forEachDisk (WriteAll bucket (vlogPath key) (VlogDoc v)) s of (errs, s1) \<Rightarrow>
        ((if okCount errs < writeQuorum s then Some EWriteQuorum else None), s1))"

definition dropEntry :: "vlogEntry list \<Rightarrow> string \<Rightarrow> vlogEntry list" where
  "dropEntry v vid = filter (\<lambda>e. VlogID e \<noteq> vid) v"

subsection \<open>Finding the set of a key (decommission.go)\<close>

definition holdsKey :: "senv \<Rightarrow> string \<Rightarrow> string \<Rightarrow> eset \<Rightarrow> bool \<times> eset" where
  "holdsKey env bucket key s =
     (case readMeta env bucket key s of
        (Inr m, s1) \<Rightarrow> (True, s1)
      | (Inl e, s1) \<Rightarrow> (case readVlog bucket key s1 of (v, s2) \<Rightarrow> (v \<noteq> [], s2)))"

fun probe :: "senv \<Rightarrow> string \<Rightarrow> string \<Rightarrow> nat list \<Rightarrow> pool \<Rightarrow> nat option \<times> pool" where
  "probe env bucket key [] p = (None, p)"
| "probe env bucket key (i # is) p =
     (case onSet i (holdsKey env bucket key) p of (h, p1) \<Rightarrow>
        if h then (Some i, p1) else probe env bucket key is p1)"

definition locate :: "penv \<Rightarrow> string \<Rightarrow> string \<Rightarrow> pool \<Rightarrow> nat \<times> pool" where
  "locate pe bucket key p =
     (let i = setFor p key in
      if draining p = [] then (i, p)
      else case probe (senvOf pe) bucket key (i # filter (\<lambda>j. j \<noteq> i) [0..<length (psets p)]) p of
        (Some j, p1) \<Rightarrow> (j, p1)
      | (None, p1) \<Rightarrow> (i, p1))"

subsection \<open>Buckets\<close>

fun makeOnSets :: "string \<Rightarrow> nat list \<Rightarrow> pool \<Rightarrow> objErr option \<times> pool" where
  "makeOnSets bucket [] p = (None, p)"
| "makeOnSets bucket (i # is) p =
     (case onSet i (MakeBucket bucket) p of
        (None, p1) \<Rightarrow> makeOnSets bucket is p1
      | (Some e, p1) \<Rightarrow> (Some (if e = BVolumeExists then OBucketExists bucket else OBucketOp e), p1))"

definition poolMakeBucket :: "time \<Rightarrow> string \<Rightarrow> pool \<Rightarrow> objErr option \<times> pool" where
  "poolMakeBucket now bucket p =
     (if \<not> validBucketName bucket then (Some OBucketNameInvalid, p)
      else case makeOnSets bucket [0..<length (psets p)] p of
        (Some e, p1) \<Rightarrow> (Some e, p1)
      | (None, p1) \<Rightarrow> (None, p1\<lparr>bucketsOK := AList.update bucket now (bucketsOK p1)\<rparr>))"

definition GetBucketInfo :: "string \<Rightarrow> pool \<Rightarrow> objErr option \<times> pool" where
  "GetBucketInfo bucket p =
     (case onSet 0 (StatBucket bucket) p of
        (None, p1) \<Rightarrow> (None, p1) | (Some e, p1) \<Rightarrow> (Some (OBucketNotFound bucket), p1))"

definition poolListBuckets :: "pool \<Rightarrow> string list \<times> pool" where
  "poolListBuckets p = onSet 0 ListBuckets p"

fun deleteOnSets :: "string \<Rightarrow> bool \<Rightarrow> nat list \<Rightarrow> pool \<Rightarrow> objErr option \<times> pool" where
  "deleteOnSets bucket force [] p = (None, p)"
| "deleteOnSets bucket force (i # is) p =
     (case onSet i (DeleteBucket bucket force) p of
        (None, p1) \<Rightarrow> deleteOnSets bucket force is p1
      | (Some e, p1) \<Rightarrow>
          (Some (if e = BVolumeNotEmpty then OBucketNotEmpty
                 else if e = BVolumeNotFound then OBucketNotFound bucket else OBucketOp e), p1))"

definition poolDeleteBucket :: "string \<Rightarrow> bool \<Rightarrow> pool \<Rightarrow> objErr option \<times> pool" where
  "poolDeleteBucket bucket force p =
     deleteOnSets bucket force [0..<length (psets p)]
       (p\<lparr>bucketsOK := AList.delete bucket (bucketsOK p), lcache := AList.delete bucket (lcache p)\<rparr>)"

definition bucketExistTTL :: time where "bucketExistTTL = 30 * second"

definition ensureBucket :: "time \<Rightarrow> string \<Rightarrow> pool \<Rightarrow> objErr option \<times> pool" where
  "ensureBucket now bucket p =
     (if \<not> validBucketName bucket then (Some OBucketNameInvalid, p)
      else if (case map_of (bucketsOK p) bucket of Some t \<Rightarrow> now - t < bucketExistTTL | None \<Rightarrow> False) then (None, p)
      else case onSet 0 (StatBucket bucket) p of
        (Some e, p1) \<Rightarrow> (Some (OBucketNotFound bucket), p1)
      | (None, p1) \<Rightarrow> (None, p1\<lparr>bucketsOK := AList.update bucket now (bucketsOK p1)\<rparr>))"

subsection \<open>Conversions\<close>

definition getKey :: "string gomap \<Rightarrow> string \<Rightarrow> string" where
  "getKey m k = (case map_of m k of Some v \<Rightarrow> v | None \<Rightarrow> [])"

definition toUserMeta :: "objectOptions \<Rightarrow> userMeta" where
  "toUserMeta opts =
     \<lparr>umContentType = getKey (oUserDefined opts) ''content-type'',
      umContentEnc = getKey (oUserDefined opts) ''content-encoding'',
      umUser = filter (\<lambda>(k, v). k \<notin> {''content-type'', ''content-encoding'', ''_directive''}) (oUserDefined opts),
      umTags = oUserTags opts, umCompress = oCompress opts\<rparr>"

definition setIf :: "string \<Rightarrow> string \<Rightarrow> string gomap \<Rightarrow> string gomap" where
  "setIf k v m = (if v \<noteq> [] then AList.update k v m else m)"

definition logicalSize :: "xlMeta \<Rightarrow> nat" where
  "logicalSize m = (if SSE m \<noteq> [] \<or> Compressed m \<noteq> [] then PlainSize m else MSize m)"

definition metaToInfo :: "string \<Rightarrow> string \<Rightarrow> xlMeta \<Rightarrow> objectInfo" where
  "metaToInfo bucket key m =
     \<lparr>iBucket = bucket, iName = key, iSize = int (logicalSize m), iModTime = ModTime m, iETag = ETag m,
      iContentType = ContentType m, iContentEnc = ContentEnc m, iVersionID = VersionID m, iIsLatest = True,
      iDeleteMarker = False, iStorageClass = ''STANDARD'',
      iUserDefined = setIf ''x-amz-server-side-encryption'' (SSE m) (setIf ''content-type'' (ContentType m) (UserMeta m)),
      iUserTags = UserTags m,
      iParts = map (\<lambda>pt. (Number pt, PSize pt, ActualSize pt, PETag pt)) (Parts m)\<rparr>"

definition mapErr :: "setErr \<Rightarrow> objErr" where
  "mapErr e =
     (case e of EDisk ErrFileNotFound \<Rightarrow> OObjectNotFound
      | EReadQuorum \<Rightarrow> OReadQuorum | EWriteQuorum \<Rightarrow> OWriteQuorum
      | EBitrot \<Rightarrow> OCorruptedData | ECorrupt \<Rightarrow> OCorruptedData | EObjectMismatch \<Rightarrow> OCorruptedData
      | e' \<Rightarrow> OSet e')"

text \<open>Negation of an \<open>int64\<close>: the least one is its own negation.\<close>

definition neg64 :: "int \<Rightarrow> int" where
  "neg64 x = (if x = - (2 ^ 63) then x else - x)"

definition resolveRange :: "rangeSpec \<Rightarrow> int \<Rightarrow> objErr + (int \<times> int)" where
  "resolveRange rs sz =
     (if rsIsSuffixLength rs then
        (let n = neg64 (rsStart rs) in
         if n \<le> 0 then Inl OInvalidRange
         else (let n' = (if n > sz then sz else n) in Inr (sz - n', n')))
      else if rsStart rs < 0 \<or> rsStart rs \<ge> sz then Inl OInvalidRange
      else
        (let end = (if rsEnd rs < 0 \<or> rsEnd rs \<ge> sz then sz - 1 else rsEnd rs) in
         if end < rsStart rs then Inl OInvalidRange
         else Inr (rsStart rs, end - rsStart rs + 1)))"

subsection \<open>Streaming an object (GetObjectNInfo, getVersionedOn, compress.go, tiering.go)\<close>

datatype streamErr = SetStream setErr | SseStream sseErr | Truncated

text \<open>
  \<open>CopyN(Discard, r, off)\<close> followed by \<open>LimitReader(r, length)\<close>: \<open>None\<close> when the skipped bytes are not there.
\<close>

definition skipLimit :: "reader \<Rightarrow> int \<Rightarrow> int \<Rightarrow> (bytes \<times> streamErr option) option" where
  "skipLimit r off len =
     (if off > 0 \<and> int (length (rdata r)) < off then None
      else
        (let rest = drop (nat off) (rdata r) in
         Some (take (nat len) rest, if rfails r \<and> int (length rest) < len then Some Truncated else None)))"

definition zstdDecompressRange :: "penv \<Rightarrow> reader \<Rightarrow> int \<Rightarrow> int \<Rightarrow> objErr + (bytes \<times> streamErr option)" where
  "zstdDecompressRange pe src off len =
     (case skipLimit (zstdD pe src) off len of None \<Rightarrow> Inl OZstd | Some r \<Rightarrow> Inr r)"

definition getTiered :: "penv \<Rightarrow> xlMeta \<Rightarrow> int \<Rightarrow> int \<Rightarrow> objErr + (bytes \<times> streamErr option)" where
  "getTiered pe m off len =
     (case tierClient pe (Tier m) of
        None \<Rightarrow> Inl OCorruptedData
      | Some cl \<Rightarrow>
          (case cl (TierKey m) of
             None \<Rightarrow> Inl OTierRead
           | Some rc \<Rightarrow> (case skipLimit rc off len of None \<Rightarrow> Inl OTierRead | Some r \<Rightarrow> Inr r)))"

type_synonym getResult = "objErr + (objectInfo \<times> bytes \<times> streamErr option)"

definition streamFrom ::
  "penv \<Rightarrow> kms option \<Rightarrow> string \<Rightarrow> string \<Rightarrow> xlMeta \<Rightarrow> int \<Rightarrow> int \<Rightarrow> eset \<Rightarrow> (objErr + (bytes \<times> streamErr option)) \<times> eset" where
  "streamFrom pe km bucket dir m off len s =
     (if Tier m \<noteq> [] then (getTiered pe m off len, s)
      else if Compressed m \<noteq> [] then
        (case getObjectMeta (senvOf pe) bucket dir m 0 (int (MSize m)) s of (out, e, s1) \<Rightarrow>
           (zstdDecompressRange pe \<lparr>rdata = out, rfails = (e \<noteq> None)\<rparr> off len, s1))
      else if SSE m \<noteq> [] then
        (case km of
           None \<Rightarrow> (Inl OCorruptedData, s)
         | Some k \<Rightarrow>
             (case cipherRange (nat off) (nat len) (MSize m) of (co, cl) \<Rightarrow>
                (case getObjectMeta (senvOf pe) bucket dir m (int co) (int cl) s of (out, e, s1) \<Rightarrow>
                   ((case decryptReader (aeadOf pe) k m \<lparr>rdata = out, rfails = (e \<noteq> None)\<rparr> (nat off) (nat len) of
                       Inl de \<Rightarrow> Inl (ODec de)
                     | Inr (bs, er) \<Rightarrow> Inr (bs, map_option SseStream er)), s1))))
      else
        (case getObjectMeta (senvOf pe) bucket dir m off len s of (out, e, s1) \<Rightarrow>
           (Inr (out, map_option SetStream e), s1)))"

definition serveObject ::
  "penv \<Rightarrow> kms option \<Rightarrow> string \<Rightarrow> string \<Rightarrow> xlMeta \<Rightarrow> objectInfo \<Rightarrow> rangeSpec option \<Rightarrow> eset \<Rightarrow> getResult \<times> eset" where
  "serveObject pe km bucket dir m oi rs s =
     (let logical = int (logicalSize m) in
      case (case rs of None \<Rightarrow> Inr (0, logical) | Some r \<Rightarrow> resolveRange r logical) of
        Inl e \<Rightarrow> (Inl e, s)
      | Inr (off, len) \<Rightarrow>
          (case streamFrom pe km bucket dir m off len s of (r, s1) \<Rightarrow>
             ((case r of Inl e \<Rightarrow> Inl e
               | Inr (out, er) \<Rightarrow> Inr (if rs = None then oi else oi\<lparr>iSize := len\<rparr>, out, er)), s1)))"

end
