(* ===== verification/WitnessCodec.thy ===== *)
theory WitnessCodec
  imports Codec
begin

text \<open>
  A concrete (2, 2) erasure code over bytes that satisfies \<open>rs_ok\<close>, so that the promises asked of the
  Reed-Solomon package are known to be satisfiable: the parities of \<open>a\<close> and \<open>b\<close> are \<open>a + b\<close> and
  \<open>a + t b\<close> over the field of four elements, applied to pairs of bits of each byte.
\<close>

fun xorc :: "char \<Rightarrow> char \<Rightarrow> char" where
  "xorc (Char a0 a1 a2 a3 a4 a5 a6 a7) (Char b0 b1 b2 b3 b4 b5 b6 b7) =
     Char (a0 \<noteq> b0) (a1 \<noteq> b1) (a2 \<noteq> b2) (a3 \<noteq> b3) (a4 \<noteq> b4) (a5 \<noteq> b5) (a6 \<noteq> b6) (a7 \<noteq> b7)"

fun tc :: "char \<Rightarrow> char" where
  "tc (Char b0 b1 b2 b3 b4 b5 b6 b7) = Char b4 b5 b6 b7 (b4 \<noteq> b0) (b5 \<noteq> b1) (b6 \<noteq> b2) (b7 \<noteq> b3)"

lemma xorc_ids:
  "xorc a (xorc a b) = b" "xorc b (xorc a b) = a" "xorc (xorc a (tc b)) (tc b) = a" "xorc (xorc a b) b = a"
  "tc (tc (xorc a (xorc a (tc b)))) = b" "tc (xorc (xorc a b) (xorc a (tc b))) = b"
  by (cases a; cases b; auto)+

lemma tc_cube: "tc (tc (tc b)) = b"
  by (cases b) auto

definition xs2 :: "bytes \<Rightarrow> bytes \<Rightarrow> bytes" where "xs2 a b = map2 xorc a b"

lemma xs2_length [simp]: "length (xs2 a b) = min (length a) (length b)"
  by (simp add: xs2_def)

lemma xs2_ids:
  assumes "length a = length b"
  shows "xs2 a (xs2 a b) = b" "xs2 b (xs2 a b) = a" "xs2 (xs2 a (map tc b)) (map tc b) = a" "xs2 (xs2 a b) b = a"
    "map tc (map tc (xs2 a (xs2 a (map tc b)))) = b" "map tc (xs2 (xs2 a b) (xs2 a (map tc b))) = b"
  using assms by (auto simp: xs2_def xorc_ids tc_cube intro!: nth_equalityI)

definition enc22 :: "bytes \<Rightarrow> bytes \<Rightarrow> bytes list" where
  "enc22 a b = [a, b, xs2 a b, xs2 a (map tc b)]"

definition split22 :: "bytes \<Rightarrow> bytes list option" where
  "split22 d =
     (if d = [] then None
      else (let c = ceilInt64 (length d) 2; pad = d @ replicate (2 * c - length d) (CHR 0x00)
            in Some [take c pad, drop c pad, replicate c (CHR 0x00), replicate c (CHR 0x00)]))"

definition encode22 :: "bytes list \<Rightarrow> bytes list option" where
  "encode22 sh = (case sh of [a, b, p, q] \<Rightarrow> Some (enc22 a b) | _ \<Rightarrow> None)"

fun reconstruct22 :: "bytes option list \<Rightarrow> bytes list option" where
  "reconstruct22 [Some a, Some b, p, q] = Some (enc22 a b)"
| "reconstruct22 [Some a, None, Some p, q] = Some (enc22 a (xs2 a p))"
| "reconstruct22 [Some a, None, None, Some q] = Some (enc22 a (map tc (map tc (xs2 a q))))"
| "reconstruct22 [None, Some b, Some p, q] = Some (enc22 (xs2 b p) b)"
| "reconstruct22 [None, Some b, None, Some q] = Some (enc22 (xs2 q (map tc b)) b)"
| "reconstruct22 [None, None, Some p, Some q] =
     (let b = map tc (xs2 p q) in Some (enc22 (xs2 p b) b))"
| "reconstruct22 _ = None"

definition verify22 :: "bytes option list \<Rightarrow> bool option" where
  "verify22 xs = (case xs of [Some a, Some b, Some p, Some q] \<Rightarrow> Some (enc22 a b = [a, b, p, q]) | _ \<Rightarrow> None)"

definition join22 :: "bytes option list \<Rightarrow> nat \<Rightarrow> bytes option" where
  "join22 xs n = (case xs of Some a # Some b # _ \<Rightarrow> Some (take n (a @ b)) | _ \<Rightarrow> None)"

definition codec22 :: rscodec where
  "codec22 = \<lparr>rsSplit = split22, rsEncode = encode22, rsVerify = verify22, rsReconstruct = reconstruct22, rsJoin = join22\<rparr>"

lemma partOf4:
  assumes "partOf xs [a, b, p, q]"
  obtains x y z w where "xs = [x, y, z, w]" "x \<in> {None, Some a}" "y \<in> {None, Some b}" "z \<in> {None, Some p}" "w \<in> {None, Some q}"
proof -
  have l: "length xs = 4" using assms by (simp add: partOf_def)
  then obtain x y z w where xs: "xs = [x, y, z, w]" by (auto simp: numeral_eq_Suc length_Suc_conv)
  have "\<forall>j < 4. xs ! j = None \<or> xs ! j = Some ([a, b, p, q] ! j)" using assms by (simp add: partOf_def)
  from this [rule_format, of 0] this [rule_format, of 1] this [rule_format, of 2] this [rule_format, of 3]
  show ?thesis using that xs by (simp add: numeral_eq_Suc)
qed

lemma reconstruct22_ok:
  assumes "length a = length b" "partOf xs (enc22 a b)" "present xs \<ge> 2"
  shows "reconstruct22 xs = Some (enc22 a b)" and "verify22 xs = Some True \<Longrightarrow> xs = map Some (enc22 a b)"
proof -
  obtain x y z w where xs: "xs = [x, y, z, w]" "x \<in> {None, Some a}" "y \<in> {None, Some b}"
      "z \<in> {None, Some (xs2 a b)}" "w \<in> {None, Some (xs2 a (map tc b))}"
    using partOf4 assms(2) unfolding enc22_def by metis
  show "reconstruct22 xs = Some (enc22 a b)"
    using xs assms(3) xs2_ids [OF assms(1)] by (auto simp: present_def Let_def)
  show "verify22 xs = Some True \<Longrightarrow> xs = map Some (enc22 a b)"
    using xs by (auto simp: verify22_def enc22_def)
qed

lemma codec22_ok: "rs_ok codec22 2 2"
  unfolding rs_ok_def
proof (intro allI impI)
  fix d :: bytes
  assume d: "d \<noteq> []"
  let ?c = "ceilInt64 (length d) 2"
  define pad where "pad = d @ replicate (2 * ?c - length d) (CHR 0x00)"
  define a b where "a = take ?c pad" and "b = drop ?c pad"
  have lp: "length pad = 2 * ?c" using ceilInt64_bounds(1) [of 2 "length d"] by (simp add: pad_def)
  then have la: "length a = ?c" "length b = ?c" by (simp_all add: a_def b_def)
  have "a @ b = pad" unfolding a_def b_def by (rule append_take_drop_id)
  then have ab: "take (length d) (a @ b) = d" by (simp add: pad_def)
  have "rsSplit codec22 d = Some [a, b, replicate ?c (CHR 0x00), replicate ?c (CHR 0x00)]"
    using d by (simp add: codec22_def split22_def Let_def a_def b_def pad_def)
  moreover have "rsEncode codec22 [a, b, replicate ?c (CHR 0x00), replicate ?c (CHR 0x00)] = Some (enc22 a b)"
    by (simp add: codec22_def encode22_def)
  moreover have "length (enc22 a b) = 2 + 2" "\<forall>s \<in> set (enc22 a b). length s = ?c"
    using la by (auto simp: enc22_def)
  moreover have "rsJoin codec22 (map Some (enc22 a b)) (length d) = Some d"
    using ab by (simp add: codec22_def join22_def enc22_def)
  moreover have "\<forall>xs. partOf xs (enc22 a b) \<and> present xs \<ge> 2 \<longrightarrow>
      (rsVerify codec22 xs = Some True \<longrightarrow> xs = map Some (enc22 a b)) \<and> rsReconstruct codec22 xs = Some (enc22 a b)"
    using reconstruct22_ok la by (simp add: codec22_def)
  ultimately show "\<exists>sp sh. rsSplit codec22 d = Some sp \<and> rsEncode codec22 sp = Some sh
        \<and> length sh = 2 + 2 \<and> (\<forall>s \<in> set sh. length s = ?c)
        \<and> (\<forall>xs. partOf xs sh \<and> present xs \<ge> 2 \<longrightarrow>
             (rsVerify codec22 xs = Some True \<longrightarrow> xs = map Some sh) \<and> rsReconstruct codec22 xs = Some sh)
        \<and> rsJoin codec22 (map Some sh) (length d) = Some d" by blast
qed

end
