(* ===== verification/Durability.thy ===== *)
theory Durability
  imports ErasurePut WitnessCodec
begin

text \<open>
  The promise of the erasure backend: what a successful write stored can be read back, in full or any
  range, after the loss of disks. The disks the write reached are a write quorum; any read quorum of
  them is enough, and the other disks may be down, emptied, or hold detectably damaged shards.
\<close>

text \<open>A disk that lost the object or holds it damaged: no other metadata, no shard taken for a wrong block.\<close>

definition lostOrDamaged :: "senv \<Rightarrow> erasure \<Rightarrow> string \<Rightarrow> string \<Rightarrow> xlMeta \<Rightarrow> bytes \<Rightarrow> nat \<Rightarrow> disk \<Rightarrow> bool" where
  "lostOrDamaged env e b key m dat i d \<longleftrightarrow>
     (metaSeen b key d = None \<or> metaSeen b key d = Some m)
     \<and> (\<forall>pm \<in> set (Parts m). tolerablePart env e b key (Distribution (Erasure m))
          (shardOfDisk (Distribution (Erasure m)) i) d pm dat)"

text \<open>A later state of the set: the disks in \<open>G\<close> work and kept the object's files, the others did not.\<close>

definition aftermath :: "senv \<Rightarrow> string \<Rightarrow> string \<Rightarrow> xlMeta \<Rightarrow> bytes \<Rightarrow> eset \<Rightarrow> eset \<Rightarrow> nat set \<Rightarrow> bool" where
  "aftermath env b key m dat s s2 G \<longleftrightarrow>
     set_ok s2 \<and> ec s2 = ec s \<and> setN s2 = setN s
     \<and> (\<forall>i \<in> G. up (disks s2 ! i) \<and> (\<forall>x. at (disks s2 ! i) (dpath b key @ [x]) = at (disks s ! i) (dpath b key @ [x])))
     \<and> (\<forall>i < setN s. i \<notin> G \<longrightarrow> lostOrDamaged env (ec s) b key m dat i (disks s2 ! i))"

lemma down_lost: "down d \<Longrightarrow> lostOrDamaged env e b key m dat i d"
proof -
  assume "down d"
  then have "\<not> up d" by (auto simp: up_def down_def)
  then have "shown d p = None" for p by (simp add: shown_def)
  then show ?thesis by (simp add: lostOrDamaged_def metaSeen_def tolerablePart_def streamOf_def)
qed

lemma card_dist:
  assumes "perm_dist n dist" "G \<subseteq> {..<n}"
  shows "card {j. j < n \<and> dist ! j \<in> G} = card G"
proof -
  have "(\<lambda>j. dist ! j) ` {j. j < n \<and> dist ! j \<in> G} = G"
    using assms perm_dist_surj [OF assms(1)] by (auto simp: image_iff subset_iff)
  moreover have "inj_on (\<lambda>j. dist ! j) {j. j < n \<and> dist ! j \<in> G}"
    using assms(1) by (auto simp: inj_on_def perm_dist_def nth_eq_iff_index_eq)
  ultimately show ?thesis by (metis card_image)
qed

lemma votes_card: "votes (map f ds) h = card {i. i < length ds \<and> map_option contentHash (f (ds ! i)) = Some h}"
  unfolding votes_def length_filter_conv_card by (intro arg_cong [where f = card]) auto

lemma elected_unanimous:
  assumes "\<forall>i < length ds. f (ds ! i) = None \<or> f (ds ! i) = Some m"
    and "G \<subseteq> {..<length ds}" "\<forall>i \<in> G. f (ds ! i) = Some m" "q \<le> card G" "0 < q"
  shows "elected q (map f ds) m"
proof -
  have "G \<subseteq> {i. i < length ds \<and> map_option contentHash (f (ds ! i)) = Some (contentHash m)}"
    using assms by auto
  then have "card G \<le> votes (map f ds) (contentHash m)" unfolding votes_card by (intro card_mono) auto
  moreover have "votes (map f ds) h = 0" if "h \<noteq> contentHash m" for h
    using assms(1) that unfolding votes_card by auto
  moreover have "m' = m" if mem: "Some m' \<in> set (map f ds)" for m'
  proof -
    obtain i where "i < length ds" "f (ds ! i) = Some m'" using mem by (auto simp: in_set_conv_nth)
    then show ?thesis using assms(1) by auto
  qed
  ultimately show ?thesis using assms(4,5) unfolding elected_def by auto
qed

lemma get_after_loss:
  assumes ord: "order_ok env" and hash: "\<forall>x. length (bitrotRaw env x) = 32"
    and sto: "storedOn env b key m dat s C" and G: "G \<subseteq> C" "dataBlocks (ec s) \<le> card G"
    and af: "aftermath env b key m dat s s2 G"
  shows "\<exists>s3. getObject env b key off len s2 = (clip dat off len, None, s3)"
proof -
  let ?n = "setN s" and ?e = "ec s" and ?dist = "Distribution (Erasure m)" and ?f = "\<lambda>d. fst (readMetaOf b key d)"
  have ok2: "set_ok s2" and e2: "ec s2 = ?e" and n2: "setN s2 = ?n" using af by (auto simp: aftermath_def)
  have co: "coding_ok ?e" and nn: "?n = dataBlocks ?e + parityBlocks ?e" using ok2 e2 n2 by (auto simp: set_ok_def)
  have desc: "describes env ?e m [dat]" and Cn: "C \<subseteq> {..<?n}" using sto by (auto simp: storedOn_def)
  then have pd: "perm_dist ?n ?dist" using nn by (simp add: describes_def)
  have Gn: "G \<subseteq> {..<?n}" using G Cn by blast
  have steady2: "steady (disks s2 ! i)" if "i < ?n" for i
    using ok2 n2 that by (auto simp: set_ok_def setN_def)
  have fil: "shown (disks s2 ! i) (dpath b key @ [x]) = (case at (disks s ! i) (dpath b key @ [x]) of Some (File c) \<Rightarrow> Some c | _ \<Rightarrow> None)"
    if "i \<in> G" for i x
    using af that by (simp add: aftermath_def shown_def)
  have seen: "metaSeen b key (disks s2 ! i) = Some m" if "i \<in> G" for i
  proof -
    have "at (disks s ! i) (dpath b key @ [metaFile]) = Some (File (MetaDoc m))"
      using sto G that by (auto simp: storedOn_def)
    then show ?thesis using fil [OF that, of metaFile] by (simp add: metaSeen_def unmarshalXLMeta_def)
  qed
  have any: "?f (disks s2 ! i) = None \<or> ?f (disks s2 ! i) = Some m" if "i < ?n" for i
    using that seen af readMetaOf_seen [OF steady2 [OF that]]
    by (cases "i \<in> G") (auto simp: aftermath_def lostOrDamaged_def)
  have q: "readQuorum s2 = dataBlocks ?e" using e2 by (simp add: readQuorum_def)
  have "elected (dataBlocks ?e) (map ?f (disks s2)) m"
    using any seen Gn G(2) co readMetaOf_seen [OF steady2] n2
    by (intro elected_unanimous [where G = G]) (auto simp: setN_def coding_ok_def subset_iff)
  then have rm: "fst (readMeta env b key s2) = Inr m"
    using readMeta_elected [OF ord, of s2 b key m] q co nn n2 by (simp add: coding_ok_def setN_def)
  let ?s3 = "snd (readMeta env b key s2)"
  have ss: "same_store s2 ?s3" by (rule readMeta_keeps)
  have pm: "pm \<in> set (Parts m) \<Longrightarrow> intactPart env ?e b key ?dist j (disks s2 ! (?dist ! j)) pm dat"
    if "j < ?n" "?dist ! j \<in> G" for j pm
  proof -
    assume p: "pm \<in> set (Parts m)"
    have "at (disks s ! (?dist ! j)) (partPath b key pm) = Some (File (Raw (shardFile (bitrotRaw env) (shardsOf ?e dat) j)))"
      using sto G that p shardOfDisk_nth [OF pd that(1)] by (auto simp: storedOn_def)
    then show ?thesis using fil [OF that(2), of "partFile (Number pm)"] by (simp add: intactPart_def partPath_def)
  qed
  have "servesPart env b key ?dist s2 pm dat" if p: "pm \<in> set (Parts m)" for pm
    unfolding servesPart_def e2 n2
  proof (intro conjI allI impI)
    fix j
    assume j: "j < ?n"
    show "tolerablePart env ?e b key ?dist j (disks s2 ! (?dist ! j)) pm dat"
    proof (cases "?dist ! j \<in> G")
      case True
      then show ?thesis using intact_tolerable [OF co hash _ pm [OF j True p]] j nn by simp
    next
      case False
      then have "lostOrDamaged env ?e b key m dat (?dist ! j) (disks s2 ! (?dist ! j))"
        using af perm_dist_nth_less [OF pd j] by (simp add: aftermath_def)
      then show ?thesis using p shardOfDisk_nth [OF pd j] by (simp add: lostOrDamaged_def)
    qed
  next
    have "{j. j < ?n \<and> ?dist ! j \<in> G} \<subseteq> {j. j < length [0..<?n] \<and> intactPart env ?e b key ?dist ([0..<?n] ! j) (disks s2 ! (?dist ! ([0..<?n] ! j))) pm dat}"
      using pm p by auto
    then have "card {j. j < ?n \<and> ?dist ! j \<in> G} \<le> length (filter (\<lambda>j. intactPart env ?e b key ?dist j (disks s2 ! (?dist ! j)) pm dat) [0..<?n])"
      unfolding length_filter_conv_card by (intro card_mono) auto
    then show "dataBlocks ?e \<le> length (filter (\<lambda>j. intactPart env ?e b key ?dist j (disks s2 ! (?dist ! j)) pm dat) [0..<?n])"
      using card_dist [OF pd Gn] G(2) by simp
  qed
  then have "servesPart env b key ?dist ?s3 pm dat" if "pm \<in> set (Parts m)" for pm
    using same_store_serves [OF ss] pd n2 that by simp
  then have sv: "list_all2 (servesPart env b key ?dist ?s3) (Parts m) [dat]"
    using desc by (auto simp: describes_def list_all2_Cons2)
  have "describes env (ec ?s3) m [dat]" using desc ss e2 by (simp add: same_store_def)
  then obtain s4 where "getObjectMeta env b key m off len ?s3 = (clip (concat [dat]) off len, None, s4)"
    using getObjectMeta_ok [OF same_store_set_ok [OF ss ok2] hash _ sv] by blast
  then show ?thesis using rm by (cases "readMeta env b key s2") (auto simp: getObject_def)
qed


subsection \<open>Writes succeed on a healthy set\<close>

definition clear :: "path \<Rightarrow> disk \<Rightarrow> bool" where
  "clear p d \<longleftrightarrow> (\<forall>q c. prefix q p \<longrightarrow> at d q \<noteq> Some (File c))"

lemma mkdirFrom_clear:
  "\<forall>q c. prefix q (dn @ ss) \<longrightarrow> lookupF f q \<noteq> Some (File c) \<Longrightarrow> \<exists>f'. mkdirFrom dn ss f = Some f'"
proof (induction dn ss f rule: mkdirFrom.induct)
  case (2 dn s ss f)
  have "prefix (dn @ [s]) (dn @ s # ss)" by simp
  then have nf: "lookupF f (dn @ [s]) \<noteq> Some (File c)" for c using 2(3) by blast
  show ?case
  proof (cases "lookupF f (dn @ [s])")
    case None
    then show ?thesis using 2(1) [OF None] 2(3) by (auto simp: lookupF_update)
  next
    case (Some nd)
    then show ?thesis using 2(2) 2(3) nf by (cases nd) auto
  qed
qed simp

lemma mkdirAll_clear: "clear p d \<Longrightarrow> \<exists>f'. mkdirAll p (dfs d) = Some f'"
  using mkdirFrom_clear [of "[]" p "dfs d"] by (simp add: clear_def mkdirAll_def)

lemma writeFile_clear:
  assumes "clear (butlast p) d" "at d p \<noteq> Some Dir" "p \<noteq> []"
  shows "\<exists>f'. writeFile p c (dfs d) = Some f'"
proof -
  obtain f' where f': "mkdirAll (butlast p) (dfs d) = Some f'" using mkdirAll_clear [OF assms(1)] by blast
  have "\<not> prefix p (butlast p)" using assms(3) by (metis butlast_snoc append_butlast_last_id prefixeq_butlast
        prefix_order.antisym not_Cons_self2 self_append_conv)
  then show ?thesis using f' lookupF_mkdirAll [OF f', of p] assms(2) by (simp add: writeFile_def)
qed

lemma disk_put_succeeds:
  assumes up: "up d" and fr: "fresh (dpath [] stgs) d" and cl: "clear (dpath [] stgs) d" "clear (butlast (dpath b key)) d"
    and stg: "stagingPath (dpath [] stgs)" and dst: "userPath (dpath b key)"
  shows "\<exists>d1. CreateFile [] (pjoin stgs (partFile pn)) (-1) x d = (Inr (), d1) \<and>
    (\<forall>d1' mb. dfs d1' = dfs d1 \<and> dfaults d1' = dfaults d1 \<longrightarrow>
      (\<exists>d2. WriteAll [] (pjoin stgs metaFile) mb d1' = (Inr (), d2) \<and> (\<exists>d3. RenameDir [] stgs b key d2 = (Inr (), d3))))"
proof -
  let ?stg = "dpath [] stgs" and ?dst = "dpath b key"
  note dj = user_staging_disjoint [OF dst stg]
  have w: "sched d' = Works" if "dfaults d' = dfaults d" for d' using up that by (simp add: up_def sched_def)
  have "at d (?stg @ [y]) = None" for y using fr by (simp add: fresh_def)
  then obtain f1 where f1: "writeFile (?stg @ [partFile pn]) (Raw x) (dfs d) = Some f1"
    using writeFile_clear [of "?stg @ [partFile pn]" d "Raw x"] cl(1) by auto
  then obtain d1 where d1: "CreateFile [] (pjoin stgs (partFile pn)) (-1) x d = (Inr (), d1)"
    using w by (simp add: CreateFile_def Let_def)
  note at1 = CreateFile_ok [OF d1]
  have "\<exists>d2. WriteAll [] (pjoin stgs metaFile) mb d1' = (Inr (), d2) \<and> (\<exists>d3. RenameDir [] stgs b key d2 = (Inr (), d3))"
    if d1': "dfs d1' = dfs d1" "dfaults d1' = dfaults d1" for d1' mb
  proof -
    have "clear ?stg d1'" "at d1' (?stg @ [metaFile]) \<noteq> Some Dir"
      using at1(1) d1'(1) fr partFile_not_meta [of pn] by (auto simp: clear_def fresh_def)
    then obtain f2 where f2: "writeFile (?stg @ [metaFile]) mb (dfs d1') = Some f2"
      using writeFile_clear [of "?stg @ [metaFile]" d1' mb] by auto
    obtain d2 where d2: "WriteAll [] (pjoin stgs metaFile) mb d1' = (Inr (), d2)"
      using f2 w [of d1'] d1'(2) at1(2) by (simp add: WriteAll_def Let_def)
    have fl: "dfaults d2 = dfaults d" using WriteAll_faults [of "[]" "pjoin stgs metaFile" mb d1'] d2 d1'(2) at1(2) by simp
    have at2: "at d2 q = (if q = ?stg @ [metaFile] then Some (File mb) else if prefix q ?stg then Some Dir
        else if q = ?stg @ [partFile pn] then Some (File (Raw x)) else at d q)" for q
      using WriteAll_ok(1) [OF d2, of q] at1(1) [of q] d1'(1) by auto
    have "\<not> prefix q (butlast ?dst)" if "prefix ?stg q" for q
      using that dj(5) by (metis append_Nil2 prefix_order.trans)
    then have "clear (butlast ?dst) d2" using cl(2) at2 by (fastforce simp: clear_def)
    then obtain f3 where f3: "mkdirAll (butlast ?dst) (dfs d2) = Some f3" using mkdirAll_clear by blast
    have "?stg \<noteq> []" using stg by (simp add: stagingPath_def)
    then have "lookupF (removeAll ?dst f3) ?stg = Some Dir"
      using dj lookupF_mkdirAll [OF f3, of ?stg] at2 [of ?stg] by (simp add: lookupF_removeAll)
    then show ?thesis
      using d2 f3 dj(4) w [OF fl] by (auto simp: RenameDir_def Let_def renameF_def)
  qed
  then show ?thesis using d1 by blast
qed

lemma encodeStripes_ok: "coding_ok e \<Longrightarrow> encodeStripes e d = Some (shardsOf e d)"
proof -
  assume co: "coding_ok e"
  have th: "\<forall>x \<in> set xs. \<exists>y. g x = Some y \<Longrightarrow> those (map g xs) = Some (map (\<lambda>x. the (g x)) xs)" for g :: "bytes \<Rightarrow> bytes list option" and xs
    by (induction xs) auto
  have "\<forall>st \<in> set (stripesOf n d). st \<noteq> []" for n d
    by (induction n d rule: stripesOf.induct) (subst stripesOf.simps, auto)
  then have "\<forall>st \<in> set (stripesOf (stripeInputSize e) d). \<exists>sh. EncodeData e st = Some sh"
    using EncodeData_ok co unfolding coding_ok_def by metis
  then show ?thesis unfolding encodeStripes_def shardsOf_def by (rule th)
qed

lemma okCount_all: "\<forall>i < length ds. f (ds ! i) = Inr () \<Longrightarrow> okCount (map f ds) = length ds"
proof -
  assume "\<forall>i < length ds. f (ds ! i) = Inr ()"
  then have "{i. i < length ds \<and> f (ds ! i) = Inr ()} = {..<length ds}" by auto
  then show ?thesis by (simp add: okCount_card)
qed

lemma put_healthy:
  assumes ok: "set_ok s" "\<forall>d \<in> set (disks s). up d"
    and idp: "plainName id1" and fr: "\<forall>d \<in> set (disks s). fresh (dpath [] (pjoin tmpPrefix id1)) d
               \<and> clear (dpath [] (pjoin tmpPrefix id1)) d \<and> clear (butlast (dpath b key)) d"
    and dst: "userPath (dpath b key)" and rd: "\<not> rfails (psReader ps)" "rdata (psReader ps) \<noteq> []"
    and big: "\<not> (inlineMaxBytes env > 0 \<and> 0 \<le> psSize ps \<and> psSize ps \<le> inlineMaxBytes env)" "\<not> umCompress um"
  shows "\<exists>m s'. putObjectSSE env id1 id2 now b key [ps] um None False s = (Inr m, s')"
proof -
  define stgs where "stgs = pjoin tmpPrefix id1"
  define dist where "dist = buildDistribution key (setN s)"
  have co: "coding_ok (ec s)" using ok by (simp add: set_ok_def)
  have stg: "stagingPath (dpath [] stgs)" by (simp add: stgs_def staging_dpath [OF idp] stagingPath_def)
  define cf where "cf i = CreateFile [] (pjoin stgs (partFile (psNumber ps))) (-1)
      (shardFile (bitrotRaw env) (shardsOf (ec s) (rdata (psReader ps))) (shardOfDisk dist i)) (disks s ! i)" for i
  have di: "fst (cf i) = Inr () \<and>
    (\<forall>d1' mb. dfs d1' = dfs (snd (cf i)) \<and> dfaults d1' = dfaults (snd (cf i)) \<longrightarrow>
      (\<exists>d2. WriteAll [] (pjoin stgs metaFile) mb d1' = (Inr (), d2) \<and> fst (RenameDir [] stgs b key d2) = Inr ()))"
    if "i < setN s" for i
  proof -
    have "disks s ! i \<in> set (disks s)" using that by (simp add: setN_def)
    then have "up (disks s ! i)" "fresh (dpath [] stgs) (disks s ! i)" "clear (dpath [] stgs) (disks s ! i)"
        "clear (butlast (dpath b key)) (disks s ! i)" using ok fr by (auto simp: stgs_def)
    from disk_put_succeeds [OF this stg dst, of "psNumber ps"] obtain d1 where "cf i = (Inr (), d1)"
        "\<forall>d1' mb. dfs d1' = dfs d1 \<and> dfaults d1' = dfaults d1 \<longrightarrow>
          (\<exists>d2. WriteAll [] (pjoin stgs metaFile) mb d1' = (Inr (), d2) \<and> (\<exists>d3. RenameDir [] stgs b key d2 = (Inr (), d3)))"
      unfolding cf_def by blast
    then show ?thesis by fastforce
  qed
  define s1 where "s1 = s\<lparr>disks := map (\<lambda>i. snd (cf i)) [0..<setN s]\<rparr>"
  have ok1: "okCount (map (\<lambda>i. fst (cf i)) [0..<setN s]) = setN s"
    using di by (subst okCount_all) auto
  have wq: "\<not> setN s < writeQuorum s" by (simp add: writeQuorum_def)
  have nf: "\<not> list_ex (\<lambda>e. case e of Inl _ \<Rightarrow> True | Inr _ \<Rightarrow> False) (map (\<lambda>i. fst (cf i)) [0..<setN s])"
    using di by (auto simp: list_ex_iff)
  have ep: "encodePart env stgs (psNumber ps) dist (psReader ps) s =
      (Inr (md5Hex env (rdata (psReader ps)), length (rdata (psReader ps)), True), s1)"
    using rd(1) ok1 wq nf
    by (simp add: encodePart_def Let_def encodeStripes_ok [OF co] o_def s1_def flip: cf_def)
  have cm: "\<exists>m s3. commitMeta env stgs b key meta (-1) s1 = (Inr m, s3)" for meta
  proof -
    obtain pr s2 where rm: "readMeta env b key s1 = (pr, s2)" by fastforce
    have ss: "same_store s1 s2" using readMeta_keeps [of s1 env b key] rm by simp
    have n1: "setN s1 = setN s" "writeQuorum s1 = writeQuorum s" by (simp_all add: s1_def setN_def writeQuorum_def)
    have n2: "length (disks s2) = setN s" using same_store_length [OF ss] by (simp add: s1_def)
    have "ec s2 = ec s" "setN s2 = setN s" using ss n2 by (simp_all add: same_store_def s1_def setN_def)
    then have "writeQuorum s2 = writeQuorum s" "setN s2 = setN s" by (simp_all add: writeQuorum_def)
    moreover
    define mb where "mb = marshal (meta\<lparr>Revision := (case pr of Inr pm \<Rightarrow> Revision pm | Inl _ \<Rightarrow> 0) + 1\<rparr>)"
    have st: "dfs (disks s2 ! i) = dfs (snd (cf i)) \<and> dfaults (disks s2 ! i) = dfaults (snd (cf i))" if "i < setN s" for i
      using same_store_nth [OF ss, of i] that by (simp add: s1_def)
    let ?w = "WriteAll [] (pjoin stgs metaFile) mb"
    have w: "fst (?w (disks s2 ! i)) = Inr () \<and> fst (RenameDir [] stgs b key (snd (?w (disks s2 ! i)))) = Inr ()"
      if i: "i < setN s" for i
    proof -
      obtain d2 where "?w (disks s2 ! i) = (Inr (), d2)" "fst (RenameDir [] stgs b key d2) = Inr ()"
        using di [OF i] st [OF i] by blast
      then show ?thesis by simp
    qed
    have "okCount (map (\<lambda>d. fst (?w d)) (disks s2)) = setN s" using w n2 by (subst okCount_all) auto
    moreover have "okCount (map (\<lambda>d. fst (RenameDir [] stgs b key d)) (map (\<lambda>d. snd (?w d)) (disks s2))) = setN s"
      using w n2 by (subst okCount_all) auto
    ultimately show ?thesis
      using rm wq
      by (auto simp: commitMeta_def Let_def split_beta forEachDisk_errs simp flip: mb_def)
  qed
  have comp: "\<not> shouldCompress env (umCompress um) False ct z" for ct z using big(2) by (simp add: shouldCompress_def)
  have "\<exists>m s4. putStaged env stgs (pjoin tmpPrefix id2) now b key [ps] um None False s = (Inr m, s4)"
    using big(1) comp ep cm
    by (auto simp: putStaged_def Let_def partReader_def sealReader_def simp flip: dist_def split: prod.splits sum.splits)
      (metis Inl_Inr_False prod.inject)+
  then show ?thesis unfolding putObjectSSE_def Let_def stgs_def by (auto split: prod.splits)
qed

subsection \<open>A concrete set\<close>

definition wit_env :: senv where
  "wit_env = \<lparr>bitrotRaw = (\<lambda>b. take 32 (b @ replicate 32 (CHR 0x00))), md5Raw = (\<lambda>b. take 16 (b @ replicate 16 (CHR 0x00))),
     sha256RawE = (\<lambda>b. take 32 (b @ replicate 32 (CHR 0x00))), zstdC = id, inlineMaxBytes = 0, dedupEnabled = False,
     compressDisabled = False, mapOrder = id\<rparr>"

definition wit_disk :: disk where
  "wit_disk = \<lparr>dfs = [([''bkt''], Dir)], dfaults = (\<lambda>_. Works), dopno = 0\<rparr>"

definition wit_set :: eset where
  "wit_set = \<lparr>disks = [wit_disk, wit_disk, wit_disk, wit_disk],
     ec = \<lparr>enc = codec22, dataBlocks = 2, parityBlocks = 2, blockSize = 4\<rparr>, hasMrf = False, mrfCalls = []\<rparr>"

definition wit_part :: partSource where
  "wit_part = \<lparr>psNumber = 1, psSize = 11, psReader = \<lparr>rdata = ''hello world'', rfails = False\<rparr>\<rparr>"

definition wit_um :: userMeta where
  "wit_um = \<lparr>umContentType = ''text/plain'', umContentEnc = [], umUser = [], umTags = [], umCompress = False\<rparr>"

lemma wit_env_ok: "order_ok wit_env" "\<forall>x. length (bitrotRaw wit_env x) = 32"
  by (auto simp: order_ok_def wit_env_def)

lemma wit_set_ok: "set_ok wit_set" "\<forall>d \<in> set (disks wit_set). up d"
  by (auto simp: set_ok_def wit_set_def coding_ok_def codec22_ok setN_def steady_def up_def wit_disk_def)

lemma wit_dpath: "dpath ''bkt'' ''k'' = [''bkt'', ''k'']" "userPath (dpath ''bkt'' ''k'')"
  by code_simp+

lemma wit_id: "plainName ''id1''"
  by code_simp

lemma wit_fresh: "\<forall>d \<in> set (disks wit_set). fresh (dpath [] (pjoin tmpPrefix ''id1'')) d
    \<and> clear (dpath [] (pjoin tmpPrefix ''id1'')) d \<and> clear (butlast (dpath ''bkt'' ''k'')) d"
proof -
  have st: "dpath [] (pjoin tmpPrefix ''id1'') = [''.gostore.sys'', ''tmp'', ''id1'']" by code_simp
  have "fresh [''.gostore.sys'', ''tmp'', ''id1''] wit_disk" "clear p wit_disk" for p
    by (auto simp: fresh_def clear_def wit_disk_def lookupF_def)
  then show ?thesis unfolding st by (simp add: wit_set_def)
qed



text \<open>Two of the four disks of the witness set fail after the write, whichever two are not in \<open>G\<close>.\<close>

definition wit_failed :: disk where "wit_failed = \<lparr>dfs = [], dfaults = (\<lambda>_. FailsBefore), dopno = 0\<rparr>"

definition wit_loss :: "nat set \<Rightarrow> eset \<Rightarrow> eset" where
  "wit_loss G s = s\<lparr>disks := map (\<lambda>i. if i \<in> G then (disks s ! i)\<lparr>dfaults := (\<lambda>_. Works)\<rparr> else wit_failed) [0..<setN s]\<rparr>"

lemma wit_loss_aftermath:
  assumes "coding_ok (ec s)" "setN s = dataBlocks (ec s) + parityBlocks (ec s)" "G \<subseteq> {..<setN s}"
  shows "aftermath env b key m dat s (wit_loss G s) G"
proof -
  have dn: "down wit_failed" by (simp add: down_def wit_failed_def)
  have "up (d\<lparr>dfaults := \<lambda>_. Works\<rparr>)" for d by (simp add: up_def)
  then show ?thesis
    using assms dn down_lost [OF dn] unfolding aftermath_def wit_loss_def set_ok_def
    by (auto simp: setN_def steady_def subset_iff)
qed


end
