(* ===== verification/Versioning.thy ===== *)
theory Versioning
  imports Pool Durability
begin

text \<open>
  Object versions and object lock (\<open>internal/erasure/versioning.go\<close>, \<open>lock.go\<close>). The current version
  of a key is the object in the key's own directory; older ones are moved to
  \<open>.gostore.sys/vs/<key>/<id>\<close> inside the bucket, and \<open>.gostore.sys/vlog/<key>/vlog.json\<close> lists them all in
  order, with their delete markers and locks. \<open>archiveCurrent\<close> is the move; a put archives the current
  version, writes the new one and appends its entry; a delete appends a marker, or removes one version
  for good unless its entry is locked, promoting the newest remaining version when it has to.
\<close>

subsection \<open>Operations on a set\<close>

definition archiveCurrent :: "senv \<Rightarrow> string \<Rightarrow> string \<Rightarrow> eset \<Rightarrow> (setErr + string) \<times> eset" where
  "archiveCurrent env bucket key s =
     (case readMeta env bucket key s of
        (Inl e, s1) \<Rightarrow> ((if e = EDisk ErrFileNotFound then Inr [] else Inl e), s1)
      | (Inr m, s1) \<Rightarrow>
          (let vid = (if VersionID m = [] then nullVersionID else VersionID m) in
           case forEachDisk (RenameDir bucket key bucket (vsDir key vid)) s1 of (errs, s2) \<Rightarrow>
             ((if okCount errs < writeQuorum s then Inl EWriteQuorum else Inr vid), s2)))"

text \<open>The directory of a version and whether it is the current one; \<open>None\<close> when there is no such version.\<close>

definition resolveVersionDir :: "senv \<Rightarrow> string \<Rightarrow> string \<Rightarrow> string \<Rightarrow> eset \<Rightarrow> (string \<times> bool) option \<times> eset" where
  "resolveVersionDir env bucket key versionID s =
     (case readMeta env bucket key s of (r, s1) \<Rightarrow>
        if versionID = [] then
          ((case r of Inr m \<Rightarrow> Some (key, True) | Inl e \<Rightarrow> None), s1)
        else if (case r of Inr m \<Rightarrow> VersionID m = versionID \<or> (VersionID m = [] \<and> versionID = nullVersionID) | Inl e \<Rightarrow> False)
        then (Some (key, True), s1)
        else
          (case readMeta env bucket (vsDir key versionID) s1 of
             (Inr m, s2) \<Rightarrow> (Some (vsDir key versionID, False), s2)
           | (Inl e, s2) \<Rightarrow> (None, s2)))"

definition withVersionID :: "xlMeta \<Rightarrow> objectInfo \<Rightarrow> objectInfo" where
  "withVersionID m oi = oi\<lparr>iVersionID := (if VersionID m = [] then nullVersionID else VersionID m)\<rparr>"

definition getVersionedOn ::
  "penv \<Rightarrow> kms option \<Rightarrow> string \<Rightarrow> string \<Rightarrow> rangeSpec option \<Rightarrow> objectOptions \<Rightarrow> eset \<Rightarrow> getResult \<times> eset" where
  "getVersionedOn pe km bucket key rs opts s =
     (case resolveVersionDir (senvOf pe) bucket key (oVersionID opts) s of
        (None, s1) \<Rightarrow> (Inl OObjectNotFound, s1)
      | (Some (dir, _), s1) \<Rightarrow>
          (case readMeta (senvOf pe) bucket dir s1 of
             (Inl e, s2) \<Rightarrow> (Inl (mapErr e), s2)
           | (Inr m, s2) \<Rightarrow>
               (let oi = withVersionID m (metaToInfo bucket key m) in
                if (case oCheckPrecondFn opts of Some f \<Rightarrow> f oi | None \<Rightarrow> False) then (Inl OPreconditionFailed, s2)
                else serveObject pe km bucket dir m oi rs s2)))"

definition statVersionedOn :: "senv \<Rightarrow> string \<Rightarrow> string \<Rightarrow> string \<Rightarrow> eset \<Rightarrow> (objErr + objectInfo) \<times> eset" where
  "statVersionedOn env bucket key versionID s =
     (case resolveVersionDir env bucket key versionID s of
        (None, s1) \<Rightarrow> (Inl OObjectNotFound, s1)
      | (Some (dir, _), s1) \<Rightarrow>
          (case readMeta env bucket dir s1 of
             (Inl e, s2) \<Rightarrow> (Inl (mapErr e), s2)
           | (Inr m, s2) \<Rightarrow> (Inr (withVersionID m (metaToInfo bucket key m)), s2)))"

subsection \<open>Writing a version\<close>

definition lockFields :: "draws \<Rightarrow> objectOptions \<Rightarrow> string \<Rightarrow> xlMeta \<Rightarrow> xlMeta" where
  "lockFields dr opts newVID m =
     (let m1 = m\<lparr>VersionID := newVID, LockMode := oLockMode opts, RetainUntil := oLockRetainUntil opts,
                 LegalHold := (oLockLegalHold opts = ''ON'')\<rparr>
      in if isZero (oMTime opts) then m1 else m1\<lparr>ModTime := oMTime opts\<rparr>)"

definition vlogEntryOf :: "string \<Rightarrow> xlMeta \<Rightarrow> vlogEntry" where
  "vlogEntryOf newVID m =
     \<lparr>VlogID = newVID, DeleteMarker = False, VModTime = ModTime m, VLockMode = LockMode m,
      VRetainUntil = RetainUntil m, VLegalHold = LegalHold m\<rparr>"

definition sseWanted :: "aead \<Rightarrow> kms option \<Rightarrow> string list \<Rightarrow> draws \<Rightarrow> objectOptions \<Rightarrow> objErr + sseParams option" where
  "sseWanted a km algs dr opts =
     (case km of
        None \<Rightarrow> Inr None
      | Some k \<Rightarrow>
          if getKey (oUserDefined opts) ''x-amz-server-side-encryption'' \<in> set algs then
            (case newSSEParams a k (dDek dr) (dPfx dr) (dNonce dr) of Inl e \<Rightarrow> Inl (OKms e) | Inr sp \<Rightarrow> Inr (Some sp))
          else Inr None)"

text \<open>The part of \<open>putObjectVersionedOn\<close> after the checks, on the key's set.\<close>

definition putVersionOn ::
  "penv \<Rightarrow> kms option \<Rightarrow> draws \<Rightarrow> string \<Rightarrow> string \<Rightarrow> reader \<Rightarrow> int \<Rightarrow> objectOptions \<Rightarrow> eset \<Rightarrow> (objErr + objectInfo) \<times> eset" where
  "putVersionOn pe km dr bucket key data sz opts s0 =
     (let env = senvOf pe in
      case readVlog bucket key s0 of (vlog0, s1) \<Rightarrow>
      (case (if oVersionSuspended opts then
               (None, snd (forEachDisk (Delete bucket (vsDir key nullVersionID) True) s1))
             else case archiveCurrent env bucket key s1 of
               (Inl e, s2) \<Rightarrow> (Some e, s2) | (Inr _, s2) \<Rightarrow> (None, s2)) of
         (Some e, s2) \<Rightarrow> (Inl (OSet e), s2)
       | (None, s2) \<Rightarrow>
           (let newVID = (if oVersionSuspended opts then nullVersionID else dVid dr);
                vlog = (if oVersionSuspended opts then dropEntry vlog0 nullVersionID else vlog0)
            in case sseWanted (aeadOf pe) km [''AES256''] dr opts of
                 Inl e \<Rightarrow> (Inl e, s2)
               | Inr sp \<Rightarrow>
                   (case putObjectSSE env (dId1 dr) (dId2 dr) (dNow dr) bucket key
                           [\<lparr>psNumber = 1, psSize = sz, psReader = data\<rparr>] (toUserMeta opts) sp False s2 of
                      (Inl e, s3) \<Rightarrow> (Inl (mapErr e), s3)
                    | (Inr meta0, s3) \<Rightarrow>
                        (let meta = lockFields dr opts newVID meta0;
                             s4 = snd (forEachDisk (WriteAll bucket (pjoin key metaFile) (marshal meta)) s3)
                         in case writeVlog bucket key (vlog @ [vlogEntryOf newVID meta]) s4 of
                              (Some e, s5) \<Rightarrow> (Inl (OSet e), s5)
                            | (None, s5) \<Rightarrow>
                                (Inr ((metaToInfo bucket key meta)\<lparr>iVersionID := newVID, iIsLatest := True\<rparr>), s5))))))"

definition putObjectVersionedOn ::
  "penv \<Rightarrow> draws \<Rightarrow> nat \<Rightarrow> string \<Rightarrow> string \<Rightarrow> reader \<Rightarrow> int \<Rightarrow> objectOptions \<Rightarrow> pool \<Rightarrow> (objErr + objectInfo) \<times> pool" where
  "putObjectVersionedOn pe dr i bucket key data sz opts p =
     (case ensureBucket (dNow dr) bucket p of
        (Some e, p1) \<Rightarrow> (Inl e, p1)
      | (None, p1) \<Rightarrow>
          if \<not> validObjectName key then (Inl OObjectNameInvalid, p1)
          else onSet i (putVersionOn pe (pkms p1) dr bucket key data sz opts) p1)"

subsection \<open>Deleting\<close>

fun findEntry :: "string \<Rightarrow> nat \<Rightarrow> vlogEntry list \<Rightarrow> nat option" where
  "findEntry vid i [] = None"
| "findEntry vid i (e # v) = (if VlogID e = vid then Some i else findEntry vid (Suc i) v)"

definition deleteInfo :: "string \<Rightarrow> string \<Rightarrow> string \<Rightarrow> bool \<Rightarrow> objectInfo" where
  "deleteInfo bucket key vid marker =
     noInfo\<lparr>iBucket := bucket, iName := key, iVersionID := vid, iDeleteMarker := marker\<rparr>"

definition addDeleteMarker ::
  "senv \<Rightarrow> draws \<Rightarrow> string \<Rightarrow> string \<Rightarrow> objectOptions \<Rightarrow> vlogEntry list \<Rightarrow> eset \<Rightarrow> (objErr + objectInfo) \<times> eset" where
  "addDeleteMarker env dr bucket key opts vlog0 s1 =
     (case (if oVersionSuspended opts then (None, snd (forEachDisk (Delete bucket key True) s1))
            else case archiveCurrent env bucket key s1 of
              (Inl e, s2) \<Rightarrow> (Some e, s2) | (Inr _, s2) \<Rightarrow> (None, s2)) of
        (Some e, s2) \<Rightarrow> (Inl (OSet e), s2)
      | (None, s2) \<Rightarrow>
          (let vlog = (if oVersionSuspended opts then dropEntry vlog0 nullVersionID else vlog0);
               dmID = (if oVersionSuspended opts then nullVersionID else dVid dr);
               e = \<lparr>VlogID = dmID, DeleteMarker = True, VModTime = dNow dr, VLockMode = [], VRetainUntil = 0, VLegalHold = False\<rparr>
           in case writeVlog bucket key (vlog @ [e]) s2 of
                (Some e', s3) \<Rightarrow> (Inl (OSet e'), s3)
              | (None, s3) \<Rightarrow> (Inr (deleteInfo bucket key dmID True), s3)))"

definition removeVersionFiles :: "senv \<Rightarrow> string \<Rightarrow> string \<Rightarrow> string \<Rightarrow> eset \<Rightarrow> eset" where
  "removeVersionFiles env bucket key vid s =
     (case resolveVersionDir env bucket key vid s of
        (Some (dir, isCurrent), s1) \<Rightarrow> snd (forEachDisk (Delete bucket (if isCurrent then key else dir) True) s1)
      | (None, s1) \<Rightarrow> s1)"

definition promoteLast :: "senv \<Rightarrow> string \<Rightarrow> string \<Rightarrow> vlogEntry list \<Rightarrow> eset \<Rightarrow> eset" where
  "promoteLast env bucket key vlog s =
     (case readMeta env bucket key s of (r, s1) \<Rightarrow>
        if r = Inl (EDisk ErrFileNotFound)
        then snd (forEachDisk (RenameDir bucket (vsDir key (VlogID (last vlog))) bucket key) s1)
        else s1)"

definition deleteVersion ::
  "senv \<Rightarrow> draws \<Rightarrow> string \<Rightarrow> string \<Rightarrow> objectOptions \<Rightarrow> vlogEntry list \<Rightarrow> eset \<Rightarrow> (objErr + objectInfo) \<times> eset" where
  "deleteVersion env dr bucket key opts vlog0 s1 =
     (case findEntry (oVersionID opts) 0 vlog0 of
        None \<Rightarrow> (Inl OObjectNotFound, s1)
      | Some idx \<Rightarrow>
          if lockBlocks (dNow dr) (oBypassGovernance opts) (vlog0 ! idx) then (Inl OObjectLocked, s1)
          else
            (let wasLatest = (idx = length vlog0 - 1);
                 s2 = removeVersionFiles env bucket key (oVersionID opts) s1;
                 vlog = take idx vlog0 @ drop (Suc idx) vlog0;
                 info = deleteInfo bucket key (oVersionID opts) False
             in if vlog = [] then
                  (Inr info, snd (forEachDisk (Delete bucket (pjoin ''.gostore.sys/vlog'' key) True) s2))
                else
                  (let s3 = (if wasLatest \<and> \<not> DeleteMarker (last vlog) then promoteLast env bucket key vlog s2 else s2)
                   in case writeVlog bucket key vlog s3 of
                        (Some e, s4) \<Rightarrow> (Inl (OSet e), s4)
                      | (None, s4) \<Rightarrow> (Inr info, s4))))"

definition deleteVersionedOn ::
  "senv \<Rightarrow> draws \<Rightarrow> string \<Rightarrow> string \<Rightarrow> objectOptions \<Rightarrow> eset \<Rightarrow> (objErr + objectInfo) \<times> eset" where
  "deleteVersionedOn env dr bucket key opts s =
     (case readVlog bucket key s of (vlog, s1) \<Rightarrow>
        if oVersionID opts = [] then addDeleteMarker env dr bucket key opts vlog s1
        else deleteVersion env dr bucket key opts vlog s1)"

subsection \<open>Object lock (lock.go)\<close>

definition findVlogEntry :: "string \<Rightarrow> string \<Rightarrow> string \<Rightarrow> eset \<Rightarrow> (objErr + (nat \<times> vlogEntry list)) \<times> eset" where
  "findVlogEntry bucket key versionID s =
     (case readVlog bucket key s of (vlog, s1) \<Rightarrow>
        if vlog = [] then (Inl ONotVersioned, s1)
        else if versionID = [] then (Inr (length vlog - 1, vlog), s1)
        else ((case findEntry versionID 0 vlog of Some i \<Rightarrow> Inr (i, vlog) | None \<Rightarrow> Inl OObjectNotFound), s1))"

definition syncCurrentLock :: "senv \<Rightarrow> string \<Rightarrow> string \<Rightarrow> vlogEntry \<Rightarrow> eset \<Rightarrow> eset" where
  "syncCurrentLock env bucket key e s =
     (case readMeta env bucket key s of
        (Inl err, s1) \<Rightarrow> s1
      | (Inr m, s1) \<Rightarrow>
          if VersionID m \<noteq> VlogID e then s1
          else
            (let m1 = m\<lparr>LockMode := VLockMode e, RetainUntil := VRetainUntil e, LegalHold := VLegalHold e\<rparr>
             in snd (forEachDisk (WriteAll bucket (pjoin key metaFile) (marshal m1)) s1)))"

definition retentionRefused :: "time \<Rightarrow> string \<Rightarrow> time \<Rightarrow> bool \<Rightarrow> vlogEntry \<Rightarrow> bool" where
  "retentionRefused now mode until bypassGovernance cur =
     (let active = (\<not> isZero (VRetainUntil cur) \<and> now < VRetainUntil cur) in
      (VLockMode cur = ''COMPLIANCE'' \<and> active \<and> (mode \<noteq> ''COMPLIANCE'' \<or> until < VRetainUntil cur))
      \<or> (VLockMode cur = ''GOVERNANCE'' \<and> active \<and> (mode = [] \<or> until < VRetainUntil cur) \<and> \<not> bypassGovernance))"

definition updateEntry ::
  "senv \<Rightarrow> string \<Rightarrow> string \<Rightarrow> nat \<Rightarrow> vlogEntry \<Rightarrow> vlogEntry list \<Rightarrow> eset \<Rightarrow> objErr option \<times> eset" where
  "updateEntry env bucket key i e vlog s =
     (case writeVlog bucket key (vlog[i := e]) s of
        (Some err, s1) \<Rightarrow> (Some (OSet err), s1)
      | (None, s1) \<Rightarrow> (None, syncCurrentLock env bucket key e s1))"

definition putRetentionOn ::
  "senv \<Rightarrow> time \<Rightarrow> string \<Rightarrow> string \<Rightarrow> string \<Rightarrow> string \<Rightarrow> time \<Rightarrow> bool \<Rightarrow> eset \<Rightarrow> objErr option \<times> eset" where
  "putRetentionOn env now bucket key versionID mode until bypassGovernance s =
     (case findVlogEntry bucket key versionID s of
        (Inl e, s1) \<Rightarrow> (Some e, s1)
      | (Inr (i, vlog), s1) \<Rightarrow>
          if retentionRefused now mode until bypassGovernance (vlog ! i) then (Some OObjectLocked, s1)
          else updateEntry env bucket key i ((vlog ! i)\<lparr>VLockMode := mode, VRetainUntil := until\<rparr>) vlog s1)"

definition putLegalHoldOn ::
  "senv \<Rightarrow> string \<Rightarrow> string \<Rightarrow> string \<Rightarrow> string \<Rightarrow> eset \<Rightarrow> objErr option \<times> eset" where
  "putLegalHoldOn env bucket key versionID status s =
     (case findVlogEntry bucket key versionID s of
        (Inl e, s1) \<Rightarrow> (Some e, s1)
      | (Inr (i, vlog), s1) \<Rightarrow>
          updateEntry env bucket key i ((vlog ! i)\<lparr>VLegalHold := (status = ''ON'')\<rparr>) vlog s1)"

definition getRetentionOn :: "string \<Rightarrow> string \<Rightarrow> string \<Rightarrow> eset \<Rightarrow> (objErr + (string \<times> time)) \<times> eset" where
  "getRetentionOn bucket key versionID s =
     (case findVlogEntry bucket key versionID s of
        (Inl e, s1) \<Rightarrow> (Inl e, s1)
      | (Inr (i, vlog), s1) \<Rightarrow> (Inr (VLockMode (vlog ! i), VRetainUntil (vlog ! i)), s1))"

definition getLegalHoldOn :: "string \<Rightarrow> string \<Rightarrow> string \<Rightarrow> eset \<Rightarrow> (objErr + string) \<times> eset" where
  "getLegalHoldOn bucket key versionID s =
     (case findVlogEntry bucket key versionID s of
        (Inl e, s1) \<Rightarrow> (Inl e, s1)
      | (Inr (i, vlog), s1) \<Rightarrow> (Inr (if VLegalHold (vlog ! i) then ''ON'' else ''OFF''), s1))"

end
