(* ===== verification/PoolOps.thy ===== *)
theory PoolOps
  imports Versioning
begin

text \<open>
  The object operations of \<open>internal/erasure/pool.go\<close>, \<open>tags.go\<close>, \<open>lock.go\<close> and
  \<open>tiering.go\<close>, composed from the set operations the way the object layer does: check the bucket (through its
  cache), choose the set (\<open>setFor\<close> for a new object, \<open>locate\<close> for one that exists), take the versioned path when the
  bucket has versioning or a version is named, and drop the cached listing after a write. An operation that holds the
  namespace lock of its key is one step here.
\<close>

definition invalidateList :: "string \<Rightarrow> 'r \<times> pool \<Rightarrow> 'r \<times> pool" where
  "invalidateList bucket rp = (case rp of (r, p) \<Rightarrow> (r, p\<lparr>lcache := AList.delete bucket (lcache p)\<rparr>))"

subsection \<open>Versioned requests\<close>

definition putObjectVersioned ::
  "penv \<Rightarrow> draws \<Rightarrow> string \<Rightarrow> string \<Rightarrow> reader \<Rightarrow> int \<Rightarrow> objectOptions \<Rightarrow> pool \<Rightarrow> (objErr + objectInfo) \<times> pool" where
  "putObjectVersioned pe dr bucket key data sz opts p = putObjectVersionedOn pe dr (setFor p key) bucket key data sz opts p"

definition getVersioned ::
  "penv \<Rightarrow> string \<Rightarrow> string \<Rightarrow> rangeSpec option \<Rightarrow> objectOptions \<Rightarrow> pool \<Rightarrow> getResult \<times> pool" where
  "getVersioned pe bucket key rs opts p =
     (case locate pe bucket key p of (i, p1) \<Rightarrow> onSet i (getVersionedOn pe (pkms p1) bucket key rs opts) p1)"

definition statVersioned :: "penv \<Rightarrow> string \<Rightarrow> string \<Rightarrow> string \<Rightarrow> pool \<Rightarrow> (objErr + objectInfo) \<times> pool" where
  "statVersioned pe bucket key versionID p =
     (case locate pe bucket key p of (i, p1) \<Rightarrow> onSet i (statVersionedOn (senvOf pe) bucket key versionID) p1)"

definition deleteVersioned ::
  "penv \<Rightarrow> draws \<Rightarrow> string \<Rightarrow> string \<Rightarrow> objectOptions \<Rightarrow> pool \<Rightarrow> (objErr + objectInfo) \<times> pool" where
  "deleteVersioned pe dr bucket key opts p =
     (case locate pe bucket key p of (i, p1) \<Rightarrow> onSet i (deleteVersionedOn (senvOf pe) dr bucket key opts) p1)"

definition PutObjectRetention ::
  "penv \<Rightarrow> time \<Rightarrow> string \<Rightarrow> string \<Rightarrow> string \<Rightarrow> string \<Rightarrow> time \<Rightarrow> bool \<Rightarrow> pool \<Rightarrow> objErr option \<times> pool" where
  "PutObjectRetention pe now bucket key versionID mode until bypassGovernance p =
     (case locate pe bucket key p of (i, p1) \<Rightarrow>
        onSet i (putRetentionOn (senvOf pe) now bucket key versionID mode until bypassGovernance) p1)"

definition GetObjectRetention :: "penv \<Rightarrow> string \<Rightarrow> string \<Rightarrow> string \<Rightarrow> pool \<Rightarrow> (objErr + (string \<times> time)) \<times> pool" where
  "GetObjectRetention pe bucket key versionID p =
     (case locate pe bucket key p of (i, p1) \<Rightarrow> onSet i (getRetentionOn bucket key versionID) p1)"

definition PutObjectLegalHold :: "penv \<Rightarrow> string \<Rightarrow> string \<Rightarrow> string \<Rightarrow> string \<Rightarrow> pool \<Rightarrow> objErr option \<times> pool" where
  "PutObjectLegalHold pe bucket key versionID status p =
     (case locate pe bucket key p of (i, p1) \<Rightarrow> onSet i (putLegalHoldOn (senvOf pe) bucket key versionID status) p1)"

definition GetObjectLegalHold :: "penv \<Rightarrow> string \<Rightarrow> string \<Rightarrow> string \<Rightarrow> pool \<Rightarrow> (objErr + string) \<times> pool" where
  "GetObjectLegalHold pe bucket key versionID p =
     (case locate pe bucket key p of (i, p1) \<Rightarrow> onSet i (getLegalHoldOn bucket key versionID) p1)"

subsection \<open>Objects\<close>

definition hasVersioning :: "objectOptions \<Rightarrow> bool" where
  "hasVersioning opts \<longleftrightarrow> oVersioned opts \<or> oVersionSuspended opts"

definition precondRefuses :: "penv \<Rightarrow> string \<Rightarrow> string \<Rightarrow> objectOptions \<Rightarrow> pool \<Rightarrow> bool \<times> pool" where
  "precondRefuses pe bucket key opts p =
     (case oCheckPrecondFn opts of
        None \<Rightarrow> (False, p)
      | Some f \<Rightarrow>
          (case locate pe bucket key p of (i, p1) \<Rightarrow>
             (case onSet i (statObject (senvOf pe) bucket key) p1 of
                (Inr m, p2) \<Rightarrow> (f (metaToInfo bucket key m), p2)
              | (Inl e, p2) \<Rightarrow> (False, p2))))"

definition putPlain ::
  "penv \<Rightarrow> draws \<Rightarrow> string \<Rightarrow> string \<Rightarrow> reader \<Rightarrow> int \<Rightarrow> objectOptions \<Rightarrow> pool \<Rightarrow> (objErr + objectInfo) \<times> pool" where
  "putPlain pe dr bucket key data sz opts p =
     (case sseWanted (aeadOf pe) (pkms p) [''AES256'', ''aws:kms''] dr opts of
        Inl e \<Rightarrow> (Inl e, p)
      | Inr sp \<Rightarrow>
          (case onSet (setFor p key) (putObjectSSE (senvOf pe) (dId1 dr) (dId2 dr) (dNow dr) bucket key
                  [\<lparr>psNumber = 1, psSize = sz, psReader = data\<rparr>] (toUserMeta opts) sp (dedupEnabled (senvOf pe))) p of
             (Inl e, p1) \<Rightarrow> (Inl (mapErr e), p1)
           | (Inr m, p1) \<Rightarrow>
               (Inr (metaToInfo bucket key (if isZero (oMTime opts) then m else m\<lparr>ModTime := oMTime opts\<rparr>)), p1)))"

definition PutObject ::
  "penv \<Rightarrow> draws \<Rightarrow> string \<Rightarrow> string \<Rightarrow> reader \<Rightarrow> int \<Rightarrow> objectOptions \<Rightarrow> pool \<Rightarrow> (objErr + objectInfo) \<times> pool" where
  "PutObject pe dr bucket key data sz opts p =
     invalidateList bucket
       (if hasVersioning opts then putObjectVersioned pe dr bucket key data sz opts p
        else case ensureBucket (dNow dr) bucket p of
          (Some e, p1) \<Rightarrow> (Inl e, p1)
        | (None, p1) \<Rightarrow>
            if \<not> validObjectName key then (Inl OObjectNameInvalid, p1)
            else case precondRefuses pe bucket key opts p1 of
              (True, p2) \<Rightarrow> (Inl OPreconditionFailed, p2)
            | (False, p2) \<Rightarrow> putPlain pe dr bucket key data sz opts p2)"

definition statPlain :: "penv \<Rightarrow> string \<Rightarrow> string \<Rightarrow> pool \<Rightarrow> (objErr + objectInfo) \<times> pool" where
  "statPlain pe bucket key p =
     (case locate pe bucket key p of (i, p1) \<Rightarrow>
        (case onSet i (statObject (senvOf pe) bucket key) p1 of
           (Inl e, p2) \<Rightarrow> (Inl (mapErr e), p2)
         | (Inr m, p2) \<Rightarrow> (Inr (metaToInfo bucket key m), p2)))"

definition GetObjectInfo :: "penv \<Rightarrow> time \<Rightarrow> string \<Rightarrow> string \<Rightarrow> objectOptions \<Rightarrow> pool \<Rightarrow> (objErr + objectInfo) \<times> pool" where
  "GetObjectInfo pe now bucket key opts p =
     (case ensureBucket now bucket p of
        (Some e, p1) \<Rightarrow> (Inl e, p1)
      | (None, p1) \<Rightarrow>
          if hasVersioning opts \<or> oVersionID opts \<noteq> [] then
            (case statVersioned pe bucket key (oVersionID opts) p1 of (r, p2) \<Rightarrow>
               if r \<noteq> Inl OObjectNotFound \<or> oVersionID opts \<noteq> [] then (r, p2)
               else statPlain pe bucket key p2)
          else statPlain pe bucket key p1)"

definition getPlainObject ::
  "penv \<Rightarrow> string \<Rightarrow> string \<Rightarrow> rangeSpec option \<Rightarrow> objectOptions \<Rightarrow> pool \<Rightarrow> getResult \<times> pool" where
  "getPlainObject pe bucket key rs opts p =
     (case locate pe bucket key p of (i, p1) \<Rightarrow>
        (case onSet i (statObject (senvOf pe) bucket key) p1 of
           (Inl e, p2) \<Rightarrow> (Inl (mapErr e), p2)
         | (Inr m, p2) \<Rightarrow>
             (let oi = metaToInfo bucket key m in
              if (case oCheckPrecondFn opts of Some f \<Rightarrow> f oi | None \<Rightarrow> False) then (Inl OPreconditionFailed, p2)
              else onSet i (serveObject pe (pkms p2) bucket key m oi rs) p2)))"

definition GetObjectNInfo ::
  "penv \<Rightarrow> time \<Rightarrow> string \<Rightarrow> string \<Rightarrow> rangeSpec option \<Rightarrow> objectOptions \<Rightarrow> pool \<Rightarrow> getResult \<times> pool" where
  "GetObjectNInfo pe now bucket key rs opts p =
     (case ensureBucket now bucket p of
        (Some e, p1) \<Rightarrow> (Inl e, p1)
      | (None, p1) \<Rightarrow>
          if hasVersioning opts \<or> oVersionID opts \<noteq> [] then
            (case getVersioned pe bucket key rs opts p1 of (r, p2) \<Rightarrow>
               if r \<noteq> Inl OObjectNotFound \<or> oVersionID opts \<noteq> [] then (r, p2)
               else getPlainObject pe bucket key rs opts p2)
          else getPlainObject pe bucket key rs opts p1)"

text \<open>The copy on a remote tier is removed in the background, outside the model.\<close>

definition DeleteObject :: "penv \<Rightarrow> draws \<Rightarrow> string \<Rightarrow> string \<Rightarrow> objectOptions \<Rightarrow> pool \<Rightarrow> (objErr + objectInfo) \<times> pool" where
  "DeleteObject pe dr bucket key opts p =
     invalidateList bucket
       (case ensureBucket (dNow dr) bucket p of
          (Some e, p1) \<Rightarrow> (Inl e, p1)
        | (None, p1) \<Rightarrow>
            if hasVersioning opts \<or> oVersionID opts \<noteq> [] then deleteVersioned pe dr bucket key opts p1
            else
              (case locate pe bucket key p1 of (i, p2) \<Rightarrow>
                 (case onSet i (readMeta (senvOf pe) bucket key) p2 of (_, p3) \<Rightarrow>
                    (case onSet i (deleteObject bucket key) p3 of
                       (Some e, p4) \<Rightarrow> (Inl (mapErr e), p4)
                     | (None, p4) \<Rightarrow> (Inr (noInfo\<lparr>iBucket := bucket, iName := key\<rparr>), p4)))))"

text \<open>
  \<open>DeleteObjects\<close> runs one \<open>DeleteObject\<close> per name, at most sixteen at a time; each holds the lock of its key, and the
  model takes them in the order of the list. The version that an entry names is not passed on.
\<close>

record objectToDelete =
  otdObjectName :: string
  otdVersionID :: string

record deletedObject =
  dobjName :: string
  dobjVersionID :: string

fun DeleteObjects ::
  "penv \<Rightarrow> (nat \<Rightarrow> draws) \<Rightarrow> string \<Rightarrow> objectToDelete list \<Rightarrow> objectOptions \<Rightarrow> pool \<Rightarrow> (objErr + deletedObject) list \<times> pool" where
  "DeleteObjects pe dr bucket [] opts p = ([], p\<lparr>lcache := AList.delete bucket (lcache p)\<rparr>)"
| "DeleteObjects pe dr bucket (ob # objs) opts p =
     (case DeleteObject pe (dr 0) bucket (otdObjectName ob) opts p of (r, p1) \<Rightarrow>
        (case DeleteObjects pe (\<lambda>i. dr (Suc i)) bucket objs opts p1 of (rs, p2) \<Rightarrow>
           ((case r of Inl e \<Rightarrow> Inl e | Inr _ \<Rightarrow> Inr \<lparr>dobjName = otdObjectName ob, dobjVersionID = []\<rparr>) # rs, p2)))"

text \<open>
  The source of a copy is read while the destination is written; the model reads it first. The
  destination's draws are those of the put.
\<close>

definition CopyObject ::
  "penv \<Rightarrow> draws \<Rightarrow> string \<Rightarrow> string \<Rightarrow> string \<Rightarrow> string \<Rightarrow> objectOptions \<Rightarrow> objectOptions \<Rightarrow> pool \<Rightarrow> (objErr + objectInfo) \<times> pool" where
  "CopyObject pe dr srcBucket srcObject dstBucket dstObject srcOpts dstOpts p =
     invalidateList dstBucket
       (case GetObjectNInfo pe (dNow dr) srcBucket srcObject None (noOptions\<lparr>oVersionID := oVersionID srcOpts\<rparr>) p of
          (Inl e, p1) \<Rightarrow> (Inl e, p1)
        | (Inr (oi, body, err), p1) \<Rightarrow>
            (let ud = (if getKey (oUserDefined dstOpts) ''_directive'' = ''REPLACE'' then oUserDefined dstOpts else iUserDefined oi)
             in PutObject pe dr dstBucket dstObject \<lparr>rdata = body, rfails = (err \<noteq> None)\<rparr> (iSize oi)
                  (noOptions\<lparr>oUserDefined := ud, oUserTags := oUserTags dstOpts, oVersioned := oVersioned dstOpts,
                     oVersionSuspended := oVersionSuspended dstOpts\<rparr>) p1))"

subsection \<open>Tags (tags.go)\<close>

definition putTagsOn :: "senv \<Rightarrow> time \<Rightarrow> string \<Rightarrow> string \<Rightarrow> string \<Rightarrow> eset \<Rightarrow> (objErr + objectInfo) \<times> eset" where
  "putTagsOn env now bucket key tags s =
     (case readMeta env bucket key s of
        (Inl e, s1) \<Rightarrow> (Inl (mapErr e), s1)
      | (Inr m, s1) \<Rightarrow>
          (let m1 = m\<lparr>UserTags := tags, ModTime := now\<rparr> in
           case forEachDisk (WriteAll bucket (pjoin key metaFile) (marshal m1)) s1 of (errs, s2) \<Rightarrow>
             (if okCount errs < writeQuorum s then (Inl OWriteQuorum, s2) else (Inr (metaToInfo bucket key m1), s2))))"

definition PutObjectTags :: "penv \<Rightarrow> time \<Rightarrow> string \<Rightarrow> string \<Rightarrow> string \<Rightarrow> pool \<Rightarrow> (objErr + objectInfo) \<times> pool" where
  "PutObjectTags pe now bucket key tags p =
     (case ensureBucket now bucket p of
        (Some e, p1) \<Rightarrow> (Inl e, p1)
      | (None, p1) \<Rightarrow> (case locate pe bucket key p1 of (i, p2) \<Rightarrow> onSet i (putTagsOn (senvOf pe) now bucket key tags) p2))"

definition GetObjectTags :: "penv \<Rightarrow> string \<Rightarrow> string \<Rightarrow> pool \<Rightarrow> (objErr + string) \<times> pool" where
  "GetObjectTags pe bucket key p =
     (case locate pe bucket key p of (i, p1) \<Rightarrow>
        (case onSet i (readMeta (senvOf pe) bucket key) p1 of
           (Inl e, p2) \<Rightarrow> (Inl (mapErr e), p2) | (Inr m, p2) \<Rightarrow> (Inr (UserTags m), p2)))"

definition DeleteObjectTags :: "penv \<Rightarrow> time \<Rightarrow> string \<Rightarrow> string \<Rightarrow> pool \<Rightarrow> objErr option \<times> pool" where
  "DeleteObjectTags pe now bucket key p =
     (case PutObjectTags pe now bucket key [] p of (Inl e, p1) \<Rightarrow> (Some e, p1) | (Inr _, p1) \<Rightarrow> (None, p1))"

subsection \<open>Transition to a remote tier (tiering.go)\<close>

definition tierObjectKey :: "string \<Rightarrow> string \<Rightarrow> string" where "tierObjectKey bucket key = bucket @ ''/'' @ key"

definition tierStub :: "string \<Rightarrow> string \<Rightarrow> nat \<Rightarrow> xlMeta \<Rightarrow> xlMeta" where
  "tierStub tierName rk logical m =
     m\<lparr>Tier := tierName, TierKey := rk, DataRef := [], Compressed := [], Inline := None, MSize := logical,
       PlainSize := 0, Erasure := (Erasure m)\<lparr>Distribution := []\<rparr>, Revision := Revision m + 1\<rparr>"

fun deleteParts :: "string \<Rightarrow> string \<Rightarrow> partMeta list \<Rightarrow> disk \<Rightarrow> (diskErr + unit) \<times> disk" where
  "deleteParts bucket key [] d = (Inr (), d)"
| "deleteParts bucket key (pm # pms) d = deleteParts bucket key pms (snd (Delete bucket (pjoin key (partFile (Number pm))) False d))"

definition writeStub :: "string \<Rightarrow> string \<Rightarrow> string \<Rightarrow> xlMeta \<Rightarrow> nat \<Rightarrow> eset \<Rightarrow> objErr option \<times> eset" where
  "writeStub bucket key tierName m logical s =
     (case forEachDisk (deleteParts bucket key (Parts m)) s of (_, s1) \<Rightarrow>
        (case forEachDisk (WriteAll bucket (pjoin key metaFile)
                (marshal (tierStub tierName (tierObjectKey bucket key) logical m))) s1 of (errs, s2) \<Rightarrow>
           ((if okCount errs < writeQuorum s then Some OWriteQuorum else None), s2)))"

definition TransitionObject :: "penv \<Rightarrow> time \<Rightarrow> string \<Rightarrow> string \<Rightarrow> string \<Rightarrow> pool \<Rightarrow> objErr option \<times> pool" where
  "TransitionObject pe now bucket key tierName p =
     (if tierClient pe tierName = None then (Some OUnknownTier, p)
      else case locate pe bucket key p of (i, p1) \<Rightarrow>
        (case onSet i (readMeta (senvOf pe) bucket key) p1 of
           (Inl e, p2) \<Rightarrow> (Some (mapErr e), p2)
         | (Inr m, p2) \<Rightarrow>
             if Tier m \<noteq> [] \<or> SSE m \<noteq> [] \<or> DataRef m \<noteq> [] then (None, p2)
             else
               (let logical = (if Compressed m \<noteq> [] then PlainSize m else MSize m) in
                case GetObjectNInfo pe now bucket key None noOptions p2 of (r, p3) \<Rightarrow>
                  (let src = (case r of Inl e \<Rightarrow> \<lparr>rdata = [], rfails = True\<rparr>
                              | Inr (_, body, err) \<Rightarrow> \<lparr>rdata = body, rfails = (err \<noteq> None)\<rparr>)
                   in if \<not> tierPut pe tierName (tierObjectKey bucket key) src (int logical) (ContentType m)
                      then (Some OTierPut, p3)
                      else onSet i (writeStub bucket key tierName m logical) p3))))"

subsection \<open>Health\<close>

definition Health :: "pool \<Rightarrow> bool" where
  "Health p \<longleftrightarrow> list_all (\<lambda>s. length (filter (\<lambda>d. fst (IsOnline d)) (disks s)) \<ge> writeQuorum s) (psets p)"

end
