(* ===== verification/Base64.thy ===== *)
theory Base64
  imports Prelude
begin

text \<open>
  Package \<open>encoding/base64\<close> with the standard alphabet and padding, as the continuation tokens of the
  listing use it. Three bytes make four digits of six bits; the last group is padded. The decoder skips carriage
  returns and line feeds, accepts only whole groups and padding only at the end, and does not look at the unused
  bits of the last digit.
\<close>

definition b64Alphabet :: string where
  "b64Alphabet = ''ABCDEFGHIJKLMNOPQRSTUVWXYZabcdefghijklmnopqrstuvwxyz0123456789+/''"

definition b64Digit :: "nat \<Rightarrow> char" where "b64Digit n = b64Alphabet ! n"

fun b64EncodeNats :: "nat list \<Rightarrow> string" where
  "b64EncodeNats [] = []"
| "b64EncodeNats [a] = [b64Digit (a div 4), b64Digit ((a mod 4) * 16), CHR ''='', CHR ''='']"
| "b64EncodeNats [a, b] =
     [b64Digit (a div 4), b64Digit ((a mod 4) * 16 + b div 16), b64Digit ((b mod 16) * 4), CHR ''='']"
| "b64EncodeNats (a # b # c # r) =
     [b64Digit (a div 4), b64Digit ((a mod 4) * 16 + b div 16), b64Digit ((b mod 16) * 4 + c div 64), b64Digit (c mod 64)]
       @ b64EncodeNats r"

definition EncodeToString :: "bytes \<Rightarrow> string" where
  "EncodeToString bs = b64EncodeNats (map of_char bs)"

abbreviation b64Val :: "char \<Rightarrow> nat option" where "b64Val c \<equiv> indexByte b64Alphabet c"

definition b64Tail :: "char \<Rightarrow> char \<Rightarrow> char \<Rightarrow> char \<Rightarrow> nat list option" where
  "b64Tail c1 c2 c3 c4 =
     (case (b64Val c1, b64Val c2) of
        (Some x, Some y) \<Rightarrow>
          if c3 = CHR ''='' then (if c4 = CHR ''='' then Some [x * 4 + y div 16] else None)
          else (case b64Val c3 of
                  None \<Rightarrow> None
                | Some z \<Rightarrow> if c4 = CHR ''='' then Some [x * 4 + y div 16, (y mod 16) * 16 + z div 4] else None)
      | _ \<Rightarrow> None)"

definition b64Group :: "char \<Rightarrow> char \<Rightarrow> char \<Rightarrow> char \<Rightarrow> nat list option" where
  "b64Group c1 c2 c3 c4 =
     (case b64Val c1 of None \<Rightarrow> None | Some x \<Rightarrow>
       (case b64Val c2 of None \<Rightarrow> None | Some y \<Rightarrow>
         (case b64Val c3 of None \<Rightarrow> None | Some z \<Rightarrow>
           map_option (\<lambda>w. [x * 4 + y div 16, (y mod 16) * 16 + z div 4, (z mod 4) * 64 + w]) (b64Val c4))))"

fun b64DecodeNats :: "string \<Rightarrow> nat list option" where
  "b64DecodeNats [] = Some []"
| "b64DecodeNats [c1] = None"
| "b64DecodeNats [c1, c2] = None"
| "b64DecodeNats [c1, c2, c3] = None"
| "b64DecodeNats (c1 # c2 # c3 # c4 # r) =
     (case b64Group c1 c2 c3 c4 of
        Some ns \<Rightarrow> map_option (\<lambda>ms. ns @ ms) (b64DecodeNats r)
      | None \<Rightarrow> if r = [] then b64Tail c1 c2 c3 c4 else None)"

definition DecodeString :: "string \<Rightarrow> bytes option" where
  "DecodeString s = map_option (map char_of) (b64DecodeNats (filter (\<lambda>c. c \<noteq> CHR 0x0A \<and> c \<noteq> CHR 0x0D) s))"

lemma indexByte_nth: "distinct xs \<Longrightarrow> n < length xs \<Longrightarrow> indexByte xs (xs ! n) = Some n"
  by (induction xs arbitrary: n) (auto simp: nth_Cons split: nat.split)

lemma b64_alphabet:
  "distinct b64Alphabet" "length b64Alphabet = 64" "CHR 0x0A \<notin> set b64Alphabet" "CHR 0x0D \<notin> set b64Alphabet"
  "CHR ''='' \<notin> set b64Alphabet"
proof -
  let ?p = "''+/''" and ?d = "''0123456789''" and ?u = "''ABCDEFGHIJKLMNOPQRSTUVWXYZ''" and ?l = "''abcdefghijklmnopqrstuvwxyz''"
  have "sorted_wrt (<) (map of_char (?p @ ?d @ ?u @ ?l) :: nat list)" by (simp add: sorted_wrt2 transp_on_less del: sorted_wrt.simps) simp
  then have "distinct (map of_char (?p @ ?d @ ?u @ ?l) :: nat list)" by (simp only: strict_sorted_iff)
  then have "distinct (?p @ ?d @ ?u @ ?l)" by (simp only: distinct_map)
  then have "distinct (?u @ ?l @ ?d @ ?p)" by (simp only: distinct_append set_append) blast
  then show "distinct b64Alphabet" by (simp add: b64Alphabet_def)
qed (simp_all add: b64Alphabet_def)

lemma b64_digits:
  assumes "n < 64"
  shows "b64Val (b64Digit n) = Some n" "b64Digit n \<noteq> CHR 0x0A" "b64Digit n \<noteq> CHR 0x0D" "b64Digit n \<noteq> CHR ''=''"
proof -
  have "b64Digit n \<in> set b64Alphabet" using assms b64_alphabet(2) by (simp add: b64Digit_def)
  then show "b64Digit n \<noteq> CHR 0x0A" "b64Digit n \<noteq> CHR 0x0D" "b64Digit n \<noteq> CHR ''=''" using b64_alphabet(3-5) by metis+
  show "b64Val (b64Digit n) = Some n"
    using assms indexByte_nth [OF b64_alphabet(1)] b64_alphabet(2) by (simp add: b64Digit_def)
qed

lemma b64Val_pad [simp]: "b64Val (CHR ''='') = None"
  using b64_alphabet(5) by (simp add: indexByte_None)

text \<open>The digits of a group are six-bit numbers, and the bytes can be put together again.\<close>

lemma b64_split2:
  assumes "b < 256"
  shows "((a mod 4) * 16 + b div 16) div 16 = a mod 4" "((a mod 4) * 16 + b div 16) mod 16 = b div 16"
    "(a mod 4) * 16 + b div 16 < (64::nat)"
proof -
  have "b div 16 < 16" using assms by (simp add: less_mult_imp_div_less)
  then show "((a mod 4) * 16 + b div 16) div 16 = a mod 4" "((a mod 4) * 16 + b div 16) mod 16 = b div 16" by simp_all
  have "a mod 4 \<le> 3" using mod_less_divisor [of 4 a] by linarith
  then show "(a mod 4) * 16 + b div 16 < (64::nat)" using \<open>b div 16 < 16\<close> by linarith
qed

lemma b64_split3:
  assumes "c < 256"
  shows "((b mod 16) * 4 + c div 64) div 4 = b mod 16" "((b mod 16) * 4 + c div 64) mod 4 = c div 64"
    "(b mod 16) * 4 + c div 64 < (64::nat)"
proof -
  have "c div 64 < 4" using assms by (simp add: less_mult_imp_div_less)
  then show "((b mod 16) * 4 + c div 64) div 4 = b mod 16" "((b mod 16) * 4 + c div 64) mod 4 = c div 64" by simp_all
  have "b mod 16 \<le> 15" using mod_less_divisor [of 16 b] by linarith
  then show "(b mod 16) * 4 + c div 64 < (64::nat)" using \<open>c div 64 < 4\<close> by linarith
qed

lemma b64_first: "a < 256 \<Longrightarrow> a div 4 < (64::nat)"
  by (simp add: less_mult_imp_div_less)

lemma b64_last: "c mod 64 < (64::nat)" "(a mod 4) * 16 < (64::nat)" "(b mod 16) * 4 < (64::nat)"
  using mod_less_divisor [of 4 a] mod_less_divisor [of 16 b] by (simp_all del: mod_less_divisor)

lemma b64_decode_encode: "\<forall>n \<in> set ns. n < 256 \<Longrightarrow> b64DecodeNats (b64EncodeNats ns) = Some ns"
proof (induction ns rule: b64EncodeNats.induct)
  case (3 a b)
  then have "a < 256" "b < 256" "b div 16 < 16" by (simp_all add: less_mult_imp_div_less)
  then show ?case by (simp add: b64Tail_def b64Group_def b64_split2 b64_first b64_last b64_digits)
next
  case (4 a b c r)
  then have "a < 256" "b < 256" "c < 256" "b64DecodeNats (b64EncodeNats r) = Some r" by simp_all
  then show ?case by (simp add: b64Group_def b64_split2 b64_split3 b64_first b64_last b64_digits)
qed (simp_all add: b64Tail_def b64Group_def b64_split2 b64_first b64_last b64_digits)

lemma b64_no_newline:
  "\<forall>n \<in> set ns. n < 256 \<Longrightarrow> filter (\<lambda>c. c \<noteq> CHR 0x0A \<and> c \<noteq> CHR 0x0D) (b64EncodeNats ns) = b64EncodeNats ns"
  by (induction ns rule: b64EncodeNats.induct) (simp_all add: b64_split2 b64_split3 b64_first b64_last b64_digits)

lemma Decode_Encode [simp]: "DecodeString (EncodeToString bs) = Some bs"
proof -
  have b: "\<forall>n \<in> set (map of_char bs). n < (256::nat)" by auto
  have "filter (\<lambda>c. c \<noteq> CHR 0x0A \<and> c \<noteq> CHR 0x0D) (EncodeToString bs) = EncodeToString bs"
    using b64_no_newline [OF b] by (simp add: EncodeToString_def)
  then show ?thesis using b64_decode_encode [OF b] by (simp add: DecodeString_def EncodeToString_def comp_def)
qed

lemma EncodeToString_Nil [simp]: "EncodeToString s = [] \<longleftrightarrow> s = []"
  by (cases "map of_char s :: nat list" rule: b64EncodeNats.cases) (auto simp: EncodeToString_def)

end
