(* ===== verification/Listing.thy ===== *)
theory Listing
  imports PoolOps Base64
begin

text \<open>
  Listing (\<open>internal/erasure/list.go\<close>, \<open>listcache.go\<close> and the version listing of
  \<open>versioning.go\<close>). The namespace of a bucket is the union over the online disks of a walk of the bucket's
  directories: a directory that holds an \<open>xl.meta\<close> file is an object and is not entered. A listing filters the
  sorted keys by prefix and start, groups them by delimiter and stops after \<open>maxKeys\<close> entries; a bucket that has a
  version log takes the version listing instead. A directory prefix \<open>a/b/\<close> of the walk is the list of its segments.
\<close>

subsection \<open>The walk\<close>

text \<open>
  The flag is false when a directory could not be listed, which ends the walk of that disk. The recursion goes one
  directory down at a time; the fuel is one more than the longest path of the disk, so it is not what ends it.
\<close>

type_synonym walker = "path \<Rightarrow> string list \<Rightarrow> disk \<Rightarrow> bool \<times> string list \<times> disk"

fun walkEnts :: "(path \<Rightarrow> string \<Rightarrow> bool) \<Rightarrow> walker \<Rightarrow> path \<Rightarrow> string list \<Rightarrow> string list \<Rightarrow> disk \<Rightarrow> bool \<times> string list \<times> disk" where
  "walkEnts skip rec pre [] found d = (True, found, d)"
| "walkEnts skip rec pre (e # es) found d =
     (if skip pre e then walkEnts skip rec pre es found d
      else case rec (pre @ [trimSuffix e ''/'']) found d of (ok, f1, d1) \<Rightarrow>
        if ok then walkEnts skip rec pre es f1 d1 else (False, f1, d1))"

definition notEntered :: "path \<Rightarrow> string \<Rightarrow> bool" where
  "notEntered pre e \<longleftrightarrow> \<not> hasSuffix e ''/'' \<or> (pre = [] \<and> e = sysDir @ ''/'')"

primrec walkRec :: "nat \<Rightarrow> nat \<Rightarrow> string \<Rightarrow> walker" where
  "walkRec 0 mx bucket pre found d = (False, found, d)"
| "walkRec (Suc n) mx bucket pre found d =
     (if length found \<ge> mx then (True, found, d)
      else case ListDir bucket (unsegs pre) d of (r, d1) \<Rightarrow>
        (case r of
           Inl e \<Rightarrow> (False, found, d1)
         | Inr ents \<Rightarrow>
             if metaFile \<in> set ents then (True, if pre \<noteq> [] then List.insert (unsegs pre) found else found, d1)
             else walkEnts notEntered (walkRec n mx bucket) pre ents found d1))"

definition depthOf :: "fs \<Rightarrow> nat" where
  "depthOf f = fold max (map (\<lambda>(q, _). length q) f) 0"

definition walkDisk :: "nat \<Rightarrow> string \<Rightarrow> string list \<Rightarrow> disk \<Rightarrow> bool \<times> string list \<times> disk" where
  "walkDisk mx bucket found d =
     (case IsOnline d of (on, d1) \<Rightarrow>
        if \<not> on then (False, found, d1)
        else case walkRec (depthOf (dfs d) + 1) mx bucket [] found d1 of (_, f1, d2) \<Rightarrow> (True, f1, d2))"

fun walkDisks :: "nat \<Rightarrow> string \<Rightarrow> string list \<Rightarrow> disk list \<Rightarrow> nat \<times> string list \<times> disk list" where
  "walkDisks mx bucket found [] = (0, found, [])"
| "walkDisks mx bucket found (d # ds) =
     (case walkDisk mx bucket found d of (on, f1, d1) \<Rightarrow>
        (case walkDisks mx bucket f1 ds of (n, f2, ds2) \<Rightarrow> (if on then n + 1 else n, f2, d1 # ds2)))"

definition walkKeys :: "penv \<Rightarrow> string \<Rightarrow> eset \<Rightarrow> (setErr + string list) \<times> eset" where
  "walkKeys pe bucket s =
     (case walkDisks (walkKeysMax pe) bucket [] (disks s) of (online, found, ds) \<Rightarrow>
        ((if online = 0 then Inl EReadQuorum else Inr (sort found)), s\<lparr>disks := ds\<rparr>))"

subsection \<open>The cached namespace (listcache.go)\<close>

definition cacheGet :: "penv \<Rightarrow> time \<Rightarrow> string \<Rightarrow> pool \<Rightarrow> listCacheEntry option" where
  "cacheGet pe now bucket p =
     (case map_of (lcache p) bucket of
        None \<Rightarrow> None
      | Some e \<Rightarrow> if now - lcCreated e > listCacheTTL pe then None else Some e)"

fun walkSets :: "penv \<Rightarrow> string \<Rightarrow> nat list \<Rightarrow> nat gomap \<Rightarrow> pool \<Rightarrow> (objErr + nat gomap) \<times> pool" where
  "walkSets pe bucket [] owner p = (Inr owner, p)"
| "walkSets pe bucket (i # is) owner p =
     (case onSet i (walkKeys pe bucket) p of
        (Inl e, p1) \<Rightarrow> (Inl (OSet e), p1)
      | (Inr ks, p1) \<Rightarrow> walkSets pe bucket is (fold (\<lambda>k. AList.update k i) ks owner) p1)"

definition namespaceKeys :: "penv \<Rightarrow> time \<Rightarrow> string \<Rightarrow> pool \<Rightarrow> (objErr + (string list \<times> nat gomap)) \<times> pool" where
  "namespaceKeys pe now bucket p =
     (case (if listCacheTTL pe > 0 then cacheGet pe now bucket p else None) of
        Some e \<Rightarrow> (Inr (lcKeys e, lcOwner e), p)
      | None \<Rightarrow>
          (case walkSets pe bucket [0..<length (psets p)] [] p of
             (Inl e, p1) \<Rightarrow> (Inl e, p1)
           | (Inr owner, p1) \<Rightarrow>
               (let keys = sort (map fst owner) in
                (Inr (keys, owner),
                 if listCacheTTL pe > 0
                 then p1\<lparr>lcache := AList.update bucket \<lparr>lcKeys = keys, lcOwner = owner, lcCreated = now\<rparr> (lcache p1)\<rparr>
                 else p1))))"

subsection \<open>The version listing (versioning.go)\<close>

primrec vwalkRec :: "nat \<Rightarrow> string \<Rightarrow> walker" where
  "vwalkRec 0 bucket pre keys d = (False, keys, d)"
| "vwalkRec (Suc n) bucket pre keys d =
     (case ListDir bucket (unsegs ([sysDir, ''vlog''] @ pre)) d of (r, d1) \<Rightarrow>
        (case r of
           Inl e \<Rightarrow> (False, keys, d1)
         | Inr ents \<Rightarrow>
             if ''vlog.json'' \<in> set ents then (True, keys @ [unsegs pre], d1)
             else walkEnts (\<lambda>_ e. \<not> hasSuffix e ''/'') (vwalkRec n bucket) pre ents keys d1))"

fun firstOnline :: "disk list \<Rightarrow> nat option \<times> disk list" where
  "firstOnline [] = (None, [])"
| "firstOnline (d # ds) =
     (case IsOnline d of (on, d1) \<Rightarrow>
        if on then (Some 0, d1 # ds)
        else (case firstOnline ds of (r, ds1) \<Rightarrow> (map_option Suc r, d1 # ds1)))"

definition walkVlogKeys :: "string \<Rightarrow> eset \<Rightarrow> (setErr + string list) \<times> eset" where
  "walkVlogKeys bucket s =
     (case firstOnline (disks s) of
        (None, ds) \<Rightarrow> (Inl EReadQuorum, s\<lparr>disks := ds\<rparr>)
      | (Some i, ds) \<Rightarrow>
          (case vwalkRec (depthOf (dfs (ds ! i)) + 1) bucket [] [] (ds ! i) of (_, keys, d1) \<Rightarrow>
             (Inr (sort keys), s\<lparr>disks := ds[i := d1]\<rparr>)))"

fun bucketHasVersionsIn :: "string \<Rightarrow> nat list \<Rightarrow> pool \<Rightarrow> bool \<times> pool" where
  "bucketHasVersionsIn bucket [] p = (False, p)"
| "bucketHasVersionsIn bucket (i # is) p =
     (case onSet i (walkVlogKeys bucket) p of (r, p1) \<Rightarrow>
        (case r of Inr (k # ks) \<Rightarrow> (True, p1) | _ \<Rightarrow> bucketHasVersionsIn bucket is p1))"

definition bucketHasVersions :: "string \<Rightarrow> pool \<Rightarrow> bool \<times> pool" where
  "bucketHasVersions bucket p = bucketHasVersionsIn bucket [0..<length (psets p)] p"

fun allKeys :: "penv \<Rightarrow> string \<Rightarrow> nat list \<Rightarrow> string list \<Rightarrow> pool \<Rightarrow> string list \<times> pool" where
  "allKeys pe bucket [] keys p = (keys, p)"
| "allKeys pe bucket (i # is) keys p =
     (case onSet i (walkKeys pe bucket) p of (live, p1) \<Rightarrow>
        (case onSet i (walkVlogKeys bucket) p1 of (vk, p2) \<Rightarrow>
           (let ks = (case live of Inr l \<Rightarrow> l | Inl _ \<Rightarrow> []) @ (case vk of Inr l \<Rightarrow> l | Inl _ \<Rightarrow> [])
            in allKeys pe bucket is (fold (\<lambda>k acc. if k \<in> set acc then acc else acc @ [k]) ks keys) p2)))"

definition commonPrefix :: "string \<Rightarrow> string \<Rightarrow> string \<Rightarrow> string option" where
  "commonPrefix pre delimiter k =
     (if delimiter = [] then None
      else (let rest = drop (length pre) k in
            case indexOf rest delimiter of
              None \<Rightarrow> None | Some idx \<Rightarrow> Some (pre @ take (idx + length delimiter) rest)))"

record versionsInfo =
  lvObjects :: "objectInfo list"
  lvPrefixes :: "string list"
  lvIsTruncated :: bool
  lvNextMarker :: string

text \<open>The versions of one key, newest first, until the page is full.\<close>

definition versionInfo :: "senv \<Rightarrow> string \<Rightarrow> string \<Rightarrow> vlogEntry list \<Rightarrow> nat \<Rightarrow> eset \<Rightarrow> objectInfo \<times> eset" where
  "versionInfo env bucket k vlog i s =
     (let e = vlog ! i; latest = (i = length vlog - 1);
          oi = noInfo\<lparr>iBucket := bucket, iName := k, iVersionID := VlogID e, iModTime := VModTime e, iIsLatest := latest,
                 iDeleteMarker := DeleteMarker e, iStorageClass := ''STANDARD''\<rparr>
      in if DeleteMarker e then (oi, s)
         else case readMeta env bucket (if latest then k else vsDir k (VlogID e)) s of
           (Inl err, s1) \<Rightarrow> (oi, s1)
         | (Inr m, s1) \<Rightarrow> (oi\<lparr>iSize := int (if SSE m \<noteq> [] then PlainSize m else MSize m), iETag := ETag m\<rparr>, s1))"

fun versionsOf :: "senv \<Rightarrow> string \<Rightarrow> string \<Rightarrow> vlogEntry list \<Rightarrow> nat \<Rightarrow> nat \<Rightarrow> nat \<Rightarrow> eset \<Rightarrow> (objectInfo list \<times> bool) \<times> eset" where
  "versionsOf env bucket k vlog 0 cnt maxKeys s = (([], False), s)"
| "versionsOf env bucket k vlog (Suc i) cnt maxKeys s =
     (case versionInfo env bucket k vlog i s of (oi, s1) \<Rightarrow>
        if cnt + 1 \<ge> maxKeys then (([oi], True), s1)
        else (case versionsOf env bucket k vlog i (cnt + 1) maxKeys s1 of ((ois, t), s2) \<Rightarrow> ((oi # ois, t), s2)))"

text \<open>What one key contributes to the listing, and whether the page is full after it.\<close>

definition listKey ::
  "penv \<Rightarrow> string \<Rightarrow> string \<Rightarrow> nat \<Rightarrow> nat \<Rightarrow> bool \<Rightarrow> pool \<Rightarrow> (objectInfo list \<times> bool) \<times> pool" where
  "listKey pe bucket k cnt maxKeys currentOnly p =
     (case locate pe bucket k p of (i, p1) \<Rightarrow>
        (case onSet i (readVlog bucket k) p1 of (vlog, p2) \<Rightarrow>
           if vlog = [] then
             (case onSet i (readMeta (senvOf pe) bucket k) p2 of
                (Inr m, p3) \<Rightarrow> (([(metaToInfo bucket k m)\<lparr>iVersionID := nullVersionID, iIsLatest := True\<rparr>], False), p3)
              | (Inl e, p3) \<Rightarrow> (([], False), p3))
           else if currentOnly then
             (if DeleteMarker (last vlog) then (([], False), p2)
              else case onSet i (readMeta (senvOf pe) bucket k) p2 of
                (Inr m, p3) \<Rightarrow> (([metaToInfo bucket k m], cnt + 1 \<ge> maxKeys), p3)
              | (Inl e, p3) \<Rightarrow> (([], False), p3))
           else onSet i (versionsOf (senvOf pe) bucket k vlog (length vlog) cnt maxKeys) p2))"

fun versionLoop ::
  "penv \<Rightarrow> string \<Rightarrow> string \<Rightarrow> string \<Rightarrow> nat \<Rightarrow> bool \<Rightarrow> string list \<Rightarrow> versionsInfo \<Rightarrow> pool \<Rightarrow> versionsInfo \<times> pool" where
  "versionLoop pe bucket pre delimiter maxKeys currentOnly [] out p = (out, p)"
| "versionLoop pe bucket pre delimiter maxKeys currentOnly (k # ks) out p =
     (if pre \<noteq> [] \<and> \<not> hasPrefix k pre then versionLoop pe bucket pre delimiter maxKeys currentOnly ks out p
      else case commonPrefix pre delimiter k of
        Some cp \<Rightarrow>
          versionLoop pe bucket pre delimiter maxKeys currentOnly ks
            (if cp \<in> set (lvPrefixes out) then out else out\<lparr>lvPrefixes := lvPrefixes out @ [cp]\<rparr>) p
      | None \<Rightarrow>
          (case listKey pe bucket k (length (lvObjects out)) maxKeys currentOnly p of ((ois, full), p1) \<Rightarrow>
             (let out1 = out\<lparr>lvObjects := lvObjects out @ ois, lvIsTruncated := full\<rparr> in
              if full then (out1, p1)
              else versionLoop pe bucket pre delimiter maxKeys currentOnly ks out1 p1)))"

definition clampKeys :: "int \<Rightarrow> nat" where
  "clampKeys maxKeys = (if maxKeys \<le> 0 \<or> maxKeys > 1000 then 1000 else nat maxKeys)"

definition listVersions ::
  "penv \<Rightarrow> time \<Rightarrow> string \<Rightarrow> string \<Rightarrow> string \<Rightarrow> int \<Rightarrow> bool \<Rightarrow> pool \<Rightarrow> (objErr + versionsInfo) \<times> pool" where
  "listVersions pe now bucket pre delimiter maxKeys currentOnly p =
     (case ensureBucket now bucket p of
        (Some e, p1) \<Rightarrow> (Inl e, p1)
      | (None, p1) \<Rightarrow>
          (case allKeys pe bucket [0..<length (psets p1)] [] p1 of (keys, p2) \<Rightarrow>
             (case versionLoop pe bucket pre delimiter (clampKeys maxKeys) currentOnly (sort keys)
                     \<lparr>lvObjects = [], lvPrefixes = [], lvIsTruncated = False, lvNextMarker = []\<rparr> p2 of (out, p3) \<Rightarrow>
                (Inr (out\<lparr>lvPrefixes := sort (lvPrefixes out)\<rparr>), p3))))"

subsection \<open>Pages (list.go)\<close>

record listParams =
  lpPrefix :: string
  lpDelimiter :: string
  lpStartAfter :: string
  lpMaxKeys :: int

record listPage =
  pgObjects :: "objectInfo list"
  pgPrefixes :: "string list"
  pgIsTruncated :: bool
  pgNextMarker :: string

text \<open>The loop over the sorted keys: the keys to stat, the common prefixes, the marker.\<close>

record pageState =
  psWant :: "string list"
  psPrefixes :: "string list"
  psTruncated :: bool
  psMarker :: string

definition psCount :: "pageState \<Rightarrow> nat" where
  "psCount st = length (psWant st) + length (psPrefixes st)"

definition pageSkips :: "listParams \<Rightarrow> string \<Rightarrow> bool" where
  "pageSkips lp k \<longleftrightarrow> (lpPrefix lp \<noteq> [] \<and> \<not> hasPrefix k (lpPrefix lp)) \<or> (lpStartAfter lp \<noteq> [] \<and> k \<le> lpStartAfter lp)"

fun pageLoop :: "listParams \<Rightarrow> nat \<Rightarrow> string list \<Rightarrow> pageState \<Rightarrow> pageState" where
  "pageLoop lp mx [] st = st"
| "pageLoop lp mx (k # ks) st =
     (if pageSkips lp k then pageLoop lp mx ks st
      else case commonPrefix (lpPrefix lp) (lpDelimiter lp) k of
        Some cp \<Rightarrow>
          if cp \<in> set (psPrefixes st) then pageLoop lp mx ks st
          else if psCount st \<ge> mx then st\<lparr>psTruncated := True\<rparr>
          else pageLoop lp mx ks (st\<lparr>psPrefixes := psPrefixes st @ [cp], psMarker := cp\<rparr>)
      | None \<Rightarrow>
          if psCount st \<ge> mx then st\<lparr>psTruncated := True\<rparr>
          else pageLoop lp mx ks (st\<lparr>psWant := psWant st @ [k], psMarker := k\<rparr>))"

definition noPage :: pageState where
  "noPage = \<lparr>psWant = [], psPrefixes = [], psTruncated = False, psMarker = []\<rparr>"

text \<open>The page's objects are read in parallel, one metadata read per key; one that fails is left out.\<close>

fun statKeys :: "senv \<Rightarrow> string \<Rightarrow> nat gomap \<Rightarrow> string list \<Rightarrow> pool \<Rightarrow> objectInfo list \<times> pool" where
  "statKeys env bucket owner [] p = ([], p)"
| "statKeys env bucket owner (k # ks) p =
     (case onSet (the (map_of owner k)) (statObject env bucket k) p of (r, p1) \<Rightarrow>
        (case statKeys env bucket owner ks p1 of (ois, p2) \<Rightarrow>
           ((case r of Inr m \<Rightarrow> metaToInfo bucket k m # ois | Inl e \<Rightarrow> ois), p2)))"

definition versionedPage :: "listParams \<Rightarrow> versionsInfo \<Rightarrow> listPage" where
  "versionedPage lp lv =
     (let objs = filter (\<lambda>ob. \<not> (lpStartAfter lp \<noteq> [] \<and> iName ob \<le> lpStartAfter lp)) (lvObjects lv)
      in \<lparr>pgObjects = objs, pgPrefixes = lvPrefixes lv, pgIsTruncated = lvIsTruncated lv,
          pgNextMarker = (if objs = [] then [] else iName (last objs))\<rparr>)"

definition plainPage :: "penv \<Rightarrow> time \<Rightarrow> string \<Rightarrow> listParams \<Rightarrow> pool \<Rightarrow> (objErr + listPage) \<times> pool" where
  "plainPage pe now bucket lp p =
     (case namespaceKeys pe now bucket p of
        (Inl e, p1) \<Rightarrow> (Inl e, p1)
      | (Inr (keys, owner), p1) \<Rightarrow>
          (let st = pageLoop lp (clampKeys (lpMaxKeys lp)) keys noPage in
           case statKeys (senvOf pe) bucket owner (psWant st) p1 of (objs, p2) \<Rightarrow>
             (Inr \<lparr>pgObjects = objs, pgPrefixes = sort (psPrefixes st), pgIsTruncated = psTruncated st,
                   pgNextMarker = psMarker st\<rparr>, p2)))"

definition doList :: "penv \<Rightarrow> time \<Rightarrow> string \<Rightarrow> listParams \<Rightarrow> pool \<Rightarrow> (objErr + listPage) \<times> pool" where
  "doList pe now bucket lp p =
     (case ensureBucket now bucket p of
        (Some e, p1) \<Rightarrow> (Inl e, p1)
      | (None, p1) \<Rightarrow>
          (case bucketHasVersions bucket p1 of
             (True, p2) \<Rightarrow>
               (case listVersions pe now bucket (lpPrefix lp) (lpDelimiter lp) (int (clampKeys (lpMaxKeys lp))) True p2 of
                  (Inl e, p3) \<Rightarrow> (Inl e, p3)
                | (Inr lv, p3) \<Rightarrow> (Inr (versionedPage lp lv), p3))
           | (False, p2) \<Rightarrow> plainPage pe now bucket lp p2))"

definition ListObjects ::
  "penv \<Rightarrow> time \<Rightarrow> string \<Rightarrow> string \<Rightarrow> string \<Rightarrow> string \<Rightarrow> int \<Rightarrow> pool \<Rightarrow> (objErr + listPage) \<times> pool" where
  "ListObjects pe now bucket pre marker delimiter maxKeys p =
     doList pe now bucket \<lparr>lpPrefix = pre, lpDelimiter = delimiter, lpStartAfter = marker, lpMaxKeys = maxKeys\<rparr> p"

record listV2Info =
  l2Objects :: "objectInfo list"
  l2Prefixes :: "string list"
  l2IsTruncated :: bool
  l2Token :: string
  l2NextToken :: string

definition startOf :: "string \<Rightarrow> string \<Rightarrow> string" where
  "startOf token startAfter =
     (if token = [] then startAfter else case DecodeString token of Some b \<Rightarrow> b | None \<Rightarrow> startAfter)"

definition pageV2 :: "string \<Rightarrow> listPage \<Rightarrow> listV2Info" where
  "pageV2 token pg =
     \<lparr>l2Objects = pgObjects pg, l2Prefixes = pgPrefixes pg, l2IsTruncated = pgIsTruncated pg, l2Token = token,
      l2NextToken = (if pgIsTruncated pg then EncodeToString (pgNextMarker pg) else [])\<rparr>"

definition ListObjectsV2 ::
  "penv \<Rightarrow> time \<Rightarrow> string \<Rightarrow> string \<Rightarrow> string \<Rightarrow> string \<Rightarrow> int \<Rightarrow> string \<Rightarrow> pool \<Rightarrow> (objErr + listV2Info) \<times> pool" where
  "ListObjectsV2 pe now bucket pre token delimiter maxKeys startAfter p =
     (case doList pe now bucket \<lparr>lpPrefix = pre, lpDelimiter = delimiter, lpStartAfter = startOf token startAfter,
             lpMaxKeys = maxKeys\<rparr> p of
        (Inl e, p1) \<Rightarrow> (Inl e, p1)
      | (Inr pg, p1) \<Rightarrow> (Inr (pageV2 token pg), p1))"

definition ListObjectVersions ::
  "penv \<Rightarrow> time \<Rightarrow> string \<Rightarrow> string \<Rightarrow> string \<Rightarrow> string \<Rightarrow> int \<Rightarrow> pool \<Rightarrow> (objErr + versionsInfo) \<times> pool" where
  "ListObjectVersions pe now bucket pre marker delimiter maxKeys p =
     (case bucketHasVersions bucket p of
        (True, p1) \<Rightarrow> listVersions pe now bucket pre delimiter maxKeys False p1
      | (False, p1) \<Rightarrow>
          (case ListObjects pe now bucket pre marker delimiter maxKeys p1 of
             (Inl e, p2) \<Rightarrow> (Inl e, p2)
           | (Inr li, p2) \<Rightarrow>
               (Inr \<lparr>lvObjects = map (\<lambda>ob. ob\<lparr>iVersionID := ''null'', iIsLatest := True\<rparr>) (pgObjects li),
                     lvPrefixes = pgPrefixes li, lvIsTruncated = pgIsTruncated li, lvNextMarker = pgNextMarker li\<rparr>, p2)))"

end
