(* ===== verification/Multipart.thy ===== *)
theory Multipart
  imports Listing
begin

text \<open>
  Multipart uploads (\<open>internal/erasure/multipart.go\<close>). An upload is a directory
  \<open>.gostore.sys/multipart/<id>\<close> outside every bucket, on the set of its key: \<open>upload.json\<close> describes it and every
  part is an object \<open>part.<number>\<close> below it. Completing an upload checks the client's list of parts against the directory,
  reads the parts and writes them as the parts of the object, then removes the directory. The parts are
  streamed into the write while they are read; the model reads them first.
\<close>

definition minPartSize :: int where "minPartSize = 5 * 1024 * 1024"

definition mpartPrefix :: string where "mpartPrefix = ''.gostore.sys/multipart''"

definition mpUploadDir :: "string \<Rightarrow> string" where "mpUploadDir uid = pjoin mpartPrefix uid"

definition mpUploadJSON :: "string \<Rightarrow> string" where "mpUploadJSON uid = pjoin (pjoin mpartPrefix uid) ''upload.json''"

definition mpPartKey :: "string \<Rightarrow> nat \<Rightarrow> string" where "mpPartKey uid n = pjoin (pjoin mpartPrefix uid) (partFile n)"

record multipartInfo =
  miBucket :: string
  miObject :: string
  miUploadID :: string
  miInitiated :: time
  miUserDefined :: "string gomap"

record partInfo =
  piPartNumber :: nat
  piLastModified :: time
  piETag :: string
  piSize :: int

record completePart =
  cpPartNumber :: int
  cpETag :: string

record listPartsInfo =
  lpiNextPartNumberMarker :: int
  lpiMaxParts :: nat
  lpiIsTruncated :: bool
  lpiParts :: "partInfo list"
  lpiUserDefined :: "string gomap"

record listMultipartsInfo =
  lmiMaxUploads :: nat
  lmiIsTruncated :: bool
  lmiUploads :: "multipartInfo list"

subsection \<open>Starting, finding and aborting\<close>

definition NewMultipartUpload :: "draws \<Rightarrow> string \<Rightarrow> string \<Rightarrow> objectOptions \<Rightarrow> pool \<Rightarrow> (objErr + string) \<times> pool" where
  "NewMultipartUpload dr bucket key opts p =
     (case ensureBucket (dNow dr) bucket p of
        (Some e, p1) \<Rightarrow> (Inl e, p1)
      | (None, p1) \<Rightarrow>
          if \<not> validObjectName key then (Inl OObjectNameInvalid, p1)
          else
            (let uid = dId1 dr; um = toUserMeta opts;
                 ui = \<lparr>UBucket = bucket, UObject = key, Initiated = dNow dr, UContentType = umContentType um,
                       UContentEnc = umContentEnc um, UUserMeta = umUser um, UUserTags = umTags um\<rparr>
             in onSet (setFor p1 key) (\<lambda>s.
                  case forEachDisk (WriteAll [] (mpUploadJSON uid) (UploadDoc ui)) s of (errs, s1) \<Rightarrow>
                    (if okCount errs < writeQuorum s then Inl OWriteQuorum else Inr uid, s1)) p1))"

definition unmarshalUpload :: "content \<Rightarrow> uploadInfo option" where
  "unmarshalUpload c = (case c of UploadDoc u \<Rightarrow> Some u | _ \<Rightarrow> None)"

fun readUploadFrom :: "string \<Rightarrow> disk list \<Rightarrow> uploadInfo option \<times> disk list" where
  "readUploadFrom uid [] = (None, [])"
| "readUploadFrom uid (d # ds) =
     (case ReadAll [] (mpUploadJSON uid) d of (r, d1) \<Rightarrow>
        (case (case r of Inr c \<Rightarrow> unmarshalUpload c | Inl e \<Rightarrow> None) of
           Some u \<Rightarrow> (Some u, d1 # ds)
         | None \<Rightarrow> (case readUploadFrom uid ds of (u, ds') \<Rightarrow> (u, d1 # ds'))))"

definition readUpload :: "string \<Rightarrow> eset \<Rightarrow> uploadInfo option \<times> eset" where
  "readUpload uid s = (case readUploadFrom uid (disks s) of (u, ds) \<Rightarrow> (u, s\<lparr>disks := ds\<rparr>))"

fun loadUploadIn :: "string \<Rightarrow> nat list \<Rightarrow> pool \<Rightarrow> (objErr + (uploadInfo \<times> nat)) \<times> pool" where
  "loadUploadIn uid [] p = (Inl OInvalidUploadID, p)"
| "loadUploadIn uid (i # is) p =
     (case onSet i (readUpload uid) p of
        (Some u, p1) \<Rightarrow> (Inr (u, i), p1)
      | (None, p1) \<Rightarrow> loadUploadIn uid is p1)"

definition loadUpload :: "string \<Rightarrow> pool \<Rightarrow> (objErr + (uploadInfo \<times> nat)) \<times> pool" where
  "loadUpload uid p = loadUploadIn uid [0..<length (psets p)] p"

definition dropUpload :: "string \<Rightarrow> nat \<Rightarrow> pool \<Rightarrow> pool" where
  "dropUpload uid i p = snd (onSet i (forEachDisk (Delete [] (mpUploadDir uid) True)) p)"

definition AbortMultipartUpload :: "string \<Rightarrow> string \<Rightarrow> string \<Rightarrow> pool \<Rightarrow> objErr option \<times> pool" where
  "AbortMultipartUpload bucket key uid p =
     (case loadUpload uid p of
        (Inl e, p1) \<Rightarrow> (Some e, p1)
      | (Inr (u, i), p1) \<Rightarrow> (None, dropUpload uid i p1))"

subsection \<open>Parts\<close>

definition partOf :: "nat \<Rightarrow> xlMeta \<Rightarrow> partInfo" where
  "partOf n m = \<lparr>piPartNumber = n, piLastModified = ModTime m, piETag = ETag m, piSize = int (MSize m)\<rparr>"

definition noUserMeta :: userMeta where
  "noUserMeta = \<lparr>umContentType = [], umContentEnc = [], umUser = [], umTags = [], umCompress = False\<rparr>"

definition PutObjectPart ::
  "penv \<Rightarrow> draws \<Rightarrow> string \<Rightarrow> string \<Rightarrow> string \<Rightarrow> int \<Rightarrow> reader \<Rightarrow> int \<Rightarrow> pool \<Rightarrow> (objErr + partInfo) \<times> pool" where
  "PutObjectPart pe dr bucket key uid partID data sz p =
     (case loadUpload uid p of
        (Inl e, p1) \<Rightarrow> (Inl e, p1)
      | (Inr (u, i), p1) \<Rightarrow>
          if partID < 1 \<or> partID > 10000 then (Inl OInvalidPart, p1)
          else
            (case onSet i (putObject (senvOf pe) (dId1 dr) (dId2 dr) (dNow dr) [] (mpPartKey uid (nat partID))
                    [\<lparr>psNumber = 1, psSize = sz, psReader = data\<rparr>] noUserMeta False) p1 of
               (Inl e, p2) \<Rightarrow> (Inl (mapErr e), p2)
             | (Inr m, p2) \<Rightarrow> (Inr (partOf (nat partID) m), p2)))"

definition rangeEnd :: "int \<Rightarrow> int \<Rightarrow> int" where
  "rangeEnd start len = (if len < 0 then -1 else start + len - 1)"

definition CopyObjectPart ::
  "penv \<Rightarrow> draws \<Rightarrow> string \<Rightarrow> string \<Rightarrow> string \<Rightarrow> string \<Rightarrow> string \<Rightarrow> int \<Rightarrow> int \<Rightarrow> int \<Rightarrow> pool \<Rightarrow> (objErr + partInfo) \<times> pool" where
  "CopyObjectPart pe dr srcBucket srcObject dstBucket dstObject uid partID startOffset len p =
     (case GetObjectNInfo pe (dNow dr) srcBucket srcObject
             (Some \<lparr>rsIsSuffixLength = False, rsStart = startOffset, rsEnd = rangeEnd startOffset len\<rparr>) noOptions p of
        (Inl e, p1) \<Rightarrow> (Inl e, p1)
      | (Inr (oi, body, err), p1) \<Rightarrow>
          PutObjectPart pe dr dstBucket dstObject uid partID \<lparr>rdata = body, rfails = (err \<noteq> None)\<rparr>
            (if len < 0 then iSize oi else len) p1)"

text \<open>
  \<open>fmt.Sscanf(name, "part.%05d", &n)\<close>: at most five digits after the literal, the rest of the name is not looked at. A sign or
  blanks, which no name that \<open>mpPartKey\<close> makes has, are not read as a number here.
\<close>

definition isDigit :: "char \<Rightarrow> bool" where
  "isDigit c \<longleftrightarrow> CHR ''0'' \<le> c \<and> c \<le> CHR ''9''"

definition digitsVal :: "string \<Rightarrow> nat" where
  "digitsVal ds = fold (\<lambda>c n. 10 * n + (of_char c - 48)) ds 0"

definition sscanfPart :: "string \<Rightarrow> nat option" where
  "sscanfPart nm =
     (if \<not> hasPrefix nm ''part.'' then None
      else (let ds = takeWhile isDigit (take 5 (drop 5 nm)) in if ds = [] then None else Some (digitsVal ds)))"

fun statParts :: "senv \<Rightarrow> string \<Rightarrow> string list \<Rightarrow> eset \<Rightarrow> partInfo list \<times> eset" where
  "statParts env uid [] s = ([], s)"
| "statParts env uid (e # es) s =
     (if \<not> hasPrefix e ''part.'' \<or> \<not> hasSuffix e ''/'' then statParts env uid es s
      else case sscanfPart (trimSuffix e ''/'') of
        None \<Rightarrow> statParts env uid es s
      | Some n \<Rightarrow>
          (case statObject env [] (mpPartKey uid n) s of (r, s1) \<Rightarrow>
             (case statParts env uid es s1 of (ps, s2) \<Rightarrow>
                ((case r of Inr m \<Rightarrow> partOf n m # ps | Inl _ \<Rightarrow> ps), s2))))"

definition listUploadedParts :: "senv \<Rightarrow> string \<Rightarrow> eset \<Rightarrow> (objErr + partInfo list) \<times> eset" where
  "listUploadedParts env uid s =
     (case firstOnline (disks s) of
        (None, ds) \<Rightarrow> (Inl OReadQuorum, s\<lparr>disks := ds\<rparr>)
      | (Some i, ds) \<Rightarrow>
          (case ListDir [] (mpUploadDir uid) (ds ! i) of (r, d1) \<Rightarrow>
             (let s1 = s\<lparr>disks := ds[i := d1]\<rparr> in
              case r of
                Inl e \<Rightarrow> (Inl (OSet (EDisk e)), s1)
              | Inr ents \<Rightarrow> (case statParts env uid ents s1 of (ps, s2) \<Rightarrow> (Inr (sort_key piPartNumber ps), s2)))))"

definition ListObjectParts :: "penv \<Rightarrow> string \<Rightarrow> string \<Rightarrow> string \<Rightarrow> int \<Rightarrow> int \<Rightarrow> pool \<Rightarrow> (objErr + listPartsInfo) \<times> pool" where
  "ListObjectParts pe bucket key uid marker maxParts p =
     (case loadUpload uid p of
        (Inl e, p1) \<Rightarrow> (Inl e, p1)
      | (Inr (u, i), p1) \<Rightarrow>
          (case onSet i (listUploadedParts (senvOf pe) uid) p1 of
             (Inl e, p2) \<Rightarrow> (Inl e, p2)
           | (Inr every, p2) \<Rightarrow>
               (let mx = clampKeys maxParts; rest = filter (\<lambda>pt. \<not> int (piPartNumber pt) \<le> marker) every; page = take mx rest
                in (Inr \<lparr>lpiNextPartNumberMarker = (if page = [] then 0 else int (piPartNumber (last page))), lpiMaxParts = mx,
                         lpiIsTruncated = (mx < length rest), lpiParts = page, lpiUserDefined = UUserMeta u\<rparr>, p2))))"

subsection \<open>Listing uploads\<close>

fun uploadsIn :: "string \<Rightarrow> string \<Rightarrow> string list \<Rightarrow> string list \<times> multipartInfo list \<Rightarrow> pool \<Rightarrow> (string list \<times> multipartInfo list) \<times> pool" where
  "uploadsIn bucket pre [] acc p = (acc, p)"
| "uploadsIn bucket pre (e # es) acc p =
     (case acc of (seen, ups) \<Rightarrow>
        (let uid = trimSuffix e ''/'' in
         if \<not> hasSuffix e ''/'' \<or> uid \<in> set seen then uploadsIn bucket pre es (seen, ups) p
         else case loadUpload uid p of (r, p1) \<Rightarrow>
           uploadsIn bucket pre es
             (uid # seen,
              (case r of
                 Inl _ \<Rightarrow> ups
               | Inr (u, _) \<Rightarrow>
                   if UBucket u \<noteq> bucket \<or> (pre \<noteq> [] \<and> \<not> hasPrefix (UObject u) pre) then ups
                   else ups @ [\<lparr>miBucket = bucket, miObject = UObject u, miUploadID = uid, miInitiated = Initiated u,
                                miUserDefined = UUserMeta u\<rparr>])) p1))"

definition uploadDirs :: "eset \<Rightarrow> string list \<times> eset" where
  "uploadDirs s =
     (case firstOnline (disks s) of
        (None, ds) \<Rightarrow> ([], s\<lparr>disks := ds\<rparr>)
      | (Some i, ds) \<Rightarrow>
          (case ListDir [] mpartPrefix (ds ! i) of (r, d1) \<Rightarrow>
             ((case r of Inr ents \<Rightarrow> ents | Inl _ \<Rightarrow> []), s\<lparr>disks := ds[i := d1]\<rparr>)))"

fun uploadsOfSets :: "string \<Rightarrow> string \<Rightarrow> nat list \<Rightarrow> string list \<times> multipartInfo list \<Rightarrow> pool \<Rightarrow> (string list \<times> multipartInfo list) \<times> pool" where
  "uploadsOfSets bucket pre [] acc p = (acc, p)"
| "uploadsOfSets bucket pre (i # is) acc p =
     (case onSet i uploadDirs p of (ents, p1) \<Rightarrow>
        (case uploadsIn bucket pre ents acc p1 of (acc1, p2) \<Rightarrow> uploadsOfSets bucket pre is acc1 p2))"

definition ListMultipartUploads :: "time \<Rightarrow> string \<Rightarrow> string \<Rightarrow> int \<Rightarrow> pool \<Rightarrow> (objErr + listMultipartsInfo) \<times> pool" where
  "ListMultipartUploads now bucket pre maxUploads p =
     (case ensureBucket now bucket p of
        (Some e, p1) \<Rightarrow> (Inl e, p1)
      | (None, p1) \<Rightarrow>
          (case uploadsOfSets bucket pre [0..<length (psets p1)] ([], []) p1 of ((_, ups), p2) \<Rightarrow>
             (let mx = clampKeys maxUploads
              in (Inr \<lparr>lmiMaxUploads = mx, lmiIsTruncated = (mx < length ups),
                       lmiUploads = take mx (sort_key (\<lambda>u. [miObject u, miUploadID u]) ups)\<rparr>, p2))))"

subsection \<open>Completing\<close>

definition normalizeETag :: "string \<Rightarrow> string" where
  "normalizeETag s =
     (let q = (\<lambda>c. c = CHR 0x22); t = trimSpaceS s in toLower (rev (dropWhile q (rev (dropWhile q t)))))"

text \<open>The client's list against the parts that exist: ascending numbers, known parts, equal ETags, no small part but the last.\<close>

fun checkParts :: "partInfo list \<Rightarrow> int \<Rightarrow> completePart list \<Rightarrow> objErr + partInfo list" where
  "checkParts have prev [] = Inr []"
| "checkParts have prev (cp # cps) =
     (if cpPartNumber cp \<le> prev then Inl OInvalidPartOrder
      else case find (\<lambda>pt. int (piPartNumber pt) = cpPartNumber cp) (rev have) of
        None \<Rightarrow> Inl OInvalidPart
      | Some pt \<Rightarrow>
          if normalizeETag (cpETag cp) \<noteq> normalizeETag (piETag pt) then Inl OInvalidPart
          else if cps \<noteq> [] \<and> piSize pt < minPartSize then Inl OPartTooSmall
          else case checkParts have (cpPartNumber cp) cps of Inl e \<Rightarrow> Inl e | Inr pts \<Rightarrow> Inr (pt # pts))"

fun readPartsOf :: "senv \<Rightarrow> string \<Rightarrow> partInfo list \<Rightarrow> eset \<Rightarrow> partSource list \<times> eset" where
  "readPartsOf env uid [] s = ([], s)"
| "readPartsOf env uid (pt # pts) s =
     (case getObject env [] (mpPartKey uid (piPartNumber pt)) 0 (-1) s of (body, err, s1) \<Rightarrow>
        (case readPartsOf env uid pts s1 of (srcs, s2) \<Rightarrow>
           (\<lparr>psNumber = piPartNumber pt, psSize = piSize pt, psReader = \<lparr>rdata = body, rfails = (err \<noteq> None)\<rparr>\<rparr> # srcs, s2)))"

definition assemble :: "penv \<Rightarrow> draws \<Rightarrow> string \<Rightarrow> string \<Rightarrow> string \<Rightarrow> uploadInfo \<Rightarrow> partInfo list \<Rightarrow> eset \<Rightarrow> (setErr + xlMeta) \<times> eset" where
  "assemble pe dr bucket key uid u pts s =
     (case readPartsOf (senvOf pe) uid pts s of (srcs, s1) \<Rightarrow>
        putObject (senvOf pe) (dId1 dr) (dId2 dr) (dNow dr) bucket key srcs
          \<lparr>umContentType = UContentType u, umContentEnc = UContentEnc u, umUser = UUserMeta u, umTags = UUserTags u, umCompress = False\<rparr>
          (dedupEnabled (senvOf pe)) s1)"

definition CompleteMultipartUpload ::
  "penv \<Rightarrow> draws \<Rightarrow> string \<Rightarrow> string \<Rightarrow> string \<Rightarrow> completePart list \<Rightarrow> pool \<Rightarrow> (objErr + objectInfo) \<times> pool" where
  "CompleteMultipartUpload pe dr bucket key uid uploaded p =
     invalidateList bucket
       (case loadUpload uid p of
          (Inl e, p1) \<Rightarrow> (Inl e, p1)
        | (Inr (u, i), p1) \<Rightarrow>
            if uploaded = [] then (Inl OInvalidPart, p1)
            else
              (case onSet i (listUploadedParts (senvOf pe) uid) p1 of
                 (Inl e, p2) \<Rightarrow> (Inl e, p2)
               | (Inr have, p2) \<Rightarrow>
                   (case checkParts have 0 uploaded of
                      Inl e \<Rightarrow> (Inl e, p2)
                    | Inr pts \<Rightarrow>
                        (case onSet i (assemble pe dr bucket key uid u pts) p2 of
                           (Inl e, p3) \<Rightarrow> (Inl (mapErr e), p3)
                         | (Inr m, p3) \<Rightarrow> (Inr (metaToInfo bucket key m), dropUpload uid i p3)))))"

end
