(* ===== verification/FsStore.thy ===== *)
theory FsStore
  imports Pool Base64
begin

text \<open>
  The single-disk backend (\<open>internal/object/fs/fs.go\<close>, \<open>bucket.go\<close>, \<open>config.go\<close>, \<open>meta.go\<close>): the file-system calls it
  makes, its paths, buckets, configuration files and metadata sidecars. The tree is the host's file system and the volume is the
  directory \<open>feRoot\<close> in it, because a path the backend makes need not stay inside the volume. Every call of the
  operating system draws its outcome from the disk's fault schedule, as in \<open>Disk\<close>. The backend's locks are held
  over each operation, so an operation is one step; identifiers, keys and the clock are draws of the request.
\<close>

subsection \<open>Calls of the operating system\<close>

datatype osErr = OsNotExist | OsFail

text \<open>A path below a file: the call fails with \<open>ENOTDIR\<close>, which is not \<open>ErrNotExist\<close>.\<close>

definition isFile :: "node option \<Rightarrow> bool" where
  "isFile nd = (case nd of Some (File _) \<Rightarrow> True | _ \<Rightarrow> False)"

definition belowFile :: "fs \<Rightarrow> path \<Rightarrow> bool" where
  "belowFile f p \<longleftrightarrow> list_ex (\<lambda>n. isFile (lookupF f (take n p))) [1..<length p]"

definition resolveP :: "fs \<Rightarrow> path \<Rightarrow> osErr + node" where
  "resolveP f p =
     (if belowFile f p then Inl OsFail else case lookupF f p of Some nd \<Rightarrow> Inr nd | None \<Rightarrow> Inl OsNotExist)"

definition osStat :: "path \<Rightarrow> disk \<Rightarrow> (osErr + node) \<times> disk" where
  "osStat p d = (case nextFault d of (ft, d1) \<Rightarrow> (if ft \<noteq> Works then Inl OsFail else resolveP (dfs d1) p, d1))"

definition osReadFile :: "path \<Rightarrow> disk \<Rightarrow> (osErr + content) \<times> disk" where
  "osReadFile p d =
     (case nextFault d of (ft, d1) \<Rightarrow>
        (if ft \<noteq> Works then Inl OsFail
         else case resolveP (dfs d1) p of Inl e \<Rightarrow> Inl e | Inr Dir \<Rightarrow> Inl OsFail | Inr (File c) \<Rightarrow> Inr c, d1))"

text \<open>\<open>os.Open\<close> and reading to the end; a failure half-way is a reader that fails.\<close>

definition osOpen :: "path \<Rightarrow> disk \<Rightarrow> (osErr + reader) \<times> disk" where
  "osOpen p d =
     (case nextFault d of (ft, d1) \<Rightarrow>
        (if ft = FailsBefore then Inl OsFail
         else case resolveP (dfs d1) p of
           Inl e \<Rightarrow> Inl e
         | Inr (File (Raw b)) \<Rightarrow> Inr (if ft = FailsMid then \<lparr>rdata = [], rfails = True\<rparr> else \<lparr>rdata = b, rfails = False\<rparr>)
         | Inr _ \<Rightarrow> Inr \<lparr>rdata = [], rfails = True\<rparr>, d1))"

definition osMkdirAll :: "path \<Rightarrow> disk \<Rightarrow> bool \<times> disk" where
  "osMkdirAll p d =
     (case nextFault d of (ft, d1) \<Rightarrow>
        if ft \<noteq> Works then (False, d1)
        else case mkdirAll p (dfs d1) of Some f \<Rightarrow> (True, d1\<lparr>dfs := f\<rparr>) | None \<Rightarrow> (False, d1))"

text \<open>\<open>os.Rename\<close> of a file, which replaces a file at the destination.\<close>

definition osRename :: "path \<Rightarrow> path \<Rightarrow> disk \<Rightarrow> bool \<times> disk" where
  "osRename src dst d =
     (case nextFault d of (ft, d1) \<Rightarrow>
        if ft \<noteq> Works then (False, d1)
        else case lookupF (dfs d1) src of
          Some (File c) \<Rightarrow>
            if dst \<noteq> [] \<and> lookupF (dfs d1) (butlast dst) = Some Dir \<and> lookupF (dfs d1) dst \<noteq> Some Dir
            then (True, d1\<lparr>dfs := if src = dst then dfs d1 else AList.delete src (AList.update dst (File c) (dfs d1))\<rparr>)
            else (False, d1)
        | _ \<Rightarrow> (False, d1))"

definition osRemove :: "path \<Rightarrow> disk \<Rightarrow> osErr option \<times> disk" where
  "osRemove p d =
     (case nextFault d of (ft, d1) \<Rightarrow>
        if ft \<noteq> Works \<or> p = [] then (Some OsFail, d1)
        else case resolveP (dfs d1) p of
          Inl e \<Rightarrow> (Some e, d1)
        | Inr _ \<Rightarrow> (case removeF p (dfs d1) of Inr f \<Rightarrow> (None, d1\<lparr>dfs := f\<rparr>) | Inl _ \<Rightarrow> (Some OsFail, d1)))"

definition osRemoveAll :: "path \<Rightarrow> disk \<Rightarrow> bool \<times> disk" where
  "osRemoveAll p d =
     (case nextFault d of (ft, d1) \<Rightarrow> if ft \<noteq> Works then (False, d1) else (True, d1\<lparr>dfs := removeAll p (dfs d1)\<rparr>))"

definition osReadDir :: "path \<Rightarrow> disk \<Rightarrow> (osErr + (string \<times> bool) list) \<times> disk" where
  "osReadDir p d =
     (case nextFault d of (ft, d1) \<Rightarrow>
        (if ft \<noteq> Works then Inl OsFail
         else case resolveP (dfs d1) p of
           Inl e \<Rightarrow> Inl e | Inr (File c) \<Rightarrow> Inl OsFail | Inr Dir \<Rightarrow> Inr (sort_key fst (childNames p (dfs d1))), d1))"

text \<open>\<open>filepath.WalkDir\<close>: everything below a directory, as paths relative to it.\<close>

definition osWalk :: "path \<Rightarrow> disk \<Rightarrow> (osErr + (path \<times> node) list) \<times> disk" where
  "osWalk p d =
     (case nextFault d of (ft, d1) \<Rightarrow>
        (if ft \<noteq> Works then Inl OsFail
         else case resolveP (dfs d1) p of
           Inl e \<Rightarrow> Inl e
         | Inr (File c) \<Rightarrow> Inr [([], File c)]
         | Inr Dir \<Rightarrow> Inr (map (\<lambda>(q, nd). (drop (length p) q, nd)) (filter (\<lambda>(q, nd). strict_prefix p q) (dfs d1))), d1))"

text \<open>
  \<open>writeFileAtomic\<close>: a temporary file beside the target, renamed over it. A failure half-way has created the
  directories; the temporary file is removed.
\<close>

definition writeFileAtomic :: "path \<Rightarrow> content \<Rightarrow> disk \<Rightarrow> bool \<times> disk" where
  "writeFileAtomic p c d =
     (case nextFault d of (ft, d1) \<Rightarrow>
        if ft = FailsBefore then (False, d1)
        else case mkdirAll (butlast p) (dfs d1) of
          None \<Rightarrow> (False, d1)
        | Some f \<Rightarrow>
            if ft = FailsMid \<or> p = [] \<or> lookupF f p = Some Dir then (False, d1\<lparr>dfs := f\<rparr>)
            else (True, d1\<lparr>dfs := AList.update p (File c) f\<rparr>))"

subsection \<open>The volume (fs.go)\<close>

datatype fsErr = FBucketNotFound string | FBucketExists string | FBucketNotEmpty | FBucketNameInvalid
  | FObjectNotFound | FObjectNameInvalid | FObjectExistsAsDir | FPreconditionFailed | FInvalidRange | FIncompleteBody
  | FObjectLocked | FNotVersioned | FInvalidUploadID | FInvalidPart | FInvalidPartOrder | FPartTooSmall
  | FOs osErr | FJson | FHex | FKms kmsErr | FReader | FPanic

text \<open>\<open>feMtime\<close> is the modification time the file system reports of a path.\<close>

record fenv =
  feRoot :: path
  feMd5 :: "bytes \<Rightarrow> bytes"
  feMtime :: "path \<Rightarrow> time"
  feAead :: aead
  feKms :: "kms option"

text \<open>\<open>filepath.Join\<close> on an absolute path: \<open>..\<close> leads up, and at the root nowhere.\<close>

fun cleanAbs :: "path \<Rightarrow> path \<Rightarrow> path" where
  "cleanAbs acc [] = rev acc"
| "cleanAbs acc (x # xs) =
     (if x = ''.'' then cleanAbs acc xs
      else if x = ''..'' then cleanAbs (tl acc) xs
      else cleanAbs (x # acc) xs)"

definition fjoin :: "path \<Rightarrow> string list \<Rightarrow> path" where
  "fjoin root elems = cleanAbs [] (root @ concat (map segs elems))"

definition bucketDir :: "fenv \<Rightarrow> string \<Rightarrow> path" where
  "bucketDir fe bucket = fjoin (feRoot fe) [bucket]"

definition objDataPath :: "fenv \<Rightarrow> string \<Rightarrow> string \<Rightarrow> path" where
  "objDataPath fe bucket obj = fjoin (feRoot fe) [bucket, obj]"

definition objMetaPath :: "fenv \<Rightarrow> string \<Rightarrow> string \<Rightarrow> path" where
  "objMetaPath fe bucket obj = fjoin (feRoot fe) [sysDir, ''meta'', bucket, obj @ ''.json'']"

definition metaBucketDir :: "fenv \<Rightarrow> string \<Rightarrow> path" where
  "metaBucketDir fe bucket = fjoin (feRoot fe) [sysDir, ''meta'', bucket]"

definition bucketMetaPath :: "fenv \<Rightarrow> string \<Rightarrow> path" where
  "bucketMetaPath fe bucket = fjoin (feRoot fe) [sysDir, ''buckets'', bucket @ ''.json'']"

definition mpBucketDir :: "fenv \<Rightarrow> string \<Rightarrow> path" where
  "mpBucketDir fe bucket = fjoin (feRoot fe) [sysDir, ''multipart'', bucket]"

definition mpDir :: "fenv \<Rightarrow> string \<Rightarrow> string \<Rightarrow> path" where
  "mpDir fe bucket uid = fjoin (feRoot fe) [sysDir, ''multipart'', bucket, uid]"

definition tmpPath :: "fenv \<Rightarrow> string \<Rightarrow> path" where
  "tmpPath fe tid = fjoin (feRoot fe) [sysDir, ''tmp'', tid]"

fun mkdirs :: "path list \<Rightarrow> disk \<Rightarrow> bool \<times> disk" where
  "mkdirs [] d = (True, d)"
| "mkdirs (p # ps) d = (case osMkdirAll p d of (ok, d1) \<Rightarrow> if ok then mkdirs ps d1 else (False, d1))"

definition loadOrInitFormat :: "fenv \<Rightarrow> string \<Rightarrow> time \<Rightarrow> disk \<Rightarrow> (fsErr + (diskFormat \<times> bool)) \<times> disk" where
  "loadOrInitFormat fe newid now d =
     (let p = fjoin (feRoot fe) [sysDir, ''format.json''] in
      case osReadFile p d of
        (Inr c, d1) \<Rightarrow> ((case c of FormatDoc fm \<Rightarrow> Inr (fm, False) | _ \<Rightarrow> Inl FJson), d1)
      | (Inl OsFail, d1) \<Rightarrow> (Inl (FOs OsFail), d1)
      | (Inl OsNotExist, d1) \<Rightarrow>
          (let fm = \<lparr>dfVersion = 1, dfID = newid, dfCreated = now\<rparr> in
           case writeFileAtomic p (FormatDoc fm) d1 of (ok, d2) \<Rightarrow>
             ((if ok then Inr (fm, True) else Inl (FOs OsFail)), d2)))"

definition fsNew :: "fenv \<Rightarrow> string \<Rightarrow> time \<Rightarrow> disk \<Rightarrow> (fsErr + (diskFormat \<times> bool)) \<times> disk" where
  "fsNew fe newid now d =
     (let r = feRoot fe; sys = (\<lambda>x. fjoin r [sysDir, x]) in
      case mkdirs [fjoin r [], fjoin r [sysDir], sys ''buckets'', sys ''meta'', sys ''multipart'', sys ''tmp''] d of
        (False, d1) \<Rightarrow> (Inl (FOs OsFail), d1)
      | (True, d1) \<Rightarrow>
          (case loadOrInitFormat fe newid now d1 of
             (Inl e, d2) \<Rightarrow> (Inl e, d2)
           | (Inr fm, d2) \<Rightarrow> (Inr fm, snd (osMkdirAll (sys ''tmp'') (snd (osRemoveAll (sys ''tmp'') d2))))))"

definition fsHealth :: "fenv \<Rightarrow> string \<Rightarrow> disk \<Rightarrow> bool \<times> disk" where
  "fsHealth fe tid d =
     (let p = tmpPath fe tid in
      case nextFault d of (ft, d1) \<Rightarrow>
        if ft \<noteq> Works \<or> lookupF (dfs d1) (butlast p) \<noteq> Some Dir \<or> lookupF (dfs d1) p = Some Dir then (False, d1)
        else (True, snd (osRemove p (d1\<lparr>dfs := AList.update p (File (Raw ''ok'')) (dfs d1)\<rparr>))))"

definition isIPLike :: "string \<Rightarrow> bool" where
  "isIPLike s =
     (let parts = splitOn (CHR ''.'') s in
      length parts = 4 \<and> list_all (\<lambda>p. p \<noteq> [] \<and> length p \<le> 3 \<and> list_all (\<lambda>c. CHR ''0'' \<le> c \<and> c \<le> CHR ''9'') p) parts)"

definition fsValidBucketName :: "string \<Rightarrow> bool" where
  "fsValidBucketName name =
     (if length name < 3 \<or> length name > 63 then False
      else if hasPrefix name ''-'' \<or> hasSuffix name ''-'' \<or> hasPrefix name ''.'' \<or> hasSuffix name ''.'' then False
      else if contains name ''..'' \<or> contains name ''.-'' \<or> contains name ''-.'' then False
      else if \<not> list_all isLowerName name then False
      else if isIPLike name then False
      else name \<noteq> sysDir)"

definition fsValidObjectName :: "string \<Rightarrow> bool" where
  "fsValidObjectName name =
     (if name = [] \<or> length name > 1024 then False
      else if contains name [CHR 0x00] then False
      else if hasPrefix name ''/'' \<or> contains name [CHR 0x5C] then False
      else \<not> list_ex (\<lambda>seg. seg = ''.'' \<or> seg = ''..'') (splitOn (CHR ''/'') name))"

text \<open>
  \<open>copyToTmpAndHash\<close>: the bytes of the reader in a new file of the directory \<open>tmp\<close>. On an error, or when the
  length is not the expected one, the file is removed.
\<close>

definition writeTmp :: "path \<Rightarrow> reader \<Rightarrow> disk \<Rightarrow> fsErr option \<times> disk" where
  "writeTmp p r d =
     (case nextFault d of (ft, d1) \<Rightarrow>
        if ft = FailsBefore \<or> p = [] \<or> lookupF (dfs d1) (butlast p) \<noteq> Some Dir \<or> lookupF (dfs d1) p = Some Dir
        then (Some (FOs OsFail), d1)
        else if rfails r then (Some FReader, d1\<lparr>dfs := AList.delete p (dfs d1)\<rparr>)
        else if ft = FailsMid then (Some (FOs OsFail), d1\<lparr>dfs := AList.delete p (dfs d1)\<rparr>)
        else (None, d1\<lparr>dfs := AList.update p (File (Raw (rdata r))) (dfs d1)\<rparr>))"

definition copyToTmpAndHash :: "fenv \<Rightarrow> string \<Rightarrow> reader \<Rightarrow> int \<Rightarrow> disk \<Rightarrow> (fsErr + (path \<times> int \<times> string)) \<times> disk" where
  "copyToTmpAndHash fe tid r expected d =
     (let p = tmpPath fe tid; n = int (length (rdata r)) in
      case writeTmp p r d of
        (Some e, d1) \<Rightarrow> (Inl e, d1)
      | (None, d1) \<Rightarrow>
          if expected \<ge> 0 \<and> n \<noteq> expected then (Inl FIncompleteBody, snd (osRemove p d1))
          else (Inr (p, n, hexEncode (feMd5 fe (rdata r))), d1))"

subsection \<open>Metadata sidecars (meta.go)\<close>

definition emptyMeta :: objMeta where
  "emptyMeta = \<lparr>omSize = 0, omModTime = 0, omETag = [], omContentType = [], omContentEnc = [], omUserMeta = [], omUserTags = [],
     omParts = [], omSSE = [], omPlainSize = 0, omEncDEK = [], omNoncePrefix = []\<rparr>"

definition partInfos :: "objMetaPart list \<Rightarrow> (nat \<times> nat \<times> nat \<times> string) list" where
  "partInfos ps = map (\<lambda>p. (nat (ompNumber p), nat (ompSize p), nat (ompActualSize p), ompETag p)) ps"

definition toObjectInfo :: "objMeta \<Rightarrow> string \<Rightarrow> string \<Rightarrow> objectInfo" where
  "toObjectInfo m bucket name =
     \<lparr>iBucket = bucket, iName = name, iSize = (if omSSE m \<noteq> [] then omPlainSize m else omSize m), iModTime = omModTime m,
      iETag = omETag m, iContentType = omContentType m, iContentEnc = omContentEnc m, iVersionID = [], iIsLatest = True,
      iDeleteMarker = False, iStorageClass = ''STANDARD'',
      iUserDefined = setIf ''x-amz-server-side-encryption'' (omSSE m) (setIf ''content-type'' (omContentType m) (omUserMeta m)),
      iUserTags = omUserTags m, iParts = partInfos (omParts m)\<rparr>"

definition writeMetaFile :: "path \<Rightarrow> objMeta \<Rightarrow> disk \<Rightarrow> bool \<times> disk" where
  "writeMetaFile p m d = writeFileAtomic p (ObjDoc m) d"

definition readMetaFile :: "path \<Rightarrow> disk \<Rightarrow> (fsErr + objMeta) \<times> disk" where
  "readMetaFile p d =
     (case osReadFile p d of
        (Inl e, d1) \<Rightarrow> (Inl (FOs e), d1)
      | (Inr (ObjDoc m), d1) \<Rightarrow> (Inr m, d1)
      | (Inr _, d1) \<Rightarrow> (Inl FJson, d1))"

subsection \<open>Configuration files (config.go)\<close>

definition configPath :: "fenv \<Rightarrow> string \<Rightarrow> path" where
  "configPath fe key = fjoin (feRoot fe) [sysDir, key]"

definition fsReadConfig :: "fenv \<Rightarrow> string \<Rightarrow> disk \<Rightarrow> (osErr + content) \<times> disk" where
  "fsReadConfig fe key d = osReadFile (configPath fe key) d"

definition fsWriteConfig :: "fenv \<Rightarrow> string \<Rightarrow> content \<Rightarrow> disk \<Rightarrow> bool \<times> disk" where
  "fsWriteConfig fe key c d =
     (let p = configPath fe key in
      case osMkdirAll (butlast p) d of (ok, d1) \<Rightarrow> if ok then writeFileAtomic p c d1 else (False, d1))"

definition fsDeleteConfig :: "fenv \<Rightarrow> string \<Rightarrow> disk \<Rightarrow> bool \<times> disk" where
  "fsDeleteConfig fe key d =
     (case osRemove (configPath fe key) d of (r, d1) \<Rightarrow> (r = None \<or> r = Some OsNotExist, d1))"

definition fsListConfig :: "fenv \<Rightarrow> string \<Rightarrow> disk \<Rightarrow> (osErr + string list) \<times> disk" where
  "fsListConfig fe pre d =
     (let root = configPath fe pre; base = fjoin (feRoot fe) [sysDir] in
      case osWalk root d of
        (Inl OsNotExist, d1) \<Rightarrow> (Inr [], d1)
      | (Inl e, d1) \<Rightarrow> (Inl e, d1)
      | (Inr es, d1) \<Rightarrow>
          (Inr (map (\<lambda>(q, _). unsegs (drop (length base) (root @ q))) (filter (\<lambda>(_, nd). isFile (Some nd)) es)), d1))"

subsection \<open>Buckets (bucket.go)\<close>

definition fsMakeBucket :: "fenv \<Rightarrow> time \<Rightarrow> string \<Rightarrow> bool \<Rightarrow> bool \<Rightarrow> bool \<Rightarrow> disk \<Rightarrow> fsErr option \<times> disk" where
  "fsMakeBucket fe now bucket versioning lock forceCreate d =
     (if \<not> fsValidBucketName bucket then (Some FBucketNameInvalid, d)
      else case osStat (bucketDir fe bucket) d of
        (Inr _, d1) \<Rightarrow> ((if forceCreate then None else Some (FBucketExists bucket)), d1)
      | (Inl OsFail, d1) \<Rightarrow> (Some (FOs OsFail), d1)
      | (Inl OsNotExist, d1) \<Rightarrow>
          (case osMkdirAll (bucketDir fe bucket) d1 of
             (False, d2) \<Rightarrow> (Some (FOs OsFail), d2)
           | (True, d2) \<Rightarrow>
               (case writeFileAtomic (bucketMetaPath fe bucket)
                       (BucketDoc \<lparr>bmName = bucket, bmCreated = now, bmVersioning = versioning, bmObjectLock = lock\<rparr>) d2 of
                  (ok, d3) \<Rightarrow> ((if ok then None else Some (FOs OsFail)), d3))))"

definition readBucketMeta :: "fenv \<Rightarrow> string \<Rightarrow> disk \<Rightarrow> (fsErr + bucketMeta) \<times> disk" where
  "readBucketMeta fe bucket d =
     (case osReadFile (bucketMetaPath fe bucket) d of
        (Inr c, d1) \<Rightarrow> ((case c of BucketDoc b \<Rightarrow> Inr b | _ \<Rightarrow> Inl FJson), d1)
      | (Inl OsFail, d1) \<Rightarrow> (Inl (FOs OsFail), d1)
      | (Inl OsNotExist, d1) \<Rightarrow>
          (case osStat (bucketDir fe bucket) d1 of (r, d2) \<Rightarrow>
             ((if r = Inr Dir
               then Inr \<lparr>bmName = bucket, bmCreated = feMtime fe (bucketDir fe bucket), bmVersioning = False, bmObjectLock = False\<rparr>
               else Inl (FBucketNotFound bucket)), d2)))"

definition fsGetBucketInfo :: "fenv \<Rightarrow> string \<Rightarrow> disk \<Rightarrow> (fsErr + bucketMeta) \<times> disk" where
  "fsGetBucketInfo fe bucket d =
     (if \<not> fsValidBucketName bucket then (Inl FBucketNameInvalid, d) else readBucketMeta fe bucket d)"

fun bucketInfos :: "fenv \<Rightarrow> (string \<times> bool) list \<Rightarrow> disk \<Rightarrow> bucketMeta list \<times> disk" where
  "bucketInfos fe [] d = ([], d)"
| "bucketInfos fe ((nm, isDir) # es) d =
     (if \<not> isDir \<or> nm = sysDir then bucketInfos fe es d
      else case readBucketMeta fe nm d of (r, d1) \<Rightarrow>
        (case bucketInfos fe es d1 of (bs, d2) \<Rightarrow> ((case r of Inr b \<Rightarrow> b # bs | Inl _ \<Rightarrow> bs), d2)))"

definition fsListBuckets :: "fenv \<Rightarrow> disk \<Rightarrow> (fsErr + bucketMeta list) \<times> disk" where
  "fsListBuckets fe d =
     (case osReadDir (feRoot fe) d of
        (Inl e, d1) \<Rightarrow> (Inl (FOs e), d1)
      | (Inr es, d1) \<Rightarrow> (case bucketInfos fe es d1 of (bs, d2) \<Rightarrow> (Inr (sort_key bmName bs), d2)))"

definition dropBucket :: "fenv \<Rightarrow> string \<Rightarrow> disk \<Rightarrow> fsErr option \<times> disk" where
  "dropBucket fe bucket d =
     (case osRemoveAll (bucketDir fe bucket) d of
        (False, d1) \<Rightarrow> (Some (FOs OsFail), d1)
      | (True, d1) \<Rightarrow>
          (None, snd (osRemoveAll (mpBucketDir fe bucket) (snd (osRemoveAll (metaBucketDir fe bucket)
                   (snd (osRemove (bucketMetaPath fe bucket) d1)))))))"

definition fsDeleteBucket :: "fenv \<Rightarrow> string \<Rightarrow> bool \<Rightarrow> disk \<Rightarrow> fsErr option \<times> disk" where
  "fsDeleteBucket fe bucket force d =
     (if \<not> fsValidBucketName bucket then (Some FBucketNameInvalid, d)
      else case osStat (bucketDir fe bucket) d of
        (Inl OsNotExist, d1) \<Rightarrow> (Some (FBucketNotFound bucket), d1)
      | (Inl OsFail, d1) \<Rightarrow> (Some (FOs OsFail), d1)
      | (Inr _, d1) \<Rightarrow>
          if force then dropBucket fe bucket d1
          else case osReadDir (bucketDir fe bucket) d1 of
            (Inl e, d2) \<Rightarrow> (Some (FOs e), d2)
          | (Inr es, d2) \<Rightarrow> if es \<noteq> [] then (Some FBucketNotEmpty, d2) else dropBucket fe bucket d2)"

definition ensureBucketFs :: "fenv \<Rightarrow> string \<Rightarrow> disk \<Rightarrow> fsErr option \<times> disk" where
  "ensureBucketFs fe bucket d =
     (if \<not> fsValidBucketName bucket then (Some FBucketNameInvalid, d)
      else case osStat (bucketDir fe bucket) d of
        (Inl OsNotExist, d1) \<Rightarrow> (Some (FBucketNotFound bucket), d1)
      | (Inl OsFail, d1) \<Rightarrow> (Some (FOs OsFail), d1)
      | (Inr nd, d1) \<Rightarrow> ((if nd = Dir then None else Some (FBucketNotFound bucket)), d1))"

end
