(* ===== verification/FsObject.thy ===== *)
theory FsObject
  imports FsStore
begin

text \<open>
  Objects of the single-disk backend (\<open>internal/object/fs/object.go\<close>, \<open>versioning.go\<close>, \<open>encryption.go\<close>, \<open>objectlock.go\<close>, \<open>tags.go\<close>).
  An object without versions is a data file and a sidecar; the versions of a key are files in a directory of their
  own, listed in order by an index.
\<close>

subsection \<open>Encryption (encryption.go)\<close>

definition sseRequested :: "fenv \<Rightarrow> objectOptions \<Rightarrow> bool" where
  "sseRequested fe opts \<longleftrightarrow> feKms fe \<noteq> None \<and> getKey (oUserDefined opts) ''x-amz-server-side-encryption'' = ''AES256''"

text \<open>The result: temporary path, length and MD5 of the plaintext, and the fields of the sidecar.\<close>

definition encryptToTmp ::
  "fenv \<Rightarrow> draws \<Rightarrow> reader \<Rightarrow> int \<Rightarrow> disk \<Rightarrow> (fsErr + (path \<times> int \<times> string \<times> objMeta)) \<times> disk" where
  "encryptToTmp fe dr r expected d =
     (case feKms fe of
        None \<Rightarrow> (Inl FPanic, d)
      | Some km \<Rightarrow>
          (case WrapKey (feAead fe) km (dNonce dr) (dDek dr) of
             Inl e \<Rightarrow> (Inl (FKms e), d)
           | Inr wrapped \<Rightarrow>
               (let p = tmpPath fe (dId1 dr); n = int (length (rdata r)) in
                case writeTmp p (EncryptReader (feAead fe) (dDek dr) (dPfx dr) r) d of
                  (Some e, d1) \<Rightarrow> (Inl e, d1)
                | (None, d1) \<Rightarrow>
                    if expected \<ge> 0 \<and> n \<noteq> expected then (Inl FIncompleteBody, snd (osRemove p d1))
                    else (Inr (p, n, hexEncode (feMd5 fe (rdata r)),
                            emptyMeta\<lparr>omSSE := ''AES256'', omPlainSize := n, omEncDEK := hexEncode wrapped,
                                      omNoncePrefix := hexEncode (dPfx dr)\<rparr>), d1))))"

definition openDecrypting ::
  "fenv \<Rightarrow> path \<Rightarrow> objMeta \<Rightarrow> int \<Rightarrow> int \<Rightarrow> disk \<Rightarrow> (fsErr + (bytes \<times> streamErr option)) \<times> disk" where
  "openDecrypting fe p m off0 len0 d =
     (case hexDecode (omEncDEK m) of
        None \<Rightarrow> (Inl FHex, d)
      | Some wrapped \<Rightarrow>
          (case feKms fe of
             None \<Rightarrow> (Inl FPanic, d)
           | Some km \<Rightarrow>
               (case UnwrapKey (feAead fe) km wrapped of
                  Inl e \<Rightarrow> (Inl (FKms e), d)
                | Inr dek \<Rightarrow>
                    (case hexDecode (omNoncePrefix m) of
                       None \<Rightarrow> (Inl FHex, d)
                     | Some pfx \<Rightarrow>
                         (case osOpen p d of
                            (Inl e, d1) \<Rightarrow> (Inl (FOs e), d1)
                          | (Inr r, d1) \<Rightarrow>
                              (let off = (if off0 < 0 then 0 else off0);
                                   len = (if len0 < 0 \<or> off + len0 > omPlainSize m then omPlainSize m - off else len0)
                               in case CipherOffsetForPlain (nat off) of (fc, co, skip) \<Rightarrow>
                                    (case DecryptRange (feAead fe) \<lparr>rdata = drop co (rdata r), rfails = rfails r\<rparr> dek pfx fc skip (nat len) of
                                       (out, er) \<Rightarrow> (Inr (out, map_option SseStream er), d1))))))))"

subsection \<open>Plain objects (object.go)\<close>

fun conflictIn :: "path \<Rightarrow> string list \<Rightarrow> disk \<Rightarrow> bool \<times> disk" where
  "conflictIn cur [] d = (False, d)"
| "conflictIn cur (p # ps) d =
     (let c = fjoin cur [p] in
      case osStat c d of (r, d1) \<Rightarrow>
        if (case r of Inr (File _) \<Rightarrow> True | _ \<Rightarrow> False) then (True, d1) else conflictIn c ps d1)"

definition checkPathConflicts :: "fenv \<Rightarrow> string \<Rightarrow> string \<Rightarrow> disk \<Rightarrow> bool \<times> disk" where
  "checkPathConflicts fe bucket obj d =
     (case osStat (objDataPath fe bucket obj) d of (r, d1) \<Rightarrow>
        if r = Inr Dir then (True, d1)
        else conflictIn (bucketDir fe bucket) (butlast (splitOn (CHR ''/'') obj)) d1)"

definition stripReserved :: "string gomap \<Rightarrow> string gomap" where
  "stripReserved md =
     fold (\<lambda>(k, v) out.
       (let lk = toLower k in
        if lk \<in> {''content-type'', ''content-encoding'', ''etag''} then out
        else if hasPrefix lk ''x-amz-'' \<and> \<not> hasPrefix lk ''x-amz-meta-'' then out
        else AList.update (trimPrefix lk ''x-amz-meta-'') v out)) md []"

definition getInfoUnlocked :: "fenv \<Rightarrow> string \<Rightarrow> string \<Rightarrow> disk \<Rightarrow> (fsErr + objectInfo) \<times> disk" where
  "getInfoUnlocked fe bucket obj d =
     (let p = objDataPath fe bucket obj in
      case osStat p d of
        (Inl OsNotExist, d1) \<Rightarrow> (Inl FObjectNotFound, d1)
      | (Inl OsFail, d1) \<Rightarrow> (Inl (FOs OsFail), d1)
      | (Inr Dir, d1) \<Rightarrow> (Inl FObjectNotFound, d1)
      | (Inr (File c), d1) \<Rightarrow>
          (case readMetaFile (objMetaPath fe bucket obj) d1 of
             (Inr m, d2) \<Rightarrow> (Inr (toObjectInfo m bucket obj), d2)
           | (Inl e, d2) \<Rightarrow>
               if e \<noteq> FOs OsNotExist then (Inl e, d2)
               else case osOpen p d2 of
                 (Inl e2, d3) \<Rightarrow> (Inl (FOs e2), d3)
               | (Inr r, d3) \<Rightarrow>
                   if rfails r then (Inl (FOs OsFail), d3)
                   else (Inr (toObjectInfo (emptyMeta\<lparr>omSize := int (length (rdata r)), omModTime := feMtime fe p,
                                                     omETag := hexEncode (feMd5 fe (rdata r))\<rparr>) bucket obj), d3)))"

definition newMeta :: "int \<Rightarrow> time \<Rightarrow> string \<Rightarrow> objectOptions \<Rightarrow> objMeta" where
  "newMeta n now md5hex opts =
     emptyMeta\<lparr>omSize := n, omModTime := now, omETag := md5hex,
       omContentType := getKey (oUserDefined opts) ''content-type'', omContentEnc := getKey (oUserDefined opts) ''content-encoding'',
       omUserMeta := stripReserved (oUserDefined opts), omUserTags := oUserTags opts\<rparr>"

definition putTime :: "draws \<Rightarrow> objectOptions \<Rightarrow> time" where
  "putTime dr opts = (if isZero (oMTime opts) then dNow dr else oMTime opts)"

text \<open>From the temporary file to the object; the deferred removal of the temporary file comes last.\<close>

definition commitFile :: "path \<Rightarrow> path \<Rightarrow> disk \<Rightarrow> bool \<times> disk" where
  "commitFile tmp p d =
     (case osMkdirAll (butlast p) d of (False, d1) \<Rightarrow> (False, d1) | (True, d1) \<Rightarrow> osRename tmp p d1)"

definition commitPut ::
  "fenv \<Rightarrow> draws \<Rightarrow> string \<Rightarrow> string \<Rightarrow> objectOptions \<Rightarrow> path \<times> int \<times> string \<times> objMeta option \<Rightarrow> disk \<Rightarrow> (fsErr + objectInfo) \<times> disk" where
  "commitPut fe dr bucket obj opts t d =
     (case t of (tmp, n, md5hex, sm) \<Rightarrow>
        (case commitFile tmp (objDataPath fe bucket obj) d of
           (False, d1) \<Rightarrow> (Inl (FOs OsFail), d1)
         | (True, d1) \<Rightarrow>
             (let m0 = newMeta n (putTime dr opts) md5hex opts in
              case (case sm of
                      None \<Rightarrow> (Inr m0, d1)
                    | Some s \<Rightarrow>
                        (case osStat (objDataPath fe bucket obj) d1 of
                           (Inr (File (Raw b)), d2) \<Rightarrow>
                             (Inr (m0\<lparr>omSize := int (length b), omSSE := omSSE s, omPlainSize := omPlainSize s,
                                      omEncDEK := omEncDEK s, omNoncePrefix := omNoncePrefix s\<rparr>), d2)
                         | (_, d2) \<Rightarrow> (Inl FPanic, d2))) of
                (Inl e, d2) \<Rightarrow> (Inl e, d2)
              | (Inr m, d2) \<Rightarrow>
                  (case writeMetaFile (objMetaPath fe bucket obj) m d2 of (ok, d3) \<Rightarrow>
                     ((if ok then Inr (toObjectInfo m bucket obj) else Inl (FOs OsFail)), d3)))))"

definition withoutTmp :: "path \<Rightarrow> 'r \<times> disk \<Rightarrow> 'r \<times> disk" where
  "withoutTmp tmp rd = (case rd of (r, d) \<Rightarrow> (r, snd (osRemove tmp d)))"

definition fsPrecond :: "fenv \<Rightarrow> string \<Rightarrow> string \<Rightarrow> objectOptions \<Rightarrow> disk \<Rightarrow> bool \<times> disk" where
  "fsPrecond fe bucket obj opts d =
     (case oCheckPrecondFn opts of
        None \<Rightarrow> (False, d)
      | Some fn \<Rightarrow> (case getInfoUnlocked fe bucket obj d of (r, d1) \<Rightarrow> (fn (case r of Inr oi \<Rightarrow> oi | Inl _ \<Rightarrow> noInfo), d1)))"

definition fsPutPlain ::
  "fenv \<Rightarrow> draws \<Rightarrow> string \<Rightarrow> string \<Rightarrow> reader \<Rightarrow> int \<Rightarrow> objectOptions \<Rightarrow> disk \<Rightarrow> (fsErr + objectInfo) \<times> disk" where
  "fsPutPlain fe dr bucket obj data sz opts d =
     (case ensureBucketFs fe bucket d of
        (Some e, d1) \<Rightarrow> (Inl e, d1)
      | (None, d1) \<Rightarrow>
          if \<not> fsValidObjectName obj then (Inl FObjectNameInvalid, d1)
          else case fsPrecond fe bucket obj opts d1 of (bad, d2) \<Rightarrow>
            if bad then (Inl FPreconditionFailed, d2)
            else case checkPathConflicts fe bucket obj d2 of (cf, d3) \<Rightarrow>
              if cf then (Inl FObjectExistsAsDir, d3)
              else if sseRequested fe opts then
                (case encryptToTmp fe dr data sz d3 of
                   (Inl e, d4) \<Rightarrow> (Inl e, d4)
                 | (Inr (tmp, n, md5hex, sm), d4) \<Rightarrow> withoutTmp tmp (commitPut fe dr bucket obj opts (tmp, n, md5hex, Some sm) d4))
              else
                (case copyToTmpAndHash fe (dId1 dr) data sz d3 of
                   (Inl e, d4) \<Rightarrow> (Inl e, d4)
                 | (Inr (tmp, n, md5hex), d4) \<Rightarrow> withoutTmp tmp (commitPut fe dr bucket obj opts (tmp, n, md5hex, None) d4)))"

definition prunePath :: "path \<Rightarrow> path \<Rightarrow> disk \<Rightarrow> disk" where
  "prunePath leaf stop d = d\<lparr>dfs := prune (length stop) leaf (dfs d)\<rparr>"

definition fsDeletePlain :: "fenv \<Rightarrow> string \<Rightarrow> string \<Rightarrow> disk \<Rightarrow> disk" where
  "fsDeletePlain fe bucket obj d =
     (let p = objDataPath fe bucket obj; mp = objMetaPath fe bucket obj;
          d1 = snd (osRemove p d); d2 = snd (osRemove mp d1)
      in prunePath (butlast mp) (metaBucketDir fe bucket) (prunePath (butlast p) (bucketDir fe bucket) d2))"

subsection \<open>The version index (versioning.go)\<close>

definition veLockBlocks :: "time \<Rightarrow> bool \<Rightarrow> verEntry \<Rightarrow> bool" where
  "veLockBlocks now bypassGovernance e =
     (if veLegalHold e then True
      else if isZero (veRetainUntil e) \<or> \<not> now < veRetainUntil e then False
      else if veLockMode e = ''COMPLIANCE'' then True
      else if veLockMode e = ''GOVERNANCE'' then \<not> bypassGovernance
      else False)"

definition verDir :: "fenv \<Rightarrow> string \<Rightarrow> string \<Rightarrow> path" where
  "verDir fe bucket obj = fjoin (feRoot fe) [sysDir, ''objver'', bucket, obj]"

definition verIndexPath :: "fenv \<Rightarrow> string \<Rightarrow> string \<Rightarrow> path" where
  "verIndexPath fe bucket obj = fjoin (verDir fe bucket obj) [''index.json'']"

definition verDataPath :: "fenv \<Rightarrow> string \<Rightarrow> string \<Rightarrow> string \<Rightarrow> path" where
  "verDataPath fe bucket obj vid = fjoin (verDir fe bucket obj) [vid]"

text \<open>\<open>None\<close> is the nil slice of a key that has no index.\<close>

definition readVerIndex :: "fenv \<Rightarrow> string \<Rightarrow> string \<Rightarrow> disk \<Rightarrow> (fsErr + verEntry list option) \<times> disk" where
  "readVerIndex fe bucket obj d =
     (case osReadFile (verIndexPath fe bucket obj) d of
        (Inl OsNotExist, d1) \<Rightarrow> (Inr None, d1)
      | (Inl OsFail, d1) \<Rightarrow> (Inl (FOs OsFail), d1)
      | (Inr (VerDoc idx), d1) \<Rightarrow> (Inr (Some idx), d1)
      | (Inr _, d1) \<Rightarrow> (Inl FJson, d1))"

definition writeVerIndex :: "fenv \<Rightarrow> string \<Rightarrow> string \<Rightarrow> verEntry list \<Rightarrow> disk \<Rightarrow> bool \<times> disk" where
  "writeVerIndex fe bucket obj idx d = writeFileAtomic (verIndexPath fe bucket obj) (VerDoc idx) d"

definition idxOf :: "verEntry list option \<Rightarrow> verEntry list" where
  "idxOf i = (case i of Some idx \<Rightarrow> idx | None \<Rightarrow> [])"

text \<open>The sidecar of a plain object, or what is made up when it cannot be read.\<close>

definition plainMeta :: "fenv \<Rightarrow> string \<Rightarrow> string \<Rightarrow> nat \<Rightarrow> disk \<Rightarrow> (fsErr + objMeta) \<times> disk" where
  "plainMeta fe bucket obj sz d =
     (case readMetaFile (objMetaPath fe bucket obj) d of
        (Inr m, d1) \<Rightarrow> (Inr m, d1)
      | (Inl _, d1) \<Rightarrow>
          (case osOpen (objDataPath fe bucket obj) d1 of
             (Inl e, d2) \<Rightarrow> (Inl (FOs e), d2)
           | (Inr r, d2) \<Rightarrow>
               if rfails r then (Inl (FOs OsFail), d2)
               else (Inr (emptyMeta\<lparr>omSize := int sz, omModTime := feMtime fe (objDataPath fe bucket obj),
                                    omETag := hexEncode (feMd5 fe (rdata r))\<rparr>), d2)))"

definition entryOfMeta :: "objMeta \<Rightarrow> verEntry" where
  "entryOfMeta m =
     \<lparr>veID = nullVersionID, veDeleteMarker = False, veSize = omSize m, veETag = omETag m, veModTime = omModTime m,
      veContentType = omContentType m, veContentEnc = omContentEnc m, veUserMeta = omUserMeta m, veUserTags = omUserTags m,
      veParts = omParts m, veLockMode = [], veRetainUntil = 0, veLegalHold = False\<rparr>"

text \<open>The first operation with versions on a key moves its plain object into the version store.\<close>

definition migrateIfNeeded ::
  "fenv \<Rightarrow> string \<Rightarrow> string \<Rightarrow> verEntry list option \<Rightarrow> disk \<Rightarrow> (fsErr + verEntry list) \<times> disk" where
  "migrateIfNeeded fe bucket obj idx d =
     (case idx of
        Some i \<Rightarrow> (Inr i, d)
      | None \<Rightarrow>
          (case osStat (objDataPath fe bucket obj) d of
             (Inr (File c), d1) \<Rightarrow>
               (case plainMeta fe bucket obj (case c of Raw b \<Rightarrow> length b | _ \<Rightarrow> 0) d1 of
                  (Inl e, d2) \<Rightarrow> (Inl e, d2)
                | (Inr m, d2) \<Rightarrow>
                    (case osMkdirAll (verDir fe bucket obj) d2 of
                       (False, d3) \<Rightarrow> (Inl (FOs OsFail), d3)
                     | (True, d3) \<Rightarrow>
                         (case osRename (objDataPath fe bucket obj) (verDataPath fe bucket obj nullVersionID) d3 of
                            (False, d4) \<Rightarrow> (Inl (FOs OsFail), d4)
                          | (True, d4) \<Rightarrow> (Inr [entryOfMeta m], snd (osRemove (objMetaPath fe bucket obj) d4)))))
           | (_, d1) \<Rightarrow> (Inr [], d1)))"

definition loadIndex :: "fenv \<Rightarrow> string \<Rightarrow> string \<Rightarrow> disk \<Rightarrow> (fsErr + verEntry list) \<times> disk" where
  "loadIndex fe bucket obj d =
     (case readVerIndex fe bucket obj d of
        (Inl e, d1) \<Rightarrow> (Inl e, d1) | (Inr i, d1) \<Rightarrow> migrateIfNeeded fe bucket obj i d1)"

fun removeFirst :: "(verEntry \<Rightarrow> bool) \<Rightarrow> verEntry list \<Rightarrow> verEntry list" where
  "removeFirst P [] = []"
| "removeFirst P (e # es) = (if P e then es else e # removeFirst P es)"

definition replaceOrAppend :: "verEntry list \<Rightarrow> verEntry \<Rightarrow> bool \<Rightarrow> verEntry list" where
  "replaceOrAppend idx e suspended =
     (if suspended then removeFirst (\<lambda>x. veID x = nullVersionID) idx else idx) @ [e]"

definition entryToInfo :: "string \<Rightarrow> string \<Rightarrow> verEntry \<Rightarrow> bool \<Rightarrow> objectInfo" where
  "entryToInfo bucket obj e isLatest =
     \<lparr>iBucket = bucket, iName = obj, iSize = veSize e, iModTime = veModTime e, iETag = veETag e, iContentType = veContentType e,
      iContentEnc = veContentEnc e, iVersionID = veID e, iIsLatest = isLatest, iDeleteMarker = veDeleteMarker e,
      iStorageClass = ''STANDARD'', iUserDefined = setIf ''content-type'' (veContentType e) (veUserMeta e),
      iUserTags = veUserTags e, iParts = partInfos (veParts e)\<rparr>"

definition newEntry :: "string \<Rightarrow> int \<Rightarrow> string \<Rightarrow> time \<Rightarrow> objectOptions \<Rightarrow> verEntry" where
  "newEntry vid n md5hex now opts =
     \<lparr>veID = vid, veDeleteMarker = False, veSize = n, veETag = md5hex, veModTime = now,
      veContentType = getKey (oUserDefined opts) ''content-type'', veContentEnc = getKey (oUserDefined opts) ''content-encoding'',
      veUserMeta = stripReserved (oUserDefined opts), veUserTags = oUserTags opts, veParts = [],
      veLockMode = oLockMode opts, veRetainUntil = oLockRetainUntil opts, veLegalHold = (oLockLegalHold opts = ''ON'')\<rparr>"

text \<open>The data file is put in place before the lock of the version it replaces is looked at.\<close>

definition storeVersion ::
  "fenv \<Rightarrow> draws \<Rightarrow> string \<Rightarrow> string \<Rightarrow> objectOptions \<Rightarrow> verEntry list \<Rightarrow> path \<times> int \<times> string \<Rightarrow> disk \<Rightarrow> (fsErr + objectInfo) \<times> disk" where
  "storeVersion fe dr bucket obj opts idx t d =
     (case t of (tmp, n, md5hex) \<Rightarrow>
        (let vid = (if oVersionSuspended opts then nullVersionID else dVid dr) in
         case osRename tmp (verDataPath fe bucket obj vid) d of
           (False, d1) \<Rightarrow> (Inl (FOs OsFail), d1)
         | (True, d1) \<Rightarrow>
             if oVersionSuspended opts \<and> list_ex (\<lambda>x. veID x = nullVersionID \<and> veLockBlocks (dNow dr) (oBypassGovernance opts) x) idx
             then (Inl FObjectLocked, d1)
             else
               (let e = newEntry vid n md5hex (putTime dr opts) opts in
                case writeVerIndex fe bucket obj (replaceOrAppend idx e (oVersionSuspended opts)) d1 of (ok, d2) \<Rightarrow>
                  ((if ok then Inr (entryToInfo bucket obj e True) else Inl (FOs OsFail)), d2))))"

definition putVersion ::
  "fenv \<Rightarrow> draws \<Rightarrow> string \<Rightarrow> string \<Rightarrow> reader \<Rightarrow> int \<Rightarrow> objectOptions \<Rightarrow> disk \<Rightarrow> (fsErr + objectInfo) \<times> disk" where
  "putVersion fe dr bucket obj data sz opts d =
     (case ensureBucketFs fe bucket d of
        (Some e, d1) \<Rightarrow> (Inl e, d1)
      | (None, d1) \<Rightarrow>
          if \<not> fsValidObjectName obj then (Inl FObjectNameInvalid, d1)
          else case loadIndex fe bucket obj d1 of
            (Inl e, d2) \<Rightarrow> (Inl e, d2)
          | (Inr idx, d2) \<Rightarrow>
              (case osMkdirAll (verDir fe bucket obj) d2 of
                 (False, d3) \<Rightarrow> (Inl (FOs OsFail), d3)
               | (True, d3) \<Rightarrow>
                   (case copyToTmpAndHash fe (dId1 dr) data sz d3 of
                      (Inl e, d4) \<Rightarrow> (Inl e, d4)
                    | (Inr (tmp, n, md5hex), d4) \<Rightarrow> withoutTmp tmp (storeVersion fe dr bucket obj opts idx (tmp, n, md5hex) d4))))"

definition addMarker ::
  "fenv \<Rightarrow> draws \<Rightarrow> string \<Rightarrow> string \<Rightarrow> bool \<Rightarrow> verEntry list \<Rightarrow> disk \<Rightarrow> (fsErr + objectInfo) \<times> disk" where
  "addMarker fe dr bucket obj suspended idx d =
     (let vid = (if suspended then nullVersionID else dVid dr);
          old = (if suspended then find (\<lambda>x. veID x = nullVersionID) idx else None);
          d1 = (case old of
                  Some x \<Rightarrow> if veDeleteMarker x then d else snd (osRemove (verDataPath fe bucket obj nullVersionID) d)
                | None \<Rightarrow> d);
          e = \<lparr>veID = vid, veDeleteMarker = True, veSize = 0, veETag = [], veModTime = dNow dr, veContentType = [], veContentEnc = [],
               veUserMeta = [], veUserTags = [], veParts = [], veLockMode = [], veRetainUntil = 0, veLegalHold = False\<rparr>
      in case writeVerIndex fe bucket obj (replaceOrAppend idx e suspended) d1 of (ok, d2) \<Rightarrow>
           ((if ok then Inr (noInfo\<lparr>iBucket := bucket, iName := obj, iVersionID := vid, iDeleteMarker := True\<rparr>) else Inl (FOs OsFail)), d2))"

definition removeVersion ::
  "fenv \<Rightarrow> draws \<Rightarrow> string \<Rightarrow> string \<Rightarrow> string \<Rightarrow> bool \<Rightarrow> verEntry list \<Rightarrow> disk \<Rightarrow> (fsErr + objectInfo) \<times> disk" where
  "removeVersion fe dr bucket obj vid bypassGovernance idx d =
     (case find (\<lambda>x. veID x = vid) idx of
        None \<Rightarrow> (Inl FObjectNotFound, d)
      | Some x \<Rightarrow>
          if veLockBlocks (dNow dr) bypassGovernance x then (Inl FObjectLocked, d)
          else
            (let d1 = (if veDeleteMarker x then d else snd (osRemove (verDataPath fe bucket obj vid) d));
                 rest = removeFirst (\<lambda>y. veID y = vid) idx;
                 oi = noInfo\<lparr>iBucket := bucket, iName := obj, iVersionID := vid\<rparr>
             in if rest = []
                then (Inr oi, prunePath (butlast (verDir fe bucket obj)) (fjoin (feRoot fe) [sysDir, ''objver'', bucket])
                                (snd (osRemoveAll (verDir fe bucket obj) d1)))
                else case writeVerIndex fe bucket obj rest d1 of (ok, d2) \<Rightarrow>
                  ((if ok then Inr oi else Inl (FOs OsFail)), d2)))"

definition fsDeleteVersion ::
  "fenv \<Rightarrow> draws \<Rightarrow> string \<Rightarrow> string \<Rightarrow> string \<Rightarrow> bool \<Rightarrow> bool \<Rightarrow> disk \<Rightarrow> (fsErr + objectInfo) \<times> disk" where
  "fsDeleteVersion fe dr bucket obj vid suspended bypassGovernance d =
     (case loadIndex fe bucket obj d of
        (Inl e, d1) \<Rightarrow> (Inl e, d1)
      | (Inr idx, d1) \<Rightarrow>
          if vid = [] then addMarker fe dr bucket obj suspended idx d1
          else removeVersion fe dr bucket obj vid bypassGovernance idx d1)"

definition latestOrByID :: "verEntry list \<Rightarrow> string \<Rightarrow> verEntry option" where
  "latestOrByID idx vid =
     (if vid \<noteq> [] then find (\<lambda>e. veID e = vid) idx else if idx = [] then None else Some (last idx))"

text \<open>\<open>None\<close> as the entry of the result: an object that has no index yet.\<close>

definition getVersionInfo ::
  "fenv \<Rightarrow> string \<Rightarrow> string \<Rightarrow> string \<Rightarrow> disk \<Rightarrow> (fsErr + (objectInfo \<times> verEntry option)) \<times> disk" where
  "getVersionInfo fe bucket obj vid d =
     (case readVerIndex fe bucket obj d of
        (Inl e, d1) \<Rightarrow> (Inl e, d1)
      | (Inr i, d1) \<Rightarrow>
          (let idx = idxOf i in
           if idx = [] then
             (case getInfoUnlocked fe bucket obj d1 of
                (Inr oi, d2) \<Rightarrow> ((if vid = [] then Inr (oi, None) else Inl FObjectNotFound), d2)
              | (Inl _, d2) \<Rightarrow> (Inl FObjectNotFound, d2))
           else case latestOrByID idx vid of
             None \<Rightarrow> (Inl FObjectNotFound, d1)
           | Some e \<Rightarrow>
               if veDeleteMarker e then (Inl FObjectNotFound, d1)
               else (Inr (entryToInfo bucket obj e (vid = [] \<or> veID e = veID (last idx)), Some e), d1)))"

definition openVersionData :: "fenv \<Rightarrow> string \<Rightarrow> string \<Rightarrow> string \<Rightarrow> verEntry option \<Rightarrow> disk \<Rightarrow> (osErr + reader) \<times> disk" where
  "openVersionData fe bucket obj vid e d =
     (let i = (if vid \<noteq> [] then vid else case e of Some x \<Rightarrow> veID x | None \<Rightarrow> []) in
      osOpen (if i = [] then objDataPath fe bucket obj else verDataPath fe bucket obj i) d)"

end
