(* ===== verification/FsOps.thy ===== *)
theory FsOps
  imports FsObject Multipart
begin

text \<open>
  The operations of the single-disk backend as the object layer offers them: objects, copies, object lock, tags, listings and
  multipart uploads (\<open>internal/object/fs/object.go\<close>, \<open>objectlock.go\<close>, \<open>tags.go\<close>, \<open>list.go\<close>, \<open>multipart.go\<close>).
\<close>

subsection \<open>Objects\<close>

definition fsPutObject ::
  "fenv \<Rightarrow> draws \<Rightarrow> string \<Rightarrow> string \<Rightarrow> reader \<Rightarrow> int \<Rightarrow> objectOptions \<Rightarrow> disk \<Rightarrow> (fsErr + objectInfo) \<times> disk" where
  "fsPutObject fe dr bucket obj data sz opts d =
     (if oVersioned opts \<or> oVersionSuspended opts then putVersion fe dr bucket obj data sz opts d
      else fsPutPlain fe dr bucket obj data sz opts d)"

definition wantsVersion :: "objectOptions \<Rightarrow> bool" where
  "wantsVersion opts \<longleftrightarrow> oVersioned opts \<or> oVersionSuspended opts \<or> oVersionID opts \<noteq> []"

definition fsGetObjectInfo :: "fenv \<Rightarrow> string \<Rightarrow> string \<Rightarrow> objectOptions \<Rightarrow> disk \<Rightarrow> (fsErr + objectInfo) \<times> disk" where
  "fsGetObjectInfo fe bucket obj opts d =
     (case ensureBucketFs fe bucket d of
        (Some e, d1) \<Rightarrow> (Inl e, d1)
      | (None, d1) \<Rightarrow>
          if wantsVersion opts then
            (case getVersionInfo fe bucket obj (oVersionID opts) d1 of
               (Inr (oi, _), d2) \<Rightarrow> (Inr oi, d2)
             | (Inl e, d2) \<Rightarrow> if e \<noteq> FObjectNotFound then (Inl e, d2) else getInfoUnlocked fe bucket obj d2)
          else getInfoUnlocked fe bucket obj d1)"

text \<open>What a read finds: the description, the entry of the version, and whether it is read as a version.\<close>

definition findForRead ::
  "fenv \<Rightarrow> string \<Rightarrow> string \<Rightarrow> objectOptions \<Rightarrow> disk \<Rightarrow> (fsErr + (objectInfo \<times> verEntry option \<times> bool)) \<times> disk" where
  "findForRead fe bucket obj opts d =
     (if wantsVersion opts then
        (case getVersionInfo fe bucket obj (oVersionID opts) d of
           (Inr (oi, e), d1) \<Rightarrow> (Inr (oi, e, True), d1)
         | (Inl er, d1) \<Rightarrow>
             if er \<noteq> FObjectNotFound then (Inl er, d1)
             else (case getInfoUnlocked fe bucket obj d1 of
                     (Inr oi, d2) \<Rightarrow> (Inr (oi, None, False), d2) | (Inl e2, d2) \<Rightarrow> (Inl e2, d2)))
      else
        (case getInfoUnlocked fe bucket obj d of
           (Inr oi, d1) \<Rightarrow> (Inr (oi, None, False), d1) | (Inl e, d1) \<Rightarrow> (Inl e, d1)))"

definition rangeOf :: "rangeSpec option \<Rightarrow> int \<Rightarrow> (int \<times> int) option" where
  "rangeOf rs sz = (case rs of None \<Rightarrow> Some (0, sz) | Some r \<Rightarrow> (case resolveRange r sz of Inr x \<Rightarrow> Some x | Inl _ \<Rightarrow> None))"

type_synonym fsGetResult = "fsErr + (objectInfo \<times> bytes \<times> streamErr option)"

definition servePlain ::
  "fenv \<Rightarrow> string \<Rightarrow> string \<Rightarrow> string \<Rightarrow> rangeSpec option \<Rightarrow> objectInfo \<Rightarrow> verEntry option \<Rightarrow> bool \<Rightarrow> disk \<Rightarrow> fsGetResult \<times> disk" where
  "servePlain fe bucket obj vid rs oi e versioned d =
     (case (if versioned then openVersionData fe bucket obj vid e d else osOpen (objDataPath fe bucket obj) d) of
        (Inl er, d1) \<Rightarrow> (Inl (FOs er), d1)
      | (Inr r, d1) \<Rightarrow>
          (case rangeOf rs (iSize oi) of
             None \<Rightarrow> (Inl FInvalidRange, d1)
           | Some (start, len) \<Rightarrow>
               (Inr (if rs = None then oi else oi\<lparr>iSize := len\<rparr>, take (nat len) (drop (nat start) (rdata r)),
                     if rfails r then Some Truncated else None), d1)))"

definition serveEncrypted ::
  "fenv \<Rightarrow> string \<Rightarrow> string \<Rightarrow> rangeSpec option \<Rightarrow> objectInfo \<Rightarrow> objMeta \<Rightarrow> disk \<Rightarrow> fsGetResult \<times> disk" where
  "serveEncrypted fe bucket obj rs oi m d =
     (case rangeOf rs (iSize oi) of
        None \<Rightarrow> (Inl FInvalidRange, d)
      | Some (start, len) \<Rightarrow>
          (case openDecrypting fe (objDataPath fe bucket obj) m start len d of
             (Inl e, d1) \<Rightarrow> (Inl e, d1)
           | (Inr (out, er), d1) \<Rightarrow> (Inr (if rs = None then oi else oi\<lparr>iSize := len\<rparr>, out, er), d1)))"

definition fsGetObjectNInfo ::
  "fenv \<Rightarrow> string \<Rightarrow> string \<Rightarrow> rangeSpec option \<Rightarrow> objectOptions \<Rightarrow> disk \<Rightarrow> fsGetResult \<times> disk" where
  "fsGetObjectNInfo fe bucket obj rs opts d =
     (case ensureBucketFs fe bucket d of
        (Some e, d1) \<Rightarrow> (Inl e, d1)
      | (None, d1) \<Rightarrow>
          (case findForRead fe bucket obj opts d1 of
             (Inl e, d2) \<Rightarrow> (Inl e, d2)
           | (Inr (oi, e, versioned), d2) \<Rightarrow>
               if (case oCheckPrecondFn opts of Some fn \<Rightarrow> fn oi | None \<Rightarrow> False) then (Inl FPreconditionFailed, d2)
               else if versioned then servePlain fe bucket obj (oVersionID opts) rs oi e True d2
               else case readMetaFile (objMetaPath fe bucket obj) d2 of
                 (Inr m, d3) \<Rightarrow>
                   if omSSE m \<noteq> [] then serveEncrypted fe bucket obj rs oi m d3
                   else servePlain fe bucket obj (oVersionID opts) rs oi e False d3
               | (Inl _, d3) \<Rightarrow> servePlain fe bucket obj (oVersionID opts) rs oi e False d3))"

definition fsDeleteObject ::
  "fenv \<Rightarrow> draws \<Rightarrow> string \<Rightarrow> string \<Rightarrow> objectOptions \<Rightarrow> disk \<Rightarrow> (fsErr + objectInfo) \<times> disk" where
  "fsDeleteObject fe dr bucket obj opts d =
     (case ensureBucketFs fe bucket d of
        (Some e, d1) \<Rightarrow> (Inl e, d1)
      | (None, d1) \<Rightarrow>
          if wantsVersion opts
          then fsDeleteVersion fe dr bucket obj (oVersionID opts) (oVersionSuspended opts) (oBypassGovernance opts) d1
          else (Inr (noInfo\<lparr>iBucket := bucket, iName := obj\<rparr>), fsDeletePlain fe bucket obj d1))"

text \<open>The deletes of a batch run concurrently; they are taken in order.\<close>

fun fsDeleteObjects ::
  "fenv \<Rightarrow> (nat \<Rightarrow> draws) \<Rightarrow> string \<Rightarrow> string list \<Rightarrow> objectOptions \<Rightarrow> disk \<Rightarrow> (fsErr + objectInfo) list \<times> disk" where
  "fsDeleteObjects fe drs bucket [] opts d = ([], d)"
| "fsDeleteObjects fe drs bucket (k # ks) opts d =
     (case fsDeleteObject fe (drs 0) bucket k opts d of (r, d1) \<Rightarrow>
        (case fsDeleteObjects fe (\<lambda>n. drs (Suc n)) bucket ks opts d1 of (rs, d2) \<Rightarrow> (r # rs, d2)))"

subsection \<open>Copies\<close>

definition replaces :: "objectOptions \<Rightarrow> bool" where
  "replaces opts \<longleftrightarrow> toLower (getKey (oUserDefined opts) ''x-amz-metadata-directive'') = ''replace''
     \<or> getKey (oUserDefined opts) ''_directive'' = ''REPLACE''"

definition copyVersion ::
  "fenv \<Rightarrow> draws \<Rightarrow> string \<Rightarrow> string \<Rightarrow> string \<Rightarrow> string \<Rightarrow> objectOptions \<Rightarrow> objectOptions \<Rightarrow> disk \<Rightarrow> (fsErr + objectInfo) \<times> disk" where
  "copyVersion fe dr sb so db dob srcOpts dstOpts d =
     (case fsGetObjectNInfo fe sb so None (noOptions\<lparr>oVersionID := oVersionID srcOpts\<rparr>) d of
        (Inl e, d1) \<Rightarrow> (Inl e, d1)
      | (Inr (oi, body, er), d1) \<Rightarrow>
          if er \<noteq> None then (Inl FReader, d1)
          else fsPutObject fe dr db dob \<lparr>rdata = body, rfails = False\<rparr> (int (length body))
                 (noOptions\<lparr>oUserDefined := iUserDefined oi, oUserTags := oUserTags dstOpts, oVersioned := oVersioned dstOpts,
                            oVersionSuspended := oVersionSuspended dstOpts\<rparr>) d1)"

definition replaceMeta ::
  "fenv \<Rightarrow> draws \<Rightarrow> string \<Rightarrow> string \<Rightarrow> objectOptions \<Rightarrow> disk \<Rightarrow> (fsErr + objectInfo) \<times> disk" where
  "replaceMeta fe dr bucket obj dstOpts d =
     (case readMetaFile (objMetaPath fe bucket obj) d of
        (Inl e, d1) \<Rightarrow> (Inl e, d1)
      | (Inr m0, d1) \<Rightarrow>
          (let m = m0\<lparr>omModTime := dNow dr, omContentType := getKey (oUserDefined dstOpts) ''content-type'',
                      omContentEnc := getKey (oUserDefined dstOpts) ''content-encoding'',
                      omUserMeta := stripReserved (oUserDefined dstOpts),
                      omUserTags := (if oUserTags dstOpts \<noteq> [] then oUserTags dstOpts else omUserTags m0)\<rparr>
           in case writeMetaFile (objMetaPath fe bucket obj) m d1 of (ok, d2) \<Rightarrow>
                ((if ok then Inr (toObjectInfo m bucket obj) else Inl (FOs OsFail)), d2)))"

definition copyPlain ::
  "fenv \<Rightarrow> draws \<Rightarrow> string \<Rightarrow> string \<Rightarrow> string \<Rightarrow> string \<Rightarrow> objectOptions \<Rightarrow> disk \<Rightarrow> (fsErr + objectInfo) \<times> disk" where
  "copyPlain fe dr sb so db dob dstOpts d =
     (case getInfoUnlocked fe sb so d of
        (Inl e, d1) \<Rightarrow> (Inl e, d1)
      | (Inr src, d1) \<Rightarrow>
          if sb = db \<and> so = dob then
            (if replaces dstOpts then replaceMeta fe dr sb so dstOpts d1 else (Inr src, d1))
          else case osOpen (objDataPath fe sb so) d1 of
            (Inl e, d2) \<Rightarrow> (Inl (FOs e), d2)
          | (Inr r, d2) \<Rightarrow>
              fsPutObject fe dr db dob r (iSize src)
                (noOptions\<lparr>oUserDefined := (if replaces dstOpts then oUserDefined dstOpts else iUserDefined src),
                           oUserTags := oUserTags dstOpts\<rparr>) d2)"

definition fsCopyObject ::
  "fenv \<Rightarrow> draws \<Rightarrow> string \<Rightarrow> string \<Rightarrow> string \<Rightarrow> string \<Rightarrow> objectOptions \<Rightarrow> objectOptions \<Rightarrow> disk \<Rightarrow> (fsErr + objectInfo) \<times> disk" where
  "fsCopyObject fe dr sb so db dob srcOpts dstOpts d =
     (case ensureBucketFs fe sb d of
        (Some e, d1) \<Rightarrow> (Inl e, d1)
      | (None, d1) \<Rightarrow>
          (case ensureBucketFs fe db d1 of
             (Some e, d2) \<Rightarrow> (Inl e, d2)
           | (None, d2) \<Rightarrow>
               if oVersionID srcOpts \<noteq> [] \<or> oVersioned dstOpts \<or> oVersionSuspended dstOpts
               then copyVersion fe dr sb so db dob srcOpts dstOpts d2
               else copyPlain fe dr sb so db dob dstOpts d2))"

subsection \<open>Object lock (objectlock.go)\<close>

fun findIndex :: "('a \<Rightarrow> bool) \<Rightarrow> 'a list \<Rightarrow> nat option" where
  "findIndex P [] = None"
| "findIndex P (x # xs) = (if P x then Some 0 else map_option Suc (findIndex P xs))"

definition findVersionEntry ::
  "fenv \<Rightarrow> string \<Rightarrow> string \<Rightarrow> string \<Rightarrow> disk \<Rightarrow> (fsErr + (nat \<times> verEntry list)) \<times> disk" where
  "findVersionEntry fe bucket obj vid d =
     (case readVerIndex fe bucket obj d of
        (Inl e, d1) \<Rightarrow> (Inl e, d1)
      | (Inr i, d1) \<Rightarrow>
          (let idx = idxOf i in
           ((if idx = [] then Inl FNotVersioned
             else if vid = [] then Inr (length idx - 1, idx)
             else case findIndex (\<lambda>e. veID e = vid) idx of Some k \<Rightarrow> Inr (k, idx) | None \<Rightarrow> Inl FObjectNotFound), d1)))"

definition retentionBlocked :: "time \<Rightarrow> verEntry \<Rightarrow> string \<Rightarrow> time \<Rightarrow> bool \<Rightarrow> bool" where
  "retentionBlocked now cur mode until bypass =
     (let active = (\<not> isZero (veRetainUntil cur) \<and> now < veRetainUntil cur) in
      (veLockMode cur = ''COMPLIANCE'' \<and> active \<and> (mode \<noteq> ''COMPLIANCE'' \<or> until < veRetainUntil cur))
      \<or> (veLockMode cur = ''GOVERNANCE'' \<and> active \<and> (mode = [] \<or> until < veRetainUntil cur) \<and> \<not> bypass))"

definition fsPutObjectRetention ::
  "fenv \<Rightarrow> time \<Rightarrow> string \<Rightarrow> string \<Rightarrow> string \<Rightarrow> string \<Rightarrow> time \<Rightarrow> bool \<Rightarrow> disk \<Rightarrow> fsErr option \<times> disk" where
  "fsPutObjectRetention fe now bucket obj vid mode until bypass d =
     (case findVersionEntry fe bucket obj vid d of
        (Inl e, d1) \<Rightarrow> (Some e, d1)
      | (Inr (i, idx), d1) \<Rightarrow>
          if retentionBlocked now (idx ! i) mode until bypass then (Some FObjectLocked, d1)
          else case writeVerIndex fe bucket obj (idx[i := (idx ! i)\<lparr>veLockMode := mode, veRetainUntil := until\<rparr>]) d1 of
            (ok, d2) \<Rightarrow> ((if ok then None else Some (FOs OsFail)), d2))"

definition fsGetObjectRetention :: "fenv \<Rightarrow> string \<Rightarrow> string \<Rightarrow> string \<Rightarrow> disk \<Rightarrow> (fsErr + (string \<times> time)) \<times> disk" where
  "fsGetObjectRetention fe bucket obj vid d =
     (case findVersionEntry fe bucket obj vid d of
        (Inl e, d1) \<Rightarrow> (Inl e, d1) | (Inr (i, idx), d1) \<Rightarrow> (Inr (veLockMode (idx ! i), veRetainUntil (idx ! i)), d1))"

definition fsPutObjectLegalHold :: "fenv \<Rightarrow> string \<Rightarrow> string \<Rightarrow> string \<Rightarrow> string \<Rightarrow> disk \<Rightarrow> fsErr option \<times> disk" where
  "fsPutObjectLegalHold fe bucket obj vid status d =
     (case findVersionEntry fe bucket obj vid d of
        (Inl e, d1) \<Rightarrow> (Some e, d1)
      | (Inr (i, idx), d1) \<Rightarrow>
          (case writeVerIndex fe bucket obj (idx[i := (idx ! i)\<lparr>veLegalHold := (status = ''ON'')\<rparr>]) d1 of
             (ok, d2) \<Rightarrow> ((if ok then None else Some (FOs OsFail)), d2)))"

definition fsGetObjectLegalHold :: "fenv \<Rightarrow> string \<Rightarrow> string \<Rightarrow> string \<Rightarrow> disk \<Rightarrow> (fsErr + string) \<times> disk" where
  "fsGetObjectLegalHold fe bucket obj vid d =
     (case findVersionEntry fe bucket obj vid d of
        (Inl e, d1) \<Rightarrow> (Inl e, d1) | (Inr (i, idx), d1) \<Rightarrow> (Inr (if veLegalHold (idx ! i) then ''ON'' else ''OFF''), d1))"

subsection \<open>Tags (tags.go)\<close>

definition fsPutObjectTags :: "fenv \<Rightarrow> time \<Rightarrow> string \<Rightarrow> string \<Rightarrow> string \<Rightarrow> disk \<Rightarrow> (fsErr + objectInfo) \<times> disk" where
  "fsPutObjectTags fe now bucket obj tags d =
     (case ensureBucketFs fe bucket d of
        (Some e, d1) \<Rightarrow> (Inl e, d1)
      | (None, d1) \<Rightarrow>
          (case osStat (objDataPath fe bucket obj) d1 of
             (Inl _, d2) \<Rightarrow> (Inl FObjectNotFound, d2)
           | (Inr _, d2) \<Rightarrow>
               (case (case readMetaFile (objMetaPath fe bucket obj) d2 of
                        (Inr m, d3) \<Rightarrow> (Inr m, d3)
                      | (Inl e, d3) \<Rightarrow>
                          if e \<noteq> FOs OsNotExist then (Inl e, d3)
                          else case osStat (objDataPath fe bucket obj) d3 of
                            (Inl _, d4) \<Rightarrow> (Inl FPanic, d4)
                          | (Inr nd, d4) \<Rightarrow>
                              (Inr (emptyMeta\<lparr>omSize := (case nd of File (Raw b) \<Rightarrow> int (length b) | _ \<Rightarrow> 0),
                                              omModTime := feMtime fe (objDataPath fe bucket obj)\<rparr>), d4)) of
                  (Inl e, d3) \<Rightarrow> (Inl e, d3)
                | (Inr m0, d3) \<Rightarrow>
                    (let m = m0\<lparr>omUserTags := tags, omModTime := now\<rparr> in
                     case writeMetaFile (objMetaPath fe bucket obj) m d3 of (ok, d4) \<Rightarrow>
                       ((if ok then Inr (toObjectInfo m bucket obj) else Inl (FOs OsFail)), d4)))))"

definition fsGetObjectTags :: "fenv \<Rightarrow> string \<Rightarrow> string \<Rightarrow> disk \<Rightarrow> (fsErr + string) \<times> disk" where
  "fsGetObjectTags fe bucket obj d =
     (case getInfoUnlocked fe bucket obj d of (Inl e, d1) \<Rightarrow> (Inl e, d1) | (Inr oi, d1) \<Rightarrow> (Inr (iUserTags oi), d1))"

definition fsDeleteObjectTags :: "fenv \<Rightarrow> time \<Rightarrow> string \<Rightarrow> string \<Rightarrow> disk \<Rightarrow> fsErr option \<times> disk" where
  "fsDeleteObjectTags fe now bucket obj d =
     (case fsPutObjectTags fe now bucket obj [] d of (r, d1) \<Rightarrow> ((case r of Inl e \<Rightarrow> Some e | Inr _ \<Rightarrow> None), d1))"

end
