(* ===== verification/ObjLayer.thy ===== *)
theory ObjLayer
  imports Router Multipart FsOps
begin

text \<open>
  The object layer as the handlers of the S3 interface see it (\<open>internal/object/layer.go\<close>, \<open>object/errors.go\<close>), with both backends as
  instances, and the way from an error to the code and status a client sees (\<open>internal/api/apierr.go\<close>, \<open>errors.go\<close>).
\<close>

subsection \<open>Errors\<close>

text \<open>
  The sentinels of \<open>object/errors.go\<close> that \<open>errors.Is\<close> finds in an error. \<open>LBody\<close> is an error of the request's own body, handed on by the
  backend that read it; \<open>LOther\<close> everything without a sentinel the interface knows.
\<close>

datatype layerErr = LNotImplemented | LBucketNotFound | LBucketExists | LBucketNotEmpty | LBucketNameInvalid | LObjectNotFound
  | LObjectNameInvalid | LObjectExistsAsDir | LPreconditionFailed | LInvalidRange | LIncompleteBody | LEntityTooLarge | LInvalidUploadID
  | LInvalidPart | LPartTooSmall | LInvalidPartOrder | LObjectLocked | LNotVersioned | LStorageFull | LBody | LOther

fun toAPIError :: "layerErr \<Rightarrow> apiCode" where
  "toAPIError LBucketNotFound = ErrNoSuchBucket"
| "toAPIError LBucketExists = ErrBucketAlreadyOwnedByYou"
| "toAPIError LBucketNotEmpty = apiCode.ErrBucketNotEmpty"
| "toAPIError LBucketNameInvalid = ErrInvalidBucketName"
| "toAPIError LObjectNotFound = ErrNoSuchKey"
| "toAPIError LObjectNameInvalid = AuthErr ErrInvalidArgument"
| "toAPIError LObjectExistsAsDir = AuthErr ErrInvalidArgument"
| "toAPIError LPreconditionFailed = ErrPreconditionFailed"
| "toAPIError LInvalidRange = ErrInvalidRange"
| "toAPIError LIncompleteBody = ErrIncompleteBody"
| "toAPIError LEntityTooLarge = ErrEntityTooLarge"
| "toAPIError LInvalidUploadID = ErrNoSuchUpload"
| "toAPIError LInvalidPart = ErrInvalidPart"
| "toAPIError LInvalidPartOrder = ErrInvalidPartOrder"
| "toAPIError LPartTooSmall = ErrEntityTooSmall"
| "toAPIError LObjectLocked = ErrObjectLockConflict"
| "toAPIError LNotVersioned = ErrInvalidBucketState"
| "toAPIError LNotImplemented = ErrNotImplemented"
| "toAPIError LStorageFull = ErrSlowDown"
| "toAPIError LBody = ErrInternalError"
| "toAPIError LOther = ErrInternalError"

text \<open>The code and the status of the answer; the description is left out.\<close>

fun GetAPIError :: "apiCode \<Rightarrow> string \<times> nat" where
  "GetAPIError ErrAccessDenied = (''AccessDenied'', 403)"
| "GetAPIError ErrBadDigest = (''BadDigest'', 400)"
| "GetAPIError ErrEntityTooSmall = (''EntityTooSmall'', 400)"
| "GetAPIError ErrEntityTooLarge = (''EntityTooLarge'', 400)"
| "GetAPIError ErrIncompleteBody = (''IncompleteBody'', 400)"
| "GetAPIError ErrInternalError = (''InternalError'', 500)"
| "GetAPIError ErrInvalidBucketName = (''InvalidBucketName'', 400)"
| "GetAPIError ErrInvalidDigest = (''InvalidDigest'', 400)"
| "GetAPIError ErrInvalidRange = (''InvalidRange'', 416)"
| "GetAPIError ErrInvalidMaxKeys = (''InvalidArgument'', 400)"
| "GetAPIError ErrInvalidPart = (''InvalidPart'', 400)"
| "GetAPIError ErrInvalidPartOrder = (''InvalidPartOrder'', 400)"
| "GetAPIError ErrInvalidRequest = (''InvalidRequest'', 400)"
| "GetAPIError ErrMalformedXML = (''MalformedXML'', 400)"
| "GetAPIError ErrMissingContentLength = (''MissingContentLength'', 411)"
| "GetAPIError ErrMissingRequestBodyError = (''MissingRequestBodyError'', 411)"
| "GetAPIError ErrNoSuchBucket = (''NoSuchBucket'', 404)"
| "GetAPIError ErrNoSuchKey = (''NoSuchKey'', 404)"
| "GetAPIError ErrNoSuchUpload = (''NoSuchUpload'', 404)"
| "GetAPIError ErrNotImplemented = (''NotImplemented'', 501)"
| "GetAPIError ErrPreconditionFailed = (''PreconditionFailed'', 412)"
| "GetAPIError ErrMethodNotAllowed = (''MethodNotAllowed'', 405)"
| "GetAPIError apiCode.ErrBucketNotEmpty = (''BucketNotEmpty'', 409)"
| "GetAPIError ErrBucketAlreadyOwnedByYou = (''BucketAlreadyOwnedByYou'', 409)"
| "GetAPIError ErrBucketAlreadyExists = (''BucketAlreadyExists'', 409)"
| "GetAPIError ErrMissingSecurityHeader = (''MissingSecurityHeader'', 400)"
| "GetAPIError ErrSlowDown = (''SlowDown'', 503)"
| "GetAPIError ErrNoSuchBucketPolicy = (''NoSuchBucketPolicy'', 404)"
| "GetAPIError ErrNoSuchCORSConfiguration = (''NoSuchCORSConfiguration'', 404)"
| "GetAPIError ErrNoSuchTagSet = (''NoSuchTagSet'', 404)"
| "GetAPIError ErrNoSuchObjectLockConfiguration = (''ObjectLockConfigurationNotFoundError'', 404)"
| "GetAPIError ErrObjectLockConflict = (''AccessDenied'', 403)"
| "GetAPIError ErrInvalidBucketState = (''InvalidBucketState'', 409)"
| "GetAPIError ErrNoSuchLifecycleConfiguration = (''NoSuchLifecycleConfiguration'', 404)"
| "GetAPIError ErrQuotaExceeded = (''QuotaExceeded'', 403)"
| "GetAPIError ErrMalformedPOSTRequest = (''MalformedPOSTRequest'', 400)"
| "GetAPIError ErrInvalidPolicyDocument = (''InvalidPolicyDocument'', 403)"
| "GetAPIError ErrNoSuchWebsiteConfiguration = (''NoSuchWebsiteConfiguration'', 404)"
| "GetAPIError ErrInvalidWriteOffset = (''InvalidWriteOffset'', 409)"
| "GetAPIError ErrServerReadOnly = (''ServerReadOnly'', 503)"
| "GetAPIError ErrBusy = (''SlowDown'', 503)"
| "GetAPIError (AuthErr ErrNone) = (''InternalError'', 500)"
| "GetAPIError (AuthErr ErrAuthHeaderEmpty) = (''InvalidArgument'', 400)"
| "GetAPIError (AuthErr ErrInvalidAccessKeyID) = (''InvalidAccessKeyId'', 403)"
| "GetAPIError (AuthErr ErrMissingDateHeader) = (''AccessDenied'', 403)"
| "GetAPIError (AuthErr ErrRequestTimeTooSkewed) = (''RequestTimeTooSkewed'', 403)"
| "GetAPIError (AuthErr ErrSignatureDoesNotMatch) = (''SignatureDoesNotMatch'', 403)"
| "GetAPIError (AuthErr ErrUnsupportedSignatureVersion) = (''InvalidRequest'', 400)"
| "GetAPIError (AuthErr ErrInvalidArgument) = (''InvalidArgument'', 400)"

text \<open>Which sentinel an error of a backend carries.\<close>

fun poolSentinel :: "objErr \<Rightarrow> layerErr" where
  "poolSentinel (OBucketNotFound b) = LBucketNotFound"
| "poolSentinel (OBucketExists b) = LBucketExists"
| "poolSentinel OBucketNotEmpty = LBucketNotEmpty"
| "poolSentinel OBucketNameInvalid = LBucketNameInvalid"
| "poolSentinel OObjectNotFound = LObjectNotFound"
| "poolSentinel OObjectNameInvalid = LObjectNameInvalid"
| "poolSentinel OPreconditionFailed = LPreconditionFailed"
| "poolSentinel OInvalidRange = LInvalidRange"
| "poolSentinel OObjectLocked = LObjectLocked"
| "poolSentinel ONotVersioned = LNotVersioned"
| "poolSentinel OInvalidUploadID = LInvalidUploadID"
| "poolSentinel OInvalidPart = LInvalidPart"
| "poolSentinel OPartTooSmall = LPartTooSmall"
| "poolSentinel OInvalidPartOrder = LInvalidPartOrder"
| "poolSentinel (OSet e) = (if e = EReader then LBody else LOther)"
| "poolSentinel _ = LOther"

fun fsSentinel :: "fsErr \<Rightarrow> layerErr" where
  "fsSentinel (FBucketNotFound b) = LBucketNotFound"
| "fsSentinel (FBucketExists b) = LBucketExists"
| "fsSentinel FBucketNotEmpty = LBucketNotEmpty"
| "fsSentinel FBucketNameInvalid = LBucketNameInvalid"
| "fsSentinel FObjectNotFound = LObjectNotFound"
| "fsSentinel FObjectNameInvalid = LObjectNameInvalid"
| "fsSentinel FObjectExistsAsDir = LObjectExistsAsDir"
| "fsSentinel FPreconditionFailed = LPreconditionFailed"
| "fsSentinel FInvalidRange = LInvalidRange"
| "fsSentinel FIncompleteBody = LIncompleteBody"
| "fsSentinel FObjectLocked = LObjectLocked"
| "fsSentinel FNotVersioned = LNotVersioned"
| "fsSentinel FInvalidUploadID = LInvalidUploadID"
| "fsSentinel FInvalidPart = LInvalidPart"
| "fsSentinel FInvalidPartOrder = LInvalidPartOrder"
| "fsSentinel FPartTooSmall = LPartTooSmall"
| "fsSentinel FReader = LBody"
| "fsSentinel _ = LOther"

subsection \<open>The interface\<close>

text \<open>
  The operations of \<open>object.Layer\<close> the modelled handlers call. Every call gets the draws of its request. A read returns the
  description, the bytes and how the stream ended. No backend returns a description together with an error.
\<close>

record 's olayer =
  olPut :: "draws \<Rightarrow> string \<Rightarrow> string \<Rightarrow> reader \<Rightarrow> int \<Rightarrow> objectOptions \<Rightarrow> 's \<Rightarrow> (layerErr + objectInfo) \<times> 's"
  olInfo :: "draws \<Rightarrow> string \<Rightarrow> string \<Rightarrow> objectOptions \<Rightarrow> 's \<Rightarrow> (layerErr + objectInfo) \<times> 's"
  olGet :: "draws \<Rightarrow> string \<Rightarrow> string \<Rightarrow> rangeSpec option \<Rightarrow> objectOptions \<Rightarrow> 's \<Rightarrow> (layerErr + (objectInfo \<times> bytes \<times> streamErr option)) \<times> 's"
  olDelete :: "draws \<Rightarrow> string \<Rightarrow> string \<Rightarrow> objectOptions \<Rightarrow> 's \<Rightarrow> (layerErr + objectInfo) \<times> 's"
  olCopy :: "draws \<Rightarrow> string \<Rightarrow> string \<Rightarrow> string \<Rightarrow> string \<Rightarrow> objectOptions \<Rightarrow> objectOptions \<Rightarrow> 's \<Rightarrow> (layerErr + objectInfo) \<times> 's"
  olPutRetention :: "draws \<Rightarrow> string \<Rightarrow> string \<Rightarrow> string \<Rightarrow> string \<Rightarrow> time \<Rightarrow> bool \<Rightarrow> 's \<Rightarrow> layerErr option \<times> 's"
  olGetRetention :: "string \<Rightarrow> string \<Rightarrow> string \<Rightarrow> 's \<Rightarrow> (layerErr + (string \<times> time)) \<times> 's"
  olPutHold :: "string \<Rightarrow> string \<Rightarrow> string \<Rightarrow> string \<Rightarrow> 's \<Rightarrow> layerErr option \<times> 's"
  olGetHold :: "string \<Rightarrow> string \<Rightarrow> string \<Rightarrow> 's \<Rightarrow> (layerErr + string) \<times> 's"

definition mapFst :: "('a \<Rightarrow> 'b) \<Rightarrow> 'a \<times> 's \<Rightarrow> 'b \<times> 's" where
  "mapFst f p = (f (fst p), snd p)"

definition sentinels :: "('e \<Rightarrow> layerErr) \<Rightarrow> ('e + 'a) \<times> 's \<Rightarrow> (layerErr + 'a) \<times> 's" where
  "sentinels f = mapFst (map_sum f id)"

definition poolLayer :: "penv \<Rightarrow> pool olayer" where
  "poolLayer pe =
     \<lparr>olPut = (\<lambda>dr b k r sz opts p. sentinels poolSentinel (PutObject pe dr b k r sz opts p)),
      olInfo = (\<lambda>dr b k opts p. sentinels poolSentinel (GetObjectInfo pe (dNow dr) b k opts p)),
      olGet = (\<lambda>dr b k rs opts p. sentinels poolSentinel (GetObjectNInfo pe (dNow dr) b k rs opts p)),
      olDelete = (\<lambda>dr b k opts p. sentinels poolSentinel (DeleteObject pe dr b k opts p)),
      olCopy = (\<lambda>dr sb sk db dk so dopt p. sentinels poolSentinel (CopyObject pe dr sb sk db dk so dopt p)),
      olPutRetention = (\<lambda>dr b k v mode until bypass p. mapFst (map_option poolSentinel) (PutObjectRetention pe (dNow dr) b k v mode until bypass p)),
      olGetRetention = (\<lambda>b k v p. sentinels poolSentinel (GetObjectRetention pe b k v p)),
      olPutHold = (\<lambda>b k v st p. mapFst (map_option poolSentinel) (PutObjectLegalHold pe b k v st p)),
      olGetHold = (\<lambda>b k v p. sentinels poolSentinel (GetObjectLegalHold pe b k v p))\<rparr>"

definition fsLayer :: "fenv \<Rightarrow> disk olayer" where
  "fsLayer fe =
     \<lparr>olPut = (\<lambda>dr b k r sz opts d. sentinels fsSentinel (fsPutObject fe dr b k r sz opts d)),
      olInfo = (\<lambda>dr b k opts d. sentinels fsSentinel (fsGetObjectInfo fe b k opts d)),
      olGet = (\<lambda>dr b k rs opts d. sentinels fsSentinel (fsGetObjectNInfo fe b k rs opts d)),
      olDelete = (\<lambda>dr b k opts d. sentinels fsSentinel (fsDeleteObject fe dr b k opts d)),
      olCopy = (\<lambda>dr sb sk db dk so dopt d. sentinels fsSentinel (fsCopyObject fe dr sb sk db dk so dopt d)),
      olPutRetention = (\<lambda>dr b k v mode until bypass d. mapFst (map_option fsSentinel) (fsPutObjectRetention fe (dNow dr) b k v mode until bypass d)),
      olGetRetention = (\<lambda>b k v d. sentinels fsSentinel (fsGetObjectRetention fe b k v d)),
      olPutHold = (\<lambda>b k v st d. mapFst (map_option fsSentinel) (fsPutObjectLegalHold fe b k v st d)),
      olGetHold = (\<lambda>b k v d. sentinels fsSentinel (fsGetObjectLegalHold fe b k v d))\<rparr>"

end
