(* ===== verification/GoTime.thy ===== *)
theory GoTime
  imports Prelude
begin

text \<open>
  What the sources use of package \<open>time\<close>: \<open>time.Parse\<close> with the layout \<open>time.RFC3339\<close>, the
  difference of two instants, which saturates, and the product of a duration, which wraps. An instant is the number of
  nanoseconds since the first of January of year 1; a duration is an \<open>int64\<close> number of nanoseconds.
\<close>

subsection \<open>Durations\<close>

abbreviation day :: int where "day \<equiv> 86400 * second"

definition wrap64 :: "int \<Rightarrow> int" where
  "wrap64 x = (x + 2 ^ 63) mod 2 ^ 64 - 2 ^ 63"

text \<open>\<open>time.Duration(n) * 24 * time.Hour\<close>\<close>

definition daysDuration :: "int \<Rightarrow> int" where
  "daysDuration n = wrap64 (n * day)"

text \<open>\<open>t.Sub(u)\<close>\<close>

definition timeSub :: "time \<Rightarrow> time \<Rightarrow> int" where
  "timeSub t u = (if t - u > 2 ^ 63 - 1 then 2 ^ 63 - 1 else if t - u < - (2 ^ 63) then - (2 ^ 63) else t - u)"

lemma wrap64_id: "- (2 ^ 63) \<le> x \<Longrightarrow> x < 2 ^ 63 \<Longrightarrow> wrap64 x = x"
  by (simp add: wrap64_def)

lemma wrap64_range: "- (2 ^ 63) \<le> wrap64 x" "wrap64 x < 2 ^ 63"
proof -
  have "0 \<le> (x + 2 ^ 63) mod 2 ^ 64" "(x + 2 ^ 63) mod 2 ^ 64 < 2 ^ 64" by simp_all
  then show "- (2 ^ 63) \<le> wrap64 x" "wrap64 x < 2 ^ 63" by (simp_all add: wrap64_def)
qed

subsection \<open>RFC 3339\<close>

definition isLeap :: "nat \<Rightarrow> bool" where
  "isLeap y \<longleftrightarrow> y mod 4 = 0 \<and> (y mod 100 \<noteq> 0 \<or> y mod 400 = 0)"

definition daysIn :: "nat \<Rightarrow> nat \<Rightarrow> nat" where
  "daysIn m y = (if m = 2 then (if isLeap y then 29 else 28) else if m \<in> {4, 6, 9, 11} then 30 else 31)"

text \<open>Days from the first of January of year 1; year 0 is a leap year before it.\<close>

definition daysBefore :: "nat \<Rightarrow> int" where
  "daysBefore y =
     (if y = 0 then - 366 else (let n = int y - 1 in 365 * n + n div 4 - n div 100 + n div 400))"

definition daysDate :: "nat \<Rightarrow> nat \<Rightarrow> nat \<Rightarrow> int" where
  "daysDate y m d = daysBefore y + int (sum_list (map (\<lambda>i. daysIn i y) [1..<m])) + int d - 1"

type_synonym 'a parser = "string \<Rightarrow> ('a \<times> string) option"

definition lit :: "char \<Rightarrow> unit parser" where
  "lit c s = (case s of x # r \<Rightarrow> if x = c then Some ((), r) else None | [] \<Rightarrow> None)"

text \<open>\<open>getnum\<close>: two digits, or one when the field is not fixed.\<close>

definition getnum :: "bool \<Rightarrow> nat parser" where
  "getnum fixed s =
     (case s of
        [] \<Rightarrow> None
      | a # r \<Rightarrow>
          (case digitVal a of
             None \<Rightarrow> None
           | Some x \<Rightarrow>
               (case r of
                  [] \<Rightarrow> if fixed then None else Some (x, r)
                | b # r' \<Rightarrow>
                    (case digitVal b of
                       Some y \<Rightarrow> Some (10 * x + y, r')
                     | None \<Rightarrow> if fixed then None else Some (x, r)))))"

definition getYear :: "nat parser" where
  "getYear s =
     (if length s < 4 then None
      else case parseDigits 0 (take 4 s) of Some y \<Rightarrow> Some (y, drop 4 s) | None \<Rightarrow> None)"

definition inRange :: "nat \<Rightarrow> nat \<Rightarrow> nat parser \<Rightarrow> nat parser" where
  "inRange lo hi pr s = (case pr s of Some (n, r) \<Rightarrow> if lo \<le> n \<and> n \<le> hi then Some (n, r) else None | None \<Rightarrow> None)"

text \<open>A fraction of a second that the layout does not mention: nine digits count.\<close>

definition getFraction :: "string \<Rightarrow> nat \<times> string" where
  "getFraction s =
     (case s of
        c # d # r \<Rightarrow>
          if (c = CHR ''.'' \<or> c = CHR '','') \<and> digitVal d \<noteq> None then
            (let ds = takeWhile (\<lambda>x. digitVal x \<noteq> None) (d # r); ds9 = take 9 ds
             in ((case parseDigits 0 ds9 of Some n \<Rightarrow> n | None \<Rightarrow> 0) * 10 ^ (9 - length ds9), drop (length ds) (d # r)))
          else (0, s)
      | _ \<Rightarrow> (0, s))"

text \<open>The zone: \<open>Z\<close>, or a sign, hours and minutes; in seconds.\<close>

definition getZone :: "int parser" where
  "getZone s =
     (case s of
        [] \<Rightarrow> None
      | c # r \<Rightarrow>
          if c = CHR ''Z'' then Some (0, r)
          else if length s < 6 \<or> s ! 3 \<noteq> CHR '':'' then None
          else
            (case (getnum True (take 2 r), getnum True (take 2 (drop 4 s))) of
               (Some (h, _), Some (m, _)) \<Rightarrow>
                 if h > 24 \<or> m > 60 then None
                 else if c = CHR ''+'' then Some (int (h * 60 + m) * 60, drop 6 s)
                 else if c = CHR ''-'' then Some (- (int (h * 60 + m) * 60), drop 6 s)
                 else None
             | _ \<Rightarrow> None))"

definition parseRFC3339 :: "string \<Rightarrow> time option" where
  "parseRFC3339 s =
     Option.bind (getYear s) (\<lambda>(y, s1). Option.bind (lit (CHR ''-'') s1) (\<lambda>(_, s2).
     Option.bind (inRange 1 12 (getnum True) s2) (\<lambda>(mo, s3). Option.bind (lit (CHR ''-'') s3) (\<lambda>(_, s4).
     Option.bind (getnum True s4) (\<lambda>(d, s5). Option.bind (lit (CHR ''T'') s5) (\<lambda>(_, s6).
     Option.bind (inRange 0 23 (getnum False) s6) (\<lambda>(h, s7). Option.bind (lit (CHR '':'') s7) (\<lambda>(_, s8).
     Option.bind (inRange 0 59 (getnum True) s8) (\<lambda>(mi, s9). Option.bind (lit (CHR '':'') s9) (\<lambda>(_, s10).
     Option.bind (inRange 0 59 (getnum True) s10) (\<lambda>(sec, s11).
       (case getFraction s11 of (ns, s12) \<Rightarrow>
          Option.bind (getZone s12) (\<lambda>(z, s13).
            if s13 \<noteq> [] \<or> d < 1 \<or> daysIn mo y < d then None
            else Some (((daysDate y mo d * 86400 + int (h * 3600 + mi * 60 + sec) - z) * second) + int ns))))))))))))))"

lemma rfc3339_epoch:
  "parseRFC3339 ''0001-01-01T00:00:00Z'' = Some 0"
  "parseRFC3339 ''1970-01-01T00:00:00Z'' = Some (62135596800 * second)"
  "parseRFC3339 ''2024-02-29T12:30:00.5+01:00'' = Some (63844803000 * second + 500000000)"
  by (simp_all add: parseRFC3339_def getYear_def lit_def getnum_def inRange_def getFraction_def getZone_def digitVal_def
      daysDate_def daysBefore_def daysIn_def isLeap_def upt_rec Let_def)

end
