(* ===== verification/Scanner.thy ===== *)
theory Scanner
  imports Multipart Docs GoTime
begin

text \<open>
  The background scanner (\<open>internal/scanner/scanner.go\<close>) and the per-object expiry of \<open>internal/object/expiry.go\<close>.
  One pass walks every bucket page by page: it counts objects and bytes, also per folder, deletes the
  objects whose time is over, heals a sample, applies the expiration and transition rules, then expires noncurrent versions and
  aborts stale uploads; the deep scrub heals every object. The scanner sees the object layer through its interface, the record
  \<open>layer\<close>; a background context that is never cancelled and log messages are left out.
\<close>

subsection \<open>Per-object expiry (object/expiry.go)\<close>

definition isExpiryKey :: "string \<Rightarrow> bool" where
  "isExpiryKey k \<longleftrightarrow> (let lk = toLower k in lk = ''gostore-expires'' \<or> hasSuffix lk ''gostore-expires'')"

text \<open>The entries are looked at in the iteration order of the map, here the order of the list.\<close>

fun ExpiryOf :: "string gomap \<Rightarrow> time" where
  "ExpiryOf [] = 0"
| "ExpiryOf ((k, v) # m) =
     (if isExpiryKey k then (case parseRFC3339 (trimSpaceS v) of Some t \<Rightarrow> t | None \<Rightarrow> ExpiryOf m) else ExpiryOf m)"

definition HasExpired :: "string gomap \<Rightarrow> time \<Rightarrow> bool" where
  "HasExpired userDefined now \<longleftrightarrow> \<not> isZero (ExpiryOf userDefined) \<and> now > ExpiryOf userDefined"

subsection \<open>The object layer as the scanner sees it\<close>

record 's layer =
  lListBuckets :: "'s \<Rightarrow> (objErr + string list) \<times> 's"
  lListV2 :: "string \<Rightarrow> string \<Rightarrow> 's \<Rightarrow> (objErr + listV2Info) \<times> 's"
  lListVersions :: "string \<Rightarrow> 's \<Rightarrow> (objErr + versionsInfo) \<times> 's"
  lListUploads :: "string \<Rightarrow> 's \<Rightarrow> (objErr + multipartInfo list) \<times> 's"
  lDelete :: "string \<Rightarrow> string \<Rightarrow> objectOptions \<Rightarrow> 's \<Rightarrow> objErr option \<times> 's"
  lAbort :: "string \<Rightarrow> string \<Rightarrow> string \<Rightarrow> 's \<Rightarrow> objErr option \<times> 's"
  lHeal :: "(string \<Rightarrow> string \<Rightarrow> 's \<Rightarrow> string option \<times> 's) option"
  lTransition :: "(string \<Rightarrow> string \<Rightarrow> string \<Rightarrow> 's \<Rightarrow> objErr option \<times> 's) option"
  lGCDedup :: "('s \<Rightarrow> 's) option"

subsection \<open>Usage\<close>

record bucketUsage =
  buObjects :: int
  buBytes :: int

definition prefixUsageMax :: nat where "prefixUsageMax = 200000"

definition credit :: "string \<Rightarrow> int \<Rightarrow> string \<Rightarrow> bucketUsage gomap \<Rightarrow> bucketUsage gomap" where
  "credit bucket sz pre m =
     (let k = bucket @ [CHR 0x00] @ pre in
      case map_of m k of
        None \<Rightarrow> if length m \<ge> prefixUsageMax then m else AList.update k \<lparr>buObjects = 1, buBytes = sz\<rparr> m
      | Some u \<Rightarrow> AList.update k \<lparr>buObjects = buObjects u + 1, buBytes = buBytes u + sz\<rparr> m)"

definition folders :: "string \<Rightarrow> string list" where
  "folders key = map (\<lambda>i. take (i + 1) key) (filter (\<lambda>i. key ! i = CHR ''/'') [0..<length key])"

definition addPrefixUsage :: "string \<Rightarrow> string \<Rightarrow> int \<Rightarrow> bucketUsage gomap \<Rightarrow> bucketUsage gomap" where
  "addPrefixUsage bucket key sz m = fold (credit bucket sz) ([] # folders key) m"

definition PrefixUsage :: "bucketUsage gomap \<Rightarrow> string \<Rightarrow> string \<Rightarrow> bucketUsage \<times> bucketUsage gomap" where
  "PrefixUsage m bucket pre =
     (let want = bucket @ [CHR 0x00] @ pre in
      ((case map_of m want of Some u \<Rightarrow> u | None \<Rightarrow> \<lparr>buObjects = 0, buBytes = 0\<rparr>),
       map (\<lambda>(k, u). (drop (length want) k, u))
         (filter (\<lambda>(k, u). hasPrefix k want \<and> k \<noteq> want
             \<and> indexByte (drop (length want) k) (CHR ''/'') = Some (length k - length want - 1)) m)))"

subsection \<open>Rules\<close>

record expRule =
  erPrefix :: string
  erDays :: int
  erDate :: time
  erNoncurrent :: int
  erAbortMPU :: int
  erTransDays :: int
  erTransTier :: string

definition toExpRule :: "lifecycleRule \<Rightarrow> expRule" where
  "toExpRule r =
     \<lparr>erPrefix = lcPrefix r, erDays = ExpirationDays r,
      erDate = (if ExpirationDate r = [] then 0 else case parseRFC3339 (ExpirationDate r) of Some t \<Rightarrow> t | None \<Rightarrow> 0),
      erNoncurrent = NoncurrentVersionExpirationDays r, erAbortMPU = AbortIncompleteMultipartDays r,
      erTransDays = TransitionDays r, erTransTier = TransitionTier r\<rparr>"

definition enabledRules :: "lifecycleRule list \<Rightarrow> expRule list" where
  "enabledRules rules = map toExpRule (filter (\<lambda>r. lcStatus r = ''Enabled'') rules)"

definition dueForExpiry :: "time \<Rightarrow> int \<Rightarrow> time \<Rightarrow> time \<Rightarrow> bool" where
  "dueForExpiry modt days date now \<longleftrightarrow>
     (\<not> isZero date \<and> now > date) \<or> (days > 0 \<and> timeSub now modt \<ge> daysDuration days)"

subsection \<open>A pass\<close>

record report =
  rBucketsScanned :: nat
  rObjectsExpired :: nat
  rVersionsExpired :: nat
  rUploadsAborted :: nat
  rObjectsHealed :: nat
  rObjectsTiered :: nat
  rErrors :: nat

definition noReport :: report where
  "noReport = \<lparr>rBucketsScanned = 0, rObjectsExpired = 0, rVersionsExpired = 0, rUploadsAborted = 0, rObjectsHealed = 0,
     rObjectsTiered = 0, rErrors = 0\<rparr>"

text \<open>The state of a pass: the layer, the report, the usage of the bucket and of the folders, the heal counter.\<close>

record 's scan =
  scLayer :: 's
  scRep :: report
  scUsage :: bucketUsage
  scPrefixes :: "bucketUsage gomap"
  scHealScanned :: "64 word"

definition onLayer :: "('s \<Rightarrow> 'r \<times> 's) \<Rightarrow> 's scan \<Rightarrow> 'r \<times> 's scan" where
  "onLayer f st = (case f (scLayer st) of (r, s) \<Rightarrow> (r, st\<lparr>scLayer := s\<rparr>))"

definition addErr :: "'s scan \<Rightarrow> 's scan" where
  "addErr st = st\<lparr>scRep := (scRep st)\<lparr>rErrors := rErrors (scRep st) + 1\<rparr>\<rparr>"

definition notLocked :: "objErr \<Rightarrow> 's scan \<Rightarrow> 's scan" where
  "notLocked e st = (if e = OObjectLocked then st else addErr st)"

definition healSampleRate :: "32 word" where "healSampleRate = 128"

definition shouldHeal :: "string \<Rightarrow> string \<Rightarrow> 's scan \<Rightarrow> bool \<times> 's scan" where
  "shouldHeal bucket key st =
     (let n = scHealScanned st + 1; pass = (ucast (n div 4096) :: 32 word)
      in ((fnv32a (bucket @ ''/'' @ key) + pass) mod healSampleRate = 0, st\<lparr>scHealScanned := n\<rparr>))"

definition account :: "string \<Rightarrow> objectInfo \<Rightarrow> 's scan \<Rightarrow> 's scan" where
  "account bucket ob st =
     st\<lparr>scUsage := \<lparr>buObjects = buObjects (scUsage st) + 1, buBytes = buBytes (scUsage st) + iSize ob\<rparr>,
        scPrefixes := addPrefixUsage bucket (iName ob) (iSize ob) (scPrefixes st)\<rparr>"

definition expireObject :: "'s layer \<Rightarrow> string \<Rightarrow> objectInfo \<Rightarrow> 's scan \<Rightarrow> bool \<times> 's scan" where
  "expireObject L bucket ob st =
     (case onLayer (lDelete L bucket (iName ob) (noOptions\<lparr>oVersioned := True\<rparr>)) st of
        (Some e, st1) \<Rightarrow> (False, notLocked e st1)
      | (None, st1) \<Rightarrow> (True, st1\<lparr>scRep := (scRep st1)\<lparr>rObjectsExpired := rObjectsExpired (scRep st1) + 1\<rparr>\<rparr>))"

definition healSample :: "'s layer \<Rightarrow> string \<Rightarrow> objectInfo \<Rightarrow> 's scan \<Rightarrow> 's scan" where
  "healSample L bucket ob st =
     (case lHeal L of
        None \<Rightarrow> st
      | Some heal \<Rightarrow>
          (case shouldHeal bucket (iName ob) st of (yes, st1) \<Rightarrow>
             if \<not> yes then st1
             else case onLayer (heal bucket (iName ob)) st1 of
               (None, st2) \<Rightarrow> st2\<lparr>scRep := (scRep st2)\<lparr>rObjectsHealed := rObjectsHealed (scRep st2) + 1\<rparr>\<rparr>
             | (Some e, st2) \<Rightarrow> addErr st2))"

fun expireByRules :: "'s layer \<Rightarrow> string \<Rightarrow> time \<Rightarrow> objectInfo \<Rightarrow> expRule list \<Rightarrow> 's scan \<Rightarrow> bool \<times> 's scan" where
  "expireByRules L bucket now ob [] st = (False, st)"
| "expireByRules L bucket now ob (r # rs) st =
     (if (erDays r \<le> 0 \<and> isZero (erDate r)) \<or> \<not> hasPrefix (iName ob) (erPrefix r) then expireByRules L bucket now ob rs st
      else if \<not> dueForExpiry (iModTime ob) (erDays r) (erDate r) now then expireByRules L bucket now ob rs st
      else expireObject L bucket ob st)"

fun transitionByRules ::
  "(string \<Rightarrow> string \<Rightarrow> string \<Rightarrow> 's \<Rightarrow> objErr option \<times> 's) \<Rightarrow> string \<Rightarrow> time \<Rightarrow> objectInfo \<Rightarrow> expRule list \<Rightarrow> 's scan \<Rightarrow> 's scan" where
  "transitionByRules tr bucket now ob [] st = st"
| "transitionByRules tr bucket now ob (r # rs) st =
     (if erTransDays r \<le> 0 \<or> erTransTier r = [] \<or> \<not> hasPrefix (iName ob) (erPrefix r) then transitionByRules tr bucket now ob rs st
      else if timeSub now (iModTime ob) < daysDuration (erTransDays r) then transitionByRules tr bucket now ob rs st
      else case onLayer (tr bucket (iName ob) (erTransTier r)) st of
        (Some e, st1) \<Rightarrow> notLocked e st1
      | (None, st1) \<Rightarrow> st1\<lparr>scRep := (scRep st1)\<lparr>rObjectsTiered := rObjectsTiered (scRep st1) + 1\<rparr>\<rparr>)"

definition visitObject :: "'s layer \<Rightarrow> string \<Rightarrow> expRule list \<Rightarrow> time \<Rightarrow> objectInfo \<Rightarrow> 's scan \<Rightarrow> 's scan" where
  "visitObject L bucket rules now ob st0 =
     (let st = account bucket ob st0 in
      if HasExpired (iUserDefined ob) now then
        (case expireObject L bucket ob st of (gone, st1) \<Rightarrow>
           if gone then st1\<lparr>scUsage := \<lparr>buObjects = buObjects (scUsage st1) - 1, buBytes = buBytes (scUsage st1) - iSize ob\<rparr>\<rparr>
           else st1)
      else
        (case expireByRules L bucket now ob rules (healSample L bucket ob st) of (expired, st1) \<Rightarrow>
           if expired then st1
           else (case lTransition L of None \<Rightarrow> st1 | Some tr \<Rightarrow> transitionByRules tr bucket now ob rules st1)))"

text \<open>
  The loop over the pages of a listing, which both the pass and the deep scrub run: follow the continuation token until a page
  is not truncated. It returns \<open>None\<close> when that never happens.
\<close>

partial_function (option) forPages ::
  "(string \<Rightarrow> 's \<Rightarrow> (objErr + listV2Info) \<times> 's) \<Rightarrow> (objectInfo list \<Rightarrow> 's \<Rightarrow> 's) \<Rightarrow> ('s \<Rightarrow> 's) \<Rightarrow> string \<Rightarrow> 's \<Rightarrow> 's option" where
  "forPages page visit failed token s =
     (case page token s of (r, s1) \<Rightarrow>
        (case r of
           Inl e \<Rightarrow> Some (failed s1)
         | Inr li \<Rightarrow>
             if l2IsTruncated li then forPages page visit failed (l2NextToken li) (visit (l2Objects li) s1)
             else Some (visit (l2Objects li) s1)))"

definition walkBucket :: "'s layer \<Rightarrow> string \<Rightarrow> expRule list \<Rightarrow> time \<Rightarrow> 's scan \<Rightarrow> 's scan option" where
  "walkBucket L bucket rules now st =
     forPages (\<lambda>token. onLayer (lListV2 L bucket token)) (fold (visitObject L bucket rules now)) addErr []
       (st\<lparr>scUsage := \<lparr>buObjects = 0, buBytes = 0\<rparr>\<rparr>)"

subsection \<open>Noncurrent versions and stale uploads\<close>

definition minDays :: "(expRule \<Rightarrow> int) \<Rightarrow> string \<Rightarrow> expRule list \<Rightarrow> int" where
  "minDays f nm rules =
     fold (\<lambda>r days. if f r > 0 \<and> hasPrefix nm (erPrefix r) \<and> (days = 0 \<or> f r < days) then f r else days) rules 0"

definition expireVersion :: "'s layer \<Rightarrow> string \<Rightarrow> expRule list \<Rightarrow> time \<Rightarrow> objectInfo \<Rightarrow> 's scan \<Rightarrow> 's scan" where
  "expireVersion L bucket rules now ob st =
     (if iIsLatest ob \<or> iVersionID ob = [] \<or> iVersionID ob = ''null'' then st
      else
        (let days = minDays erNoncurrent (iName ob) rules in
         if days = 0 \<or> timeSub now (iModTime ob) < daysDuration days then st
         else case onLayer (lDelete L bucket (iName ob) (noOptions\<lparr>oVersionID := iVersionID ob\<rparr>)) st of
           (Some e, st1) \<Rightarrow> notLocked e st1
         | (None, st1) \<Rightarrow> st1\<lparr>scRep := (scRep st1)\<lparr>rVersionsExpired := rVersionsExpired (scRep st1) + 1\<rparr>\<rparr>))"

definition expireNoncurrent :: "'s layer \<Rightarrow> string \<Rightarrow> expRule list \<Rightarrow> time \<Rightarrow> 's scan \<Rightarrow> 's scan" where
  "expireNoncurrent L bucket rules now st =
     (if \<not> list_ex (\<lambda>r. erNoncurrent r > 0) rules then st
      else case onLayer (lListVersions L bucket) st of
        (Inl e, st1) \<Rightarrow> addErr st1
      | (Inr lv, st1) \<Rightarrow> fold (expireVersion L bucket rules now) (lvObjects lv) st1)"

definition abortThreshold :: "int \<Rightarrow> expRule list \<Rightarrow> string \<Rightarrow> int" where
  "abortThreshold mpuTTL rules nm =
     (let t = fold (\<lambda>r th. if erAbortMPU r > 0 \<and> hasPrefix nm (erPrefix r)
                           then (let d = daysDuration (erAbortMPU r) in if th = 0 \<or> d < th then d else th) else th) rules 0
      in if mpuTTL > 0 \<and> (t = 0 \<or> mpuTTL < t) then mpuTTL else t)"

definition abortUpload :: "'s layer \<Rightarrow> string \<Rightarrow> int \<Rightarrow> expRule list \<Rightarrow> time \<Rightarrow> multipartInfo \<Rightarrow> 's scan \<Rightarrow> 's scan" where
  "abortUpload L bucket mpuTTL rules now u st =
     (let th = abortThreshold mpuTTL rules (miObject u) in
      if th = 0 \<or> miInitiated u > now - th then st
      else case onLayer (lAbort L bucket (miObject u) (miUploadID u)) st of
        (Some e, st1) \<Rightarrow> addErr st1
      | (None, st1) \<Rightarrow> st1\<lparr>scRep := (scRep st1)\<lparr>rUploadsAborted := rUploadsAborted (scRep st1) + 1\<rparr>\<rparr>)"

definition abortStaleUploads :: "'s layer \<Rightarrow> string \<Rightarrow> int \<Rightarrow> expRule list \<Rightarrow> time \<Rightarrow> 's scan \<Rightarrow> 's scan" where
  "abortStaleUploads L bucket mpuTTL rules now st =
     (if \<not> list_ex (\<lambda>r. erAbortMPU r > 0) rules \<and> mpuTTL \<le> 0 then st
      else case onLayer (lListUploads L bucket) st of
        (Inl e, st1) \<Rightarrow> addErr st1
      | (Inr us, st1) \<Rightarrow> fold (abortUpload L bucket mpuTTL rules now) us st1)"

subsection \<open>ScanOnce and DeepScrub\<close>

record dataUsage =
  duLastUpdate :: time
  duBuckets :: "bucketUsage gomap"
  duTotalObjects :: int
  duTotalBytes :: int

definition scanBucket ::
  "'s layer \<Rightarrow> (string \<Rightarrow> lifecycleRule list) \<Rightarrow> int \<Rightarrow> time \<Rightarrow> string \<Rightarrow> dataUsage \<times> 's scan \<Rightarrow> (dataUsage \<times> 's scan) option" where
  "scanBucket L lifecycle mpuTTL now b us =
     (case us of (du, st) \<Rightarrow>
        (let rules = enabledRules (lifecycle b) in
         case walkBucket L b rules now st of
           None \<Rightarrow> None
         | Some st1 \<Rightarrow>
             (let bu = scUsage st1;
                  du1 = du\<lparr>duBuckets := AList.update b bu (duBuckets du), duTotalObjects := duTotalObjects du + buObjects bu,
                           duTotalBytes := duTotalBytes du + buBytes bu\<rparr>;
                  st2 = abortStaleUploads L b mpuTTL rules now st1
              in if rules = [] then Some (du1, st2)
                 else Some (du1, expireNoncurrent L b rules now
                        (st2\<lparr>scRep := (scRep st2)\<lparr>rBucketsScanned := rBucketsScanned (scRep st2) + 1\<rparr>\<rparr>)))))"

fun scanBuckets ::
  "'s layer \<Rightarrow> (string \<Rightarrow> lifecycleRule list) \<Rightarrow> int \<Rightarrow> time \<Rightarrow> string list \<Rightarrow> dataUsage \<times> 's scan \<Rightarrow> (dataUsage \<times> 's scan) option" where
  "scanBuckets L lifecycle mpuTTL now [] us = Some us"
| "scanBuckets L lifecycle mpuTTL now (b # bs) us =
     (case scanBucket L lifecycle mpuTTL now b us of None \<Rightarrow> None | Some us1 \<Rightarrow> scanBuckets L lifecycle mpuTTL now bs us1)"

text \<open>The result: the report, the usage snapshot when the pass got to the end, the layer and the heal counter.\<close>

definition ScanOnce ::
  "'s layer \<Rightarrow> (string \<Rightarrow> lifecycleRule list) \<Rightarrow> int \<Rightarrow> time \<Rightarrow> 64 word \<Rightarrow> 's \<Rightarrow> (dataUsage option \<times> 's scan) option" where
  "ScanOnce L lifecycle mpuTTL now healScanned s =
     (let st = \<lparr>scLayer = s, scRep = noReport, scUsage = \<lparr>buObjects = 0, buBytes = 0\<rparr>, scPrefixes = [], scHealScanned = healScanned\<rparr>;
          du = \<lparr>duLastUpdate = now, duBuckets = [], duTotalObjects = 0, duTotalBytes = 0\<rparr>
      in case onLayer (lListBuckets L) st of
           (Inl e, st1) \<Rightarrow> Some (None, addErr st1)
         | (Inr bs, st1) \<Rightarrow>
             (case scanBuckets L lifecycle mpuTTL now bs (du, st1) of
                None \<Rightarrow> None | Some (du1, st2) \<Rightarrow> Some (Some du1, st2)))"

record 's scrub =
  sbLayer :: 's
  sbObjectsDone :: nat
  sbUnrecoverable :: nat
  sbErrors :: nat

definition isUnrecoverable :: "string \<Rightarrow> bool" where
  "isUnrecoverable msg \<longleftrightarrow> contains msg ''quorum''"

definition scrubObject :: "(string \<Rightarrow> string \<Rightarrow> 's \<Rightarrow> string option \<times> 's) \<Rightarrow> string \<Rightarrow> objectInfo \<Rightarrow> 's scrub \<Rightarrow> 's scrub" where
  "scrubObject heal bucket ob st =
     (case heal bucket (iName ob) (sbLayer st) of (e, s) \<Rightarrow>
        (let st1 = st\<lparr>sbLayer := s, sbObjectsDone := sbObjectsDone st + 1\<rparr> in
         case e of
           None \<Rightarrow> st1
         | Some msg \<Rightarrow> if isUnrecoverable msg then st1\<lparr>sbUnrecoverable := sbUnrecoverable st1 + 1\<rparr>
                       else st1\<lparr>sbErrors := sbErrors st1 + 1\<rparr>))"

definition scrubErr :: "'s scrub \<Rightarrow> 's scrub" where
  "scrubErr st = st\<lparr>sbErrors := sbErrors st + 1\<rparr>"

definition scrubBucket :: "'s layer \<Rightarrow> (string \<Rightarrow> string \<Rightarrow> 's \<Rightarrow> string option \<times> 's) \<Rightarrow> string \<Rightarrow> 's scrub \<Rightarrow> 's scrub option" where
  "scrubBucket L heal b =
     forPages (\<lambda>token st. case lListV2 L b token (sbLayer st) of (r, s) \<Rightarrow> (r, st\<lparr>sbLayer := s\<rparr>))
       (fold (scrubObject heal b)) scrubErr []"

fun scrubBuckets :: "'s layer \<Rightarrow> (string \<Rightarrow> string \<Rightarrow> 's \<Rightarrow> string option \<times> 's) \<Rightarrow> string list \<Rightarrow> 's scrub \<Rightarrow> 's scrub option" where
  "scrubBuckets L heal [] st = Some st"
| "scrubBuckets L heal (b # bs) st = (case scrubBucket L heal b st of None \<Rightarrow> None | Some st1 \<Rightarrow> scrubBuckets L heal bs st1)"

definition DeepScrub :: "'s layer \<Rightarrow> 's \<Rightarrow> 's scrub option" where
  "DeepScrub L s =
     (let st = \<lparr>sbLayer = s, sbObjectsDone = 0, sbUnrecoverable = 0, sbErrors = 0\<rparr> in
      case lHeal L of
        None \<Rightarrow> Some st
      | Some heal \<Rightarrow>
          (case lListBuckets L s of
             (Inl e, s1) \<Rightarrow> Some (st\<lparr>sbLayer := s1, sbErrors := 1\<rparr>)
           | (Inr bs, s1) \<Rightarrow>
               (case scrubBuckets L heal bs (st\<lparr>sbLayer := s1\<rparr>) of
                  None \<Rightarrow> None
                | Some st1 \<Rightarrow> Some (case lGCDedup L of None \<Rightarrow> st1 | Some gc \<Rightarrow> st1\<lparr>sbLayer := gc (sbLayer st1)\<rparr>))))"

end
