(* ===== verification/ReqParse.thy ===== *)
theory ReqParse
  imports ObjLayer Scanner Base64
begin

text \<open>
  What the object handlers read from a request (\<open>internal/api/handlers_object.go\<close>, \<open>checksum.go\<close>, \<open>expiry.go\<close>): sizes, metadata, ranges,
  conditions, copy sources, checksums and times to live; and the headers of an answer.
\<close>

text \<open>A request with all its headers, its body, the peer's address and the access key it was authenticated with.\<close>

record hreq =
  hrReq :: httpReq
  hrHeaders :: "(string list) gomap"
  hrBody :: reader
  hrRemote :: string
  hrAK :: string

abbreviation hdr :: "hreq \<Rightarrow> string \<Rightarrow> string" where
  "hdr r k \<equiv> Header (hrReq r) k"

text \<open>Library functions and settings of the process.\<close>

record henv =
  heMime :: "string \<Rightarrow> string"
  heNoSniff :: bool
  heHTTPTime :: "time \<Rightarrow> string"
  heParseTime :: "string \<Rightarrow> time option"
  heParseRFC1123 :: "string \<Rightarrow> time option"
  heFormatRFC3339 :: "time \<Rightarrow> string"
  heParseDuration :: "string \<Rightarrow> int option"
  heHash :: "string \<Rightarrow> bytes \<Rightarrow> bytes"
  heNet :: netlib
  heParse :: IAM.parser
  heAppendMax :: int

subsection \<open>Sizes and metadata\<close>

definition maxSinglePutSize :: int where "maxSinglePutSize = 5 * 1024 * 1024 * 1024"

definition bodySize :: "hreq \<Rightarrow> int" where
  "bodySize r =
     (let v = hdr r ''x-amz-decoded-content-length'' in
      case (if v = [] then None else Atoi v) of
        Some n \<Rightarrow> if n \<ge> 0 then n else ContentLength (hrReq r)
      | None \<Rightarrow> ContentLength (hrReq r))"

definition extraMimeTypes :: "string gomap" where
  "extraMimeTypes =
     [(''.mp4'', ''video/mp4''), (''.m4v'', ''video/mp4''), (''.mov'', ''video/quicktime''), (''.webm'', ''video/webm''),
      (''.mkv'', ''video/x-matroska''), (''.avi'', ''video/x-msvideo''), (''.mp3'', ''audio/mpeg''), (''.m4a'', ''audio/mp4''),
      (''.aac'', ''audio/aac''), (''.flac'', ''audio/flac''), (''.wav'', ''audio/wav''), (''.ogg'', ''audio/ogg''), (''.oga'', ''audio/ogg''),
      (''.webp'', ''image/webp''), (''.avif'', ''image/avif''), (''.svg'', ''image/svg+xml''), (''.pdf'', ''application/pdf''),
      (''.json'', ''application/json''), (''.wasm'', ''application/wasm''), (''.txt'', ''text/plain; charset=utf-8''),
      (''.csv'', ''text/csv; charset=utf-8''), (''.md'', ''text/markdown; charset=utf-8'')]"

text \<open>\<open>path.Ext\<close>: from the last dot of the last segment.\<close>

definition pathExt :: "string \<Rightarrow> string" where
  "pathExt p = (let seg = last (splitOn (CHR ''/'') p) in case lastIndexByte seg (CHR ''.'') of Some i \<Rightarrow> drop i seg | None \<Rightarrow> [])"

definition sniffContentType :: "henv \<Rightarrow> string \<Rightarrow> string" where
  "sniffContentType he key =
     (let ext = toLower (pathExt key) in
      if ext = [] then [] else case map_of extraMimeTypes ext of Some v \<Rightarrow> v | None \<Rightarrow> heMime he ext)"

definition octetStream :: string where "octetStream = ''application/octet-stream''"

text \<open>The headers are visited in the iteration order of the map.\<close>

definition extractMetadata :: "henv \<Rightarrow> hreq \<Rightarrow> string \<Rightarrow> string gomap" where
  "extractMetadata he r key =
     (let ct0 = trimSpaceS (hdr r ''Content-Type'');
          guess = sniffContentType he key;
          ct = (if (ct0 = [] \<or> ct0 = octetStream) \<and> \<not> heNoSniff he \<and> guess \<noteq> [] then guess else ct0);
          md0 = (if ct = [] then [] else [(''content-type'', ct)]);
          ce = hdr r ''Content-Encoding'';
          md1 = (if ce = [] then md0 else AList.update ''content-encoding'' ce md0)
      in fold (\<lambda>(k, vs) md.
           (let lk = toLower k in
            if vs \<noteq> [] \<and> (hasPrefix lk ''x-amz-meta-'' \<or> lk = ''x-amz-server-side-encryption'') then AList.update lk (hd vs) md else md))
           (hrHeaders r) md1)"

subsection \<open>Copy sources\<close>

text \<open>\<open>url.QueryUnescape\<close>.\<close>

fun queryUnescape :: "string \<Rightarrow> string option" where
  "queryUnescape [] = Some []"
| "queryUnescape (c # s) =
     (if c = CHR ''%'' then
        (case s of
           a # b # s' \<Rightarrow>
             (case hexDecode [a, b] of
                Some [x] \<Rightarrow> map_option (Cons x) (queryUnescape s')
              | _ \<Rightarrow> None)
         | _ \<Rightarrow> None)
      else map_option (Cons (if c = CHR ''+'' then CHR '' '' else c)) (queryUnescape s))"

definition parseCopySource :: "string \<Rightarrow> (string \<times> string) option" where
  "parseCopySource v0 =
     (let v1 = trimPrefix v0 ''/'';
          v2 = (case indexByte v1 (CHR ''?'') of Some i \<Rightarrow> take i v1 | None \<Rightarrow> v1);
          v = (case queryUnescape v2 of Some d \<Rightarrow> d | None \<Rightarrow> v2)
      in case indexByte v (CHR ''/'') of
           None \<Rightarrow> None
         | Some i \<Rightarrow> if i = 0 \<or> i = length v - 1 then None else Some (take i v, drop (Suc i) v))"

subsection \<open>Ranges\<close>

definition parseRange :: "string \<Rightarrow> rangeSpec option" where
  "parseRange v =
     (if \<not> hasPrefix v ''bytes='' then None
      else
        (let spec = trimPrefix v ''bytes='' in
         if contains spec '','' then None
         else case indexByte spec (CHR ''-'') of
           None \<Rightarrow> None
         | Some dash \<Rightarrow>
             (let startStr = take dash spec; endStr = drop (Suc dash) spec in
              if startStr = [] \<and> endStr = [] then None
              else if startStr = [] then
                (case Atoi endStr of
                   Some n \<Rightarrow> if n \<le> 0 then None else Some \<lparr>rsIsSuffixLength = True, rsStart = - n, rsEnd = 0\<rparr>
                 | None \<Rightarrow> None)
              else case Atoi startStr of
                None \<Rightarrow> None
              | Some st \<Rightarrow>
                  if st < 0 then None
                  else if endStr = [] then Some \<lparr>rsIsSuffixLength = False, rsStart = st, rsEnd = - 1\<rparr>
                  else case Atoi endStr of
                    None \<Rightarrow> None
                  | Some en \<Rightarrow> if en < st then None else Some \<lparr>rsIsSuffixLength = False, rsStart = st, rsEnd = en\<rparr>)))"

definition resolveRangeForHeader :: "rangeSpec \<Rightarrow> int \<Rightarrow> int \<times> int" where
  "resolveRangeForHeader rs sz =
     (if rsIsSuffixLength rs then (let n = neg64 (rsStart rs); n' = (if n > sz then sz else n) in (sz - n', n'))
      else (let en = (if rsEnd rs < 0 \<or> rsEnd rs \<ge> sz then sz - 1 else rsEnd rs) in (rsStart rs, en - rsStart rs + 1)))"

subsection \<open>Conditions\<close>

definition trimQuotes :: "string \<Rightarrow> string" where
  "trimQuotes s = rev (dropWhile (\<lambda>c. c = CHR 0x22) (rev (dropWhile (\<lambda>c. c = CHR 0x22) s)))"

definition etagMatches :: "string \<Rightarrow> string \<Rightarrow> bool" where
  "etagMatches header etag =
     list_ex (\<lambda>part. trimQuotes (trimPrefix (trimSpaceS part) ''W/'') = etag) (splitOn (CHR '','') header)"

definition truncSecond :: "time \<Rightarrow> time" where "truncSecond t = t - t mod second"

datatype condition = Proceed | NotModified | PreconditionFailed

definition evalGetConditionals :: "henv \<Rightarrow> hreq \<Rightarrow> objectInfo \<Rightarrow> condition" where
  "evalGetConditionals he r oi =
     (let etag = trimQuotes (iETag oi);
          inm = hdr r ''If-None-Match''; ims = hdr r ''If-Modified-Since''; im = hdr r ''If-Match''; ius = hdr r ''If-Unmodified-Since'';
          mt = truncSecond (iModTime oi)
      in if (if inm \<noteq> [] then inm = ''*'' \<or> etagMatches inm etag
             else ims \<noteq> [] \<and> (case heParseTime he ims of Some t \<Rightarrow> \<not> mt > t | None \<Rightarrow> False)) then NotModified
         else if im \<noteq> [] \<and> im \<noteq> ''*'' \<and> \<not> etagMatches im etag then PreconditionFailed
         else if ius \<noteq> [] \<and> (case heParseTime he ius of Some t \<Rightarrow> mt > t | None \<Rightarrow> False) then PreconditionFailed
         else Proceed)"

subsection \<open>Checksums (checksum.go)\<close>

definition checksumAlgos :: "string list" where "checksumAlgos = [''crc32'', ''crc32c'', ''sha1'', ''sha256'']"

definition checksumFromHeaders :: "hreq \<Rightarrow> (string \<times> string) option" where
  "checksumFromHeaders r =
     map_option (\<lambda>a. (a, trimSpaceS (hdr r (''x-amz-checksum-'' @ a))))
       (find (\<lambda>a. trimSpaceS (hdr r (''x-amz-checksum-'' @ a)) \<noteq> []) checksumAlgos)"

definition checksumOK :: "henv \<Rightarrow> string \<Rightarrow> string \<Rightarrow> bytes \<Rightarrow> bool" where
  "checksumOK he algo want body = EqualFold (heNet he) (EncodeToString (heHash he algo body)) want"

text \<open>The reader fails at its end when the checksum is wrong; a body that fails before has its own error.\<close>

definition verifyingReader :: "henv \<Rightarrow> string \<Rightarrow> string \<Rightarrow> reader \<Rightarrow> reader" where
  "verifyingReader he algo want src = (if rfails src \<or> checksumOK he algo want (rdata src) then src else src\<lparr>rfails := True\<rparr>)"

subsection \<open>Times to live (expiry.go)\<close>

definition expiryMetaKey :: string where "expiryMetaKey = ''x-amz-meta-gostore-expires''"

definition spanUnit :: "char \<Rightarrow> int option" where
  "spanUnit c =
     (if c \<in> {CHR ''m'', CHR ''M''} then Some (60 * second)
      else if c \<in> {CHR ''h'', CHR ''H''} then Some (3600 * second)
      else if c \<in> {CHR ''d'', CHR ''D''} then Some (24 * 3600 * second)
      else if c \<in> {CHR ''w'', CHR ''W''} then Some (7 * 24 * 3600 * second)
      else None)"

text \<open>The product is one of \<open>int64\<close>.\<close>

definition parseSpan :: "henv \<Rightarrow> string \<Rightarrow> int option" where
  "parseSpan he v =
     (if (case heParseDuration he v of Some d \<Rightarrow> d > 0 | None \<Rightarrow> False) then heParseDuration he v
      else if length v < 2 then None
      else case Atoi (butlast v) of
        None \<Rightarrow> None
      | Some n \<Rightarrow> if n \<le> 0 then None else map_option (\<lambda>u. wrap64 (n * u)) (spanUnit (last v)))"

text \<open>The zero time stands for no directive.\<close>

definition parseExpiryDirective :: "henv \<Rightarrow> hreq \<Rightarrow> time \<Rightarrow> time" where
  "parseExpiryDirective he r now =
     (let v = trimSpaceS (hdr r ''X-Gostore-Expires''); w = trimSpaceS (hdr r ''X-Gostore-Expire-After'') in
      if v \<noteq> [] then
        (case parseRFC3339 v of Some t \<Rightarrow> t | None \<Rightarrow> (case heParseRFC1123 he v of Some t \<Rightarrow> t | None \<Rightarrow> 0))
      else if w \<noteq> [] then (case parseSpan he w of Some d \<Rightarrow> now + d | None \<Rightarrow> 0)
      else 0)"

subsection \<open>Answers\<close>

text \<open>
  The documents of the answers: the fields of the XML and JSON types of \<open>xml.go\<close> and the handlers' files that vary. A listing is the
  handler's echo of the request together with the page.
\<close>

record expirationXML =
  exDays :: int
  exDate :: string
  exMarker :: bool

record lifecycleRuleXML =
  lxID :: string
  lxStatus :: string
  lxFilter :: "string option"
  lxPrefix :: string
  lxExpiration :: "expirationXML option"
  lxNoncurrent :: "int option"
  lxAbort :: "int option"
  lxTransition :: "(int \<times> string) option"

record objectXML =
  oxKey :: string
  oxModified :: time
  oxETag :: string
  oxSize :: int
  oxClass :: string
  oxOwner :: bool

record versionXML =
  vxKey :: string
  vxVersionID :: string
  vxIsLatest :: bool
  vxModified :: time
  vxETag :: string
  vxSize :: int

record listEcho =
  leBucket :: string
  lePrefix :: string
  leMarker :: string
  leToken :: string
  leDelimiter :: string
  leMaxKeys :: int
  leTruncated :: bool
  leNext :: string

datatype respBody = NoBody | Bytes bytes "streamErr option" | ErrorDoc apiCode string | CopyDoc time string
  | RetentionDoc string time | HoldDoc string | LockConfigDoc "(string \<times> int \<times> int) option" | QuotaDoc int int | FlagDoc bool
  | VersioningDoc string | LocationDoc string | TagsDoc "(string \<times> string) list" | CorsDoc "corsRule list" | NotificationDoc "webhookTarget list"
  | ReplicationDoc "replicationRule list" | LifecycleDoc "lifecycleRuleXML list" | WebsiteDoc string string | BucketListDoc "string list"
  | ListDoc listEcho "objectXML list" "string list" nat | VersionsDoc listEcho "versionXML list" "versionXML list" "string list"
  | DeletedDoc "string list" "(string \<times> string) list" | UploadDoc string string string | CompletedDoc string string string string
  | PartsDoc string string string int int int bool "partInfo list" | UploadsDoc string string string int bool string string "(string \<times> string \<times> time) list"

text \<open>The names of headers are compared without case; they are kept in lower case.\<close>

record resp =
  rsStatus :: nat
  rsHdr :: "string gomap"
  rsBody :: respBody

definition setH :: "string \<Rightarrow> string \<Rightarrow> string gomap \<Rightarrow> string gomap" where
  "setH k v h = AList.update (toLower k) v h"

definition getH :: "string \<Rightarrow> resp \<Rightarrow> string option" where
  "getH k w = map_of (rsHdr w) k"

definition setIfH :: "string \<Rightarrow> string \<Rightarrow> string gomap \<Rightarrow> string gomap" where
  "setIfH k v h = (if v = [] then h else setH k v h)"

definition writeErrorResponse :: "string gomap \<Rightarrow> apiCode \<Rightarrow> string \<Rightarrow> resp" where
  "writeErrorResponse h code resource =
     \<lparr>rsStatus = snd (GetAPIError code), rsHdr = setH ''x-gostore-error'' (fst (GetAPIError code)) (setH ''Content-Type'' ''application/xml'' h),
      rsBody = ErrorDoc code resource\<rparr>"

definition writeSuccessOK :: "string gomap \<Rightarrow> resp" where
  "writeSuccessOK h = \<lparr>rsStatus = 200, rsHdr = h, rsBody = NoBody\<rparr>"

definition writeSuccessNoContent :: "string gomap \<Rightarrow> resp" where
  "writeSuccessNoContent h = \<lparr>rsStatus = 204, rsHdr = h, rsBody = NoBody\<rparr>"

definition writeXML :: "string gomap \<Rightarrow> respBody \<Rightarrow> resp" where
  "writeXML h bd = \<lparr>rsStatus = 200, rsHdr = setH ''Content-Type'' ''application/xml'' h, rsBody = bd\<rparr>"

definition quoteETag :: "string \<Rightarrow> string" where
  "quoteETag e = (if e = [] then e else if hd e = CHR 0x22 then e else [CHR 0x22] @ e @ [CHR 0x22])"

text \<open>One entry of the user metadata in \<open>writeObjectHeaders\<close>.\<close>

definition metaHeader :: "string \<times> string \<Rightarrow> string gomap \<Rightarrow> string gomap" where
  "metaHeader kv h =
     (let lk = toLower (fst kv); base = trimPrefix (trimPrefix lk ''x-amz-meta-'') ''x-amz-'' in
      if lk \<in> {''content-type'', ''content-encoding'', ''etag''} then h
      else if hasPrefix base ''checksum-'' then setH ''x-amz-checksum-type'' ''FULL_OBJECT'' (setH (''x-amz-'' @ base) (snd kv) h)
      else if lk = ''x-amz-server-side-encryption'' then setH lk (snd kv) h
      else setH (''x-amz-meta-'' @ lk) (snd kv) h)"

definition writeObjectHeaders :: "henv \<Rightarrow> objectInfo \<Rightarrow> string gomap \<Rightarrow> string gomap" where
  "writeObjectHeaders he oi h =
     (let h1 = setH ''Last-Modified'' (heHTTPTime he (iModTime oi)) (if iETag oi = [] then h else setH ''ETag'' (quoteETag (iETag oi)) h);
          h2 = setH ''Content-Type'' (if iContentType oi = [] then octetStream else iContentType oi) h1;
          h3 = setIfH ''x-amz-version-id'' (iVersionID oi) (setH ''Accept-Ranges'' ''bytes'' (setIfH ''Content-Encoding'' (iContentEnc oi) h2));
          h4 = fold metaHeader (iUserDefined oi) h3
      in if iUserTags oi = [] then h4
         else setH ''x-amz-tagging-count'' (itoaNat (length (splitOn (CHR ''&'') (iUserTags oi)))) h4)"

end
