(* ===== verification/Notify.thy ===== *)
theory Notify
  imports ReqParse
begin

text \<open>
  Bucket notifications (\<open>internal/event/event.go\<close>) and replication (\<open>internal/replication/replication.go\<close>): which targets an event reaches, the
  attempts at delivery, and the copy to another bucket or a signed request to another server. The network is a function from the attempt
  and the request to the status of the answer, \<open>None\<close> when there is none. Each delivery is a goroutine of its own; sleeping is left out,
  and so is the lock the reader of the single-disk backend keeps, on which \<open>NsLock\<close> has a theorem.
\<close>

subsection \<open>Events\<close>

definition ObjectCreated :: string where "ObjectCreated = ''s3:ObjectCreated:Put''"
definition ObjectRemoved :: string where "ObjectRemoved = ''s3:ObjectRemoved:Delete''"

record event =
  evKind :: string
  evBucket :: string
  evKey :: string
  evSize :: int
  evETag :: string
  evVersionID :: string
  evSourceIP :: string
  evTime :: time

definition eventMatch :: "string \<Rightarrow> string \<Rightarrow> bool" where
  "eventMatch pat kind = (if hasSuffix pat '':*'' then hasPrefix kind (trimSuffix pat ''*'') else pat = kind)"

definition whMatches :: "webhookTarget \<Rightarrow> event \<Rightarrow> bool" where
  "whMatches wh e =
     (if whPrefix wh \<noteq> [] \<and> \<not> hasPrefix (evKey e) (whPrefix wh) then False
      else if whSuffix wh \<noteq> [] \<and> \<not> hasSuffix (evKey e) (whSuffix wh) then False
      else whEvents wh = [] \<or> list_ex (\<lambda>pat. eventMatch pat (evKind e)) (whEvents wh))"

text \<open>The deliveries a published event starts.\<close>

definition busPublish :: "bucketConfig \<Rightarrow> time \<Rightarrow> event \<Rightarrow> (webhookTarget \<times> event) list" where
  "busPublish cfg now e =
     (case cfgNotification cfg of
        None \<Rightarrow> []
      | Some whs \<Rightarrow>
          (let e' = (if isZero (evTime e) then e\<lparr>evTime := now\<rparr> else e) in map (\<lambda>wh. (wh, e')) (filter (\<lambda>wh. whMatches wh e') whs)))"

text \<open>The document that is posted, with the event's time in its printed form.\<close>

record eventRecord =
  erEventName :: string
  erKey :: string
  erEventTime :: string
  erSourceIP :: string
  erBucketName :: string
  erObjectKey :: string
  erObjectSize :: int
  erObjectETag :: string
  erVersionID :: string

definition eventPayload :: "henv \<Rightarrow> event \<Rightarrow> eventRecord" where
  "eventPayload he e =
     \<lparr>erEventName = evKind e, erKey = evBucket e @ ''/'' @ evKey e, erEventTime = heFormatRFC3339 he (evTime e), erSourceIP = evSourceIP e,
      erBucketName = evBucket e, erObjectKey = evKey e, erObjectSize = evSize e, erObjectETag = evETag e, erVersionID = evVersionID e\<rparr>"

text \<open>The attempts that are left; the result says whether the target took the event, and how many requests were sent.\<close>

fun deliverLoop :: "(nat \<Rightarrow> string \<Rightarrow> eventRecord \<Rightarrow> int option) \<Rightarrow> string \<Rightarrow> eventRecord \<Rightarrow> nat \<Rightarrow> nat \<Rightarrow> bool \<times> nat" where
  "deliverLoop post url er attempt 0 = (False, attempt)"
| "deliverLoop post url er attempt (Suc n) =
     (case post attempt url er of
        Some st \<Rightarrow> if st < 300 then (True, Suc attempt) else deliverLoop post url er (Suc attempt) n
      | None \<Rightarrow> deliverLoop post url er (Suc attempt) n)"

text \<open>A target whose URL does not parse gets no request at all.\<close>

definition deliver :: "henv \<Rightarrow> (string \<Rightarrow> bool) \<Rightarrow> (nat \<Rightarrow> string \<Rightarrow> eventRecord \<Rightarrow> int option) \<Rightarrow> webhookTarget \<Rightarrow> event \<Rightarrow> bool \<times> nat" where
  "deliver he urlOK post wh e = (if \<not> urlOK (whURL wh) then (False, 0) else deliverLoop post (whURL wh) (eventPayload he e) 0 3)"

subsection \<open>Replication\<close>

datatype replOp = ReplPut | ReplDelete

record replEvent =
  reOp :: replOp
  reBucket :: string
  reKey :: string

definition replPublish :: "bucketConfig \<Rightarrow> replEvent \<Rightarrow> (replicationRule \<times> replEvent) list" where
  "replPublish cfg e = map (\<lambda>r. (r, e)) (filter (\<lambda>r. rrPrefix r = [] \<or> hasPrefix (reKey e) (rrPrefix r)) (cfgReplication cfg))"

definition encPath :: "string \<Rightarrow> string" where
  "encPath p =
     concat (map (\<lambda>c. if (CHR ''A'' \<le> c \<and> c \<le> CHR ''Z'') \<or> (CHR ''a'' \<le> c \<and> c \<le> CHR ''z'') \<or> (CHR ''0'' \<le> c \<and> c \<le> CHR ''9'')
                        \<or> c \<in> {CHR ''-'', CHR ''_'', CHR ''.'', CHR ''~'', CHR ''/''} then [c]
                     else [CHR ''%'', ''0123456789ABCDEF'' ! (of_char c div 16), ''0123456789ABCDEF'' ! (of_char c mod 16)]) p)"

definition hostOf :: "string \<Rightarrow> string" where
  "hostOf endpoint =
     (let s = trimPrefix (trimPrefix endpoint ''https://'') ''http://'' in case indexByte s (CHR ''/'') of Some i \<Rightarrow> take i s | None \<Rightarrow> s)"

definition trimRightSlash :: "string \<Rightarrow> string" where
  "trimRightSlash s = rev (dropWhile (\<lambda>c. c = CHR ''/'') (rev s))"

record remoteReq =
  rmMethod :: string
  rmURL :: string
  rmHeaders :: "string gomap"
  rmAuthorization :: string
  rmBody :: bytes

definition signedHeaders :: "string \<Rightarrow> string \<Rightarrow> string \<Rightarrow> string \<Rightarrow> string gomap" where
  "signedHeaders host amzDate payloadHash contentType =
     (if contentType = [] then [] else [(''content-type'', contentType)])
       @ [(''host'', host), (''x-amz-content-sha256'', payloadHash), (''x-amz-date'', amzDate)]"

text \<open>\<open>amzDate\<close> and \<open>dateStamp\<close> are the two printed forms of the clock.\<close>

definition signedRequest ::
  "crypto \<Rightarrow> string \<Rightarrow> string \<Rightarrow> replicationRule \<Rightarrow> string \<Rightarrow> string \<Rightarrow> bytes \<Rightarrow> string \<Rightarrow> remoteReq" where
  "signedRequest c amzDate dateStamp rule method key body contentType =
     (let region = (if DestRegion rule = [] then ''us-east-1'' else DestRegion rule);
          endpoint = trimRightSlash (DestEndpoint rule);
          p = ''/'' @ DestBucket rule @ ''/'' @ key;
          payloadHash = SHA256Hex c body;
          hs = signedHeaders (hostOf endpoint) amzDate payloadHash contentType;
          names = joinWith '';'' (map fst hs);
          nl = [CHR 0x0A];
          canonHeaders = concat (map (\<lambda>(k, v). k @ '':'' @ trimSpaceS v @ nl) hs);
          canonReq = method @ nl @ encPath p @ nl @ nl @ canonHeaders @ nl @ names @ nl @ payloadHash;
          scope = dateStamp @ ''/'' @ region @ ''/s3/aws4_request'';
          sts = ''AWS4-HMAC-SHA256'' @ nl @ amzDate @ nl @ scope @ nl @ SHA256Hex c canonReq;
          sig = hexEncode (hmacRaw c (SigningKey c (DestSecretKey rule) dateStamp region ''s3'') sts)
      in \<lparr>rmMethod = method, rmURL = endpoint @ encPath p, rmHeaders = filter (\<lambda>(k, _). k \<noteq> ''host'') hs,
          rmAuthorization = ''AWS4-HMAC-SHA256 Credential='' @ DestAccessKey rule @ ''/'' @ scope @ '', SignedHeaders='' @ names @ '', Signature='' @ sig,
          rmBody = body\<rparr>)"

text \<open>A missing answer and a status from 300 on are errors, except that 404 counts as done.\<close>

definition sendOK :: "int option \<Rightarrow> bool" where
  "sendOK st = (case st of None \<Rightarrow> False | Some s \<Rightarrow> \<not> (s \<ge> 300 \<and> s \<noteq> 404))"

text \<open>What one attempt needs from outside: the clock's forms, the draws of a local write and the network.\<close>

record replEnv =
  rpCrypto :: crypto
  rpAmzDate :: string
  rpDateStamp :: string
  rpSend :: "remoteReq \<Rightarrow> int option"

definition replicatePut :: "'s olayer \<Rightarrow> replEnv \<Rightarrow> draws \<Rightarrow> replicationRule \<Rightarrow> replEvent \<Rightarrow> 's \<Rightarrow> bool \<times> 's" where
  "replicatePut L rp dr rule e s =
     (case olGet L dr (reBucket e) (reKey e) None noOptions s of
        (Inl er, s1) \<Rightarrow> (False, s1)
      | (Inr (oi, body, err), s1) \<Rightarrow>
          if DestEndpoint rule = [] then
            (case olPut L dr (DestBucket rule) (reKey e) \<lparr>rdata = body, rfails = (err \<noteq> None)\<rparr> (iSize oi) (noOptions\<lparr>oUserDefined := iUserDefined oi\<rparr>) s1 of
               (r, s2) \<Rightarrow> (\<not> isl r, s2))
          else if err \<noteq> None then (False, s1)
          else (sendOK (rpSend rp (signedRequest (rpCrypto rp) (rpAmzDate rp) (rpDateStamp rp) rule ''PUT'' (reKey e) body
                  (if iContentType oi = [] then octetStream else iContentType oi))), s1))"

definition replicateDelete :: "'s olayer \<Rightarrow> replEnv \<Rightarrow> draws \<Rightarrow> replicationRule \<Rightarrow> replEvent \<Rightarrow> 's \<Rightarrow> bool \<times> 's" where
  "replicateDelete L rp dr rule e s =
     (if DestEndpoint rule = [] then
        (case olDelete L dr (DestBucket rule) (reKey e) noOptions s of (r, s1) \<Rightarrow> (\<not> isl r, s1))
      else (sendOK (rpSend rp (signedRequest (rpCrypto rp) (rpAmzDate rp) (rpDateStamp rp) rule ''DELETE'' (reKey e) [] [])), s))"

text \<open>The environments and draws of the attempts that are left.\<close>

fun replRun :: "'s olayer \<Rightarrow> (replEnv \<times> draws) list \<Rightarrow> replicationRule \<Rightarrow> replEvent \<Rightarrow> 's \<Rightarrow> bool \<times> 's" where
  "replRun L [] rule e s = (False, s)"
| "replRun L ((rp, dr) # as) rule e s =
     (case (if reOp e = ReplDelete then replicateDelete L rp dr rule e s else replicatePut L rp dr rule e s) of
        (True, s1) \<Rightarrow> (True, s1) | (False, s1) \<Rightarrow> replRun L as rule e s1)"

subsection \<open>Deliveries\<close>

text \<open>A target that answers one of three attempts gets the event; it gets no further request after that.\<close>

lemma deliverLoop_attempts:
  assumes "a \<le> i" "i < a + n" "post i url er = Some st" "st < 300" "\<And>j. a \<le> j \<Longrightarrow> j < i \<Longrightarrow> (case post j url er of Some s \<Rightarrow> s \<ge> 300 | None \<Rightarrow> True)"
  shows "deliverLoop post url er a n = (True, Suc i)"
  using assms
proof (induction n arbitrary: a)
  case (Suc n)
  show ?case
  proof (cases "i = a")
    case False
    then have "case post a url er of Some s \<Rightarrow> s \<ge> 300 | None \<Rightarrow> True" using Suc.prems by auto
    moreover have "deliverLoop post url er (Suc a) n = (True, Suc i)" using Suc.IH [of "Suc a"] Suc.prems False by auto
    ultimately show ?thesis by (auto split: option.splits)
  qed (use Suc.prems in simp)
qed simp

end
