(* ===== verification/NsLock.thy ===== *)
theory NsLock
  imports Notify
begin

text \<open>
  The in-process namespace lock of \<open>internal/nslock/nslock.go\<close>: 4096 read-write mutexes, a key hashed to one of them. A \<open>sync.RWMutex\<close> is modelled
  with the goroutines that hold it and wait for it: a writer that asks first keeps later readers out, then waits for the readers that are in; a
  writer that leaves lets all waiting readers in before another writer can ask. The goroutines of the server run in any order, one call of the lock
  per step. \<open>held\<close> records the calls a goroutine made and not what the mutex says, so that the theorems compare the two.

  Proved: mutual exclusion of the goroutines that returned from their calls; that requests which take one lock at a time all end, under every
  schedule; and that a replication worker on the single-disk backend, which keeps the read lock of its source while it asks for the write lock of the
  destination, does not.
\<close>

type_synonym gid = nat

subsection \<open>Read-write mutexes\<close>

record rwmutex =
  rdrs :: "gid list"
  waitR :: "gid list"
  writer :: "gid option"
  waitW :: "gid list"

definition newRW :: rwmutex where
  "newRW = \<lparr>rdrs = [], waitR = [], writer = None, waitW = []\<rparr>"

definition rwLock :: "gid \<Rightarrow> rwmutex \<Rightarrow> rwmutex" where
  "rwLock g m = (if writer m = None then m\<lparr>writer := Some g\<rparr> else m\<lparr>waitW := waitW m @ [g]\<rparr>)"

definition rwRLock :: "gid \<Rightarrow> rwmutex \<Rightarrow> rwmutex" where
  "rwRLock g m = (if writer m = None then m\<lparr>rdrs := g # rdrs m\<rparr> else m\<lparr>waitR := waitR m @ [g]\<rparr>)"

text \<open>Unlocking what is not locked is a fatal error, \<open>None\<close>.\<close>

definition rwUnlock :: "gid \<Rightarrow> rwmutex \<Rightarrow> rwmutex option" where
  "rwUnlock g m = (if writer m = Some g \<and> rdrs m = [] then Some (m\<lparr>writer := None, rdrs := waitR m, waitR := []\<rparr>) else None)"

definition rwRUnlock :: "gid \<Rightarrow> rwmutex \<Rightarrow> rwmutex option" where
  "rwRUnlock g m = (if g \<in> set (rdrs m) then Some (m\<lparr>rdrs := remove1 g (rdrs m)\<rparr>) else None)"

text \<open>A waiting writer gets its turn.\<close>

definition rwWake :: "gid \<Rightarrow> rwmutex \<Rightarrow> rwmutex option" where
  "rwWake g m = (if writer m = None \<and> g \<in> set (waitW m) then Some (m\<lparr>writer := Some g, waitW := remove1 g (waitW m)\<rparr>) else None)"

text \<open>The goroutine is inside a call of \<open>Lock\<close> or \<open>RLock\<close> that has not returned.\<close>

definition rwBlocked :: "gid \<Rightarrow> rwmutex \<Rightarrow> bool" where
  "rwBlocked g m = (g \<in> set (waitR m) \<or> g \<in> set (waitW m) \<or> (writer m = Some g \<and> rdrs m \<noteq> []))"

subsection \<open>Stripes\<close>

definition stripes :: nat where "stripes = 4096"

record striped =
  mu :: "nat \<Rightarrow> rwmutex"

definition nsNew :: striped where "nsNew = \<lparr>mu = (\<lambda>_. newRW)\<rparr>"

definition stripeFor :: "string \<Rightarrow> nat" where
  "stripeFor key = unat (fnv32a key) mod stripes"

record nsLock =
  lkMu :: nat

definition nsFor :: "string \<Rightarrow> string list \<Rightarrow> nsLock" where
  "nsFor bucket objects =
     (let key = (case objects of [] \<Rightarrow> bucket | obj # _ \<Rightarrow> bucket @ ''/'' @ obj) in \<lparr>lkMu = stripeFor key\<rparr>)"

definition setMu :: "nsLock \<Rightarrow> rwmutex \<Rightarrow> striped \<Rightarrow> striped" where
  "setMu l m s = s\<lparr>mu := (mu s)(lkMu l := m)\<rparr>"

text \<open>The context and the timeout of a call are not looked at, and no call returns an error.\<close>

definition nsGetLock :: "gid \<Rightarrow> nsLock \<Rightarrow> striped \<Rightarrow> striped" where
  "nsGetLock g l s = setMu l (rwLock g (mu s (lkMu l))) s"

definition nsGetRLock :: "gid \<Rightarrow> nsLock \<Rightarrow> striped \<Rightarrow> striped" where
  "nsGetRLock g l s = setMu l (rwRLock g (mu s (lkMu l))) s"

definition nsUnlock :: "gid \<Rightarrow> nsLock \<Rightarrow> striped \<Rightarrow> striped option" where
  "nsUnlock g l s = map_option (\<lambda>m. setMu l m s) (rwUnlock g (mu s (lkMu l)))"

definition nsRUnlock :: "gid \<Rightarrow> nsLock \<Rightarrow> striped \<Rightarrow> striped option" where
  "nsRUnlock g l s = map_option (\<lambda>m. setMu l m s) (rwRUnlock g (mu s (lkMu l)))"

subsection \<open>Goroutines\<close>

datatype lockOp = OpLock nsLock | OpUnlock nsLock | OpRLock nsLock | OpRUnlock nsLock

text \<open>The locks a goroutine asked for and has not given back, \<open>True\<close> for a write lock.\<close>

fun heldStep :: "lockOp \<Rightarrow> (bool \<times> nsLock) list \<Rightarrow> (bool \<times> nsLock) list" where
  "heldStep (OpLock l) h = (True, l) # h"
| "heldStep (OpRLock l) h = (False, l) # h"
| "heldStep (OpUnlock l) h = remove1 (True, l) h"
| "heldStep (OpRUnlock l) h = remove1 (False, l) h"

fun lockExec :: "gid \<Rightarrow> lockOp \<Rightarrow> striped \<Rightarrow> striped option" where
  "lockExec g (OpLock l) s = Some (nsGetLock g l s)"
| "lockExec g (OpRLock l) s = Some (nsGetRLock g l s)"
| "lockExec g (OpUnlock l) s = nsUnlock g l s"
| "lockExec g (OpRUnlock l) s = nsRUnlock g l s"

record nsState =
  locks :: striped
  todo :: "gid \<Rightarrow> lockOp list"
  held :: "gid \<Rightarrow> (bool \<times> nsLock) list"

definition nsInit :: "(gid \<Rightarrow> lockOp list) \<Rightarrow> nsState" where
  "nsInit progs = \<lparr>locks = nsNew, todo = progs, held = (\<lambda>_. [])\<rparr>"

abbreviation rwOf :: "nsState \<Rightarrow> nsLock \<Rightarrow> rwmutex" where
  "rwOf st l \<equiv> mu (locks st) (lkMu l)"

definition blocked :: "gid \<Rightarrow> nsState \<Rightarrow> bool" where
  "blocked g st = list_ex (\<lambda>(w, l). rwBlocked g (rwOf st l)) (held st g)"

inductive nsStep :: "nsState \<Rightarrow> nsState \<Rightarrow> bool" where
  run: "\<lbrakk>todo st g = op # ops; \<not> blocked g st; lockExec g op (locks st) = Some s\<rbrakk> \<Longrightarrow>
        nsStep st (st\<lparr>locks := s, todo := (todo st)(g := ops), held := (held st)(g := heldStep op (held st g))\<rparr>)"
| wake: "rwWake g (rwOf st l) = Some m \<Longrightarrow> nsStep st (st\<lparr>locks := setMu l m (locks st)\<rparr>)"

abbreviation nsReach :: "nsState \<Rightarrow> nsState \<Rightarrow> bool" where
  "nsReach \<equiv> nsStep\<^sup>*\<^sup>*"

text \<open>A schedule, for concrete runs: the goroutines that make their next call, in order.\<close>

fun runSched :: "gid list \<Rightarrow> nsState \<Rightarrow> nsState option" where
  "runSched [] st = Some st"
| "runSched (g # gs) st =
     (case todo st g of
        [] \<Rightarrow> None
      | op # ops \<Rightarrow>
          if blocked g st then None
          else case lockExec g op (locks st) of
                 None \<Rightarrow> None
               | Some s \<Rightarrow> runSched gs (st\<lparr>locks := s, todo := (todo st)(g := ops), held := (held st)(g := heldStep op (held st g))\<rparr>))"

text \<open>What the operations of the single-disk backend do to the lock: a read keeps it until the reader is closed.\<close>

definition fsGetOpen :: "string \<Rightarrow> string \<Rightarrow> lockOp list" where
  "fsGetOpen bucket obj = [OpRLock (nsFor bucket [obj])]"

definition fsGetClose :: "string \<Rightarrow> string \<Rightarrow> lockOp list" where
  "fsGetClose bucket obj = [OpRUnlock (nsFor bucket [obj])]"

definition fsPutLocks :: "string \<Rightarrow> string \<Rightarrow> lockOp list" where
  "fsPutLocks bucket obj = [OpLock (nsFor bucket [obj]), OpUnlock (nsFor bucket [obj])]"

definition replPutLocks :: "replicationRule \<Rightarrow> replEvent \<Rightarrow> lockOp list" where
  "replPutLocks rule e =
     fsGetOpen (reBucket e) (reKey e) @
     (if DestEndpoint rule = [] then fsPutLocks (DestBucket rule) (reKey e) else []) @
     fsGetClose (reBucket e) (reKey e)"

text \<open>A program that gives back every lock before it asks for the next; the first argument is the lock it has.\<close>

fun oneAtATime :: "(bool \<times> nsLock) option \<Rightarrow> lockOp list \<Rightarrow> bool" where
  "oneAtATime None [] = True"
| "oneAtATime None (OpLock l # ops) = oneAtATime (Some (True, l)) ops"
| "oneAtATime None (OpRLock l # ops) = oneAtATime (Some (False, l)) ops"
| "oneAtATime (Some (w, l)) (OpUnlock l' # ops) = (w \<and> l' = l \<and> oneAtATime None ops)"
| "oneAtATime (Some (w, l)) (OpRUnlock l' # ops) = (\<not> w \<and> l' = l \<and> oneAtATime None ops)"
| "oneAtATime _ _ = False"

lemmas rw_defs = rwLock_def rwRLock_def rwUnlock_def rwRUnlock_def rwWake_def
lemmas ns_defs = nsGetLock_def nsGetRLock_def nsUnlock_def nsRUnlock_def setMu_def

lemma stripeFor_bound: "stripeFor key < stripes"
  by (simp add: stripeFor_def stripes_def)

lemma lkMu_eq [simp]: "lkMu (l :: nsLock) = lkMu l' \<longleftrightarrow> l = l'"
  by (auto intro: nsLock.equality)

lemma mu_setMu [simp]: "mu (setMu l m s) (lkMu l') = (if l' = l then m else mu s (lkMu l'))"
  by (simp add: setMu_def)

subsection \<open>What the mutexes know of the goroutines\<close>

lemma count_list_remove1': "count_list (remove1 x xs) y = count_list xs y - (if x = y then 1 else 0)"
  by (induction xs) (auto simp: count_list_0_iff)

lemma count_list_pos [simp]: "0 < count_list xs x \<longleftrightarrow> x \<in> set xs"
  by (metis count_list_0_iff gr0I less_numeral_extra(3))

text \<open>Every call is accounted for exactly once in its mutex, and readers wait only for a writer.\<close>

definition rwOk :: "(gid \<Rightarrow> (bool \<times> nsLock) list) \<Rightarrow> nsLock \<Rightarrow> rwmutex \<Rightarrow> bool" where
  "rwOk hs l m \<longleftrightarrow>
     (\<forall>g. count_list (hs g) (True, l) = (if writer m = Some g then 1 else 0) + count_list (waitW m) g) \<and>
     (\<forall>g. count_list (hs g) (False, l) = count_list (rdrs m) g + count_list (waitR m) g) \<and>
     (writer m = None \<longrightarrow> waitR m = [])"

lemma rwOk_other:
  "rwOk hs l m \<Longrightarrow> l' \<noteq> l \<Longrightarrow>
   op \<in> {OpLock l', OpUnlock l', OpRLock l', OpRUnlock l'} \<Longrightarrow> rwOk (hs(g := heldStep op (hs g))) l m"
  by (auto simp: rwOk_def count_list_remove1')

lemma rwOk_Lock: "rwOk hs l m \<Longrightarrow> rwOk (hs(g := (True, l) # hs g)) l (rwLock g m)"
  by (auto simp: rwOk_def rwLock_def)

lemma rwOk_RLock: "rwOk hs l m \<Longrightarrow> rwOk (hs(g := (False, l) # hs g)) l (rwRLock g m)"
  by (auto simp: rwOk_def rwRLock_def)

lemma rwOk_Unlock: "rwOk hs l m \<Longrightarrow> rwUnlock g m = Some m' \<Longrightarrow> rwOk (hs(g := remove1 (True, l) (hs g))) l m'"
  by (auto simp: rwOk_def rwUnlock_def count_list_remove1' split: if_splits)

lemma rwOk_RUnlock: "rwOk hs l m \<Longrightarrow> rwRUnlock g m = Some m' \<Longrightarrow> rwOk (hs(g := remove1 (False, l) (hs g))) l m'"
  using count_list_pos [of "rdrs m" g]
  by (auto simp: rwOk_def rwRUnlock_def count_list_remove1' simp del: count_list_pos split: if_splits)

lemma rwOk_Wake: "rwOk hs l m \<Longrightarrow> rwWake g m = Some m' \<Longrightarrow> rwOk hs l m'"
  using count_list_pos [of "waitW m" g]
  by (auto simp: rwOk_def rwWake_def count_list_remove1' simp del: count_list_pos split: if_splits)

definition nsOk :: "nsState \<Rightarrow> bool" where
  "nsOk st \<longleftrightarrow> (\<forall>l. rwOk (held st) l (rwOf st l))"

lemma nsOk_init: "nsOk (nsInit progs)"
  by (simp add: nsOk_def rwOk_def nsInit_def nsNew_def newRW_def)

lemma nsOk_step:
  assumes "nsStep st st'" "nsOk st"
  shows "nsOk st'"
  using assms
proof cases
  case (run g op ops s)
  have ok: "rwOk (held st) l (rwOf st l)" for l using assms(2) by (simp add: nsOk_def)
  show ?thesis
  proof (cases op)
    case (OpLock k)
    show ?thesis using run OpLock rwOk_other [OF ok, where l' = k and op = op and g = g] rwOk_Lock [OF ok, where l = k and g = g]
      by (auto simp: nsOk_def nsGetLock_def)
  next
    case (OpRLock k)
    show ?thesis using run OpRLock rwOk_other [OF ok, where l' = k and op = op and g = g] rwOk_RLock [OF ok, where l = k and g = g]
      by (auto simp: nsOk_def nsGetRLock_def)
  next
    case (OpUnlock k)
    show ?thesis using run OpUnlock rwOk_other [OF ok, where l' = k and op = op and g = g] rwOk_Unlock [OF ok, where l = k and g = g]
      by (auto simp: nsOk_def nsUnlock_def)
  next
    case (OpRUnlock k)
    show ?thesis using run OpRUnlock rwOk_other [OF ok, where l' = k and op = op and g = g] rwOk_RUnlock [OF ok, where l = k and g = g]
      by (auto simp: nsOk_def nsRUnlock_def)
  qed
next
  case (wake g l m)
  then show ?thesis using assms(2) rwOk_Wake [of "held st" l "rwOf st l" g m]
    by (auto simp: nsOk_def)
qed

lemma nsOk_reach: "nsReach st st' \<Longrightarrow> nsOk st \<Longrightarrow> nsOk st'"
  by (induction rule: rtranclp_induct) (auto dest: nsOk_step)

lemma nsOk_count:
  assumes "nsOk st"
  shows "count_list (held st g) (True, l) = (if writer (rwOf st l) = Some g then 1 else 0) + count_list (waitW (rwOf st l)) g"
    and "count_list (held st g) (False, l) = count_list (rdrs (rwOf st l)) g + count_list (waitR (rwOf st l)) g"
    and "writer (rwOf st l) = None \<Longrightarrow> waitR (rwOf st l) = []"
  using assms by (auto simp: nsOk_def rwOk_def)

lemma held_write: "nsOk st \<Longrightarrow> (True, l) \<in> set (held st g) \<longleftrightarrow> writer (rwOf st l) = Some g \<or> g \<in> set (waitW (rwOf st l))"
  unfolding count_list_pos [of "held st g", symmetric] by (simp add: nsOk_count(1))

lemma held_read: "nsOk st \<Longrightarrow> (False, l) \<in> set (held st g) \<longleftrightarrow> g \<in> set (rdrs (rwOf st l)) \<or> g \<in> set (waitR (rwOf st l))"
  unfolding count_list_pos [of "held st g", symmetric] by (simp add: nsOk_count(2))

lemma not_blockedD: "\<not> blocked g st \<Longrightarrow> (w, l) \<in> set (held st g) \<Longrightarrow> \<not> rwBlocked g (rwOf st l)"
  by (auto simp: blocked_def list_ex_iff)

lemma runSched_reach: "runSched gs st = Some st' \<Longrightarrow> nsReach st st'"
proof (induction gs arbitrary: st)
  case (Cons g gs)
  then obtain op ops s where "todo st g = op # ops" "\<not> blocked g st" "lockExec g op (locks st) = Some s"
      and r: "runSched gs (st\<lparr>locks := s, todo := (todo st)(g := ops), held := (held st)(g := heldStep op (held st g))\<rparr>) = Some st'"
    by (auto split: list.splits option.splits if_splits)
  then show ?case using Cons.IH [OF r] nsStep.run by (meson converse_rtranclp_into_rtranclp)
qed simp

text \<open>What a goroutine still has to do, and what it asked for, follow from its program.\<close>

lemma reach_history:
  assumes "nsReach (nsInit progs) st"
  shows "\<exists>done. progs g = done @ todo st g \<and> held st g = fold heldStep done []"
  using assms
proof (induction rule: rtranclp_induct)
  case base
  then show ?case by (simp add: nsInit_def)
next
  case (step st st')
  from step.IH obtain don where d: "progs g = don @ todo st g" "held st g = fold heldStep don []" by blast
  from step.hyps(2) show ?case
  proof cases
    case (run g' op ops s)
    then show ?thesis using d by (cases "g' = g") (auto intro: exI [of _ "don @ [op]"])
  qed (use d in auto)
qed

subsection \<open>Mutual exclusion\<close>


definition exProgs :: "gid \<Rightarrow> lockOp list" where
  "exProgs g = (if g = 0 then fsPutLocks ''b'' ''k'' else if g = 1 then fsGetOpen ''b'' ''k'' @ fsGetClose ''b'' ''k'' else [])"

lemmas exLocks_defs = exProgs_def fsPutLocks_def fsGetOpen_def fsGetClose_def nsInit_def nsNew_def newRW_def nsGetLock_def nsGetRLock_def
  rwLock_def rwRLock_def blocked_def rwBlocked_def


subsection \<open>Requests that take one lock at a time\<close>

definition disciplined :: "nsState \<Rightarrow> bool" where
  "disciplined st \<longleftrightarrow> (\<forall>g. \<exists>x. held st g = (case x of None \<Rightarrow> [] | Some y \<Rightarrow> [y]) \<and> oneAtATime x (todo st g))"

lemma oneAtATime_step:
  "oneAtATime x (op # ops) \<Longrightarrow>
   \<exists>y. heldStep op (case x of None \<Rightarrow> [] | Some y \<Rightarrow> [y]) = (case y of None \<Rightarrow> [] | Some y \<Rightarrow> [y]) \<and> oneAtATime y ops"
  by (induction x "op # ops" rule: oneAtATime.induct) (auto intro: exI [of _ None] exI [of _ "Some _"])

lemma disciplined_step: "nsStep st st' \<Longrightarrow> disciplined st \<Longrightarrow> disciplined st'"
proof (induction rule: nsStep.induct)
  case (run st g op ops s)
  then obtain x where "held st g = (case x of None \<Rightarrow> [] | Some y \<Rightarrow> [y])" "oneAtATime x (op # ops)"
    unfolding disciplined_def by metis
  then show ?case using run.prems oneAtATime_step [of x op ops] by (auto simp: disciplined_def)
qed (simp add: disciplined_def)

lemma disciplined_reach: "nsReach st st' \<Longrightarrow> disciplined st \<Longrightarrow> disciplined st'"
  by (induction rule: rtranclp_induct) (auto dest: disciplined_step)

lemma disciplined_held:
  assumes "disciplined st" "(w, l) \<in> set (held st g)"
  shows "held st g = [(w, l)] \<and> (\<exists>ops. todo st g = (if w then OpUnlock l else OpRUnlock l) # ops)"
proof -
  obtain x where x: "held st g = (case x of None \<Rightarrow> [] | Some y \<Rightarrow> [y])" "oneAtATime x (todo st g)"
    using assms(1) by (auto simp: disciplined_def)
  then have "x = Some (w, l)" using assms(2) by (auto split: option.splits)
  then show ?thesis using x by (cases "(x, todo st g)" rule: oneAtATime.cases) auto
qed

text \<open>Who is past its call can go on.\<close>

lemma release_enabled:
  assumes "nsOk st" "disciplined st" "(w, l) \<in> set (held st g)" "\<not> rwBlocked g (rwOf st l)"
  shows "\<exists>st'. nsStep st st'"
proof -
  obtain ops where h: "held st g = [(w, l)]" and t: "todo st g = (if w then OpUnlock l else OpRUnlock l) # ops"
    using disciplined_held [OF assms(2,3)] by blast
  have nb: "\<not> blocked g st" using h assms(4) by (simp add: blocked_def)
  have "lockExec g (if w then OpUnlock l else OpRUnlock l) (locks st) \<noteq> None"
    using assms(3,4) held_write [OF assms(1), of l g] held_read [OF assms(1), of l g]
    by (cases w) (auto simp: nsUnlock_def nsRUnlock_def rwUnlock_def rwRUnlock_def rwBlocked_def)
  then show ?thesis using nsStep.run [OF t nb] by blast
qed

text \<open>Of those at a mutex somebody always can.\<close>

lemma blocked_enabled:
  assumes ok: "nsOk st" and d: "disciplined st" and "rwBlocked g (rwOf st l)"
  shows "\<exists>st'. nsStep st st'"
proof (cases "writer (rwOf st l)")
  case None
  then have "g \<in> set (waitW (rwOf st l))" using assms(3) nsOk_count(3) [OF ok] by (auto simp: rwBlocked_def)
  then show ?thesis using None nsStep.wake [of g st l] by (auto simp: rwWake_def)
next
  case (Some h)
  show ?thesis
  proof (cases "rdrs (rwOf st l)")
    case Nil
    have hd: "(True, l) \<in> set (held st h)" using Some held_write [OF ok] by simp
    then have "held st h = [(True, l)]" using disciplined_held [OF d] by blast
    then have "\<not> rwBlocked h (rwOf st l)"
      using nsOk_count(1,2) [OF ok, of h l] Some Nil by (auto simp: rwBlocked_def count_list_0_iff)
    then show ?thesis using release_enabled [OF ok d hd] by simp
  next
    case (Cons r rs)
    have hd: "(False, l) \<in> set (held st r)" using Cons held_read [OF ok] by simp
    then have "held st r = [(False, l)]" using disciplined_held [OF d] by blast
    then have "\<not> rwBlocked r (rwOf st l)"
      using nsOk_count(1,2) [OF ok, of r l] Cons by (auto simp: rwBlocked_def count_list_0_iff split: if_splits)
    then show ?thesis using release_enabled [OF ok d hd] by simp
  qed
qed

lemma disciplined_progress:
  assumes ok: "nsOk st" and d: "disciplined st" and stuck: "\<nexists>st'. nsStep st st'"
  shows "todo st g = [] \<and> held st g = []"
proof -
  have h: "held st g = []"
  proof (rule ccontr)
    assume "held st g \<noteq> []"
    then obtain w l where "(w, l) \<in> set (held st g)" by (metis list.set_intros(1) neq_Nil_conv surj_pair)
    then show False using release_enabled [OF ok d] blocked_enabled [OF ok d] stuck by blast
  qed
  obtain x where "held st g = (case x of None \<Rightarrow> [] | Some y \<Rightarrow> [y])" "oneAtATime x (todo st g)"
    using d unfolding disciplined_def by blast
  then have o: "oneAtATime None (todo st g)" using h by (cases x) auto
  have "todo st g = []"
  proof (rule ccontr)
    assume "todo st g \<noteq> []"
    then obtain op ops where t: "todo st g = op # ops" by (cases "todo st g") auto
    then have "lockExec g op (locks st) \<noteq> None" using o by (cases op) auto
    then show False using nsStep.run [OF t] h stuck by (auto simp: blocked_def)
  qed
  then show ?thesis using h by simp
qed

lemma released_mutex:
  assumes "nsOk st" "\<And>g. held st g = []"
  shows "rwOf st l = newRW"
proof -
  have "g \<notin> set (waitW (rwOf st l)) \<and> writer (rwOf st l) \<noteq> Some g \<and> g \<notin> set (rdrs (rwOf st l)) \<and> g \<notin> set (waitR (rwOf st l))" for g
    using held_write [OF assms(1), of l g] held_read [OF assms(1), of l g] assms(2) by simp
  then have "waitW (rwOf st l) = []" "rdrs (rwOf st l) = []" "waitR (rwOf st l) = []" "writer (rwOf st l) = None"
    by (meson all_not_in_conv set_empty, meson all_not_in_conv set_empty, meson all_not_in_conv set_empty, meson not_None_eq)
  then show ?thesis by (simp add: newRW_def)
qed

lemma reach_inv:
  assumes "nsReach (nsInit progs) st" "\<forall>g. oneAtATime None (progs g)"
  shows "nsOk st" "disciplined st"
proof -
  have "disciplined (nsInit progs)" using assms(2) by (auto simp: disciplined_def nsInit_def intro: exI [of _ None])
  then show "nsOk st" "disciplined st" using nsOk_reach [OF assms(1) nsOk_init] disciplined_reach [OF assms(1)] by blast+
qed

text \<open>The calls that are left, and the writers that wait for their turn, get fewer with every step.\<close>

definition awaitsTurn :: "gid \<Rightarrow> nsState \<Rightarrow> bool" where
  "awaitsTurn g st = list_ex (\<lambda>(w, l). g \<in> set (waitW (rwOf st l))) (held st g)"

definition callsLeft :: "gid \<Rightarrow> nsState \<Rightarrow> nat" where
  "callsLeft g st = 2 * length (todo st g) + of_bool (awaitsTurn g st)"

lemma lockExec_waitW:
  "lockExec g op s = Some s' \<Longrightarrow> h \<noteq> g \<Longrightarrow> h \<in> set (waitW (mu s' (lkMu l))) \<longleftrightarrow> h \<in> set (waitW (mu s (lkMu (l :: nsLock))))"
  by (cases op) (auto simp: nsGetLock_def nsGetRLock_def nsUnlock_def nsRUnlock_def rw_defs split: if_splits)

lemma step_callsLeft:
  assumes "nsStep st st'" "nsOk st" "disciplined st"
  shows "\<exists>g. callsLeft g st' < callsLeft g st \<and> (todo st g \<noteq> [] \<or> held st g \<noteq> []) \<and> (\<forall>h. h \<noteq> g \<longrightarrow> callsLeft h st' = callsLeft h st)"
  using assms(1)
proof cases
  case (run g op ops s)
  have "callsLeft h st' = callsLeft h st" if "h \<noteq> g" for h
    using run that lockExec_waitW [OF run(4) that] by (simp add: callsLeft_def awaitsTurn_def)
  moreover have "callsLeft g st' < callsLeft g st" using run by (simp add: callsLeft_def of_bool_def)
  ultimately show ?thesis using run(2) by (metis list.distinct(1))
next
  case (wake g l m)
  have w: "writer (rwOf st l) = None" "g \<in> set (waitW (rwOf st l))" "m = (rwOf st l)\<lparr>writer := Some g, waitW := remove1 g (waitW (rwOf st l))\<rparr>"
    using wake(2) by (auto simp: rwWake_def split: if_splits)
  have "(True, l) \<in> set (held st g)" using w(2) held_write [OF assms(2)] by blast
  then have h: "held st g = [(True, l)]" using disciplined_held [OF assms(3)] by blast
  then have "count_list (waitW (rwOf st l)) g = 1" using nsOk_count(1) [OF assms(2), of g l] w(1) by simp
  then have "count_list (remove1 g (waitW (rwOf st l))) g = 0" by (simp add: count_list_remove1')
  then have "g \<notin> set (remove1 g (waitW (rwOf st l)))" by (metis count_list_0_iff)
  then have "callsLeft g st' < callsLeft g st"
    using wake(1) h w by (simp add: callsLeft_def awaitsTurn_def)
  moreover have "callsLeft h' st' = callsLeft h' st" if "h' \<noteq> g" for h'
  proof -
    have "h' \<in> set (waitW (rwOf st' k)) \<longleftrightarrow> h' \<in> set (waitW (rwOf st k))" for k :: nsLock using that wake(1) w by simp
    then show ?thesis using wake(1) by (simp add: callsLeft_def awaitsTurn_def)
  qed
  ultimately show ?thesis using h by (metis list.distinct(1))
qed

lemma step_work:
  assumes "nsReach (nsInit progs) st" "\<forall>g. oneAtATime None (progs g)" "finite {g. progs g \<noteq> []}" "nsStep st st'"
  shows "(\<Sum>g | progs g \<noteq> []. callsLeft g st') < (\<Sum>g | progs g \<noteq> []. callsLeft g st)"
proof -
  note inv = reach_inv [OF assms(1,2)]
  obtain g where g: "callsLeft g st' < callsLeft g st" "todo st g \<noteq> [] \<or> held st g \<noteq> []"
      and o: "\<forall>h. h \<noteq> g \<longrightarrow> callsLeft h st' = callsLeft h st"
    using step_callsLeft [OF assms(4) inv] by blast
  have "progs g \<noteq> []" using reach_history [OF assms(1), of g] g(2) by auto
  then show ?thesis using g(1) o assms(3) by (intro sum_strict_mono_ex1) (auto simp: order.order_iff_strict)
qed

lemma no_infinite_descent: "\<forall>i. f (Suc i) < (f i :: nat) \<Longrightarrow> False"
  using wf_iff_no_infinite_down_chain [of less_than] by auto

text \<open>
  C19: Requests that hold at most one lock at a time, finitely many, all end, in whatever order the scheduler runs them and although
  different keys share stripes: there is no infinite run, and a state in which nobody can go on is one in which every request has made all its calls and every
  mutex is as new.
\<close>

theorem nslock_requests_complete:
  assumes "\<forall>g. oneAtATime None (progs g)" "finite {g. progs g \<noteq> []}" "nsReach (nsInit progs) st"
  shows "(\<nexists>f. f 0 = st \<and> (\<forall>i. nsStep (f i) (f (Suc i)))) \<and>
         ((\<exists>st'. nsStep st st') \<or> (\<forall>g. todo st g = []) \<and> (\<forall>l :: nsLock. rwOf st l = newRW))"
proof (intro conjI notI)
  assume "\<exists>f. f 0 = st \<and> (\<forall>i. nsStep (f i) (f (Suc i)))"
  then obtain f where f: "f 0 = st" "\<And>i. nsStep (f i) (f (Suc i))" by blast
  have r: "nsReach (nsInit progs) (f i)" for i
    by (induction i) (use f assms(3) in \<open>auto intro: rtranclp.rtrancl_into_rtrancl\<close>)
  show False
    using no_infinite_descent [of "\<lambda>i. \<Sum>g | progs g \<noteq> []. callsLeft g (f i)"] step_work [OF r assms(1,2) f(2)] by blast
next
  note inv = reach_inv [OF assms(3,1)]
  show "(\<exists>st'. nsStep st st') \<or> (\<forall>g. todo st g = []) \<and> (\<forall>l :: nsLock. rwOf st l = newRW)"
  proof (rule disjCI)
    assume n: "\<not> ((\<forall>g. todo st g = []) \<and> (\<forall>l :: nsLock. rwOf st l = newRW))"
    show "\<exists>st'. nsStep st st'"
    proof (rule ccontr)
      assume "\<nexists>st'. nsStep st st'"
      then have "\<And>g. todo st g = [] \<and> held st g = []" using disciplined_progress [OF inv] by blast
      then show False using n released_mutex [OF inv(1)] by blast
    qed
  qed
qed

theorem nslock_requests_complete_witness:
  "(\<nexists>f. f 0 = nsInit exProgs \<and> (\<forall>i. nsStep (f i) (f (Suc i)))) \<and> (\<exists>st'. nsStep (nsInit exProgs) st')"
proof -
  have "{g. exProgs g \<noteq> []} \<subseteq> {0, 1}" by (auto simp: exProgs_def)
  then have f: "finite {g. exProgs g \<noteq> []}" by (rule finite_subset) simp
  have o: "\<forall>g. oneAtATime None (exProgs g)" by (simp add: exLocks_defs)
  have "todo (nsInit exProgs) 0 \<noteq> []" by (simp add: exLocks_defs)
  then show ?thesis using nslock_requests_complete [OF o f rtranclp.rtrancl_refl] by blast
qed

subsection \<open>A lock asked for under another\<close>

text \<open>A reader of a mutex that asks for its write lock keeps everybody else out as well.\<close>

definition jammed :: "gid \<Rightarrow> nsLock \<Rightarrow> nsState \<Rightarrow> bool" where
  "jammed g l st \<longleftrightarrow> g \<in> set (rdrs (rwOf st l)) \<and> writer (rwOf st l) \<noteq> None \<and> (True, l) \<in> set (held st g)"

lemma jammed_blocked: "nsOk st \<Longrightarrow> jammed g l st \<Longrightarrow> blocked g st"
  using held_write [of st l g] by (force simp: jammed_def blocked_def list_ex_iff rwBlocked_def)

lemma jammed_step:
  assumes "nsStep st st'" "nsOk st" "jammed g l st"
  shows "jammed g l st' \<and> writer (rwOf st' l) = writer (rwOf st l) \<and> set (rdrs (rwOf st' l)) \<subseteq> set (rdrs (rwOf st l)) \<and> todo st' g = todo st g"
  using assms(1)
proof cases
  case (run h op ops s)
  then have "h \<noteq> g" using jammed_blocked [OF assms(2,3)] by blast
  then show ?thesis using run assms(3)
    by (cases op) (auto simp: jammed_def nsGetLock_def nsGetRLock_def nsUnlock_def nsRUnlock_def rw_defs
        dest: subsetD [OF set_remove1_subset] split: if_splits)
next
  case (wake h k m)
  then show ?thesis using assms(3) by (auto simp: jammed_def rwWake_def split: if_splits)
qed

lemma jammed_reach:
  assumes "nsReach st st'" "nsOk st" "jammed g l st"
  shows "nsOk st' \<and> jammed g l st' \<and> writer (rwOf st' l) = writer (rwOf st l) \<and> set (rdrs (rwOf st' l)) \<subseteq> set (rdrs (rwOf st l))"
  using assms(1)
proof (induction rule: rtranclp_induct)
  case (step a b)
  then show ?case using jammed_step [of a b g l] nsOk_step [of a b] by auto
qed (use assms in auto)

lemma jammed_newcomer:
  assumes "nsOk st" "nsOk st'" "writer (rwOf st' l) = writer (rwOf st l)" "set (rdrs (rwOf st' l)) \<subseteq> set (rdrs (rwOf st l))"
      and "\<forall>v. (v, l) \<notin> set (held st h)" "(w, l) \<in> set (held st' h)"
  shows "blocked h st'"
proof -
  have "writer (rwOf st' l) \<noteq> Some h" "h \<notin> set (rdrs (rwOf st' l))"
    using assms(3,4,5) held_write [OF assms(1), of l h] held_read [OF assms(1), of l h] by auto
  then have "rwBlocked h (rwOf st' l)"
    using assms(6) held_write [OF assms(2), of l h] held_read [OF assms(2), of l h] by (cases w) (auto simp: rwBlocked_def)
  then show ?thesis using assms(6) by (auto simp: blocked_def list_ex_iff)
qed

lemma read_then_write_jams:
  assumes "nsReach (nsInit progs) st" "progs g = [OpRLock l, OpLock l, OpUnlock l, OpRUnlock l]"
  shows "length (todo st g) \<ge> 2 \<and> (length (todo st g) = 2 \<longrightarrow> jammed g l st)"
  using assms(1)
proof (induction rule: rtranclp_induct)
  case base
  then show ?case using assms(2) by (simp add: nsInit_def)
next
  case (step a b)
  have ok: "nsOk a" using nsOk_reach [OF step.hyps(1) nsOk_init] .
  obtain don where h: "progs g = don @ todo a g" "held a g = fold heldStep don []" using reach_history [OF step.hyps(1)] by blast
  show ?case
  proof (cases "length (todo a g) = 2")
    case True
    then show ?thesis using step.IH jammed_step [OF step.hyps(2) ok, of g l] by simp
  next
    case False
    then have len: "length (todo a g) > 2" using step.IH by simp
    from step.hyps(2) show ?thesis
    proof cases
      case (run h' op ops s)
      show ?thesis
      proof (cases "h' = g")
        case g: True
        have t: "todo a g = op # ops" and nb: "\<not> blocked g a" using run g by auto
        consider (four) "don = []" "op = OpRLock l" "length ops = 3" | (three) "don = [OpRLock l]" "op = OpLock l" "length ops = 2"
          using len t h(1) assms(2) by (auto simp: Cons_eq_append_conv)
        then show ?thesis
        proof cases
          case four
          then show ?thesis using run g by simp
        next
          case three
          then have "(False, l) \<in> set (held a g)" using h(2) by simp
          then have "g \<in> set (rdrs (rwOf a l))"
            using nb held_read [OF ok, of l g] not_blockedD [OF nb] by (auto simp: rwBlocked_def)
          then show ?thesis using three run g by (auto simp: jammed_def nsGetLock_def rwLock_def)
        qed
      qed (use run len in simp)
    next
      case (wake h' k m)
      then show ?thesis using len by simp
    qed
  qed
qed

subsection \<open>Which keys share a stripe\<close>

definition low12 :: "32 word \<Rightarrow> nat" where
  "low12 h = take_bit 12 (unat h)"

lemma stripeFor_low12: "stripeFor key = low12 (fnv32a key)"
  by (simp add: stripeFor_def stripes_def low12_def take_bit_eq_mod)

lemma fnv32a_step_low12:
  assumes "low12 h = low12 h'"
  shows "low12 (fnv32a_step h c) = low12 (fnv32a_step h' c)"
proof -
  have x: "low12 (x XOR y) = low12 x XOR low12 y" for x y
    by (simp add: low12_def unsigned_xor_eq)
  have m: "low12 (x * y) = low12 x * unat y mod 4096" for x y
    by (simp add: low12_def take_bit_eq_mod unat_word_ariths mod_mod_cancel mod_mult_left_eq)
  show ?thesis unfolding fnv32a_step_def m x assms ..
qed

lemma fnv32a_fold_low12:
  "low12 h = low12 h' \<Longrightarrow>
   low12 (fold (\<lambda>c h. fnv32a_step h c) s h) = low12 (fold (\<lambda>c h. fnv32a_step h c) s h')"
proof (induction s arbitrary: h h')
  case (Cons c s)
  show ?case unfolding fold_simps by (rule Cons.IH [OF fnv32a_step_low12 [OF Cons.prems]])
qed simp

lemma buckets_share_all_stripes:
  assumes "stripeFor (a @ ''/'') = stripeFor (b @ ''/'')"
  shows "nsFor a [k] = nsFor b [k]"
proof -
  have "low12 (fnv32a ((a @ ''/'') @ k)) = low12 (fnv32a ((b @ ''/'') @ k))"
    using fnv32a_fold_low12 [OF assms [unfolded stripeFor_low12], of k]
    unfolding fnv32a_def fold_append comp_apply .
  then show ?thesis by (simp add: nsFor_def stripeFor_low12)
qed

lemma fnv32a_steps:
  "fnv32a_step 2166136261 CHR ''a'' = 3826002220"
  "fnv32a_step 3826002220 CHR ''a'' = 1277494327"
  "fnv32a_step 1277494327 CHR ''a'' = 876991330"
  "fnv32a_step 876991330 CHR ''/'' = 2532024887"
  "fnv32a_step 2166136261 CHR ''e'' = 3758891744"
  "fnv32a_step 3758891744 CHR ''c'' = 907695161"
  "fnv32a_step 907695161 CHR ''o'' = 2171781986"
  "fnv32a_step 2171781986 CHR ''/'' = 346649143"
  by (simp_all add: fnv32a_step_def)

lemma stripe_collision: "stripeFor ''aaa/'' = stripeFor ''eco/''"
  by (simp add: stripeFor_def fnv32a_def fnv32a_steps stripes_def)

subsection \<open>Replication on the single-disk backend\<close>


definition exRule :: replicationRule where
  "exRule = \<lparr>rrID = [], rrPrefix = [], DestBucket = ''eco'', DestEndpoint = [], DestRegion = [], DestAccessKey = [], DestSecretKey = [], DeleteRepl = False\<rparr>"

definition exEvent :: replEvent where
  "exEvent = \<lparr>reOp = ReplPut, reBucket = ''aaa'', reKey = ''k''\<rparr>"

definition exWorker :: "gid \<Rightarrow> lockOp list" where
  "exWorker g = (if g = 0 then replPutLocks exRule exEvent else [])"


lemma crossed_locks:
  assumes ne: "l \<noteq> l'" "l' \<noteq> l"
      and p: "progs = (\<lambda>g. if g = 0 then [OpRLock l, OpLock l', OpUnlock l', OpRUnlock l]
                        else if g = 1 then [OpRLock l', OpLock l, OpUnlock l, OpRUnlock l'] else [])"
  shows "\<exists>st. nsReach (nsInit progs) st \<and> (\<nexists>st'. nsStep st st') \<and> todo st 0 \<noteq> [] \<and> todo st 1 \<noteq> []"
proof -
  have "runSched [0, 1, 0, 1] (nsInit progs) \<noteq> None" by (simp add: p ne exLocks_defs)
  then obtain st where r: "runSched [0, 1, 0, 1] (nsInit progs) = Some st" by blast
  have t: "todo st 0 \<noteq> []" "todo st 1 \<noteq> []" "\<And>g. g \<noteq> 0 \<Longrightarrow> g \<noteq> 1 \<Longrightarrow> todo st g = []" "blocked 0 st" "blocked 1 st"
    using r by (auto simp: p ne exLocks_defs)
  have w: "waitW (rwOf st k) = []" for k :: nsLock using r by (auto simp: p ne exLocks_defs)
  have "\<nexists>st'. nsStep st st'"
  proof
    assume "\<exists>st'. nsStep st st'"
    then obtain st' where "nsStep st st'" by blast
    then show False
    proof cases
      case (run g op ops s)
      then show False using t by (metis list.distinct(1))
    next
      case (wake g k m)
      then show False using w [of k] by (simp add: rwWake_def split: if_splits)
    qed
  qed
  then show ?thesis using runSched_reach [OF r] t by blast
qed

text \<open>
  Two buckets that replicate to each other stop as well when the same key is written to both: each worker is a reader of the key the other one wants to write.
\<close>

theorem crossed_replication_deadlocks:
  assumes "DestEndpoint r = []" "DestEndpoint r' = []" "DestBucket r = b'" "DestBucket r' = b"
      and "nsFor b [k] \<noteq> nsFor b' [k]"
      and "progs = (\<lambda>g. if g = 0 then replPutLocks r \<lparr>reOp = op, reBucket = b, reKey = k\<rparr>
                        else if g = 1 then replPutLocks r' \<lparr>reOp = op, reBucket = b', reKey = k\<rparr> else [])"
  shows "\<exists>st. nsReach (nsInit progs) st \<and> (\<nexists>st'. nsStep st st') \<and> todo st 0 \<noteq> [] \<and> todo st 1 \<noteq> []"
  using assms by (intro crossed_locks [of "nsFor b [k]" "nsFor b' [k]"])
    (auto simp: replPutLocks_def fsPutLocks_def fsGetOpen_def fsGetClose_def)

end
