(* ===== verification/Cluster.thy ===== *)
theory Cluster
  imports Prelude
begin

text \<open>
  Cluster topology (\<open>internal/cluster/cluster.go\<close>) and the per-peer circuit breaker
  (\<open>internal/cluster/breaker.go\<close>). A disk of the erasure set is named by where it is: opened by
  this node, or disk \<open>i\<close> of a peer. Whether a local path can be opened is a parameter.
\<close>

subsection \<open>Circuit breaker\<close>

record breaker =
  fails :: nat
  trippedAt :: time
  lastErr :: "string option"

definition breakerThreshold :: nat where "breakerThreshold = 4"
definition breakerCooldown :: time where "breakerCooldown = 5 * second"

definition errBreakerOpen :: string where
  "errBreakerOpen = ''cluster: peer circuit breaker open (recent failures)''"

definition newBreaker :: breaker where
  "newBreaker = \<lparr>fails = 0, trippedAt = 0, lastErr = None\<rparr>"

definition allow :: "time \<Rightarrow> breaker \<Rightarrow> bool \<times> breaker" where
  "allow now b =
     (if fails b < breakerThreshold then (True, b)
      else if now - trippedAt b \<ge> breakerCooldown then (True, b\<lparr>trippedAt := now\<rparr>)
      else (False, b))"

definition brk_ok :: "breaker \<Rightarrow> breaker" where
  "brk_ok b = b\<lparr>fails := 0, lastErr := None\<rparr>"

definition brk_fail :: "time \<Rightarrow> string \<Rightarrow> breaker \<Rightarrow> breaker" where
  "brk_fail now err b =
     (let b1 = b\<lparr>fails := fails b + 1, lastErr := Some err\<rparr>
      in if fails b1 = breakerThreshold then b1\<lparr>trippedAt := now\<rparr> else b1)"

definition brk_reason :: "breaker \<Rightarrow> string" where
  "brk_reason b = (case lastErr b of Some e \<Rightarrow> e | None \<Rightarrow> errBreakerOpen)"

definition brk_snapshot :: "breaker \<Rightarrow> bool \<times> nat \<times> string" where
  "brk_snapshot b = (fails b < breakerThreshold, fails b, case lastErr b of Some e \<Rightarrow> e | None \<Rightarrow> [])"

text \<open>What happens at a breaker: a call asks, or a call that was let through reports back.\<close>

datatype brkEvent = Ask time | Failed time string | Succeeded

fun brkRun :: "brkEvent list \<Rightarrow> breaker \<Rightarrow> time list \<times> breaker" where
  "brkRun [] b = ([], b)"
| "brkRun (Ask t # es) b =
     (case allow t b of (a, b1) \<Rightarrow> case brkRun es b1 of (ts, b2) \<Rightarrow> (if a then t # ts else ts, b2))"
| "brkRun (Failed t e # es) b = brkRun es (brk_fail t e b)"
| "brkRun (Succeeded # es) b = brkRun es (brk_ok b)"

lemma brkRun_spacing:
  assumes "fails b \<ge> breakerThreshold" "Succeeded \<notin> set es"
  shows "sorted_wrt (\<lambda>s t. t - s \<ge> breakerCooldown) (trippedAt b # fst (brkRun es b))"
  using assms
proof (induction es b rule: brkRun.induct)
  case (2 t es b)
  obtain a b1 where ab: "allow t b = (a, b1)" by fastforce
  have f: "fails b1 \<ge> breakerThreshold" using ab 2(2) by (auto simp: allow_def split: if_splits)
  have ih: "sorted_wrt (\<lambda>s t. t - s \<ge> breakerCooldown) (trippedAt b1 # fst (brkRun es b1))"
    using 2(1) [OF ab [symmetric] f] 2(3) by simp
  have pos: "breakerCooldown \<ge> 0" by (simp add: breakerCooldown_def)
  show ?case
  proof (cases a)
    case True
    then have "t - trippedAt b \<ge> breakerCooldown" "trippedAt b1 = t"
      using ab 2(2) by (auto simp: allow_def split: if_splits)
    then show ?thesis using ih True ab pos by (fastforce split: prod.splits)
  next
    case False
    then have "b1 = b" using ab 2(2) by (auto simp: allow_def split: if_splits)
    then show ?thesis using ih False ab by (auto split: prod.splits)
  qed
next
  case (3 t e es b)
  have "fails (brk_fail t e b) \<ge> breakerThreshold" "trippedAt (brk_fail t e b) = trippedAt b"
    using 3 by (auto simp: brk_fail_def Let_def)
  then show ?case using 3 by simp
qed auto

text \<open>
  C32: an open breaker lets at most one probe through per cooldown window: as long as no call
  succeeds, any two calls it admits are at least the cooldown apart, and the first is at least the
  cooldown after it tripped.
\<close>

theorem breaker_one_probe_per_window:
  assumes "fails b \<ge> breakerThreshold" "Succeeded \<notin> set es" "fst (brkRun es b) = ts"
  shows "\<forall>j < length ts. ts ! j - trippedAt b \<ge> breakerCooldown
           \<and> (\<forall>i < j. ts ! j - ts ! i \<ge> breakerCooldown)"
  using brkRun_spacing [OF assms(1,2)] assms(3)
  by (auto dest: sorted_wrt_nth_less)

definition wit_tripped :: breaker where "wit_tripped = \<lparr>fails = 4, trippedAt = 0, lastErr = None\<rparr>"

definition wit_calls :: "brkEvent list" where
  "wit_calls = [Ask (3 * second), Ask (6 * second), Failed (7 * second) ''dial'', Ask (8 * second), Ask (12 * second)]"

theorem breaker_one_probe_per_window_witness:
  "fst (brkRun wit_calls wit_tripped) = [6 * second, 12 * second]
     \<and> fst (brkRun wit_calls wit_tripped) ! 1 - fst (brkRun wit_calls wit_tripped) ! 0 \<ge> breakerCooldown"
proof -
  have r: "fst (brkRun wit_calls wit_tripped) = [6 * second, 12 * second]"
    by (simp add: allow_def brk_fail_def breakerThreshold_def breakerCooldown_def wit_calls_def wit_tripped_def)
  have "fails wit_tripped \<ge> breakerThreshold" "Succeeded \<notin> set wit_calls"
    by (simp_all add: wit_tripped_def wit_calls_def breakerThreshold_def)
  from breaker_one_probe_per_window [OF this refl] show ?thesis unfolding r by force
qed

subsection \<open>Topology\<close>

datatype diskRef = LocalRef string nat | RemoteRef string nat

record spec =
  Disks :: "diskRef list"
  LocalDisks :: "diskRef list"
  PeerBases :: "string list"
  Self :: string

datatype parseError = ErrNoSelf | ErrNoSecret | ErrScheme string | ErrNoDiskPath string
  | ErrOpenLocal string | ErrNoLocal string | ErrDiskCount nat

definition IsClusterArg :: "string \<Rightarrow> bool" where
  "IsClusterArg a = (hasPrefix a ''http://'' \<or> hasPrefix a ''https://'')"

definition splitEndpoint :: "string \<Rightarrow> parseError + (string \<times> string)" where
  "splitEndpoint a =
     (if \<not> hasPrefix a ''https://'' \<and> \<not> hasPrefix a ''http://'' then Inl (ErrScheme a)
      else
        (let scheme = (if hasPrefix a ''https://'' then ''https://'' else ''http://'');
             rest = drop (length scheme) a
         in case indexByte rest (CHR ''/'') of
              None \<Rightarrow> Inl (ErrNoDiskPath a)
            | Some slash \<Rightarrow> Inr (scheme @ take slash rest, drop slash rest)))"

definition expandEllipsis :: "string \<Rightarrow> string list" where
  "expandEllipsis p =
     (case (indexByte p (CHR ''{''), indexByte p (CHR ''}'')) of
        (Some o', Some c) \<Rightarrow>
          if c < o' then [p]
          else
            (let inner = take (c - (o' + 1)) (drop (o' + 1) p)
             in case indexOf inner ''...'' of
                  None \<Rightarrow> [p]
                | Some i \<Rightarrow>
                  (case (Atoi (trimSpaceS (take i inner)), Atoi (trimSpaceS (drop (i + 3) inner))) of
                     (Some lo, Some hi) \<Rightarrow>
                       if hi < lo then [p]
                       else map (\<lambda>n. take o' p @ Itoa n @ drop (c + 1) p) [lo..hi]
                   | _ \<Rightarrow> [p]))
      | _ \<Rightarrow> [p])"

text \<open>
  The body of the two nested loops of \<open>Parse\<close> for one disk path of one endpoint. \<open>perPeer\<close> counts
  the disks seen of each base; \<open>globalIdx\<close> is the number of disks so far.
\<close>

record parseState =
  psDisks :: "diskRef list"
  psLocal :: "diskRef list"
  psPeers :: "string list"
  perPeer :: "string \<Rightarrow> nat"

definition addDisk :: "(string \<Rightarrow> bool) \<Rightarrow> string \<Rightarrow> string \<Rightarrow> string \<Rightarrow> parseState \<Rightarrow> parseError + parseState" where
  "addDisk openOk self base p s =
     (let diskOnPeer = perPeer s base;
          globalIdx = length (psDisks s);
          s1 = s\<lparr>perPeer := (perPeer s)(base := diskOnPeer + 1)\<rparr>
      in if base = self then
           (if \<not> openOk p then Inl (ErrOpenLocal p)
            else Inr (s1\<lparr>psDisks := psDisks s1 @ [LocalRef p globalIdx],
                         psLocal := psLocal s1 @ [LocalRef p globalIdx]\<rparr>))
         else Inr (s1\<lparr>psDisks := psDisks s1 @ [RemoteRef base diskOnPeer],
                      psPeers := (if base \<in> set (psPeers s1) then psPeers s1 else psPeers s1 @ [base])\<rparr>))"

fun addDisks :: "(string \<Rightarrow> bool) \<Rightarrow> string \<Rightarrow> string \<Rightarrow> string list \<Rightarrow> parseState \<Rightarrow> parseError + parseState" where
  "addDisks openOk self base [] s = Inr s"
| "addDisks openOk self base (p # ps) s =
     (case addDisk openOk self base p s of Inl e \<Rightarrow> Inl e | Inr s' \<Rightarrow> addDisks openOk self base ps s')"

fun addArgs :: "(string \<Rightarrow> bool) \<Rightarrow> string \<Rightarrow> string list \<Rightarrow> parseState \<Rightarrow> parseError + parseState" where
  "addArgs openOk self [] s = Inr s"
| "addArgs openOk self (a # as) s =
     (case splitEndpoint a of Inl e \<Rightarrow> Inl e
      | Inr (base, pathSpec) \<Rightarrow>
          (case addDisks openOk self base (expandEllipsis pathSpec) s of Inl e \<Rightarrow> Inl e
           | Inr s' \<Rightarrow> addArgs openOk self as s'))"

definition trimRightSlash :: "string \<Rightarrow> string" where
  "trimRightSlash s = rev (dropWhile (\<lambda>c. c = CHR ''/'') (rev s))"

definition initState :: parseState where
  "initState = \<lparr>psDisks = [], psLocal = [], psPeers = [], perPeer = (\<lambda>_. 0)\<rparr>"

definition Parse :: "(string \<Rightarrow> bool) \<Rightarrow> string list \<Rightarrow> string \<Rightarrow> string \<Rightarrow> parseError + spec" where
  "Parse openOk args self0 secret =
     (if self0 = [] then Inl ErrNoSelf
      else if secret = [] then Inl ErrNoSecret
      else
        (let self = trimRightSlash self0
         in case addArgs openOk self args initState of
              Inl e \<Rightarrow> Inl e
            | Inr s \<Rightarrow>
                if psLocal s = [] then Inl (ErrNoLocal self)
                else if length (psDisks s) < 4 \<or> length (psDisks s) mod 2 \<noteq> 0
                then Inl (ErrDiskCount (length (psDisks s)))
                else Inr \<lparr>Disks = psDisks s, LocalDisks = psLocal s, PeerBases = psPeers s, Self = self\<rparr>))"

text \<open>
  Two nodes parsing the same arguments, seen together: they agree on the counters, and where one
  names disk \<open>i\<close> of the other, the other has its \<open>i\<close>-th local disk.
\<close>

definition agree :: "string \<Rightarrow> string \<Rightarrow> parseState \<Rightarrow> parseState \<Rightarrow> bool" where
  "agree a b s t \<longleftrightarrow>
     perPeer s = perPeer t \<and> length (psDisks s) = length (psDisks t) \<and> perPeer t b = length (psLocal t)
     \<and> (\<forall>k < length (psDisks s). \<forall>i. psDisks s ! k = RemoteRef b i \<longrightarrow>
          i < length (psLocal t) \<and> psLocal t ! i = psDisks t ! k \<and> (\<exists>p. psDisks t ! k = LocalRef p k))"

lemma agree_addDisk:
  assumes "agree a b s t" "a \<noteq> b" "addDisk ok1 a base p s = Inr s'" "addDisk ok2 b base p t = Inr t'"
  shows "agree a b s' t'"
  using assms by (auto simp: agree_def addDisk_def Let_def nth_append less_Suc_eq split: if_splits)

lemma agree_addDisks:
  assumes "agree a b s t" "a \<noteq> b" "addDisks ok1 a base ps s = Inr s'" "addDisks ok2 b base ps t = Inr t'"
  shows "agree a b s' t'"
  using assms
proof (induction ps arbitrary: s t)
  case (Cons p ps)
  from Cons.prems obtain s1 t1 where "addDisk ok1 a base p s = Inr s1" "addDisks ok1 a base ps s1 = Inr s'"
    "addDisk ok2 b base p t = Inr t1" "addDisks ok2 b base ps t1 = Inr t'"
    by (auto split: sum.splits)
  then show ?case using Cons.IH agree_addDisk Cons.prems(1,2) by blast
qed simp

lemma agree_addArgs:
  assumes "agree a b s t" "a \<noteq> b" "addArgs ok1 a args s = Inr s'" "addArgs ok2 b args t = Inr t'"
  shows "agree a b s' t'"
  using assms
proof (induction args arbitrary: s t)
  case (Cons x args)
  from Cons.prems obtain base ps s1 t1 where "splitEndpoint x = Inr (base, ps)"
    "addDisks ok1 a base (expandEllipsis ps) s = Inr s1" "addArgs ok1 a args s1 = Inr s'"
    "addDisks ok2 b base (expandEllipsis ps) t = Inr t1" "addArgs ok2 b args t1 = Inr t'"
    by (auto split: sum.splits prod.splits)
  then show ?case using Cons.IH agree_addDisks Cons.prems(1,2) by blast
qed simp

text \<open>
  The nodes of a cluster agree on the disks: when two nodes started with the same endpoint
  list resolve it, wherever the first node's \<open>k\<close>-th disk is disk \<open>i\<close> of the second node, the
  second node's \<open>i\<close>-th local disk (the one its RPC server addresses as \<open>i\<close>) is its own \<open>k\<close>-th disk.
\<close>

theorem Parse_nodes_agree:
  assumes "Parse ok1 args selfA secret = Inr spA" "Parse ok2 args selfB secret = Inr spB"
    and "Self spA \<noteq> Self spB" and "k < length (Disks spA)" "Disks spA ! k = RemoteRef (Self spB) i"
  shows "i < length (LocalDisks spB) \<and> LocalDisks spB ! i = Disks spB ! k
         \<and> (\<exists>p. Disks spB ! k = LocalRef p k) \<and> length (Disks spA) = length (Disks spB)"
proof -
  obtain s t where s: "addArgs ok1 (Self spA) args initState = Inr s" "Disks spA = psDisks s"
    and t: "addArgs ok2 (Self spB) args initState = Inr t" "Disks spB = psDisks t" "LocalDisks spB = psLocal t"
    using assms(1,2) by (auto simp: Parse_def Let_def split: sum.splits if_splits)
  have "agree (Self spA) (Self spB) initState initState" by (simp add: agree_def initState_def)
  from agree_addArgs [OF this assms(3) s(1) t(1)] show ?thesis
    using assms(4,5) s t by (auto simp: agree_def)
qed

definition wit_args2 :: "string list" where
  "wit_args2 = [''http://n1:9000/d1'', ''http://n1:9000/d2'', ''http://n2:9000/d1'', ''http://n2:9000/d2'']"

definition wit_spec :: "string \<Rightarrow> spec" where
  "wit_spec self = (case Parse (\<lambda>_. True) wit_args2 self ''secret'' of Inr sp \<Rightarrow> sp
     | Inl _ \<Rightarrow> \<lparr>Disks = [], LocalDisks = [], PeerBases = [], Self = []\<rparr>)"

theorem Parse_nodes_agree_witness:
  "Disks (wit_spec ''http://n1:9000/'') ! 3 = RemoteRef ''http://n2:9000'' 1
   \<and> 1 < length (LocalDisks (wit_spec ''http://n2:9000''))
   \<and> LocalDisks (wit_spec ''http://n2:9000'') ! 1 = Disks (wit_spec ''http://n2:9000'') ! 3"
proof -
  have r: "Disks (wit_spec ''http://n1:9000/'') ! 3 = RemoteRef (Self (wit_spec ''http://n2:9000'')) 1"
    "Self (wit_spec ''http://n2:9000'') = ''http://n2:9000''" "3 < length (Disks (wit_spec ''http://n1:9000/''))"
    "Self (wit_spec ''http://n1:9000/'') \<noteq> Self (wit_spec ''http://n2:9000'')" by code_simp+
  have a: "Parse (\<lambda>_. True) wit_args2 ''http://n1:9000/'' ''secret'' = Inr (wit_spec ''http://n1:9000/'')"
    "Parse (\<lambda>_. True) wit_args2 ''http://n2:9000'' ''secret'' = Inr (wit_spec ''http://n2:9000'')" by code_simp+
  show ?thesis using Parse_nodes_agree [OF a r(4) r(3) r(1)] r by simp
qed

end
