(* ===== verification/Heal.thy ===== *)
theory Heal
  imports Durability
begin

text \<open>
  Healing one object of an erasure set (\<open>internal/erasure/heal.go\<close>): metadata copies that are missing
  or differ are rewritten, shard files that are missing or fail a block hash are rebuilt from the
  other disks. Where corrupt metadata would make the code divide by zero or index out of range the
  model returns \<open>EPanic\<close>. The pass is not interrupted by writes of other clients; its fencing test is
  a read of the metadata like in the code.
\<close>

subsection \<open>Operations\<close>

text \<open>The loop of \<open>shardIntact\<close> over the stripes of the file; \<open>None\<close> is a division by zero.\<close>

function intactLoop :: "senv \<Rightarrow> partMeta \<Rightarrow> nat \<Rightarrow> nat \<Rightarrow> nat \<Rightarrow> nat \<Rightarrow> nat \<Rightarrow> nat \<Rightarrow> bytes \<Rightarrow> bool option" where
  "intactLoop env pm k hdr stripeInput di stripe remaining b =
     (if remaining = 0 then Some True
      else if stripeInput = 0 then None
      else
        (let logical = (if remaining < stripeInput then remaining else stripeInput) in
         case readShard env pm hdr stripe di (ceilInt64 logical k) (Some b) of
           (Some buf, Some rest) \<Rightarrow> intactLoop env pm k hdr stripeInput di (Suc stripe) (remaining - logical) rest
         | _ \<Rightarrow> Some False))"
  by pat_completeness auto
termination by (relation "measure (\<lambda>(env, pm, k, hdr, si, di, stripe, remaining, b). remaining)") auto

declare intactLoop.simps [simp del]

definition hdrOf :: "partMeta \<Rightarrow> nat" where
  "hdrOf pm = (if Bitrot pm = ''highwayhash256-stream'' then 32 else 0)"

definition shardIntact ::
  "senv \<Rightarrow> string \<Rightarrow> string \<Rightarrow> nat \<Rightarrow> partMeta \<Rightarrow> xlMeta \<Rightarrow> disk \<Rightarrow> bool option \<times> disk" where
  "shardIntact env bucket pp di pm m d =
     (case ReadFileStream bucket pp 0 d of
        (Inl e, d1) \<Rightarrow> (Some False, d1)
      | (Inr b, d1) \<Rightarrow>
          (intactLoop env pm (DataBlocks (Erasure m)) (hdrOf pm)
             (BlockSize (Erasure m) * DataBlocks (Erasure m)) di 0 (PSize pm) b, d1))"

text \<open>The loop of \<open>rebuildShard\<close>: the readers of all shards but the target's, by shard position.\<close>

function rebuildLoop ::
  "senv \<Rightarrow> erasure \<Rightarrow> partMeta \<Rightarrow> nat \<Rightarrow> nat \<Rightarrow> nat \<Rightarrow> nat list \<Rightarrow> nat \<Rightarrow> nat \<Rightarrow> nat \<Rightarrow> bytes option list \<Rightarrow> setErr + bytes" where
  "rebuildLoop env e pm k hdr stripeInput dist targetJ stripeIdx remaining rds =
     (if remaining = 0 then Inr []
      else if stripeInput = 0 then Inl EPanic
      else
        (let logical = (if remaining < stripeInput then remaining else stripeInput);
             rs = map (\<lambda>j. readShard env pm hdr stripeIdx (dist ! j) (ceilInt64 logical k) (rds ! j)) [0..<length rds];
             shards = map fst rs
         in if present shards < k then Inl EReadQuorum
            else case rsReconstruct (enc e) shards of
              None \<Rightarrow> Inl EReadQuorum
            | Some sh \<Rightarrow>
                (case rebuildLoop env e pm k hdr stripeInput dist targetJ (Suc stripeIdx) (remaining - logical) (map snd rs) of
                   Inl er \<Rightarrow> Inl er
                 | Inr out \<Rightarrow> Inr ((if hdr > 0 then bitrotRaw env (sh ! targetJ) else []) @ sh ! targetJ @ out))))"
  by pat_completeness auto
termination by (relation "measure (\<lambda>(env, e, pm, k, hdr, si, dist, tj, stripe, remaining, rds). remaining)") auto

declare rebuildLoop.simps [simp del]

definition openOthers :: "string \<Rightarrow> string \<Rightarrow> nat \<Rightarrow> eset \<Rightarrow> bytes option list \<times> eset" where
  "openOthers bucket pp di s =
     (let rs = map (\<lambda>i. if i = di then (None, disks s ! i)
                        else case ReadFileStream bucket pp 0 (disks s ! i) of
                          (Inr b, d1) \<Rightarrow> (Some b, d1) | (Inl e, d1) \<Rightarrow> (None, d1)) [0..<setN s]
      in (map fst rs, s\<lparr>disks := map snd rs\<rparr>))"

text \<open>A shard position that is not in the distribution leaves the disk alone and is no error.\<close>

definition rebuildShard ::
  "senv \<Rightarrow> string \<Rightarrow> string \<Rightarrow> nat \<Rightarrow> partMeta \<Rightarrow> xlMeta \<Rightarrow> eset \<Rightarrow> (setErr + unit) \<times> eset" where
  "rebuildShard env bucket pp di pm m s =
     (let dist = Distribution (Erasure m); k = DataBlocks (Erasure m); targetJ = indexFrom 0 di dist in
      if targetJ < 0 then (Inr (), s)
      else case openOthers bucket pp di s of (streams, s1) \<Rightarrow>
        if PSize pm > 0 \<and> \<not> validDist (setN s) dist then (Inl EPanic, s1)
        else case rebuildLoop env (ec s) pm k (hdrOf pm) (BlockSize (Erasure m) * k) dist (nat targetJ) 0 (PSize pm)
                    (map (\<lambda>j. streams ! (dist ! j)) [0..<setN s]) of
          Inl er \<Rightarrow> (Inl er, s1)
        | Inr out \<Rightarrow>
            (case CreateFile bucket pp (int (length out)) out (disks s1 ! di) of
               (Inl er, d) \<Rightarrow> (Inl (EDisk er), s1\<lparr>disks := (disks s1)[di := d]\<rparr>)
             | (Inr u, d) \<Rightarrow> (Inr (), s1\<lparr>disks := (disks s1)[di := d]\<rparr>)))"

fun rebuildAll ::
  "senv \<Rightarrow> string \<Rightarrow> string \<Rightarrow> nat list \<Rightarrow> partMeta \<Rightarrow> xlMeta \<Rightarrow> eset \<Rightarrow> (setErr + nat) \<times> eset" where
  "rebuildAll env bucket pp [] pm m s = (Inr 0, s)"
| "rebuildAll env bucket pp (di # dis) pm m s =
     (case rebuildShard env bucket pp di pm m s of
        (Inl EPanic, s1) \<Rightarrow> (Inl EPanic, s1)
      | (r, s1) \<Rightarrow>
          (case rebuildAll env bucket pp dis pm m s1 of
             (Inl e, s2) \<Rightarrow> (Inl e, s2)
           | (Inr c, s2) \<Rightarrow> (Inr (c + (case r of Inr _ \<Rightarrow> 1 | Inl _ \<Rightarrow> 0)), s2)))"

text \<open>\<open>changed\<close>: the object has another revision than the one the plan was made for.\<close>

definition changed :: "senv \<Rightarrow> string \<Rightarrow> string \<Rightarrow> 64 word \<Rightarrow> eset \<Rightarrow> bool \<times> eset" where
  "changed env bucket key origRev s =
     (case readMeta env bucket key s of
        (Inr cur, s1) \<Rightarrow> (Revision cur \<noteq> origRev, s1) | (Inl e, s1) \<Rightarrow> (False, s1))"

definition healMeta :: "string \<Rightarrow> string \<Rightarrow> content \<Rightarrow> disk \<Rightarrow> bool \<times> disk" where
  "healMeta bucket key mb d =
     (case ReadAll bucket (pjoin key metaFile) d of
        (r, d1) \<Rightarrow>
          if r = Inr mb then (False, d1)
          else (case WriteAll bucket (pjoin key metaFile) mb d1 of
                  (Inr u, d2) \<Rightarrow> (True, d2) | (Inl e, d2) \<Rightarrow> (False, d2)))"

fun healParts ::
  "senv \<Rightarrow> string \<Rightarrow> string \<Rightarrow> xlMeta \<Rightarrow> partMeta list \<Rightarrow> nat \<Rightarrow> eset \<Rightarrow> (setErr option \<times> nat) \<times> eset" where
  "healParts env bucket key m [] fixed s = ((None, fixed), s)"
| "healParts env bucket key m (pm # pms) fixed s =
     (let (dataBucket, dataKey) = dataLoc m bucket key;
          pp = pjoin dataKey (partFile (Number pm));
          rs = map (\<lambda>i. shardIntact env dataBucket pp i pm m (disks s ! i)) [0..<setN s];
          s1 = s\<lparr>disks := map snd rs\<rparr>;
          bad = filter (\<lambda>i. fst (rs ! i) = Some False) [0..<setN s]
      in if None \<in> set (map fst rs) then ((Some EPanic, fixed), s1)
         else if bad = [] then healParts env bucket key m pms fixed s1
         else if setN s - length bad < DataBlocks (Erasure m) then ((Some EReadQuorum, fixed), s1)
         else case changed env bucket key (Revision m) s1 of (ch, s2) \<Rightarrow>
           if ch then ((None, fixed), s2)
           else case rebuildAll env dataBucket pp bad pm m s2 of
             (Inl e, s3) \<Rightarrow> ((Some e, fixed), s3)
           | (Inr c, s3) \<Rightarrow> healParts env bucket key m pms (fixed + c) s3)"

text \<open>\<open>healObject\<close>: metadata rewritten, shards rewritten, the error.\<close>

definition healObject :: "senv \<Rightarrow> string \<Rightarrow> string \<Rightarrow> eset \<Rightarrow> (nat \<times> nat \<times> setErr option) \<times> eset" where
  "healObject env bucket key s =
     (case readMeta env bucket key s of
        (Inl e, s1) \<Rightarrow> ((0, 0, Some e), s1)
      | (Inr m, s1) \<Rightarrow>
          (case changed env bucket key (Revision m) s1 of (ch, s2) \<Rightarrow>
             if ch then ((0, 0, None), s2)
             else
               (let rs = map (healMeta bucket key (marshal m)) (disks s2);
                    metaFixed = countTrue (map fst rs);
                    s3 = s2\<lparr>disks := map snd rs\<rparr>
                in if Inline m \<noteq> None then ((metaFixed, 0, None), s3)
                   else case healParts env bucket key m (Parts m) 0 s3 of
                     ((e, fixed), s4) \<Rightarrow> ((metaFixed, fixed, e), s4))))"

subsection \<open>One shard file\<close>

text \<open>The first stripe of non-empty data, for the inductions over stripes.\<close>

lemma stripe_cases:
  assumes "coding_ok e" "d \<noteq> []" "L = stripeInputSize e"
  obtains sh where "shardsOf e d = sh # shardsOf e (drop L d)" "length sh = dataBlocks e + parityBlocks e"
    "\<And>j. j < length sh \<Longrightarrow> length (sh ! j) = ceilInt64 (length (take L d)) (dataBlocks e)"
    "\<And>xs. partOf xs sh \<Longrightarrow> present xs \<ge> dataBlocks e \<Longrightarrow> rsReconstruct (enc e) xs = Some sh"
    "(if length d < L then length d else L) = length (take L d)" "length d - length (take L d) = length (drop L d)" "L \<noteq> 0"
proof -
  have L: "L > 0" using stripeInput_pos [OF assms(1)] assms(3) by simp
  then have stne: "take L d \<noteq> []" using assms(2) by auto
  obtain sh where sh: "EncodeData e (take L d) = Some sh" "length sh = dataBlocks e + parityBlocks e"
      "\<forall>s \<in> set sh. length s = ceilInt64 (length (take L d)) (dataBlocks e)"
      "\<forall>xs. partOf xs sh \<and> present xs \<ge> dataBlocks e \<longrightarrow> rsReconstruct (enc e) xs = Some sh"
    using EncodeData_ok [of e "take L d"] stne assms(1) unfolding coding_ok_def by blast
  have "shardsOf e d = sh # shardsOf e (drop L d)" using shardsOf_step [OF assms(1,2)] sh(1) assms(3) by simp
  then show thesis using sh L by (intro that) (auto simp: min_def)
qed

lemma intactLoop_intact:
  assumes "coding_ok e" "\<forall>x. length (bitrotRaw env x) = 32" "j < dataBlocks e + parityBlocks e"
  shows "intactLoop env pm (dataBlocks e) 32 (stripeInputSize e) di si (length d)
           (shardFile (bitrotRaw env) (shardsOf e d) j) = Some True"
proof (induction "stripeInputSize e" d arbitrary: si rule: stripesOf.induct)
  case (1 d)
  show ?case
  proof (cases "d = []")
    case True
    then show ?thesis by (simp add: intactLoop.simps)
  next
    case False
    obtain sh where sh: "shardsOf e d = sh # shardsOf e (drop (stripeInputSize e) d)" "length sh = dataBlocks e + parityBlocks e"
        "\<And>j. j < length sh \<Longrightarrow> length (sh ! j) = ceilInt64 (length (take (stripeInputSize e) d)) (dataBlocks e)"
        "(if length d < stripeInputSize e then length d else stripeInputSize e) = length (take (stripeInputSize e) d)"
        "length d - length (take (stripeInputSize e) d) = length (drop (stripeInputSize e) d)" "stripeInputSize e \<noteq> 0"
      by (rule stripe_cases [OF assms(1) False refl]) blast
    have rs: "readShard env pm 32 si di (ceilInt64 (length (take (stripeInputSize e) d)) (dataBlocks e))
        (Some (shardFile (bitrotRaw env) (shardsOf e d) j))
        = (Some (sh ! j), Some (shardFile (bitrotRaw env) (shardsOf e (drop (stripeInputSize e) d)) j))"
      unfolding sh(1) using sh(2,3) assms(3) by (intro readShard_intact [OF assms(2)]) simp
    show ?thesis using False sh(6) "1.hyps" rs
      by (subst intactLoop.simps) (simp add: sh(4,5) Let_def del: length_take length_drop)
  qed
qed

lemma intactLoop_sound:
  assumes "coding_ok e" "\<forall>x. length (bitrotRaw env x) = 32" "j < dataBlocks e + parityBlocks e"
    and "harmless (bitrotRaw env) j (shardsOf e d) (Some b)" "length b \<le> length (shardFile (bitrotRaw env) (shardsOf e d) j)"
    and "intactLoop env pm (dataBlocks e) 32 (stripeInputSize e) di si (length d) b = Some True"
  shows "b = shardFile (bitrotRaw env) (shardsOf e d) j"
  using assms(4-6)
proof (induction "stripeInputSize e" d arbitrary: si b rule: stripesOf.induct)
  case (1 d)
  let ?L = "stripeInputSize e" and ?hf = "bitrotRaw env"
  show ?case
  proof (cases "d = []")
    case True
    then show ?thesis using "1.prems"(2) by (simp add: shardsOf_def)
  next
    case False
    obtain sh where sh: "shardsOf e d = sh # shardsOf e (drop ?L d)" "length sh = dataBlocks e + parityBlocks e"
        "\<And>j. j < length sh \<Longrightarrow> length (sh ! j) = ceilInt64 (length (take ?L d)) (dataBlocks e)"
        "(if length d < ?L then length d else ?L) = length (take ?L d)"
        "length d - length (take ?L d) = length (drop ?L d)" "?L \<noteq> 0"
      by (rule stripe_cases [OF assms(1) False refl]) blast
    let ?len = "ceilInt64 (length (take ?L d)) (dataBlocks e)"
    have lj: "length (sh ! j) = ?len" using sh(2,3) assms(3) by simp
    obtain buf rest where rs: "readShard env pm 32 si di ?len (Some b) = (Some buf, Some rest)"
      and lp: "intactLoop env pm (dataBlocks e) 32 ?L di (Suc si) (length (drop ?L d)) rest = Some True"
      using "1.prems"(3) False sh(6)
      by (subst (asm) intactLoop.simps) (auto simp: sh(4,5) Let_def simp del: length_take length_drop split: prod.splits option.splits)
    have b: "b = ?hf buf @ buf @ rest" "length buf = ?len" and h: "length b \<ge> 32 + ?len" "take 32 b = ?hf buf" "buf = take ?len (drop 32 b)" "rest = drop (32 + ?len) b"
      using rs by (auto simp: readShard_def Let_def split: if_splits) (metis append_take_drop_id drop_drop add.commute)
    have bj: "buf = sh ! j" and hr: "harmless ?hf j (shardsOf e (drop ?L d)) (Some rest)"
      using "1.prems"(1) h lj by (auto simp: sh(1) harmless.simps split: if_splits)
    have "length rest \<le> length (shardFile ?hf (shardsOf e (drop ?L d)) j)"
      using "1.prems"(2) b bj assms(2) by (simp add: sh(1))
    then have "rest = shardFile ?hf (shardsOf e (drop ?L d)) j" using "1.hyps" [OF _ hr _ lp] False sh(6) by simp
    then show ?thesis using b bj by (simp add: sh(1))
  qed
qed

lemma intactLoop_total: "L > 0 \<Longrightarrow> intactLoop env pm k hdr L di si r b \<noteq> None"
proof (induction env pm k hdr L di si r b rule: intactLoop.induct)
  case (1 env pm k hdr L di si r b)
  then show ?case by (subst intactLoop.simps) (auto simp: Let_def split: prod.splits option.splits)
qed

lemma rebuildLoop_ok:
  assumes ok: "coding_ok e" and hash: "\<forall>b. length (bitrotRaw env b) = 32"
    and "length rds = dataBlocks e + parityBlocks e" and tj: "tj < length rds"
    and "\<forall>j < length rds. harmless (bitrotRaw env) j (shardsOf e d) (rds ! j)"
    and "dataBlocks e \<le> length (filter (\<lambda>j. rds ! j = Some (shardFile (bitrotRaw env) (shardsOf e d) j)) [0..<length rds])"
  shows "rebuildLoop env e pm (dataBlocks e) 32 (stripeInputSize e) dist tj si (length d) rds
           = Inr (shardFile (bitrotRaw env) (shardsOf e d) tj)"
  using assms(3-6)
proof (induction "stripeInputSize e" d arbitrary: si rds rule: stripesOf.induct)
  case (1 d)
  let ?L = "stripeInputSize e" and ?hf = "bitrotRaw env" and ?k = "dataBlocks e"
  show ?case
  proof (cases "d = []")
    case True
    then show ?thesis by (simp add: rebuildLoop.simps shardsOf_def)
  next
    case False
    obtain sh where sh: "shardsOf e d = sh # shardsOf e (drop ?L d)" "length sh = dataBlocks e + parityBlocks e"
        "\<And>j. j < length sh \<Longrightarrow> length (sh ! j) = ceilInt64 (length (take ?L d)) (dataBlocks e)"
        "\<And>xs. partOf xs sh \<Longrightarrow> present xs \<ge> ?k \<Longrightarrow> rsReconstruct (enc e) xs = Some sh"
        "(if length d < ?L then length d else ?L) = length (take ?L d)"
        "length d - length (take ?L d) = length (drop ?L d)" "?L \<noteq> 0"
      by (rule stripe_cases [OF ok False refl]) blast
    let ?len = "ceilInt64 (length (take ?L d)) ?k"
    let ?f = "\<lambda>j. readShard env pm 32 si (dist ! j) ?len (rds ! j)"
    let ?rs = "map ?f [0..<length rds]"
    have lj: "?len = length (sh ! j)" if "j < length rds" for j using sh(2,3) that "1.prems"(1) by simp
    have rj: "fst (?f j) \<in> {None, Some (sh ! j)}" "harmless ?hf j (shardsOf e (drop ?L d)) (snd (?f j))"
      if j: "j < length rds" for j
    proof -
      have hm: "harmless ?hf j (sh # shardsOf e (drop ?L d)) (rds ! j)" using "1.prems"(3) j unfolding sh(1) by blast
      show "fst (?f j) \<in> {None, Some (sh ! j)}" by (rule readShard_harmless(1) [OF hm lj [OF j]])
      show "harmless ?hf j (shardsOf e (drop ?L d)) (snd (?f j))" by (rule readShard_harmless(2) [OF hm lj [OF j]])
    qed
    have ri: "?f j = (Some (sh ! j), Some (shardFile ?hf (shardsOf e (drop ?L d)) j))"
      if "j < length rds" "rds ! j = Some (shardFile ?hf (shardsOf e d) j)" for j
      unfolding that(2) sh(1) by (rule readShard_intact [OF hash lj [OF that(1)]])
    have po: "partOf (map fst ?rs) sh" unfolding partOf_def using rj(1) sh(2) "1.prems"(1) by simp
    have "length (filter (\<lambda>j. rds ! j = Some (shardFile ?hf (shardsOf e d) j)) [0..<length rds]) \<le> present (map (\<lambda>j. fst (?f j)) [0..<length rds])"
      by (rule present_map_ge) (use ri in simp)
    then have pres: "present (map fst ?rs) \<ge> ?k" using "1.prems"(4) by (simp add: o_def)
    have g': "?k \<le> length (filter (\<lambda>j. map snd ?rs ! j = Some (shardFile ?hf (shardsOf e (drop ?L d)) j)) [0..<length (map snd ?rs)])"
    proof -
      have "length (filter (\<lambda>j. rds ! j = Some (shardFile ?hf (shardsOf e d) j)) [0..<length rds])
          \<le> length (filter (\<lambda>j. map snd ?rs ! j = Some (shardFile ?hf (shardsOf e (drop ?L d)) j)) [0..<length rds])"
        by (rule length_filter_mono) (use ri in simp)
      then show ?thesis using "1.prems"(4) by simp
    qed
    have ih: "rebuildLoop env e pm ?k 32 ?L dist tj (Suc si) (length (drop ?L d)) (map snd ?rs) = Inr (shardFile ?hf (shardsOf e (drop ?L d)) tj)"
      by (rule "1.hyps" [OF _ _ _ _ g']) (use False sh(7) "1.prems"(1,2) rj(2) in auto)
    have rec: "rsReconstruct (enc e) (map fst ?rs) = Some sh" by (rule sh(4) [OF po pres])
    show ?thesis using False sh(7) pres rec ih
      by (subst rebuildLoop.simps) (simp add: sh(1,5,6) Let_def del: length_take length_drop)
  qed
qed

end
