(* ===== verification/HealCorrect.thy ===== *)
theory HealCorrect
  imports Heal
begin

text \<open>
  Healing an object restores its redundancy: from any read quorum of good copies, every working disk
  ends up with the metadata and its own shard, exactly as a fresh write would have left them.
\<close>

subsection \<open>One disk\<close>

text \<open>
  A disk that healing can repair: it works or is down; when it works, no foreign file or directory is
  in the way; it shows no other metadata for the object; and its shard file, if any, has no block that
  passes its hash and is wrong, and is not longer than it should be.
\<close>

definition healable :: "(bytes \<Rightarrow> bytes) \<Rightarrow> string \<Rightarrow> string \<Rightarrow> partMeta \<Rightarrow> xlMeta \<Rightarrow> nat \<Rightarrow> bytes list list \<Rightarrow> disk \<Rightarrow> bool" where
  "healable hf b key pm m j shs d \<longleftrightarrow> steady d
     \<and> (up d \<longrightarrow> clear (dpath b key) d \<and> at d (dpath b key @ [metaFile]) \<noteq> Some Dir \<and> at d (partPath b key pm) \<noteq> Some Dir)
     \<and> (metaSeen b key d = None \<or> metaSeen b key d = Some m)
     \<and> harmless hf j shs (streamOf (shown d (partPath b key pm)))
     \<and> (\<forall>x. streamOf (shown d (partPath b key pm)) = Some x \<longrightarrow> length x \<le> length (shardFile hf shs j))"

definition holdsShard :: "string \<Rightarrow> string \<Rightarrow> partMeta \<Rightarrow> xlMeta \<Rightarrow> bytes \<Rightarrow> disk \<Rightarrow> bool" where
  "holdsShard b key pm m x d \<longleftrightarrow>
     shown d (dpath b key @ [metaFile]) = Some (MetaDoc m) \<and> shown d (partPath b key pm) = Some (Raw x)"

lemma down_shown: "down d \<Longrightarrow> shown d p = None"
  by (auto simp: shown_def up_def down_def)

lemma healable_down: "down d \<Longrightarrow> healable hf b key pm m j shs d"
  using down_shown [of d] by (auto simp: healable_def steady_def up_def down_def metaSeen_def streamOf_def)

lemma healable_same:
  assumes "dfs d' = dfs d" "dfaults d' = dfaults d"
  shows "healable hf b key pm m j shs d' = healable hf b key pm m j shs d" "holdsShard b key pm m x d' = holdsShard b key pm m x d"
  using assms unfolding healable_def holdsShard_def metaSeen_def
  by (simp_all add: steady_def up_def down_def shown_def clear_def)

lemma steady_cases: "steady d \<Longrightarrow> (up d \<Longrightarrow> P) \<Longrightarrow> (down d \<Longrightarrow> P) \<Longrightarrow> P"
  by (auto simp: steady_def)

lemma healable_up:
  assumes "healable hf b key pm m j shs d" "up d"
    and "\<And>q. at d' q = (if q = dpath b key @ [f] then Some (File c) else if prefix q (dpath b key) then Some Dir else at d q)"
    and "dfaults d' = dfaults d"
    and "f = metaFile \<and> c = MetaDoc m \<or> f = partFile (Number pm) \<and> c = Raw (shardFile hf shs j) \<and> (\<forall>x. length (hf x) = 32)"
  shows "healable hf b key pm m j shs d'" and "shown d' (dpath b key @ [f]) = Some c"
    and "f \<noteq> g \<Longrightarrow> shown d' (dpath b key @ [g]) = shown d (dpath b key @ [g])"
proof -
  have u: "up d'" using assms(2,4) by (simp add: up_def)
  have npre: "\<not> prefix (dpath b key @ [g]) (dpath b key)" for g by (auto dest: prefix_length_le)
  show sf: "shown d' (dpath b key @ [f]) = Some c" using u by (simp add: shown_def assms(3))
  show oth: "f \<noteq> g \<Longrightarrow> shown d' (dpath b key @ [g]) = shown d (dpath b key @ [g])" for g
    using u assms(2) npre by (simp add: shown_def assms(3))
  have at': "at d' (dpath b key @ [g]) \<noteq> Some Dir" if "at d (dpath b key @ [g]) \<noteq> Some Dir" for g
    using that npre by (simp add: assms(3))
  have "clear (dpath b key) d'" unfolding clear_def assms(3) using npre by (auto dest: prefix_length_le)
  then show "healable hf b key pm m j shs d'"
    using assms(1,2,5) u sf oth [of metaFile] oth [of "partFile (Number pm)"] at' partFile_not_meta [of "Number pm"]
      harmless_intact [of hf j shs]
    unfolding healable_def partPath_def metaSeen_def dpath_meta
    by (elim disjE conjE) (auto simp: steady_def unmarshalXLMeta_def streamOf_def)
qed

lemma writeFile_healable:
  assumes "clear (dpath b key) d" "at d (dpath b key @ [f]) \<noteq> Some Dir"
  shows "\<exists>f'. writeFile (dpath b key @ [f]) c (dfs d) = Some f'"
  using writeFile_clear [of "dpath b key @ [f]" d c] assms by simp

lemma healMeta_disk:
  assumes h: "healable hf b key pm m j shs d"
  shows "healable hf b key pm m j shs (snd (healMeta b key (MetaDoc m) d))"
    and "dfaults (snd (healMeta b key (MetaDoc m) d)) = dfaults d"
    and "up d \<Longrightarrow> shown (snd (healMeta b key (MetaDoc m) d)) (dpath b key @ [metaFile]) = Some (MetaDoc m)"
    and "shown (snd (healMeta b key (MetaDoc m) d)) (partPath b key pm) = shown d (partPath b key pm)"
proof -
  let ?ob = "pjoin key metaFile" and ?d' = "snd (healMeta b key (MetaDoc m) d)"
  obtain r d1 where ra: "ReadAll b ?ob d = (r, d1)" by fastforce
  have k1: "dfs d1 = dfs d" "dfaults d1 = dfaults d" using ReadAll_keeps [of b ?ob d] ra by simp_all
  have d': "?d' = (if r = Inr (MetaDoc m) then d1 else snd (WriteAll b ?ob (MetaDoc m) d1))"
    using ra by (auto simp: healMeta_def split: prod.splits sum.splits)
  show fl: "dfaults ?d' = dfaults d" unfolding d' using k1 WriteAll_faults by simp
  have st: "steady d" using h by (simp add: healable_def)
  have "healable hf b key pm m j shs ?d' \<and> (up d \<longrightarrow> shown ?d' (dpath b key @ [metaFile]) = Some (MetaDoc m))
     \<and> shown ?d' (partPath b key pm) = shown d (partPath b key pm)"
  proof (rule steady_cases [OF st])
    assume dn: "down d"
    then have "down ?d'" using fl by (simp add: down_def)
    then show ?thesis using dn down_shown healable_down by (auto simp: up_def down_def)
  next
    assume u: "up d"
    show ?thesis
    proof (cases "r = Inr (MetaDoc m)")
      case True
      then have "shown d (dpath b key @ [metaFile]) = Some (MetaDoc m)"
        using ReadAll_shown [OF st, of b ?ob "MetaDoc m"] ra by simp
      then show ?thesis using True h healable_same [OF k1] same_disk_shown [OF k1] by (simp add: d')
    next
      case False
      have u1: "sched d1 = Works" using u k1 by (simp add: up_def sched_def)
      obtain f' where wf: "writeFile (dpath b key @ [metaFile]) (MetaDoc m) (dfs d1) = Some f'"
        using writeFile_healable [of b key d metaFile "MetaDoc m"] h u k1 by (auto simp: healable_def)
      have w: "WriteAll b ?ob (MetaDoc m) d1 = (Inr (), ?d')"
        using u1 wf False by (simp add: d' WriteAll_def Let_def)
      have at': "at ?d' q = (if q = dpath b key @ [metaFile] then Some (File (MetaDoc m)) else if prefix q (dpath b key) then Some Dir else at d q)" for q
        using WriteAll_ok(1) [OF w, of q] k1 by simp
      note hu = healable_up [OF h u at' fl]
      show ?thesis using hu partFile_not_meta [of "Number pm"] by (auto simp: partPath_def)
    qed
  qed
  then show "healable hf b key pm m j shs ?d'" "up d \<Longrightarrow> shown ?d' (dpath b key @ [metaFile]) = Some (MetaDoc m)"
    "shown ?d' (partPath b key pm) = shown d (partPath b key pm)" by blast+
qed

lemma CreateFile_disk:
  assumes h: "healable hf b key pm m j shs d" and hash: "\<forall>x. length (hf x) = 32"
    and x: "x = shardFile hf shs j" and cf: "CreateFile b (pjoin key (partFile (Number pm))) (int (length x)) x d = (r, d')"
  shows "healable hf b key pm m j shs d'" and "dfaults d' = dfaults d"
    and "up d \<Longrightarrow> shown d' (partPath b key pm) = Some (Raw x)"
    and "shown d' (dpath b key @ [metaFile]) = shown d (dpath b key @ [metaFile])"
proof -
  show fl: "dfaults d' = dfaults d"
    using cf by (auto simp: CreateFile_def Let_def split: if_splits option.splits)
  have st: "steady d" using h by (simp add: healable_def)
  have "healable hf b key pm m j shs d' \<and> (up d \<longrightarrow> shown d' (partPath b key pm) = Some (Raw x))
     \<and> shown d' (dpath b key @ [metaFile]) = shown d (dpath b key @ [metaFile])"
  proof (rule steady_cases [OF st])
    assume dn: "down d"
    then have "down d'" using fl by (simp add: down_def)
    then show ?thesis using dn down_shown healable_down by (auto simp: up_def down_def)
  next
    assume u: "up d"
    then have sc: "sched d = Works" by (simp add: up_def sched_def)
    obtain f' where wf: "writeFile (dpath b key @ [partFile (Number pm)]) (Raw x) (dfs d) = Some f'"
      using writeFile_healable [of b key d "partFile (Number pm)" "Raw x"] h u by (auto simp: healable_def partPath_def)
    have r: "r = Inr ()" using cf sc wf by (auto simp: CreateFile_def Let_def)
    have at': "at d' q = (if q = dpath b key @ [partFile (Number pm)] then Some (File (Raw x)) else if prefix q (dpath b key) then Some Dir else at d q)" for q
      using CreateFile_ok(1) [OF cf [unfolded r], of q] by simp
    note hu = healable_up [OF h u at' fl]
    show ?thesis using hu hash x partFile_not_meta [of "Number pm"] by (auto simp: partPath_def)
  qed
  then show "healable hf b key pm m j shs d'" "up d \<Longrightarrow> shown d' (partPath b key pm) = Some (Raw x)"
    "shown d' (dpath b key @ [metaFile]) = shown d (dpath b key @ [metaFile])" by blast+
qed

subsection \<open>The set during a heal\<close>

text \<open>
  The invariant of a heal: every disk is repairable and the disks in \<open>G\<close>, a read quorum, hold
  metadata and shard.
\<close>

definition healing :: "senv \<Rightarrow> string \<Rightarrow> string \<Rightarrow> partMeta \<Rightarrow> xlMeta \<Rightarrow> bytes \<Rightarrow> nat set \<Rightarrow> eset \<Rightarrow> bool" where
  "healing env b key pm m dat G s \<longleftrightarrow>
     set_ok s \<and> describes env (ec s) m [dat] \<and> Parts m = [pm] \<and> G \<subseteq> {..<setN s} \<and> dataBlocks (ec s) \<le> card G
     \<and> (\<forall>i < setN s. healable (bitrotRaw env) b key pm m (shardOfDisk (Distribution (Erasure m)) i) (shardsOf (ec s) dat) (disks s ! i))
     \<and> (\<forall>i \<in> G. holdsShard b key pm m
          (shardFile (bitrotRaw env) (shardsOf (ec s) dat) (shardOfDisk (Distribution (Erasure m)) i)) (disks s ! i))"

lemma healing_step:
  assumes "healing env b key pm m dat G s" "ec s' = ec s" "length (disks s') = length (disks s)"
    and "\<And>i. i < setN s \<Longrightarrow>
      healable (bitrotRaw env) b key pm m (shardOfDisk (Distribution (Erasure m)) i) (shardsOf (ec s) dat) (disks s' ! i)
      \<and> (i \<in> G \<longrightarrow> holdsShard b key pm m
          (shardFile (bitrotRaw env) (shardsOf (ec s) dat) (shardOfDisk (Distribution (Erasure m)) i)) (disks s' ! i))"
  shows "healing env b key pm m dat G s'"
proof -
  have n: "setN s' = setN s" using assms(3) by (simp add: setN_def)
  have "steady d" if "d \<in> set (disks s')" for d
    using that assms(3,4) by (auto simp: in_set_conv_nth setN_def healable_def)
  then have "set_ok s'" using assms(1,2) n by (simp add: healing_def set_ok_def)
  then show ?thesis using assms(1,2,4) n unfolding healing_def by (auto simp: subset_iff)
qed

lemma healing_same: "healing env b key pm m dat G s \<Longrightarrow> same_store s s' \<Longrightarrow> healing env b key pm m dat G s'"
proof -
  assume h: "healing env b key pm m dat G s" and ss: "same_store s s'"
  show ?thesis
  proof (rule healing_step [OF h _ same_store_length [OF ss]])
    show "ec s' = ec s" using ss by (simp add: same_store_def)
    fix i
    assume "i < setN s"
    then have "i < length (disks s)" by (simp add: setN_def)
    from healable_same [OF same_store_nth [OF ss this]]
    show "healable (bitrotRaw env) b key pm m (shardOfDisk (Distribution (Erasure m)) i) (shardsOf (ec s) dat) (disks s' ! i)
      \<and> (i \<in> G \<longrightarrow> holdsShard b key pm m
          (shardFile (bitrotRaw env) (shardsOf (ec s) dat) (shardOfDisk (Distribution (Erasure m)) i)) (disks s' ! i))"
      using h \<open>i < setN s\<close> unfolding healing_def by blast
  qed
qed

lemma healing_facts:
  assumes "healing env b key pm m dat G s"
  shows "coding_ok (ec s)" "setN s = dataBlocks (ec s) + parityBlocks (ec s)" "Inline m = None" "DataRef m = []"
    "DataBlocks (Erasure m) = dataBlocks (ec s)" "BlockSize (Erasure m) = blockSize (ec s)"
    "perm_dist (setN s) (Distribution (Erasure m))" "PSize pm = length dat" "Bitrot pm = ''highwayhash256-stream''"
    "\<And>i. i < setN s \<Longrightarrow> steady (disks s ! i)"
  using assms by (auto simp: healing_def set_ok_def describes_def setN_def)

lemma healing_readMeta:
  assumes h: "healing env b key pm m dat G s" and ord: "order_ok env"
  shows "fst (readMeta env b key s) = Inr m"
proof -
  note hf = healing_facts [OF h]
  let ?f = "\<lambda>d. fst (readMetaOf b key d)"
  have f: "?f (disks s ! i) = metaSeen b key (disks s ! i)" if "i < setN s" for i
    by (rule readMetaOf_seen [OF hf(10) [OF that]])
  have G: "G \<subseteq> {..<length (disks s)}" "dataBlocks (ec s) \<le> card G" using h by (simp_all add: healing_def setN_def)
  have seen: "metaSeen b key (disks s ! i) = Some m" if "i \<in> G" for i
    using h that by (simp add: healing_def holdsShard_def metaSeen_def unmarshalXLMeta_def)
  have k: "0 < dataBlocks (ec s)" using hf(1) by (simp add: coding_ok_def)
  have el: "elected (dataBlocks (ec s)) (map ?f (disks s)) m"
    using f seen G k h by (intro elected_unanimous [where G = G]) (auto simp: healing_def healable_def setN_def subset_iff)
  show ?thesis
    using readMeta_elected [OF ord, of s b key m] el k hf(2) by (simp add: readQuorum_def setN_def)
qed

lemma healing_changed:
  assumes "healing env b key pm m dat G s" "order_ok env" "changed env b key (Revision m) s = (ch, s')"
  shows "\<not> ch" "same_store s s'"
  using healing_readMeta [OF assms(1,2)] readMeta_keeps [of s env b key] assms(3)
  by (auto simp: changed_def split: prod.splits sum.splits)

subsection \<open>The steps of a heal\<close>

abbreviation shardFor :: "senv \<Rightarrow> eset \<Rightarrow> xlMeta \<Rightarrow> bytes \<Rightarrow> nat \<Rightarrow> bytes" where
  "shardFor env s m dat i \<equiv> shardFile (bitrotRaw env) (shardsOf (ec s) dat) (shardOfDisk (Distribution (Erasure m)) i)"

lemma shardOfDisk_less:
  assumes "perm_dist n dist" "i < n"
  shows "shardOfDisk dist i < n" "dist ! shardOfDisk dist i = i" "indexFrom 0 i dist = int (shardOfDisk dist i)"
proof -
  obtain j where j: "j < n" "dist ! j = i" using perm_dist_surj [OF assms] by blast
  then have "indexFrom 0 i dist = int j" using indexFrom_nth [of dist j 0] assms(1) by (auto simp: perm_dist_def)
  then show "shardOfDisk dist i < n" "dist ! shardOfDisk dist i = i" "indexFrom 0 i dist = int (shardOfDisk dist i)"
    using j by (simp_all add: shardOfDisk_def)
qed

lemma ReadFileStream_whole:
  assumes "steady d"
  shows "(case fst (ReadFileStream b ob 0 d) of Inr x \<Rightarrow> Some x | Inl _ \<Rightarrow> None) = streamOf (shown d (dpath b ob))"
proof (cases "fst (ReadFileStream b ob 0 d)")
  case (Inl e)
  then have "shown d (dpath b ob) \<noteq> Some (Raw f)" for f using ReadFileStream_shown [OF assms, of b ob 0 f] by auto
  then show ?thesis using Inl by (auto simp: streamOf_def split: option.splits content.splits)
next
  case (Inr x)
  then show ?thesis using ReadFileStream_shown [OF assms, of b ob 0 x] by (auto simp: streamOf_def)
qed

lemma shardIntact_disk:
  assumes h: "healing env b key pm m dat G s" and hash: "\<forall>x. length (bitrotRaw env x) = 32" and i: "i < setN s"
  shows "fst (shardIntact env b (pjoin key (partFile (Number pm))) i pm m (disks s ! i))
      = Some (shown (disks s ! i) (partPath b key pm) = Some (Raw (shardFor env s m dat i)))"
    and "dfs (snd (shardIntact env b (pjoin key (partFile (Number pm))) i pm m (disks s ! i))) = dfs (disks s ! i)"
    and "dfaults (snd (shardIntact env b (pjoin key (partFile (Number pm))) i pm m (disks s ! i))) = dfaults (disks s ! i)"
proof -
  let ?d = "disks s ! i" and ?pp = "pjoin key (partFile (Number pm))" and ?j = "shardOfDisk (Distribution (Erasure m)) i"
  note hf = healing_facts [OF h]
  let ?il = "intactLoop env pm (dataBlocks (ec s)) 32 (stripeInputSize (ec s)) i 0 (length dat)"
  have j: "?j < dataBlocks (ec s) + parityBlocks (ec s)" using shardOfDisk_less(1) [OF hf(7) i] hf(2) by simp
  obtain r d1 where rf: "ReadFileStream b ?pp 0 ?d = (r, d1)" by fastforce
  have st: "(case r of Inr x \<Rightarrow> Some x | Inl _ \<Rightarrow> None) = streamOf (shown ?d (partPath b key pm))"
    using ReadFileStream_whole [OF hf(10) [OF i], of b ?pp] rf by (simp add: partPath_def)
  have il: "?il (shardFor env s m dat i) = Some True" by (rule intactLoop_intact [OF hf(1) hash j])
  have tot: "?il x \<noteq> None" for x using intactLoop_total stripeInput_pos [OF hf(1)] by blast
  have hl: "healable (bitrotRaw env) b key pm m ?j (shardsOf (ec s) dat) ?d" using h i by (simp add: healing_def)
  have snd: "x = shardFor env s m dat i" if "streamOf (shown ?d (partPath b key pm)) = Some x" "?il x = Some True" for x
    using intactLoop_sound [OF hf(1) hash j _ _ that(2)] hl that(1) by (simp add: healable_def)
  have "fst (shardIntact env b ?pp i pm m ?d) = (case streamOf (shown ?d (partPath b key pm)) of None \<Rightarrow> Some False | Some x \<Rightarrow> ?il x)"
    using rf hf(5,6,8,9) unfolding st [symmetric] by (cases r) (simp_all add: shardIntact_def hdrOf_def stripeInputSize_def)
  also have "\<dots> = Some (shown ?d (partPath b key pm) = Some (Raw (shardFor env s m dat i)))"
  proof (cases "streamOf (shown ?d (partPath b key pm))")
    case None
    then show ?thesis by (auto simp: streamOf_def)
  next
    case (Some x)
    then have "shown ?d (partPath b key pm) = Some (Raw x)"
      by (auto simp: streamOf_def split: option.splits content.splits)
    then show ?thesis using Some il snd [OF Some] tot [of x] by (cases "?il x") auto
  qed
  finally show "fst (shardIntact env b ?pp i pm m ?d) = Some (shown ?d (partPath b key pm) = Some (Raw (shardFor env s m dat i)))" .
  show "dfs (snd (shardIntact env b ?pp i pm m ?d)) = dfs ?d" "dfaults (snd (shardIntact env b ?pp i pm m ?d)) = dfaults ?d"
    using ReadFileStream_keeps [of b ?pp 0 ?d] rf by (auto simp: shardIntact_def split: sum.splits)
qed

lemma openOthers_streams:
  assumes "\<And>i. i < setN s \<Longrightarrow> steady (disks s ! i)" "openOthers b pp di s = (streams, s1)"
  shows "same_store s s1"
    and "\<And>i. i < setN s \<Longrightarrow> streams ! i = (if i = di then None else streamOf (shown (disks s ! i) (dpath b pp)))"
proof -
  let ?f = "\<lambda>i. if i = di then (None, disks s ! i) else case ReadFileStream b pp 0 (disks s ! i) of (Inr x, d1) \<Rightarrow> (Some x, d1) | (Inl e, d1) \<Rightarrow> (None, d1)"
  have st: "streams = map (\<lambda>i. fst (?f i)) [0..<setN s]" "s1 = s\<lparr>disks := map (\<lambda>i. snd (?f i)) [0..<setN s]\<rparr>"
    using assms(2) by (auto simp: openOthers_def Let_def o_def)
  have k: "dfs (snd (?f i)) = dfs (disks s ! i) \<and> dfaults (snd (?f i)) = dfaults (disks s ! i)" for i
    using ReadFileStream_keeps [of b pp 0 "disks s ! i"] by (auto split: prod.splits sum.splits)
  have "map dfs (disks s1) = map dfs (disks s)" "map dfaults (disks s1) = map dfaults (disks s)"
    using k by (auto simp: st(2) o_def setN_def intro!: nth_equalityI)
  then show "same_store s s1" by (simp add: same_store_def st(2))
  show "streams ! i = (if i = di then None else streamOf (shown (disks s ! i) (dpath b pp)))" if "i < setN s" for i
    using ReadFileStream_whole [OF assms(1) [OF that], of b pp] that
    by (auto simp: st(1) split: prod.splits sum.splits)
qed

lemma rebuildShard_ok:
  assumes h: "healing env b key pm m dat G s" and hash: "\<forall>x. length (bitrotRaw env x) = 32"
    and di: "di < setN s" "di \<notin> G" and rb: "rebuildShard env b (pjoin key (partFile (Number pm))) di pm m s = (r, s')"
  shows "healing env b key pm m dat G s'" "r \<noteq> Inl EPanic" "ec s' = ec s" "setN s' = setN s"
    and "up (disks s ! di) \<Longrightarrow> shown (disks s' ! di) (partPath b key pm) = Some (Raw (shardFor env s m dat di))"
    and "\<And>i p. i < setN s \<Longrightarrow> i \<noteq> di \<Longrightarrow> shown (disks s' ! i) p = shown (disks s ! i) p"
    and "shown (disks s' ! di) (dpath b key @ [metaFile]) = shown (disks s ! di) (dpath b key @ [metaFile])"
    and "\<And>i. i < setN s \<Longrightarrow> up (disks s' ! i) = up (disks s ! i)"
proof -
  let ?pp = "pjoin key (partFile (Number pm))" and ?dist = "Distribution (Erasure m)" and ?e = "ec s"
  note hf = healing_facts [OF h]
  obtain streams s1 where oo: "openOthers b ?pp di s = (streams, s1)" by fastforce
  note ss = openOthers_streams [OF hf(10) oo]
  let ?rds = "map (\<lambda>j. streams ! (?dist ! j)) [0..<setN s]"
  have rd: "?rds ! j = (if ?dist ! j = di then None else streamOf (shown (disks s ! (?dist ! j)) (partPath b key pm)))" if "j < setN s" for j
    using that ss(2) perm_dist_nth_less [OF hf(7) that] by (simp add: partPath_def)
  have sd: "shardOfDisk ?dist (?dist ! j) = j" if "j < setN s" for j by (rule shardOfDisk_nth [OF hf(7) that])
  have harm: "\<forall>j < length ?rds. harmless (bitrotRaw env) j (shardsOf ?e dat) (?rds ! j)"
  proof (intro allI impI)
    fix j
    assume "j < length ?rds"
    then have j: "j < setN s" by simp
    have "healable (bitrotRaw env) b key pm m j (shardsOf ?e dat) (disks s ! (?dist ! j))"
      using h sd [OF j] perm_dist_nth_less [OF hf(7) j] by (metis healing_def)
    then show "harmless (bitrotRaw env) j (shardsOf ?e dat) (?rds ! j)" unfolding rd [OF j] by (simp add: healable_def)
  qed
  have Gs: "G \<subseteq> {..<setN s}" "dataBlocks ?e \<le> card G" using h by (simp_all add: healing_def)
  have int: "?rds ! j = Some (shardFile (bitrotRaw env) (shardsOf ?e dat) j)" if "j < setN s" "?dist ! j \<in> G" for j
  proof -
    have "holdsShard b key pm m (shardFor env s m dat (?dist ! j)) (disks s ! (?dist ! j))" using h that(2) by (simp add: healing_def)
    then show ?thesis using that di(2) rd [OF that(1)] sd [OF that(1)] by (auto simp: holdsShard_def streamOf_def)
  qed
  have "{j. j < setN s \<and> ?dist ! j \<in> G} \<subseteq> {j. j < length [0..<setN s] \<and> ?rds ! ([0..<setN s] ! j) = Some (shardFile (bitrotRaw env) (shardsOf ?e dat) ([0..<setN s] ! j))}"
    using int by auto
  then have "card {j. j < setN s \<and> ?dist ! j \<in> G} \<le> length (filter (\<lambda>j. ?rds ! j = Some (shardFile (bitrotRaw env) (shardsOf ?e dat) j)) [0..<setN s])"
    unfolding length_filter_conv_card by (intro card_mono) auto
  then have good: "dataBlocks ?e \<le> length (filter (\<lambda>j. ?rds ! j = Some (shardFile (bitrotRaw env) (shardsOf ?e dat) j)) [0..<length ?rds])"
    using card_dist [OF hf(7) Gs(1)] Gs(2) by simp
  let ?tj = "shardOfDisk ?dist di"
  note sl = shardOfDisk_less [OF hf(7) di(1)]
  let ?x = "shardFor env s m dat di"
  have loop: "rebuildLoop env ?e pm (dataBlocks ?e) 32 (stripeInputSize ?e) ?dist ?tj 0 (length dat) ?rds = Inr ?x"
    by (rule rebuildLoop_ok [OF hf(1) hash _ _ harm good]) (use hf(2) sl in simp_all)
  have vd: "validDist (setN s) ?dist" using hf(7) by (auto simp: validDist_def perm_dist_def list_all_iff)
  obtain cr d where cf: "CreateFile b ?pp (int (length ?x)) ?x (disks s1 ! di) = (cr, d)" by fastforce
  have s': "s' = s1\<lparr>disks := (disks s1)[di := d]\<rparr>" and r: "r \<noteq> Inl EPanic"
    using rb oo vd loop cf sl hf(5,6,8,9)
    by (auto simp: rebuildShard_def Let_def hdrOf_def stripeInputSize_def split: sum.splits)
  show "r \<noteq> Inl EPanic" by (rule r)
  have e1: "ec s1 = ec s" "setN s1 = setN s" "length (disks s1) = length (disks s)"
    using ss(1) same_store_length [OF ss(1)] by (simp_all add: same_store_def setN_def)
  show "ec s' = ec s" "setN s' = setN s" using e1 by (simp_all add: s' setN_def)
  have dl: "di < length (disks s1)" using di(1) e1 by (simp add: setN_def)
  have h1: "healing env b key pm m dat G s1" by (rule healing_same [OF h ss(1)])
  have hd: "healable (bitrotRaw env) b key pm m ?tj (shardsOf ?e dat) (disks s1 ! di)"
    using h1 di(1) e1 by (simp add: healing_def)
  note cd = CreateFile_disk [OF hd hash refl cf]
  have dls: "di < length (disks s)" using dl e1 by simp
  have vw: "shown (disks s1 ! i) p = shown (disks s ! i) p" "up (disks s1 ! i) = up (disks s ! i)" if "i < setN s" for i p
    using same_store_view [OF ss(1)] that by (simp_all add: setN_def)
  have k': "disks s' ! i = (if i = di then d else disks s1 ! i)" if "i < setN s" for i
    using that dl by (simp add: s' nth_list_update)
  show "healing env b key pm m dat G s'"
    by (rule healing_step [OF h1]) (use h1 e1 k' cd(1) di(2) in \<open>auto simp: s' healing_def\<close>)
  show "up (disks s ! di) \<Longrightarrow> shown (disks s' ! di) (partPath b key pm) = Some (Raw ?x)"
    "shown (disks s' ! di) (dpath b key @ [metaFile]) = shown (disks s ! di) (dpath b key @ [metaFile])"
    using cd(3,4) vw [OF di(1)] k' [OF di(1)] by simp_all
  show "shown (disks s' ! i) p = shown (disks s ! i) p" if "i < setN s" "i \<noteq> di" for i p
    using vw(1) [OF that(1)] k' [OF that(1)] that(2) by simp
  show "up (disks s' ! i) = up (disks s ! i)" if "i < setN s" for i
    using vw(2) [OF that] k' [OF that] cd(2) by (auto simp: up_def)
qed

text \<open>What a heal has achieved on a disk: nothing shown changed but the shards of the disks in \<open>D\<close>.\<close>

lemma rebuildAll_ok:
  assumes "healing env b key pm m dat G s" "\<forall>x. length (bitrotRaw env x) = 32"
    and "\<forall>di \<in> set dis. di < setN s \<and> di \<notin> G"
  shows "\<exists>c s'. rebuildAll env b (pjoin key (partFile (Number pm))) dis pm m s = (Inr c, s') \<and> healing env b key pm m dat G s'
     \<and> ec s' = ec s \<and> setN s' = setN s
     \<and> (\<forall>i < setN s. up (disks s' ! i) = up (disks s ! i)
          \<and> shown (disks s' ! i) (dpath b key @ [metaFile]) = shown (disks s ! i) (dpath b key @ [metaFile])
          \<and> (i \<in> set dis \<and> up (disks s ! i) \<or> shown (disks s ! i) (partPath b key pm) = Some (Raw (shardFor env s m dat i))
               \<longrightarrow> shown (disks s' ! i) (partPath b key pm) = Some (Raw (shardFor env s m dat i))))"
  using assms
proof (induction dis arbitrary: s)
  case (Cons di dis)
  let ?pp = "pjoin key (partFile (Number pm))"
  obtain r s1 where rb: "rebuildShard env b ?pp di pm m s = (r, s1)" by fastforce
  have di: "di < setN s" "di \<notin> G" using Cons.prems(3) by auto
  note r1 = rebuildShard_ok [OF Cons.prems(1,2) di rb]
  obtain c s' where ih: "rebuildAll env b ?pp dis pm m s1 = (Inr c, s')" "healing env b key pm m dat G s'"
      "ec s' = ec s1" "setN s' = setN s1"
      "\<forall>i < setN s1. up (disks s' ! i) = up (disks s1 ! i)
          \<and> shown (disks s' ! i) (dpath b key @ [metaFile]) = shown (disks s1 ! i) (dpath b key @ [metaFile])
          \<and> (i \<in> set dis \<and> up (disks s1 ! i) \<or> shown (disks s1 ! i) (partPath b key pm) = Some (Raw (shardFor env s1 m dat i))
               \<longrightarrow> shown (disks s' ! i) (partPath b key pm) = Some (Raw (shardFor env s1 m dat i)))"
    using Cons.IH [OF r1(1) Cons.prems(2)] Cons.prems(3) r1(4) by fastforce
  have "\<exists>c. rebuildAll env b ?pp (di # dis) pm m s = (Inr c, s')"
    using rb ih(1) r1(2) by (cases r) (auto split: setErr.splits)
  moreover have "up (disks s' ! i) = up (disks s ! i)
          \<and> shown (disks s' ! i) (dpath b key @ [metaFile]) = shown (disks s ! i) (dpath b key @ [metaFile])
          \<and> (i \<in> set (di # dis) \<and> up (disks s ! i) \<or> shown (disks s ! i) (partPath b key pm) = Some (Raw (shardFor env s m dat i))
               \<longrightarrow> shown (disks s' ! i) (partPath b key pm) = Some (Raw (shardFor env s m dat i)))" if i: "i < setN s" for i
  proof -
    have sh: "shown (disks s ! i) p \<noteq> None \<Longrightarrow> up (disks s ! i)" for p by (auto simp: shown_def split: if_splits)
    show ?thesis using ih(5) i r1(3-8) sh [of "partPath b key pm"] by (cases "i = di") auto
  qed
  ultimately show ?case using ih(2-4) r1(3,4) by metis
qed simp

lemma healParts_single:
  assumes "DataRef m = []" "pp = pjoin key (partFile (Number pm))"
    and "\<And>i. i < setN s \<Longrightarrow> fst (shardIntact env b pp i pm m (disks s ! i)) \<noteq> None"
    and "s1 = s\<lparr>disks := map (\<lambda>i. snd (shardIntact env b pp i pm m (disks s ! i))) [0..<setN s]\<rparr>"
    and "bad = filter (\<lambda>i. fst (shardIntact env b pp i pm m (disks s ! i)) = Some False) [0..<setN s]"
  shows "healParts env b key m [pm] fixed s =
    (if bad = [] then ((None, fixed), s1)
     else if setN s - length bad < DataBlocks (Erasure m) then ((Some EReadQuorum, fixed), s1)
     else case changed env b key (Revision m) s1 of (ch, s2) \<Rightarrow>
       if ch then ((None, fixed), s2)
       else case rebuildAll env b pp bad pm m s2 of
         (Inl e, s3) \<Rightarrow> ((Some e, fixed), s3) | (Inr c, s3) \<Rightarrow> ((None, fixed + c), s3))"
proof -
  let ?rs = "map (\<lambda>i. shardIntact env b pp i pm m (disks s ! i)) [0..<setN s]"
  have b: "filter (\<lambda>i. fst (?rs ! i) = Some False) [0..<setN s] = bad"
    unfolding assms(5) by (intro filter_cong) auto
  have n: "None \<notin> set (map fst ?rs)" using assms(3) by (auto simp del: not_None_eq) (metis)
  have s1: "s\<lparr>disks := map (snd \<circ> (\<lambda>i. shardIntact env b pp i pm m (disks s ! i))) [0..<setN s]\<rparr> = s1" by (simp add: assms(4) o_def)
  show ?thesis using n by (simp add: Let_def dataLoc_def assms(1) b s1 flip: assms(2) split: prod.splits sum.splits del: set_map)
qed

lemma healObject_ok:
  assumes h: "healing env b key pm m dat G s" and ord: "order_ok env" and hash: "\<forall>x. length (bitrotRaw env x) = 32"
  shows "\<exists>mf sf s'. healObject env b key s = ((mf, sf, None), s') \<and> healing env b key pm m dat G s' \<and> ec s' = ec s \<and> setN s' = setN s
     \<and> (\<forall>i < setN s. up (disks s' ! i) = up (disks s ! i)
          \<and> (up (disks s ! i) \<longrightarrow> holdsShard b key pm m (shardFor env s m dat i) (disks s' ! i)))"
proof -
  let ?pp = "pjoin key (partFile (Number pm))"
  note hf = healing_facts [OF h]
  obtain s1 where rm: "readMeta env b key s = (Inr m, s1)" using healing_readMeta [OF h ord] by (metis prod.collapse)
  have ss1: "same_store s s1" using readMeta_keeps [of s env b key] rm by simp
  note h1 = healing_same [OF h ss1]
  obtain ch s2 where c2: "changed env b key (Revision m) s1 = (ch, s2)" by fastforce
  note ch2 = healing_changed [OF h1 ord c2]
  note ss2 = same_store_trans [OF ss1 ch2(2)] and h2 = healing_same [OF h1 ch2(2)]
  have e2: "ec s2 = ec s" "length (disks s2) = length (disks s)" "setN s2 = setN s"
    using ss2 same_store_length [OF ss2] by (simp_all add: same_store_def setN_def)
  have mb: "marshal m = MetaDoc m" using hf(3) by (simp add: marshal_def)
  define s3 where "s3 = s2\<lparr>disks := map (\<lambda>d. snd (healMeta b key (MetaDoc m) d)) (disks s2)\<rparr>"
  have e3: "ec s3 = ec s" "setN s3 = setN s" "length (disks s3) = length (disks s2)" using e2 by (simp_all add: s3_def setN_def)
  have d3: "disks s3 ! i = snd (healMeta b key (MetaDoc m) (disks s2 ! i))" if "i < setN s" for i
    using that e2 by (simp add: s3_def setN_def)
  have hl2: "healable (bitrotRaw env) b key pm m (shardOfDisk (Distribution (Erasure m)) i) (shardsOf (ec s) dat) (disks s2 ! i)"
    if "i < setN s" for i using h2 e2 that by (simp add: healing_def)
  have up3: "up (disks s3 ! i) = up (disks s ! i)" and meta3: "up (disks s ! i) \<Longrightarrow> shown (disks s3 ! i) (dpath b key @ [metaFile]) = Some (MetaDoc m)"
    if i: "i < setN s" for i
    using healMeta_disk(2,3) [OF hl2 [OF i]] d3 [OF i] same_store_view(1) [OF ss2, of i] i by (auto simp: setN_def up_def)
  have h3: "healing env b key pm m dat G s3"
  proof (rule healing_step [OF h2])
    fix i
    assume "i < setN s2"
    then have i: "i < setN s" using e2 by simp
    note hd = healMeta_disk [OF hl2 [OF i]]
    show "healable (bitrotRaw env) b key pm m (shardOfDisk (Distribution (Erasure m)) i) (shardsOf (ec s2) dat) (disks s3 ! i)
      \<and> (i \<in> G \<longrightarrow> holdsShard b key pm m (shardFor env s2 m dat i) (disks s3 ! i))"
    proof (intro conjI impI)
      show "healable (bitrotRaw env) b key pm m (shardOfDisk (Distribution (Erasure m)) i) (shardsOf (ec s2) dat) (disks s3 ! i)"
        using hd(1) d3 [OF i] e2 by simp
      assume "i \<in> G"
      then have "holdsShard b key pm m (shardFor env s2 m dat i) (disks s2 ! i)" using h2 by (simp add: healing_def)
      moreover from this have "up (disks s2 ! i)" by (auto simp: holdsShard_def shown_def split: if_splits)
      ultimately show "holdsShard b key pm m (shardFor env s2 m dat i) (disks s3 ! i)"
        using hd(3,4) d3 [OF i] by (simp add: holdsShard_def)
    qed
  qed (simp_all add: e2 e3)
  let ?si = "\<lambda>i. shardIntact env b ?pp i pm m (disks s3 ! i)"
  define s4 where "s4 = s3\<lparr>disks := map (\<lambda>i. snd (?si i)) [0..<setN s]\<rparr>"
  have si: "fst (?si i) = Some (shown (disks s3 ! i) (partPath b key pm) = Some (Raw (shardFor env s m dat i)))"
      "dfs (snd (?si i)) = dfs (disks s3 ! i)" "dfaults (snd (?si i)) = dfaults (disks s3 ! i)" if "i < setN s" for i
    using shardIntact_disk [OF h3 hash, of i] that e3 by auto
  have "map dfs (disks s4) = map dfs (disks s3)" "map dfaults (disks s4) = map dfaults (disks s3)"
    using si(2,3) e3 by (auto simp: s4_def o_def setN_def intro!: nth_equalityI)
  then have ss4: "same_store s3 s4" by (simp add: same_store_def s4_def)
  have h4: "healing env b key pm m dat G s4" by (rule healing_same [OF h3 ss4])
  have e4: "ec s4 = ec s" "setN s4 = setN s" using ss4 same_store_length [OF ss4] e3 by (simp_all add: same_store_def setN_def)
  let ?bad = "filter (\<lambda>i. fst (?si i) = Some False) [0..<setN s]"
  have bad: "i \<in> set ?bad \<longleftrightarrow> i < setN s \<and> shown (disks s3 ! i) (partPath b key pm) \<noteq> Some (Raw (shardFor env s m dat i))" for i
    using si(1) by auto
  have badG: "\<forall>i \<in> set ?bad. i < setN s \<and> i \<notin> G"
    using bad h3 e3 by (auto simp: healing_def holdsShard_def)
  have up4: "up (disks s4 ! i) = up (disks s ! i)" "shown (disks s4 ! i) p = shown (disks s3 ! i) p" if "i < setN s" for i p
    using same_store_view [OF ss4, of i] up3 [OF that] that e3 e2 by (simp_all add: setN_def)
  have hp: "healParts env b key m [pm] 0 s3 =
    (if ?bad = [] then ((None, 0), s4)
     else if setN s - length ?bad < DataBlocks (Erasure m) then ((Some EReadQuorum, 0), s4)
     else case changed env b key (Revision m) s4 of (ch, s2) \<Rightarrow>
       if ch then ((None, 0), s2)
       else case rebuildAll env b ?pp ?bad pm m s2 of
         (Inl e, s3) \<Rightarrow> ((Some e, 0), s3) | (Inr c, s3) \<Rightarrow> ((None, 0 + c), s3))"
    unfolding e3(2) [symmetric] by (rule healParts_single [OF hf(4) refl]) (use si(1) e3 in \<open>simp_all add: s4_def\<close>)
  have parts: "\<exists>sf s'. healParts env b key m [pm] 0 s3 = ((None, sf), s') \<and> healing env b key pm m dat G s' \<and> ec s' = ec s \<and> setN s' = setN s
     \<and> (\<forall>i < setN s. up (disks s' ! i) = up (disks s ! i)
          \<and> (up (disks s ! i) \<longrightarrow> holdsShard b key pm m (shardFor env s m dat i) (disks s' ! i)))"
  proof (cases "?bad = []")
    case True
    then have "holdsShard b key pm m (shardFor env s m dat i) (disks s4 ! i)" if "i < setN s" "up (disks s ! i)" for i
      using bad [of i] that meta3 [OF that] up4(2) [OF that(1)] by (auto simp: holdsShard_def)
    then show ?thesis
      using e4 h4 up4(1) unfolding hp by (simp add: True)
  next
    case False
    obtain ch5 s5 where c5: "changed env b key (Revision m) s4 = (ch5, s5)" by fastforce
    note ch = healing_changed [OF h4 ord c5]
    have h5: "healing env b key pm m dat G s5" by (rule healing_same [OF h4 ch(2)])
    have e5: "ec s5 = ec s" "setN s5 = setN s" using ch(2) same_store_length [OF ch(2)] e4 by (simp_all add: same_store_def setN_def)
    have "\<forall>di \<in> set ?bad. di < setN s5 \<and> di \<notin> G" using badG e5 by auto
    from rebuildAll_ok [OF h5 hash this] obtain c s6 where ra: "rebuildAll env b ?pp ?bad pm m s5 = (Inr c, s6)"
        "healing env b key pm m dat G s6" "ec s6 = ec s5" "setN s6 = setN s5"
        "\<forall>i < setN s5. up (disks s6 ! i) = up (disks s5 ! i)
          \<and> shown (disks s6 ! i) (dpath b key @ [metaFile]) = shown (disks s5 ! i) (dpath b key @ [metaFile])
          \<and> (i \<in> set ?bad \<and> up (disks s5 ! i) \<or> shown (disks s5 ! i) (partPath b key pm) = Some (Raw (shardFor env s5 m dat i))
               \<longrightarrow> shown (disks s6 ! i) (partPath b key pm) = Some (Raw (shardFor env s5 m dat i)))"
      by blast
    have up5: "up (disks s5 ! i) = up (disks s ! i)" "shown (disks s5 ! i) p = shown (disks s3 ! i) p" if "i < setN s" for i p
      using same_store_view [OF ch(2), of i] up4 [OF that] that e4 by (simp_all add: setN_def)
    have fin: "up (disks s6 ! i) = up (disks s ! i)"
        "up (disks s ! i) \<Longrightarrow> holdsShard b key pm m (shardFor env s m dat i) (disks s6 ! i)" if i: "i < setN s" for i
    proof -
      note r6 = ra(5) [rule_format, of i]
      show "up (disks s6 ! i) = up (disks s ! i)" using r6 i e5 up5(1) [OF i] by simp
      assume u: "up (disks s ! i)"
      then show "holdsShard b key pm m (shardFor env s m dat i) (disks s6 ! i)"
        using r6 i e5 up5 [OF i] meta3 [OF i u] bad [of i] by (auto simp: holdsShard_def)
    qed
    have "length ?bad \<le> setN s - card G"
    proof -
      have "set ?bad \<subseteq> {..<setN s} - G" using badG by auto
      then have "card (set ?bad) \<le> card ({..<setN s} - G)" by (intro card_mono) auto
      also have "\<dots> = setN s - card G" using h by (subst card_Diff_subset) (auto simp: healing_def intro: finite_subset)
      finally show ?thesis using distinct_card [of ?bad] by (simp del: set_filter)
    qed
    then have q: "\<not> setN s - length ?bad < DataBlocks (Erasure m)"
      using h hf(2,5) card_mono [of "{..<setN s}" G] by (auto simp: healing_def)
    have "healParts env b key m [pm] 0 s3 = ((None, c), s6)"
      using q c5 ch(1) ra(1) by (subst hp) (simp only: False if_False split: prod.splits, simp)
    then show ?thesis using ra(2-4) e5 fin by auto
  qed
  have pm: "Parts m = [pm]" using h by (simp add: healing_def)
  obtain sf s' where sf: "healParts env b key m (Parts m) 0 s3 = ((None, sf), s')"
      "healing env b key pm m dat G s'" "ec s' = ec s" "setN s' = setN s"
      "\<forall>i < setN s. up (disks s' ! i) = up (disks s ! i)
          \<and> (up (disks s ! i) \<longrightarrow> holdsShard b key pm m (shardFor env s m dat i) (disks s' ! i))"
    using parts unfolding pm by blast
  have "\<exists>mf. healObject env b key s = ((mf, sf, None), s')"
    using rm c2 ch2(1) hf(3) sf(1) by (simp add: healObject_def Let_def mb o_def flip: s3_def)
  then show ?thesis using sf(2-5) by blast
qed

lemma healed_stored:
  assumes "healing env b key pm m dat G s" "C = {i. i < setN s \<and> up (disks s ! i)}" "writeQuorum s \<le> card C"
    and "\<forall>i \<in> C. holdsShard b key pm m (shardFor env s m dat i) (disks s ! i)"
  shows "storedOn env b key m dat s C"
proof -
  have f: "at d p = Some (File c)" if "shown d p = Some c" for d p c
    using that by (auto simp: shown_def split: if_splits option.splits node.splits)
  show ?thesis
    using assms f unfolding storedOn_def holdsShard_def healing_def by (auto simp: subset_iff)
qed

subsection \<open>Properties\<close>

text \<open>
  A set of four disks: two hold the object, one was replaced by an empty disk, one is down.
\<close>

definition wit_hpart :: partMeta where
  "wit_hpart = \<lparr>Number = 1, PSize = 11, ActualSize = 11, PETag = ''x'', Bitrot = ''highwayhash256-stream'', Checksums = []\<rparr>"

definition wit_hmeta :: xlMeta where
  "wit_hmeta = (baseMeta 5 [0, 1, 2, 3] wit_um wit_set)\<lparr>MSize := 11, Parts := [wit_hpart], ETag := ''x'', Revision := 1\<rparr>"

definition wit_holder :: "nat \<Rightarrow> disk" where
  "wit_holder j = \<lparr>dfs = [([''bkt''], Dir), ([''bkt'', ''k''], Dir), ([''bkt'', ''k'', metaFile], File (MetaDoc wit_hmeta)),
      ([''bkt'', ''k'', partFile 1], File (Raw (shardFile (bitrotRaw wit_env) (shardsOf (ec wit_set) ''hello world'') j)))],
     dfaults = (\<lambda>_. Works), dopno = 0\<rparr>"

definition wit_damaged :: eset where
  "wit_damaged = wit_set\<lparr>disks := [wit_holder 0, wit_holder 1, wit_disk, wit_failed]\<rparr>"

lemma wit_healing: "healing wit_env ''bkt'' ''k'' wit_hpart wit_hmeta ''hello world'' {0, 1} wit_damaged"
proof -
  have ec: "ec wit_damaged = ec wit_set" "setN wit_damaged = 4" by (simp_all add: wit_damaged_def setN_def)
  have st: "set_ok wit_damaged"
    using wit_set_ok(1)
    by (auto simp: set_ok_def wit_damaged_def setN_def wit_set_def steady_def up_def down_def wit_holder_def wit_disk_def wit_failed_def)
  have pd: "perm_dist 4 [0, 1, 2, 3 :: nat]" by (auto simp: perm_dist_def)
  have ds: "describes wit_env (ec wit_damaged) wit_hmeta [''hello world'']"
    using pd unfolding ec by (simp add: describes_def wit_hmeta_def baseMeta_def wit_hpart_def verifiableETag_def wit_set_def)
  have home: "shardOfDisk (Distribution (Erasure wit_hmeta)) i = i" if "i < 4" for i
    using shardOfDisk_nth [OF pd that] that by (auto simp: wit_hmeta_def baseMeta_def less_Suc_eq numeral_eq_Suc)
  have pp: "partPath ''bkt'' ''k'' wit_hpart = [''bkt'', ''k'', partFile 1]" by (simp add: partPath_def wit_dpath(1) wit_hpart_def)
  have up: "up (wit_holder j)" for j by (simp add: up_def wit_holder_def)
  have sh: "shown (wit_holder j) [''bkt'', ''k'', metaFile] = Some (MetaDoc wit_hmeta)"
    "shown (wit_holder j) [''bkt'', ''k'', partFile 1] = Some (Raw (shardFile (bitrotRaw wit_env) (shardsOf (ec wit_set) ''hello world'') j))" for j
    using up [of j] partFile_not_meta [of 1] by (simp_all add: shown_def wit_holder_def lookupF_def)
  have clr: "clear [''bkt'', ''k''] (wit_holder j)" for j
    by (auto simp: clear_def wit_holder_def lookupF_def split: if_splits dest: prefix_length_le)
  have hold: "healable (bitrotRaw wit_env) ''bkt'' ''k'' wit_hpart wit_hmeta j (shardsOf (ec wit_set) ''hello world'') (wit_holder j)" for j
    using up [of j] sh [of j] clr [of j] wit_env_ok(2) harmless_intact [of "bitrotRaw wit_env" j "shardsOf (ec wit_set) ''hello world''"]
    by (auto simp: healable_def pp wit_dpath(1) metaSeen_def unmarshalXLMeta_def streamOf_def steady_def shown_def)
  have u: "up wit_disk" by (simp add: up_def wit_disk_def)
  have none: "at wit_disk [''bkt'', ''k'', x] = None" for x by (simp add: wit_disk_def lookupF_def)
  then have "shown wit_disk [''bkt'', ''k'', x] = None" for x by (simp add: shown_def)
  moreover have "clear [''bkt'', ''k''] wit_disk" by (auto simp: clear_def wit_disk_def lookupF_def)
  ultimately have empty: "healable (bitrotRaw wit_env) ''bkt'' ''k'' wit_hpart wit_hmeta j (shardsOf (ec wit_set) ''hello world'') wit_disk" for j
    using u none by (simp add: healable_def pp wit_dpath(1) metaSeen_def streamOf_def steady_def)
  have dn: "healable (bitrotRaw wit_env) ''bkt'' ''k'' wit_hpart wit_hmeta j (shardsOf (ec wit_set) ''hello world'') wit_failed" for j
    by (rule healable_down) (simp add: down_def wit_failed_def)
  have all: "healable (bitrotRaw wit_env) ''bkt'' ''k'' wit_hpart wit_hmeta i (shardsOf (ec wit_set) ''hello world'') (disks wit_damaged ! i)" if "i < 4" for i
    using that hold empty dn by (auto simp: wit_damaged_def less_Suc_eq numeral_eq_Suc)
  have "holdsShard ''bkt'' ''k'' wit_hpart wit_hmeta (shardFile (bitrotRaw wit_env) (shardsOf (ec wit_set) ''hello world'') i) (disks wit_damaged ! i)"
    if "i \<in> {0, 1}" for i
    using that sh by (auto simp: holdsShard_def pp wit_dpath(1) wit_damaged_def)
  then show ?thesis
    using st ds all home ec unfolding healing_def by (auto simp: wit_hmeta_def wit_set_def)
qed





text \<open>
  Healing refuses an intact empty object. An object of no bytes is stored inline; the JSON codec
  drops the empty \<open>inline\<close> field, so that it reads back as an object with a part of size zero and no
  shard file. On a set where every disk works and holds its metadata, healing it fails with the error
  for lost data.
\<close>

theorem heal_refuses_empty_object:
  assumes ord: "order_ok env" and m: "Inline m = Some []" "Parts m = [pm]" "DataRef m = []" "DataBlocks (Erasure m) > 0"
    and q: "0 < readQuorum s" "readQuorum s \<le> setN s"
    and d: "\<forall>d \<in> set (disks s). up d \<and> at d (dpath b key @ [metaFile]) = Some (File (marshal m)) \<and> at d (partPath b key pm) = None"
  shows "\<exists>s'. healObject env b key s = ((0, 0, Some EReadQuorum), s')"
proof -
  let ?m = "normMeta m" and ?pp = "pjoin key (partFile (Number pm))"
  have inl: "Inline ?m = None" using m(1) by (simp add: normMeta_def)
  have mb: "marshal ?m = MetaDoc ?m" "marshal m = MetaDoc ?m" using inl by (simp_all add: marshal_def normMeta_def)
  have w: "sched d' = Works" if "d \<in> set (disks s)" "dfaults d' = dfaults d" for d d' using d that by (simp add: up_def sched_def)
  have rm: "fst (readMeta env b key s') = Inr ?m" if ss: "same_store s s'" for s'
  proof -
    have n: "length (disks s') = length (disks s)" "ec s' = ec s" using ss same_store_length [OF ss] by (simp_all add: same_store_def)
    have "fst (readMetaOf b key (disks s' ! i)) = Some ?m" if i: "i < length (disks s)" for i
    proof -
      have m: "disks s ! i \<in> set (disks s)" using i by simp
      then have "steady (disks s' ! i)" "shown (disks s' ! i) (dpath b key @ [metaFile]) = Some (MetaDoc ?m)"
        using d same_store_view [OF ss i] mb by (auto simp: steady_def shown_def)
      then show ?thesis by (simp add: readMetaOf_seen metaSeen_def unmarshalXLMeta_def)
    qed
    then have "elected (readQuorum s') (map (\<lambda>d. fst (readMetaOf b key d)) (disks s')) ?m"
      using q n by (intro elected_unanimous [where G = "{..<length (disks s')}"]) (auto simp: readQuorum_def setN_def)
    then show ?thesis using readMeta_elected [OF ord, of s' b key ?m] q n by (simp add: readQuorum_def setN_def)
  qed
  obtain s1 where r1: "readMeta env b key s = (Inr ?m, s1)" using rm [of s] by (metis prod.collapse same_store_refl)
  have ss1: "same_store s s1" using readMeta_keeps [of s env b key] r1 by simp
  obtain s2 where c2: "changed env b key (Revision ?m) s1 = (False, s2)" "same_store s1 s2"
    using rm [OF ss1] readMeta_keeps [of s1 env b key] by (cases "readMeta env b key s1") (auto simp: changed_def)
  note ss2 = same_store_trans [OF ss1 c2(2)]
  have n2: "length (disks s2) = length (disks s)" by (rule same_store_length [OF ss2])
  have keep: "fst (healMeta b key (MetaDoc ?m) (disks s2 ! i)) = False \<and> dfs (snd (healMeta b key (MetaDoc ?m) (disks s2 ! i))) = dfs (disks s ! i)"
    if i: "i < length (disks s)" for i
  proof -
    note nth = same_store_nth [OF ss2 i]
    have "fst (ReadAll b (pjoin key metaFile) (disks s2 ! i)) = Inr (MetaDoc ?m)"
      using d i w [of "disks s ! i" "disks s2 ! i"] nth mb by (intro ReadAll_works) auto
    then show ?thesis using nth ReadAll_keeps(1) [of b "pjoin key metaFile" "disks s2 ! i"]
      by (cases "ReadAll b (pjoin key metaFile) (disks s2 ! i)") (simp add: healMeta_def)
  qed
  define s3 where "s3 = s2\<lparr>disks := map (\<lambda>d. snd (healMeta b key (MetaDoc ?m) d)) (disks s2)\<rparr>"
  have mf: "countTrue (map (\<lambda>d. fst (healMeta b key (MetaDoc ?m) d)) (disks s2)) = 0"
    using keep n2 by (auto simp: countTrue_def filter_empty_conv in_set_conv_nth)
  have n3: "setN s3 = setN s" using n2 by (simp add: s3_def setN_def)
  have si: "fst (shardIntact env b ?pp i pm ?m (disks s3 ! i)) = Some False" if i: "i < setN s3" for i
  proof -
    have i': "i < length (disks s)" using i n3 by (simp add: setN_def)
    then have "at (disks s3 ! i) (dpath b key @ [partFile (Number pm)]) = None"
      using keep [OF i'] n2 d nth_mem [OF i'] by (simp add: s3_def partPath_def)
    then show ?thesis by (auto simp: shardIntact_def ReadFileStream_def)
  qed
  have bad: "filter (\<lambda>i. fst (shardIntact env b ?pp i pm ?m (disks s3 ! i)) = Some False) [0..<setN s3] = [0..<setN s3]"
    using si by simp
  have "\<exists>s4. healParts env b key ?m [pm] 0 s3 = ((Some EReadQuorum, 0), s4)"
    using healParts_single [OF _ refl _ refl bad [symmetric], where fixed = 0] si m(3,4) q n3
    by (auto simp: normMeta_def)
  then show ?thesis
    using r1 c2(1) inl mf m(2) by (auto simp: healObject_def Let_def mb o_def simp del: healParts.simps simp flip: s3_def)
qed

definition wit_empty_meta :: xlMeta where
  "wit_empty_meta = (baseMeta 5 [0, 1, 2, 3] wit_um wit_set)\<lparr>Inline := Some [], Parts := [wit_hpart\<lparr>PSize := 0\<rparr>]\<rparr>"

definition wit_empty_set :: eset where
  "wit_empty_set = wit_set\<lparr>disks := replicate 4 \<lparr>dfs = [([''bkt''], Dir), ([''bkt'', ''k''], Dir),
     ([''bkt'', ''k'', metaFile], File (marshal wit_empty_meta))], dfaults = (\<lambda>_. Works), dopno = 0\<rparr>\<rparr>"

theorem heal_refuses_empty_object_witness:
  "\<exists>s'. healObject wit_env ''bkt'' ''k'' wit_empty_set = ((0, 0, Some EReadQuorum), s')"
  by (rule heal_refuses_empty_object [OF wit_env_ok(1), of wit_empty_meta "wit_hpart\<lparr>PSize := 0\<rparr>"])
    (use partFile_not_meta [of 1] in \<open>auto simp: wit_empty_meta_def baseMeta_def wit_empty_set_def wit_set_def readQuorum_def setN_def
       up_def wit_dpath(1) partPath_def wit_hpart_def lookupF_def numeral_eq_Suc\<close>)

end
