(* ===== verification/Frame.thy ===== *)
theory Frame
  imports Durability
begin

text \<open>
  What an operation leaves alone. A disk evolves \<^emph>\<open>within\<close> a list of directories when every path outside
  them is unchanged, except that directories on the way to them may have been created or pruned. Every
  disk operation, whatever its outcome, evolves its disk within the paths it names; the write of an
  object evolves the set within its staging directory and the object's own directory.
\<close>

subsection \<open>One disk\<close>

definition within :: "path list \<Rightarrow> disk \<Rightarrow> disk \<Rightarrow> bool" where
  "within R d d' \<longleftrightarrow> dfaults d' = dfaults d \<and>
     (\<forall>q. (\<forall>r \<in> set R. \<not> prefix r q) \<longrightarrow>
        at d' q = at d q \<or> ((\<exists>r \<in> set R. prefix q r) \<and> (\<forall>c. at d' q \<noteq> Some (File c))))"

named_theorems frame \<open>each operation evolves within the paths it names\<close>

lemma within_refl [simp]: "dfs d' = dfs d \<Longrightarrow> dfaults d' = dfaults d \<Longrightarrow> within R d d'"
  by (simp add: within_def)

lemma within_trans: "within R a b \<Longrightarrow> within R b c \<Longrightarrow> within R a c"
  unfolding within_def by metis

lemma within_mono:
  assumes "within R d d'" and sub: "\<forall>r \<in> set R. \<exists>r' \<in> set R'. prefix r' r"
  shows "within R' d d'"
  unfolding within_def
proof (intro conjI allI impI)
  show "dfaults d' = dfaults d" using assms(1) by (simp add: within_def)
  fix q
  assume q: "\<forall>r \<in> set R'. \<not> prefix r q"
  then have "\<forall>r \<in> set R. \<not> prefix r q" using sub by (meson prefix_order.trans)
  then consider "at d' q = at d q" | r where "r \<in> set R" "prefix q r" "\<forall>c. at d' q \<noteq> Some (File c)"
    using assms(1) unfolding within_def by metis
  then show "at d' q = at d q \<or> (\<exists>r \<in> set R'. prefix q r) \<and> (\<forall>c. at d' q \<noteq> Some (File c))"
  proof cases
    case 2
    then obtain r' where "r' \<in> set R'" "prefix r' r" using sub by blast
    then show ?thesis using 2 q by (metis prefix_same_cases)
  qed simp
qed

lemma within_same: "within R d d' \<Longrightarrow> \<forall>r \<in> set R. \<not> prefix r q \<and> \<not> prefix q r \<Longrightarrow> at d' q = at d q"
  unfolding within_def by metis

lemma within_clear: "within R d d' \<Longrightarrow> clear p d \<Longrightarrow> \<forall>r \<in> set R. \<not> prefix r p \<Longrightarrow> clear p d'"
  unfolding within_def clear_def by (metis prefix_order.trans)

lemma within_up: "within R d d' \<Longrightarrow> up d' = up d" "within R d d' \<Longrightarrow> steady d' = steady d"
  by (simp_all add: within_def up_def down_def steady_def)

lemma within_writeFile:
  assumes "writeFile p c f = Some f'" "\<not> prefix p q"
  shows "lookupF f' q = lookupF f q \<or> (prefix q p \<and> (\<forall>c. lookupF f' q \<noteq> Some (File c)))"
  using lookupF_writeFile(2) [OF assms(1), of q] assms(2) by (auto intro: prefix_order.trans [OF _ prefixeq_butlast])

lemma within_WriteAll [frame]: "within [dpath b ob] d (snd (WriteAll b ob c d))"
proof -
  have "prefix q (dpath b ob)" if "prefix q (butlast (dpath b ob))" for q
    using that prefixeq_butlast prefix_order.trans by blast
  then show ?thesis
    unfolding within_def WriteAll_faults
    using within_writeFile [of "dpath b ob" c "dfs d"] lookupF_mkdirAll [of "butlast (dpath b ob)" "dfs d"]
    by (auto simp: WriteAll_def Let_def split: option.splits)
qed

lemma within_CreateFile [frame]: "within [dpath b ob] d (snd (CreateFile b ob sz x d))"
  unfolding within_def
  using within_writeFile [of "dpath b ob" "Raw x" "dfs d"]
  by (auto simp: CreateFile_def Let_def lookupF_removeAll split: option.splits)

lemma within_CreateFileAborted [frame]: "within [dpath b ob] d (snd (CreateFileAborted b ob d))"
  unfolding within_def
  using within_writeFile [of "dpath b ob" "Raw []" "dfs d"]
  by (auto simp: CreateFileAborted_def Let_def lookupF_removeAll split: option.splits)

lemma prune_below: "lookupF (prune stop leaf f) q = lookupF f q \<or> (prefix q leaf \<and> lookupF (prune stop leaf f) q = None)"
proof (induction stop leaf f rule: prune.induct)
  case (1 stop leaf f)
  show ?case
  proof (cases "removeF leaf f")
    case (Inr f')
    then show ?thesis
      using 1(1) [OF _ Inr] lookupF_removeF [OF Inr, of q] prefix_order.trans [OF _ prefixeq_butlast [of leaf], of q]
      by (cases "stop < length leaf") (auto simp: prune.simps [of stop leaf f] split: if_splits)
  qed (simp add: prune.simps [of stop leaf f])
qed

lemma within_Delete [frame]: "within [dpath b ob] d (snd (Delete b ob True d))"
proof -
  let ?f = "prune (length (dpath b [])) (butlast (dpath b ob)) (removeAll (dpath b ob) (dfs d))"
  have "lookupF ?f q = at d q \<or> prefix q (dpath b ob) \<and> lookupF ?f q = None" if "\<not> prefix (dpath b ob) q" for q
    using prune_below [of "length (dpath b [])" "butlast (dpath b ob)" "removeAll (dpath b ob) (dfs d)" q] that
      prefix_order.trans [OF _ prefixeq_butlast [of "dpath b ob"], of q]
    by (auto simp: lookupF_removeAll)
  then have "lookupF ?f q = at d q \<or> prefix q (dpath b ob) \<and> (\<forall>c. lookupF ?f q \<noteq> Some (File c))"
    if "\<not> prefix (dpath b ob) q" for q using that by fastforce
  then show ?thesis unfolding within_def Delete_faults by (simp add: Delete_def Let_def)
qed

lemma within_RenameDir [frame]: "within [dpath sb so, dpath tb tobj] d (snd (RenameDir sb so tb tobj d))"
proof (cases "RenameDir sb so tb tobj d")
  case (Pair r d')
  let ?dst = "dpath tb tobj"
  have pb: "prefix q ?dst" if "prefix q (butlast ?dst)" for q
    using that prefixeq_butlast prefix_order.trans by blast
  have fl: "dfaults d' = dfaults d" using RenameDir_faults [of sb so tb tobj d] Pair by simp
  show ?thesis
  proof (cases r)
    case (Inr u)
    then show ?thesis using RenameDir_ok [of sb so tb tobj d u d'] Pair fl pb by (auto simp: within_def)
  next
    case (Inl e)
    then have "dfs d' = dfs d \<or> (\<exists>f1. mkdirAll (butlast ?dst) (dfs d) = Some f1 \<and> dfs d' = removeAll ?dst f1)"
      using Pair by (auto simp: RenameDir_def Let_def split: option.splits if_splits)
    then show ?thesis
      using Pair fl pb lookupF_mkdirAll [of "butlast ?dst" "dfs d"]
      by (auto simp: within_def lookupF_removeAll split: if_splits)
  qed
qed

subsection \<open>A set\<close>

definition withinS :: "path list \<Rightarrow> eset \<Rightarrow> eset \<Rightarrow> bool" where
  "withinS R s s' \<longleftrightarrow> ec s' = ec s \<and> hasMrf s' = hasMrf s \<and> list_all2 (within R) (disks s) (disks s')"

lemma withinS_refl [simp]: "withinS R s s"
  by (auto simp: withinS_def intro: list_all2_refl)

lemma withinS_trans: "withinS R a b \<Longrightarrow> withinS R b c \<Longrightarrow> withinS R a c"
  unfolding withinS_def by (auto intro: list_all2_trans [OF within_trans])

lemma withinS_mono: "withinS R s s' \<Longrightarrow> \<forall>r \<in> set R. \<exists>r' \<in> set R'. prefix r' r \<Longrightarrow> withinS R' s s'"
  unfolding withinS_def using within_mono by (metis (no_types, lifting) list_all2_mono)

lemma withinS_same_store: "same_store s s' \<Longrightarrow> withinS R s s'"
  unfolding withinS_def list_all2_conv_all_nth
  using same_store_length [of s s'] same_store_nth [of s s'] by (simp add: same_store_def)

lemma withinS_forEachDisk: "(\<And>d. within R d (snd (fn d))) \<Longrightarrow> withinS R s (snd (forEachDisk fn s))"
  by (simp add: withinS_def list_all2_conv_all_nth)

lemma withinS_callMrf: "withinS R s (callMrf b key s')  \<longleftrightarrow> withinS R s s'"
  by (simp add: withinS_def callMrf_def)

lemma withinS_nth: "withinS R s s' \<Longrightarrow> i < setN s \<Longrightarrow> within R (disks s ! i) (disks s' ! i)"
  by (auto simp: withinS_def setN_def list_all2_conv_all_nth)

lemma withinS_setN: "withinS R s s' \<Longrightarrow> setN s' = setN s" "withinS R s s' \<Longrightarrow> ec s' = ec s"
  "withinS R s s' \<Longrightarrow> writeQuorum s' = writeQuorum s" "withinS R s s' \<Longrightarrow> readQuorum s' = readQuorum s"
  by (auto simp: withinS_def setN_def writeQuorum_def readQuorum_def dest: list_all2_lengthD)

lemma withinS_set_ok: "withinS R s s' \<Longrightarrow> set_ok s \<Longrightarrow> set_ok s'"
  using withinS_setN(1,2) [of R s s'] withinS_nth [of R s s'] within_up(2) [of R]
  unfolding set_ok_def all_set_conv_all_nth setN_def by metis

lemma withinS_readMeta: "withinS R s (snd (readMeta env b key s))"
  by (rule withinS_same_store [OF readMeta_keeps])

lemma withinS_encodePart: "withinS [dpath [] stgs] s (snd (encodePart env stgs pn dist r s))"
proof -
  let ?o = "pjoin stgs (partFile pn)" and ?R = "[dpath [] stgs]"
  have sub: "\<forall>r \<in> set [dpath [] ?o]. \<exists>r' \<in> set ?R. prefix r' r" by simp
  have ab: "withinS ?R s (snd (forEachDisk (CreateFileAborted [] ?o) s))"
    by (rule withinS_mono [OF withinS_forEachDisk [OF within_CreateFileAborted] sub])
  have cf: "withinS ?R s (s\<lparr>disks := map (\<lambda>i. snd (CreateFile [] ?o (-1) (x i) (disks s ! i))) [0..<setN s]\<rparr>)" for x
    using within_mono [OF within_CreateFile sub] by (simp add: withinS_def list_all2_conv_all_nth setN_def)
  show ?thesis
    unfolding encodePart_def Let_def
    using ab cf by (auto simp: o_def split: option.splits)
qed

lemma withinS_encodeParts: "withinS [dpath [] stgs] s (snd (encodeParts env stgs dist compress sp pss acc s))"
proof (induction pss arbitrary: acc s)
  case (Cons ps pss)
  let ?e = "encodePart env stgs (psNumber ps) dist (partReader env compress sp (psReader ps)) s"
  have "withinS [dpath [] stgs] s (snd ?e)" by (rule withinS_encodePart)
  then show ?case
    using Cons.IH withinS_trans by (cases ?e) (fastforce split: sum.splits prod.splits simp: Let_def)
qed simp

lemma withinS_commitMeta: "withinS [dpath [] stgs, dpath b key] s (snd (commitMeta env stgs b key meta er s))"
proof -
  let ?R = "[dpath [] stgs, dpath b key]"
  obtain pr s0 where rm: "readMeta env b key s = (pr, s0)" by fastforce
  have 0: "withinS ?R s s0" using withinS_readMeta [of ?R s env b key] rm by simp
  have w: "withinS ?R s (snd (forEachDisk (WriteAll [] (pjoin stgs metaFile) mb) s1))" if "withinS ?R s s1" for mb s1
    by (rule withinS_trans [OF that withinS_mono [OF withinS_forEachDisk [OF within_WriteAll]]]) simp
  have rn: "withinS ?R s (snd (forEachDisk (RenameDir [] stgs b key) s1))" if "withinS ?R s s1" for s1
    by (rule withinS_trans [OF that withinS_forEachDisk [OF within_RenameDir]])
  have dl: "withinS ?R s (snd (forEachDisk (Delete b key True) s1))" if "withinS ?R s s1" for s1
    by (rule withinS_trans [OF that withinS_mono [OF withinS_forEachDisk [OF within_Delete]]]) simp
  show ?thesis
    unfolding commitMeta_def rm Let_def split_beta
    using 0 w [OF 0] rn [OF w [OF 0]] dl [OF rn [OF w [OF 0]]]
    by (simp add: withinS_callMrf)
qed

lemma withinS_cleanup: "withinS [dpath [] stgs] s (cleanupStaging stgs s)"
  unfolding cleanupStaging_def by (rule withinS_forEachDisk [OF within_Delete])

text \<open>The write without deduplication, step by step.\<close>

definition compresses :: "senv \<Rightarrow> partSource list \<Rightarrow> userMeta \<Rightarrow> sseParams option \<Rightarrow> bool" where
  "compresses env pss um sp \<longleftrightarrow> length pss = 1 \<and> sp = None
     \<and> shouldCompress env (umCompress um) False (umContentType um) (psSize (pss ! 0))"

definition inlines :: "senv \<Rightarrow> partSource list \<Rightarrow> bool" where
  "inlines env pss \<longleftrightarrow> length pss = 1 \<and> inlineMaxBytes env > 0 \<and> psSize (pss ! 0) \<ge> 0 \<and> psSize (pss ! 0) \<le> inlineMaxBytes env"

lemma putStaged_plain:
  "putStaged env stgs stg2 now b key pss um sp False s =
     (if inlines env pss then putObjectInline env stgs b key (baseMeta now (buildDistribution key (setN s)) um s) (pss ! 0) sp s
      else case encodeParts env stgs (buildDistribution key (setN s)) (compresses env pss um sp) sp pss
                  \<lparr>paParts = [], paMD5 = [], paTotal = 0, paPartial = False\<rparr> s of
        (Inl e, s1) \<Rightarrow> (Inl e, s1)
      | (Inr acc, s1) \<Rightarrow>
          (case commitMeta env stgs b key
                  (finishMeta env (compresses env pss um sp) sp pss acc (baseMeta now (buildDistribution key (setN s)) um s)) (-1) s1 of
             (Inl e, s2) \<Rightarrow> (Inl e, s2)
           | (Inr m, s2) \<Rightarrow> (Inr m, if paPartial acc \<and> hasMrf s2 \<and> b \<noteq> [] then callMrf b key s2 else s2)))"
  by (simp add: putStaged_def Let_def compresses_def inlines_def split: prod.split sum.split)

lemma withinS_put:
  "withinS [dpath [] (pjoin tmpPrefix id1), dpath b key] s (snd (putObjectSSE env id1 id2 now b key pss um sp False s))"
proof -
  define stgs where "stgs = pjoin tmpPrefix id1"
  let ?R = "[dpath [] stgs, dpath b key]"
  have wk: "withinS ?R s s'" if "withinS [dpath [] stgs] s s'" for s s' by (rule withinS_mono [OF that]) simp
  have cm: "withinS ?R s (snd (commitMeta env stgs b key meta er s1))" if "withinS ?R s s1" for meta er s1
    by (rule withinS_trans [OF that withinS_commitMeta])
  have ep: "withinS ?R s s1" if "encodeParts env stgs dist compress sp pss acc s = (r, s1)" for dist compress acc r s1
    using wk [OF withinS_encodeParts [of stgs s env dist compress sp pss acc]] that by simp
  have inl: "withinS ?R s (snd (putObjectInline env stgs b key meta ps sp s))" for meta ps
    using cm [OF withinS_refl] by (simp add: putObjectInline_def Let_def)
  have cmr: "withinS ?R s s2" if "withinS ?R s s1" "commitMeta env stgs b key meta er s1 = (r, s2)" for meta er s1 r s2
    using cm [OF that(1), of meta er] that(2) by simp
  have st: "withinS ?R s (snd (putStaged env stgs stg2 now b key pss um sp False s))" for stg2
    unfolding putStaged_plain using inl ep cmr [OF ep]
    by (auto simp: withinS_callMrf split: prod.split sum.split)
  show ?thesis
    unfolding putObjectSSE_def Let_def stgs_def [symmetric] split_beta snd_conv
    by (rule withinS_trans [OF st wk [OF withinS_cleanup]])
qed

end
