(* ===== verification/VersionLock.thy ===== *)
theory VersionLock
  imports Versioning Frame
begin

text \<open>
  What object lock promises: a version under COMPLIANCE retention survives every sequence of
  requests on its key made before the retention ends. The theory follows the files of one version on
  every working disk, through the moves between the key's own directory and the version store, and its
  entry in the version log.
\<close>

subsection \<open>Names and paths\<close>

definition names_ok :: "string \<Rightarrow> string \<Rightarrow> bool" where
  "names_ok b key \<longleftrightarrow> plainName b \<and> b \<noteq> sysDir \<and> segs key \<noteq> [] \<and> (\<forall>x \<in> set (segs key). plainSeg x) \<and> hd (segs key) \<noteq> sysDir"

definition liveP :: "string \<Rightarrow> string \<Rightarrow> path" where "liveP b key = b # segs key"
definition vsRoot :: "string \<Rightarrow> string \<Rightarrow> path" where "vsRoot b key = b # sysDir # ''vs'' # segs key"
definition vlogRoot :: "string \<Rightarrow> string \<Rightarrow> path" where "vlogRoot b key = b # sysDir # ''vlog'' # segs key"

abbreviation vsP :: "string \<Rightarrow> string \<Rightarrow> string \<Rightarrow> path" where "vsP b key vid \<equiv> vsRoot b key @ [vid]"
abbreviation vlogP :: "string \<Rightarrow> string \<Rightarrow> path" where "vlogP b key \<equiv> vlogRoot b key @ [''vlog.json'']"

lemma splitOn_hd: "\<exists>xs. splitOn c s = takeWhile (\<lambda>x. x \<noteq> c) s # xs"
proof (induction s)
  case (Cons x s)
  then show ?case by (auto split: list.splits)
qed simp

lemma valid_names:
  assumes "validBucketName b" "validObjectName key" "key \<noteq> sysDir"
  shows "names_ok b key"
proof -
  have low: "\<forall>c \<in> set b. isLowerName c" and b: "length b \<ge> 3" "\<not> hasPrefix b ''.''" "b \<noteq> sysDir"
    using assms(1) by (auto simp: validBucketName_def sysDir_def list_all_iff split: if_splits)
  have "CHR ''/'' \<notin> set b" using low by (force simp: isLowerName_def less_eq_char_def)
  then have pb: "plainName b" using b by (auto simp: plainName_def)
  have key: "key \<noteq> []" "\<not> hasPrefix key ''/''" "\<not> hasPrefix key ''.gostore.sys/''"
      "\<forall>x \<in> set (splitOn (CHR ''/'') key). plainSeg x"
    using assms(2) by (auto simp: validObjectName_def list_ex_iff split: if_splits)
  define x where "x = takeWhile (\<lambda>c. c \<noteq> CHR ''/'') key"
  obtain xs where xs: "splitOn (CHR ''/'') key = x # xs" using splitOn_hd x_def by blast
  have x: "x \<noteq> []" using key(1,2) by (cases key) (auto simp: x_def hasPrefix_def)
  have "x \<noteq> sysDir"
  proof
    assume e: "x = sysDir"
    then have k: "key = sysDir @ dropWhile (\<lambda>c. c \<noteq> CHR ''/'') key" unfolding x_def by (metis takeWhile_dropWhile_id)
    then obtain r where "dropWhile (\<lambda>c. c \<noteq> CHR ''/'') key = CHR ''/'' # r"
      using assms(3) by (cases "dropWhile (\<lambda>c. c \<noteq> CHR ''/'') key") (auto dest: dropWhile_eq_Cons_conv [THEN iffD1])
    then show False using k key(3) by (simp add: hasPrefix_def sysDir_def)
  qed
  then show ?thesis using pb b(3) key(4) x by (simp add: names_ok_def segs_def xs)
qed

lemma names_segs: "names_ok b key \<Longrightarrow> segs b = [b]" "names_ok b key \<Longrightarrow> \<forall>x \<in> set (segs b). plainSeg x"
    "names_ok b key \<Longrightarrow> \<forall>x \<in> set (segs key). plainSeg x"
  unfolding names_ok_def using segs_plainName [of b] by (auto simp: plainName_def)

lemma dpath_live: "names_ok b key \<Longrightarrow> dpath b key = liveP b key"
  using names_segs [of b key] dpath_plain [of b key] unfolding liveP_def by force

lemma dpath_sys:
  assumes "names_ok b key" "plainSeg w" "w \<noteq> []" "CHR ''/'' \<notin> set w"
  shows "dpath b (pjoin (''.gostore.sys/'' @ w) key) = b # sysDir # w # segs key"
proof -
  have g: "segs ''.gostore.sys'' = [sysDir]" by code_simp
  have "segs (pjoin ''.gostore.sys'' w) = [sysDir, w]" unfolding segs_pjoin g segs_single [OF assms(3,4)] by simp
  then have w: "segs (''.gostore.sys/'' @ w) = [sysDir, w]" by (simp add: pjoin_def)
  have "plainSeg sysDir" by code_simp
  then have "\<forall>x \<in> set (segs b) \<union> set (segs (pjoin (''.gostore.sys/'' @ w) key)). plainSeg x"
    using names_segs [OF assms(1)] assms(2) unfolding segs_pjoin w by fastforce
  from dpath_plain [OF this] show ?thesis using names_segs(1) [OF assms(1)] w by simp
qed

lemma dpath_vs: "names_ok b key \<Longrightarrow> plainName vid \<Longrightarrow> dpath b (vsDir key vid) = vsP b key vid"
  using dpath_sys [of b key "''vs''"] by (simp add: vsDir_def dpath_child vsRoot_def)

lemma dpath_vlog: "names_ok b key \<Longrightarrow> dpath b (vlogPath key) = vlogP b key"
proof -
  have "plainName ''vlog.json''" by code_simp
  then show "names_ok b key \<Longrightarrow> ?thesis"
    using dpath_sys [of b key "''vlog''"] by (simp add: vlogPath_def dpath_child vlogRoot_def)
qed

definition apart :: "path \<Rightarrow> path \<Rightarrow> bool" where
  "apart p q \<longleftrightarrow> \<not> prefix p q \<and> \<not> prefix q p"

lemma apart_sym: "apart p q \<Longrightarrow> apart q p"
  by (simp add: apart_def)

lemma apart_snoc: "apart p q \<Longrightarrow> apart p (q @ [x])" "apart p q \<Longrightarrow> apart (p @ [x]) q"
  unfolding apart_def by (auto simp: prefix_snoc dest: append_prefixD)

lemma apart_vs: "vid \<noteq> vid' \<Longrightarrow> apart (vsP b key vid) (vsP b key vid')"
  by (simp add: apart_def vsRoot_def)

lemma apart_paths:
  assumes "names_ok b key"
  shows "apart (liveP b key) (vsP b key vid)" "apart (liveP b key) (vsRoot b key)" "apart (liveP b key) (vlogP b key)"
    "apart (liveP b key) (vlogRoot b key)" "apart (vsP b key vid) (vlogP b key)" "apart (vsP b key vid) (vlogRoot b key)"
    "apart (vlogP b key) (vsRoot b key)"
proof -
  obtain k ks where "segs key = k # ks" "k \<noteq> sysDir" using assms by (cases "segs key") (auto simp: names_ok_def)
  then show "apart (liveP b key) (vsP b key vid)" "apart (liveP b key) (vsRoot b key)" "apart (liveP b key) (vlogP b key)"
    "apart (liveP b key) (vlogRoot b key)" "apart (vsP b key vid) (vlogP b key)" "apart (vsP b key vid) (vlogRoot b key)"
    "apart (vlogP b key) (vsRoot b key)"
    by (simp_all add: apart_def liveP_def vsRoot_def vlogRoot_def)
qed

lemma apart_staging:
  assumes "names_ok b key" "plainName id1"
  shows "apart (dpath [] (pjoin tmpPrefix id1)) (liveP b key)" "apart (dpath [] (pjoin tmpPrefix id1)) (vsRoot b key)"
    "apart (dpath [] (pjoin tmpPrefix id1)) (vlogRoot b key)" "apart (dpath [] (pjoin tmpPrefix id1)) (b # r)"
    "stagingPath (dpath [] (pjoin tmpPrefix id1))" "userPath (liveP b key)"
  using assms
  by (auto simp: staging_dpath apart_def liveP_def vsRoot_def vlogRoot_def names_ok_def stagingPath_def userPath_def)

subsection \<open>The state of a locked version\<close>

definition onUp :: "eset \<Rightarrow> (nat \<Rightarrow> disk \<Rightarrow> bool) \<Rightarrow> bool" where
  "onUp s P \<longleftrightarrow> (\<forall>i < setN s. up (disks s ! i) \<longrightarrow> P i (disks s ! i))"

definition steadySet :: "eset \<Rightarrow> bool" where
  "steadySet s \<longleftrightarrow> set_ok s \<and> writeQuorum s \<le> card {i. i < setN s \<and> up (disks s ! i)}"

text \<open>The same object with another lock.\<close>

definition relocked :: "xlMeta \<Rightarrow> xlMeta \<Rightarrow> bool" where
  "relocked m m' \<longleftrightarrow> (\<exists>a t h. m' = m\<lparr>LockMode := a, RetainUntil := t, LegalHold := h\<rparr>)"

text \<open>Every working disk has the version's metadata and its files \<open>T\<close> in directory \<open>p\<close>.\<close>

definition heldIn :: "path \<Rightarrow> xlMeta \<Rightarrow> (nat \<Rightarrow> string \<Rightarrow> node option) \<Rightarrow> eset \<Rightarrow> bool" where
  "heldIn p m T s \<longleftrightarrow> onUp s (\<lambda>i d. clear p d \<and> at d p = Some Dir \<and> at d (p @ [metaFile]) = Some (File (MetaDoc m))
     \<and> (\<forall>x. x \<noteq> metaFile \<longrightarrow> at d (p @ [x]) = T i x))"

text \<open>The metadata found in directory \<open>p\<close> on a working disk, if any, is of another version.\<close>

definition otherID :: "string \<Rightarrow> xlMeta \<Rightarrow> bool" where
  "otherID vid m \<longleftrightarrow> VersionID m \<noteq> vid \<and> (VersionID m = [] \<or> plainName (VersionID m))"

definition othersIn :: "string \<Rightarrow> path \<Rightarrow> eset \<Rightarrow> bool" where
  "othersIn vid p s \<longleftrightarrow> onUp s (\<lambda>i d. \<forall>m. at d (p @ [metaFile]) = Some (File (MetaDoc m)) \<longrightarrow> otherID vid m)"

definition logged :: "string \<Rightarrow> string \<Rightarrow> vlogEntry list \<Rightarrow> eset \<Rightarrow> bool" where
  "logged b key v s \<longleftrightarrow> onUp s (\<lambda>i d. at d (vlogP b key) = Some (File (VlogDoc v)))"

definition ways :: "string \<Rightarrow> string \<Rightarrow> eset \<Rightarrow> bool" where
  "ways b key s \<longleftrightarrow> onUp s (\<lambda>i d. clear (butlast (liveP b key)) d \<and> clear (vsRoot b key) d \<and> clear (vlogRoot b key) d)"

definition vlogOK :: "vlogEntry list \<Rightarrow> bool" where
  "vlogOK v \<longleftrightarrow> distinct (map VlogID v) \<and> (\<forall>e \<in> set v. plainName (VlogID e))"

definition lockedEntry :: "string \<Rightarrow> time \<Rightarrow> vlogEntry list \<Rightarrow> bool" where
  "lockedEntry vid until v \<longleftrightarrow> (\<exists>e \<in> set v. VlogID e = vid \<and> VLockMode e = ''COMPLIANCE'' \<and> until \<le> VRetainUntil e)"

text \<open>
  The version's files are in the key's directory (\<open>cur\<close>) or in the version store, and no other directory
  of the key holds its metadata.
\<close>

definition placed :: "string \<Rightarrow> string \<Rightarrow> string \<Rightarrow> xlMeta \<Rightarrow> (nat \<Rightarrow> string \<Rightarrow> node option) \<Rightarrow> bool \<Rightarrow> eset \<Rightarrow> bool" where
  "placed b key vid m T cur s \<longleftrightarrow>
     (if cur then heldIn (liveP b key) m T s else heldIn (vsP b key vid) m T s \<and> othersIn vid (liveP b key) s)
     \<and> (\<forall>x. x \<noteq> vid \<and> plainName x \<longrightarrow> othersIn vid (vsP b key x) s)"

definition version_ok :: "string \<Rightarrow> string \<Rightarrow> string \<Rightarrow> xlMeta \<Rightarrow> bool" where
  "version_ok b key vid m \<longleftrightarrow> names_ok b key \<and> plainName vid \<and> vid \<noteq> nullVersionID \<and> VersionID m = vid \<and> normMeta m = m"

subsection \<open>Evolution elsewhere keeps it\<close>

lemma onUp_withinS:
  assumes "withinS R s s'" "onUp s P"
    and "\<And>i d d'. within R d d' \<Longrightarrow> P i d \<Longrightarrow> Q i d'"
  shows "onUp s' Q"
  using assms(2,3) withinS_setN(1) [OF assms(1)] withinS_nth [OF assms(1)] within_up(1) [of R] unfolding onUp_def by metis

lemma steadySet_within:
  assumes "withinS R s s'" "steadySet s"
  shows "steadySet s'"
proof -
  have "{i. i < setN s' \<and> up (disks s' ! i)} = {i. i < setN s \<and> up (disks s ! i)}"
    using withinS_setN(1) [OF assms(1)] withinS_nth [OF assms(1)] within_up(1) [of R] by auto
  then show ?thesis using assms withinS_set_ok withinS_setN(3) unfolding steadySet_def by metis
qed

lemma within_at: "within R d d' \<Longrightarrow> \<forall>r \<in> set R. apart r q \<Longrightarrow> at d' q = at d q"
  unfolding apart_def by (rule within_same)

lemma heldIn_within:
  assumes "withinS R s s'" "heldIn p m T s" "\<forall>r \<in> set R. apart r p"
  shows "heldIn p m T s'"
  using assms(1,2) unfolding heldIn_def
proof (rule onUp_withinS)
  fix i d d'
  assume w: "within R d d'" and h: "clear p d \<and> at d p = Some Dir \<and> at d (p @ [metaFile]) = Some (File (MetaDoc m))
      \<and> (\<forall>x. x \<noteq> metaFile \<longrightarrow> at d (p @ [x]) = T i x)"
  have "at d' (p @ [x]) = at d (p @ [x])" "at d' p = at d p" for x
    using within_at [OF w] assms(3) apart_snoc(1) by blast+
  moreover have "clear p d'" using within_clear [OF w] h assms(3) by (simp add: apart_def)
  ultimately show "clear p d' \<and> at d' p = Some Dir \<and> at d' (p @ [metaFile]) = Some (File (MetaDoc m))
      \<and> (\<forall>x. x \<noteq> metaFile \<longrightarrow> at d' (p @ [x]) = T i x)" using h by simp
qed

lemma othersIn_within:
  assumes "withinS R s s'" "othersIn vid p s" "\<forall>r \<in> set R. apart r p"
  shows "othersIn vid p s'"
  using assms(1,2) unfolding othersIn_def
  by (rule onUp_withinS) (use assms(3) within_at apart_snoc(1) in metis)

lemma logged_within:
  assumes "withinS R s s'" "logged b key v s" "\<forall>r \<in> set R. apart r (vlogP b key)"
  shows "logged b key v s'"
  using assms(1,2) unfolding logged_def by (rule onUp_withinS) (use assms(3) within_at in metis)

lemma ways_within:
  assumes "withinS R s s'" "ways b key s"
    and "\<forall>r \<in> set R. \<not> prefix r (butlast (liveP b key)) \<and> \<not> prefix r (vsRoot b key) \<and> \<not> prefix r (vlogRoot b key)"
  shows "ways b key s'"
  using assms(1,2) unfolding ways_def by (rule onUp_withinS) (use assms(3) within_clear in blast)

lemma not_prefix_butlast: "\<not> prefix r p \<Longrightarrow> \<not> prefix r (butlast p)"
  using prefixeq_butlast prefix_order.trans by blast

subsection \<open>Reading under a quorum of agreeing disks\<close>

lemma steady_quorum:
  assumes "steadySet s"
  shows "0 < readQuorum s" "readQuorum s \<le> setN s" "readQuorum s \<le> card {i. i < setN s \<and> up (disks s ! i)}"
    "\<exists>i < setN s. up (disks s ! i)"
proof -
  show q: "0 < readQuorum s" "readQuorum s \<le> setN s" and c: "readQuorum s \<le> card {i. i < setN s \<and> up (disks s ! i)}"
    using assms by (auto simp: steadySet_def set_ok_def coding_ok_def readQuorum_def writeQuorum_def split: if_splits)
  then have "{i. i < setN s \<and> up (disks s ! i)} \<noteq> {}" by (metis card.empty not_less)
  then show "\<exists>i < setN s. up (disks s ! i)" by blast
qed

lemma set_ok_steady: "set_ok s \<Longrightarrow> i < setN s \<Longrightarrow> steady (disks s ! i)"
  by (auto simp: set_ok_def setN_def)

lemma readMetaOf_up:
  assumes "steady d"
  shows "fst (readMetaOf b k d) = Some m \<longleftrightarrow> up d \<and> at d (dpath b k @ [metaFile]) = Some (File (MetaDoc m))"
  using readMetaOf_seen [OF assms]
  by (auto simp: metaSeen_def shown_def unmarshalXLMeta_def Option.bind_eq_Some_conv split: if_splits option.splits node.splits content.splits)

lemma readMeta_unanimous:
  assumes "order_ok env" "steadySet s" and all: "onUp s (\<lambda>i d. at d (dpath b k @ [metaFile]) = Some (File (MetaDoc m)))"
  shows "fst (readMeta env b k s) = Inr m"
proof -
  have ok: "set_ok s" using assms(2) by (simp add: steadySet_def)
  let ?f = "\<lambda>d. fst (readMetaOf b k d)" and ?G = "{i. i < setN s \<and> up (disks s ! i)}"
  have f: "?f (disks s ! i) = (if up (disks s ! i) then Some m else None)" if "i < setN s" for i
    using readMetaOf_up [OF set_ok_steady [OF ok that], of b k] all that unfolding onUp_def
    by (cases "?f (disks s ! i)") auto
  have "elected (readQuorum s) (map ?f (disks s)) m"
    using f steady_quorum [OF assms(2)] by (intro elected_unanimous [where G = ?G]) (auto simp: setN_def)
  then show ?thesis using readMeta_elected [OF assms(1)] steady_quorum [OF assms(2)] by (simp add: setN_def)
qed

lemma decide_member: "fst (decide env metas) = Some m \<Longrightarrow> Some m \<in> set metas"
proof -
  have "sampleOf metas h = Some m \<Longrightarrow> Some m \<in> set metas" for h
  proof -
    assume h: "sampleOf metas h = Some m"
    let ?f = "filter (\<lambda>m. map_option contentHash m = Some h) metas"
    have "?f \<noteq> []" "last ?f = Some m" using h by (auto simp: sampleOf_def split: list.splits)
    then show "Some m \<in> set metas" using last_in_set [of ?f] by auto
  qed
  then show "fst (decide env metas) = Some m \<Longrightarrow> ?thesis" by (auto simp: decide_def split: prod.splits option.splits)
qed

lemma readMeta_from:
  assumes "set_ok s" "fst (readMeta env b k s) = Inr m"
  shows "\<exists>i < setN s. up (disks s ! i) \<and> at (disks s ! i) (dpath b k @ [metaFile]) = Some (File (MetaDoc m))"
proof -
  let ?f = "\<lambda>d. fst (readMetaOf b k d)" and ?q = "readQuorum s"
  let ?m1 = "map ?f (take ?q (disks s)) @ replicate (setN s - ?q) None" and ?m2 = "map ?f (take ?q (disks s)) @ map ?f (drop ?q (disks s))"
  have "fst (decide env ?m1) = Some m \<or> fst (decide env ?m2) = Some m"
    using assms(2) unfolding readMeta_def Let_def split_beta by (auto simp: o_def split: if_splits)
  then have "Some m \<in> set ?m1 \<or> Some m \<in> set ?m2" using decide_member by blast
  then have "Some m \<in> ?f ` set (disks s)" by (auto dest: in_set_takeD in_set_dropD)
  then obtain i where i: "i < setN s" "?f (disks s ! i) = Some m" by (auto simp: in_set_conv_nth setN_def)
  then show ?thesis using readMetaOf_up [OF set_ok_steady [OF assms(1) i(1)]] by auto
qed

lemma present_0: "present xs = 0 \<longleftrightarrow> (\<forall>x \<in> set xs. x = None)"
  by (auto simp: present_def filter_empty_conv)

lemma readMeta_absent:
  assumes "set_ok s" "fst (readMeta env b k s) = Inl (EDisk ErrFileNotFound)"
  shows "onUp s (\<lambda>i d. \<forall>m. at d (dpath b k @ [metaFile]) \<noteq> Some (File (MetaDoc m)))"
proof -
  let ?f = "\<lambda>d. fst (readMetaOf b k d)" and ?q = "readQuorum s"
  have "present (map ?f (take ?q (disks s)) @ map ?f (drop ?q (disks s))) = 0"
    using assms(2) unfolding readMeta_def Let_def decide_def
    by (auto simp: o_def split: prod.splits if_splits)
  then have "\<forall>d \<in> set (disks s). ?f d = None"
    unfolding present_0 set_append set_map image_Un [symmetric] by (metis append_take_drop_id image_eqI set_append)
  then show ?thesis using readMetaOf_up [OF set_ok_steady [OF assms(1)], of _ b k] unfolding onUp_def by (simp add: setN_def)
qed

lemma readVlog_keeps: "same_store s (snd (readVlog b key s))"
proof -
  have "map dfs (snd (readVlogFrom b key ds)) = map dfs ds \<and> map dfaults (snd (readVlogFrom b key ds)) = map dfaults ds" for ds
    by (induction ds) (use ReadAll_keeps in \<open>auto simp: split_beta split: option.split sum.split\<close>)
  then show ?thesis unfolding readVlog_def same_store_def by (simp add: split_beta)
qed

lemma readVlog_logged:
  assumes "names_ok b key" "steadySet s" "logged b key v s"
  shows "fst (readVlog b key s) = v"
proof -
  have "fst (readVlogFrom b key ds) = v"
    if "\<forall>d \<in> set ds. steady d \<and> (up d \<longrightarrow> at d (vlogP b key) = Some (File (VlogDoc v)))" "\<exists>d \<in> set ds. up d" for ds
    using that
  proof (induction ds)
    case (Cons d ds)
    then have d: "steady d" "up d \<longrightarrow> at d (vlogP b key) = Some (File (VlogDoc v))" by auto
    show ?case
    proof (cases "up d")
      case True
      then have "fst (ReadAll b (vlogPath key) d) = Inr (VlogDoc v)"
        using d ReadAll_shown [OF d(1), of b "vlogPath key" "VlogDoc v"] by (simp add: shown_def dpath_vlog [OF assms(1)])
      then show ?thesis by (simp add: split_beta unmarshalVlog_def)
    next
      case False
      then have "fst (ReadAll b (vlogPath key) d) \<noteq> Inr c" for c
        using ReadAll_shown [OF d(1), of b "vlogPath key" c] by (simp add: shown_def)
      then obtain e where "fst (ReadAll b (vlogPath key) d) = Inl e" by (cases "fst (ReadAll b (vlogPath key) d)") auto
      then show ?thesis using Cons False by (auto simp: split_beta)
    qed
  qed simp
  moreover have "\<forall>d \<in> set (disks s). steady d \<and> (up d \<longrightarrow> at d (vlogP b key) = Some (File (VlogDoc v)))"
    using assms(2,3) by (auto simp: steadySet_def set_ok_def logged_def onUp_def in_set_conv_nth setN_def)
  moreover have "\<exists>d \<in> set (disks s). up d" using steady_quorum(4) [OF assms(2)] by (auto simp: setN_def)
  ultimately show ?thesis by (simp add: readVlog_def split_beta)
qed

subsection \<open>Operations on working disks\<close>

lemma up_sched: "up d \<Longrightarrow> sched d = Works"
  by (simp add: up_def sched_def)

lemma WriteAll_up:
  assumes "up d" "clear (butlast (dpath b ob)) d" "at d (dpath b ob) \<noteq> Some Dir" "dpath b ob \<noteq> []"
  shows "\<exists>d'. WriteAll b ob c d = (Inr (), d')"
  using writeFile_clear [OF assms(2-4), of c] up_sched [OF assms(1)] by (auto simp: WriteAll_def Let_def)

lemma RenameDir_up:
  assumes "up d" "clear (butlast (dpath tb tobj)) d" "at d (dpath sb so) \<noteq> None" "apart (dpath sb so) (dpath tb tobj)"
  shows "\<exists>d'. RenameDir sb so tb tobj d = (Inr (), d')"
proof -
  obtain f1 where f1: "mkdirAll (butlast (dpath tb tobj)) (dfs d) = Some f1" using mkdirAll_clear [OF assms(2)] by blast
  have "lookupF (removeAll (dpath tb tobj) f1) (dpath sb so) \<noteq> None"
    using assms(3,4) lookupF_mkdirAll [OF f1] by (simp add: lookupF_removeAll apart_def)
  then show ?thesis using f1 up_sched [OF assms(1)] assms(4) by (simp add: RenameDir_def Let_def renameF_def apart_def)
qed

lemma RenameDir_moves:
  assumes "RenameDir sb so tb tobj d = (Inr u, d')" "apart (dpath sb so) (dpath tb tobj)"
  shows "at d' (dpath tb tobj @ r) = at d (dpath sb so @ r)" and "at d' (dpath sb so @ r) = None"
    and "at d (dpath sb so) = Some Dir \<Longrightarrow> clear (dpath tb tobj) d'"
proof -
  let ?src = "dpath sb so" and ?dst = "dpath tb tobj"
  have np: "\<not> prefix (?src @ r) (butlast ?dst)" for r
    using assms(2) not_prefix_butlast unfolding apart_def by (meson append_prefixD)
  have ns: "\<not> prefix ?dst (?src @ r)" for r using assms(2) unfolding apart_def by (metis prefix_append prefix_same_cases prefixI)
  have ne: "?src \<noteq> []" using assms(2) by (auto simp: apart_def)
  show dst: "at d' (?dst @ r) = at d (?src @ r)" for r using RenameDir_ok [OF assms(1), of "?dst @ r"] np by (simp add: Let_def)
  show "at d' (?src @ r) = None" using RenameDir_ok [OF assms(1), of "?src @ r"] ns ne by simp
  assume dir: "at d ?src = Some Dir"
  have "at d' q = Some Dir" if "prefix q ?dst" for q
  proof (cases "q = ?dst")
    case True
    then show ?thesis using dst [of "[]"] dir by simp
  next
    case False
    then have "prefix q (butlast ?dst)" using that by (metis append_butlast_last_id butlast.simps(1) prefix_bot.extremum_uniqueI prefix_snoc)
    moreover have "\<not> prefix ?dst q" using that False prefix_order.antisym by blast
    moreover have "\<not> prefix ?src q" using that assms(2) prefix_order.trans unfolding apart_def by blast
    ultimately show ?thesis using RenameDir_ok [OF assms(1), of q] by simp
  qed
  then show "clear ?dst d'" by (simp add: clear_def)
qed

lemma apart_append: "apart p q \<Longrightarrow> apart p (q @ r)" "apart p q \<Longrightarrow> apart (p @ r) q"
  using prefix_same_cases [of p "q @ r" q] append_prefixD [of q r p] prefix_same_cases [of q "p @ r" p] append_prefixD [of p r q]
  by (auto simp: apart_def)

lemma RenameDir_source:
  assumes "apart (dpath sb so) (dpath tb tobj)"
  shows "at (snd (RenameDir sb so tb tobj d)) (dpath sb so @ x) \<in> {None, at d (dpath sb so @ x)}"
proof (cases "RenameDir sb so tb tobj d")
  case (Pair r d')
  let ?src = "dpath sb so" and ?dst = "dpath tb tobj"
  have a: "apart (?src @ x) ?dst" using assms by (rule apart_append)
  show ?thesis
  proof (cases r)
    case (Inr u)
    then show ?thesis using RenameDir_moves(2) [OF _ assms, of d u d' x] Pair by simp
  next
    case (Inl e)
    then have "dfs d' = dfs d \<or> (\<exists>f1. mkdirAll (butlast ?dst) (dfs d) = Some f1 \<and> dfs d' = removeAll ?dst f1)"
      using Pair by (auto simp: RenameDir_def Let_def split: option.splits if_splits)
    then show ?thesis
      using Pair a not_prefix_butlast [of "?src @ x" ?dst] lookupF_mkdirAll [of "butlast ?dst" "dfs d"]
      by (auto simp: lookupF_removeAll apart_def)
  qed
qed

lemma not_prefix_own: "p \<noteq> [] \<Longrightarrow> \<not> prefix p (butlast p)"
  using prefix_length_le [of p "butlast p"] by (cases p) auto

lemma Delete_own:
  assumes "dpath b ob \<noteq> []"
  shows "at (snd (Delete b ob True d)) (dpath b ob @ r) \<in> {None, at d (dpath b ob @ r)}"
proof -
  have "\<not> prefix (dpath b ob @ r) (butlast (dpath b ob))" using not_prefix_own [OF assms] append_prefixD by blast
  from lookupF_prune [OF this, of "length (dpath b [])" "removeAll (dpath b ob) (dfs d)"] show ?thesis
    by (auto simp: Delete_def Let_def lookupF_removeAll)
qed

lemma okCount_up:
  assumes "steadySet s" "onUp s (\<lambda>i d. fst (fn d) = Inr ())"
  shows "\<not> okCount (fst (forEachDisk fn s)) < writeQuorum s"
proof -
  have "{i. i < setN s \<and> up (disks s ! i)} \<subseteq> {i. i < length (disks s) \<and> fst (fn (disks s ! i)) = Inr ()}"
    using assms(2) by (auto simp: onUp_def setN_def)
  then have "card {i. i < setN s \<and> up (disks s ! i)} \<le> okCount (fst (forEachDisk fn s))"
    unfolding forEachDisk_errs okCount_card by (intro card_mono) auto
  then show ?thesis using assms(1) by (simp add: steadySet_def)
qed

lemma onUp_forEachDisk:
  assumes "\<And>d. dfaults (snd (fn d)) = dfaults d" "onUp s P" "\<And>i d. up d \<Longrightarrow> P i d \<Longrightarrow> Q i (snd (fn d))"
  shows "onUp (snd (forEachDisk fn s)) Q"
  using assms unfolding onUp_def by (auto simp: setN_def up_def)

lemma writeVlog_logs:
  assumes "names_ok b key" "steadySet s" "ways b key s" "onUp s (\<lambda>i d. at d (vlogP b key) \<noteq> Some Dir)"
  shows "fst (writeVlog b key v s) = None" "logged b key v (snd (writeVlog b key v s))"
    "withinS [vlogP b key] s (snd (writeVlog b key v s))"
proof -
  let ?w = "WriteAll b (vlogPath key) (VlogDoc v)"
  have dp: "dpath b (vlogPath key) = vlogP b key" by (rule dpath_vlog [OF assms(1)])
  have ok: "onUp s (\<lambda>i d. fst (?w d) = Inr ())"
    unfolding onUp_def
  proof (intro allI impI)
    fix i
    assume "i < setN s" "up (disks s ! i)"
    then have "\<exists>d'. ?w (disks s ! i) = (Inr (), d')"
      using assms(3,4) by (intro WriteAll_up) (auto simp: dp onUp_def ways_def)
    then show "fst (?w (disks s ! i)) = Inr ()" by auto
  qed
  show "fst (writeVlog b key v s) = None" using okCount_up [OF assms(2) ok] by (simp add: writeVlog_def split_beta)
  have "at (snd (?w d)) (vlogP b key) = Some (File (VlogDoc v))" if "fst (?w d) = Inr ()" for d
    using WriteAll_ok(1) [of b "vlogPath key" "VlogDoc v" d "()" "snd (?w d)" "vlogP b key"] that
    by (simp add: dp prod_eq_iff)
  with onUp_forEachDisk [OF WriteAll_faults ok] show "logged b key v (snd (writeVlog b key v s))"
    by (simp add: writeVlog_def split_beta logged_def)
  show "withinS [vlogP b key] s (snd (writeVlog b key v s))"
    using withinS_forEachDisk [OF within_WriteAll [of b "vlogPath key" _ "VlogDoc v"]] by (simp add: writeVlog_def split_beta dp)
qed

subsection \<open>What a write leaves in the key's directory\<close>

definition liveCases :: "string \<Rightarrow> string \<Rightarrow> disk \<Rightarrow> disk \<Rightarrow> bool" where
  "liveCases b key d d' \<longleftrightarrow>
     (at d' (dpath b key @ [metaFile]) \<in> {None, at d (dpath b key @ [metaFile])}
      \<or> (\<exists>m. at d' (dpath b key @ [metaFile]) = Some (File (MetaDoc m)) \<and> VersionID m = []))
     \<and> (\<forall>c. at d' (dpath b key) = Some (File c) \<longrightarrow> at d (dpath b key) = Some (File c))"

lemma liveCases_trans: "liveCases b key d d' \<Longrightarrow> liveCases b key d' d'' \<Longrightarrow> liveCases b key d d''"
  unfolding liveCases_def by fastforce

lemma liveCases_same: "\<forall>r. at d' (dpath b key @ r) = at d (dpath b key @ r) \<Longrightarrow> liveCases b key d d'"
  unfolding liveCases_def by (metis append_Nil2 insertI1 insertI2)

lemma liveCases_drop: "(\<And>r. at d' (dpath b key @ r) \<in> {None, at d (dpath b key @ r)}) \<Longrightarrow> liveCases b key d d'"
proof -
  assume h: "\<And>r. at d' (dpath b key @ r) \<in> {None, at d (dpath b key @ r)}"
  have "at d (dpath b key) = Some (File c)" if "at d' (dpath b key) = Some (File c)" for c using h [of "[]"] that by simp
  then show ?thesis using h [of "[metaFile]"] by (simp add: liveCases_def)
qed

lemma liveCases_Delete: "dpath b key \<noteq> [] \<Longrightarrow> liveCases b key d (snd (Delete b key True d))"
  by (rule liveCases_drop) (rule Delete_own)

lemma liveCases_staging:
  assumes "userPath (dpath b key)" "stagingPath (dpath [] stgs)" "within [dpath [] stgs] d d'"
  shows "liveCases b key d d'"
proof (rule liveCases_same, rule allI)
  fix r
  have "apart (dpath [] stgs) (dpath b key)" using user_staging_disjoint(3,4) [OF assms(1,2)] by (simp add: apart_def)
  then have "apart (dpath [] stgs) (dpath b key @ r)" by (rule apart_append)
  then show "at d' (dpath b key @ r) = at d (dpath b key @ r)" using within_at [OF assms(3)] by simp
qed

lemma CreateFile_staged:
  assumes "fresh (dpath [] stgs) d"
  shows "staged_clean stgs (snd (CreateFile [] (pjoin stgs (partFile pn)) sz x d))"
proof -
  let ?stg = "dpath [] stgs"
  have f: "at d (?stg @ [y]) = None" "at d ?stg = None" for y using assms by (auto simp: fresh_def)
  have w: "lookupF f' q = (if q = ?stg @ [partFile pn] then Some (File (Raw x)) else if prefix q ?stg then Some Dir else at d q)"
    if "writeFile (?stg @ [partFile pn]) (Raw x) (dfs d) = Some f'" for f' q
    using lookupF_writeFile(2) [OF that, of q] by simp
  have np: "\<not> prefix (?stg @ [y]) q" if "prefix q ?stg" for q y
    using that by (auto dest!: prefix_length_le)
  show ?thesis
    using f np partFile_not_meta [of pn]
    by (auto simp: staged_clean_def CreateFile_def Let_def lookupF_removeAll w split: option.splits)
qed

lemma disk_commit_live:
  assumes st: "steady d" "staged_clean stgs d" and stg: "stagingPath (dpath [] stgs)" and dst: "userPath (dpath b key)"
    and m: "VersionID m = []"
  shows "liveCases b key d (snd (RenameDir [] stgs b key (snd (WriteAll [] (pjoin stgs metaFile) (marshal m) d))))"
proof -
  obtain r d1 where w: "WriteAll [] (pjoin stgs metaFile) (marshal m) d = (r, d1)" by fastforce
  obtain r2 d2 where rn: "RenameDir [] stgs b key d1 = (r2, d2)" by fastforce
  let ?q = "dpath b key @ [metaFile]" and ?dst = "dpath b key"
  have "within [dpath [] stgs @ [metaFile]] d d1" using within_WriteAll [of "[]" "pjoin stgs metaFile" d "marshal m"] w by simp
  then have "within [dpath [] stgs] d d1" by (rule within_mono) simp
  then have l1: "liveCases b key d d1" by (rule liveCases_staging [OF dst stg])
  have "liveCases b key d d2"
  proof (cases r2)
    case (Inl e)
    then have "dfs d2 = dfs d1 \<or> (\<exists>f1. dfs d2 = removeAll ?dst f1)"
      using rn by (auto simp: RenameDir_def Let_def split: option.splits if_splits)
    moreover have "?dst \<noteq> []" using dst by (simp add: userPath_def)
    ultimately have "liveCases b key d1 d2" by (intro liveCases_drop) (auto simp: lookupF_removeAll)
    with l1 show ?thesis by (rule liveCases_trans)
  next
    case (Inr u)
    have "r = Inr ()" using commit_implies_meta [OF st(1) stg dst _ _ w] rn Inr st(2) by (auto simp: staged_clean_def)
    then have d1: "at d1 (dpath [] stgs @ [metaFile]) = Some (File (marshal m))" "at d1 (dpath [] stgs) = Some Dir"
      using WriteAll_ok(1) [of "[]" "pjoin stgs metaFile" "marshal m" d "()" d1] w by simp_all
    have "apart (dpath [] stgs) ?dst" using user_staging_disjoint(3,4) [OF dst stg] by (simp add: apart_def)
    then have "at d2 (?dst @ r) = at d1 (dpath [] stgs @ r)" for r
      using RenameDir_moves(1) [of "[]" stgs b key d1 u d2 r] rn Inr by simp
    from this [of "[metaFile]"] this [of "[]"] have "at d2 ?q = Some (File (MetaDoc (normMeta m)))" "at d2 ?dst = Some Dir"
      using d1 by (simp_all add: marshal_norm)
    then show ?thesis using m by (auto simp: liveCases_def)
  qed
  then show ?thesis using w rn by simp
qed

definition liveCasesS :: "string \<Rightarrow> string \<Rightarrow> eset \<Rightarrow> eset \<Rightarrow> bool" where
  "liveCasesS b key s s' \<longleftrightarrow> list_all2 (liveCases b key) (disks s) (disks s')"

lemma liveCasesS_trans: "liveCasesS b key s s' \<Longrightarrow> liveCasesS b key s' s'' \<Longrightarrow> liveCasesS b key s s''"
  unfolding liveCasesS_def by (rule list_all2_trans [OF liveCases_trans])

lemma liveCasesS_forEachDisk: "(\<And>d. liveCases b key d (snd (fn d))) \<Longrightarrow> liveCasesS b key s (snd (forEachDisk fn s))"
  by (simp add: liveCasesS_def list_all2_conv_all_nth)

lemma liveCasesS_staging:
  "userPath (dpath b key) \<Longrightarrow> stagingPath (dpath [] stgs) \<Longrightarrow> withinS [dpath [] stgs] s s' \<Longrightarrow> liveCasesS b key s s'"
  unfolding liveCasesS_def withinS_def by (metis (mono_tags, lifting) list_all2_mono liveCases_staging)

lemma liveCasesS_same_store: "same_store s s' \<Longrightarrow> liveCasesS b key s s'"
  using same_store_length [of s s'] same_store_nth(1) [of s s']
  by (auto simp: liveCasesS_def list_all2_conv_all_nth intro!: liveCases_same)

lemma liveCasesS_commit:
  assumes st: "\<forall>d \<in> set (disks s). steady d \<and> staged_clean stgs d"
    and stg: "stagingPath (dpath [] stgs)" and dst: "userPath (dpath b key)" and m: "VersionID meta = []"
  shows "liveCasesS b key s (snd (commitMeta env stgs b key meta (-1) s))"
proof -
  obtain pr s0 where rm: "readMeta env b key s = (pr, s0)" by fastforce
  have ss: "same_store s s0" using readMeta_keeps [of s env b key] rm by simp
  have st0: "\<forall>d \<in> set (disks s0). steady d \<and> staged_clean stgs d"
    unfolding all_set_conv_all_nth
  proof (intro allI impI)
    fix i
    assume i: "i < length (disks s0)"
    then have "disks s ! i \<in> set (disks s)" using same_store_length [OF ss] by simp
    then show "steady (disks s0 ! i) \<and> staged_clean stgs (disks s0 ! i)"
      using st same_store_nth(1) [OF ss, of i] same_store_view(2) [OF ss, of i] i same_store_length [OF ss]
      by (simp add: staged_clean_def)
  qed
  define m1 where "m1 = meta\<lparr>Revision := (case pr of Inr pm \<Rightarrow> Revision pm | Inl _ \<Rightarrow> 0) + 1\<rparr>"
  let ?s1 = "snd (forEachDisk (WriteAll [] (pjoin stgs metaFile) (marshal m1)) s0)"
  let ?s2 = "snd (forEachDisk (RenameDir [] stgs b key) ?s1)"
  have l0: "liveCasesS b key s s0" by (rule liveCasesS_same_store [OF ss])
  have "withinS [dpath [] stgs] s0 ?s1" by (rule withinS_mono [OF withinS_forEachDisk [OF within_WriteAll]]) simp
  then have l1: "liveCasesS b key s ?s1" using liveCasesS_trans [OF l0 liveCasesS_staging [OF dst stg]] by blast
  have "liveCasesS b key s0 ?s2"
    using st0 disk_commit_live [OF _ _ stg dst, of _ m1] m
    by (auto simp: liveCasesS_def list_all2_conv_all_nth all_set_conv_all_nth m1_def)
  then have l2: "liveCasesS b key s ?s2" by (rule liveCasesS_trans [OF l0])
  then have l3: "liveCasesS b key s (snd (forEachDisk (Delete b key True) ?s2))"
    using dst by (intro liveCasesS_trans [OF _ liveCasesS_forEachDisk [OF liveCases_Delete]]) (auto simp: userPath_def)
  have mrf: "liveCasesS b key s (callMrf b key s') = liveCasesS b key s s'" for s' by (simp add: liveCasesS_def callMrf_def)
  show ?thesis
    unfolding commitMeta_def rm Let_def split_beta prod.sel m1_def [symmetric] using l1 l2 l3 by (simp add: mrf)
qed

lemma put_live:
  assumes ok: "set_ok s" and idp: "plainName id1" and dst: "userPath (dpath b key)"
    and fr: "\<forall>d \<in> set (disks s). fresh (dpath [] (pjoin tmpPrefix id1)) d"
  shows "liveCasesS b key s (snd (putObjectSSE env id1 id2 now b key [ps] um sp False s))"
proof -
  define stgs where "stgs = pjoin tmpPrefix id1"
  have stg: "stagingPath (dpath [] stgs)" by (simp add: stgs_def staging_dpath [OF idp] stagingPath_def)
  define dist where "dist = buildDistribution key (setN s)"
  define comp where "comp = compresses env [ps] um sp"
  have cl: "\<forall>d \<in> set (disks s). steady d \<and> staged_clean stgs d"
    using ok fr by (auto simp: set_ok_def staged_clean_def fresh_def stgs_def)
  have vb: "VersionID (baseMeta now dist um s) = []" by (simp add: baseMeta_def)
  have inl: "liveCasesS b key s (snd (putObjectInline env stgs b key (baseMeta now dist um s) ps sp s))"
    using liveCasesS_commit [OF cl stg dst] liveCasesS_same_store [OF same_store_refl, of b key s]
    by (auto simp: putObjectInline_def Let_def sseFields_def baseMeta_def split: option.splits)
  let ?e = "encodePart env stgs (psNumber ps) dist (partReader env comp sp (psReader ps)) s"
  have we: "withinS [dpath [] stgs] s (snd ?e)" by (rule withinS_encodePart)
  then have le: "liveCasesS b key s (snd ?e)" by (rule liveCasesS_staging [OF dst stg])
  have cle: "\<forall>d \<in> set (disks (snd ?e)). steady d \<and> staged_clean stgs d" if "fst ?e = Inr x" for x
  proof -
    have "\<exists>y. disks (snd ?e) ! i = snd (CreateFile [] (pjoin stgs (partFile (psNumber ps))) (-1) y (disks s ! i))" if "i < setN s" for i
      using \<open>fst ?e = Inr x\<close> that unfolding encodePart_def Let_def by (auto split: option.splits if_splits)
    moreover have "fresh (dpath [] stgs) (disks s ! i)" if "i < setN s" for i using fr that by (simp add: stgs_def setN_def)
    ultimately have "staged_clean stgs (disks (snd ?e) ! i)" if "i < setN s" for i using CreateFile_staged that by metis
    moreover have "set_ok (snd ?e)" by (rule withinS_set_ok [OF we ok])
    ultimately show ?thesis using withinS_setN(1) [OF we] by (auto simp: set_ok_def in_set_conv_nth setN_def)
  qed
  have lc: "liveCasesS b key s s2"
    if "fst ?e = Inr x" "commitMeta env stgs b key (finishMeta env comp sp [ps] acc (baseMeta now dist um s)) (-1) (snd ?e) = (r, s2)"
    for x acc r s2
    using liveCasesS_trans [OF le liveCasesS_commit [OF cle [OF that(1)] stg dst,
          of "finishMeta env comp sp [ps] acc (baseMeta now dist um s)" env]] that(2)
    by (auto simp: finishMeta_def sseFields_def Let_def baseMeta_def split: option.splits)
  have mrf: "liveCasesS b key s (callMrf b key s') = liveCasesS b key s s'" for s' by (simp add: liveCasesS_def callMrf_def)
  have "liveCasesS b key s (snd (putStaged env stgs stg2 now b key [ps] um sp False s))" for stg2
  proof (cases "?e")
    case (Pair r s1)
    let ?acc = "\<lparr>paParts = [], paMD5 = [], paTotal = 0, paPartial = False\<rparr>"
    obtain acc where e: "encodeParts env stgs dist comp sp [ps] ?acc s = (case r of Inl e \<Rightarrow> (Inl e, s1) | Inr x \<Rightarrow> (Inr acc, s1))"
      using Pair by (cases r) (auto simp: Let_def)
    show ?thesis
      unfolding putStaged_plain dist_def [symmetric] comp_def [symmetric] e
      using inl le lc Pair by (auto simp: mrf split: sum.split prod.split)
  qed
  then have "liveCasesS b key s (snd (putStaged env stgs (pjoin tmpPrefix id2) now b key [ps] um sp False s))" .
  from liveCasesS_trans [OF this liveCasesS_staging [OF dst stg withinS_cleanup]]
  show ?thesis unfolding putObjectSSE_def Let_def stgs_def [symmetric] split_beta snd_conv .
qed

end
