(* ===== verification/ObjectLock.thy ===== *)
theory ObjectLock
  imports VersionLock
begin

text \<open>
  Every request on a key keeps its locked version: the invariant of \<open>VersionLock\<close> is preserved by
  archiving, writing, deleting, promoting and relocking, so a version under COMPLIANCE retention
  outlives every sequence of requests made before the retention ends.
\<close>

subsection \<open>Pieces of the invariant\<close>

lemma relocked_ID: "relocked m m' \<Longrightarrow> VersionID m' = VersionID m"
  by (auto simp: relocked_def)

lemma relocked_norm: "relocked m m' \<Longrightarrow> normMeta m = m \<Longrightarrow> normMeta m' = m'"
  by (cases m) (auto simp: relocked_def normMeta_def)

lemma relocked_trans: "relocked m m' \<Longrightarrow> relocked m' m'' \<Longrightarrow> relocked m m''"
  by (cases m) (auto simp: relocked_def)

lemma placed_within:
  assumes "withinS R s s'" "placed b key vid m T cur s" "\<forall>r \<in> set R. apart r (liveP b key) \<and> (\<forall>x. apart r (vsP b key x))"
  shows "placed b key vid m T cur s'"
  using assms(2,3) heldIn_within [OF assms(1)] othersIn_within [OF assms(1)]
  unfolding placed_def by (auto split: if_splits)

lemma steady_within_ok: "steadySet s \<Longrightarrow> withinS R s s' \<Longrightarrow> set_ok s'"
  using steadySet_within by (auto simp: steadySet_def)

lemma RenameDir_target:
  assumes "apart (dpath sb so) (dpath tb tobj)"
  shows "at (snd (RenameDir sb so tb tobj d)) (dpath tb tobj @ [x])
     \<in> {None, at d (dpath tb tobj @ [x]), at d (dpath sb so @ [x])}"
proof (cases "RenameDir sb so tb tobj d")
  case (Pair r d')
  show ?thesis
  proof (cases r)
    case (Inr u)
    then show ?thesis using RenameDir_moves(1) [OF _ assms, of d u d' "[x]"] Pair by simp
  next
    case (Inl e)
    then have "dfs d' = dfs d \<or> (\<exists>f1. dfs d' = removeAll (dpath tb tobj) f1)"
      using Pair by (auto simp: RenameDir_def Let_def split: option.splits if_splits)
    then show ?thesis using Pair by (auto simp: lookupF_removeAll)
  qed
qed

lemma othersIn_rename:
  assumes "apart (dpath sb so) (dpath tb tobj)" "othersIn vid (dpath sb so) s"
  shows "othersIn vid (dpath sb so) (snd (forEachDisk (RenameDir sb so tb tobj) s))"
    and "othersIn vid (dpath tb tobj) s \<Longrightarrow> othersIn vid (dpath tb tobj) (snd (forEachDisk (RenameDir sb so tb tobj) s))"
proof -
  show "othersIn vid (dpath sb so) (snd (forEachDisk (RenameDir sb so tb tobj) s))"
    unfolding othersIn_def
  proof (rule onUp_forEachDisk [OF RenameDir_faults assms(2) [unfolded othersIn_def]])
    fix i d
    assume "\<forall>m. at d (dpath sb so @ [metaFile]) = Some (File (MetaDoc m)) \<longrightarrow> otherID vid m"
    then show "\<forall>m. at (snd (RenameDir sb so tb tobj d)) (dpath sb so @ [metaFile]) = Some (File (MetaDoc m)) \<longrightarrow> otherID vid m"
      using RenameDir_source [OF assms(1), of d "[metaFile]"] by auto
  qed
  assume t: "othersIn vid (dpath tb tobj) s"
  let ?P = "\<lambda>d. (\<forall>m. at d (dpath sb so @ [metaFile]) = Some (File (MetaDoc m)) \<longrightarrow> otherID vid m)
      \<and> (\<forall>m. at d (dpath tb tobj @ [metaFile]) = Some (File (MetaDoc m)) \<longrightarrow> otherID vid m)"
  have P: "onUp s (\<lambda>i d. ?P d)" using assms(2) t by (simp add: othersIn_def onUp_def)
  show "othersIn vid (dpath tb tobj) (snd (forEachDisk (RenameDir sb so tb tobj) s))"
    unfolding othersIn_def
  proof (rule onUp_forEachDisk [OF RenameDir_faults P])
    fix i d
    assume "?P d"
    then show "\<forall>m. at (snd (RenameDir sb so tb tobj d)) (dpath tb tobj @ [metaFile]) = Some (File (MetaDoc m)) \<longrightarrow> otherID vid m"
      using RenameDir_target [OF assms(1), of d metaFile] by auto
  qed
qed

lemma heldIn_rename:
  assumes ap: "apart (dpath sb so) (dpath tb tobj)" and held: "heldIn (dpath sb so) m T s"
    and way: "onUp s (\<lambda>i d. clear (butlast (dpath tb tobj)) d)" and st: "steadySet s"
  shows "heldIn (dpath tb tobj) m T (snd (forEachDisk (RenameDir sb so tb tobj) s))"
    and "\<not> okCount (fst (forEachDisk (RenameDir sb so tb tobj) s)) < writeQuorum s"
    and "othersIn vid (dpath sb so) (snd (forEachDisk (RenameDir sb so tb tobj) s))"
proof -
  let ?P = "\<lambda>i d. clear (butlast (dpath tb tobj)) d \<and> at d (dpath sb so) = Some Dir
      \<and> at d (dpath sb so @ [metaFile]) = Some (File (MetaDoc m)) \<and> (\<forall>x. x \<noteq> metaFile \<longrightarrow> at d (dpath sb so @ [x]) = T i x)"
  have P: "onUp s ?P" using held way by (simp add: heldIn_def onUp_def)
  have ren: "RenameDir sb so tb tobj d = (Inr (), snd (RenameDir sb so tb tobj d))" if "up d" "?P i d" for i d
    using RenameDir_up [OF that(1) _ _ ap] that(2) by auto
  note mv = RenameDir_moves [OF ren ap]
  show "heldIn (dpath tb tobj) m T (snd (forEachDisk (RenameDir sb so tb tobj) s))"
    unfolding heldIn_def
  proof (rule onUp_forEachDisk [OF RenameDir_faults P])
    fix i d
    assume u: "up d" and p: "?P i d"
    have a: "at (snd (RenameDir sb so tb tobj d)) (dpath tb tobj @ r) = at d (dpath sb so @ r)" for r
      by (rule mv(1) [OF u p])
    have "clear (dpath tb tobj) (snd (RenameDir sb so tb tobj d))" using mv(3) [OF u p] p by blast
    then show "clear (dpath tb tobj) (snd (RenameDir sb so tb tobj d)) \<and> at (snd (RenameDir sb so tb tobj d)) (dpath tb tobj) = Some Dir
        \<and> at (snd (RenameDir sb so tb tobj d)) (dpath tb tobj @ [metaFile]) = Some (File (MetaDoc m))
        \<and> (\<forall>x. x \<noteq> metaFile \<longrightarrow> at (snd (RenameDir sb so tb tobj d)) (dpath tb tobj @ [x]) = T i x)"
      using a a [of "[]"] p by simp
  qed
  show "\<not> okCount (fst (forEachDisk (RenameDir sb so tb tobj) s)) < writeQuorum s"
  proof (rule okCount_up [OF st])
    show "onUp s (\<lambda>i d. fst (RenameDir sb so tb tobj d) = Inr ())"
      using P ren unfolding onUp_def by (metis fst_conv)
  qed
  show "othersIn vid (dpath sb so) (snd (forEachDisk (RenameDir sb so tb tobj) s))"
    unfolding othersIn_def by (rule onUp_forEachDisk [OF RenameDir_faults P]) (use mv(2) in fastforce)
qed

subsection \<open>Archiving\<close>

text \<open>Archiving another version.\<close>

definition unused :: "string \<Rightarrow> string \<Rightarrow> string \<Rightarrow> eset \<Rightarrow> bool" where
  "unused b key vid s \<longleftrightarrow> othersIn vid (liveP b key) s \<and> (\<forall>x. x \<noteq> vid \<and> plainName x \<longrightarrow> othersIn vid (vsP b key x) s)"

lemma placed_unused: "placed b key vid m T False s \<longleftrightarrow> heldIn (vsP b key vid) m T s \<and> unused b key vid s"
  by (auto simp: placed_def unused_def)

lemma unused_same: "same_store s s' \<Longrightarrow> unused b key vid s \<Longrightarrow> unused b key vid s'"
  using othersIn_within [OF withinS_same_store [of s s' "[]"]] by (simp add: unused_def)

lemma archive_unused:
  assumes nm: "names_ok b key" and vid: "vid \<noteq> nullVersionID" and ok: "set_ok s" and un: "unused b key vid s"
    and ar: "archiveCurrent env b key s = (r, s')"
  shows "unused b key vid s'" and "\<exists>w. plainName w \<and> w \<noteq> vid \<and> withinS [liveP b key, vsP b key w] s s'"
    and "liveCasesS b key s s'"
proof -
  have pn: "plainName nullVersionID" by code_simp
  have lp: "dpath b key = liveP b key" by (rule dpath_live [OF nm])
  obtain rr s1 where rm: "readMeta env b key s = (rr, s1)" by fastforce
  have ss: "same_store s s1" using readMeta_keeps [of s env b key] rm by simp
  have w1: "withinS [] s s1" by (rule withinS_same_store [OF ss])
  have un1: "unused b key vid s1" by (rule unused_same [OF ss un])
  have "unused b key vid s' \<and> (\<exists>w. plainName w \<and> w \<noteq> vid \<and> withinS [liveP b key, vsP b key w] s s') \<and> liveCasesS b key s s'"
  proof (cases rr)
    case (Inl e)
    then have "s' = s1" using ar rm by (simp add: archiveCurrent_def split: if_splits)
    then show ?thesis using un1 withinS_mono [OF w1] pn vid liveCasesS_same_store [OF ss] by auto
  next
    case (Inr m2)
    define w where "w = (if VersionID m2 = [] then nullVersionID else VersionID m2)"
    have s': "s' = snd (forEachDisk (RenameDir b key b (vsDir key w)) s1)"
      using ar rm Inr by (auto simp: archiveCurrent_def Let_def w_def split_beta split: if_splits)
    have o: "othersIn vid (liveP b key) s1" and ov: "\<And>x. x \<noteq> vid \<Longrightarrow> plainName x \<Longrightarrow> othersIn vid (vsP b key x) s1"
      using un1 by (auto simp: unused_def)
    obtain i where "i < setN s" "up (disks s ! i)" "at (disks s ! i) (liveP b key @ [metaFile]) = Some (File (MetaDoc m2))"
      using readMeta_from [of s env b key m2] rm Inr ok lp by auto
    then have "otherID vid m2" using un by (auto simp: unused_def othersIn_def onUp_def)
    then have w: "plainName w" "w \<noteq> vid" using pn vid by (auto simp: w_def otherID_def)
    have vp: "dpath b (vsDir key w) = vsP b key w" by (rule dpath_vs [OF nm w(1)])
    have ap: "apart (dpath b key) (dpath b (vsDir key w))" unfolding lp vp by (rule apart_paths(1) [OF nm])
    have ws: "withinS [liveP b key, vsP b key w] s1 s'"
      unfolding s' using withinS_forEachDisk [OF within_RenameDir [of b key b "vsDir key w"]] by (simp add: lp vp)
    note orn = othersIn_rename [OF ap, of vid s1, folded s', unfolded lp vp, OF o]
    have "othersIn vid (vsP b key x) s'" if "x \<noteq> vid" "plainName x" for x
    proof (cases "x = w")
      case True
      then show ?thesis using orn(2) ov that by simp
    next
      case False
      then show ?thesis using apart_paths(1) [OF nm] apart_vs [of w x] by (intro othersIn_within [OF ws ov [OF that]]) auto
    qed
    then have "unused b key vid s'" using orn(1) by (simp add: unused_def)
    moreover have "liveCasesS b key s1 s'"
      unfolding s' by (intro liveCasesS_forEachDisk liveCases_drop RenameDir_source [OF ap])
    ultimately show ?thesis
      using withinS_trans [OF withinS_mono [OF w1] ws] w liveCasesS_trans [OF liveCasesS_same_store [OF ss]] by auto
  qed
  then show "unused b key vid s'" and "\<exists>w. plainName w \<and> w \<noteq> vid \<and> withinS [liveP b key, vsP b key w] s s'"
    and "liveCasesS b key s s'" by blast+
qed

lemma archive_keeps:
  assumes ord: "order_ok env" and v: "version_ok b key vid m" and st: "steadySet s" and wy: "ways b key s"
    and rl: "relocked m m'" and pl: "placed b key vid m' T cur s" and ar: "archiveCurrent env b key s = (r, s')"
  shows "\<exists>w. plainName w \<and> withinS [liveP b key, vsP b key w] s s'"
    and "(\<exists>x. r = Inr x) \<Longrightarrow> placed b key vid m' T False s'" and "(\<exists>e. r = Inl e) \<Longrightarrow> placed b key vid m' T cur s'"
proof -
  have nm: "names_ok b key" and vid: "plainName vid" "vid \<noteq> nullVersionID" "VersionID m' = vid"
    using v relocked_ID [OF rl] by (auto simp: version_ok_def)
  have ne: "vid \<noteq> []" using vid(1) by (simp add: plainName_def)
  have lp: "dpath b key = liveP b key" by (rule dpath_live [OF nm])
  have vp: "dpath b (vsDir key vid) = vsP b key vid" by (rule dpath_vs [OF nm vid(1)])
  have ap: "apart (dpath b key) (dpath b (vsDir key vid))" unfolding lp vp by (rule apart_paths(1) [OF nm])
  have "(\<exists>w. plainName w \<and> withinS [liveP b key, vsP b key w] s s') \<and> ((\<exists>x. r = Inr x) \<longrightarrow> placed b key vid m' T False s')
      \<and> ((\<exists>e. r = Inl e) \<longrightarrow> placed b key vid m' T cur s')"
  proof (cases cur)
    case True
    have rd: "fst (readMeta env b key s) = Inr m'"
      using pl True by (intro readMeta_unanimous [OF ord st]) (simp add: placed_def heldIn_def onUp_def lp)
    then obtain s1 where rm: "readMeta env b key s = (Inr m', s1)" by (metis prod.collapse)
    have ss: "same_store s s1" using readMeta_keeps [of s env b key] rm by simp
    have w1: "withinS [] s s1" by (rule withinS_same_store [OF ss])
    have st1: "steadySet s1" by (rule steadySet_within [OF w1 st])
    have wy1: "onUp s1 (\<lambda>i d. clear (butlast (vsP b key vid)) d)"
      using ways_within [OF w1 wy] by (simp add: ways_def onUp_def)
    have pl1: "placed b key vid m' T cur s1" by (rule placed_within [OF w1 pl]) simp
    let ?rn = "RenameDir b key b (vsDir key vid)"
    have s': "s' = snd (forEachDisk ?rn s1)"
      and r: "r = (if okCount (fst (forEachDisk ?rn s1)) < writeQuorum s1 then Inl EWriteQuorum else Inr vid)"
      using ar rm vid(3) ne withinS_setN(3) [OF w1] by (auto simp: archiveCurrent_def Let_def split_beta split: if_splits)
    have h: "heldIn (liveP b key) m' T s1" using pl1 True by (simp add: placed_def)
    note hr = heldIn_rename [OF ap, of m' T s1, folded s', unfolded lp vp, OF h wy1 st1]
    have ws: "withinS [liveP b key, vsP b key vid] s1 s'"
      unfolding s' using withinS_forEachDisk [OF within_RenameDir [of b key b "vsDir key vid"]] by (simp add: lp vp)
    have "othersIn vid (vsP b key x) s'" if "x \<noteq> vid" "plainName x" for x
      using pl1 that apart_paths(1) [OF nm] apart_vs [of vid x] by (intro othersIn_within [OF ws]) (auto simp: placed_def)
    then have "placed b key vid m' T False s'" using hr(1,3) by (simp add: placed_def)
    moreover have "r = Inr vid" using r hr(2) by simp
    ultimately show ?thesis using withinS_trans [OF withinS_mono [OF w1] ws] vid(1) by auto
  next
    case False
    then have p: "heldIn (vsP b key vid) m' T s" "unused b key vid s" using pl by (auto simp: placed_unused)
    have ok: "set_ok s" using st by (simp add: steadySet_def)
    note au = archive_unused [OF nm vid(2) ok p(2) ar]
    obtain w where w: "plainName w" "w \<noteq> vid" "withinS [liveP b key, vsP b key w] s s'" using au(2) by blast
    have "heldIn (vsP b key vid) m' T s'"
      using apart_paths(1) [OF nm] apart_vs [OF w(2)] by (intro heldIn_within [OF w(3) p(1)]) auto
    then show ?thesis using False au(1) w by (auto simp: placed_unused)
  qed
  then show "\<exists>w. plainName w \<and> withinS [liveP b key, vsP b key w] s s'"
    and "(\<exists>x. r = Inr x) \<Longrightarrow> placed b key vid m' T False s'" and "(\<exists>e. r = Inl e) \<Longrightarrow> placed b key vid m' T cur s'" by blast+
qed

subsection \<open>Requests keep the locked version\<close>

text \<open>The invariant apart from the version log.\<close>

definition kept :: "string \<Rightarrow> string \<Rightarrow> string \<Rightarrow> xlMeta \<Rightarrow> (nat \<Rightarrow> string \<Rightarrow> node option) \<Rightarrow> bool \<Rightarrow> eset \<Rightarrow> bool" where
  "kept b key vid m T cur s \<longleftrightarrow> version_ok b key vid m \<and> steadySet s \<and> ways b key s
     \<and> (\<exists>m'. relocked m m' \<and> placed b key vid m' T cur s)"

lemma kept_names: "kept b key vid m T cur s \<Longrightarrow> names_ok b key"
  by (simp add: kept_def version_ok_def)

lemma ways_live:
  assumes "names_ok b key" "withinS R s s'" "ways b key s" "\<forall>r \<in> set R. r = liveP b key \<or> r = vlogP b key \<or> (\<exists>x. r = vsP b key x) \<or> hd r \<noteq> b \<and> r \<noteq> []"
  shows "ways b key s'"
proof (rule ways_within [OF assms(2,3)], intro ballI)
  fix r
  assume "r \<in> set R"
  then consider "r = liveP b key" | "r = vlogP b key" | x where "r = vsP b key x" | a as where "r = a # as" "a \<noteq> b"
    using assms(4) by (metis list.exhaust_sel)
  then show "\<not> prefix r (butlast (liveP b key)) \<and> \<not> prefix r (vsRoot b key) \<and> \<not> prefix r (vlogRoot b key)"
  proof cases
    case 1
    then show ?thesis using not_prefix_own [of "liveP b key"] apart_paths [OF assms(1)] by (simp add: apart_def liveP_def)
  next
    case 2
    then show ?thesis
      using apart_paths [OF assms(1)] not_prefix_butlast [of "vlogP b key" "liveP b key"]
      by (auto simp: apart_def dest: prefix_length_le)
  next
    case 3
    then show ?thesis
      using apart_paths [OF assms(1)] not_prefix_butlast [of "vsP b key x" "liveP b key"]
      by (auto simp: apart_def dest: prefix_length_le)
  next
    case 4
    then show ?thesis using not_prefix_butlast [of r "liveP b key"] by (simp add: liveP_def vsRoot_def vlogRoot_def)
  qed
qed

lemma kept_same: "same_store s s' \<Longrightarrow> kept b key vid m T cur s \<Longrightarrow> kept b key vid m T cur s'"
  unfolding kept_def
  using withinS_same_store [of s s' "[]"] steadySet_within [of "[]" s s'] ways_within [of "[]" s s'] placed_within [of "[]" s s']
  by (metis empty_iff list.set(1))

lemma logged_same: "same_store s s' \<Longrightarrow> logged b key v s \<Longrightarrow> logged b key v s'"
  using withinS_same_store [of s s' "[]"] logged_within [of "[]" s s'] by simp

lemma kept_writeVlog:
  assumes "kept b key vid m T cur s" "logged b key v s" "writeVlog b key v' s = (r, s')"
  shows "r = None" "kept b key vid m T cur s'" "logged b key v' s'"
proof -
  have nm: "names_ok b key" by (rule kept_names [OF assms(1)])
  have nd: "onUp s (\<lambda>i d. at d (vlogP b key) \<noteq> Some Dir)" using assms(2) by (simp add: logged_def onUp_def)
  have st: "steadySet s" "ways b key s" using assms(1) by (auto simp: kept_def)
  note wv = writeVlog_logs [OF nm st nd, of v', unfolded assms(3) fst_conv snd_conv]
  show "r = None" "logged b key v' s'" by (rule wv)+
  have "\<forall>r \<in> set [vlogP b key]. apart r (liveP b key) \<and> (\<forall>x. apart r (vsP b key x))"
    using apart_paths [OF nm] apart_sym by auto
  from placed_within [OF wv(3) _ this] show "kept b key vid m T cur s'"
    using assms(1) steadySet_within [OF wv(3)] ways_live [OF nm wv(3)] unfolding kept_def by auto
qed

lemma kept_archive:
  assumes "order_ok env" "kept b key vid m T cur s" "logged b key v s" "archiveCurrent env b key s = (r, s')"
  shows "logged b key v s'" "r = Inr x \<Longrightarrow> kept b key vid m T False s'" "r = Inl e \<Longrightarrow> kept b key vid m T cur s'"
proof -
  have nm: "names_ok b key" by (rule kept_names [OF assms(2)])
  obtain m' where k: "version_ok b key vid m" "steadySet s" "ways b key s" "relocked m m'" "placed b key vid m' T cur s"
    using assms(2) by (auto simp: kept_def)
  note ak = archive_keeps [OF assms(1) k assms(4)]
  obtain w where w: "withinS [liveP b key, vsP b key w] s s'" using ak(1) by blast
  show "logged b key v s'" using apart_paths [OF nm] by (intro logged_within [OF w assms(3)]) auto
  have "steadySet s'" "ways b key s'" using steadySet_within [OF w k(2)] ways_live [OF nm w k(3)] by auto
  then show "r = Inr x \<Longrightarrow> kept b key vid m T False s'" "r = Inl e \<Longrightarrow> kept b key vid m T cur s'"
    using k ak(2,3) unfolding kept_def by blast+
qed

lemma WriteAll_own: "dpath b ob \<noteq> [] \<Longrightarrow> at (snd (WriteAll b ob c d)) (dpath b ob) \<in> {Some (File c), at d (dpath b ob)}"
proof -
  assume "dpath b ob \<noteq> []"
  then have "\<not> prefix (dpath b ob) (butlast (dpath b ob))" by (rule not_prefix_own)
  then show ?thesis
    using lookupF_mkdirAll [of "butlast (dpath b ob)" "dfs d"] lookupF_writeFile [of "dpath b ob" c "dfs d"]
    by (auto simp: WriteAll_def Let_def split: option.splits)
qed

text \<open>Changes confined to the key's directory, when the version is in the version store.\<close>

lemma kept_live:
  assumes "kept b key vid m T False s" "withinS R s s'" "othersIn vid (liveP b key) s'"
    and R: "\<forall>r \<in> set R. r = liveP b key \<or> hd r \<noteq> b \<and> r \<noteq> []"
  shows "kept b key vid m T False s'"
proof -
  have nm: "names_ok b key" by (rule kept_names [OF assms(1)])
  have "apart r (vsP b key x)" if "r \<in> set R" for r x
  proof (cases "r = liveP b key")
    case False
    then have "hd r \<noteq> b" "r \<noteq> []" using R that by auto
    then show ?thesis by (cases r) (auto simp: apart_def vsRoot_def)
  qed (simp add: apart_paths(1) [OF nm])
  then have "placed b key vid m' T False s'" if "placed b key vid m' T False s" for m'
    using that assms(3) heldIn_within [OF assms(2)] othersIn_within [OF assms(2)] by (simp add: placed_def)
  moreover have "steadySet s'" "ways b key s'"
    using assms(1) R steadySet_within [OF assms(2)] ways_live [OF nm assms(2)] unfolding kept_def by blast+
  ultimately show ?thesis using assms(1) unfolding kept_def by blast
qed

lemma othersIn_cases:
  assumes "othersIn vid (dpath b key) s" "liveCasesS b key s s'" "withinS R s s'" "vid \<noteq> []"
  shows "othersIn vid (dpath b key) s'"
proof -
  have "\<forall>m. at (disks s' ! i) (dpath b key @ [metaFile]) = Some (File (MetaDoc m)) \<longrightarrow> otherID vid m"
    if i: "i < setN s" "up (disks s ! i)" for i
  proof -
    have "liveCases b key (disks s ! i) (disks s' ! i)" using assms(2) i by (auto simp: liveCasesS_def list_all2_conv_all_nth setN_def)
    moreover have "\<forall>m. at (disks s ! i) (dpath b key @ [metaFile]) = Some (File (MetaDoc m)) \<longrightarrow> otherID vid m"
      using assms(1) i by (simp add: othersIn_def onUp_def)
    ultimately show ?thesis using assms(4) unfolding liveCases_def by (auto simp: otherID_def)
  qed
  then show ?thesis
    unfolding othersIn_def onUp_def using withinS_setN(1) [OF assms(3)] withinS_nth [OF assms(3)] within_up(1) [of R] by metis
qed

lemma kept_put:
  assumes k: "kept b key vid m T False s" and idp: "plainName id1"
    and fr: "\<forall>d \<in> set (disks s). fresh (dpath [] (pjoin tmpPrefix id1)) d"
    and put: "putObjectSSE env id1 id2 now b key [ps] um sp False s = (r, s')"
  shows "kept b key vid m T False s'" "logged b key v s \<Longrightarrow> logged b key v s'"
proof -
  have nm: "names_ok b key" by (rule kept_names [OF k])
  note stg = apart_staging [OF nm idp]
  have lp: "dpath b key = liveP b key" by (rule dpath_live [OF nm])
  have w: "withinS [dpath [] (pjoin tmpPrefix id1), liveP b key] s s'"
    using withinS_put [of id1 b key s env id2 now "[ps]" um sp] put lp by simp
  have ok: "set_ok s" and o: "othersIn vid (dpath b key) s" and vid: "vid \<noteq> []"
    using k lp by (auto simp: kept_def steadySet_def placed_def version_ok_def plainName_def)
  have "liveCasesS b key s s'" using put_live [OF ok idp _ fr, of b key env id2 now ps um sp] put stg(6) lp by simp
  from othersIn_cases [OF o this w vid] have "othersIn vid (liveP b key) s'" using lp by simp
  then show "kept b key vid m T False s'"
    using nm idp by (intro kept_live [OF k w]) (auto simp: staging_dpath names_ok_def)
  show "logged b key v s \<Longrightarrow> logged b key v s'"
    using apart_paths(3) [OF nm] apart_snoc(1) [OF stg(3)] by (intro logged_within [OF w]) auto
qed

lemma kept_writeMeta:
  assumes k: "kept b key vid m T False s" and m: "otherID vid m2"
  shows "kept b key vid m T False (snd (forEachDisk (WriteAll b (pjoin key metaFile) (marshal m2)) s))"
    and "logged b key v s \<Longrightarrow> logged b key v (snd (forEachDisk (WriteAll b (pjoin key metaFile) (marshal m2)) s))"
proof -
  let ?w = "WriteAll b (pjoin key metaFile) (marshal m2)" and ?s' = "snd (forEachDisk (WriteAll b (pjoin key metaFile) (marshal m2)) s)"
  have nm: "names_ok b key" by (rule kept_names [OF k])
  have lp: "dpath b key = liveP b key" by (rule dpath_live [OF nm])
  have w: "withinS [liveP b key] s ?s'"
    by (rule withinS_mono [OF withinS_forEachDisk [OF within_WriteAll]]) (simp add: lp)
  have o: "onUp s (\<lambda>i d. \<forall>m. at d (liveP b key @ [metaFile]) = Some (File (MetaDoc m)) \<longrightarrow> otherID vid m)"
    using k by (auto simp: kept_def placed_def othersIn_def)
  have "\<forall>m. at (snd (?w d)) (liveP b key @ [metaFile]) = Some (File (MetaDoc m)) \<longrightarrow> otherID vid m"
    if "\<forall>m. at d (liveP b key @ [metaFile]) = Some (File (MetaDoc m)) \<longrightarrow> otherID vid m" for d
    using WriteAll_own [of b "pjoin key metaFile" "marshal m2" d] that m lp by (auto simp: marshal_norm otherID_def)
  then have "othersIn vid (liveP b key) ?s'" unfolding othersIn_def by (intro onUp_forEachDisk [OF WriteAll_faults o])
  then show "kept b key vid m T False ?s'" by (intro kept_live [OF k w]) auto
  show "logged b key v s \<Longrightarrow> logged b key v ?s'" using apart_paths(3) [OF nm] by (intro logged_within [OF w]) auto
qed

lemma kept_removeFiles:
  assumes ord: "order_ok env" and k: "kept b key vid m T cur s" and x: "plainName x" "x \<noteq> vid"
  shows "kept b key vid m T cur (removeVersionFiles env b key x s)"
    and "logged b key v s \<Longrightarrow> logged b key v (removeVersionFiles env b key x s)"
proof -
  have nm: "names_ok b key" by (rule kept_names [OF k])
  have lp: "dpath b key = liveP b key" by (rule dpath_live [OF nm])
  have vp: "dpath b (vsDir key x) = vsP b key x" by (rule dpath_vs [OF nm x(1)])
  obtain res s1 where rs: "resolveVersionDir env b key x s = (res, s1)" by fastforce
  have xne: "x \<noteq> []" using x(1) by (simp add: plainName_def)
  have ss: "same_store s s1"
  proof -
    have "same_store s (snd (resolveVersionDir env b key x s))"
      using xne readMeta_keeps [of s env b key] same_store_trans [OF readMeta_keeps readMeta_keeps]
      by (auto simp: resolveVersionDir_def split_beta split: sum.split)
    then show ?thesis using rs by simp
  qed
  have k1: "kept b key vid m T cur s1" by (rule kept_same [OF ss k])
  have cases: "res = None \<or> (res = Some (key, True) \<and> \<not> cur) \<or> res = Some (vsDir key x, False)"
  proof -
    have "\<exists>m2. fst (readMeta env b key s) = Inr m2 \<and> (VersionID m2 = x \<or> VersionID m2 = [])" if "res = Some (key, True)"
      using rs xne that by (auto simp: resolveVersionDir_def split: prod.splits if_splits sum.splits)
    moreover have "\<exists>m2. fst (readMeta env b key s) = Inr m2 \<and> VersionID m2 = vid \<and> vid \<noteq> []" if c: cur
    proof -
      obtain m' where "relocked m m'" "heldIn (liveP b key) m' T s" "steadySet s" "version_ok b key vid m"
        using k c by (auto simp: kept_def placed_def)
      then show ?thesis
        using readMeta_unanimous [OF ord, of s b key m'] relocked_ID [of m m'] lp
        by (auto simp: heldIn_def onUp_def version_ok_def plainName_def)
    qed
    moreover have "res = None \<or> res = Some (key, True) \<or> res = Some (vsDir key x, False)"
      using rs xne by (auto simp: resolveVersionDir_def split: prod.splits if_splits sum.splits)
    ultimately show ?thesis using x(2) by force
  qed
  define fn where "fn = (case res of Some (dir, isCurrent) \<Rightarrow> Delete b (if isCurrent then key else dir) True | None \<Rightarrow> (\<lambda>d. (Inr (), d)))"
  have rv: "removeVersionFiles env b key x s = (if res = None then s1 else snd (forEachDisk fn s1))"
    using rs by (auto simp: removeVersionFiles_def fn_def split: option.splits)
  have "kept b key vid m T cur (removeVersionFiles env b key x s)
      \<and> (\<exists>R. withinS R s1 (removeVersionFiles env b key x s) \<and> (\<forall>r \<in> set R. apart r (vlogP b key)))"
    using cases
  proof (elim disjE)
    assume "res = None"
    then show ?thesis using k1 rv by (auto intro: exI [of _ "[]"])
  next
    assume c: "res = Some (key, True) \<and> \<not> cur"
    let ?s' = "snd (forEachDisk (Delete b key True) s1)"
    have w: "withinS [liveP b key] s1 ?s'" using withinS_forEachDisk [OF within_Delete [of b key]] lp by simp
    have "othersIn vid (dpath b key) s1" "vid \<noteq> []"
      using k1 c lp by (auto simp: kept_def placed_def version_ok_def plainName_def)
    from othersIn_cases [OF this(1) liveCasesS_forEachDisk [OF liveCases_Delete] w this(2)] lp
    have "kept b key vid m T False ?s'" using k1 c lp by (intro kept_live [OF _ w]) (auto simp: liveP_def)
    then show ?thesis using c rv w apart_paths(3) [OF nm] by (auto simp: fn_def intro: exI [of _ "[liveP b key]"])
  next
    assume c: "res = Some (vsDir key x, False)"
    let ?s' = "snd (forEachDisk (Delete b (vsDir key x) True) s1)"
    have w: "withinS [vsP b key x] s1 ?s'" using withinS_forEachDisk [OF within_Delete [of b "vsDir key x"]] vp by simp
    have own: "othersIn vid (vsP b key x) ?s'" if o: "othersIn vid (vsP b key x) s1"
      unfolding othersIn_def
    proof (rule onUp_forEachDisk [OF Delete_faults o [unfolded othersIn_def]])
      fix i d
      assume "\<forall>m. at d (vsP b key x @ [metaFile]) = Some (File (MetaDoc m)) \<longrightarrow> otherID vid m"
      then show "\<forall>m. at (snd (Delete b (vsDir key x) True d)) (vsP b key x @ [metaFile]) = Some (File (MetaDoc m)) \<longrightarrow> otherID vid m"
        using Delete_own [of b "vsDir key x" d "[metaFile]"] vp by auto
    qed
    have pl: "placed b key vid m' T cur ?s'" if "placed b key vid m' T cur s1" for m'
    proof -
      have "othersIn vid (vsP b key y) ?s'" if "y \<noteq> vid" "plainName y" "othersIn vid (vsP b key y) s1" for y
        using that own othersIn_within [OF w, of vid "vsP b key y"] apart_vs [of x y b key] by (cases "y = x") auto
      then show ?thesis
        using that apart_paths(1) [OF nm, of x] apart_vs [OF x(2), of b key] heldIn_within [OF w] othersIn_within [OF w]
        by (auto simp: placed_def apart_sym split: if_splits)
    qed
    have "kept b key vid m T cur ?s'"
      using k1 pl steadySet_within [OF w] ways_live [OF nm w] unfolding kept_def by auto
    then show ?thesis using c rv w apart_paths(5) [OF nm] by (auto simp: fn_def intro: exI [of _ "[vsP b key x]"])
  qed
  then show "kept b key vid m T cur (removeVersionFiles env b key x s)"
    and "logged b key v s \<Longrightarrow> logged b key v (removeVersionFiles env b key x s)"
    using logged_within logged_same [OF ss] by blast+
qed

lemma kept_promote:
  assumes ord: "order_ok env" and k: "kept b key vid m T cur s" and x: "plainName (VlogID (last vl))"
  shows "\<exists>cur'. kept b key vid m T cur' (promoteLast env b key vl s)"
    and "logged b key v s \<Longrightarrow> logged b key v (promoteLast env b key vl s)"
proof -
  define x where "x = VlogID (last vl)"
  have nm: "names_ok b key" by (rule kept_names [OF k])
  have lp: "dpath b key = liveP b key" by (rule dpath_live [OF nm])
  have vp: "dpath b (vsDir key x) = vsP b key x" using dpath_vs [OF nm] assms(3) by (simp add: x_def)
  obtain r s1 where rm: "readMeta env b key s = (r, s1)" by fastforce
  have ss: "same_store s s1" using readMeta_keeps [of s env b key] rm by simp
  have k1: "kept b key vid m T cur s1" by (rule kept_same [OF ss k])
  let ?s' = "snd (forEachDisk (RenameDir b (vsDir key x) b key) s1)"
  have pv: "promoteLast env b key vl s = (if r = Inl (EDisk ErrFileNotFound) then ?s' else s1)"
    using rm by (simp add: promoteLast_def x_def)
  have ap: "apart (dpath b (vsDir key x)) (dpath b key)" unfolding lp vp by (rule apart_sym [OF apart_paths(1) [OF nm]])
  have w: "withinS [vsP b key x, liveP b key] s1 ?s'"
    using withinS_forEachDisk [OF within_RenameDir [of b "vsDir key x" b key]] by (simp add: lp vp)
  obtain m' where m': "relocked m m'" "placed b key vid m' T cur s1" and st: "steadySet s1" "ways b key s1" and vo: "version_ok b key vid m"
    using k1 by (auto simp: kept_def)
  have "\<exists>cur'. kept b key vid m T cur' ?s'" if nf: "r = Inl (EDisk ErrFileNotFound)"
  proof -
    have ncur: "\<not> cur"
    proof
      assume cur
      then have "onUp s (\<lambda>i d. at d (dpath b key @ [metaFile]) = Some (File (MetaDoc m')))"
        using m' ss by (auto simp: placed_def heldIn_def onUp_def lp setN_def same_store_nth same_store_view same_store_length)
      then show False
        using readMeta_unanimous [OF ord, of s b key m'] rm nf k by (simp add: kept_def)
    qed
    have h: "heldIn (vsP b key vid) m' T s1" "othersIn vid (liveP b key) s1"
      and ov: "\<And>y. y \<noteq> vid \<Longrightarrow> plainName y \<Longrightarrow> othersIn vid (vsP b key y) s1" using m' ncur by (auto simp: placed_def)
    have st': "steadySet ?s'" "ways b key ?s'" using steadySet_within [OF w st(1)] ways_live [OF nm w st(2)] by auto
    have far: "othersIn vid (vsP b key y) ?s'" if "y \<noteq> vid" "plainName y" "y \<noteq> x" for y
      using apart_paths(1) [OF nm] apart_vs [of x y b key] that by (intro othersIn_within [OF w ov]) auto
    have wy: "onUp s1 (\<lambda>i d. clear (butlast (liveP b key)) d)" using st(2) by (simp add: ways_def onUp_def)
    show ?thesis
    proof (cases "x = vid")
      case True
      have "heldIn (liveP b key) m' T ?s'"
        using heldIn_rename(1) [OF ap, of m' T s1, unfolded lp vp] h(1) wy st(1) True by simp
      then have "placed b key vid m' T True ?s'" using far True by (simp add: placed_def)
      then show ?thesis using st' m'(1) vo unfolding kept_def by blast
    next
      case False
      have "othersIn vid (vsP b key x) s1" using ov False assms(3) x_def by blast
      then have "othersIn vid (liveP b key) ?s'" "othersIn vid (vsP b key x) ?s'"
        using othersIn_rename [OF ap, of vid s1] h(2) by (simp_all add: lp vp)
      moreover have "heldIn (vsP b key vid) m' T ?s'"
        using apart_paths(1) [OF nm] apart_vs [OF False] by (intro heldIn_within [OF w h(1)]) auto
      ultimately have "placed b key vid m' T False ?s'" using far by (metis placed_def)
      then show ?thesis using st' m'(1) vo unfolding kept_def by blast
    qed
  qed
  then show "\<exists>cur'. kept b key vid m T cur' (promoteLast env b key vl s)" using pv k1 by auto
  have "logged b key v s1 \<Longrightarrow> logged b key v ?s'"
    using apart_paths(3,5) [OF nm] by (intro logged_within [OF w]) auto
  then show "logged b key v s \<Longrightarrow> logged b key v (promoteLast env b key vl s)"
    using pv logged_same [OF ss] by auto
qed

lemma kept_sync:
  assumes ord: "order_ok env" and k: "kept b key vid m T cur s"
  shows "kept b key vid m T cur (syncCurrentLock env b key e s)"
    and "logged b key v s \<Longrightarrow> logged b key v (syncCurrentLock env b key e s)"
proof -
  have nm: "names_ok b key" by (rule kept_names [OF k])
  have lp: "dpath b key = liveP b key" by (rule dpath_live [OF nm])
  obtain r s1 where rm: "readMeta env b key s = (r, s1)" by fastforce
  have ss: "same_store s s1" using readMeta_keeps [of s env b key] rm by simp
  have k1: "kept b key vid m T cur s1" by (rule kept_same [OF ss k])
  have "kept b key vid m T cur (syncCurrentLock env b key e s) \<and>
      (logged b key v s \<longrightarrow> logged b key v (syncCurrentLock env b key e s))"
  proof (cases "\<exists>m2. r = Inr m2 \<and> VersionID m2 = VlogID e")
    case False
    then have "syncCurrentLock env b key e s = s1" using rm by (auto simp: syncCurrentLock_def split: sum.splits)
    then show ?thesis using k1 logged_same [OF ss] by simp
  next
    case True
    then obtain m2 where m2: "r = Inr m2" "VersionID m2 = VlogID e" by blast
    define m1 where "m1 = m2\<lparr>LockMode := VLockMode e, RetainUntil := VRetainUntil e, LegalHold := VLegalHold e\<rparr>"
    let ?w = "WriteAll b (pjoin key metaFile) (marshal m1)" and ?s' = "snd (forEachDisk (WriteAll b (pjoin key metaFile) (marshal m1)) s1)"
    have sy: "syncCurrentLock env b key e s = ?s'" using rm m2 by (simp add: syncCurrentLock_def m1_def Let_def)
    show ?thesis
    proof (cases cur)
      case False
      obtain i where "i < setN s" "up (disks s ! i)" "at (disks s ! i) (liveP b key @ [metaFile]) = Some (File (MetaDoc m2))"
        using readMeta_from [of s env b key m2] rm m2 k lp by (auto simp: kept_def steadySet_def)
      then have "otherID vid m2" using k False by (auto simp: kept_def placed_def othersIn_def onUp_def)
      then have "otherID vid m1" by (simp add: otherID_def m1_def)
      then show ?thesis using kept_writeMeta [of b key vid m T s1 m1] k1 False sy logged_same [OF ss] by auto
    next
      case True
      obtain m' where m': "relocked m m'" "placed b key vid m' T True s1" "placed b key vid m' T True s"
      proof -
        obtain m' where "relocked m m'" "placed b key vid m' T True s" using k True by (auto simp: kept_def)
        then show ?thesis using that placed_within [OF withinS_same_store [OF ss, of "[]"]] by auto
      qed
      have "fst (readMeta env b key s) = Inr m'"
        using k m'(3) lp by (intro readMeta_unanimous [OF ord]) (auto simp: kept_def placed_def heldIn_def onUp_def)
      then have "m2 = m'" using rm m2 by simp
      then have r1: "relocked m m1" using relocked_trans [OF m'(1), of m1] by (auto simp: relocked_def m1_def)
      then have n1: "normMeta m1 = m1" using relocked_norm k by (auto simp: kept_def version_ok_def)
      have w: "withinS [liveP b key] s1 ?s'" by (rule withinS_mono [OF withinS_forEachDisk [OF within_WriteAll]]) (simp add: lp)
      have hl: "onUp s1 (\<lambda>i d. clear (liveP b key) d \<and> at d (liveP b key) = Some Dir \<and> at d (liveP b key @ [metaFile]) = Some (File (MetaDoc m'))
         \<and> (\<forall>x. x \<noteq> metaFile \<longrightarrow> at d (liveP b key @ [x]) = T i x))"
        using m'(2) by (simp add: placed_def heldIn_def)
      have "heldIn (liveP b key) m1 T ?s'"
        unfolding heldIn_def
      proof (rule onUp_forEachDisk [OF WriteAll_faults hl])
        fix i d
        assume u: "up d" and h: "clear (liveP b key) d \<and> at d (liveP b key) = Some Dir
          \<and> at d (liveP b key @ [metaFile]) = Some (File (MetaDoc m')) \<and> (\<forall>x. x \<noteq> metaFile \<longrightarrow> at d (liveP b key @ [x]) = T i x)"
        then obtain d' where d': "?w d = (Inr (), d')" using WriteAll_up [OF u, of b "pjoin key metaFile" "marshal m1"] lp by auto
        have a: "at d' q = (if q = liveP b key @ [metaFile] then Some (File (MetaDoc m1)) else if prefix q (liveP b key) then Some Dir else at d q)" for q
          using WriteAll_ok(1) [OF d', of q] n1 by (simp add: lp marshal_norm)
        then show "clear (liveP b key) (snd (?w d)) \<and> at (snd (?w d)) (liveP b key) = Some Dir
          \<and> at (snd (?w d)) (liveP b key @ [metaFile]) = Some (File (MetaDoc m1))
          \<and> (\<forall>x. x \<noteq> metaFile \<longrightarrow> at (snd (?w d)) (liveP b key @ [x]) = T i x)"
          using h d' by (auto simp: clear_def)
      qed
      moreover have "othersIn vid (vsP b key x) ?s'" if "x \<noteq> vid" "plainName x" for x
        using m'(2) that apart_paths(1) [OF nm] by (intro othersIn_within [OF w]) (auto simp: placed_def)
      ultimately have "placed b key vid m1 T True ?s'" by (simp add: placed_def)
      then have "kept b key vid m T cur ?s'"
        using k1 r1 True steadySet_within [OF w] ways_live [OF nm w] unfolding kept_def by auto
      moreover have "logged b key v s1 \<longrightarrow> logged b key v ?s'"
        using apart_paths(3) [OF nm] logged_within [OF w] by auto
      ultimately show ?thesis using sy logged_same [OF ss] by auto
    qed
  qed
  then show "kept b key vid m T cur (syncCurrentLock env b key e s)"
    and "logged b key v s \<Longrightarrow> logged b key v (syncCurrentLock env b key e s)" by blast+
qed

subsection \<open>Requests\<close>

definition lockedVersion ::
  "string \<Rightarrow> string \<Rightarrow> string \<Rightarrow> time \<Rightarrow> xlMeta \<Rightarrow> (nat \<Rightarrow> string \<Rightarrow> node option) \<Rightarrow> vlogEntry list \<Rightarrow> eset \<Rightarrow> bool" where
  "lockedVersion b key vid until m T v s \<longleftrightarrow>
     (\<exists>cur. kept b key vid m T cur s) \<and> logged b key v s \<and> vlogOK v \<and> lockedEntry vid until v"

lemma lockedVersion_readVlog:
  assumes "lockedVersion b key vid until m T v s" "readVlog b key s = (v', s')"
  shows "v' = v" "lockedVersion b key vid until m T v s'" "same_store s s'"
proof -
  have ss: "same_store s s'" using readVlog_keeps [of s b key] assms(2) by simp
  then show "same_store s s'" .
  obtain cur where k: "kept b key vid m T cur s" and l: "logged b key v s" using assms(1) by (auto simp: lockedVersion_def)
  show "v' = v" using readVlog_logged [OF kept_names [OF k] _ l] k assms(2) by (simp add: kept_def)
  show "lockedVersion b key vid until m T v s'"
    using assms(1) kept_same [OF ss] logged_same [OF ss] unfolding lockedVersion_def by blast
qed

lemma vlogOK_snoc: "vlogOK v \<Longrightarrow> plainName (VlogID e) \<Longrightarrow> VlogID e \<notin> VlogID ` set v \<Longrightarrow> vlogOK (v @ [e])"
  by (auto simp: vlogOK_def)

lemma lockedEntry_snoc: "lockedEntry vid until v \<Longrightarrow> lockedEntry vid until (v @ [e])"
  by (auto simp: lockedEntry_def)

lemma fresh_within:
  assumes "withinS R s s'" "\<forall>r \<in> set R. apart r p" "\<forall>d \<in> set (disks s). fresh p d"
  shows "\<forall>d \<in> set (disks s'). fresh p d"
proof -
  have far: "apart r (p @ q)" if "apart r p" for r q
    using that prefix_same_cases [of r "p @ q" p] append_prefixD [of p q r] by (auto simp: apart_def)
  have "fresh p (disks s' ! i)" if i: "i < setN s" for i
  proof -
    have w: "within R (disks s ! i) (disks s' ! i)" by (rule withinS_nth [OF assms(1) i])
    have "at (disks s' ! i) (p @ q) = at (disks s ! i) (p @ q)" for q
      using within_at [OF w] far assms(2) by blast
    moreover have "fresh p (disks s ! i)" using assms(3) i by (simp add: setN_def)
    ultimately show ?thesis unfolding fresh_def by (metis prefixE)
  qed
  then show ?thesis using withinS_setN(1) [OF assms(1)] by (auto simp: in_set_conv_nth setN_def)
qed

lemma locked_put:
  assumes ord: "order_ok (senvOf pe)" and lv: "lockedVersion b key vid until m T v s" and ns: "\<not> oVersionSuspended opts"
    and new: "plainName (dVid dr)" "dVid dr \<notin> VlogID ` set v" and idp: "plainName (dId1 dr)"
    and fr: "\<forall>d \<in> set (disks s). fresh (dpath [] (pjoin tmpPrefix (dId1 dr))) d"
    and put: "putVersionOn pe km dr b key data sz opts s = (r, s')"
  shows "\<exists>v'. lockedVersion b key vid until m T v' s'"
proof -
  obtain v1 s1 where rv: "readVlog b key s = (v1, s1)" by fastforce
  note l1 = lockedVersion_readVlog [OF lv rv]
  obtain cur where k1: "kept b key vid m T cur s1" and lg1: "logged b key v s1" and vo: "vlogOK v" "lockedEntry vid until v"
    using l1(2) by (auto simp: lockedVersion_def)
  have nm: "names_ok b key" by (rule kept_names [OF k1])
  obtain ra s2 where ar: "archiveCurrent (senvOf pe) b key s1 = (ra, s2)" by fastforce
  note ka = kept_archive [OF ord k1 lg1 ar]
  have lk: "lockedVersion b key vid until m T v' s" if "kept b key vid m T c s" "logged b key v' s" "v' = v \<or> v' = v @ [e] \<and> VlogID e = dVid dr" for c v' e s
    using that vo new vlogOK_snoc lockedEntry_snoc by (auto simp: lockedVersion_def)
  show ?thesis
  proof (cases ra)
    case (Inl e)
    then have "s' = s2" using put rv ar ns by (simp add: putVersionOn_def Let_def)
    then show ?thesis using lk [OF ka(3) [OF Inl] ka(1)] by blast
  next
    case (Inr x)
    have k2: "kept b key vid m T False s2" by (rule ka(2) [OF Inr])
    show ?thesis
    proof (cases "sseWanted (aeadOf pe) km [''AES256''] dr opts")
      case (Inl e)
      then have "s' = s2" using put rv ar ns Inr by (simp add: putVersionOn_def Let_def)
      then show ?thesis using lk [OF k2 ka(1)] by blast
    next
      case sw: (Inr sp)
      obtain rp s3 where pt: "putObjectSSE (senvOf pe) (dId1 dr) (dId2 dr) (dNow dr) b key
          [\<lparr>psNumber = 1, psSize = sz, psReader = data\<rparr>] (toUserMeta opts) sp False s2 = (rp, s3)" by fastforce
      have "\<exists>w. withinS [liveP b key, vsP b key w] s1 s2"
        using archive_keeps(1) [OF ord _ _ _ _ _ ar] k1 unfolding kept_def by blast
      then obtain w where w: "withinS [liveP b key, vsP b key w] s s2"
        using withinS_trans [OF withinS_same_store [OF l1(3)]] by blast
      have "\<forall>r \<in> set [liveP b key, vsP b key w]. apart r (dpath [] (pjoin tmpPrefix (dId1 dr)))"
        using apart_staging [OF nm idp] apart_snoc apart_sym by auto
      from kept_put [OF k2 idp fresh_within [OF w this fr] pt] ka(1)
      have k3: "kept b key vid m T False s3" and lg3: "logged b key v s3" by blast+
      show ?thesis
      proof (cases rp)
        case (Inl e)
        then have "s' = s3" using put rv ar ns Inr sw pt by (simp add: putVersionOn_def Let_def)
        then show ?thesis using lk [OF k3 lg3] by blast
      next
        case rp: (Inr meta0)
        define meta where "meta = lockFields dr opts (dVid dr) meta0"
        define s4 where "s4 = snd (forEachDisk (WriteAll b (pjoin key metaFile) (marshal meta)) s3)"
        have "VersionID meta = dVid dr" by (simp add: meta_def lockFields_def Let_def)
        moreover have "vid \<in> VlogID ` set v" using vo(2) by (auto simp: lockedEntry_def)
        ultimately have "otherID vid meta" using new by (auto simp: otherID_def)
        from kept_writeMeta [OF k3 this] lg3 have k4: "kept b key vid m T False s4" and lg4: "logged b key v s4"
          by (simp_all add: s4_def)
        obtain rw s5 where wv: "writeVlog b key (v @ [vlogEntryOf (dVid dr) meta]) s4 = (rw, s5)" by fastforce
        have "s' = s5"
          using put rv l1(1) ar ns Inr sw pt rp wv
          by (auto simp: putVersionOn_def Let_def s4_def meta_def split: option.splits)
        then show ?thesis
          using lk [OF kept_writeVlog(2,3) [OF k4 lg4 wv]] by (auto simp: vlogEntryOf_def)
      qed
    qed
  qed
qed

lemma findEntry_Some: "findEntry x k v = Some i \<Longrightarrow> k \<le> i \<and> i - k < length v \<and> VlogID (v ! (i - k)) = x"
proof (induction v arbitrary: k)
  case (Cons e v)
  have "i - k = Suc (i - Suc k)" if "Suc k \<le> i" using that by simp
  then show ?case using Cons.IH [of "Suc k"] Cons.prems by (cases "VlogID e = x") auto
qed simp

lemma lockedEntry_blocks:
  assumes "lockedEntry vid until v" "vlogOK v" "i < length v" "VlogID (v ! i) = vid" "now < until" "0 < until"
  shows "lockBlocks now byp (v ! i)" "VLockMode (v ! i) = ''COMPLIANCE''" "until \<le> VRetainUntil (v ! i)"
proof -
  obtain j where j: "j < length v" "VlogID (v ! j) = vid" "VLockMode (v ! j) = ''COMPLIANCE''" "until \<le> VRetainUntil (v ! j)"
    using assms(1) by (auto simp: lockedEntry_def in_set_conv_nth)
  then have "i = j" using assms(2-4) by (auto simp: vlogOK_def distinct_conv_nth)
  then show "lockBlocks now byp (v ! i)" "VLockMode (v ! i) = ''COMPLIANCE''" "until \<le> VRetainUntil (v ! i)"
    using j assms(5,6) by (auto simp: lockBlocks_def)
qed

lemma locked_marker:
  assumes ord: "order_ok env" and lv: "lockedVersion b key vid until m T v s" and ns: "\<not> oVersionSuspended opts"
    and new: "plainName (dVid dr)" "dVid dr \<notin> VlogID ` set v"
    and op: "addDeleteMarker env dr b key opts v s = (r, s')"
  shows "\<exists>v'. lockedVersion b key vid until m T v' s'"
proof -
  obtain cur where k: "kept b key vid m T cur s" and lg: "logged b key v s" and vo: "vlogOK v" "lockedEntry vid until v"
    using lv by (auto simp: lockedVersion_def)
  obtain ra s2 where ar: "archiveCurrent env b key s = (ra, s2)" by fastforce
  note ka = kept_archive [OF ord k lg ar]
  show ?thesis
  proof (cases ra)
    case (Inl e)
    then have "s' = s2" using op ar ns by (simp add: addDeleteMarker_def Let_def)
    then show ?thesis using ka(1) ka(3) [OF Inl] vo by (auto simp: lockedVersion_def)
  next
    case (Inr x)
    define e where "e = \<lparr>VlogID = dVid dr, DeleteMarker = True, VModTime = dNow dr, VLockMode = [], VRetainUntil = 0, VLegalHold = False\<rparr>"
    obtain rw s3 where wv: "writeVlog b key (v @ [e]) s2 = (rw, s3)" by fastforce
    have "s' = s3" using op ar ns Inr wv by (auto simp: addDeleteMarker_def Let_def e_def split: option.splits)
    moreover have "vlogOK (v @ [e])" using vo(1) new by (intro vlogOK_snoc) (auto simp: e_def)
    ultimately show ?thesis
      using kept_writeVlog(2,3) [OF ka(2) [OF Inr] ka(1) wv] lockedEntry_snoc [OF vo(2)] by (auto simp: lockedVersion_def)
  qed
qed

lemma locked_deleteVersion:
  assumes ord: "order_ok env" and lv: "lockedVersion b key vid until m T v s" and now: "dNow dr < until" "0 < until"
    and op: "deleteVersion env dr b key opts v s = (r, s')"
  shows "\<exists>v'. lockedVersion b key vid until m T v' s'"
proof -
  obtain cur where k: "kept b key vid m T cur s" and lg: "logged b key v s" and vo: "vlogOK v" "lockedEntry vid until v"
    using lv by (auto simp: lockedVersion_def)
  define x where "x = oVersionID opts"
  show ?thesis
  proof (cases "findEntry x 0 v")
    case None
    then have "s' = s" using op by (simp add: deleteVersion_def x_def)
    then show ?thesis using lv by blast
  next
    case (Some i)
    have i: "i < length v" "VlogID (v ! i) = x" using findEntry_Some [OF Some] by auto
    show ?thesis
    proof (cases "lockBlocks (dNow dr) (oBypassGovernance opts) (v ! i)")
      case True
      then have "s' = s" using op Some by (simp add: deleteVersion_def x_def)
      then show ?thesis using lv by blast
    next
      case False
      then have xv: "x \<noteq> vid" using lockedEntry_blocks(1) [OF vo(2,1) i(1) _ now] i(2) by blast
      have xp: "plainName x" using vo(1) i by (auto simp: vlogOK_def)
      define v' where "v' = take i v @ drop (Suc i) v"
      have v: "v = take i v @ v ! i # drop (Suc i) v" using i(1) by (rule id_take_nth_drop)
      have ok': "vlogOK v'" using vo(1) unfolding vlogOK_def v'_def
        by (subst (asm) (1 2) v) auto
      have le: "lockedEntry vid until v'"
      proof -
        obtain e where e: "e \<in> set v" "VlogID e = vid" "VLockMode e = ''COMPLIANCE''" "until \<le> VRetainUntil e"
          using vo(2) by (auto simp: lockedEntry_def)
        then have "e \<noteq> v ! i" using i(2) xv by auto
        then have "e \<in> set v'" using e(1) unfolding v'_def by (subst (asm) v) auto
        then show ?thesis using e by (auto simp: lockedEntry_def)
      qed
      then have ne: "v' \<noteq> []" by (auto simp: lockedEntry_def)
      define s2 where "s2 = removeVersionFiles env b key x s"
      have k2: "kept b key vid m T cur s2" and lg2: "logged b key v s2"
        unfolding s2_def using kept_removeFiles [OF ord k xp xv] lg by auto
      have pl: "plainName (VlogID (last v'))" using ok' ne last_in_set [OF ne] by (auto simp: vlogOK_def)
      define s3 where "s3 = (if i = length v - 1 \<and> \<not> DeleteMarker (last v') then promoteLast env b key v' s2 else s2)"
      have "\<exists>c. kept b key vid m T c s3" and lg3: "logged b key v s3"
        unfolding s3_def using kept_promote [OF ord k2 pl] k2 lg2 by auto
      then obtain c where k3: "kept b key vid m T c s3" by blast
      obtain rw s4 where wv: "writeVlog b key v' s3 = (rw, s4)" by fastforce
      have wv': "writeVlog b key v' (if i = length v - Suc 0 \<and> \<not> DeleteMarker (last v') then promoteLast env b key v' s2 else s2) = (rw, s4)"
        using wv by (simp add: s3_def)
      have "s' = s4"
        using op Some False ne wv'
        by (auto simp: deleteVersion_def Let_def simp flip: x_def v'_def s2_def split: option.splits)
      then show ?thesis using kept_writeVlog(2,3) [OF k3 lg3 wv] ok' le by (auto simp: lockedVersion_def)
    qed
  qed
qed

lemma locked_delete:
  assumes ord: "order_ok env" and lv: "lockedVersion b key vid until m T v s" and ns: "\<not> oVersionSuspended opts"
    and new: "plainName (dVid dr)" "dVid dr \<notin> VlogID ` set v" and now: "dNow dr < until" "0 < until"
    and op: "deleteVersionedOn env dr b key opts s = (r, s')"
  shows "\<exists>v'. lockedVersion b key vid until m T v' s'"
proof -
  obtain v1 s1 where rv: "readVlog b key s = (v1, s1)" by fastforce
  note l1 = lockedVersion_readVlog [OF lv rv]
  show ?thesis
    using op rv l1(1) locked_marker [OF ord l1(2) ns new, of r s'] locked_deleteVersion [OF ord l1(2) now, of opts r s']
    by (auto simp: deleteVersionedOn_def split: if_splits)
qed

lemma locked_update:
  assumes ord: "order_ok env" and lv: "lockedVersion b key vid until m T v s" and i: "i < length v"
    and e: "VlogID e = VlogID (v ! i)"
    and keep: "VlogID (v ! i) = vid \<Longrightarrow> VLockMode e = ''COMPLIANCE'' \<and> until \<le> VRetainUntil e"
    and op: "updateEntry env b key i e v s = (r, s')"
  shows "\<exists>v'. lockedVersion b key vid until m T v' s'"
proof -
  obtain cur where k: "kept b key vid m T cur s" and lg: "logged b key v s" and vo: "vlogOK v" "lockedEntry vid until v"
    using lv by (auto simp: lockedVersion_def)
  obtain rw s1 where wv: "writeVlog b key (v[i := e]) s = (rw, s1)" by fastforce
  note kw = kept_writeVlog [OF k lg wv]
  have s': "s' = syncCurrentLock env b key e s1" using op wv kw(1) by (simp add: updateEntry_def)
  have ids: "map VlogID (v[i := e]) = map VlogID v" using e i by (metis list_update_id map_update nth_map)
  have "vlogOK (v[i := e])"
    using vo(1) ids e i unfolding vlogOK_def by (metis image_set in_set_conv_nth image_iff)
  moreover have "lockedEntry vid until (v[i := e])"
  proof -
    obtain j where j: "j < length v" "VlogID (v ! j) = vid" "VLockMode (v ! j) = ''COMPLIANCE''" "until \<le> VRetainUntil (v ! j)"
      using vo(2) by (auto simp: lockedEntry_def in_set_conv_nth)
    show ?thesis
    proof (cases "j = i")
      case True
      then show ?thesis using keep j(2) e i by (auto simp: lockedEntry_def intro!: bexI [of _ e] set_update_memI)
    next
      case False
      then have "v[i := e] ! j = v ! j" by simp
      then show ?thesis using j by (auto simp: lockedEntry_def in_set_conv_nth intro!: bexI [of _ "v ! j"] exI [of _ j])
    qed
  qed
  ultimately show ?thesis
    using kept_sync [OF ord kw(2), where e = e] kw(3) unfolding s' lockedVersion_def by blast
qed

lemma findVlogEntry_cases:
  assumes "readVlog b key s = (v, s1)" "v \<noteq> []"
  shows "findVlogEntry b key x s = (Inl OObjectNotFound, s1) \<or> (\<exists>i < length v. findVlogEntry b key x s = (Inr (i, v), s1))"
proof (cases "x = []")
  case True
  then show ?thesis using assms by (auto simp: findVlogEntry_def)
next
  case False
  then show ?thesis using assms findEntry_Some [of x 0 v] by (cases "findEntry x 0 v") (auto simp: findVlogEntry_def)
qed

lemma locked_retention:
  assumes ord: "order_ok env" and lv: "lockedVersion b key vid until m T v s" and now: "now < until" "0 < until"
    and op: "putRetentionOn env now b key x mode u byp s = (r, s')"
  shows "\<exists>v'. lockedVersion b key vid until m T v' s'"
proof -
  obtain v1 s1 where rv: "readVlog b key s = (v1, s1)" by fastforce
  note l1 = lockedVersion_readVlog [OF lv rv]
  have vo: "vlogOK v" "lockedEntry vid until v" "v \<noteq> []" using l1(2) by (auto simp: lockedVersion_def lockedEntry_def)
  consider "s' = s1" | i where "i < length v" "\<not> retentionRefused now mode u byp (v ! i)"
      "updateEntry env b key i ((v ! i)\<lparr>VLockMode := mode, VRetainUntil := u\<rparr>) v s1 = (r, s')"
    using op findVlogEntry_cases [of b key s v s1 x] rv l1(1) vo(3)
    by (auto simp: putRetentionOn_def split: if_splits)
  then show ?thesis
  proof cases
    case 1
    then show ?thesis using l1(2) by blast
  next
    case 2
    have "VLockMode ((v ! i)\<lparr>VLockMode := mode, VRetainUntil := u\<rparr>) = ''COMPLIANCE''
        \<and> until \<le> VRetainUntil ((v ! i)\<lparr>VLockMode := mode, VRetainUntil := u\<rparr>)" if "VlogID (v ! i) = vid"
      using lockedEntry_blocks(2,3) [OF vo(2,1) 2(1) that now] 2(2) now by (auto simp: retentionRefused_def Let_def)
    then show ?thesis using locked_update [OF ord l1(2) 2(1) _ _ 2(3)] by simp
  qed
qed

lemma locked_legalHold:
  assumes ord: "order_ok env" and lv: "lockedVersion b key vid until m T v s" and "0 < until"
    and op: "putLegalHoldOn env b key x status s = (r, s')"
  shows "\<exists>v'. lockedVersion b key vid until m T v' s'"
proof -
  obtain v1 s1 where rv: "readVlog b key s = (v1, s1)" by fastforce
  note l1 = lockedVersion_readVlog [OF lv rv]
  have vo: "vlogOK v" "lockedEntry vid until v" "v \<noteq> []" using l1(2) by (auto simp: lockedVersion_def lockedEntry_def)
  consider "s' = s1" | i where "i < length v"
      "updateEntry env b key i ((v ! i)\<lparr>VLegalHold := (status = ''ON'')\<rparr>) v s1 = (r, s')"
    using op findVlogEntry_cases [of b key s v s1 x] rv l1(1) vo(3)
    by (auto simp: putLegalHoldOn_def split: if_splits)
  then show ?thesis
  proof cases
    case 1
    then show ?thesis using l1(2) by blast
  next
    case 2
    then show ?thesis
      using locked_update [OF ord l1(2) 2(1) _ _ 2(2)] lockedEntry_blocks(2,3) [OF vo(2,1) 2(1), of "until - 1"] assms(3) by simp
  qed
qed

end
