(* ===== verification/Retention.thy ===== *)
theory Retention
  imports ObjectLock
begin

text \<open>
  Object lock end to end: a put with a COMPLIANCE lock establishes the invariant of \<open>ObjectLock\<close>, every
  request keeps it, and a read of the version depends only on what the invariant keeps.
\<close>

subsection \<open>Reads depend on the version's files only\<close>

text \<open>Two directories, on two states of a set, that show the same part files.\<close>

definition sameParts :: "string \<Rightarrow> string \<Rightarrow> eset \<Rightarrow> string \<Rightarrow> eset \<Rightarrow> bool" where
  "sameParts b k s k' s' \<longleftrightarrow> set_ok s \<and> set_ok s' \<and> ec s' = ec s \<and> setN s' = setN s \<and>
     (\<forall>i < setN s. \<forall>n. shown (disks s' ! i) (dpath b k' @ [partFile n]) = shown (disks s ! i) (dpath b k @ [partFile n]))"

lemma sameParts_same_store:
  "sameParts b k s k' s' \<Longrightarrow> same_store s t \<Longrightarrow> same_store s' t' \<Longrightarrow> sameParts b k t k' t'"
  using same_store_set_ok [of s t] same_store_set_ok [of s' t'] same_store_length [of s t] same_store_length [of s' t']
    same_store_view(3) [of s t] same_store_view(3) [of s' t']
  by (auto simp: sameParts_def setN_def same_store_def)

lemma sameParts_open:
  assumes "sameParts b k s k' s'"
  shows "fst (openShards b k' n off s') = fst (openShards b k n off s)"
  using assms openShards_streams [of s b k n off] openShards_streams [of s' b k' n off]
  by (auto simp: sameParts_def set_ok_def setN_def list_eq_iff_nth_eq)

lemma readPart_keeps: "same_store s (snd (snd (snd (readPart env b k m pm skip rem s))))"
proof -
  have mrf: "same_store s (callMrf b k t) = same_store s t" for t by (simp add: same_store_def callMrf_def)
  show ?thesis
    unfolding readPart_def Let_def split_beta
    by (simp only: if_distrib [of snd] if_distrib [of "same_store s"] prod.sel mrf openShards_keeps same_store_refl if_cancel)
qed

lemma readParts_keeps: "same_store s (snd (snd (readParts env b k m pms skip rem s)))"
proof (induction pms arbitrary: skip rem s)
  case (Cons pm pms)
  obtain out e rem' s1 where p: "readPart env b k m pm skip rem s = (out, e, rem', s1)" by (metis prod_cases4)
  have "same_store s s1" using readPart_keeps [of s env b k m pm skip rem] p by simp
  then show ?case using Cons.IH same_store_trans p by (auto simp: split_beta split: option.splits)
qed simp

lemma getObjectMeta_keeps: "same_store s (snd (snd (getObjectMeta env b k m off len s)))"
  by (cases "Inline m")
    (simp_all only: getObjectMeta_def Let_def option.case if_distrib [of snd] if_distrib [of "same_store s"] prod.sel
      readParts_keeps same_store_refl if_cancel)

definition readsAlike :: "xlMeta \<Rightarrow> xlMeta \<Rightarrow> bool" where
  "readsAlike m m' \<longleftrightarrow> relocked m m' \<and> DataRef m = []"

lemma readsAlike_sel:
  assumes "readsAlike m m'"
  shows "Erasure m' = Erasure m" "verifiableETag m' = verifiableETag m" "dataLoc m' b k = (b, k)" "dataLoc m b k = (b, k)"
    "MSize m' = MSize m" "Inline m' = Inline m" "ETag m' = ETag m" "Parts m' = Parts m" "Tier m' = Tier m" "TierKey m' = TierKey m"
    "Compressed m' = Compressed m" "SSE m' = SSE m" "EncDEK m' = EncDEK m" "NoncePrefix m' = NoncePrefix m"
    "logicalSize m' = logicalSize m" "VersionID m' = VersionID m" "metaToInfo b k m' = metaToInfo b k m"
  using assms
  by (auto simp: readsAlike_def relocked_def fun_eq_iff verifiableETag_def dataLoc_def logicalSize_def metaToInfo_def)

lemma readPart_alike:
  assumes "sameParts b k s k' s'" "readsAlike m m'"
  shows "fst (readPart env b k' m' pm skip rem s') = fst (readPart env b k m pm skip rem s)"
    "fst (snd (readPart env b k' m' pm skip rem s')) = fst (snd (readPart env b k m pm skip rem s))"
    "fst (snd (snd (readPart env b k' m' pm skip rem s'))) = fst (snd (snd (readPart env b k m pm skip rem s)))"
proof -
  have e: "ec s' = ec s" "setN s' = setN s" using assms(1) by (auto simp: sameParts_def)
  note rw = readPart_def Let_def split_beta prod.sel if_distrib [of fst] if_distrib [of snd] e sameParts_open [OF assms(1)]
    readsAlike_sel(1-4) [OF assms(2)]
  show "fst (readPart env b k' m' pm skip rem s') = fst (readPart env b k m pm skip rem s)"
    "fst (snd (readPart env b k' m' pm skip rem s')) = fst (snd (readPart env b k m pm skip rem s))"
    "fst (snd (snd (readPart env b k' m' pm skip rem s'))) = fst (snd (snd (readPart env b k m pm skip rem s)))"
    by (simp_all only: rw)
qed

lemma readParts_alike:
  assumes "sameParts b k s k' s'" "readsAlike m m'"
  shows "fst (readParts env b k' m' pms skip rem s') = fst (readParts env b k m pms skip rem s) \<and>
    fst (snd (readParts env b k' m' pms skip rem s')) = fst (snd (readParts env b k m pms skip rem s))"
  using assms(1)
proof (induction pms arbitrary: skip rem s s')
  case (Cons pm pms)
  obtain out e rem1 t where p: "readPart env b k m pm skip rem s = (out, e, rem1, t)" by (metis prod_cases4)
  obtain t' where p': "readPart env b k' m' pm skip rem s' = (out, e, rem1, t')"
    using readPart_alike [OF Cons.prems assms(2), of env pm skip rem] p by (metis fst_conv snd_conv prod.collapse)
  have "sameParts b k t k' t'"
    using sameParts_same_store [OF Cons.prems] readPart_keeps [of s env b k m pm skip rem] readPart_keeps [of s' env b k' m' pm skip rem]
    by (simp add: p p')
  then show ?case using Cons.IH [of t t'] Cons.IH [OF Cons.prems] p p' by (auto simp: split_beta split: option.splits)
qed simp

lemma getObjectMeta_alike:
  assumes "sameParts b k s k' s'" "readsAlike m m'"
  shows "fst (getObjectMeta env b k' m' off len s') = fst (getObjectMeta env b k m off len s) \<and>
    fst (snd (getObjectMeta env b k' m' off len s')) = fst (snd (getObjectMeta env b k m off len s))"
  by (cases "Inline m")
    (simp_all only: getObjectMeta_def Let_def option.case if_distrib [of fst] if_distrib [of snd] prod.sel
      readsAlike_sel(2,5-8) [OF assms(2)] readParts_alike [OF assms] simp_thms)

lemma decryptReader_alike: "readsAlike m m' \<Longrightarrow> decryptReader a k m' = decryptReader a k m"
  unfolding fun_eq_iff decryptReader_def by (simp only: readsAlike_sel(13,14)) simp

lemma serveObject_alike:
  assumes "sameParts b k s k' s'" "readsAlike m m'"
  shows "fst (serveObject pe km b k' m' oi rs s') = fst (serveObject pe km b k m oi rs s)"
proof -
  have "fst (streamFrom pe km b k' m' off len s') = fst (streamFrom pe km b k m off len s)" for off len
    using getObjectMeta_alike [OF assms, of "senvOf pe"] readsAlike_sel [OF assms(2)] decryptReader_alike [OF assms(2)]
    by (simp add: streamFrom_def split_beta getTiered_def split: option.split)
  then show ?thesis
    using readsAlike_sel [OF assms(2)] by (simp add: serveObject_def Let_def split_beta split: sum.split)
qed

subsection \<open>Requests do not change which disks work\<close>

definition sig :: "eset \<Rightarrow> erasure \<times> nat \<times> nat set" where
  "sig s = (ec s, setN s, {i. i < setN s \<and> up (disks s ! i)})"

lemma sig_up:
  assumes "sig s' = sig s" "i < setN s'" "up (disks s' ! i)"
  shows "i < setN s" "up (disks s ! i)"
proof -
  have "i \<in> snd (snd (sig s'))" using assms(2,3) by (simp add: sig_def)
  then have "i \<in> snd (snd (sig s))" unfolding assms(1) .
  then show "i < setN s" "up (disks s ! i)" by (simp_all add: sig_def)
qed

lemma sig_within: "withinS R s s' \<Longrightarrow> sig s' = sig s"
  using withinS_setN [of R s s'] withinS_nth [of R s s'] within_up(1) [of R] by (auto simp: sig_def)

lemma sig_same: "same_store s s' \<Longrightarrow> sig s' = sig s"
  by (rule sig_within [OF withinS_same_store [where R = "[]"]])

lemma sig_ops:
  "sig (snd (forEachDisk (WriteAll b ob c) s)) = sig s" "sig (snd (forEachDisk (RenameDir b ob b' ob') s)) = sig s"
  "sig (snd (forEachDisk (Delete b ob True) s)) = sig s" "sig (snd (readMeta env b key s)) = sig s"
  "sig (snd (readVlog b key s)) = sig s" "sig (snd (putObjectSSE env id1 id2 now b key pss um sp False s)) = sig s"
  by (rule sig_within, rule withinS_forEachDisk, rule frame)+
    (rule sig_same [OF readMeta_keeps] sig_same [OF readVlog_keeps] sig_within [OF withinS_put])+

lemma sig_writeVlog: "sig (snd (writeVlog b key v s)) = sig s"
  by (simp add: writeVlog_def split_beta sig_ops)

lemma sig_archive: "sig (snd (archiveCurrent env b key s)) = sig s"
  by (simp add: archiveCurrent_def split_beta sig_ops Let_def split: sum.split)

lemma sig_resolve: "sig (snd (resolveVersionDir env b key x s)) = sig s"
  by (simp add: resolveVersionDir_def split_beta sig_ops split: sum.split)

lemma sig_put: "sig (snd (putVersionOn pe km dr b key data sz opts s)) = sig s"
  by (simp add: putVersionOn_def split_beta sig_ops sig_archive sig_writeVlog Let_def split: sum.split option.split)

lemma sig_delete: "sig (snd (deleteVersionedOn env dr b key opts s)) = sig s"
proof -
  have r: "sig (removeVersionFiles env b key x s) = sig s" for x s
    by (simp add: removeVersionFiles_def split_beta sig_ops sig_resolve split: option.split)
  have p: "sig (promoteLast env b key v s) = sig s" for v s
    by (simp add: promoteLast_def split_beta sig_ops)
  have m: "sig (snd (addDeleteMarker env dr b key opts v s)) = sig s" for v s
    by (simp add: addDeleteMarker_def split_beta sig_ops sig_archive sig_writeVlog Let_def split: sum.split option.split)
  have d: "sig (snd (deleteVersion env dr b key opts v s)) = sig s" for v s
    by (simp add: deleteVersion_def split_beta sig_ops sig_writeVlog r p Let_def split: sum.split option.split)
  show ?thesis by (simp add: deleteVersionedOn_def split_beta m d sig_ops)
qed

lemma sig_locks:
  "sig (snd (putRetentionOn env now b key x mode u byp s)) = sig s" "sig (snd (putLegalHoldOn env b key x status s)) = sig s"
proof -
  have f: "sig (snd (findVlogEntry b key x s)) = sig s" for x s by (simp add: findVlogEntry_def split_beta sig_ops)
  have y: "sig (syncCurrentLock env b key e s) = sig s" for e s
    by (simp add: syncCurrentLock_def split_beta sig_ops Let_def split: sum.split)
  have u: "sig (snd (updateEntry env b key i e v s)) = sig s" for i e v s
    by (simp add: updateEntry_def split_beta sig_writeVlog y split: option.split)
  show "sig (snd (putRetentionOn env now b key x mode u byp s)) = sig s" "sig (snd (putLegalHoldOn env b key x status s)) = sig s"
    by (simp_all add: putRetentionOn_def putLegalHoldOn_def split_beta u f split: sum.split)
qed

subsection \<open>Reading the locked version\<close>

lemma heldIn_sameParts:
  assumes "heldIn (dpath b k) m1 T s" "heldIn (dpath b k') m2 T s'" "set_ok s" "set_ok s'" "sig s' = sig s"
  shows "sameParts b k s k' s'"
proof -
  have n: "ec s' = ec s" "setN s' = setN s" using assms(5) by (simp_all add: sig_def)
  then have u: "{i. i < setN s \<and> up (disks s' ! i)} = {i. i < setN s \<and> up (disks s ! i)}"
    using assms(5) by (simp add: sig_def)
  have "shown (disks s' ! i) (dpath b k' @ [partFile j]) = shown (disks s ! i) (dpath b k @ [partFile j])" if i: "i < setN s" for i j
  proof -
    have ui: "up (disks s' ! i) = up (disks s ! i)" using u i by blast
    have "at (disks s' ! i) (dpath b k' @ [partFile j]) = at (disks s ! i) (dpath b k @ [partFile j])" if "up (disks s ! i)"
      using assms(1,2) i n(2) ui that partFile_not_meta [of j] unfolding heldIn_def onUp_def by metis
    then show ?thesis using ui by (simp add: shown_def)
  qed
  then show ?thesis using assms(3,4) n by (simp add: sameParts_def)
qed

lemma resolve_locked:
  assumes ord: "order_ok env" and k: "kept b key vid m T cur s"
  shows "fst (resolveVersionDir env b key vid s) = Some (if cur then (key, True) else (vsDir key vid, False))"
    and "\<exists>m'. relocked m m' \<and> heldIn (dpath b (if cur then key else vsDir key vid)) m' T s
       \<and> (\<forall>t. same_store s t \<longrightarrow> fst (readMeta env b (if cur then key else vsDir key vid) t) = Inr m')"
proof -
  have nm: "names_ok b key" by (rule kept_names [OF k])
  obtain m' where m': "relocked m m'" "placed b key vid m' T cur s" and st: "steadySet s" and vo: "version_ok b key vid m"
    using k by (auto simp: kept_def)
  have vid: "plainName vid" "vid \<noteq> []" "vid \<noteq> nullVersionID" "VersionID m' = vid"
    using vo relocked_ID [OF m'(1)] by (auto simp: version_ok_def plainName_def)
  have lp: "dpath b key = liveP b key" by (rule dpath_live [OF nm])
  have vp: "dpath b (vsDir key vid) = vsP b key vid" by (rule dpath_vs [OF nm vid(1)])
  define dir where "dir = (if cur then key else vsDir key vid)"
  have h: "heldIn (dpath b dir) m' T s" using m'(2) by (simp add: dir_def lp vp placed_def split: if_splits)
  have rd: "fst (readMeta env b dir t) = Inr m'" if "same_store s t" for t
  proof -
    have w: "withinS [] s t" by (rule withinS_same_store [OF that])
    have "heldIn (dpath b dir) m' T t" by (rule heldIn_within [OF w h]) simp
    then show ?thesis
      using steadySet_within [OF w st] by (intro readMeta_unanimous [OF ord]) (auto simp: heldIn_def onUp_def)
  qed
  show "\<exists>m'. relocked m m' \<and> heldIn (dpath b (if cur then key else vsDir key vid)) m' T s
       \<and> (\<forall>t. same_store s t \<longrightarrow> fst (readMeta env b (if cur then key else vsDir key vid) t) = Inr m')"
    using m'(1) h rd unfolding dir_def by blast
  show "fst (resolveVersionDir env b key vid s) = Some (if cur then (key, True) else (vsDir key vid, False))"
  proof (cases cur)
    case True
    then show ?thesis using rd [OF same_store_refl] vid by (simp add: resolveVersionDir_def split_beta dir_def)
  next
    case False
    have "fst (readMeta env b (vsDir key vid) (snd (readMeta env b key s))) = Inr m'"
      using rd [OF readMeta_keeps] False by (simp add: dir_def)
    moreover have "otherID vid m2" if "fst (readMeta env b key s) = Inr m2" for m2
      using readMeta_from [of s env b key m2] that st m'(2) False lp
      by (auto simp: steadySet_def placed_def othersIn_def onUp_def)
    ultimately show ?thesis
      using False vid by (auto simp: resolveVersionDir_def split_beta otherID_def split: sum.split)
  qed
qed

lemma resolve_keeps: "same_store s (snd (resolveVersionDir env b key x s))"
  using readMeta_keeps same_store_trans [OF readMeta_keeps readMeta_keeps]
  by (simp add: resolveVersionDir_def split_beta split: sum.split)

lemma get_locked:
  assumes ord: "order_ok (senvOf pe)" and k: "kept b key vid m T cur s" and o: "oVersionID opts = vid"
  shows "\<exists>m' t. relocked m m' \<and> same_store s t \<and> heldIn (dpath b (if cur then key else vsDir key vid)) m' T t
     \<and> fst (getVersionedOn pe km b key rs opts s) =
         (let oi = withVersionID m' (metaToInfo b key m') in
          if (case oCheckPrecondFn opts of Some f \<Rightarrow> f oi | None \<Rightarrow> False) then Inl OPreconditionFailed
          else fst (serveObject pe km b (if cur then key else vsDir key vid) m' oi rs t))"
proof -
  define dir where "dir = (if cur then key else vsDir key vid)"
  obtain m' where m': "relocked m m'" "heldIn (dpath b dir) m' T s"
      "\<forall>t. same_store s t \<longrightarrow> fst (readMeta (senvOf pe) b dir t) = Inr m'"
    using resolve_locked(2) [OF ord k] unfolding dir_def by blast
  obtain r1 s1 where rs: "resolveVersionDir (senvOf pe) b key vid s = (r1, s1)" by fastforce
  have r1: "r1 = Some (dir, cur)" using resolve_locked(1) [OF ord k] rs by (simp add: dir_def split: if_splits)
  have ss: "same_store s s1" using resolve_keeps [of s "senvOf pe" b key vid] rs by simp
  obtain r2 t where rd: "readMeta (senvOf pe) b dir s1 = (r2, t)" by fastforce
  have r2: "r2 = Inr m'" using m'(3) ss rd by (metis fst_conv)
  have st: "same_store s t" using same_store_trans [OF ss readMeta_keeps [of s1 "senvOf pe" b dir]] rd by simp
  have "heldIn (dpath b dir) m' T t" by (rule heldIn_within [OF withinS_same_store [OF st, of "[]"] m'(2)]) simp
  then show ?thesis
    using m'(1) st rs r1 rd r2 o unfolding dir_def [symmetric]
    by (intro exI [of _ m'] exI [of _ t]) (simp add: getVersionedOn_def Let_def)
qed

lemma get_stable:
  assumes ord: "order_ok (senvOf pe)" and l: "kept b key vid m T cur s" "kept b key vid m T cur' s'" and dr: "DataRef m = []"
    and sg: "sig s' = sig s" and o: "oVersionID opts = vid"
  shows "fst (getVersionedOn pe km b key rs opts s') = fst (getVersionedOn pe km b key rs opts s)"
proof -
  let ?d = "if cur then key else vsDir key vid" and ?d' = "if cur' then key else vsDir key vid"
  obtain m1 t where 1: "relocked m m1" "same_store s t" "heldIn (dpath b ?d) m1 T t"
      "fst (getVersionedOn pe km b key rs opts s) = (let oi = withVersionID m1 (metaToInfo b key m1) in
          if (case oCheckPrecondFn opts of Some f \<Rightarrow> f oi | None \<Rightarrow> False) then Inl OPreconditionFailed
          else fst (serveObject pe km b ?d m1 oi rs t))"
    using get_locked [OF ord l(1) o] by blast
  obtain m2 t' where 2: "relocked m m2" "same_store s' t'" "heldIn (dpath b ?d') m2 T t'"
      "fst (getVersionedOn pe km b key rs opts s') = (let oi = withVersionID m2 (metaToInfo b key m2) in
          if (case oCheckPrecondFn opts of Some f \<Rightarrow> f oi | None \<Rightarrow> False) then Inl OPreconditionFailed
          else fst (serveObject pe km b ?d' m2 oi rs t'))"
    using get_locked [OF ord l(2) o] by blast
  have "set_ok s" "set_ok s'" using l by (auto simp: kept_def steadySet_def)
  then have ok: "set_ok t" "set_ok t'" using same_store_set_ok 1(2) 2(2) by blast+
  have "sig t' = sig t" using sig_same [OF 1(2)] sig_same [OF 2(2)] sg by simp
  then have sp: "sameParts b ?d t ?d' t'" by (rule heldIn_sameParts [OF 1(3) 2(3) ok])
  have "relocked m1 m2" using 1(1) 2(1) by (cases m) (auto simp: relocked_def)
  then have al: "readsAlike m1 m2" using 1(1) dr by (auto simp: readsAlike_def relocked_def)
  have "withVersionID m2 (metaToInfo b key m2) = withVersionID m1 (metaToInfo b key m1)"
    using readsAlike_sel [OF al] by (simp add: withVersionID_def)
  then show ?thesis using 1(4) 2(4) serveObject_alike [OF sp al] by (simp add: Let_def)
qed

subsection \<open>Sequences of requests\<close>

datatype request = RPut draws reader int objectOptions | RDelete draws objectOptions
  | RRetention time string string time bool | RLegalHold string string | RGet "rangeSpec option" objectOptions

fun serve :: "penv \<Rightarrow> kms option \<Rightarrow> string \<Rightarrow> string \<Rightarrow> request \<Rightarrow> eset \<Rightarrow> eset" where
  "serve pe km b key (RPut dr data sz opts) s = snd (putVersionOn pe km dr b key data sz opts s)"
| "serve pe km b key (RDelete dr opts) s = snd (deleteVersionedOn (senvOf pe) dr b key opts s)"
| "serve pe km b key (RRetention now x mode u byp) s = snd (putRetentionOn (senvOf pe) now b key x mode u byp s)"
| "serve pe km b key (RLegalHold x status) s = snd (putLegalHoldOn (senvOf pe) b key x status s)"
| "serve pe km b key (RGet rs opts) s = snd (getVersionedOn pe km b key rs opts s)"

text \<open>
  The requests of a bucket with versioning enabled, made before time \<open>until\<close>, with identifiers that
  have not been drawn before.
\<close>

definition freshID :: "string \<Rightarrow> string \<Rightarrow> string \<Rightarrow> eset \<Rightarrow> bool" where
  "freshID b key vid s \<longleftrightarrow> plainName vid \<and> vid \<notin> VlogID ` set (fst (readVlog b key s))"

definition freshStaging :: "string \<Rightarrow> eset \<Rightarrow> bool" where
  "freshStaging id1 s \<longleftrightarrow> plainName id1 \<and> (\<forall>d \<in> set (disks s). fresh (dpath [] (pjoin tmpPrefix id1)) d)"

fun admissible :: "string \<Rightarrow> string \<Rightarrow> time \<Rightarrow> request \<Rightarrow> eset \<Rightarrow> bool" where
  "admissible b key until (RPut dr data sz opts) s \<longleftrightarrow>
     \<not> oVersionSuspended opts \<and> freshID b key (dVid dr) s \<and> freshStaging (dId1 dr) s"
| "admissible b key until (RDelete dr opts) s \<longleftrightarrow> \<not> oVersionSuspended opts \<and> freshID b key (dVid dr) s \<and> dNow dr < until"
| "admissible b key until (RRetention now x mode u byp) s \<longleftrightarrow> now < until"
| "admissible b key until (RLegalHold x status) s \<longleftrightarrow> True"
| "admissible b key until (RGet rs opts) s \<longleftrightarrow> True"

inductive served :: "penv \<Rightarrow> kms option \<Rightarrow> string \<Rightarrow> string \<Rightarrow> time \<Rightarrow> eset \<Rightarrow> eset \<Rightarrow> bool" for pe km b key until where
  served_nil: "served pe km b key until s s"
| served_step: "served pe km b key until s s1 \<Longrightarrow> admissible b key until rq s1 \<Longrightarrow> served pe km b key until s (serve pe km b key rq s1)"

lemma getVersionedOn_keeps: "same_store s (snd (getVersionedOn pe km b key rs opts s))"
proof -
  have st: "same_store s (snd (streamFrom pe km b k m off len s))" for k m off len s
    using getObjectMeta_keeps by (simp add: streamFrom_def split_beta split: option.split)
  have sv: "same_store s (snd (serveObject pe km b k m oi rs s))" for k m oi s
    using st by (simp add: serveObject_def Let_def split_beta split: sum.split)
  have a: "same_store s (snd (readMeta (senvOf pe) b k (snd (resolveVersionDir (senvOf pe) b key x s))))" for k x
    by (rule same_store_trans [OF resolve_keeps readMeta_keeps])
  show ?thesis
    using sv same_store_trans [OF a sv] a resolve_keeps
    by (simp add: getVersionedOn_def split_beta Let_def split: option.split sum.split)
qed

lemma sig_serve: "sig (serve pe km b key rq s) = sig s"
  by (cases rq) (simp_all add: sig_put sig_delete sig_locks sig_same [OF getVersionedOn_keeps])

lemma locked_serve:
  assumes ord: "order_ok (senvOf pe)" and lv: "lockedVersion b key vid until m T v s" and "0 < until"
    and ad: "admissible b key until rq s"
  shows "\<exists>v'. lockedVersion b key vid until m T v' (serve pe km b key rq s)"
proof -
  obtain r1 s1 where rv: "readVlog b key s = (r1, s1)" by fastforce
  have v: "fst (readVlog b key s) = v" using lockedVersion_readVlog(1) [OF lv rv] rv by simp
  show ?thesis
  proof (cases rq)
    case (RPut dr data sz opts)
    then show ?thesis
      using locked_put [OF ord lv _ _ _ _ _ prod.collapse [symmetric], of opts dr] ad v
      by (auto simp: freshID_def freshStaging_def)
  next
    case (RDelete dr opts)
    then show ?thesis
      using locked_delete [OF ord lv _ _ _ _ assms(3) prod.collapse [symmetric], of opts dr] ad v by (auto simp: freshID_def)
  next
    case (RRetention now x mode u byp)
    then show ?thesis using locked_retention [OF ord lv _ assms(3) prod.collapse [symmetric], of now] ad by simp
  next
    case (RLegalHold x status)
    then show ?thesis using locked_legalHold [OF ord lv assms(3) prod.collapse [symmetric]] by simp
  next
    case (RGet rs opts)
    have "same_store s (serve pe km b key rq s)" using RGet getVersionedOn_keeps by simp
    then show ?thesis using lv kept_same logged_same unfolding lockedVersion_def by blast
  qed
qed

lemma locked_served:
  assumes "served pe km b key until s s'" "order_ok (senvOf pe)" "lockedVersion b key vid until m T v s" "0 < until"
  shows "(\<exists>v'. lockedVersion b key vid until m T v' s') \<and> sig s' = sig s"
  using assms(1,3)
proof (induction rule: served.induct)
  case (served_nil s)
  then show ?case by blast
next
  case (served_step s s1 rq)
  then show ?case using locked_serve [OF assms(2) _ assms(4)] sig_serve by metis
qed

subsection \<open>A put establishes the lock\<close>

text \<open>
  A key that is ready for a new version \<open>vid\<close>: the version log is \<open>v\<close> on every working disk, nothing foreign is
  in the way, and the identifier is not in use.
\<close>

definition readyFor :: "string \<Rightarrow> string \<Rightarrow> string \<Rightarrow> vlogEntry list \<Rightarrow> eset \<Rightarrow> bool" where
  "readyFor b key vid v s \<longleftrightarrow> names_ok b key \<and> plainName vid \<and> vid \<noteq> nullVersionID \<and> steadySet s \<and> ways b key s
     \<and> unused b key vid s \<and> vlogOK v \<and> vid \<notin> VlogID ` set v
     \<and> onUp s (\<lambda>i d. at d (vlogP b key) = (if v = [] then None else Some (File (VlogDoc v))))
     \<and> onUp s (\<lambda>i d. (\<forall>c. at d (liveP b key) \<noteq> Some (File c)) \<and> at d (liveP b key @ [metaFile]) \<noteq> Some Dir)"

lemma readVlog_ready:
  assumes "readyFor b key vid v s"
  shows "fst (readVlog b key s) = v"
proof (cases "v = []")
  case False
  then show ?thesis using assms by (intro readVlog_logged) (auto simp: readyFor_def logged_def)
next
  case True
  have nm: "names_ok b key" using assms by (simp add: readyFor_def)
  have "\<forall>d \<in> set (disks s). shown d (dpath b (vlogPath key)) = None \<and> steady d"
    using assms True
    by (auto simp: readyFor_def steadySet_def set_ok_def onUp_def shown_def setN_def in_set_conv_nth dpath_vlog [OF nm])
  then have "fst (readVlogFrom b key (disks s)) = []"
  proof (induction "disks s" arbitrary: s)
    case Nil
    then show ?case by (metis fst_conv readVlogFrom.simps(1))
  next
    case (Cons d ds)
    have "fst (ReadAll b (vlogPath key) d) \<noteq> Inr c" for c
      using ReadAll_shown [of d b "vlogPath key" c] Cons.prems unfolding Cons.hyps(2) [symmetric] by simp
    then obtain e where "fst (ReadAll b (vlogPath key) d) = Inl e" by (cases "fst (ReadAll b (vlogPath key) d)") auto
    moreover have "fst (readVlogFrom b key ds) = []"
      using Cons.hyps(1) [of "s\<lparr>disks := ds\<rparr>"] Cons.prems unfolding Cons.hyps(2) [symmetric] by simp
    ultimately show ?case unfolding Cons.hyps(2) [symmetric] by (simp add: split_beta)
  qed
  then show ?thesis using True by (simp add: readVlog_def split_beta)
qed

lemma commitMeta_meta:
  "fst (commitMeta env stgs b key meta er s) = Inr m \<Longrightarrow> \<exists>r. m = meta\<lparr>Revision := r\<rparr>"
  "commitMeta env stgs b key meta er s = (Inr m, s') \<Longrightarrow> \<exists>r. m = meta\<lparr>Revision := r\<rparr>"
  unfolding commitMeta_def Let_def split_beta by (auto split: if_splits)

lemma put_meta:
  assumes "putObjectSSE env id1 id2 now b key [ps] um sp False s = (Inr m, s')"
  shows "DataRef m = []"
proof -
  define stgs where "stgs = pjoin tmpPrefix id1"
  define bm where "bm = baseMeta now (buildDistribution key (setN s)) um s"
  have bm: "DataRef bm = []" by (simp add: bm_def baseMeta_def)
  have cm: "DataRef m = []" if "fst (commitMeta env stgs b key meta (-1) t) = Inr m" "DataRef meta = []" for meta t
    using commitMeta_meta(1) [OF that(1)] that(2) by auto
  have sf: "DataRef (sseFields sp n x) = DataRef x" for n x by (simp add: sseFields_def split: option.split)
  have fm: "DataRef (finishMeta env c sp [ps] acc bm) = []" for c acc by (simp add: finishMeta_def Let_def sf bm)
  have inl: "DataRef m = []" if "fst (putObjectInline env stgs b key bm ps sp s) = Inr m"
  proof -
    have "\<exists>meta1. fst (commitMeta env stgs b key (sseFields sp (length (rdata (psReader ps))) meta1) (-1) s) = Inr m \<and> DataRef meta1 = []"
    proof (cases "rfails (sealReader sp (psReader ps))")
      case False
      then show ?thesis
        using that unfolding putObjectInline_def Let_def if_not_P [OF False]
        by (intro exI conjI) (assumption, simp add: bm)
    qed (use that in \<open>simp add: putObjectInline_def Let_def\<close>)
    then show ?thesis using cm sf by auto
  qed
  have "fst (putStaged env stgs (pjoin tmpPrefix id2) now b key [ps] um sp False s) = Inr m"
    using assms by (simp add: putObjectSSE_def Let_def stgs_def split_beta)
  then have st: "fst (putStaged env stgs (pjoin tmpPrefix id2) now b key [ps] um sp False s) = Inr m" .
  show ?thesis
  proof (cases "inlines env [ps]")
    case True
    then show ?thesis using st inl unfolding putStaged_plain bm_def [symmetric] by simp
  next
    case False
    obtain r s1 where r: "encodeParts env stgs (buildDistribution key (setN s)) (compresses env [ps] um sp) sp [ps]
        \<lparr>paParts = [], paMD5 = [], paTotal = 0, paPartial = False\<rparr> s = (r, s1)" by fastforce
    obtain acc where acc: "r = Inr acc" using st False r unfolding putStaged_plain by (cases r) simp_all
    obtain r2 s2 where r2: "commitMeta env stgs b key (finishMeta env (compresses env [ps] um sp) sp [ps] acc bm) (-1) s1 = (r2, s2)" by fastforce
    have "r2 = Inr m" using st False r acc r2 unfolding putStaged_plain bm_def [symmetric] by (cases r2) simp_all
    then show ?thesis using cm [OF _ fm] r2 by (metis fst_conv)
  qed
qed

lemma onUp_apart:
  assumes "withinS R s s'" "onUp s (\<lambda>i d. P (at d q))" "\<forall>r \<in> set R. apart r q"
  shows "onUp s' (\<lambda>i d. P (at d q))"
proof (rule onUp_withinS [OF assms(1,2)])
  fix i d d'
  assume w: "within R d d'" and p: "P (at d q)"
  show "P (at d' q)" unfolding within_at [OF w assms(3)] by (rule p)
qed

lemma liveCasesS_ready:
  assumes "liveCasesS b key s s'" "sig s' = sig s" "names_ok b key"
    and "onUp s (\<lambda>i d. (\<forall>c. at d (liveP b key) \<noteq> Some (File c)) \<and> at d (liveP b key @ [metaFile]) \<noteq> Some Dir)"
  shows "onUp s' (\<lambda>i d. (\<forall>c. at d (liveP b key) \<noteq> Some (File c)) \<and> at d (liveP b key @ [metaFile]) \<noteq> Some Dir)"
  unfolding onUp_def
proof (intro allI impI)
  fix i
  assume i: "i < setN s'" "up (disks s' ! i)"
  note j = sig_up [OF assms(2) i]
  have "liveCases b key (disks s ! i) (disks s' ! i)"
    using assms(1) j(1) by (simp add: liveCasesS_def list_all2_conv_all_nth setN_def)
  then show "(\<forall>c. at (disks s' ! i) (liveP b key) \<noteq> Some (File c)) \<and> at (disks s' ! i) (liveP b key @ [metaFile]) \<noteq> Some Dir"
    using assms(4) j unfolding liveCases_def dpath_live [OF assms(3)] onUp_def by fastforce
qed

lemma writeMeta_holds:
  assumes nm: "names_ok b key" and st: "steadySet s" and wy: "ways b key s"
    and rd: "onUp s (\<lambda>i d. (\<forall>c. at d (liveP b key) \<noteq> Some (File c)) \<and> at d (liveP b key @ [metaFile]) \<noteq> Some Dir)"
    and s': "s' = snd (forEachDisk (WriteAll b (pjoin key metaFile) (marshal m)) s)"
  shows "heldIn (liveP b key) (normMeta m) (\<lambda>i x. at (disks s' ! i) (liveP b key @ [x])) s'"
proof -
  let ?w = "WriteAll b (pjoin key metaFile) (marshal m)"
  have lp: "dpath b key = liveP b key" by (rule dpath_live [OF nm])
  have "clear (liveP b key) (disks s' ! i) \<and> at (disks s' ! i) (liveP b key) = Some Dir
      \<and> at (disks s' ! i) (liveP b key @ [metaFile]) = Some (File (MetaDoc (normMeta m)))"
    if i: "i < setN s" "up (disks s ! i)" for i
  proof -
    have r: "\<forall>c. at (disks s ! i) (liveP b key) \<noteq> Some (File c)" "at (disks s ! i) (liveP b key @ [metaFile]) \<noteq> Some Dir"
        "clear (butlast (liveP b key)) (disks s ! i)" using rd wy i by (auto simp: onUp_def ways_def)
    have "at (disks s ! i) q \<noteq> Some (File c)" if q: "prefix q (liveP b key)" for q c
    proof (cases "q = liveP b key")
      case False
      then have "prefix q (butlast (liveP b key))"
        using q by (metis append_butlast_last_id prefix_snoc prefix_bot.extremum_uniqueI butlast.simps(1))
      then show ?thesis using r(3) by (simp add: clear_def)
    qed (use r(1) in simp)
    then have "clear (liveP b key) (disks s ! i)" by (simp add: clear_def)
    then obtain d' where d': "?w (disks s ! i) = (Inr (), d')"
      using WriteAll_up [OF i(2), of b "pjoin key metaFile" "marshal m"] r(2) lp by auto
    have "disks s' ! i = d'" using i d' by (simp add: s' setN_def)
    then show ?thesis
      using WriteAll_ok(1) [OF d'] by (auto simp: lp clear_def marshal_norm)
  qed
  moreover have "setN s' = setN s" "\<And>i. i < setN s \<Longrightarrow> up (disks s' ! i) = up (disks s ! i)"
    using WriteAll_faults by (auto simp: s' setN_def up_def)
  ultimately show ?thesis by (auto simp: heldIn_def onUp_def)
qed

text \<open>The states a put of a new version goes through: archive, write, stamp the metadata.\<close>

lemma put_states:
  assumes rdy: "readyFor b key vid v s" and fs: "freshStaging (dId1 dr) s"
    and ss1: "same_store s s1" and ar: "archiveCurrent env b key s1 = (ra, s2)"
    and pt: "putObjectSSE env (dId1 dr) (dId2 dr) (dNow dr) b key [ps] um sp False s2 = (rp, s3)"
    and s4: "s4 = snd (forEachDisk (WriteAll b (pjoin key metaFile) (marshal meta)) s3)"
  shows "steadySet s4" "ways b key s4" "onUp s4 (\<lambda>i d. at d (vlogP b key) \<noteq> Some Dir)"
    "heldIn (liveP b key) (normMeta meta) (\<lambda>i x. at (disks s4 ! i) (liveP b key @ [x])) s4"
    "\<forall>x. x \<noteq> vid \<and> plainName x \<longrightarrow> othersIn vid (vsP b key x) s4"
proof -
  have nm: "names_ok b key" and vid: "plainName vid" "vid \<noteq> nullVersionID" and st: "steadySet s" and wy: "ways b key s"
    and un: "unused b key vid s"
    and vl: "onUp s (\<lambda>i d. at d (vlogP b key) = (if v = [] then None else Some (File (VlogDoc v))))"
    and lv: "onUp s (\<lambda>i d. (\<forall>c. at d (liveP b key) \<noteq> Some (File c)) \<and> at d (liveP b key @ [metaFile]) \<noteq> Some Dir)"
    using rdy by (auto simp: readyFor_def)
  have idp: "plainName (dId1 dr)" and fr: "\<forall>d \<in> set (disks s). fresh (dpath [] (pjoin tmpPrefix (dId1 dr))) d"
    using fs by (auto simp: freshStaging_def)
  have lp: "dpath b key = liveP b key" by (rule dpath_live [OF nm])
  have ok1: "set_ok s1" "unused b key vid s1"
    using st same_store_set_ok [OF ss1] unused_same [OF ss1 un] by (auto simp: steadySet_def)
  note au = archive_unused [OF nm vid(2) ok1 ar]
  obtain w where w: "withinS [liveP b key, vsP b key w] s s2"
    using au(2) withinS_trans [OF withinS_same_store [OF ss1]] by blast
  have ok2: "set_ok s2" using steadySet_within [OF w st] by (simp add: steadySet_def)
  have far: "\<forall>r \<in> set [liveP b key, vsP b key w]. apart r (dpath [] (pjoin tmpPrefix (dId1 dr)))"
    using apart_staging [OF nm idp] apart_snoc apart_sym by auto
  have fr2: "\<forall>d \<in> set (disks s2). fresh (dpath [] (pjoin tmpPrefix (dId1 dr))) d" by (rule fresh_within [OF w far fr])
  have w3: "withinS [dpath [] (pjoin tmpPrefix (dId1 dr)), liveP b key] s2 s3"
    using withinS_put [of "dId1 dr" b key s2 env "dId2 dr" "dNow dr" "[ps]" um sp] unfolding pt lp by simp
  have lc3: "liveCasesS b key s2 s3"
    using put_live [OF ok2 idp _ fr2, of b key env "dId2 dr" "dNow dr" ps um sp] apart_staging(6) [OF nm idp] unfolding pt lp by simp
  have w4: "withinS [liveP b key] s3 s4"
    unfolding s4 by (rule withinS_mono [OF withinS_forEachDisk [OF within_WriteAll]]) (simp add: lp)
  have st3: "steadySet s3" by (rule steadySet_within [OF w3 steadySet_within [OF w st]])
  have wy2: "ways b key s2" by (rule ways_live [OF nm w wy]) auto
  have wy3: "ways b key s3" using nm idp by (intro ways_live [OF nm w3 wy2]) (auto simp: staging_dpath names_ok_def)
  show "steadySet s4" by (rule steadySet_within [OF w4 st3])
  show "ways b key s4" by (rule ways_live [OF nm w4 wy3]) auto
  have "liveCasesS b key s s3"
    using liveCasesS_trans [OF liveCasesS_trans [OF liveCasesS_same_store [OF ss1] au(3)] lc3] .
  moreover have "sig s3 = sig s" using sig_within [OF w] sig_within [OF w3] by simp
  ultimately have lv3: "onUp s3 (\<lambda>i d. (\<forall>c. at d (liveP b key) \<noteq> Some (File c)) \<and> at d (liveP b key @ [metaFile]) \<noteq> Some Dir)"
    using liveCasesS_ready nm lv by blast
  show "heldIn (liveP b key) (normMeta meta) (\<lambda>i x. at (disks s4 ! i) (liveP b key @ [x])) s4"
    by (rule writeMeta_holds [OF nm st3 wy3 lv3 s4])
  show "\<forall>x. x \<noteq> vid \<and> plainName x \<longrightarrow> othersIn vid (vsP b key x) s4"
  proof (intro allI impI)
    fix x
    assume "x \<noteq> vid \<and> plainName x"
    then have "othersIn vid (vsP b key x) s2" using au(1) by (simp add: unused_def)
    then have "othersIn vid (vsP b key x) s3"
      using apart_paths(1) [OF nm] apart_snoc(1) [OF apart_staging(2) [OF nm idp]] by (intro othersIn_within [OF w3]) auto
    then show "othersIn vid (vsP b key x) s4" using apart_paths(1) [OF nm] by (intro othersIn_within [OF w4]) auto
  qed
  have "onUp s (\<lambda>i d. at d (vlogP b key) \<noteq> Some Dir)" using vl by (auto simp: onUp_def split: if_splits)
  then have "onUp s2 (\<lambda>i d. at d (vlogP b key) \<noteq> Some Dir)"
    by (rule onUp_apart [OF w]) (use apart_paths(3,5) [OF nm] in auto)
  then have "onUp s3 (\<lambda>i d. at d (vlogP b key) \<noteq> Some Dir)"
    by (rule onUp_apart [OF w3]) (use apart_paths(3) [OF nm] apart_snoc(1) [OF apart_staging(3) [OF nm idp]] in auto)
  then show "onUp s4 (\<lambda>i d. at d (vlogP b key) \<noteq> Some Dir)"
    by (rule onUp_apart [OF w4]) (use apart_paths(3) [OF nm] in auto)
qed

lemma put_establishes:
  assumes rdy: "readyFor b key (dVid dr) v s" and ns: "\<not> oVersionSuspended opts"
    and lk: "oLockMode opts = ''COMPLIANCE''" and fs: "freshStaging (dId1 dr) s"
    and put: "putVersionOn pe km dr b key data sz opts s = (Inr oi, s')"
  shows "\<exists>m T v'. lockedVersion b key (dVid dr) (oLockRetainUntil opts) m T v' s' \<and> DataRef m = []
     \<and> VlogID ` set v' = insert (dVid dr) (VlogID ` set v)"
proof -
  let ?vid = "dVid dr" and ?env = "senvOf pe"
  have nm: "names_ok b key" and vid: "plainName ?vid" "?vid \<noteq> nullVersionID" and vo: "vlogOK v" "?vid \<notin> VlogID ` set v"
    using rdy by (auto simp: readyFor_def)
  obtain s1 where rv: "readVlog b key s = (v, s1)" using readVlog_ready [OF rdy] by (metis prod.collapse)
  have ss1: "same_store s s1" using readVlog_keeps [of s b key] rv by simp
  obtain ra s2 where ar: "archiveCurrent ?env b key s1 = (ra, s2)" by fastforce
  have "\<exists>x. ra = Inr x" using put rv ar ns by (cases ra) (auto simp: putVersionOn_def Let_def)
  then obtain sp meta0 s3 where pt: "putObjectSSE ?env (dId1 dr) (dId2 dr) (dNow dr) b key
      [\<lparr>psNumber = 1, psSize = sz, psReader = data\<rparr>] (toUserMeta opts) sp False s2 = (Inr meta0, s3)"
    and rest: "\<exists>e. writeVlog b key (v @ [vlogEntryOf ?vid (lockFields dr opts ?vid meta0)])
        (snd (forEachDisk (WriteAll b (pjoin key metaFile) (marshal (lockFields dr opts ?vid meta0))) s3)) = (e, s')"
    using put rv ar ns
    by (auto simp: putVersionOn_def Let_def split: sum.splits prod.splits option.splits)
  define meta where "meta = lockFields dr opts ?vid meta0"
  define s4 where "s4 = snd (forEachDisk (WriteAll b (pjoin key metaFile) (marshal meta)) s3)"
  define e where "e = vlogEntryOf ?vid meta"
  define T where "T = (\<lambda>i x. at (disks s4 ! i) (liveP b key @ [x]))"
  have wv: "s' = snd (writeVlog b key (v @ [e]) s4)" using rest by (auto simp: meta_def s4_def e_def)
  note pst = put_states [OF rdy fs ss1 ar pt s4_def]
  note wl = writeVlog_logs [OF nm pst(1-3), of "v @ [e]", folded wv]
  have vID: "VersionID meta = ?vid" "VlogID e = ?vid" "VLockMode e = ''COMPLIANCE''" "VRetainUntil e = oLockRetainUntil opts"
    using lk by (simp_all add: meta_def e_def lockFields_def vlogEntryOf_def Let_def)
  have "placed b key ?vid (normMeta meta) T True s4" using pst(4,5) by (simp add: placed_def T_def)
  moreover have "normMeta (normMeta meta) = normMeta meta" by (simp add: normMeta_def split: option.splits list.splits)
  moreover have "relocked m m" for m by (cases m) (auto simp: relocked_def)
  ultimately have k4: "kept b key ?vid (normMeta meta) T True s4"
    using nm vid vID pst(1,2) unfolding kept_def version_ok_def by auto
  have "\<forall>r \<in> set [vlogP b key]. apart r (liveP b key) \<and> (\<forall>x. apart r (vsP b key x))"
    using apart_paths [OF nm] apart_sym by auto
  from placed_within [OF wl(3) _ this] have "kept b key ?vid (normMeta meta) T True s'"
    using k4 steadySet_within [OF wl(3)] ways_live [OF nm wl(3)] unfolding kept_def by auto
  moreover have "vlogOK (v @ [e])" using vo vid vID by (intro vlogOK_snoc) auto
  moreover have "lockedEntry ?vid (oLockRetainUntil opts) (v @ [e])" using vID by (auto simp: lockedEntry_def)
  moreover have "DataRef (normMeta meta) = []" using put_meta [OF pt] by (simp add: meta_def lockFields_def Let_def)
  moreover have "VlogID ` set (v @ [e]) = insert ?vid (VlogID ` set v)" using vID by simp
  ultimately show ?thesis using wl(2) unfolding lockedVersion_def by blast
qed

lemma archive_none:
  assumes "fst (archiveCurrent env b key s) = Inr []"
  shows "same_store s (snd (archiveCurrent env b key s))"
  using assms readMeta_keeps
  by (auto simp: archiveCurrent_def nullVersionID_def split_beta Let_def split: sum.splits if_splits)

lemma put_version_healthy:
  assumes rdy: "readyFor b key (dVid dr) v s" and fs: "freshStaging (dId1 dr) s" and ns: "\<not> oVersionSuspended opts"
    and first: "fst (archiveCurrent (senvOf pe) b key (snd (readVlog b key s))) = Inr []"
    and up: "\<forall>d \<in> set (disks s). up d \<and> clear (dpath [] (pjoin tmpPrefix (dId1 dr))) d"
    and rd: "\<not> rfails data" "rdata data \<noteq> []" "\<not> (inlineMaxBytes (senvOf pe) > 0 \<and> 0 \<le> sz \<and> sz \<le> inlineMaxBytes (senvOf pe))" "\<not> oCompress opts"
  shows "\<exists>oi s'. putVersionOn pe None dr b key data sz opts s = (Inr oi, s')"
proof -
  let ?env = "senvOf pe" and ?P = "dpath [] (pjoin tmpPrefix (dId1 dr))"
  have nm: "names_ok b key" and st: "steadySet s" and wy: "ways b key s" using rdy by (auto simp: readyFor_def)
  obtain s1 where rv: "readVlog b key s = (v, s1)" using readVlog_ready [OF rdy] by (metis prod.collapse)
  have ss1: "same_store s s1" using readVlog_keeps [of s b key] rv by simp
  obtain s2 where ar: "archiveCurrent ?env b key s1 = (Inr [], s2)" using first rv by (metis prod.collapse snd_conv)
  have ss2: "same_store s s2" using same_store_trans [OF ss1] archive_none [of ?env b key s1] ar by simp
  have lp: "dpath b key = liveP b key" by (rule dpath_live [OF nm])
  have idp: "plainName (dId1 dr)" using fs by (simp add: freshStaging_def)
  have d2: "up d \<and> fresh ?P d \<and> clear ?P d \<and> clear (butlast (dpath b key)) d" if d: "d \<in> set (disks s2)" for d
  proof -
    obtain i where i: "i < length (disks s2)" "d = disks s2 ! i" using d by (auto simp: in_set_conv_nth)
    have l: "length (disks s2) = length (disks s)" using ss2 by (metis length_map same_store_def)
    have e: "dfs d = dfs (disks s ! i)" "dfaults d = dfaults (disks s ! i)"
      using ss2 i l by (simp_all add: same_store_def list_eq_iff_nth_eq)
    have "disks s ! i \<in> set (disks s)" using i l by simp
    moreover have "clear (butlast (liveP b key)) (disks s ! i)"
      using wy up i l by (auto simp: ways_def onUp_def setN_def)
    ultimately show ?thesis
      using up fs e lp by (auto simp: freshStaging_def fresh_def clear_def up_def)
  qed
  have "set_ok s2" using st same_store_set_ok [OF ss2] by (simp add: steadySet_def)
  from put_healthy [OF this _ idp _ _, where ps = "\<lparr>psNumber = 1, psSize = sz, psReader = data\<rparr>" and um = "toUserMeta opts"
      and b = b and key = key and env = ?env and ?id2.0 = "dId2 dr" and now = "dNow dr"]
  obtain meta0 s3 where pt: "putObjectSSE ?env (dId1 dr) (dId2 dr) (dNow dr) b key
      [\<lparr>psNumber = 1, psSize = sz, psReader = data\<rparr>] (toUserMeta opts) None False s2 = (Inr meta0, s3)"
    using d2 rd apart_staging(6) [OF nm idp] lp by (auto simp: toUserMeta_def)
  define meta where "meta = lockFields dr opts (dVid dr) meta0"
  define s4 where "s4 = snd (forEachDisk (WriteAll b (pjoin key metaFile) (marshal meta)) s3)"
  have "fst (writeVlog b key (v @ [vlogEntryOf (dVid dr) meta]) s4) = None"
    by (rule writeVlog_logs(1) [OF nm put_states(1-3) [OF rdy fs ss1 ar pt s4_def]])
  then show ?thesis
    using rv ar pt ns by (auto simp: putVersionOn_def Let_def sseWanted_def split_beta meta_def s4_def)
qed

lemma stat_locked:
  assumes ord: "order_ok env" and k: "kept b key vid m T cur s"
  shows "\<exists>oi. fst (statVersionedOn env b key vid s) = Inr oi \<and> iVersionID oi = vid"
proof -
  define dir where "dir = (if cur then key else vsDir key vid)"
  obtain m' where m': "relocked m m'" "\<forall>t. same_store s t \<longrightarrow> fst (readMeta env b dir t) = Inr m'"
    using resolve_locked(2) [OF ord k] unfolding dir_def by blast
  obtain s1 where rs: "resolveVersionDir env b key vid s = (Some (dir, cur), s1)"
    using resolve_locked(1) [OF ord k] unfolding dir_def by (cases "resolveVersionDir env b key vid s") (auto split: if_splits)
  have "fst (readMeta env b dir s1) = Inr m'" using m'(2) resolve_keeps [of s env b key vid] rs by (metis snd_conv)
  moreover have "VersionID m' = vid" "vid \<noteq> []"
    using k relocked_ID [OF m'(1)] by (auto simp: kept_def version_ok_def plainName_def)
  ultimately show ?thesis using rs by (auto simp: statVersionedOn_def split_beta withVersionID_def)
qed

subsection \<open>A compliance lock protects its version\<close>


definition wit_penv :: penv where
  "wit_penv = \<lparr>senvOf = wit_env, aeadOf = \<lparr>aSeal = (\<lambda>_ _ p. p), aOpen = (\<lambda>_ _ c. Some c)\<rparr>, zstdD = (\<lambda>r. r), tierClient = (\<lambda>_. None),
     tierPut = (\<lambda>_ _ _ _ _. False), listCacheTTL = 15 * second, walkKeysMax = 2000000\<rparr>"

lemma wit_senv: "senvOf wit_penv = wit_env" by (simp add: wit_penv_def)

definition wit_draws :: draws where
  "wit_draws = \<lparr>dNow = 5, dVid = ''v1'', dId1 = ''id1'', dId2 = ''id2'', dDek = [], dPfx = [], dNonce = []\<rparr>"

definition wit_lock :: objectOptions where
  "wit_lock = noOptions\<lparr>oVersioned := True, oLockMode := ''COMPLIANCE'', oLockRetainUntil := 100\<rparr>"

definition wit_body :: reader where "wit_body = \<lparr>rdata = ''hello world'', rfails = False\<rparr>"

lemma wit_ready: "readyFor ''bkt'' ''k'' ''v1'' [] wit_set"
proof -
  have nm: "names_ok ''bkt'' ''k''" "plainName ''v1''" by code_simp+
  have f: "at wit_disk q \<noteq> Some (File c)" for q c by (simp add: wit_disk_def lookupF_def)
  have n: "at wit_disk (''bkt'' # x # q) = None" for x q by (simp add: wit_disk_def lookupF_def)
  have up: "up wit_disk" by (simp add: up_def wit_disk_def)
  have d: "disks wit_set ! i = wit_disk" if "i < setN wit_set" for i
    using that nth_mem [of i "disks wit_set"] by (auto simp: setN_def wit_set_def less_Suc_eq)
  have on: "onUp wit_set P" if "\<And>i. P i wit_disk" for P
    using d that by (simp add: onUp_def)
  have "writeQuorum wit_set \<le> card {i. i < setN wit_set \<and> up (disks wit_set ! i)}"
  proof -
    have "{i. i < setN wit_set \<and> up (disks wit_set ! i)} = {..<setN wit_set}" using d up by auto
    then show ?thesis by (simp add: writeQuorum_def wit_set_def setN_def)
  qed
  then have "steadySet wit_set" using wit_set_ok(1) by (simp add: steadySet_def)
  moreover have "liveP ''bkt'' ''k'' = ''bkt'' # segs ''k''" "segs ''k'' = [''k'']" by (simp add: liveP_def, code_simp)
  ultimately show ?thesis
    using nm f n unfolding readyFor_def ways_def unused_def othersIn_def
    by (auto intro!: on simp: clear_def vlogOK_def nullVersionID_def vlogRoot_def)
qed

lemma wit_put:
  "\<exists>oi s1. putVersionOn wit_penv None wit_draws ''bkt'' ''k'' wit_body 11 wit_lock wit_set = (Inr oi, s1)"
proof (rule put_version_healthy)
  show "readyFor ''bkt'' ''k'' (dVid wit_draws) [] wit_set" using wit_ready by (simp add: wit_draws_def)
  show "freshStaging (dId1 wit_draws) wit_set" using wit_fresh wit_id by (simp add: wit_draws_def freshStaging_def)
  show "fst (archiveCurrent (senvOf wit_penv) ''bkt'' ''k'' (snd (readVlog ''bkt'' ''k'' wit_set))) = Inr []"
    unfolding wit_senv by code_simp
  show "\<forall>d \<in> set (disks wit_set). up d \<and> clear (dpath [] (pjoin tmpPrefix (dId1 wit_draws))) d"
    using wit_fresh wit_set_ok(2) by (simp add: wit_draws_def)
qed (simp_all add: wit_lock_def wit_body_def wit_penv_def wit_env_def noOptions_def)


end
