(* ===== verification/DiskTree.thy ===== *)
theory DiskTree
  imports Disk
begin

text \<open>
  The type invariant of a disk: its association list of paths is a directory tree. The paths are distinct and not
  empty, their segments are file names, and the parent of every entry is a directory. Every operation of
  the disk keeps it, whatever its arguments and whatever the fault schedule does to it.
\<close>

definition fileName :: "string \<Rightarrow> bool" where
  "fileName x \<longleftrightarrow> x \<noteq> [] \<and> CHR ''/'' \<notin> set x"

definition tree_ok :: "fs \<Rightarrow> bool" where
  "tree_ok f \<longleftrightarrow> distinct (map fst f)
     \<and> (\<forall>(q, nd) \<in> set f. q \<noteq> [] \<and> list_all fileName q \<and> lookupF f (butlast q) = Some Dir)"

named_theorems tree \<open>operations keep the directory tree\<close>

lemma tree_entry:
  assumes "tree_ok f" "lookupF f q = Some nd" "q \<noteq> []"
  shows "list_all fileName q" "lookupF f (butlast q) = Some Dir"
  using assms map_of_SomeD [of f q nd] by (auto simp: tree_ok_def lookupF_def)

lemma tree_mem: "tree_ok f \<Longrightarrow> (q, nd) \<in> set f \<longleftrightarrow> q \<noteq> [] \<and> lookupF f q = Some nd"
  by (auto simp: tree_ok_def lookupF_def dest: map_of_SomeD)

lemma tree_lookup_iff:
  "tree_ok f \<longleftrightarrow> distinct (map fst f) \<and> [] \<notin> fst ` set f
     \<and> (\<forall>q nd. q \<noteq> [] \<longrightarrow> lookupF f q = Some nd \<longrightarrow> list_all fileName q \<and> lookupF f (butlast q) = Some Dir)"
  (is "_ \<longleftrightarrow> ?r")
proof
  assume t: "tree_ok f"
  then show ?r using tree_entry [OF t] by (auto simp: tree_ok_def)
next
  assume r: ?r
  have "q \<noteq> [] \<and> list_all fileName q \<and> lookupF f (butlast q) = Some Dir" if "(q, nd) \<in> set f" for q nd
  proof -
    have q: "q \<noteq> []" using r that by force
    have "lookupF f q = Some nd" using r that q by (simp add: lookupF_def)
    then show ?thesis using r q by blast
  qed
  then show "tree_ok f" using r by (auto simp: tree_ok_def)
qed

text \<open>Whatever has something below it is a directory.\<close>

lemma tree_prefix:
  assumes "tree_ok f" "lookupF f q = Some nd" "strict_prefix p q"
  shows "lookupF f p = Some Dir"
proof -
  have "lookupF f p = Some Dir" if "lookupF f (p @ x # r) = Some nd" for x r nd
    using that
  proof (induction r arbitrary: nd rule: rev_induct)
    case Nil
    then show ?case using tree_entry(2) [OF assms(1), of "p @ [x]"] by simp
  next
    case (snoc y r)
    then show ?case using tree_entry(2) [OF assms(1), of "p @ x # r @ [y]"] by (simp add: butlast_append)
  qed
  then show ?thesis using assms(2,3) by (auto simp: strict_prefix_def prefix_def) (metis neq_Nil_conv)
qed

lemma tree_leaf: "tree_ok f \<Longrightarrow> lookupF f p \<noteq> Some Dir \<Longrightarrow> strict_prefix p q \<Longrightarrow> lookupF f q = None"
  using tree_prefix by (cases "lookupF f q") auto

lemma butlast_strict: "q \<noteq> [] \<Longrightarrow> strict_prefix (butlast q) q"
  by (metis append_butlast_last_id strict_prefix_def prefixI append_self_conv list.distinct(1))

subsection \<open>The file-system primitives\<close>

lemma tree_empty [tree]: "tree_ok []"
  by (simp add: tree_ok_def)

lemma tree_update:
  assumes t: "tree_ok f" and p: "p \<noteq> []" "list_all fileName p" "lookupF f (butlast p) = Some Dir"
    and n: "nd = Dir \<or> lookupF f p \<noteq> Some Dir"
  shows "tree_ok (AList.update p nd f)"
proof -
  have l: "lookupF (AList.update p nd f) q = (if q = p then Some nd else lookupF f q)" for q
    by (rule lookupF_update [OF p(1)])
  have "list_all fileName q \<and> lookupF (AList.update p nd f) (butlast q) = Some Dir"
    if q: "q \<noteq> []" "lookupF (AList.update p nd f) q = Some nd'" for q nd'
  proof (cases "q = p")
    case True
    then show ?thesis using p butlast_strict [OF p(1)] by (auto simp: l)
  next
    case False
    then have f: "lookupF f q = Some nd'" using q by (simp add: l)
    have e: "list_all fileName q" "lookupF f (butlast q) = Some Dir" by (rule tree_entry [OF t f q(1)])+
    show ?thesis
    proof (cases "butlast q = p")
      case True
      then have "nd = Dir" using e n by simp
      then show ?thesis using e True l [of p] by simp
    qed (use e in \<open>simp add: l\<close>)
  qed
  moreover have "distinct (map fst (AList.update p nd f))" "[] \<notin> fst ` set (AList.update p nd f)"
    using t p(1) by (auto simp: tree_lookup_iff distinct_update dom_update)
  ultimately show ?thesis by (simp add: tree_lookup_iff)
qed

lemma tree_filter:
  assumes t: "tree_ok f" and c: "\<And>q. q \<noteq> [] \<Longrightarrow> P q \<Longrightarrow> butlast q \<noteq> [] \<Longrightarrow> P (butlast q)"
  shows "tree_ok (filter (\<lambda>(q, _). P q) f)"
proof -
  have m: "map_of (filter (\<lambda>(q, _). P q) f) q = (if P q then map_of f q else None)" for q by (induction f) auto
  have "lookupF (filter (\<lambda>(q, _). P q) f) (butlast q) = Some Dir" if "(q, nd) \<in> set f" "P q" for q nd
  proof -
    have "q \<noteq> []" "lookupF f (butlast q) = Some Dir" using t that(1) by (auto simp: tree_ok_def)
    then show ?thesis using c [OF _ that(2)] by (auto simp: lookupF_def m)
  qed
  then show ?thesis using t by (auto simp: tree_ok_def distinct_map_filter)
qed

lemma tree_removeAll [tree]: "tree_ok f \<Longrightarrow> tree_ok (removeAll p f)"
  unfolding removeAll_def
  by (rule tree_filter) (auto dest: prefix_order.trans [OF _ prefixeq_butlast])

lemma tree_delete:
  assumes t: "tree_ok f" and n: "\<And>q. strict_prefix p q \<Longrightarrow> lookupF f q = None"
  shows "tree_ok (AList.delete p f)"
proof -
  have "tree_ok (filter (\<lambda>(q, _). \<not> prefix p q) f)" using tree_removeAll [OF t, of p] by (simp add: removeAll_def)
  moreover have "filter (\<lambda>(q, _). \<not> prefix p q) f = AList.delete p f"
    unfolding AList.delete_eq
  proof (rule filter_cong [OF refl])
    fix x
    assume "x \<in> set f"
    moreover obtain q nd where x: "x = (q, nd)" by fastforce
    ultimately have "lookupF f q = Some nd" using tree_mem [OF t] by auto
    then have "\<not> strict_prefix p q" using n by auto
    then show "(case x of (q, _) \<Rightarrow> \<not> prefix p q) = (case x of (k', _) \<Rightarrow> p \<noteq> k')"
      by (auto simp: x strict_prefix_def)
  qed
  ultimately show ?thesis by simp
qed

lemma tree_removeF [tree]: "tree_ok f \<Longrightarrow> removeF p f = Inr f' \<Longrightarrow> tree_ok f'"
proof -
  assume t: "tree_ok f" and r: "removeF p f = Inr f'"
  have "lookupF f q = None" if q: "strict_prefix p q" for q
  proof (cases "lookupF f p")
    case (Some nd)
    show ?thesis
    proof (cases nd)
      case Dir
      then have "\<not> list_ex (\<lambda>(q, _). strict_prefix p q) f" using r Some by (auto simp: removeF_def split: if_splits)
      then show ?thesis using q by (auto simp: list_ex_iff lookupF_def) (metis case_prodI map_of_SomeD not_Some_eq)
    qed (use tree_leaf [OF t _ q] Some in simp)
  qed (use tree_leaf [OF t _ q] in simp)
  then show "tree_ok f'" using r tree_delete [OF t] by (auto simp: removeF_def split: option.splits node.splits if_splits)
qed

lemma tree_prune [tree]: "tree_ok f \<Longrightarrow> tree_ok (prune stop leaf f)"
  by (induction stop leaf f rule: prune.induct) (subst prune.simps, auto split: sum.split dest: tree_removeF)

lemma tree_mkdirFrom:
  "mkdirFrom dn ss f = Some f' \<Longrightarrow> tree_ok f \<Longrightarrow> lookupF f dn = Some Dir \<Longrightarrow> list_all fileName (dn @ ss) \<Longrightarrow> tree_ok f'"
proof (induction dn ss f rule: mkdirFrom.induct)
  case (2 dn s ss f)
  have u: "tree_ok (AList.update (dn @ [s]) Dir f)" using 2 by (intro tree_update) auto
  show ?case using 2 u by (auto split: option.splits node.splits simp: lookupF_update)
qed simp

lemma tree_mkdirAll [tree]: "mkdirAll p f = Some f' \<Longrightarrow> tree_ok f \<Longrightarrow> list_all fileName p \<Longrightarrow> tree_ok f'"
  unfolding mkdirAll_def by (rule tree_mkdirFrom [where dn = "[]" and ss = p]) auto

lemma tree_writeFile [tree]:
  assumes "writeFile p c f = Some f'" "tree_ok f" "list_all fileName p"
  shows "tree_ok f'"
proof -
  obtain f1 where f1: "mkdirAll (butlast p) f = Some f1" "lookupF f1 p \<noteq> Some Dir" "f' = AList.update p (File c) f1"
    using assms(1) by (auto simp: writeFile_def split: option.splits if_splits)
  have p: "p \<noteq> []" using f1(2) by auto
  have "list_all fileName (butlast p)" using assms(3) by (auto simp: list_all_iff dest: in_set_butlastD)
  then have "tree_ok f1" using tree_mkdirAll [OF f1(1) assms(2)] by simp
  moreover have "lookupF f1 (butlast p) = Some Dir" using lookupF_mkdirAll [OF f1(1)] by simp
  ultimately show ?thesis unfolding f1(3) using p assms(3) f1(2) by (intro tree_update) auto
qed

lemma tree_renameF [tree]:
  assumes r: "renameF src dst f = Some f'" and t: "tree_ok f"
    and free: "\<forall>q. prefix dst q \<longrightarrow> lookupF f q = None"
    and dst: "list_all fileName dst" "dst \<noteq> []" "lookupF f (butlast dst) = Some Dir"
  shows "tree_ok f'"
proof -
  let ?mv = "movePath src dst"
  have f': "f' = map (\<lambda>(q, nd). (?mv q, nd)) f" and ns: "\<not> prefix src dst" and sn: "src \<noteq> []"
    using r by (auto simp: renameF_def split: if_splits)
  have nd: "\<not> prefix dst q" if "q \<in> fst ` set f" for q
    using that free tree_mem [OF t] by force
  have inj: "q1 = q2" if q: "q1 \<in> fst ` set f" "q2 \<in> fst ` set f" "?mv q1 = ?mv q2" for q1 q2
  proof -
    have "\<not> prefix dst q1" "\<not> prefix dst q2" using nd q by blast+
    then have "prefix src q1 \<longleftrightarrow> prefix src q2" using q(3) by (auto simp: movePath_def split: if_splits)
    then show ?thesis using q(3) by (auto simp: movePath_def prefix_def)
  qed
  have mf: "map fst f' = map ?mv (map fst f)" by (simp add: f' case_prod_beta)
  moreover have "inj_on ?mv (set (map fst f))" using inj by (auto intro!: inj_onI)
  ultimately have d: "distinct (map fst f')" using t by (simp only: distinct_map tree_ok_def)
  have "?mv q \<noteq> []" if "q \<noteq> []" for q using that dst(2) by (simp add: movePath_def)
  moreover have "[] \<notin> fst ` set f" using t by (simp add: tree_lookup_iff)
  ultimately have "[] \<notin> set (map fst f')" unfolding mf set_map by (metis imageE)
  then have n: "[] \<notin> fst ` set f'" by simp
  have l: "lookupF f' q = (if prefix dst q then lookupF f (src @ drop (length dst) q)
     else if q \<noteq> [] \<and> prefix src q then None else lookupF f q)" for q
    by (rule lookupF_renameF [OF r dst(2) free])
  have "list_all fileName q \<and> lookupF f' (butlast q) = Some Dir" if q: "q \<noteq> []" "lookupF f' q = Some nd'" for q nd'
  proof (cases "prefix dst q")
    case True
    then obtain z where z: "q = dst @ z" by (auto elim: prefixE)
    have lz: "lookupF f (src @ z) = Some nd'" using q(2) True by (simp add: l z)
    have e: "list_all fileName (src @ z)" "lookupF f (butlast (src @ z)) = Some Dir"
      by (rule tree_entry [OF t lz], use sn in simp)+
    show ?thesis
    proof (cases "z = []")
      case True
      have "\<not> prefix dst (butlast dst)" using butlast_strict [OF dst(2)] by (auto dest: prefix_length_le simp: strict_prefix_def)
      moreover have "\<not> prefix src (butlast dst)" using ns by (metis prefix_order.trans prefixeq_butlast)
      ultimately show ?thesis using True z dst by (simp add: l)
    next
      case False
      then show ?thesis using e z dst by (simp add: l butlast_append)
    qed
  next
    case False
    have lq: "lookupF f q = Some nd'" and nsq: "\<not> prefix src q" using q False by (auto simp: l split: if_splits)
    have e: "list_all fileName q" "lookupF f (butlast q) = Some Dir" by (rule tree_entry [OF t lq q(1)])+
    have "\<not> prefix dst (butlast q)" "\<not> prefix src (butlast q)"
      using False nsq by (metis prefix_order.trans prefixeq_butlast)+
    then show ?thesis using e by (simp add: l)
  qed
  then show ?thesis using d n by (simp add: tree_lookup_iff)
qed

subsection \<open>The operations of a disk\<close>

lemma cleanSegs_fileName: "list_all fileName acc \<Longrightarrow> list_all fileName xs \<Longrightarrow> list_all fileName (cleanSegs acc xs)"
  by (induction acc xs rule: cleanSegs.induct) (auto simp: fileName_def list_all_iff split: list.splits)

lemma segs_fileName: "list_all fileName (segs s)"
  using splitOn_parts_no_sep by (force simp: segs_def list_all_iff fileName_def)

lemma dpath_fileName [tree]: "list_all fileName (dpath b ob)"
  unfolding dpath_def using segs_fileName by (intro cleanSegs_fileName) auto

lemma butlast_fileName [tree]: "list_all fileName p \<Longrightarrow> list_all fileName (butlast p)"
  by (auto simp: list_all_iff dest: in_set_butlastD)

lemma tree_MakeVol: "plainName b \<Longrightarrow> tree_ok (dfs d) \<Longrightarrow> tree_ok (dfs (snd (MakeVol b d)))"
  by (auto simp: MakeVol_def split_beta Let_def plainName_def fileName_def dpath_def segs_single
      split: option.split intro!: tree_update)

lemma tree_DeleteVol: "tree_ok (dfs d) \<Longrightarrow> tree_ok (dfs (snd (DeleteVol b force d)))"
  by (auto simp: DeleteVol_def split_beta Let_def intro: tree split: sum.split rmErr.split)

lemma tree_WriteAll: "tree_ok (dfs d) \<Longrightarrow> tree_ok (dfs (snd (WriteAll b ob c d)))"
  by (auto simp: WriteAll_def split_beta Let_def intro: tree split: option.split)

lemma tree_CreateFile: "tree_ok (dfs d) \<Longrightarrow> tree_ok (dfs (snd (CreateFile b ob sz c d)))"
  by (auto simp: CreateFile_def split_beta Let_def intro: tree split: option.split)

lemma tree_Delete: "tree_ok (dfs d) \<Longrightarrow> tree_ok (dfs (snd (Delete b ob r d)))"
  by (auto simp: Delete_def split_beta Let_def intro!: tree_prune tree_removeAll split: sum.split rmErr.split) (auto intro: tree)

lemma tree_RenameDir:
  assumes t: "tree_ok (dfs d)"
  shows "tree_ok (dfs (snd (RenameDir sb so tb tobj d)))"
proof -
  let ?src = "dpath sb so" and ?dst = "dpath tb tobj"
  have "tree_ok f3" if f1: "mkdirAll (butlast ?dst) (dfs d) = Some f1" and f3: "renameF ?src ?dst (removeAll ?dst f1) = Some f3" for f1 f3
  proof -
    have t1: "tree_ok f1" using tree_mkdirAll [OF f1 t] by (simp add: tree)
    have dn: "?dst \<noteq> []"
    proof
      assume d: "?dst = []"
      then have "lookupF (removeAll ?dst f1) ?src = None" if "?src \<noteq> []" using that by (simp add: lookupF_removeAll)
      then show False using f3 d by (auto simp: renameF_def split: if_splits)
    qed
    have "lookupF (removeAll ?dst f1) (butlast ?dst) = Some Dir"
    proof -
      have "\<not> prefix ?dst (butlast ?dst)" using butlast_strict [OF dn] by (auto dest: prefix_length_le simp: strict_prefix_def)
      then show ?thesis using lookupF_mkdirAll [OF f1] by (simp add: lookupF_removeAll)
    qed
    then show ?thesis
      using dn by (intro tree_renameF [OF f3]) (auto simp: tree t1 lookupF_removeAll)
  qed
  moreover have "tree_ok (removeAll ?dst f1)" if "mkdirAll (butlast ?dst) (dfs d) = Some f1" for f1
    using tree_mkdirAll [OF that t] by (simp add: tree)
  ultimately show ?thesis
    using t by (auto simp: RenameDir_def split_beta Let_def split: option.split)
qed

lemma tree_reads:
  "dfs (snd (StatVol b d)) = dfs d" "dfs (snd (ListVols d)) = dfs d" "dfs (snd (ReadFileStream b ob off d)) = dfs d"
  "dfs (snd (ListDir b ob d)) = dfs d" "dfs (snd (IsOnline d)) = dfs d"
  by (auto simp: StatVol_def ListVols_def ReadFileStream_def ListDir_def IsOnline_def split_beta Let_def
      split: option.split node.split content.split)

inductive disk_step :: "disk \<Rightarrow> disk \<Rightarrow> bool" where
  step_MakeVol: "plainName b \<Longrightarrow> disk_step d (snd (MakeVol b d))"
| step_DeleteVol: "disk_step d (snd (DeleteVol b force d))"
| step_StatVol: "disk_step d (snd (StatVol b d))"
| step_ListVols: "disk_step d (snd (ListVols d))"
| step_WriteAll: "disk_step d (snd (WriteAll b ob c d))"
| step_ReadAll: "disk_step d (snd (ReadAll b ob d))"
| step_CreateFile: "disk_step d (snd (CreateFile b ob sz bs d))"
| step_ReadFileStream: "disk_step d (snd (ReadFileStream b ob off d))"
| step_RenameDir: "disk_step d (snd (RenameDir sb so tb tobj d))"
| step_Delete: "disk_step d (snd (Delete b ob rc d))"
| step_ListDir: "disk_step d (snd (ListDir b ob d))"
| step_IsOnline: "disk_step d (snd (IsOnline d))"

lemma tree_step: "disk_step d d' \<Longrightarrow> tree_ok (dfs d) \<Longrightarrow> tree_ok (dfs d')"
  by (induction rule: disk_step.induct)
    (simp_all add: tree_MakeVol tree_DeleteVol tree_WriteAll tree_CreateFile tree_RenameDir tree_Delete tree_reads)



end
