(* ===== verification/ListingWalk.thy ===== *)
theory ListingWalk
  imports Listing DiskTree VersionLock
begin

text \<open>
  What the namespace walk finds. On disks that work, the keys of a bucket are exactly the directories of the bucket
  that hold an \<open>xl.meta\<close> file and are not below another such directory or in \<open>.gostore.sys\<close>; the walk of a set
  is their union over its working disks.
\<close>

definition isFileAt :: "fs \<Rightarrow> path \<Rightarrow> bool" where
  "isFileAt f q \<longleftrightarrow> (\<exists>c. lookupF f q = Some (File c))"

text \<open>The objects at or below the directory \<open>pre\<close> of a bucket.\<close>

definition objBelow :: "fs \<Rightarrow> string \<Rightarrow> path \<Rightarrow> path \<Rightarrow> bool" where
  "objBelow f b pre q \<longleftrightarrow> prefix pre q \<and> q \<noteq> [] \<and> isFileAt f (b # q @ [metaFile])
     \<and> (\<forall>r. prefix pre r \<and> strict_prefix r q \<longrightarrow> \<not> isFileAt f (b # r @ [metaFile])) \<and> (pre = [] \<longrightarrow> hd q \<noteq> sysDir)"

definition objectKeys :: "fs \<Rightarrow> string \<Rightarrow> string set" where
  "objectKeys f b = unsegs ` {q. objBelow f b [] q}"

text \<open>A disk whose bucket directory has plain names only.\<close>

definition bucket_ok :: "string \<Rightarrow> fs \<Rightarrow> bool" where
  "bucket_ok b f \<longleftrightarrow> tree_ok f \<and> plainName b \<and> \<not> isFileAt f [b]
     \<and> (\<forall>q nd. lookupF f (b # q) = Some nd \<longrightarrow> (\<forall>x \<in> set q. plainSeg x))"

lemma splitOn_joinWith: "ps \<noteq> [] \<Longrightarrow> \<forall>p \<in> set ps. c \<notin> set p \<Longrightarrow> splitOn c (joinWith [c] ps) = ps"
proof (induction ps)
  case (Cons x ps)
  then show ?case using splitOn_append_sep [of c x] by (cases ps) (auto simp: splitOn_no_sep)
qed simp

lemma segs_unsegs: "list_all fileName q \<Longrightarrow> segs (unsegs q) = q"
  by (cases "q = []") (auto simp: segs_def unsegs_def splitOn_joinWith fileName_def list_all_iff filter_id_conv)

lemma bucket_dpath:
  assumes "bucket_ok b f" "lookupF f (b # pre) = Some nd"
  shows "dpath b (unsegs pre) = b # pre"
proof -
  have n: "list_all fileName (b # pre)"
    using tree_entry(1) [of f "b # pre" nd] assms by (simp add: bucket_ok_def)
  then have "segs (unsegs pre) = pre" by (intro segs_unsegs) simp
  moreover have "segs b = [b]" using assms(1) by (simp add: bucket_ok_def segs_plainName)
  ultimately show ?thesis using assms by (subst dpath_plain) (auto simp: bucket_ok_def plainName_def)
qed

text \<open>The entries of a directory.\<close>

lemma childNames_mem:
  assumes "tree_ok f"
  shows "(x, isd) \<in> set (childNames p f) \<longleftrightarrow> (\<exists>nd. lookupF f (p @ [x]) = Some nd \<and> isd = (nd = Dir))"
proof -
  have c: "strict_prefix p q \<and> length q = length p + 1 \<longleftrightarrow> (\<exists>y. q = p @ [y])" for q
  proof
    assume "strict_prefix p q \<and> length q = length p + 1"
    then obtain z where "q = p @ z" "length z = 1" by (auto simp: strict_prefix_def prefix_def)
    then show "\<exists>x. q = p @ [x]" by (auto simp: length_Suc_conv)
  qed (auto simp: strict_prefix_def)
  have "(x, isd) \<in> set (childNames p f) \<longleftrightarrow>
      (\<exists>q nd. (q, nd) \<in> set f \<and> (strict_prefix p q \<and> length q = length p + 1) \<and> x = last q \<and> isd = (nd = Dir))"
    by (auto simp: childNames_def image_iff)
  also have "\<dots> \<longleftrightarrow> (\<exists>nd. lookupF f (p @ [x]) = Some nd \<and> isd = (nd = Dir))"
    unfolding c tree_mem [OF assms] by (auto intro: exI [of _ "p @ [x]"])
  finally show ?thesis .
qed

lemma pair_image: "e \<in> (\<lambda>(a, c). g a c) ` S \<longleftrightarrow> (\<exists>a c. (a, c) \<in> S \<and> e = g a c)"
  by auto

lemma ListDir_up:
  assumes "up d" "bucket_ok b (dfs d)" "lookupF (dfs d) (b # pre) = Some Dir"
  shows "\<exists>ents. ListDir b (unsegs pre) d = (Inr ents, d\<lparr>dopno := Suc (dopno d)\<rparr>)
     \<and> (\<forall>e. e \<in> set ents \<longleftrightarrow> isFileAt (dfs d) (b # pre @ [e]) \<or> (\<exists>x. e = x @ ''/'' \<and> lookupF (dfs d) (b # pre @ [x]) = Some Dir))"
proof -
  let ?nm = "\<lambda>(nm, isDir). if isDir then nm @ ''/'' else nm"
  let ?es = "map ?nm (sort_key fst (childNames (b # pre) (dfs d)))"
  have t: "tree_ok (dfs d)" using assms(2) by (simp add: bucket_ok_def)
  have "ListDir b (unsegs pre) d = (Inr ?es, d\<lparr>dopno := Suc (dopno d)\<rparr>)"
    using assms(1,3) by (simp add: ListDir_def bucket_dpath [OF assms(2,3)] up_def sched_def)
  moreover have "e \<in> set ?es \<longleftrightarrow> isFileAt (dfs d) (b # pre @ [e]) \<or> (\<exists>x. e = x @ ''/'' \<and> lookupF (dfs d) (b # pre @ [x]) = Some Dir)" for e
  proof -
    have "e \<in> set ?es \<longleftrightarrow> (\<exists>x isd. (x, isd) \<in> set (childNames (b # pre) (dfs d)) \<and> e = (if isd then x @ ''/'' else x))"
      by (simp only: set_map set_sort pair_image)
    also have "\<dots> \<longleftrightarrow> (\<exists>x nd. lookupF (dfs d) (b # pre @ [x]) = Some nd \<and> e = (if nd = Dir then x @ ''/'' else x))"
      by (simp add: childNames_mem [OF t]) blast
    also have "\<dots> \<longleftrightarrow> isFileAt (dfs d) (b # pre @ [e]) \<or> (\<exists>x. e = x @ ''/'' \<and> lookupF (dfs d) (b # pre @ [x]) = Some Dir)"
      unfolding isFileAt_def by (metis node.distinct(1) node.exhaust)
    finally show ?thesis .
  qed
  ultimately show ?thesis by blast
qed

subsection \<open>The walk of one disk\<close>

lemma walkEnts_spec:
  assumes "\<And>e found d. e \<in> set es \<Longrightarrow> \<not> skip pre e \<Longrightarrow> I found d \<Longrightarrow>
     \<exists>f' d'. rec (pre @ [trimSuffix e ''/'']) found d = (True, f', d') \<and> set f' = set found \<union> U e \<and> I f' d'"
    and "I found d"
  shows "\<exists>f' d'. walkEnts skip rec pre es found d = (True, f', d') \<and> set f' = set found \<union> (\<Union>e \<in> {e \<in> set es. \<not> skip pre e}. U e) \<and> I f' d'"
  using assms
proof (induction es arbitrary: found d)
  case (Cons e es)
  show ?case
  proof (cases "skip pre e")
    case True
    then have "{x \<in> set (e # es). \<not> skip pre x} = {x \<in> set es. \<not> skip pre x}" by auto
    then show ?thesis using Cons True by simp
  next
    case False
    then obtain f1 d1 where 1: "rec (pre @ [trimSuffix e ''/'']) found d = (True, f1, d1)" "set f1 = set found \<union> U e" "I f1 d1"
      using Cons.prems(1) [of e found d] Cons.prems(2) by auto
    obtain f2 d2 where 2: "walkEnts skip rec pre es f1 d1 = (True, f2, d2)"
        "set f2 = set f1 \<union> (\<Union>e \<in> {e \<in> set es. \<not> skip pre e}. U e)" "I f2 d2"
      using Cons.IH [of f1 d1] Cons.prems(1) 1(3) by auto
    have "{x \<in> set (e # es). \<not> skip pre x} = insert e {x \<in> set es. \<not> skip pre x}" using False by auto
    then show ?thesis using 1 2 False by auto
  qed
qed simp

text \<open>The objects below a directory that is not one itself are those below its subdirectories.\<close>

lemma objBelow_self:
  assumes "isFileAt f (b # pre @ [metaFile])"
  shows "{q. objBelow f b pre q} = (if pre = [] then {} else {pre})"
  using assms by (auto simp: objBelow_def strict_prefix_def intro: exI [of _ "[]"])

lemma objBelow_children:
  assumes "tree_ok f" "\<not> isFileAt f (b # pre @ [metaFile])"
  shows "{q. objBelow f b pre q} =
    (\<Union>x \<in> {x. lookupF f (b # pre @ [x]) = Some Dir \<and> \<not> (pre = [] \<and> x = sysDir)}. {q. objBelow f b (pre @ [x]) q})"
proof (intro set_eqI iffI)
  fix q
  assume "q \<in> {q. objBelow f b pre q}"
  then have q: "prefix pre q" "isFileAt f (b # q @ [metaFile])" "q \<noteq> []" "pre = [] \<longrightarrow> hd q \<noteq> sysDir"
      "\<forall>r. prefix pre r \<and> strict_prefix r q \<longrightarrow> \<not> isFileAt f (b # r @ [metaFile])"
    by (auto simp: objBelow_def)
  have "q \<noteq> pre" using q(2) assms(2) by auto
  then obtain x z where z: "q = pre @ x # z" using q(1) by (metis prefixE append_Nil2 neq_Nil_conv)
  have "strict_prefix (b # pre @ [x]) (b # q @ [metaFile])" by (simp add: z strict_prefix_def)
  then have "lookupF f (b # pre @ [x]) = Some Dir" using q(2) tree_prefix [OF assms(1)] by (auto simp: isFileAt_def)
  moreover have "\<not> (pre = [] \<and> x = sysDir)" using q(4) z by auto
  moreover have "objBelow f b (pre @ [x]) q" using q z by (auto simp: objBelow_def dest: append_prefixD)
  ultimately show "q \<in> (\<Union>x \<in> {x. lookupF f (b # pre @ [x]) = Some Dir \<and> \<not> (pre = [] \<and> x = sysDir)}. {q. objBelow f b (pre @ [x]) q})"
    by blast
next
  fix q
  assume "q \<in> (\<Union>x \<in> {x. lookupF f (b # pre @ [x]) = Some Dir \<and> \<not> (pre = [] \<and> x = sysDir)}. {q. objBelow f b (pre @ [x]) q})"
  then obtain x where x: "\<not> (pre = [] \<and> x = sysDir)" "objBelow f b (pre @ [x]) q" by blast
  have p: "prefix (pre @ [x]) q" using x(2) by (simp add: objBelow_def)
  have "\<not> isFileAt f (b # r @ [metaFile])" if r: "prefix pre r" "strict_prefix r q" for r
  proof (cases "r = pre")
    case False
    then have "prefix (pre @ [x]) r \<or> strict_prefix r (pre @ [x])"
      using prefix_same_cases [of "pre @ [x]" q r] p r(2) by (auto simp: strict_prefix_def)
    moreover have "\<not> strict_prefix r (pre @ [x])" using False r(1) by (auto simp: strict_prefix_def dest: prefix_order.antisym)
    ultimately show ?thesis using x(2) r(2) by (auto simp: objBelow_def)
  qed (use assms(2) in simp)
  moreover have "prefix pre q" "pre = [] \<longrightarrow> hd q \<noteq> sysDir" using p x(1) by (auto simp: prefix_def)
  ultimately show "q \<in> {q. objBelow f b pre q}" using x(2) by (auto simp: objBelow_def)
qed

lemma depthOf_ge: "lookupF f q = Some nd \<Longrightarrow> q \<noteq> [] \<Longrightarrow> length q \<le> depthOf f"
proof -
  assume "lookupF f q = Some nd" "q \<noteq> []"
  then have "length q \<in> set (map (\<lambda>(q, _). length q) f)" by (force simp: lookupF_def dest: map_of_SomeD)
  moreover have "x \<in> set xs \<Longrightarrow> x \<le> fold max xs a" for x a :: nat and xs
  proof (induction xs arbitrary: a)
    case (Cons y ys)
    have "z \<le> fold max ys z" for z :: nat
    proof (induction ys arbitrary: z)
      case (Cons w ws)
      show ?case using order.trans [OF max.cobounded2 [of z w] Cons.IH [of "max w z"]] by simp
    qed simp
    from this [of "max y a"] show ?case using Cons by auto
  qed simp
  ultimately show ?thesis unfolding depthOf_def by blast
qed

text \<open>What a walk keeps: the disk, and keys without repetition out of a set smaller than the ceiling.\<close>

definition walking :: "string set \<Rightarrow> disk \<Rightarrow> string list \<Rightarrow> disk \<Rightarrow> bool" where
  "walking A d0 found d \<longleftrightarrow> distinct found \<and> set found \<subseteq> A \<and> dfs d = dfs d0 \<and> dfaults d = dfaults d0"

lemma walkRec_up:
  assumes u: "up d0" and ok: "bucket_ok b (dfs d0)" and A: "finite A" "card A < mx" "objectKeys (dfs d0) b \<subseteq> A"
  shows "lookupF (dfs d0) (b # pre) = Some Dir \<Longrightarrow> depthOf (dfs d0) + 1 \<le> n + length pre \<Longrightarrow> 1 \<le> n
    \<Longrightarrow> unsegs ` {q. objBelow (dfs d0) b pre q} \<subseteq> A \<Longrightarrow> walking A d0 found d \<Longrightarrow>
    \<exists>f' d'. walkRec n mx b pre found d = (True, f', d') \<and> set f' = set found \<union> unsegs ` {q. objBelow (dfs d0) b pre q} \<and> walking A d0 f' d'"
proof (induction n arbitrary: pre found d)
  case (Suc n)
  let ?f = "dfs d0" and ?under = "\<lambda>pre. unsegs ` {q. objBelow (dfs d0) b pre q}"
  have t: "tree_ok ?f" using ok by (simp add: bucket_ok_def)
  have w: "distinct found" "set found \<subseteq> A" "dfs d = ?f" "dfaults d = dfaults d0" using Suc.prems(5) by (auto simp: walking_def)
  have "length found = card (set found)" using w(1) by (simp add: distinct_card)
  also have "\<dots> \<le> card A" using A(1) w(2) by (rule card_mono)
  finally have sm: "\<not> length found \<ge> mx" using A(2) by simp
  have ud: "up d" "bucket_ok b (dfs d)" "lookupF (dfs d) (b # pre) = Some Dir" using u ok Suc.prems(1) w by (auto simp: up_def)
  obtain ents d1 where ld: "ListDir b (unsegs pre) d = (Inr ents, d1)" and d1: "d1 = d\<lparr>dopno := Suc (dopno d)\<rparr>"
    and es: "\<And>e. e \<in> set ents \<longleftrightarrow> isFileAt ?f (b # pre @ [e]) \<or> (\<exists>x. e = x @ ''/'' \<and> lookupF ?f (b # pre @ [x]) = Some Dir)"
    using ListDir_up [OF ud] w(3) by metis
  have w1: "walking A d0 found d1" using Suc.prems(5) by (simp add: walking_def d1)
  have mf: "metaFile \<in> set ents \<longleftrightarrow> isFileAt ?f (b # pre @ [metaFile])"
    using es [of metaFile] by (auto simp: metaFile_def)
  show ?case
  proof (cases "isFileAt ?f (b # pre @ [metaFile])")
    case True
    have "unsegs pre \<in> A" if "pre \<noteq> []" using Suc.prems(4) objBelow_self [OF True] that by auto
    then have "walking A d0 (if pre \<noteq> [] then List.insert (unsegs pre) found else found) d1"
      using w1 by (auto simp: walking_def)
    moreover have "set (if pre \<noteq> [] then List.insert (unsegs pre) found else found) = set found \<union> ?under pre"
      using objBelow_self [OF True] by auto
    ultimately show ?thesis using sm ld mf True by simp
  next
    case False
    define U where "U e = ?under (pre @ [trimSuffix e ''/''])" for e
    have ch: "?under pre = (\<Union>x \<in> {x. lookupF ?f (b # pre @ [x]) = Some Dir \<and> \<not> (pre = [] \<and> x = sysDir)}. ?under (pre @ [x]))"
      by (simp add: objBelow_children [OF t False] image_UN)
    have fn: "hasSuffix (x @ ''/'') ''/''" "trimSuffix (x @ ''/'') ''/'' = x" for x
      by (simp_all add: hasSuffix_iff trimSuffix_def)
    have nf: "\<not> hasSuffix e ''/''" if "isFileAt ?f (b # pre @ [e])" for e
      using that tree_entry(1) [OF t, of "b # pre @ [e]"] by (auto simp: isFileAt_def fileName_def hasSuffix_iff)
    have sel: "e \<in> set ents \<and> \<not> notEntered pre e \<longleftrightarrow>
        (\<exists>x. e = x @ ''/'' \<and> lookupF ?f (b # pre @ [x]) = Some Dir \<and> \<not> (pre = [] \<and> x = sysDir))" for e
      using es [of e] nf fn by (auto simp: notEntered_def)
    have "\<exists>f' d'. walkRec n mx b (pre @ [trimSuffix e ''/'']) found d = (True, f', d') \<and> set f' = set found \<union> U e \<and> walking A d0 f' d'"
      if e: "e \<in> set ents" "\<not> notEntered pre e" and wk: "walking A d0 found d" for e found d
    proof -
      obtain x where x: "e = x @ ''/''" "lookupF ?f (b # pre @ [x]) = Some Dir" "\<not> (pre = [] \<and> x = sysDir)" using sel e by blast
      have "length pre + 2 \<le> depthOf ?f" using depthOf_ge [OF x(2)] by simp
      moreover have "?under (pre @ [x]) \<subseteq> A" using Suc.prems(4) x(2,3) unfolding ch by blast
      ultimately show ?thesis
        using Suc.IH [of "pre @ [x]" found d] Suc.prems(2) x wk fn unfolding U_def by auto
    qed
    from walkEnts_spec [where I = "walking A d0" and rec = "walkRec n mx b" and U = U and skip = notEntered, OF this w1]
    obtain f' d' where r: "walkEnts notEntered (walkRec n mx b) pre ents found d1 = (True, f', d')"
        "set f' = set found \<union> (\<Union>e \<in> {e \<in> set ents. \<not> notEntered pre e}. U e)" "walking A d0 f' d'" by blast
    have "(\<Union>e \<in> {e \<in> set ents. \<not> notEntered pre e}. U e) = ?under pre"
      unfolding ch sel U_def using fn by auto
    then show ?thesis using sm ld mf False r by simp
  qed
qed simp

subsection \<open>The walk of a set\<close>

lemma objectKeys_finite: "tree_ok f \<Longrightarrow> finite (objectKeys f b)"
proof -
  assume t: "tree_ok f"
  have "{q. objBelow f b [] q} \<subseteq> (\<lambda>p. butlast (tl p)) ` fst ` set f"
  proof
    fix q
    assume "q \<in> {q. objBelow f b [] q}"
    then obtain c where "(b # q @ [metaFile], File c) \<in> set f"
      using tree_mem [OF t] by (auto simp: objBelow_def isFileAt_def)
    then show "q \<in> (\<lambda>p. butlast (tl p)) ` fst ` set f" by (force simp: image_iff)
  qed
  then show ?thesis unfolding objectKeys_def by (meson finite_imageI finite_set finite_subset)
qed

lemma objectKeys_no_bucket: "tree_ok f \<Longrightarrow> lookupF f [b] = None \<Longrightarrow> objectKeys f b = {}"
proof -
  assume t: "tree_ok f" and n: "lookupF f [b] = None"
  have "strict_prefix [b] (b # q @ [metaFile])" for q by (simp add: strict_prefix_def)
  then show ?thesis using tree_leaf [OF t, of "[b]"] n by (auto simp: objectKeys_def objBelow_def isFileAt_def)
qed

lemma walkDisk_steady:
  assumes st: "steady d" and ok: "up d \<Longrightarrow> bucket_ok b (dfs d)" and A: "finite A" "card A < mx" "up d \<Longrightarrow> objectKeys (dfs d) b \<subseteq> A"
    and w: "distinct found" "set found \<subseteq> A"
  shows "\<exists>f' d'. walkDisk mx b found d = (up d, f', d') \<and> set f' = set found \<union> (if up d then objectKeys (dfs d) b else {})
    \<and> walking A d f' d'"
proof (cases "up d")
  case False
  then have "sched d \<noteq> Works" using st by (simp add: steady_def down_def sched_def)
  then show ?thesis using False w by (simp add: walkDisk_def IsOnline_def walking_def)
next
  case True
  define d1 where "d1 = d\<lparr>dopno := Suc (dopno d)\<rparr>"
  have s: "sched d = Works" using True by (simp add: up_def sched_def)
  have bk: "bucket_ok b (dfs d)" by (rule ok [OF True])
  have w1: "walking A d found d1" using w by (simp add: walking_def d1_def)
  have "\<exists>f' d'. walkRec (depthOf (dfs d) + 1) mx b [] found d1 = (True, f', d') \<and> set f' = set found \<union> objectKeys (dfs d) b \<and> walking A d f' d'"
  proof (cases "lookupF (dfs d) [b]")
    case None
    have n: "dpath b (unsegs []) = [b]" using bk by (simp add: bucket_ok_def dpath_def unsegs_def segs_plainName) (simp add: plainName_def)
    have "ListDir b (unsegs []) d1 = (Inr [], d1\<lparr>dopno := Suc (dopno d1)\<rparr>)"
      using None True by (simp add: ListDir_def n d1_def up_def sched_def)
    moreover have "\<not> mx \<le> length found"
      using card_mono [OF A(1) w(2)] A(2) distinct_card [OF w(1)] by simp
    ultimately show ?thesis
      using objectKeys_no_bucket [OF _ None] bk w1 by (simp add: bucket_ok_def walking_def)
  next
    case (Some nd)
    then have "lookupF (dfs d) [b] = Some Dir" using bk by (cases nd) (auto simp: bucket_ok_def isFileAt_def)
    then show ?thesis
      using walkRec_up [OF True bk A(1,2) A(3) [OF True], of "[]" "depthOf (dfs d) + 1" found d1] A(3) [OF True] w1
      by (simp add: objectKeys_def)
  qed
  then obtain f' d' where "walkRec (depthOf (dfs d) + 1) mx b [] found d1 = (True, f', d')"
      "set f' = set found \<union> objectKeys (dfs d) b" "walking A d f' d'" by blast
  then show ?thesis using True s unfolding walkDisk_def IsOnline_def d1_def by (simp del: walkRec.simps)
qed

lemma walkDisks_steady:
  assumes "\<forall>d \<in> set ds. steady d \<and> (up d \<longrightarrow> bucket_ok b (dfs d) \<and> objectKeys (dfs d) b \<subseteq> A)" "finite A" "card A < mx"
    and "distinct found" "set found \<subseteq> A"
  shows "\<exists>f' ds'. walkDisks mx b found ds = (length (filter up ds), f', ds')
    \<and> set f' = set found \<union> (\<Union>d \<in> {d \<in> set ds. up d}. objectKeys (dfs d) b) \<and> distinct f' \<and> set f' \<subseteq> A
    \<and> map dfs ds' = map dfs ds \<and> map dfaults ds' = map dfaults ds"
  using assms
proof (induction ds arbitrary: found)
  case (Cons d ds)
  obtain f1 d1 where 1: "walkDisk mx b found d = (up d, f1, d1)"
      "set f1 = set found \<union> (if up d then objectKeys (dfs d) b else {})" "walking A d f1 d1"
    using walkDisk_steady [of d b A mx found] Cons.prems by auto
  obtain f2 ds2 where 2: "walkDisks mx b f1 ds = (length (filter up ds), f2, ds2)"
      "set f2 = set f1 \<union> (\<Union>d \<in> {d \<in> set ds. up d}. objectKeys (dfs d) b)" "distinct f2" "set f2 \<subseteq> A"
      "map dfs ds2 = map dfs ds" "map dfaults ds2 = map dfaults ds"
    using Cons.IH [of f1] Cons.prems 1(3) by (auto simp: walking_def)
  have "(\<Union>d \<in> {x \<in> set (d # ds). up x}. objectKeys (dfs d) b) =
      (if up d then objectKeys (dfs d) b else {}) \<union> (\<Union>d \<in> {d \<in> set ds. up d}. objectKeys (dfs d) b)" by auto
  then show ?case using 1 2 by (auto simp: walking_def)
qed simp

text \<open>The sets whose namespace can be walked: disks that keep working or failing, well-formed buckets, and fewer keys than the ceiling.\<close>

definition setKeys :: "string \<Rightarrow> eset \<Rightarrow> string set" where
  "setKeys b s = (\<Union>d \<in> {d \<in> set (disks s). up d}. objectKeys (dfs d) b)"

definition walkable :: "penv \<Rightarrow> string \<Rightarrow> eset \<Rightarrow> bool" where
  "walkable pe b s \<longleftrightarrow> (\<forall>d \<in> set (disks s). steady d \<and> (up d \<longrightarrow> bucket_ok b (dfs d)))
     \<and> (\<exists>d \<in> set (disks s). up d) \<and> card (setKeys b s) < walkKeysMax pe"

lemma setKeys_finite: "walkable pe b s \<Longrightarrow> finite (setKeys b s)"
  by (auto simp: setKeys_def walkable_def bucket_ok_def intro!: objectKeys_finite)

lemma walkKeys_exact:
  assumes "walkable pe b s"
  shows "fst (walkKeys pe b s) = Inr (sorted_list_of_set (setKeys b s))" "same_store s (snd (walkKeys pe b s))"
proof -
  let ?A = "setKeys b s"
  have "\<forall>d \<in> set (disks s). steady d \<and> (up d \<longrightarrow> bucket_ok b (dfs d) \<and> objectKeys (dfs d) b \<subseteq> ?A)"
    using assms by (auto simp: walkable_def setKeys_def)
  from walkDisks_steady [OF this setKeys_finite [OF assms], of "walkKeysMax pe" "[]"]
  obtain f ds where w: "walkDisks (walkKeysMax pe) b [] (disks s) = (length (filter up (disks s)), f, ds)"
      "set f = ?A" "distinct f" "map dfs ds = map dfs (disks s)" "map dfaults ds = map dfaults (disks s)"
    using assms by (auto simp: walkable_def setKeys_def)
  have "filter up (disks s) \<noteq> []" using assms by (auto simp: walkable_def filter_empty_conv)
  then have "fst (walkKeys pe b s) = Inr (sort f)" using w(1) by (simp add: walkKeys_def)
  then show "fst (walkKeys pe b s) = Inr (sorted_list_of_set ?A)"
    using sorted_list_of_set_sort_remdups [of f] w(2,3) by (simp add: distinct_remdups_id)
  show "same_store s (snd (walkKeys pe b s))" using w by (simp add: walkKeys_def same_store_def)
qed

lemma walkable_same:
  assumes "same_store s s'"
  shows "setKeys b s' = setKeys b s" "walkable pe b s' = walkable pe b s"
proof -
  have z: "map (\<lambda>d. (dfs d, dfaults d)) ds = zip (map dfs ds) (map dfaults ds)" for ds :: "disk list" by (induction ds) auto
  have e: "(\<exists>d \<in> set (disks s'). P (dfs d) (dfaults d)) \<longleftrightarrow> (\<exists>d \<in> set (disks s). P (dfs d) (dfaults d))" for P
  proof -
    have "map (\<lambda>d. (dfs d, dfaults d)) (disks s') = map (\<lambda>d. (dfs d, dfaults d)) (disks s)"
      unfolding z using assms by (simp only: same_store_def)
    then have im: "(\<lambda>d. (dfs d, dfaults d)) ` set (disks s') = (\<lambda>d. (dfs d, dfaults d)) ` set (disks s)"
      unfolding set_map [symmetric] by (rule arg_cong)
    have i: "(\<exists>d \<in> S. P (dfs d) (dfaults d)) \<longleftrightarrow> (\<exists>x \<in> (\<lambda>d. (dfs d, dfaults d)) ` S. P (fst x) (snd x))" for S by auto
    show ?thesis unfolding i im ..
  qed
  have a: "(\<forall>d \<in> set (disks s'). P (dfs d) (dfaults d)) \<longleftrightarrow> (\<forall>d \<in> set (disks s). P (dfs d) (dfaults d))" for P
    using e [of "\<lambda>x y. \<not> P x y"] by blast
  have "z \<in> setKeys b t \<longleftrightarrow> (\<exists>d \<in> set (disks t). (\<forall>i. dfaults d i = Works) \<and> z \<in> objectKeys (dfs d) b)" for z t
    by (auto simp: setKeys_def up_def)
  then show k: "setKeys b s' = setKeys b s" using e [of "\<lambda>x y. (\<forall>i. y i = Works) \<and> z \<in> objectKeys x b" for z] by blast
  show "walkable pe b s' = walkable pe b s"
    using a [of "\<lambda>x y. ((\<forall>i. y i = Works) \<or> (\<forall>i. y i \<noteq> Works)) \<and> ((\<forall>i. y i = Works) \<longrightarrow> bucket_ok b x)"]
      e [of "\<lambda>x y. \<forall>i. y i = Works"] k by (auto simp: walkable_def steady_def up_def down_def)
qed

end
