(* ===== verification/ListingPages.thy ===== *)
theory ListingPages
  imports ListingWalk
begin

text \<open>
  Pages of a listing. A page taken without delimiter from a bucket that has no version log is the next
  \<open>maxKeys\<close> entries of the sorted namespace after the start, and its continuation token leads to the entries after it;
  a client that follows the tokens sees every key once, in order, and comes to an end. With the version listing it does not.
\<close>

subsection \<open>The page loop without delimiter\<close>

lemma commonPrefix_none [simp]: "commonPrefix pre [] k = None"
  by (simp add: commonPrefix_def)

lemma pageLoop_plain:
  assumes "lpDelimiter lp = []" "psPrefixes st = []" "length (psWant st) \<le> mx" "\<not> psTruncated st"
  shows "pageLoop lp mx keys st =
    (let cand = filter (\<lambda>k. \<not> pageSkips lp k) keys; n = mx - length (psWant st) in
     st\<lparr>psWant := psWant st @ take n cand, psTruncated := n < length cand,
        psMarker := (if take n cand = [] then psMarker st else last (take n cand))\<rparr>)"
  using assms(2-4)
proof (induction keys arbitrary: st)
  case (Cons k ks)
  show ?case
  proof (cases "pageSkips lp k")
    case False
    show ?thesis
    proof (cases "psCount st \<ge> mx")
      case True
      then have "length (psWant st) = mx" using Cons.prems by (simp add: psCount_def)
      then show ?thesis using False assms(1) True by (simp add: Let_def)
    next
      case nf: False
      then have lt: "length (psWant st) < mx" using Cons.prems by (simp add: psCount_def)
      then obtain n where n: "mx - length (psWant st) = Suc n" by (metis Suc_diff_Suc)
      then have "mx - Suc (length (psWant st)) = n" by simp
      then show ?thesis
        using False assms(1) nf lt n Cons.IH [of "st\<lparr>psWant := psWant st @ [k], psMarker := k\<rparr>"] Cons.prems
        by (simp add: Let_def)
    qed
  qed (use Cons in \<open>simp add: Let_def\<close>)
qed simp

lemma strict_le_last: "sorted_wrt (<) (xs :: string list) \<Longrightarrow> x \<in> set xs \<Longrightarrow> x \<le> last xs"
  by (induction xs) (auto simp: less_imp_le)

lemma after_last:
  assumes "sorted_wrt (<) (K :: string list)" "n > 0" "K \<noteq> []"
  shows "filter (\<lambda>k. \<not> k \<le> last (take n K)) K = drop n K"
proof -
  let ?l = "last (take n K)"
  have t: "take n K \<noteq> []" using assms by simp
  have s: "sorted_wrt (<) (take n K @ drop n K)" using assms(1) by simp
  have "k \<le> ?l" if "k \<in> set (take n K)" for k
    using that s strict_le_last unfolding sorted_wrt_append by blast
  moreover have "\<not> k \<le> ?l" if "k \<in> set (drop n K)" for k
    using s that t unfolding sorted_wrt_append by (metis last_in_set not_le)
  ultimately have "filter (\<lambda>k. \<not> k \<le> ?l) (take n K @ drop n K) = [] @ drop n K"
    unfolding filter_append by (simp add: filter_empty_conv filter_id_conv)
  then show ?thesis by simp
qed

subsection \<open>Reads do not depend on what was read before\<close>

definition samePool :: "pool \<Rightarrow> pool \<Rightarrow> bool" where
  "samePool p p' \<longleftrightarrow> list_all2 same_store (psets p) (psets p')"

lemma samePool_refl [simp]: "samePool p p"
  by (simp add: samePool_def list_all2_refl)

lemma samePool_trans: "samePool p p' \<Longrightarrow> samePool p' p'' \<Longrightarrow> samePool p p''"
  unfolding samePool_def by (rule list_all2_trans) (auto intro: same_store_trans)

lemma samePool_cong: "psets p' = psets q' \<Longrightarrow> samePool p p' \<longleftrightarrow> samePool p q'"
  by (simp add: samePool_def)

lemma samePool_nth:
  assumes "samePool p p'"
  shows "length (psets p') = length (psets p)" "i < length (psets p) \<Longrightarrow> same_store (psets p ! i) (psets p' ! i)"
  using assms by (auto simp: samePool_def list_all2_lengthD list_all2_nthD)

lemma samePool_onSet:
  assumes "\<And>s. same_store s (snd (f s))" "i < length (psets p)"
  shows "samePool p (snd (onSet i f p))" "fst (onSet i f p) = fst (f (psets p ! i))"
proof -
  have "list_all2 same_store (psets p) ((psets p)[i := snd (f (psets p ! i))])"
    using assms by (auto simp: list_all2_conv_all_nth nth_list_update)
  then show "samePool p (snd (onSet i f p))" by (simp add: samePool_def onSet_def split_beta)
qed (simp add: onSet_def split_beta)

lemma map_same_store:
  assumes "same_store s s'" "\<And>d d'. dfs d' = dfs d \<Longrightarrow> dfaults d' = dfaults d \<Longrightarrow> d \<in> set (disks s) \<Longrightarrow> g d' = g d"
  shows "map g (disks s') = map g (disks s)"
proof (rule nth_equalityI)
  have l: "length (disks s') = length (disks s)" by (rule same_store_length [OF assms(1)])
  then show "length (map g (disks s')) = length (map g (disks s))" by simp
  fix i
  assume "i < length (map g (disks s'))"
  then have i: "i < length (disks s)" using l by simp
  have "map dfs (disks s') ! i = map dfs (disks s) ! i" "map dfaults (disks s') ! i = map dfaults (disks s) ! i"
    using assms(1) by (simp_all only: same_store_def)
  then have "dfs (disks s' ! i) = dfs (disks s ! i)" "dfaults (disks s' ! i) = dfaults (disks s ! i)" using i l by simp_all
  then have "g (disks s' ! i) = g (disks s ! i)" by (rule assms(2)) (use i in simp)
  then show "map g (disks s') ! i = map g (disks s) ! i" using i l by simp
qed

lemma readMeta_same:
  assumes ss: "same_store s s'" and st: "\<forall>d \<in> set (disks s). steady d"
  shows "fst (readMeta env b k s') = fst (readMeta env b k s)"
proof -
  let ?f = "\<lambda>d. fst (readMetaOf b k d)"
  have m: "map ?f (disks s') = map ?f (disks s)"
  proof (rule map_same_store [OF ss])
    fix d d' :: disk
    assume d: "dfs d' = dfs d" "dfaults d' = dfaults d" "d \<in> set (disks s)"
    then have "steady d" "steady d'" using st same_disk_shown [OF d(1,2)] by auto
    then show "?f d' = ?f d" using readMetaOf_seen same_disk_shown [OF d(1,2)] by (simp add: metaSeen_def)
  qed
  have q: "readQuorum s' = readQuorum s" "setN s' = setN s"
    using ss same_store_length [OF ss] by (simp_all add: readQuorum_def setN_def same_store_def)
  have r: "fst (readMeta env b k t) =
      (let q = readQuorum t; fs = map ?f (disks t) in
       case decide env (take q fs @ replicate (setN t - q) None) of (m, bestN, _) \<Rightarrow>
         (if bestN \<ge> q \<and> m \<noteq> None then Inr (the m)
          else case decide env fs of (m2, bestN2, have2) \<Rightarrow>
            (if bestN2 \<ge> q \<and> m2 \<noteq> None then Inr (the m2)
             else if have2 = 0 then Inl (EDisk ErrFileNotFound) else Inl ECorrupt)))" for t
  proof -
    have a: "map ?f (take q ds) @ map ?f (drop q ds) = map ?f ds" for q ds by (simp flip: map_append)
    show ?thesis unfolding readMeta_def Let_def map_map comp_def a take_map by (auto split: prod.splits)
  qed
  show ?thesis unfolding r m q ..
qed

lemma StatBucket_same:
  assumes ss: "same_store s s'" and st: "\<forall>d \<in> set (disks s). steady d"
  shows "fst (StatBucket b s') = fst (StatBucket b s)" "same_store s (snd (StatBucket b s))"
proof -
  have m: "map (\<lambda>d. fst (StatVol b d)) (disks s') = map (\<lambda>d. fst (StatVol b d)) (disks s)"
  proof (rule map_same_store [OF ss])
    fix d d' :: disk
    assume d: "dfs d' = dfs d" "dfaults d' = dfaults d" "d \<in> set (disks s)"
    then have "steady d" using st by blast
    then have "sched d = Works \<longleftrightarrow> sched d' = Works" using d by (auto simp: steady_def up_def down_def sched_def)
    then show "fst (StatVol b d') = fst (StatVol b d)" using d by (simp add: StatVol_def split: option.split)
  qed
  have "readQuorum s' = readQuorum s" using ss by (simp add: readQuorum_def same_store_def)
  then show "fst (StatBucket b s') = fst (StatBucket b s)"
    using m by (simp add: StatBucket_def forEachDisk_def Let_def comp_def)
  have "dfs (snd (StatVol b d)) = dfs d" "dfaults (snd (StatVol b d)) = dfaults d" for d
    by (auto simp: StatVol_def split: option.split)
  then show "same_store s (snd (StatBucket b s))"
    by (simp add: StatBucket_def forEachDisk_def Let_def same_store_def comp_def)
qed

subsection \<open>The namespace of a pool\<close>

definition nsSet :: "string \<Rightarrow> pool \<Rightarrow> string set" where
  "nsSet b p = (\<Union>s \<in> set (psets p). setKeys b s)"

definition nsKeys :: "string \<Rightarrow> pool \<Rightarrow> string list" where
  "nsKeys b p = sorted_list_of_set (nsSet b p)"

text \<open>Where a key is kept; a later set takes precedence.\<close>

definition holders :: "string \<Rightarrow> pool \<Rightarrow> nat list \<Rightarrow> string \<Rightarrow> nat list" where
  "holders b p is k = filter (\<lambda>i. k \<in> setKeys b (psets p ! i)) is"

definition nsOwner :: "string \<Rightarrow> pool \<Rightarrow> string \<Rightarrow> nat" where
  "nsOwner b p k = last (holders b p [0..<length (psets p)] k)"

definition noVlog :: "string \<Rightarrow> eset \<Rightarrow> bool" where
  "noVlog b s \<longleftrightarrow> (\<forall>d \<in> set (disks s). up d \<longrightarrow> lookupF (dfs d) [b, sysDir, ''vlog''] = None)"

lemma samePool_sets:
  assumes "samePool p p'" "i < length (psets p)"
  shows "setKeys b (psets p' ! i) = setKeys b (psets p ! i)" "walkable pe b (psets p' ! i) = walkable pe b (psets p ! i)"
  using walkable_same [OF samePool_nth(2) [OF assms]] by simp_all

lemma samePool_ns:
  assumes "samePool p p'"
  shows "nsSet b p' = nsSet b p" "nsKeys b p' = nsKeys b p" "nsOwner b p' k = nsOwner b p k"
    "(\<forall>s \<in> set (psets p'). walkable pe b s) = (\<forall>s \<in> set (psets p). walkable pe b s)"
proof -
  have n: "nsSet b q = (\<Union>i \<in> {..<length (psets q)}. setKeys b (psets q ! i))" for q
    by (auto simp: nsSet_def set_conv_nth)
  show e: "nsSet b p' = nsSet b p" unfolding n samePool_nth(1) [OF assms] using samePool_sets(1) [OF assms] by simp
  then show "nsKeys b p' = nsKeys b p" by (simp add: nsKeys_def)
  have "holders b p' [0..<length (psets p')] k = holders b p [0..<length (psets p)] k"
    unfolding holders_def samePool_nth(1) [OF assms] using samePool_sets(1) [OF assms] by (intro filter_cong) auto
  then show "nsOwner b p' k = nsOwner b p k" by (simp add: nsOwner_def)
  show "(\<forall>s \<in> set (psets p'). walkable pe b s) = (\<forall>s \<in> set (psets p). walkable pe b s)"
    unfolding all_set_conv_all_nth samePool_nth(1) [OF assms] using samePool_sets(2) [OF assms] by simp
qed

lemma map_of_fold_update:
  "map_of (fold (\<lambda>k. AList.update k i) ks owner) k = (if k \<in> set ks then Some i else map_of owner k)"
  by (induction ks arbitrary: owner) (auto simp: update_conv)

lemma distinct_fold_update: "distinct (map fst owner) \<Longrightarrow> distinct (map fst (fold (\<lambda>k. AList.update k i) ks owner))"
  by (induction ks arbitrary: owner) (auto simp: distinct_update)

lemma walkSets_exact:
  assumes "\<forall>i \<in> set is. i < length (psets p) \<and> walkable pe b (psets p ! i)" "distinct (map fst owner)"
  shows "\<exists>owner' p'. walkSets pe b is owner p = (Inr owner', p') \<and> samePool p p' \<and> p' = p\<lparr>psets := psets p'\<rparr>
    \<and> distinct (map fst owner')
    \<and> (\<forall>k. map_of owner' k = (if holders b p is k = [] then map_of owner k else Some (last (holders b p is k))))"
  using assms
proof (induction "is" arbitrary: owner p)
  case (Cons i iz)
  let ?ks = "sorted_list_of_set (setKeys b (psets p ! i))"
  let ?ow = "fold (\<lambda>k. AList.update k i) ?ks owner"
  have i: "i < length (psets p)" "walkable pe b (psets p ! i)" using Cons.prems by auto
  define p1 where "p1 = snd (onSet i (walkKeys pe b) p)"
  have "same_store (psets p ! i) (snd (walkKeys pe b (psets p ! i)))" by (rule walkKeys_exact(2) [OF i(2)])
  then have sp: "samePool p p1"
    using i by (auto simp: p1_def onSet_def split_beta samePool_def list_all2_conv_all_nth nth_list_update)
  have e: "onSet i (walkKeys pe b) p = (Inr ?ks, p1)" "p1 = p\<lparr>psets := psets p1\<rparr>"
    using walkKeys_exact(1) [OF i(2)] by (simp_all add: p1_def onSet_def split_beta)
  have "\<forall>j \<in> set iz. j < length (psets p1) \<and> walkable pe b (psets p1 ! j)"
    using Cons.prems(1) samePool_nth(1) [OF sp] samePool_sets(2) [OF sp] by simp
  from Cons.IH [OF this distinct_fold_update [OF Cons.prems(2), of i ?ks]]
  obtain ow p2 where r: "walkSets pe b iz ?ow p1 = (Inr ow, p2)" "samePool p1 p2" "p2 = p1\<lparr>psets := psets p2\<rparr>"
      "distinct (map fst ow)" "\<forall>k. map_of ow k = (if holders b p1 iz k = [] then map_of ?ow k else Some (last (holders b p1 iz k)))"
    by blast
  have h: "holders b p1 iz k = holders b p iz k" for k
    unfolding holders_def using samePool_sets(1) [OF sp] Cons.prems(1) by (intro filter_cong) auto
  have "map_of ?ow k = (if k \<in> setKeys b (psets p ! i) then Some i else map_of owner k)" for k
    using setKeys_finite [OF i(2)] by (simp add: map_of_fold_update)
  then have "map_of ow k = (if holders b p (i # iz) k = [] then map_of owner k else Some (last (holders b p (i # iz) k)))" for k
    using r(5) h by (auto simp: holders_def)
  moreover have "p2 = p\<lparr>psets := psets p2\<rparr>" by (subst r(3), subst e(2)) simp
  ultimately show ?case using e r samePool_trans [OF sp r(2)] by auto
qed (simp add: holders_def)

text \<open>A bucket without version logs: the version walk finds nothing.\<close>

lemma dpath_vlogRoot: "plainName b \<Longrightarrow> dpath b (unsegs [sysDir, ''vlog'']) = [b, sysDir, ''vlog'']"
proof -
  assume b: "plainName b"
  have "segs (unsegs [sysDir, ''vlog'']) = [sysDir, ''vlog'']" by (rule segs_unsegs) (simp add: fileName_def sysDir_def)
  then show ?thesis using b by (subst dpath_plain) (auto simp: segs_plainName plainName_def sysDir_def)
qed

lemma firstOnline_keeps:
  "map dfs (snd (firstOnline ds)) = map dfs ds" "map dfaults (snd (firstOnline ds)) = map dfaults ds"
  "fst (firstOnline ds) = Some i \<Longrightarrow> i < length ds"
  by (induction ds arbitrary: i) (auto simp: IsOnline_def split_beta split: if_splits)

lemma firstOnline_up:
  assumes "\<forall>d \<in> set ds. steady d" "fst (firstOnline ds) = Some i"
  shows "up (snd (firstOnline ds) ! i)"
  using assms
proof (induction ds arbitrary: i)
  case (Cons d ds)
  have "sched d = Works \<longleftrightarrow> up d" using Cons.prems(1) by (auto simp: steady_def up_def down_def sched_def)
  then show ?case using Cons by (auto simp: IsOnline_def split_beta up_def split: if_splits)
qed simp

lemma walkVlogKeys_none:
  assumes st: "\<forall>d \<in> set (disks s). steady d" and nv: "noVlog b s" and b: "plainName b"
  shows "fst (walkVlogKeys b s) \<in> {Inr [], Inl EReadQuorum}" "same_store s (snd (walkVlogKeys b s))"
proof -
  obtain r ds where fo: "firstOnline (disks s) = (r, ds)" by fastforce
  have ks: "map dfs ds = map dfs (disks s)" "map dfaults ds = map dfaults (disks s)"
    using firstOnline_keeps(1,2) [of "disks s"] fo by simp_all
  have "fst (walkVlogKeys b s) \<in> {Inr [], Inl EReadQuorum} \<and> same_store s (snd (walkVlogKeys b s))"
  proof (cases r)
    case None
    then show ?thesis using fo ks by (simp add: walkVlogKeys_def same_store_def)
  next
    case (Some i)
    let ?d = "ds ! i"
    have l: "length ds = length (disks s)" using ks(1) by (metis length_map)
    have i: "i < length (disks s)" using firstOnline_keeps(3) [of "disks s" i] fo Some by simp
    have u: "up ?d" using firstOnline_up [OF st, of i] fo Some by simp
    have e: "dfs ?d = dfs (disks s ! i)" "dfaults ?d = dfaults (disks s ! i)"
      using arg_cong [OF ks(1), of "\<lambda>xs. xs ! i"] arg_cong [OF ks(2), of "\<lambda>xs. xs ! i"] i l by simp_all
    then have "up (disks s ! i)" using u by (simp add: up_def)
    then have "lookupF (dfs ?d) [b, sysDir, ''vlog''] = None" using nv i e by (simp add: noVlog_def)
    then have "ListDir b (unsegs [sysDir, ''vlog'']) ?d = (Inr [], ?d\<lparr>dopno := Suc (dopno ?d)\<rparr>)"
      using u by (simp add: ListDir_def dpath_vlogRoot [OF b] up_def sched_def)
    then have "walkVlogKeys b s = (Inr [], s\<lparr>disks := ds[i := ?d\<lparr>dopno := Suc (dopno ?d)\<rparr>]\<rparr>)"
      using fo Some by (simp add: walkVlogKeys_def)
    then show ?thesis using ks i l e by (simp add: same_store_def map_update list_update_same_conv)
  qed
  then show "fst (walkVlogKeys b s) \<in> {Inr [], Inl EReadQuorum}" "same_store s (snd (walkVlogKeys b s))" by blast+
qed

subsection \<open>A page of a bucket without versions\<close>

text \<open>
  The bucket exists, its sets can be walked, it has no version log, and what is cached of it is current.
\<close>

definition cacheCurrent :: "string \<Rightarrow> pool \<Rightarrow> bool" where
  "cacheCurrent b p \<longleftrightarrow> (\<forall>e. map_of (lcache p) b = Some e \<longrightarrow>
     lcKeys e = nsKeys b p \<and> (\<forall>k \<in> nsSet b p. map_of (lcOwner e) k = Some (nsOwner b p k)))"

definition plainBucket :: "penv \<Rightarrow> string \<Rightarrow> pool \<Rightarrow> bool" where
  "plainBucket pe b p \<longleftrightarrow> validBucketName b \<and> plainName b \<and> psets p \<noteq> [] \<and> fst (StatBucket b (psets p ! 0)) = None
     \<and> (\<forall>s \<in> set (psets p). walkable pe b s \<and> noVlog b s) \<and> cacheCurrent b p"

text \<open>What a listing shows of a key: its description, unless its metadata cannot be read.\<close>

definition described :: "penv \<Rightarrow> string \<Rightarrow> pool \<Rightarrow> string \<Rightarrow> objectInfo list" where
  "described pe b p k =
     (case fst (readMeta (senvOf pe) b k (psets p ! nsOwner b p k)) of Inr m \<Rightarrow> [metaToInfo b k m] | Inl e \<Rightarrow> [])"

lemma noVlog_same: "same_store s s' \<Longrightarrow> \<forall>d \<in> set (disks s). steady d \<Longrightarrow> noVlog b s' = noVlog b s"
proof -
  assume ss: "same_store s s'" and st: "\<forall>d \<in> set (disks s). steady d"
  let ?g = "\<lambda>d. up d \<longrightarrow> lookupF (dfs d) [b, sysDir, ''vlog''] = None"
  have "map ?g (disks s') = map ?g (disks s)" by (rule map_same_store [OF ss]) (simp add: up_def)
  then have "list_all (\<lambda>x. x) (map ?g (disks s')) = list_all (\<lambda>x. x) (map ?g (disks s))" by (rule arg_cong)
  then show ?thesis by (simp add: noVlog_def list_all_iff)
qed

lemma plain_steady: "plainBucket pe b p \<Longrightarrow> i < length (psets p) \<Longrightarrow> \<forall>d \<in> set (disks (psets p ! i)). steady d"
  by (auto simp: plainBucket_def walkable_def)

lemma plainBucket_same:
  assumes pb: "plainBucket pe b p" and sp: "samePool p p'" and lc: "cacheCurrent b p'"
  shows "plainBucket pe b p'"
proof -
  have "psets p \<noteq> []" using pb by (simp add: plainBucket_def)
  then have z: "0 < length (psets p)" by simp
  have "fst (StatBucket b (psets p' ! 0)) = None"
    using StatBucket_same(1) [OF samePool_nth(2) [OF sp z] plain_steady [OF pb z]] pb by (simp add: plainBucket_def)
  moreover have "walkable pe b (psets p' ! i) \<and> noVlog b (psets p' ! i)" if i: "i < length (psets p)" for i
    using noVlog_same [OF samePool_nth(2) [OF sp i] plain_steady [OF pb i]] samePool_sets(2) [OF sp i] pb i
    by (simp add: plainBucket_def)
  ultimately show ?thesis
    using pb lc samePool_nth(1) [OF sp] unfolding plainBucket_def all_set_conv_all_nth by auto
qed

lemma holders_empty: "holders b p [0..<length (psets p)] k = [] \<longleftrightarrow> k \<notin> nsSet b p"
  by (auto simp: holders_def nsSet_def filter_empty_conv set_conv_nth)

lemma nsOwner_lt: "k \<in> nsSet b p \<Longrightarrow> nsOwner b p k < length (psets p)"
  using last_in_set [of "holders b p [0..<length (psets p)] k"] holders_empty [of b p k] by (auto simp: nsOwner_def holders_def)

lemma described_same:
  assumes pb: "plainBucket pe b p" and sp: "samePool p p'" and k: "k \<in> nsSet b p"
  shows "described pe b p' k = described pe b p k"
proof -
  have i: "nsOwner b p k < length (psets p)" by (rule nsOwner_lt [OF k])
  show ?thesis
    unfolding described_def samePool_ns(3) [OF sp] readMeta_same [OF samePool_nth(2) [OF sp i] plain_steady [OF pb i]] ..
qed

lemma nsSet_finite: "plainBucket pe b p \<Longrightarrow> finite (nsSet b p)"
  using setKeys_finite by (auto simp: plainBucket_def nsSet_def)

lemma ensureBucket_plain:
  assumes "plainBucket pe b p"
  shows "\<exists>p1. ensureBucket now b p = (None, p1) \<and> samePool p p1 \<and> lcache p1 = lcache p"
proof -
  have z: "0 < length (psets p)" "validBucketName b" "fst (StatBucket b (psets p ! 0)) = None"
    using assms by (auto simp: plainBucket_def)
  have "same_store (psets p ! 0) (snd (StatBucket b (psets p ! 0)))"
    by (rule StatBucket_same(2) [OF same_store_refl plain_steady [OF assms z(1)]])
  then have "list_all2 same_store (psets p) ((psets p)[0 := snd (StatBucket b (psets p ! 0))])"
    using z by (auto simp: list_all2_conv_all_nth nth_list_update)
  then show ?thesis using z by (auto simp: ensureBucket_def onSet_def split_beta samePool_def list_all2_refl split: option.split)
qed

lemma hasVersions_plain:
  assumes pb: "plainBucket pe b p" and i: "\<forall>i \<in> set ix. i < length (psets p)"
  shows "\<exists>p1. bucketHasVersionsIn b ix p = (False, p1) \<and> samePool p p1 \<and> lcache p1 = lcache p"
  using assms
proof (induction ix arbitrary: p)
  case (Cons i ix)
  have i: "i < length (psets p)" and b: "plainName b" and nv: "noVlog b (psets p ! i)"
    using Cons.prems by (auto simp: plainBucket_def)
  note w = walkVlogKeys_none [OF plain_steady [OF Cons.prems(1) i] nv b]
  define p1 where "p1 = snd (onSet i (walkVlogKeys b) p)"
  have e: "onSet i (walkVlogKeys b) p = (fst (walkVlogKeys b (psets p ! i)), p1)" "lcache p1 = lcache p"
    by (simp_all add: p1_def onSet_def split_beta)
  have sp: "samePool p p1"
    using w(2) i by (auto simp: p1_def onSet_def split_beta samePool_def list_all2_conv_all_nth nth_list_update)
  have "cacheCurrent b p1"
    using Cons.prems(1) e(2) samePool_ns [OF sp] by (simp add: plainBucket_def cacheCurrent_def)
  then have "plainBucket pe b p1" by (rule plainBucket_same [OF Cons.prems(1) sp])
  from Cons.IH [OF this] obtain p2 where "bucketHasVersionsIn b ix p1 = (False, p2)" "samePool p1 p2" "lcache p2 = lcache p1"
    using Cons.prems(2) samePool_nth(1) [OF sp] by auto
  then show ?case using e w(1) samePool_trans [OF sp] by auto
qed auto

lemma namespaceKeys_plain:
  assumes pb: "plainBucket pe b p"
  shows "\<exists>owner p1. namespaceKeys pe now b p = (Inr (nsKeys b p, owner), p1) \<and> samePool p p1 \<and> cacheCurrent b p1
    \<and> (\<forall>k \<in> nsSet b p. map_of owner k = Some (nsOwner b p k))"
proof (cases "if listCacheTTL pe > 0 then cacheGet pe now b p else None")
  case (Some e)
  then have "map_of (lcache p) b = Some e" by (auto simp: cacheGet_def split: if_splits option.splits)
  then have "lcKeys e = nsKeys b p" "\<forall>k \<in> nsSet b p. map_of (lcOwner e) k = Some (nsOwner b p k)" "cacheCurrent b p"
    using pb by (auto simp: plainBucket_def cacheCurrent_def)
  then show ?thesis using Some by (simp add: namespaceKeys_def)
next
  case None
  have "\<forall>i \<in> set [0..<length (psets p)]. i < length (psets p) \<and> walkable pe b (psets p ! i)"
    using pb by (auto simp: plainBucket_def)
  from walkSets_exact [OF this, of "[]"] obtain owner p1 where w: "walkSets pe b [0..<length (psets p)] [] p = (Inr owner, p1)"
      "samePool p p1" "p1 = p\<lparr>psets := psets p1\<rparr>" "distinct (map fst owner)"
      "\<forall>k. map_of owner k = (if holders b p [0..<length (psets p)] k = [] then None else Some (nsOwner b p k))"
    by (auto simp: nsOwner_def)
  note h = holders_empty [of b p]
  have "set (map fst owner) = dom (map_of owner)" by (simp add: dom_map_of_conv_image_fst)
  also have "\<dots> = nsSet b p" using w(5) h by (auto split: if_splits)
  finally have "set (map fst owner) = nsSet b p" .
  then have k: "sort (map fst owner) = nsKeys b p"
    using sorted_list_of_set_sort_remdups [of "map fst owner"] w(4) by (simp add: nsKeys_def distinct_remdups_id)
  have own: "\<forall>k \<in> nsSet b p. map_of owner k = Some (nsOwner b p k)" using w(5) h by simp
  define p2 where "p2 = (if listCacheTTL pe > 0
      then p1\<lparr>lcache := AList.update b \<lparr>lcKeys = nsKeys b p, lcOwner = owner, lcCreated = now\<rparr> (lcache p1)\<rparr> else p1)"
  have s2: "samePool p p2" using w(2) by (simp add: p2_def samePool_def)
  have "lcache p1 = lcache p" by (subst w(3)) simp
  then have "cacheCurrent b p2"
    using own pb samePool_ns [OF s2] by (auto simp: cacheCurrent_def plainBucket_def p2_def update_conv)
  moreover have "namespaceKeys pe now b p = (Inr (nsKeys b p, owner), p2)"
    unfolding namespaceKeys_def None using w(1) k by (simp add: p2_def Let_def)
  ultimately show ?thesis using own s2 by blast
qed

lemma statKeys_plain:
  assumes pb: "plainBucket pe b p" and k: "set ks \<subseteq> nsSet b p" and own: "\<forall>k \<in> set ks. map_of owner k = Some (nsOwner b p k)"
  shows "fst (statKeys (senvOf pe) b owner ks p) = concat (map (described pe b p) ks)
    \<and> samePool p (snd (statKeys (senvOf pe) b owner ks p)) \<and> lcache (snd (statKeys (senvOf pe) b owner ks p)) = lcache p"
  using assms
proof (induction ks arbitrary: p)
  case (Cons k ks)
  let ?i = "nsOwner b p k"
  have i: "?i < length (psets p)" using Cons.prems(2) by (intro nsOwner_lt) simp
  define p1 where "p1 = snd (onSet ?i (statObject (senvOf pe) b k) p)"
  have e: "onSet ?i (statObject (senvOf pe) b k) p = (fst (readMeta (senvOf pe) b k (psets p ! ?i)), p1)" "lcache p1 = lcache p"
    by (simp_all add: p1_def onSet_def statObject_def split_beta)
  have sp: "samePool p p1" unfolding p1_def by (rule samePool_onSet(1) [OF _ i]) (simp add: statObject_def readMeta_keeps)
  have "cacheCurrent b p1"
    using Cons.prems(1) e(2) samePool_ns [OF sp] by (simp add: plainBucket_def cacheCurrent_def)
  then have pb1: "plainBucket pe b p1" by (rule plainBucket_same [OF Cons.prems(1) sp])
  have c: "map (described pe b p1) ks = map (described pe b p) ks"
    using described_same [OF Cons.prems(1) sp] Cons.prems(2) by (intro map_cong) auto
  have "fst (statKeys (senvOf pe) b owner ks p1) = concat (map (described pe b p1) ks)
      \<and> samePool p1 (snd (statKeys (senvOf pe) b owner ks p1)) \<and> lcache (snd (statKeys (senvOf pe) b owner ks p1)) = lcache p1"
    by (rule Cons.IH [OF pb1]) (use Cons.prems samePool_ns [OF sp] in auto)
  moreover have "map_of owner k = Some ?i" using Cons.prems(3) by simp
  ultimately show ?case
    using e samePool_trans [OF sp] unfolding c by (simp add: split_beta described_def [of pe b p k] split: sum.split)
qed simp

definition nsAfter :: "string \<Rightarrow> string \<Rightarrow> string \<Rightarrow> pool \<Rightarrow> string list" where
  "nsAfter b pre start p = filter (\<lambda>k. hasPrefix k pre \<and> (start = [] \<or> start < k)) (nsKeys b p)"

lemma page_plain:
  assumes pb: "plainBucket pe b p"
  shows "\<exists>li p'. ListObjectsV2 pe now b pre token [] mx sa p = (Inr li, p') \<and> samePool p p' \<and> plainBucket pe b p'
    \<and> (let K = nsAfter b pre (startOf token sa) p; n = clampKeys mx in
        l2Objects li = concat (map (described pe b p) (take n K)) \<and> l2Prefixes li = [] \<and> l2IsTruncated li = (n < length K)
        \<and> l2NextToken li = (if n < length K then EncodeToString (last (take n K)) else []))"
proof -
  define lp where "lp = \<lparr>lpPrefix = pre, lpDelimiter = [], lpStartAfter = startOf token sa, lpMaxKeys = mx\<rparr>"
  define K where "K = nsAfter b pre (startOf token sa) p"
  define n where "n = clampKeys mx"
  have n: "n > 0" by (simp add: n_def clampKeys_def)
  have cc: "cacheCurrent b q" if "samePool p q" "lcache q = lcache p" for q
    using pb that samePool_ns [OF that(1)] by (simp add: plainBucket_def cacheCurrent_def)
  obtain p1 where 1: "ensureBucket now b p = (None, p1)" "samePool p p1" "lcache p1 = lcache p" using ensureBucket_plain [OF pb] by blast
  have pb1: "plainBucket pe b p1" by (rule plainBucket_same [OF pb 1(2) cc [OF 1(2,3)]])
  obtain p2 where 2: "bucketHasVersions b p1 = (False, p2)" "samePool p1 p2" "lcache p2 = lcache p1"
    using hasVersions_plain [OF pb1] unfolding bucketHasVersions_def by force
  have s2: "samePool p p2" by (rule samePool_trans [OF 1(2) 2(2)])
  have pb2: "plainBucket pe b p2" by (rule plainBucket_same [OF pb s2 cc [OF s2]]) (simp add: 1 2)
  obtain owner p3 where 3: "namespaceKeys pe now b p2 = (Inr (nsKeys b p, owner), p3)" "samePool p2 p3" "cacheCurrent b p3"
      "\<forall>k \<in> nsSet b p. map_of owner k = Some (nsOwner b p k)"
    using namespaceKeys_plain [OF pb2, of now] unfolding samePool_ns [OF s2] by blast
  have s3: "samePool p p3" by (rule samePool_trans [OF s2 3(2)])
  have pb3: "plainBucket pe b p3" by (rule plainBucket_same [OF pb s3 3(3)])
  have ns: "set (nsKeys b p) = nsSet b p" using nsSet_finite [OF pb] by (simp add: nsKeys_def)
  have cand: "filter (\<lambda>k. \<not> pageSkips lp k) (nsKeys b p) = K"
    unfolding K_def nsAfter_def by (rule filter_cong) (auto simp: pageSkips_def lp_def not_le)
  have pl: "pageLoop lp n (nsKeys b p) noPage = noPage\<lparr>psWant := take n K, psTruncated := n < length K,
      psMarker := (if take n K = [] then [] else last (take n K))\<rparr>"
    using pageLoop_plain [of lp noPage n "nsKeys b p"] cand by (simp add: noPage_def lp_def Let_def)
  have "set K \<subseteq> nsSet b p" unfolding ns [symmetric] K_def nsAfter_def by (rule filter_is_subset)
  then have sub: "set (take n K) \<subseteq> nsSet b p" by (meson set_take_subset subset_trans)
  define p4 where "p4 = snd (statKeys (senvOf pe) b owner (take n K) p3)"
  have st: "statKeys (senvOf pe) b owner (take n K) p3 = (concat (map (described pe b p) (take n K)), p4)"
      "samePool p3 p4" "lcache p4 = lcache p3"
  proof -
    have m: "map (described pe b p3) (take n K) = map (described pe b p) (take n K)"
      using described_same [OF pb s3] sub by (intro map_cong) auto
    have "set (take n K) \<subseteq> nsSet b p3" "\<forall>k \<in> set (take n K). map_of owner k = Some (nsOwner b p3 k)"
      unfolding samePool_ns [OF s3] using sub 3(4) by blast+
    note sk = statKeys_plain [OF pb3 this, unfolded m, folded p4_def]
    then show "samePool p3 p4" "lcache p4 = lcache p3" by blast+
    show "statKeys (senvOf pe) b owner (take n K) p3 = (concat (map (described pe b p) (take n K)), p4)"
      using sk by (metis p4_def prod.collapse)
  qed
  have s4: "samePool p p4" by (rule samePool_trans [OF s3 st(2)])
  have "cacheCurrent b p4" using 3(3) st(3) samePool_ns [OF s3] samePool_ns [OF s4] by (simp add: cacheCurrent_def)
  then have pb4: "plainBucket pe b p4" by (rule plainBucket_same [OF pb s4])
  have "doList pe now b lp p = (Inr \<lparr>pgObjects = concat (map (described pe b p) (take n K)), pgPrefixes = [],
      pgIsTruncated = (n < length K), pgNextMarker = (if take n K = [] then [] else last (take n K))\<rparr>, p4)"
    using 1(1) 2(1) 3(1) pl st(1) by (simp add: doList_def plainPage_def Let_def n_def lp_def noPage_def)
  then have "ListObjectsV2 pe now b pre token [] mx sa p = (Inr (pageV2 token \<lparr>pgObjects = concat (map (described pe b p) (take n K)),
      pgPrefixes = [], pgIsTruncated = (n < length K), pgNextMarker = (if take n K = [] then [] else last (take n K))\<rparr>), p4)"
    by (simp add: ListObjectsV2_def lp_def)
  then show ?thesis
    using s4 pb4 n unfolding K_def [symmetric] n_def [symmetric] Let_def by (auto simp: pageV2_def)
qed

end
