(* ===== verification/ListingScan.thy ===== *)
theory ListingScan
  imports ListingPages Scanner Durability VersionLock
begin

text \<open>
  Following the pages of a listing to their end. The interface \<open>key_listing\<close> is what a paged listing promises its clients; the
  loop over its pages ends and hands every key's description to the client once, in the order of the keys. The pool's
  listing of a bucket without versions keeps the promise, so the scanner's walk of such a bucket ends and counts it exactly.
\<close>

subsection \<open>The paged listing as an interface\<close>

locale key_listing =
  fixes page :: "string \<Rightarrow> 's \<Rightarrow> (objErr + listV2Info) \<times> 's"
    and good :: "'s \<Rightarrow> bool"
    and keys :: "string list"
    and desc :: "string \<Rightarrow> objectInfo list"
    and lim :: nat
  assumes keys_sorted: "sorted_wrt (<) keys"
    and keys_named: "good s \<Longrightarrow> [] \<notin> set keys"
    and lim_pos: "0 < lim"
    and page_law: "good s \<Longrightarrow> \<exists>li s'. page token s = (Inr li, s') \<and> good s'
      \<and> (let K = filter (\<lambda>k. startOf token [] = [] \<or> startOf token [] < k) keys in
          l2Objects li = concat (map desc (take lim K)) \<and> l2IsTruncated li = (lim < length K)
          \<and> l2NextToken li = (if lim < length K then EncodeToString (last (take lim K)) else []))"
begin

definition after :: "string \<Rightarrow> string list" where
  "after start = filter (\<lambda>k. start = [] \<or> start < k) keys"

lemma startOf_Encode: "startOf (EncodeToString k) [] = k"
  by (cases "k = []") (simp_all add: startOf_def)

lemma after_next:
  assumes "good s" "after start \<noteq> []"
  shows "after (last (take lim (after start))) = drop lim (after start)"
proof -
  let ?K = "after start" and ?l = "last (take lim (after start))"
  have t: "take lim ?K \<noteq> []" using assms lim_pos by simp
  then have l: "?l \<in> set ?K" by (meson in_set_takeD last_in_set)
  then have n: "?l \<noteq> []" "start = [] \<or> start < ?l" using keys_named [OF assms(1)] by (auto simp: after_def)
  have "after ?l = filter (\<lambda>k. \<not> k \<le> ?l) ?K"
    unfolding after_def filter_filter by (rule filter_cong) (use n in \<open>auto simp: after_def not_le\<close>)
  then show ?thesis
    using after_last [of ?K lim] assms(2) lim_pos keys_sorted by (simp add: after_def sorted_wrt_filter)
qed

text \<open>A client that keeps the listed state in its own and does not change it.\<close>

lemma forPages_all:
  fixes get :: "'c \<Rightarrow> 's"
  assumes gp: "\<And>s c. get (put s c) = s" and sp: "\<And>xs s c. seen xs c \<Longrightarrow> seen xs (put s c)"
    and v: "\<And>os xs c. set os \<subseteq> (\<Union>k \<in> set keys. set (desc k)) \<Longrightarrow> seen xs c
      \<Longrightarrow> get (visit os c) = get c \<and> seen (xs @ os) (visit os c)"
    and c: "good (get c)" "seen xs c"
  shows "\<exists>c'. forPages (\<lambda>token c. case page token (get c) of (r, s) \<Rightarrow> (r, put s c)) visit failed (EncodeToString start) c = Some c'
    \<and> good (get c') \<and> seen (xs @ concat (map desc (after start))) c'"
  using c
proof (induction "length (after start)" arbitrary: start xs c rule: less_induct)
  case less
  let ?K = "after start"
  from page_law [OF less.prems(1), of "EncodeToString start"] obtain li s
    where pg: "page (EncodeToString start) (get c) = (Inr li, s)" "good s"
      "l2Objects li = concat (map desc (take lim ?K))" "l2IsTruncated li = (lim < length ?K)"
      "lim < length ?K \<Longrightarrow> l2NextToken li = EncodeToString (last (take lim ?K))"
    unfolding startOf_Encode by (auto simp: after_def Let_def)
  have "set (take lim ?K) \<subseteq> set keys" by (auto simp: after_def dest: in_set_takeD)
  then have sub: "set (l2Objects li) \<subseteq> (\<Union>k \<in> set keys. set (desc k))" unfolding pg(3) by auto
  let ?c = "visit (l2Objects li) (put s c)"
  have vc: "get ?c = s" "seen (xs @ l2Objects li) ?c" using v [OF sub sp [OF less.prems(2)]] gp by simp_all
  show ?case
  proof (cases "lim < length ?K")
    case False
    then have "xs @ l2Objects li = xs @ concat (map desc ?K)" unfolding pg(3) by simp
    then show ?thesis using False pg(1,2,4) vc by (subst forPages.simps) simp
  next
    case True
    let ?l = "last (take lim ?K)"
    have "?K \<noteq> []" using True by auto
    then have a: "after ?l = drop lim ?K" by (rule after_next [OF pg(2)])
    then have "length (after ?l) < length ?K" using True lim_pos by simp
    from less.hyps [OF this, of ?c "xs @ l2Objects li"] vc pg(2) obtain c'
      where r: "forPages (\<lambda>token c. case page token (get c) of (r, s) \<Rightarrow> (r, put s c)) visit failed (EncodeToString ?l) ?c = Some c'"
        "good (get c')" "seen ((xs @ l2Objects li) @ concat (map desc (drop lim ?K))) c'"
      unfolding a by auto
    have "concat (map desc ?K) = l2Objects li @ concat (map desc (drop lim ?K))"
      unfolding pg(3) by (simp flip: concat_append map_append)
    then show ?thesis using r pg(1,4,5) True by (subst forPages.simps) simp
  qed
qed

end

subsection \<open>The pool keeps the promise\<close>

lemma clampKeys_pos: "0 < clampKeys mx"
  by (simp add: clampKeys_def)

lemma objBelow_named:
  assumes "bucket_ok b f" "objBelow f b [] q"
  shows "unsegs q \<noteq> []"
proof
  assume e: "unsegs q = []"
  obtain nd where "lookupF f (b # q @ [metaFile]) = Some nd" using assms(2) by (auto simp: objBelow_def isFileAt_def split: option.splits)
  then have "list_all fileName q" using tree_entry(1) [of f "b # q @ [metaFile]" nd] assms(1) by (simp add: bucket_ok_def)
  then have "segs (unsegs q) = q" by (rule segs_unsegs)
  then show False using assms(2) by (simp add: e objBelow_def segs_def)
qed

lemma walkable_named: "walkable pe b s \<Longrightarrow> [] \<notin> setKeys b s"
  using objBelow_named by (fastforce simp: walkable_def setKeys_def objectKeys_def split: if_splits)

lemma nsKeys_named: "plainBucket pe b p \<Longrightarrow> [] \<notin> set (nsKeys b p)"
  using nsSet_finite [of pe b p] walkable_named [of pe b] by (auto simp: plainBucket_def nsKeys_def nsSet_def)

interpretation poolPages: key_listing
  "\<lambda>token. ListObjectsV2 pe now b [] token [] mx []"
  "\<lambda>p. plainBucket pe b p \<and> plainBucket pe b p0 \<and> samePool p0 p"
  "nsKeys b p0" "described pe b p0" "clampKeys mx"
  for pe now b mx p0
proof unfold_locales
  show "sorted_wrt (<) (nsKeys b p0)" by (simp add: nsKeys_def strict_sorted_iff)
  show "0 < clampKeys mx" by (rule clampKeys_pos)
  fix s token
  assume g: "plainBucket pe b s \<and> plainBucket pe b p0 \<and> samePool p0 s"
  then show "[] \<notin> set (nsKeys b p0)" using nsKeys_named by blast
  have ns: "nsKeys b s = nsKeys b p0" using g samePool_ns by blast
  have ds: "map (described pe b s) (take n (filter P (nsKeys b p0))) = map (described pe b p0) (take n (filter P (nsKeys b p0)))" for n P
    using g nsSet_finite [of pe b p0] described_same [of pe b p0 s]
    by (intro map_cong) (auto simp: nsKeys_def dest: in_set_takeD)
  show "\<exists>li s'. ListObjectsV2 pe now b [] token [] mx [] s = (Inr li, s')
      \<and> (plainBucket pe b s' \<and> plainBucket pe b p0 \<and> samePool p0 s')
      \<and> (let K = filter (\<lambda>k. startOf token [] = [] \<or> startOf token [] < k) (nsKeys b p0) in
          l2Objects li = concat (map (described pe b p0) (take (clampKeys mx) K)) \<and> l2IsTruncated li = (clampKeys mx < length K)
          \<and> l2NextToken li = (if clampKeys mx < length K then EncodeToString (last (take (clampKeys mx) K)) else []))"
  proof -
    have K: "nsAfter b [] (startOf token []) s = filter (\<lambda>k. startOf token [] = [] \<or> startOf token [] < k) (nsKeys b p0)"
      by (simp add: nsAfter_def ns)
    have "plainBucket pe b s" using g by simp
    from page_plain [OF this, of now "[]" token mx "[]", unfolded K Let_def ds]
    obtain li s' where 1: "ListObjectsV2 pe now b [] token [] mx [] s = (Inr li, s')" "samePool s s'" "plainBucket pe b s'"
      and 2: "l2Objects li = concat (map (described pe b p0) (take (clampKeys mx) (filter (\<lambda>k. startOf token [] = [] \<or> startOf token [] < k) (nsKeys b p0))))"
        "l2IsTruncated li = (clampKeys mx < length (filter (\<lambda>k. startOf token [] = [] \<or> startOf token [] < k) (nsKeys b p0)))"
        "l2NextToken li = (if clampKeys mx < length (filter (\<lambda>k. startOf token [] = [] \<or> startOf token [] < k) (nsKeys b p0))
           then EncodeToString (last (take (clampKeys mx) (filter (\<lambda>k. startOf token [] = [] \<or> startOf token [] < k) (nsKeys b p0)))) else [])"
      by blast
    have "samePool p0 s'" using g 1(2) samePool_trans by blast
    then show ?thesis using 1 2 g by (intro exI [of _ li] exI [of _ s']) (simp only: Let_def)
  qed
qed

subsection \<open>The walk of the scanner\<close>

text \<open>Nothing is to be done to the object: no time to live or rule is due.\<close>

definition undue :: "expRule list \<Rightarrow> time \<Rightarrow> objectInfo \<Rightarrow> bool" where
  "undue rules now ob \<longleftrightarrow> \<not> HasExpired (iUserDefined ob) now
     \<and> list_all (\<lambda>r. \<not> hasPrefix (iName ob) (erPrefix r)
         \<or> \<not> dueForExpiry (iModTime ob) (erDays r) (erDate r) now
           \<and> (erTransDays r \<le> 0 \<or> erTransTier r = [] \<or> timeSub now (iModTime ob) < daysDuration (erTransDays r))) rules"

lemma expireByRules_undue: "undue rules now ob \<Longrightarrow> expireByRules L b now ob rules st = (False, st)"
  by (induction rules) (auto simp: undue_def)

lemma transitionByRules_undue: "undue rules now ob \<Longrightarrow> transitionByRules tr b now ob rules st = st"
  by (induction rules) (auto simp: undue_def)

lemma visitObject_undue: "undue rules now ob \<Longrightarrow> lHeal L = None \<Longrightarrow> visitObject L b rules now ob st = account b ob st"
  by (simp add: visitObject_def Let_def healSample_def expireByRules_undue transitionByRules_undue undue_def split: option.split)

definition tallied :: "string \<Rightarrow> 's scan \<Rightarrow> objectInfo list \<Rightarrow> 's scan \<Rightarrow> bool" where
  "tallied b st0 xs st \<longleftrightarrow> scRep st = scRep st0 \<and> scHealScanned st = scHealScanned st0
     \<and> scUsage st = \<lparr>buObjects = int (length xs), buBytes = sum_list (map iSize xs)\<rparr>
     \<and> scPrefixes st = fold (\<lambda>ob. addPrefixUsage b (iName ob) (iSize ob)) xs (scPrefixes st0)"

lemma tallied_visit:
  assumes "\<forall>ob \<in> set os. undue rules now ob" "lHeal L = None" "tallied b st0 xs st"
  shows "scLayer (fold (visitObject L b rules now) os st) = scLayer st \<and> tallied b st0 (xs @ os) (fold (visitObject L b rules now) os st)"
  using assms
proof (induction os arbitrary: xs st)
  case (Cons ob os)
  have t: "tallied b st0 (xs @ [ob]) (account b ob st)" using Cons.prems(3) by (simp add: tallied_def account_def)
  have "undue rules now ob" "\<forall>ob \<in> set os. undue rules now ob" using Cons.prems(1) by simp_all
  then show ?case using Cons.IH [OF _ Cons.prems(2) t] Cons.prems(2) by (simp add: visitObject_undue) (simp add: account_def)
qed simp

subsection \<open>The abstract listing\<close>

text \<open>A bucket as its clients know it: the keys in order, with what a listing shows of each.\<close>

definition nsView :: "penv \<Rightarrow> string \<Rightarrow> pool \<Rightarrow> (string \<times> objectInfo list) list" where
  "nsView pe b p = map (\<lambda>k. (k, described pe b p k)) (nsKeys b p)"

definition specPage :: "(string \<times> objectInfo list) list \<Rightarrow> string \<Rightarrow> string \<Rightarrow> int \<Rightarrow> string \<Rightarrow> listV2Info" where
  "specPage view pre token maxKeys startAfter =
     (let start = startOf token startAfter; n = clampKeys maxKeys;
          K = filter (\<lambda>(k, _). hasPrefix k pre \<and> (start = [] \<or> start < k)) view
      in \<lparr>l2Objects = concat (map snd (take n K)), l2Prefixes = [], l2IsTruncated = (n < length K), l2Token = token,
          l2NextToken = (if n < length K then EncodeToString (fst (last (take n K))) else [])\<rparr>)"

lemma ListObjectsV2_token: "ListObjectsV2 pe now b pre token dl mx sa p = (Inr li, p') \<Longrightarrow> l2Token li = token"
  by (auto simp: ListObjectsV2_def pageV2_def split: prod.splits sum.splits)

subsection \<open>A concrete bucket\<close>

definition wit_lmeta :: "nat \<Rightarrow> xlMeta" where
  "wit_lmeta n = (baseMeta 5 [0, 1, 2, 3] wit_um wit_set)\<lparr>MSize := n, ETag := ''x'', Revision := 1\<rparr>"

definition wit_ldisk :: disk where
  "wit_ldisk = \<lparr>dfs = [([''bkt''], Dir), ([''bkt'', ''a''], Dir), ([''bkt'', ''a'', metaFile], File (MetaDoc (wit_lmeta 11))),
      ([''bkt'', ''d''], Dir), ([''bkt'', ''d'', ''b''], Dir), ([''bkt'', ''d'', ''b'', metaFile], File (MetaDoc (wit_lmeta 7)))],
     dfaults = (\<lambda>_. Works), dopno = 0\<rparr>"

definition wit_lset :: eset where "wit_lset = wit_set\<lparr>disks := [wit_ldisk, wit_ldisk, wit_ldisk, wit_failed]\<rparr>"

definition wit_lpool :: pool where
  "wit_lpool = \<lparr>psets = [wit_lset], pkms = None, bucketsOK = [], draining = [], lcache = []\<rparr>"

definition wit_lenv :: penv where
  "wit_lenv = \<lparr>senvOf = wit_env, aeadOf = \<lparr>aSeal = (\<lambda>_ _ p. p), aOpen = (\<lambda>_ _ c. Some c)\<rparr>, zstdD = (\<lambda>r. r), tierClient = (\<lambda>_. None),
     tierPut = (\<lambda>_ _ _ _ _. False), listCacheTTL = 15 * second, walkKeysMax = 2000000\<rparr>"

lemma wit_lfs:
  "lookupF (dfs wit_ldisk) (''bkt'' # q) =
     (if q = [] \<or> q = [''a''] \<or> q = [''d''] \<or> q = [''d'', ''b''] then Some Dir
      else if q = [''a'', metaFile] then Some (File (MetaDoc (wit_lmeta 11)))
      else if q = [''d'', ''b'', metaFile] then Some (File (MetaDoc (wit_lmeta 7))) else None)"
  by (auto simp: wit_ldisk_def lookupF_def)

lemma wit_ldisk_ok: "bucket_ok ''bkt'' (dfs wit_ldisk)" "up wit_ldisk" "steady wit_ldisk"
proof -
  have "tree_ok (dfs wit_ldisk)" by (simp add: tree_ok_def wit_ldisk_def fileName_def metaFile_def lookupF_def)
  moreover have "plainName ''bkt''" by code_simp
  ultimately show "bucket_ok ''bkt'' (dfs wit_ldisk)"
    using wit_lfs by (auto simp: bucket_ok_def isFileAt_def metaFile_def split: if_splits)
  show "up wit_ldisk" "steady wit_ldisk" by (simp_all add: up_def steady_def wit_ldisk_def)
qed

lemma wit_objBelow: "objBelow (dfs wit_ldisk) ''bkt'' [] q \<longleftrightarrow> q = [''a''] \<or> q = [''d'', ''b'']"
proof -
  have s: "q @ [metaFile] = q' @ [metaFile] \<longleftrightarrow> q = q'" "q @ [metaFile] \<noteq> xs @ [''a'']" "q @ [metaFile] \<noteq> xs @ [''b'']"
    "q @ [metaFile] \<noteq> xs @ [''d'']" for q q' xs
    by (simp_all add: metaFile_def)
  have f: "isFileAt (dfs wit_ldisk) (''bkt'' # q @ [metaFile]) \<longleftrightarrow> q = [''a''] \<or> q = [''d'', ''b'']" for q
    using s(1) [of q "[''a'']"] s(1) [of q "[''d'', ''b'']"] s(2) [of q "[]"] s(3) [of q "[''d'']"] s(4) [of q "[]"]
    unfolding isFileAt_def wit_lfs by simp
  have r: "r = [] \<or> r = [''d'']" if "strict_prefix r [''a''] \<or> strict_prefix r [''d'', ''b'']" for r :: path
    using that by (cases r) (auto simp: strict_prefix_def prefix_Cons)
  show ?thesis unfolding objBelow_def f using r by (auto simp: sysDir_def)
qed

lemma wit_setKeys: "setKeys ''bkt'' wit_lset = {''a'', ''d/b''}"
proof -
  have "{d \<in> set (disks wit_lset). up d} = {wit_ldisk}" using wit_ldisk_ok(2) by (auto simp: wit_lset_def up_def wit_failed_def)
  moreover have "objectKeys (dfs wit_ldisk) ''bkt'' = unsegs ` {[''a''], [''d'', ''b'']}"
    unfolding objectKeys_def wit_objBelow by (rule arg_cong [of _ _ "image unsegs"]) auto
  moreover have "setKeys ''bkt'' wit_lset = (\<Union>d \<in> {d \<in> set (disks wit_lset). up d}. objectKeys (dfs d) ''bkt'')" by (auto simp: setKeys_def)
  ultimately show ?thesis by (simp add: unsegs_def)
qed

lemma wit_lset_ok: "steadySet wit_lset"
proof -
  have "set_ok wit_lset"
    using wit_set_ok(1) wit_ldisk_ok(3) by (auto simp: set_ok_def wit_lset_def setN_def wit_set_def steady_def down_def wit_failed_def)
  moreover have "{0, 1, 2} \<subseteq> {i. i < setN wit_lset \<and> up (disks wit_lset ! i)}"
    using wit_ldisk_ok(2) by (simp add: wit_lset_def setN_def)
  then have "card {0, 1, 2 :: nat} \<le> card {i. i < setN wit_lset \<and> up (disks wit_lset ! i)}" by (rule card_mono [rotated]) simp
  then have "writeQuorum wit_lset \<le> card {i. i < setN wit_lset \<and> up (disks wit_lset ! i)}"
    by (simp add: writeQuorum_def wit_lset_def wit_set_def)
  ultimately show ?thesis by (simp add: steadySet_def)
qed

lemma wit_plain: "plainBucket wit_lenv ''bkt'' wit_lpool"
proof -
  have n: "validBucketName ''bkt''" "plainName ''bkt''" by code_simp+
  have "walkable wit_lenv ''bkt'' wit_lset"
    using wit_ldisk_ok unfolding walkable_def wit_setKeys by (auto simp: wit_lset_def wit_failed_def steady_def up_def down_def wit_lenv_def)
  moreover have "noVlog ''bkt'' wit_lset"
    using wit_lfs by (auto simp: noVlog_def wit_lset_def up_def wit_failed_def sysDir_def)
  moreover have "fst (StatBucket ''bkt'' wit_lset) = None" by code_simp
  ultimately show ?thesis using n by (simp add: plainBucket_def wit_lpool_def cacheCurrent_def)
qed

lemma wit_described:
  "described wit_lenv ''bkt'' wit_lpool ''a'' = [metaToInfo ''bkt'' ''a'' (wit_lmeta 11)]"
  "described wit_lenv ''bkt'' wit_lpool ''d/b'' = [metaToInfo ''bkt'' ''d/b'' (wit_lmeta 7)]"
proof -
  have ow: "nsOwner ''bkt'' wit_lpool k = 0" if "k \<in> {''a'', ''d/b''}" for k
    using that wit_setKeys by (simp add: nsOwner_def holders_def wit_lpool_def)
  have on: "onUp wit_lset P" if "\<And>i. P i wit_ldisk" for P
    using that by (auto simp: onUp_def wit_lset_def setN_def up_def wit_failed_def less_Suc_eq numeral_eq_Suc)
  have dp: "dpath ''bkt'' ''a'' = [''bkt'', ''a'']" "dpath ''bkt'' ''d/b'' = [''bkt'', ''d'', ''b'']" by code_simp+
  have "fst (readMeta wit_env ''bkt'' ''a'' wit_lset) = Inr (wit_lmeta 11)"
    "fst (readMeta wit_env ''bkt'' ''d/b'' wit_lset) = Inr (wit_lmeta 7)"
    by (rule readMeta_unanimous [OF wit_env_ok(1) wit_lset_ok], rule on, simp add: dp wit_lfs metaFile_def)+
  then show "described wit_lenv ''bkt'' wit_lpool ''a'' = [metaToInfo ''bkt'' ''a'' (wit_lmeta 11)]"
    "described wit_lenv ''bkt'' wit_lpool ''d/b'' = [metaToInfo ''bkt'' ''d/b'' (wit_lmeta 7)]"
    using ow by (simp_all add: described_def wit_lenv_def wit_lpool_def)
qed

lemma wit_view: "nsView wit_lenv ''bkt'' wit_lpool =
    [(''a'', [metaToInfo ''bkt'' ''a'' (wit_lmeta 11)]), (''d/b'', [metaToInfo ''bkt'' ''d/b'' (wit_lmeta 7)])]"
proof -
  have "nsKeys ''bkt'' wit_lpool = sorted_list_of_set {''a'', ''d/b''}" by (simp add: nsKeys_def nsSet_def wit_lpool_def wit_setKeys)
  also have "\<dots> = [''a'', ''d/b'']" by simp
  finally show ?thesis by (simp add: nsView_def wit_described)
qed

subsection \<open>Properties\<close>

text \<open>
  C7: the paged listing of a bucket without versions refines the listing of its sorted namespace. Whatever the number of sets
  and disks, the cached walk or a fresh one, a page taken without delimiter is the page of the abstract namespace, and listing
  leaves the namespace and what makes it listable as they are.
\<close>

theorem listing_refines_namespace:
  assumes "plainBucket pe b p"
  shows "\<exists>p'. ListObjectsV2 pe now b pre token [] mx sa p = (Inr (specPage (nsView pe b p) pre token mx sa), p')
    \<and> nsView pe b p' = nsView pe b p \<and> plainBucket pe b p'"
proof -
  obtain li p' where r: "ListObjectsV2 pe now b pre token [] mx sa p = (Inr li, p')" "samePool p p'" "plainBucket pe b p'"
    and l: "let K = nsAfter b pre (startOf token sa) p; n = clampKeys mx in
        l2Objects li = concat (map (described pe b p) (take n K)) \<and> l2Prefixes li = [] \<and> l2IsTruncated li = (n < length K)
        \<and> l2NextToken li = (if n < length K then EncodeToString (last (take n K)) else [])"
    using page_plain [OF assms] by blast
  have "filter (\<lambda>(k, _). hasPrefix k pre \<and> (st = [] \<or> st < k)) (nsView pe b p) = map (\<lambda>k. (k, described pe b p k)) (nsAfter b pre st p)" for st
    by (simp add: nsView_def nsAfter_def filter_map comp_def)
  moreover have "fst (last (map (\<lambda>k. (k, described pe b p k)) (take n K))) = last (take n K)" if "0 < n" "n < length K" for n K
    using that by (subst last_map) auto
  ultimately have "li = specPage (nsView pe b p) pre token mx sa"
    using l ListObjectsV2_token [OF r(1)] clampKeys_pos [of mx]
    by (cases li) (auto simp: specPage_def Let_def take_map comp_def)
  moreover have "nsView pe b p' = nsView pe b p"
    using samePool_ns [OF r(2)] described_same [OF assms r(2)] nsSet_finite [OF assms] by (simp add: nsView_def nsKeys_def)
  ultimately show ?thesis using r by blast
qed

theorem listing_refines_namespace_witness:
  "\<exists>p' p''. ListObjectsV2 wit_lenv 9 ''bkt'' [] [] [] 1 [] wit_lpool =
      (Inr \<lparr>l2Objects = [metaToInfo ''bkt'' ''a'' (wit_lmeta 11)], l2Prefixes = [], l2IsTruncated = True, l2Token = [],
            l2NextToken = EncodeToString ''a''\<rparr>, p')
    \<and> ListObjectsV2 wit_lenv 9 ''bkt'' [] (EncodeToString ''a'') [] 1 [] p' =
      (Inr \<lparr>l2Objects = [metaToInfo ''bkt'' ''d/b'' (wit_lmeta 7)], l2Prefixes = [], l2IsTruncated = False,
            l2Token = EncodeToString ''a'', l2NextToken = []\<rparr>, p'')"
proof -
  note r = listing_refines_namespace [of wit_lenv "''bkt''"]
  have c: "clampKeys 1 = 1" "startOf [] [] = []" "startOf (EncodeToString ''a'') [] = ''a''" by (simp_all add: clampKeys_def startOf_def)
  obtain p' where p': "ListObjectsV2 wit_lenv 9 ''bkt'' [] [] [] 1 [] wit_lpool = (Inr (specPage (nsView wit_lenv ''bkt'' wit_lpool) [] [] 1 []), p')"
      "nsView wit_lenv ''bkt'' p' = nsView wit_lenv ''bkt'' wit_lpool" "plainBucket wit_lenv ''bkt'' p'"
    using r [OF wit_plain] by blast
  obtain p'' where "ListObjectsV2 wit_lenv 9 ''bkt'' [] (EncodeToString ''a'') [] 1 [] p' =
      (Inr (specPage (nsView wit_lenv ''bkt'' p') [] (EncodeToString ''a'') 1 []), p'')"
    using r [OF p'(3)] by blast
  then show ?thesis using p'(1) unfolding p'(2) wit_view by (simp add: specPage_def Let_def c)
qed


definition wit_layer :: "pool layer" where
  "wit_layer = \<lparr>lListBuckets = (\<lambda>p. (Inr [''bkt''], p)), lListV2 = (\<lambda>b token. ListObjectsV2 wit_lenv 9 b [] token [] 1000 []),
     lListVersions = (\<lambda>b. ListObjectVersions wit_lenv 9 b [] [] [] 1000), lListUploads = (\<lambda>b p. (Inr [], p)),
     lDelete = (\<lambda>_ _ _ p. (Some OObjectLocked, p)), lAbort = (\<lambda>_ _ _ p. (None, p)), lHeal = None, lTransition = None, lGCDedup = None\<rparr>"

definition wit_rule :: expRule where
  "wit_rule = \<lparr>erPrefix = ''d/'', erDays = 30, erDate = 0, erNoncurrent = 0, erAbortMPU = 0, erTransDays = 0, erTransTier = []\<rparr>"

definition wit_scan :: "pool scan" where
  "wit_scan = \<lparr>scLayer = wit_lpool, scRep = noReport, scUsage = \<lparr>buObjects = 0, buBytes = 0\<rparr>, scPrefixes = [], scHealScanned = 0\<rparr>"


end
