(* ===== verification/ScannerProps.thy ===== *)
theory ScannerProps
  imports ListingScan
begin

text \<open>
  When the scanner deletes, and a listing that cannot be followed to its end.
\<close>

subsection \<open>Age in days\<close>

lemma daysDuration_small: "0 \<le> n \<Longrightarrow> n \<le> 106751 \<Longrightarrow> daysDuration n = n * day"
  unfolding daysDuration_def by (rule wrap64_id) simp_all

lemma daysDuration_wraps: "106752 \<le> n \<Longrightarrow> n \<le> 213503 \<Longrightarrow> daysDuration n < 0"
proof -
  assume n: "106752 \<le> n" "n \<le> 213503"
  then have "(n * day + 2 ^ 63) mod 2 ^ 64 = n * day + 2 ^ 63 - 2 ^ 64"
    using mod_add_self2 [of "n * day + 2 ^ 63 - 2 ^ 64" "2 ^ 64 :: int"] by (simp add: add.commute)
  then show ?thesis using n by (simp add: daysDuration_def wrap64_def)
qed

text \<open>
  A rule of up to 106751 days expires an object exactly when it is that many days old, as long as its age fits
  a duration. A longer one, up to 213503 days, wraps around to a negative duration and
  expires every object at once, however young.
\<close>

theorem expiry_age_bounds:
  assumes "modt \<le> now" "now - modt < 2 ^ 63"
  shows "(1 \<le> days \<and> days \<le> 106751 \<longrightarrow> (dueForExpiry modt days 0 now \<longleftrightarrow> now - modt \<ge> days * day))
    \<and> (106752 \<le> days \<and> days \<le> 213503 \<longrightarrow> dueForExpiry modt days 0 now)"
  using assms daysDuration_small [of days] daysDuration_wraps [of days] by (auto simp: dueForExpiry_def timeSub_def)

theorem expiry_age_bounds_witness:
  "dueForExpiry 5 30 0 (5 + 31 * day) \<and> \<not> dueForExpiry 5 30 0 (5 + 29 * day) \<and> dueForExpiry 5 110000 0 6"
  using expiry_age_bounds [of 5 "5 + 31 * day" 30] expiry_age_bounds [of 5 "5 + 29 * day" 30] expiry_age_bounds [of 5 6 110000]
  by simp

subsection \<open>Versioned buckets\<close>

text \<open>
  C40: the listing of a bucket that keeps versions cannot be paged. The version listing always starts at the first key, and what lies up to the
  start is dropped from the page after it was cut at the limit: once the start has reached the last key of the first page, the answer
  is an empty page that claims to be truncated, and its token is empty, which leads back to the first page.
\<close>

theorem versioned_paging_stuck:
  assumes "ensureBucket now b p = (None, p1)" "bucketHasVersions b p1 = (True, p2)"
    and "listVersions pe now b pre dl (int (clampKeys mx)) True p2 = (Inr lv, p3)"
    and "lvIsTruncated lv" "startOf token sa \<noteq> []" "\<forall>ob \<in> set (lvObjects lv). iName ob \<le> startOf token sa"
  shows "ListObjectsV2 pe now b pre token dl mx sa p =
     (Inr \<lparr>l2Objects = [], l2Prefixes = lvPrefixes lv, l2IsTruncated = True, l2Token = token, l2NextToken = []\<rparr>, p3)"
proof -
  have "filter (\<lambda>ob. \<not> (startOf token sa \<noteq> [] \<and> iName ob \<le> startOf token sa)) (lvObjects lv) = []"
    using assms(5,6) by (simp add: filter_empty_conv)
  then show ?thesis using assms(1-4) by (simp add: ListObjectsV2_def doList_def versionedPage_def pageV2_def Let_def)
qed

definition wit_vdisk :: disk where
  "wit_vdisk = \<lparr>dfs = [([''bkt''], Dir), ([''bkt'', ''a''], Dir), ([''bkt'', ''a'', metaFile], File (MetaDoc (wit_lmeta 11))),
      ([''bkt'', ''b''], Dir), ([''bkt'', ''b'', metaFile], File (MetaDoc (wit_lmeta 7))),
      ([''bkt'', sysDir], Dir), ([''bkt'', sysDir, ''vlog''], Dir), ([''bkt'', sysDir, ''vlog'', ''a''], Dir),
      ([''bkt'', sysDir, ''vlog'', ''a'', ''vlog.json''],
        File (VlogDoc [\<lparr>VlogID = ''v1'', DeleteMarker = False, VModTime = 5, VLockMode = [], VRetainUntil = 0, VLegalHold = False\<rparr>]))],
     dfaults = (\<lambda>_. Works), dopno = 0\<rparr>"

definition wit_vpool :: pool where
  "wit_vpool = \<lparr>psets = [\<lparr>disks = [wit_vdisk], ec = \<lparr>enc = codec22, dataBlocks = 1, parityBlocks = 0, blockSize = 4\<rparr>, hasMrf = False,
     mrfCalls = []\<rparr>], pkms = None, bucketsOK = [], draining = [], lcache = []\<rparr>"

definition wit_venv :: penv where
  "wit_venv = \<lparr>senvOf = \<lparr>bitrotRaw = id, md5Raw = id, sha256RawE = id, zstdC = id, inlineMaxBytes = 0, dedupEnabled = False,
       compressDisabled = False, mapOrder = id\<rparr>, aeadOf = \<lparr>aSeal = (\<lambda>_ _ p. p), aOpen = (\<lambda>_ _ c. Some c)\<rparr>, zstdD = id,
     tierClient = (\<lambda>_. None), tierPut = (\<lambda>_ _ _ _ _. False), listCacheTTL = 0, walkKeysMax = 9\<rparr>"

lemma wit_vlist:
  "case ensureBucket 9 ''bkt'' wit_vpool of (Some _, _) \<Rightarrow> False | (None, p1) \<Rightarrow>
     (case bucketHasVersions ''bkt'' p1 of (False, _) \<Rightarrow> False | (True, p2) \<Rightarrow>
        (case listVersions wit_venv 9 ''bkt'' [] [] 1 True p2 of
           (Inl _, _) \<Rightarrow> False
         | (Inr lv, p3) \<Rightarrow> lvIsTruncated lv \<and> lvPrefixes lv = [] \<and> list_all (\<lambda>ob. iName ob \<le> ''a'') (lvObjects lv)))"
  by code_simp

theorem versioned_paging_stuck_witness:
  "\<exists>p'. ListObjectsV2 wit_venv 9 ''bkt'' [] (EncodeToString ''a'') [] 1 [] wit_vpool =
     (Inr \<lparr>l2Objects = [], l2Prefixes = [], l2IsTruncated = True, l2Token = EncodeToString ''a'', l2NextToken = []\<rparr>, p')"
proof -
  have c: "int (clampKeys 1) = 1" "startOf (EncodeToString ''a'') [] = ''a''" by (simp_all add: clampKeys_def startOf_def)
  obtain p1 p2 lv p3 where l: "ensureBucket 9 ''bkt'' wit_vpool = (None, p1)" "bucketHasVersions ''bkt'' p1 = (True, p2)"
      "listVersions wit_venv 9 ''bkt'' [] [] (int (clampKeys 1)) True p2 = (Inr lv, p3)"
      "lvIsTruncated lv" "lvPrefixes lv = []" "\<forall>ob \<in> set (lvObjects lv). iName ob \<le> ''a''"
    using wit_vlist unfolding c by (auto simp: list_all_iff split: prod.splits option.splits bool.splits sum.splits)
  show ?thesis using versioned_paging_stuck [OF l(1-4), of "EncodeToString ''a''" "[]"] l(5,6) unfolding c by simp
qed

end
