(* ===== verification/MultipartProps.thy ===== *)
theory MultipartProps
  imports ListingPages Multipart WitnessCodec
begin

text \<open>
  What completing a multipart upload promises: a list of parts that does not check is refused before anything is written, and
  a list that was accepted names existing parts in ascending order.
\<close>

lemma readUploadFrom_keeps:
  "map dfs (snd (readUploadFrom uid ds)) = map dfs ds" "map dfaults (snd (readUploadFrom uid ds)) = map dfaults ds"
  by (induction ds) (auto simp: split_beta ReadAll_keeps split: option.split)

lemma readUpload_keeps: "same_store s (snd (readUpload uid s))"
  using readUploadFrom_keeps [of uid "disks s"] by (simp add: readUpload_def split_beta same_store_def)

lemma loadUploadIn_keeps:
  assumes "\<forall>i \<in> set ix. i < length (psets p)"
  shows "samePool p (snd (loadUploadIn uid ix p))
    \<and> (\<forall>u i. fst (loadUploadIn uid ix p) = Inr (u, i) \<longrightarrow> i < length (psets (snd (loadUploadIn uid ix p))))"
  using assms
proof (induction ix arbitrary: p)
  case (Cons i ix)
  let ?p = "snd (onSet i (readUpload uid) p)"
  have i: "i < length (psets p)" using Cons.prems by simp
  have s: "samePool p ?p" by (rule samePool_onSet(1) [OF readUpload_keeps i])
  have l: "length (psets ?p) = length (psets p)" by (rule samePool_nth(1) [OF s])
  then have "\<forall>i \<in> set ix. i < length (psets ?p)" using Cons.prems by simp
  from Cons.IH [OF this] show ?case
    using s samePool_trans [OF s] i l by (auto simp: split_beta split: option.split)
qed simp

lemma loadUpload_keeps: "samePool p (snd (loadUpload uid p))"
    "fst (loadUpload uid p) = Inr (u, i) \<Longrightarrow> i < length (psets (snd (loadUpload uid p)))"
  unfolding loadUpload_def using loadUploadIn_keeps [of "[0..<length (psets p)]" p uid] by auto

lemma statParts_keeps: "same_store s (snd (statParts env uid es s))"
proof (induction es arbitrary: s)
  case (Cons e es)
  have "same_store s (snd (statParts env uid es (snd (statObject env [] k s))))" for k
    using same_store_trans [OF readMeta_keeps Cons.IH] by (simp add: statObject_def)
  then show ?case using Cons.IH by (simp add: split_beta split: option.split)
qed simp

lemma ListDir_keeps: "dfs (snd (ListDir b k d)) = dfs d" "dfaults (snd (ListDir b k d)) = dfaults d"
  by (auto simp: ListDir_def Let_def split: option.split node.split)

lemma listUploadedParts_keeps: "same_store s (snd (listUploadedParts env uid s))"
proof (cases "firstOnline (disks s)")
  case (Pair r ds)
  have k: "map dfs ds = map dfs (disks s)" "map dfaults ds = map dfaults (disks s)" "\<And>i. r = Some i \<Longrightarrow> i < length ds"
    using firstOnline_keeps [of "disks s"] Pair by (simp_all, metis length_map)
  show ?thesis
  proof (cases r)
    case None
    then show ?thesis using Pair k by (simp add: listUploadedParts_def same_store_def)
  next
    case (Some i)
    let ?s = "s\<lparr>disks := ds[i := snd (ListDir [] (mpUploadDir uid) (ds ! i))]\<rparr>"
    have "same_store s ?s"
    proof -
      have "map dfs (ds[i := snd (ListDir b k (ds ! i))]) = map dfs ds" "map dfaults (ds[i := snd (ListDir b k (ds ! i))]) = map dfaults ds" for b k
        using k(3) [OF Some] by (auto intro!: nth_equalityI simp: nth_list_update ListDir_keeps)
      then show ?thesis using k by (simp add: same_store_def)
    qed
    then have "same_store s (snd (statParts env uid es ?s))" "same_store s ?s" for es
      using same_store_trans statParts_keeps by blast+
    then show ?thesis using Pair Some by (simp add: listUploadedParts_def split_beta Let_def split: sum.split)
  qed
qed

lemma checkParts_ascending: "checkParts have prev cps = Inr pts \<Longrightarrow> sorted_wrt (<) (prev # map cpPartNumber cps)"
proof (induction cps arbitrary: prev pts)
  case (Cons cp cps)
  have lt: "prev < cpPartNumber cp" using Cons.prems by (auto split: if_splits)
  obtain pts' where "checkParts have (cpPartNumber cp) cps = Inr pts'"
    using Cons.prems by (auto split: if_splits option.splits sum.splits)
  then have "sorted_wrt (<) (cpPartNumber cp # map cpPartNumber cps)" by (rule Cons.IH)
  then show ?case using lt by auto
qed simp

lemma checkParts_known:
  "checkParts have prev cps = Inr pts \<Longrightarrow> list_all2 (\<lambda>cp pt. pt \<in> set have \<and> int (piPartNumber pt) = cpPartNumber cp
     \<and> normalizeETag (cpETag cp) = normalizeETag (piETag pt)) cps pts"
proof (induction cps arbitrary: prev pts)
  case (Cons cp cps)
  obtain pt pts' where p: "find (\<lambda>pt. int (piPartNumber pt) = cpPartNumber cp) (rev have) = Some pt"
      "normalizeETag (cpETag cp) = normalizeETag (piETag pt)" "checkParts have (cpPartNumber cp) cps = Inr pts'" "pts = pt # pts'"
    using Cons.prems by (auto split: if_splits option.splits sum.splits)
  from p(1) have "pt \<in> set have" "int (piPartNumber pt) = cpPartNumber cp" by (auto simp: find_Some_iff in_set_conv_nth [symmetric])
      (metis length_rev nth_mem set_rev)
  then show ?case using p(2,4) Cons.IH [OF p(3)] by simp
qed simp

lemma mapErr_not_refusal: "mapErr e \<notin> {OInvalidUploadID, OInvalidPart, OInvalidPartOrder, OPartTooSmall}"
  by (cases e) (auto simp: mapErr_def split: diskErr.split)

text \<open>
  C39: completing a multipart upload is refused before it writes. When the upload is unknown, the list of parts is empty or not in
  ascending order, or a part is missing, has another ETag or is too small, no disk changes; and
  when it is accepted, the list named at least one part and their numbers were positive and strictly ascending.
\<close>

theorem complete_refused_keeps:
  assumes "CompleteMultipartUpload pe dr bucket key uid cps p = (r, p')"
  shows "(case r of Inl e \<Rightarrow> e \<in> {OInvalidUploadID, OInvalidPart, OInvalidPartOrder, OPartTooSmall} \<longrightarrow> samePool p p'
     | Inr oi \<Rightarrow> cps \<noteq> [] \<and> sorted_wrt (<) (0 # map cpPartNumber cps))"
proof -
  obtain r1 p1 where l: "loadUpload uid p = (r1, p1)" by fastforce
  have s1: "samePool p p1" and i1: "\<And>u i. r1 = Inr (u, i) \<Longrightarrow> i < length (psets p1)" using loadUpload_keeps [where p = p and uid = uid] l by auto
  have inv: "samePool p (q\<lparr>lcache := c\<rparr>) \<longleftrightarrow> samePool p q" for q c by (rule samePool_cong) simp
  show ?thesis
  proof (cases r1)
    case (Inl e)
    then show ?thesis using assms l s1 by (auto simp: CompleteMultipartUpload_def invalidateList_def inv)
  next
    case (Inr ui)
    obtain u i where ui: "ui = (u, i)" by fastforce
    obtain r2 p2 where q: "onSet i (listUploadedParts (senvOf pe) uid) p1 = (r2, p2)" by fastforce
    have "i < length (psets p1)" using i1 Inr ui by simp
    then have "samePool p1 (snd (onSet i (listUploadedParts (senvOf pe) uid) p1))" by (rule samePool_onSet(1) [OF listUploadedParts_keeps])
    then have "samePool p1 p2" by (simp add: q)
    then have s2: "samePool p p2" by (rule samePool_trans [OF s1])
    have C: "(r, p') = invalidateList bucket (if cps = [] then (Inl OInvalidPart, p1) else
        (case r2 of Inl e \<Rightarrow> (Inl e, p2)
         | Inr have \<Rightarrow> (case checkParts have 0 cps of
             Inl e \<Rightarrow> (Inl e, p2)
           | Inr pts \<Rightarrow> (case onSet i (assemble pe dr bucket key uid u pts) p2 of
               (Inl e, p3) \<Rightarrow> (Inl (mapErr e), p3)
             | (Inr m, p3) \<Rightarrow> (Inr (metaToInfo bucket key m), dropUpload uid i p3)))))"
      unfolding assms [symmetric] CompleteMultipartUpload_def using l Inr ui by (simp add: q cong: if_cong)
    show ?thesis
    proof (cases "cps = [] \<or> (\<exists>e. r2 = Inl e) \<or> (\<exists>have e. r2 = Inr have \<and> checkParts have 0 cps = Inl e)")
      case True
      then have "\<exists>e q. (q = p1 \<or> q = p2) \<and> (r, p') = invalidateList bucket (Inl e, q)"
        using C by (elim disjE exE conjE) (simp_all cong: if_cong split: if_splits, blast+)
      then obtain e q where "q = p1 \<or> q = p2" "(r, p') = invalidateList bucket (Inl e, q)" by blast
      then show ?thesis using s1 s2 by (auto simp: invalidateList_def inv)
    next
      case False
      then obtain hv pts where put: "cps \<noteq> []" "r2 = Inr hv" "checkParts hv 0 cps = Inr pts"
        by (metis sum.exhaust)
      obtain r3 p3 where a: "onSet i (assemble pe dr bucket key uid u pts) p2 = (r3, p3)" by fastforce
      show ?thesis
        using C put a checkParts_ascending [OF put(3)] mapErr_not_refusal by (cases r3) (auto simp: invalidateList_def)
    qed
  qed
qed

subsection \<open>A concrete upload\<close>

definition wit_updisk :: disk where
  "wit_updisk = \<lparr>dfs = [([''bkt''], Dir), ([''.gostore.sys''], Dir), ([''.gostore.sys'', ''multipart''], Dir),
      ([''.gostore.sys'', ''multipart'', ''u1''], Dir),
      ([''.gostore.sys'', ''multipart'', ''u1'', ''upload.json''],
        File (UploadDoc \<lparr>UBucket = ''bkt'', UObject = ''k'', Initiated = 5, UContentType = [], UContentEnc = [], UUserMeta = [], UUserTags = []\<rparr>))],
     dfaults = (\<lambda>_. Works), dopno = 0\<rparr>"

definition wit_uppool :: pool where
  "wit_uppool = \<lparr>psets = [\<lparr>disks = [wit_updisk], ec = \<lparr>enc = codec22, dataBlocks = 1, parityBlocks = 0, blockSize = 4\<rparr>, hasMrf = False,
     mrfCalls = []\<rparr>], pkms = None, bucketsOK = [], draining = [], lcache = []\<rparr>"

definition wit_upenv :: penv where
  "wit_upenv = \<lparr>senvOf = \<lparr>bitrotRaw = id, md5Raw = id, sha256RawE = id, zstdC = id, inlineMaxBytes = 0, dedupEnabled = False,
       compressDisabled = False, mapOrder = id\<rparr>, aeadOf = \<lparr>aSeal = (\<lambda>_ _ p. p), aOpen = (\<lambda>_ _ c. Some c)\<rparr>, zstdD = id,
     tierClient = (\<lambda>_. None), tierPut = (\<lambda>_ _ _ _ _. False), listCacheTTL = 0, walkKeysMax = 9\<rparr>"

definition wit_updraws :: draws where
  "wit_updraws = \<lparr>dNow = 9, dVid = [], dId1 = ''i1'', dId2 = ''i2'', dDek = [], dPfx = [], dNonce = []\<rparr>"

theorem complete_refused_keeps_witness:
  "\<exists>p'. CompleteMultipartUpload wit_upenv wit_updraws ''bkt'' ''k'' ''u1'' [\<lparr>cpPartNumber = 1, cpETag = ''x''\<rparr>] wit_uppool
      = (Inl OInvalidPart, p') \<and> samePool wit_uppool p'"
proof -
  let ?r = "CompleteMultipartUpload wit_upenv wit_updraws ''bkt'' ''k'' ''u1'' [\<lparr>cpPartNumber = 1, cpETag = ''x''\<rparr>] wit_uppool"
  have "fst ?r = Inl OInvalidPart" by code_simp
  then show ?thesis using complete_refused_keeps [OF prod.collapse [symmetric, of ?r]] by (intro exI [of _ "snd ?r"]) (simp add: prod_eq_iff)
qed

end
