(* ===== verification/Decommission.thy ===== *)
theory Decommission
  imports Listing Config
begin

text \<open>
  Draining a set and rebalancing (\<open>internal/erasure/decommission.go\<close>). A set marked as draining gets no new objects; a job walks it
  and moves every object, with its versions, to the set the key now hashes to. The layout is kept as a configuration object.
  Each move holds the namespace lock of its key; the model runs a job without client requests between its moves. What the
  requests of a job draw is a function of the bucket, the key and the number of the request.
\<close>

subsection \<open>The layout\<close>

definition poolLayoutKey :: string where "poolLayoutKey = ''pool/layout.json''"

datatype jobKind = NoJob | DecommissionJob | RebalanceJob

record decomProgress =
  jRunning :: bool
  jKind :: jobKind
  jSetIndex :: int
  jMoved :: nat
  jFailed :: nat
  jStarted :: time
  jFinished :: time

definition noJob :: decomProgress where
  "noJob = \<lparr>jRunning = False, jKind = NoJob, jSetIndex = 0, jMoved = 0, jFailed = 0, jStarted = 0, jFinished = 0\<rparr>"

record poolStatus =
  pstSets :: nat
  pstDraining :: "nat list"
  pstProgress :: decomProgress

definition PoolStatus :: "pool \<Rightarrow> decomProgress \<Rightarrow> poolStatus" where
  "PoolStatus p j = \<lparr>pstSets = length (psets p), pstDraining = sort (draining p), pstProgress = j\<rparr>"

text \<open>The store is the pool's own configuration objects, as \<open>main\<close> wires it; \<open>ord\<close> and \<open>gate\<close> are those of \<open>ReadConfig\<close>.\<close>

definition LoadLayout :: "(content list \<Rightarrow> content list) \<Rightarrow> bool \<Rightarrow> pool \<Rightarrow> pool" where
  "LoadLayout ord gate p =
     (case ReadConfig ord gate poolLayoutKey (psets p) of (c, ss) \<Rightarrow>
        (let p1 = p\<lparr>psets := ss, draining := []\<rparr> in
         case c of
           Some (LayoutDoc ly) \<Rightarrow>
             p1\<lparr>draining := remdups (map nat (filter (\<lambda>i. 0 \<le> i \<and> i < int (length (psets p))) (lyDraining ly)))\<rparr>
         | _ \<Rightarrow> p1))"

definition saveLayout :: "time \<Rightarrow> pool \<Rightarrow> pool" where
  "saveLayout now p =
     p\<lparr>psets := snd (WriteConfig poolLayoutKey (LayoutDoc \<lparr>lyDraining = map int (sort (draining p)), lyUpdatedAt = now\<rparr>) (psets p))\<rparr>"

subsection \<open>Moving one object\<close>

definition getPlain :: "penv \<Rightarrow> kms option \<Rightarrow> string \<Rightarrow> string \<Rightarrow> eset \<Rightarrow> (objErr + (reader \<times> int \<times> xlMeta)) \<times> eset" where
  "getPlain pe km bucket dir s =
     (case readMeta (senvOf pe) bucket dir s of
        (Inl e, s1) \<Rightarrow> (Inl (OSet e), s1)
      | (Inr m, s1) \<Rightarrow>
          if SSE m \<noteq> [] \<and> km = None then (Inl OCorruptedData, s1)
          else case getObject (senvOf pe) bucket dir 0 (int (MSize m)) s1 of (out, e, s2) \<Rightarrow>
            (let src = \<lparr>rdata = out, rfails = (e \<noteq> None)\<rparr> in
             ((if SSE m \<noteq> [] then
                 (case decryptReader (aeadOf pe) (the km) m src 0 (PlainSize m) of
                    Inl de \<Rightarrow> Inl (ODec de)
                  | Inr (bs, er) \<Rightarrow> Inr (\<lparr>rdata = bs, rfails = (er \<noteq> None)\<rparr>, int (PlainSize m), m))
               else if Compressed m \<noteq> [] then
                 (case zstdDecompressRange pe src 0 (int (PlainSize m)) of
                    Inl ze \<Rightarrow> Inl ze
                  | Inr (bs, er) \<Rightarrow> Inr (\<lparr>rdata = bs, rfails = (er \<noteq> None)\<rparr>, int (PlainSize m), m))
               else Inr (src, int (MSize m), m)), s2)))"

definition userMetaFromMeta :: "xlMeta \<Rightarrow> userMeta" where
  "userMetaFromMeta m =
     \<lparr>umContentType = ContentType m, umContentEnc = ContentEnc m, umUser = UserMeta m, umTags = UserTags m,
      umCompress = (Compressed m \<noteq> [])\<rparr>"

definition rebuildUserDefined :: "xlMeta \<Rightarrow> string gomap" where
  "rebuildUserDefined m =
     (let ud = (if ContentType m \<noteq> [] then AList.update ''content-type'' (ContentType m) (UserMeta m) else UserMeta m)
      in if SSE m \<noteq> [] then AList.update ''x-amz-server-side-encryption'' ''AES256'' ud else ud)"

definition copyCurrent :: "penv \<Rightarrow> draws \<Rightarrow> string \<Rightarrow> string \<Rightarrow> nat \<Rightarrow> nat \<Rightarrow> pool \<Rightarrow> objErr option \<times> pool" where
  "copyCurrent pe dr bucket key from dst p =
     (case onSet from (getPlain pe (pkms p) bucket key) p of
        (Inl e, p1) \<Rightarrow> (Some e, p1)
      | (Inr (rc, sz, m), p1) \<Rightarrow>
          (case (if SSE m \<noteq> [] \<and> pkms p \<noteq> None
                 then (case newSSEParams (aeadOf pe) (the (pkms p)) (dDek dr) (dPfx dr) (dNonce dr) of Inl e \<Rightarrow> Inl (OKms e) | Inr sp \<Rightarrow> Inr (Some sp))
                 else Inr None) of
             Inl e \<Rightarrow> (Some e, p1)
           | Inr sp \<Rightarrow>
               onSet dst (\<lambda>s.
                 case putObjectSSE (senvOf pe) (dId1 dr) (dId2 dr) (dNow dr) bucket key
                        [\<lparr>psNumber = 1, psSize = sz, psReader = rc\<rparr>] (userMetaFromMeta m) sp False s of
                   (Inl e, s1) \<Rightarrow> (Some (OSet e), s1)
                 | (Inr meta, s1) \<Rightarrow>
                     (None, if isZero (ModTime m) then s1
                            else snd (forEachDisk (WriteAll bucket (pjoin key metaFile) (marshal (meta\<lparr>ModTime := ModTime m\<rparr>))) s1))) p1))"

text \<open>Each entry of the version log, oldest first, is put again on the target.\<close>

fun replay :: "penv \<Rightarrow> (nat \<Rightarrow> draws) \<Rightarrow> string \<Rightarrow> string \<Rightarrow> nat \<Rightarrow> nat \<Rightarrow> vlogEntry list \<Rightarrow> pool \<Rightarrow> objErr option \<times> pool" where
  "replay pe dr bucket key from dst [] p = (None, p)"
| "replay pe dr bucket key from dst (e # es) p =
     (if DeleteMarker e then
        (case onSet dst (deleteVersionedOn (senvOf pe) (dr 0) bucket key (noOptions\<lparr>oVersioned := True\<rparr>)) p of
           (Inl er, p1) \<Rightarrow> (Some er, p1)
         | (Inr _, p1) \<Rightarrow> replay pe (\<lambda>i. dr (Suc i)) bucket key from dst es p1)
      else
        (case onSet from (resolveVersionDir (senvOf pe) bucket key (VlogID e)) p of
           (None, p1) \<Rightarrow> (Some OObjectNotFound, p1)
         | (Some (dir, _), p1) \<Rightarrow>
             (case onSet from (getPlain pe (pkms p1) bucket dir) p1 of
                (Inl er, p2) \<Rightarrow> (Some er, p2)
              | (Inr (rc, sz, m), p2) \<Rightarrow>
                  (case putObjectVersionedOn pe (dr 0) dst bucket key rc sz
                          (noOptions\<lparr>oVersioned := True, oUserDefined := rebuildUserDefined m, oMTime := VModTime e, oLockMode := VLockMode e,
                             oLockRetainUntil := VRetainUntil e, oLockLegalHold := (if VLegalHold e then ''ON'' else [])\<rparr>) p2 of
                     (Inl er, p3) \<Rightarrow> (Some er, p3)
                   | (Inr _, p3) \<Rightarrow> replay pe (\<lambda>i. dr (Suc i)) bucket key from dst es p3))))"

definition dropSource :: "string \<Rightarrow> string \<Rightarrow> eset \<Rightarrow> eset" where
  "dropSource bucket key s =
     (let s1 = snd (forEachDisk (Delete bucket key True) s);
          s2 = snd (forEachDisk (Delete bucket (vsDir key []) True) s1)
      in snd (forEachDisk (Delete bucket (vlogPath key) True) s2))"

definition moveObject :: "penv \<Rightarrow> (nat \<Rightarrow> draws) \<Rightarrow> string \<Rightarrow> string \<Rightarrow> nat \<Rightarrow> nat \<Rightarrow> pool \<Rightarrow> objErr option \<times> pool" where
  "moveObject pe dr bucket key from dst p =
     (if from = dst then (None, p)
      else case onSet from (readVlog bucket key) p of (vlog, p1) \<Rightarrow>
        if vlog = [] then
          (case onSet dst (readMeta (senvOf pe) bucket key) p1 of
             (Inr _, p2) \<Rightarrow> (case onSet from (deleteObject bucket key) p2 of (e, p3) \<Rightarrow> (map_option OSet e, p3))
           | (Inl _, p2) \<Rightarrow>
               (case copyCurrent pe (dr 0) bucket key from dst p2 of
                  (Some e, p3) \<Rightarrow> (Some e, p3)
                | (None, p3) \<Rightarrow> (case onSet from (deleteObject bucket key) p3 of (e, p4) \<Rightarrow> (map_option OSet e, p4))))
        else
          (case replay pe dr bucket key from dst vlog p1 of
             (Some e, p2) \<Rightarrow> (Some e, p2)
           | (None, p2) \<Rightarrow> onSet from (\<lambda>s. (None, dropSource bucket key s)) p2))"

subsection \<open>Jobs\<close>

definition bump :: "bool \<Rightarrow> decomProgress \<Rightarrow> decomProgress" where
  "bump moved j = (if moved then j\<lparr>jMoved := jMoved j + 1\<rparr> else j\<lparr>jFailed := jFailed j + 1\<rparr>)"

definition keysOnSet :: "penv \<Rightarrow> string \<Rightarrow> eset \<Rightarrow> string list \<times> eset" where
  "keysOnSet pe bucket s =
     (case walkKeys pe bucket s of (live, s1) \<Rightarrow>
        (case walkVlogKeys bucket s1 of (vk, s2) \<Rightarrow>
           (sort (remdups ((case live of Inr l \<Rightarrow> l | Inl _ \<Rightarrow> []) @ (case vk of Inr l \<Rightarrow> l | Inl _ \<Rightarrow> []))), s2)))"

definition target :: "pool \<Rightarrow> nat \<Rightarrow> string \<Rightarrow> nat" where
  "target p src k =
     (let dst = setFor p k in if dst = src then (case activeSets p of [] \<Rightarrow> dst | i # _ \<Rightarrow> i) else dst)"

fun moveKeys ::
  "penv \<Rightarrow> (string \<Rightarrow> string \<Rightarrow> nat \<Rightarrow> draws) \<Rightarrow> (pool \<Rightarrow> string \<Rightarrow> nat option) \<Rightarrow> string \<Rightarrow> nat \<Rightarrow> string list \<Rightarrow> decomProgress \<times> pool
     \<Rightarrow> decomProgress \<times> pool" where
  "moveKeys pe dr dstOf bucket src [] jp = jp"
| "moveKeys pe dr dstOf bucket src (k # ks) jp =
     (case jp of (j, p) \<Rightarrow>
        (case dstOf p k of
           None \<Rightarrow> moveKeys pe dr dstOf bucket src ks (j, p)
         | Some dst \<Rightarrow>
             (case moveObject pe (dr bucket k) bucket k src dst p of (e, p1) \<Rightarrow>
                moveKeys pe dr dstOf bucket src ks (bump (e = None) j, p1))))"

definition moveSet ::
  "penv \<Rightarrow> (string \<Rightarrow> string \<Rightarrow> nat \<Rightarrow> draws) \<Rightarrow> (pool \<Rightarrow> string \<Rightarrow> nat option) \<Rightarrow> string \<Rightarrow> nat \<Rightarrow> decomProgress \<times> pool \<Rightarrow> decomProgress \<times> pool" where
  "moveSet pe dr dstOf bucket i jp =
     (case jp of (j, p) \<Rightarrow>
        (case onSet i (keysOnSet pe bucket) p of (keys, p1) \<Rightarrow> moveKeys pe dr dstOf bucket i keys (j, p1)))"

text \<open>At the end the listing cache is asked to forget the bucket with the empty name.\<close>

definition finishJob :: "time \<Rightarrow> decomProgress \<times> pool \<Rightarrow> decomProgress \<times> pool" where
  "finishJob now jp =
     (case jp of (j, p) \<Rightarrow> (j\<lparr>jRunning := False, jFinished := now\<rparr>, p\<lparr>lcache := AList.delete [] (lcache p)\<rparr>))"

definition runDecommission ::
  "penv \<Rightarrow> (string \<Rightarrow> string \<Rightarrow> nat \<Rightarrow> draws) \<Rightarrow> time \<Rightarrow> nat \<Rightarrow> decomProgress \<times> pool \<Rightarrow> decomProgress \<times> pool" where
  "runDecommission pe dr now src jp =
     (case jp of (j, p) \<Rightarrow>
        (case onSet src ListBuckets p of (buckets, p1) \<Rightarrow>
           finishJob now
             (fold (\<lambda>b. moveSet pe dr (\<lambda>q k. Some (target q src k)) b src) (filter (\<lambda>b. b \<noteq> []) buckets) (j, p1))))"

definition elsewhere :: "nat \<Rightarrow> pool \<Rightarrow> string \<Rightarrow> nat option" where
  "elsewhere i p k = (if setFor p k = i then None else Some (setFor p k))"

definition runRebalance ::
  "penv \<Rightarrow> (string \<Rightarrow> string \<Rightarrow> nat \<Rightarrow> draws) \<Rightarrow> time \<Rightarrow> decomProgress \<times> pool \<Rightarrow> decomProgress \<times> pool" where
  "runRebalance pe dr now jp =
     (case jp of (j, p) \<Rightarrow>
        (case onSet 0 ListBuckets p of (buckets, p1) \<Rightarrow>
           finishJob now
             (fold (\<lambda>b. fold (\<lambda>i. moveSet pe dr (elsewhere i) b i) [0..<length (psets p1)]) (filter (\<lambda>b. b \<noteq> []) buckets) (j, p1))))"

datatype decomErr = DOutOfRange | DOnlySet | DAlreadyRunning | DAlreadyDraining | DNoActiveSet | DNothingToRebalance

text \<open>The request marks the set and starts the job, which runs in the background.\<close>

definition Decommission :: "time \<Rightarrow> int \<Rightarrow> decomProgress \<times> pool \<Rightarrow> decomErr option \<times> decomProgress \<times> pool" where
  "Decommission now setIdx jp =
     (case jp of (j, p) \<Rightarrow>
        (if setIdx < 0 \<or> setIdx \<ge> int (length (psets p)) then (Some DOutOfRange, j, p)
         else if length (psets p) < 2 then (Some DOnlySet, j, p)
         else if jRunning j then (Some DAlreadyRunning, j, p)
         else if nat setIdx \<in> set (draining p) then (Some DAlreadyDraining, j, p)
         else if int (length (psets p)) - int (length (draining p)) - 1 < 1 then (Some DNoActiveSet, j, p)
         else (None,
               \<lparr>jRunning = True, jKind = DecommissionJob, jSetIndex = setIdx, jMoved = 0, jFailed = 0, jStarted = now, jFinished = 0\<rparr>,
               saveLayout now (p\<lparr>draining := nat setIdx # draining p\<rparr>))))"

definition Rebalance :: "time \<Rightarrow> decomProgress \<times> pool \<Rightarrow> decomErr option \<times> decomProgress \<times> pool" where
  "Rebalance now jp =
     (case jp of (j, p) \<Rightarrow>
        (if length (psets p) < 2 then (Some DNothingToRebalance, j, p)
         else if jRunning j then (Some DAlreadyRunning, j, p)
         else (None,
               \<lparr>jRunning = True, jKind = RebalanceJob, jSetIndex = -1, jMoved = 0, jFailed = 0, jStarted = now, jFinished = 0\<rparr>, p)))"

subsection \<open>Properties\<close>

definition layout_ok :: "pool \<Rightarrow> bool" where
  "layout_ok p \<longleftrightarrow> distinct (draining p) \<and> (\<forall>i \<in> set (draining p). i < length (psets p))"

lemma setAllDisks_length: "length (setAllDisks ss ds) = length ss"
  by (induction ss arbitrary: ds) auto

lemma saveLayout_keeps: "draining (saveLayout now p) = draining p" "length (psets (saveLayout now p)) = length (psets p)"
  by (simp_all add: saveLayout_def WriteConfig_def forEachAllDisks_def setAllDisks_length split_beta)

lemma activeSets_nonempty:
  assumes "layout_ok p" "length (draining p) < length (psets p)"
  shows "activeSets p \<noteq> []"
proof
  assume "activeSets p = []"
  then have "{..<length (psets p)} \<subseteq> set (draining p)" by (auto simp: activeSets_def filter_empty_conv)
  then have "length (psets p) \<le> card (set (draining p))" using card_mono [of "set (draining p)" "{..<length (psets p)}"] by simp
  also have "\<dots> \<le> length (draining p)" by (rule card_length)
  finally show False using assms(2) by simp
qed

lemma setFor_active:
  assumes "layout_ok p" "draining p \<noteq> []" "length (draining p) < length (psets p)"
  shows "setFor p k \<in> set (activeSets p)"
proof -
  have n: "length (psets p) \<noteq> 1" using assms(2,3) by (cases "draining p") auto
  note a = activeSets_nonempty [OF assms(1,3)]
  then have "unat (keyHash k) mod length (activeSets p) < length (activeSets p)" by simp
  then show ?thesis using n a assms(2) by (simp add: setFor_def Let_def)
qed

text \<open>
  C31: a set that is being drained gets no new object. When a decommission is accepted the set is marked, at least one set
  stays active, and from then on the placement of every key is a set of the pool that is not draining; the layout stays well formed.
\<close>

theorem draining_gets_no_writes:
  assumes "layout_ok p" "Decommission now setIdx (j, p) = (None, j', p')"
  shows "layout_ok p' \<and> nat setIdx \<in> set (draining p')
    \<and> (\<forall>k. setFor p' k < length (psets p') \<and> setFor p' k \<notin> set (draining p'))"
proof -
  have g: "0 \<le> setIdx" "setIdx < int (length (psets p))" "nat setIdx \<notin> set (draining p)"
      "length (draining p) + 1 < length (psets p)" "p' = saveLayout now (p\<lparr>draining := nat setIdx # draining p\<rparr>)"
    using assms(2) by (auto simp: Decommission_def split: if_splits)
  have d: "draining p' = nat setIdx # draining p" "length (psets p') = length (psets p)"
    using saveLayout_keeps [of now "p\<lparr>draining := nat setIdx # draining p\<rparr>"] g(5) by simp_all
  have ok: "layout_ok p'" using assms(1) g d by (auto simp: layout_ok_def)
  have "setFor p' k \<in> set (activeSets p')" for k using setFor_active [OF ok, of k] d g(4) by simp
  then show ?thesis using ok d by (auto simp: activeSets_def)
qed

definition wit_dpool :: pool where
  "wit_dpool = \<lparr>psets = wit_csets @ wit_csets, pkms = None, bucketsOK = [], draining = [], lcache = []\<rparr>"

theorem draining_gets_no_writes_witness:
  "\<exists>j' p'. Decommission 9 0 (noJob, wit_dpool) = (None, j', p') \<and> setFor p' ''k'' \<notin> set (draining p')"
proof -
  have "length (psets wit_dpool) \<ge> 2" "draining wit_dpool = []" "layout_ok wit_dpool" by (simp_all add: wit_dpool_def wit_csets_def layout_ok_def)
  then have "fst (Decommission 9 0 (noJob, wit_dpool)) = None" by (auto simp: Decommission_def noJob_def)
  then obtain j' p' where "Decommission 9 0 (noJob, wit_dpool) = (None, j', p')" by (metis prod.exhaust_sel)
  then show ?thesis using draining_gets_no_writes [OF \<open>layout_ok wit_dpool\<close>] by blast
qed

end
