(* ===== verification/SelfHeal.thy ===== *)
theory SelfHeal
  imports Decommission Heal
begin

text \<open>
  The background repair of the pool (\<open>internal/erasure/heal.go\<close>, \<open>mrf.go\<close>) and the collector of deduplicated blobs
  (\<open>dedup.go\<close>). A full heal runs \<open>healObject\<close> on every key of every set; \<open>AutoHeal\<close> finds a disk that lacks
  buckets its peers have and then heals everything; the repair queue holds the objects whose write missed a disk and
  heals them until it succeeds. The throttle only limits how many heals run at once; the model runs them one by one.
\<close>

subsection \<open>Full heal (heal.go)\<close>

record healReport =
  hrObjectsScanned :: nat
  hrObjectsHealed :: nat
  hrShardsRewritten :: nat
  hrMetaRewritten :: nat
  hrUnrecoverable :: "string list"

definition noHeal :: healReport where
  "noHeal = \<lparr>hrObjectsScanned = 0, hrObjectsHealed = 0, hrShardsRewritten = 0, hrMetaRewritten = 0, hrUnrecoverable = []\<rparr>"

definition healKey :: "penv \<Rightarrow> string \<Rightarrow> nat \<Rightarrow> string \<Rightarrow> healReport \<times> pool \<Rightarrow> healReport \<times> pool" where
  "healKey pe b i k rp =
     (case rp of (rep, p) \<Rightarrow>
        (case onSet i (healObject (senvOf pe) b k) p of ((mt, sh, e), p1) \<Rightarrow>
           (let rep1 = rep\<lparr>hrObjectsScanned := hrObjectsScanned rep + 1, hrMetaRewritten := hrMetaRewritten rep + mt,
                           hrShardsRewritten := hrShardsRewritten rep + sh\<rparr>
            in (if e \<noteq> None then rep1\<lparr>hrUnrecoverable := hrUnrecoverable rep1 @ [b @ ''/'' @ k]\<rparr>
                else if mt + sh > 0 then rep1\<lparr>hrObjectsHealed := hrObjectsHealed rep1 + 1\<rparr>
                else rep1, p1))))"

definition healSet :: "penv \<Rightarrow> string \<Rightarrow> nat \<Rightarrow> healReport \<times> pool \<Rightarrow> healReport \<times> pool" where
  "healSet pe b i rp =
     (case rp of (rep, p) \<Rightarrow>
        (case onSet i (walkKeys pe b) p of
           (Inl e, p1) \<Rightarrow> (rep, p1)
         | (Inr keys, p1) \<Rightarrow> fold (healKey pe b i) keys (rep, p1)))"

definition HealAll :: "penv \<Rightarrow> pool \<Rightarrow> healReport \<times> pool" where
  "HealAll pe p =
     (case onSet 0 ListBuckets p of (buckets, p1) \<Rightarrow>
        fold (\<lambda>b. fold (healSet pe b) [0..<length (psets p1)]) buckets (noHeal, p1))"

definition HealObject :: "penv \<Rightarrow> string \<Rightarrow> string \<Rightarrow> pool \<Rightarrow> setErr option \<times> pool" where
  "HealObject pe bucket key p =
     (case onSet (setFor p key) (healObject (senvOf pe) bucket key) p of ((_, _, e), p1) \<Rightarrow> (e, p1))"

subsection \<open>Fresh disks (heal.go)\<close>

text \<open>What each online disk that answers has; how many disks are online.\<close>

fun presentOn :: "disk list \<Rightarrow> nat \<times> string list option list \<times> disk list" where
  "presentOn [] = (0, [], [])"
| "presentOn (d # ds) =
     (case IsOnline d of (onl, d1) \<Rightarrow>
        (case (if onl then ListVols d1 else (Inl ErrDiskIO, d1)) of (r, d2) \<Rightarrow>
           (case presentOn ds of (n, vs, ds') \<Rightarrow>
              (if onl then n + 1 else n,
               (case r of Inr vols \<Rightarrow> Some (filter (\<lambda>v. v \<noteq> [] \<and> v \<noteq> sysDir) vols) | Inl e \<Rightarrow> None) # vs,
               d2 # ds'))))"

text \<open>The disks that lack a bucket are looked at one by one, each asked again whether it is online.\<close>

fun makeMissing :: "string \<Rightarrow> nat \<Rightarrow> string list option list \<Rightarrow> bool \<times> eset \<Rightarrow> bool \<times> eset" where
  "makeMissing nm i [] fs = fs"
| "makeMissing nm i (v # vs) fs =
     (case fs of (fr, s) \<Rightarrow>
        (case IsOnline (disks s ! i) of (onl, d1) \<Rightarrow>
           (let s1 = s\<lparr>disks := (disks s)[i := d1]\<rparr> in
            if onl \<and> (case v of Some names \<Rightarrow> nm \<notin> set names | None \<Rightarrow> False)
            then makeMissing nm (Suc i) vs (True, snd (MakeBucket nm s1))
            else makeMissing nm (Suc i) vs (fr, s1))))"

definition underPopulated :: "nat \<Rightarrow> string list option list \<Rightarrow> string list" where
  "underPopulated online held =
     (let names = concat (map (\<lambda>v. case v of Some l \<Rightarrow> l | None \<Rightarrow> []) held)
      in filter (\<lambda>nm. count_list names nm < online) (remdups names))"

definition refreshSet :: "eset \<Rightarrow> bool \<times> eset" where
  "refreshSet s =
     (case presentOn (disks s) of (online, held, ds) \<Rightarrow>
        fold (\<lambda>nm. makeMissing nm 0 held) (underPopulated online held) (False, s\<lparr>disks := ds\<rparr>))"

fun refreshSets :: "nat list \<Rightarrow> bool \<times> pool \<Rightarrow> bool \<times> pool" where
  "refreshSets [] fp = fp"
| "refreshSets (i # is) fp =
     (case fp of (fr, p) \<Rightarrow> (case onSet i refreshSet p of (f, p1) \<Rightarrow> refreshSets is (fr \<or> f, p1)))"

definition AutoHeal :: "penv \<Rightarrow> pool \<Rightarrow> healReport option \<times> pool" where
  "AutoHeal pe p =
     (case refreshSets [0..<length (psets p)] (False, p) of
        (False, p1) \<Rightarrow> (None, p1)
      | (True, p1) \<Rightarrow> (case HealAll pe p1 of (rep, p2) \<Rightarrow> (Some rep, p2)))"

subsection \<open>The repair queue (mrf.go)\<close>

definition mrfKey :: string where "mrfKey = ''heal/mrf.json''"

definition mrfMaxEntries :: nat where "mrfMaxEntries = 20000"

record mrfQueue =
  mqPending :: "int gomap"
  mqDirty :: bool

definition newMRFQueue :: "(content list \<Rightarrow> content list) \<Rightarrow> bool \<Rightarrow> pool \<Rightarrow> mrfQueue \<times> pool" where
  "newMRFQueue ord gate p =
     (case ReadConfig ord gate mrfKey (psets p) of (c, ss) \<Rightarrow>
        (\<lparr>mqPending = (case c of Some (MrfDoc m) \<Rightarrow> m | _ \<Rightarrow> []), mqDirty = False\<rparr>, p\<lparr>psets := ss\<rparr>))"

definition mrfAdd :: "int \<Rightarrow> string \<Rightarrow> string \<Rightarrow> mrfQueue \<Rightarrow> mrfQueue" where
  "mrfAdd now bucket key q =
     (let ident = bucket @ ''/'' @ key in
      if map_of (mqPending q) ident \<noteq> None then q
      else if length (mqPending q) \<ge> mrfMaxEntries then q
      else q\<lparr>mqPending := AList.update ident now (mqPending q), mqDirty := True\<rparr>)"

definition mrfDone :: "string \<Rightarrow> mrfQueue \<Rightarrow> mrfQueue" where
  "mrfDone ident q =
     (if map_of (mqPending q) ident \<noteq> None then q\<lparr>mqPending := AList.delete ident (mqPending q), mqDirty := True\<rparr> else q)"

definition mrfFlush :: "mrfQueue \<times> pool \<Rightarrow> mrfQueue \<times> pool" where
  "mrfFlush qp =
     (case qp of (q, p) \<Rightarrow>
        if \<not> mqDirty q then (q, p)
        else (q\<lparr>mqDirty := False\<rparr>, p\<lparr>psets := snd (WriteConfig mrfKey (MrfDoc (mqPending q)) (psets p))\<rparr>))"

definition EnableMRF :: "(content list \<Rightarrow> content list) \<Rightarrow> bool \<Rightarrow> pool \<Rightarrow> mrfQueue \<times> pool" where
  "EnableMRF ord gate p =
     (case newMRFQueue ord gate p of (q, p1) \<Rightarrow> (q, p1\<lparr>psets := map (\<lambda>s. s\<lparr>hasMrf := True\<rparr>) (psets p1)\<rparr>))"

text \<open>The calls of \<open>q.add\<close> that the sets made since the last look.\<close>

definition takeCalls :: "int \<Rightarrow> mrfQueue \<times> pool \<Rightarrow> mrfQueue \<times> pool" where
  "takeCalls now qp =
     (case qp of (q, p) \<Rightarrow>
        (fold (\<lambda>(b, k). mrfAdd now b k) (concat (map mrfCalls (psets p))) q, p\<lparr>psets := map (\<lambda>s. s\<lparr>mrfCalls := []\<rparr>) (psets p)\<rparr>))"

definition drainOne :: "penv \<Rightarrow> string \<Rightarrow> mrfQueue \<times> pool \<Rightarrow> mrfQueue \<times> pool" where
  "drainOne pe ident qp =
     (case qp of (q, p) \<Rightarrow>
        (case indexByte ident (CHR ''/'') of
           None \<Rightarrow> (mrfDone ident q, p)
         | Some i \<Rightarrow>
             if i = 0 \<or> i = length ident - 1 then (mrfDone ident q, p)
             else
               (case HealObject pe (take i ident) (drop (Suc i) ident) p of
                  (None, p1) \<Rightarrow> (mrfDone ident q, p1)
                | (Some e, p1) \<Rightarrow> (q, p1))))"

definition drainMRF :: "penv \<Rightarrow> mrfQueue \<times> pool \<Rightarrow> mrfQueue \<times> pool" where
  "drainMRF pe qp =
     (case qp of (q, p) \<Rightarrow>
        if mqPending q = [] then (q, p)
        else mrfFlush (fold (drainOne pe) (sort (remdups (map fst (mqPending q)))) (q, p)))"

text \<open>The queue has one entry per object and is bounded; an entry leaves it only when its object was healed or its name is malformed.\<close>

definition mrf_ok :: "mrfQueue \<Rightarrow> bool" where
  "mrf_ok q \<longleftrightarrow> distinct (map fst (mqPending q)) \<and> length (mqPending q) \<le> mrfMaxEntries"

lemma update_new_length: "map_of m k = None \<Longrightarrow> length (AList.update k v m) = Suc (length m)"
  by (induction m) (auto split: if_splits)

lemma mrf_ok_add: "mrf_ok q \<Longrightarrow> mrf_ok (mrfAdd now b k q)"
  by (auto simp: mrf_ok_def mrfAdd_def Let_def distinct_update update_new_length)

lemma mrf_ok_done: "mrf_ok q \<Longrightarrow> mrf_ok (mrfDone k q)"
  using length_delete_le [of k "mqPending q"] by (auto simp: mrf_ok_def mrfDone_def distinct_delete)

lemma mrf_ok_drain: "mrf_ok q \<Longrightarrow> mrf_ok (fst (drainMRF pe (q, p)))"
proof -
  have one: "mrf_ok (fst qp) \<Longrightarrow> mrf_ok (fst (drainOne pe k qp))" for k qp
    by (cases qp) (auto simp: drainOne_def mrf_ok_done split: option.split prod.split)
  have "mrf_ok (fst qp) \<Longrightarrow> mrf_ok (fst (fold (drainOne pe) ks qp))" for ks qp
  proof (induction ks arbitrary: qp)
    case (Cons k ks)
    show ?case using Cons.IH [OF one [OF Cons.prems]] by simp
  qed simp
  moreover have "mrf_ok (fst qp) \<Longrightarrow> mrf_ok (fst (mrfFlush qp))" for qp by (cases qp) (simp add: mrfFlush_def mrf_ok_def)
  ultimately show "mrf_ok q \<Longrightarrow> mrf_ok (fst (drainMRF pe (q, p)))" by (simp add: drainMRF_def)
qed

lemma drainOne_keeps: "k \<noteq> ident \<Longrightarrow> map_of (mqPending (fst (drainOne pe ident (q, p)))) k = map_of (mqPending q) k"
  by (auto simp: drainOne_def mrfDone_def delete_conv split: option.split prod.split)

subsection \<open>Deduplicated blobs (dedup.go)\<close>

definition casPrefix :: string where "casPrefix = ''.gostore.sys/cas''"

definition refsOfKey :: "penv \<Rightarrow> string \<Rightarrow> nat \<Rightarrow> string \<Rightarrow> string list \<times> pool \<Rightarrow> string list \<times> pool" where
  "refsOfKey pe b i k rp =
     (case rp of (refs, p) \<Rightarrow>
        (case onSet i (readMeta (senvOf pe) b k) p of
           (Inr m, p1) \<Rightarrow> (if DataRef m \<noteq> [] then DataRef m # refs else refs, p1)
         | (Inl e, p1) \<Rightarrow> (refs, p1)))"

definition refsOfSet :: "penv \<Rightarrow> string \<Rightarrow> nat \<Rightarrow> string list \<times> pool \<Rightarrow> string list \<times> pool" where
  "refsOfSet pe b i rp =
     (case rp of (refs, p) \<Rightarrow>
        (case onSet i (walkKeys pe b) p of
           (Inl e, p1) \<Rightarrow> (refs, p1)
         | (Inr keys, p1) \<Rightarrow> fold (refsOfKey pe b i) keys (refs, p1)))"

definition referencedCAS :: "penv \<Rightarrow> pool \<Rightarrow> string list \<times> pool" where
  "referencedCAS pe p =
     (case onSet 0 ListBuckets p of (buckets, p1) \<Rightarrow>
        fold (\<lambda>b. fold (refsOfSet pe b) [0..<length (psets p1)]) buckets ([], p1))"

text \<open>The directory of the first online disk that can list it.\<close>

fun casNames :: "disk list \<Rightarrow> string list \<times> disk list" where
  "casNames [] = ([], [])"
| "casNames (d # ds) =
     (case IsOnline d of (onl, d1) \<Rightarrow>
        (case (if onl then ListDir [] casPrefix d1 else (Inl ErrDiskIO, d1)) of
           (Inr ns, d2) \<Rightarrow> (ns, d2 # ds)
         | (Inl e, d2) \<Rightarrow> (case casNames ds of (ns, ds') \<Rightarrow> (ns, d2 # ds'))))"

text \<open>The first disk that has the marker decides whether the blob is old enough.\<close>

fun casOld :: "time \<Rightarrow> time \<Rightarrow> string \<Rightarrow> disk list \<Rightarrow> bool \<times> disk list" where
  "casOld now grace h [] = (True, [])"
| "casOld now grace h (d # ds) =
     (case ReadAll [] (casJson h) d of
        (Inr c, d1) \<Rightarrow> ((case c of CasDoc mk \<Rightarrow> \<not> now - InstalledAt mk < grace | _ \<Rightarrow> True), d1 # ds)
      | (Inl e, d1) \<Rightarrow> (case casOld now grace h ds of (old, ds') \<Rightarrow> (old, d1 # ds')))"

definition collectBlob :: "time \<Rightarrow> time \<Rightarrow> string list \<Rightarrow> string \<Rightarrow> nat \<times> eset \<Rightarrow> nat \<times> eset" where
  "collectBlob now grace refs nm ns =
     (case ns of (n, s) \<Rightarrow>
        (let h = trimSuffix nm ''/'' in
         if h = [] \<or> h = ''.'' \<or> h \<in> set refs then (n, s)
         else case casOld now grace h (disks s) of (old, ds) \<Rightarrow>
           (let s1 = s\<lparr>disks := ds\<rparr> in
            if \<not> old then (n, s1)
            else case forEachDisk (Delete [] (casDir h) True) s1 of (errs, s2) \<Rightarrow>
              (if okCount errs \<ge> writeQuorum s then n + 1 else n, s2))))"

definition collectSet :: "time \<Rightarrow> time \<Rightarrow> string list \<Rightarrow> eset \<Rightarrow> nat \<times> eset" where
  "collectSet now grace refs s =
     (case casNames (disks s) of (names, ds) \<Rightarrow> fold (collectBlob now grace refs) names (0, s\<lparr>disks := ds\<rparr>))"

definition GCDedup :: "penv \<Rightarrow> time \<Rightarrow> time \<Rightarrow> pool \<Rightarrow> nat \<times> pool" where
  "GCDedup pe now grace p =
     (if \<not> dedupEnabled (senvOf pe) then (0, p)
      else case referencedCAS pe p of (refs, p1) \<Rightarrow>
        fold (\<lambda>i (n, q). case onSet i (collectSet now grace refs) q of (k, q1) \<Rightarrow> (n + k, q1)) [0..<length (psets p1)] (0, p1))"

end
