(* ===== verification/ObjCache.thy ===== *)
theory ObjCache
  imports Pool
begin

text \<open>
  The cache of small objects in front of the object layer (\<open>internal/api/objcache.go\<close>): a list of entries, most
  recently used first, with a budget of bytes. The map of the source finds an entry's place in the list; here the list is searched.
\<close>

record cacheEntry =
  ceKey :: string
  ceData :: bytes
  ceInfo :: objectInfo
  ceStored :: time

record objCache =
  ocMax :: int
  ocObj :: int
  ocTtl :: time
  ocCur :: int
  ocList :: "cacheEntry list"
  ocHits :: "64 word"
  ocMiss :: "64 word"

text \<open>The environment variables that parse are inputs.\<close>

definition newObjCache :: "int option \<Rightarrow> int option \<Rightarrow> time option \<Rightarrow> objCache" where
  "newObjCache maxEnv objEnv ttlEnv =
     \<lparr>ocMax = (case maxEnv of Some n \<Rightarrow> if n \<ge> 0 then n else 128 * 2 ^ 20 | None \<Rightarrow> 128 * 2 ^ 20),
      ocObj = (case objEnv of Some n \<Rightarrow> if n > 0 then n else 2 ^ 20 | None \<Rightarrow> 2 ^ 20),
      ocTtl = (case ttlEnv of Some d \<Rightarrow> if d > 0 then d else 10 * second | None \<Rightarrow> 10 * second),
      ocCur = 0, ocList = [], ocHits = 0, ocMiss = 0\<rparr>"

definition cacheKey :: "string \<Rightarrow> string \<Rightarrow> string \<Rightarrow> string" where
  "cacheKey bucket key versionID = bucket @ [CHR 0x00] @ key @ [CHR 0x00] @ versionID"

definition ocEnabled :: "objCache \<Rightarrow> bool" where "ocEnabled c \<longleftrightarrow> ocMax c > 0"

definition eligibleSize :: "int \<Rightarrow> objCache \<Rightarrow> bool" where
  "eligibleSize n c \<longleftrightarrow> ocEnabled c \<and> n \<ge> 0 \<and> n \<le> ocObj c"

definition ceFind :: "string \<Rightarrow> objCache \<Rightarrow> cacheEntry option" where
  "ceFind k c = find (\<lambda>e. ceKey e = k) (ocList c)"

definition without :: "string \<Rightarrow> cacheEntry list \<Rightarrow> cacheEntry list" where
  "without k es = filter (\<lambda>e. ceKey e \<noteq> k) es"

definition ceLen :: "cacheEntry \<Rightarrow> int" where "ceLen e = int (length (ceData e))"

definition removeLocked :: "cacheEntry \<Rightarrow> objCache \<Rightarrow> objCache" where
  "removeLocked e c = c\<lparr>ocCur := ocCur c - ceLen e, ocList := without (ceKey e) (ocList c)\<rparr>"

definition ocGet :: "time \<Rightarrow> string \<Rightarrow> objCache \<Rightarrow> cacheEntry option \<times> objCache" where
  "ocGet now k c =
     (if \<not> ocEnabled c then (None, c)
      else case ceFind k c of
        None \<Rightarrow> (None, c\<lparr>ocMiss := ocMiss c + 1\<rparr>)
      | Some e \<Rightarrow>
          if now - ceStored e > ocTtl c then (None, (removeLocked e c)\<lparr>ocMiss := ocMiss c + 1\<rparr>)
          else (Some e, c\<lparr>ocList := e # without k (ocList c), ocHits := ocHits c + 1\<rparr>))"

text \<open>The loop that drops the least recently used entries until the budget holds.\<close>

function shrink :: "objCache \<Rightarrow> objCache" where
  "shrink c = (if ocCur c > ocMax c \<and> ocList c \<noteq> []
               then shrink (c\<lparr>ocCur := ocCur c - ceLen (last (ocList c)), ocList := butlast (ocList c)\<rparr>) else c)"
  by pat_completeness auto
termination by (relation "measure (\<lambda>c. length (ocList c))") auto

declare shrink.simps [simp del]

definition ocPut :: "time \<Rightarrow> string \<Rightarrow> bytes \<Rightarrow> objectInfo \<Rightarrow> objCache \<Rightarrow> objCache" where
  "ocPut now k data info c =
     (if \<not> ocEnabled c \<or> int (length data) > ocObj c then c
      else
        (let e = \<lparr>ceKey = k, ceData = data, ceInfo = info, ceStored = now\<rparr>;
             cur = (case ceFind k c of Some old \<Rightarrow> ocCur c - ceLen old + ceLen e | None \<Rightarrow> ocCur c + ceLen e)
         in shrink (c\<lparr>ocCur := cur, ocList := e # without k (ocList c)\<rparr>)))"

definition evictIf :: "(string \<Rightarrow> bool) \<Rightarrow> objCache \<Rightarrow> objCache" where
  "evictIf f c =
     (if \<not> ocEnabled c then c
      else fold removeLocked (filter (\<lambda>e. f (ceKey e)) (ocList c)) c)"

definition ocEvict :: "string \<Rightarrow> string \<Rightarrow> string \<Rightarrow> objCache \<Rightarrow> objCache" where
  "ocEvict bucket key versionID =
     evictIf (\<lambda>k. k = cacheKey bucket key versionID \<or> hasPrefix k (bucket @ [CHR 0x00] @ key @ [CHR 0x00]))"

definition ocEvictBucket :: "string \<Rightarrow> objCache \<Rightarrow> objCache" where
  "ocEvictBucket bucket = evictIf (\<lambda>k. hasPrefix k (bucket @ [CHR 0x00]))"

definition ocStats :: "objCache \<Rightarrow> nat \<times> int \<times> 64 word \<times> 64 word" where
  "ocStats c = (length (ocList c), ocCur c, ocHits c, ocMiss c)"

subsection \<open>The budget holds\<close>

definition oc_ok :: "objCache \<Rightarrow> bool" where
  "oc_ok c \<longleftrightarrow> distinct (map ceKey (ocList c)) \<and> ocCur c = sum_list (map ceLen (ocList c)) \<and> ocCur c \<le> max 0 (ocMax c)"

lemma ceLen_nonneg [simp]: "0 \<le> ceLen e"
  by (simp add: ceLen_def)

lemma sum_ceLen_nonneg: "0 \<le> sum_list (map ceLen es)"
  by (induction es) auto

lemma without_sum:
  "distinct (map ceKey es) \<Longrightarrow> sum_list (map ceLen (without k es)) =
     sum_list (map ceLen es) - (case find (\<lambda>e. ceKey e = k) es of Some e \<Rightarrow> ceLen e | None \<Rightarrow> 0)"
proof (induction es)
  case (Cons e es)
  have "without k es = es" if "ceKey e = k"
    unfolding without_def filter_id_conv using Cons.prems that by (auto simp: image_iff)
  then show ?case using Cons by (auto simp: without_def)
qed (simp add: without_def)

lemma distinct_without: "distinct (map ceKey es) \<Longrightarrow> distinct (map ceKey (without k es))" "k \<notin> ceKey ` set (without k es)"
  by (auto simp: without_def distinct_map_filter)

lemma shrink_ok:
  assumes "distinct (map ceKey (ocList c))" "ocCur c = sum_list (map ceLen (ocList c))"
  shows "oc_ok (shrink c) \<and> ocMax (shrink c) = ocMax c \<and> set (ocList (shrink c)) \<subseteq> set (ocList c)"
  using assms
proof (induction c rule: shrink.induct)
  case (1 c)
  show ?case
  proof (cases "ocCur c > ocMax c \<and> ocList c \<noteq> []")
    case True
    let ?d = "c\<lparr>ocCur := ocCur c - ceLen (last (ocList c)), ocList := butlast (ocList c)\<rparr>"
    have l: "ocList c = butlast (ocList c) @ [last (ocList c)]" using True by simp
    have s: "sum_list (map ceLen (ocList c)) = sum_list (map ceLen (butlast (ocList c))) + ceLen (last (ocList c))"
      by (subst l) simp
    have d: "distinct (map ceKey (ocList ?d))" using 1(2) by (simp add: map_butlast distinct_butlast)
    have "oc_ok (shrink ?d) \<and> ocMax (shrink ?d) = ocMax ?d \<and> set (ocList (shrink ?d)) \<subseteq> set (ocList ?d)"
      by (rule 1(1) [OF True d]) (use 1(3) s in simp)
    moreover have "shrink c = shrink ?d" using True by (subst shrink.simps) simp
    moreover have "set (ocList ?d) \<subseteq> set (ocList c)" by (auto dest: in_set_butlastD)
    ultimately show ?thesis by auto
  next
    case False
    have "shrink c = c" unfolding shrink.simps [of c] using False by (simp only: if_False)
    moreover have "ocCur c \<le> max 0 (ocMax c)" using False 1(3) by (cases "ocList c = []") auto
    ultimately show ?thesis using 1(2,3) by (simp add: oc_ok_def)
  qed
qed

lemma remove_ok:
  assumes "oc_ok c" "find (\<lambda>e'. ceKey e' = ceKey e) (ocList c) = Some e"
  shows "oc_ok (removeLocked e c)"
proof -
  have "sum_list (map ceLen (without (ceKey e) (ocList c))) = ocCur c - ceLen e"
    using without_sum [of "ocList c" "ceKey e"] assms by (simp add: oc_ok_def)
  moreover have "ocCur c - ceLen e \<le> ocCur c" by simp
  then have "ocCur c - ceLen e \<le> max 0 (ocMax c)" using assms(1) unfolding oc_ok_def by (meson order_trans)
  ultimately show ?thesis using assms(1) distinct_without(1) [where es = "ocList c" and k = "ceKey e"] by (simp add: oc_ok_def removeLocked_def)
qed

lemma find_distinct: "distinct (map ceKey es) \<Longrightarrow> e \<in> set es \<Longrightarrow> find (\<lambda>e'. ceKey e' = ceKey e) es = Some e"
  by (induction es) (auto simp: image_iff)

lemma removeAll_ok:
  assumes "oc_ok c" "distinct (map ceKey es)" "set es \<subseteq> set (ocList c)"
  shows "oc_ok (fold removeLocked es c) \<and> ocMax (fold removeLocked es c) = ocMax c
    \<and> ocList (fold removeLocked es c) = filter (\<lambda>e. ceKey e \<notin> ceKey ` set es) (ocList c)"
  using assms
proof (induction es arbitrary: c)
  case (Cons e es)
  have f: "find (\<lambda>e'. ceKey e' = ceKey e) (ocList c) = Some e" using Cons.prems by (intro find_distinct) (auto simp: oc_ok_def)
  have "ceKey x \<noteq> ceKey e" if "x \<in> set es" for x
    using Cons.prems(2) that by (auto simp: image_iff)
  then have "set es \<subseteq> set (ocList (removeLocked e c))" using Cons.prems by (auto simp: removeLocked_def without_def)
  moreover have "distinct (map ceKey es)" using Cons.prems by simp
  ultimately have "oc_ok (fold removeLocked es (removeLocked e c)) \<and> ocMax (fold removeLocked es (removeLocked e c)) = ocMax (removeLocked e c)
      \<and> ocList (fold removeLocked es (removeLocked e c)) = filter (\<lambda>x. ceKey x \<notin> ceKey ` set es) (ocList (removeLocked e c))"
    by (intro Cons.IH remove_ok [OF Cons.prems(1) f])
  moreover have "filter (\<lambda>x. ceKey x \<notin> ceKey ` set es) (ocList (removeLocked e c)) = filter (\<lambda>x. ceKey x \<notin> ceKey ` set (e # es)) (ocList c)"
    by (auto simp: removeLocked_def without_def intro: filter_cong)
  moreover have "ocMax (removeLocked e c) = ocMax c" by (simp add: removeLocked_def)
  ultimately show ?case by simp
qed simp

lemma evictIf_ok:
  assumes "oc_ok c"
  shows "oc_ok (evictIf f c)" "ocMax (evictIf f c) = ocMax c" "ocEnabled c \<Longrightarrow> ocList (evictIf f c) = filter (\<lambda>e. \<not> f (ceKey e)) (ocList c)"
proof -
  let ?es = "filter (\<lambda>e. f (ceKey e)) (ocList c)"
  have d: "distinct (map ceKey ?es)" using assms by (simp add: oc_ok_def distinct_map_filter)
  note r = removeAll_ok [OF assms d, simplified]
  have "ceKey e \<notin> ceKey ` set ?es \<longleftrightarrow> \<not> f (ceKey e)" if "e \<in> set (ocList c)" for e using that by (auto simp: image_iff)
  then have "filter (\<lambda>e. ceKey e \<notin> ceKey ` set ?es) (ocList c) = filter (\<lambda>e. \<not> f (ceKey e)) (ocList c)" by (intro filter_cong) auto
  then show "oc_ok (evictIf f c)" "ocMax (evictIf f c) = ocMax c" "ocEnabled c \<Longrightarrow> ocList (evictIf f c) = filter (\<lambda>e. \<not> f (ceKey e)) (ocList c)"
    using r assms by (auto simp: evictIf_def)
qed

lemma get_ok: "oc_ok c \<Longrightarrow> oc_ok (snd (ocGet now k c))" "ocMax (snd (ocGet now k c)) = ocMax c"
proof -
  assume ok: "oc_ok c"
  show "oc_ok (snd (ocGet now k c))"
  proof (cases "ceFind k c")
    case (Some e)
    then have f: "find (\<lambda>e'. ceKey e' = ceKey e) (ocList c) = Some e" "ceKey e = k" by (auto simp: ceFind_def find_Some_iff)
    have "oc_ok (removeLocked e c)" by (rule remove_ok [OF ok f(1)])
    moreover have "sum_list (map ceLen (e # without k (ocList c))) = ocCur c"
      using without_sum [of "ocList c" k] f ok by (simp add: oc_ok_def)
    ultimately show ?thesis
      using Some ok distinct_without [where es = "ocList c" and k = k] f(2) by (auto simp: ocGet_def oc_ok_def)
  qed (use ok in \<open>auto simp: ocGet_def oc_ok_def\<close>)
qed (simp add: ocGet_def removeLocked_def split: option.split)

lemma put_ok:
  assumes "oc_ok c"
  shows "oc_ok (ocPut now k data info c) \<and> ocMax (ocPut now k data info c) = ocMax c"
proof -
  let ?e = "\<lparr>ceKey = k, ceData = data, ceInfo = info, ceStored = now\<rparr>"
  let ?cur = "case ceFind k c of Some old \<Rightarrow> ocCur c - ceLen old + ceLen ?e | None \<Rightarrow> ocCur c + ceLen ?e"
  let ?c = "c\<lparr>ocCur := ?cur, ocList := ?e # without k (ocList c)\<rparr>"
  have "distinct (map ceKey (ocList ?c))" using assms distinct_without [where es = "ocList c" and k = k] by (simp add: oc_ok_def)
  moreover have "ocCur ?c = sum_list (map ceLen (ocList ?c))"
    using without_sum [of "ocList c" k] assms by (simp add: oc_ok_def ceFind_def split: option.split)
  ultimately show ?thesis using shrink_ok [of ?c] assms by (simp add: ocPut_def Let_def)
qed

subsection \<open>Properties\<close>

datatype cacheOp = CGet time string | CPut time string bytes objectInfo | CEvict string string string | CEvictBucket string

fun cacheStep :: "cacheOp \<Rightarrow> objCache \<Rightarrow> objCache" where
  "cacheStep (CGet now k) c = snd (ocGet now k c)"
| "cacheStep (CPut now k d i) c = ocPut now k d i c"
| "cacheStep (CEvict b k v) c = ocEvict b k v c"
| "cacheStep (CEvictBucket b) c = ocEvictBucket b c"

lemma cacheStep_ok: "oc_ok c \<Longrightarrow> oc_ok (cacheStep opn c) \<and> ocMax (cacheStep opn c) = ocMax c"
  by (cases opn) (simp_all add: get_ok put_ok ocEvict_def ocEvictBucket_def evictIf_ok)

text \<open>
  C28: the object cache stays within its budget and forgets what was written. After any sequence of lookups, insertions and evictions
  on a new cache its keys are distinct, its byte count is the total size of its entries and at most the budget;
  and once a key was evicted, as every local write does, no lookup of any version of it succeeds until it is inserted again.
\<close>

theorem cache_within_budget:
  "let c = fold cacheStep ops (newObjCache maxEnv objEnv ttlEnv) in
     distinct (map ceKey (ocList c)) \<and> ocCur c = sum_list (map ceLen (ocList c)) \<and> ocCur c \<le> ocMax c
     \<and> ocMax c = ocMax (newObjCache maxEnv objEnv ttlEnv)
     \<and> fst (ocGet now (cacheKey b k v') (ocEvict b k v c)) = None"
proof -
  let ?n = "newObjCache maxEnv objEnv ttlEnv" and ?c = "fold cacheStep ops (newObjCache maxEnv objEnv ttlEnv)"
  have m: "0 \<le> ocMax ?n" "oc_ok ?n" by (auto simp: newObjCache_def oc_ok_def split: option.split)
  have "oc_ok c \<Longrightarrow> oc_ok (fold cacheStep ops c) \<and> ocMax (fold cacheStep ops c) = ocMax c" for c
    using cacheStep_ok by (induction ops arbitrary: c) auto
  then have c: "oc_ok ?c" "ocMax ?c = ocMax ?n" using m(2) by blast+
  let ?p = "b @ [CHR 0x00] @ k @ [CHR 0x00]"
  have "hasPrefix (cacheKey b k v') ?p" by (simp add: cacheKey_def hasPrefix_iff)
  then have "ocEnabled ?c \<Longrightarrow> ceFind (cacheKey b k v') (ocEvict b k v ?c) = None"
    using evictIf_ok(3) [OF c(1)] by (auto simp: ocEvict_def ceFind_def find_None_iff)
  moreover have "ocEnabled (ocEvict b k v ?c) = ocEnabled ?c" using evictIf_ok(2) [OF c(1)] by (simp add: ocEvict_def ocEnabled_def)
  ultimately have "fst (ocGet now (cacheKey b k v') (ocEvict b k v ?c)) = None" by (simp add: ocGet_def)
  then show ?thesis using c m(1) by (simp add: Let_def oc_ok_def)
qed

end
