(* ===== verification/AuditLog.thy ===== *)
theory AuditLog
  imports SigV4
begin

text \<open>
  The hash-chained audit log (\<open>internal/api/audit.go\<close>): the ring of the last entries, the chain over it, the daily file and
  the continuation of the chain after a restart. \<open>encoding/json\<close> is the record \<open>auditCodec\<close>; the name of today's file and
  whether its append succeeded are inputs of the operations.
\<close>

record auditEntry =
  aeSeq :: "64 word"
  aeTime :: time
  aeMethod :: string
  aePath :: string
  aeBucket :: string
  aeKey :: string
  aeAction :: string
  aeStatus :: int
  aeAccess :: string
  aeIP :: string
  aeReqID :: string
  aePrevHash :: string
  aeHash :: string

record auditCodec =
  aeMarshal :: "auditEntry \<Rightarrow> bytes option"
  aeUnmarshal :: "bytes \<Rightarrow> auditEntry option"

definition zeroEntry :: auditEntry where
  "zeroEntry = \<lparr>aeSeq = 0, aeTime = 0, aeMethod = [], aePath = [], aeBucket = [], aeKey = [], aeAction = [], aeStatus = 0,
     aeAccess = [], aeIP = [], aeReqID = [], aePrevHash = [], aeHash = []\<rparr>"

definition auditCap :: nat where "auditCap = 20000"

lemma auditCap_pos [simp]: "0 < auditCap"
  by (simp add: auditCap_def)

record auditLog =
  auBuf :: "auditEntry list"
  auNext :: nat
  auN :: nat
  auSeq :: "64 word"
  auPrev :: string
  auDir :: bool
  auFiles :: "bytes gomap"

definition splitBucketKey :: "string \<Rightarrow> string \<times> string" where
  "splitBucketKey p =
     (let q = trimPrefix p ''/'' in
      case indexByte q (CHR ''/'') of Some i \<Rightarrow> (take i q, drop (i + 1) q) | None \<Rightarrow> (q, []))"

text \<open>What follows the last newline that is not the last byte, or the whole file.\<close>

definition lastLine :: "bytes \<Rightarrow> bytes" where
  "lastLine b =
     (case find (\<lambda>i. b ! i = CHR 0x0A \<and> i \<noteq> length b - 1) (rev [0..<length b]) of
        Some i \<Rightarrow> if drop (i + 1) b = [] then b else drop (i + 1) b
      | None \<Rightarrow> b)"

definition lastPersisted :: "auditCodec \<Rightarrow> string \<Rightarrow> auditLog \<Rightarrow> string \<times> 64 word" where
  "lastPersisted cd today a =
     (if \<not> auDir a then ([], 0)
      else case map_of (auFiles a) today of
        None \<Rightarrow> ([], 0)
      | Some b \<Rightarrow> (case aeUnmarshal cd (lastLine b) of Some e \<Rightarrow> (aeHash e, aeSeq e) | None \<Rightarrow> ([], 0)))"

definition newAuditLog :: "auditCodec \<Rightarrow> string \<Rightarrow> string \<Rightarrow> bytes gomap \<Rightarrow> auditLog" where
  "newAuditLog cd vol0 today files =
     (let a = \<lparr>auBuf = replicate auditCap zeroEntry, auNext = 0, auN = 0, auSeq = 0, auPrev = [], auDir = False, auFiles = files\<rparr>
      in if vol0 \<noteq> []
         then (let a1 = a\<lparr>auDir := True\<rparr>; (p, s) = lastPersisted cd today a1 in a1\<lparr>auPrev := p, auSeq := s\<rparr>)
         else a)"

definition auditHash :: "crypto \<Rightarrow> auditCodec \<Rightarrow> string \<Rightarrow> auditEntry \<Rightarrow> string" where
  "auditHash cr cd p e =
     (let b = (case aeMarshal cd (e\<lparr>aeHash := [], aePrevHash := p\<rparr>) of Some b \<Rightarrow> b | None \<Rightarrow> [])
      in hexEncode (sha256Raw cr (p @ b)))"

definition appendLine :: "string \<Rightarrow> bytes \<Rightarrow> bytes gomap \<Rightarrow> bytes gomap" where
  "appendLine today line fs =
     (today, (case map_of fs today of Some b \<Rightarrow> b | None \<Rightarrow> []) @ line @ [CHR 0x0A]) # fs"

definition auRecord :: "crypto \<Rightarrow> auditCodec \<Rightarrow> string \<Rightarrow> bool \<Rightarrow> auditEntry \<Rightarrow> auditLog \<Rightarrow> auditLog" where
  "auRecord cr cd today fileOk e0 a =
     (let s = auSeq a + 1;
          e1 = e0\<lparr>aeSeq := s, aePrevHash := auPrev a\<rparr>;
          e = e1\<lparr>aeHash := auditHash cr cd (auPrev a) e1\<rparr>;
          a1 = a\<lparr>auSeq := s, auPrev := aeHash e, auBuf := (auBuf a)[auNext a := e],
                 auNext := (auNext a + 1) mod auditCap, auN := (if auN a < auditCap then auN a + 1 else auN a)\<rparr>
      in if auDir a
         then (case aeMarshal cd e of
                 Some line \<Rightarrow> if fileOk then a1\<lparr>auFiles := appendLine today line (auFiles a)\<rparr> else a1
               | None \<Rightarrow> a1)
         else a1)"

definition auIdx :: "auditLog \<Rightarrow> nat \<Rightarrow> nat" where
  "auIdx a i = (auNext a + auditCap * 2 + i - auN a) mod auditCap"

definition ringEntries :: "auditLog \<Rightarrow> auditEntry list" where
  "ringEntries a = map (\<lambda>i. auBuf a ! auIdx a i) [0..<auN a]"

definition auSnapshot :: "int \<Rightarrow> 64 word \<Rightarrow> auditLog \<Rightarrow> auditEntry list" where
  "auSnapshot limit after a =
     (let out = filter (\<lambda>e. aeSeq e > after) (ringEntries a)
      in if limit > 0 \<and> int (length out) > limit then drop (length out - nat limit) out else out)"

fun verifyLoop :: "crypto \<Rightarrow> auditCodec \<Rightarrow> string \<Rightarrow> nat \<Rightarrow> auditEntry list \<Rightarrow> nat \<times> 64 word" where
  "verifyLoop cr cd p ok [] = (ok, 0)"
| "verifyLoop cr cd p ok (e # es) =
     (if aePrevHash e \<noteq> p \<or> aeHash e \<noteq> auditHash cr cd p e then (ok, aeSeq e)
      else verifyLoop cr cd (aeHash e) (ok + 1) es)"

definition auVerify :: "crypto \<Rightarrow> auditCodec \<Rightarrow> auditLog \<Rightarrow> nat \<times> 64 word" where
  "auVerify cr cd a =
     (let es = ringEntries a in verifyLoop cr cd (case es of [] \<Rightarrow> [] | e # _ \<Rightarrow> aePrevHash e) 0 es)"

text \<open>The answer of the verification endpoint: the number of entries counted and whether the chain is intact.\<close>

definition handleAdminAuditVerify :: "crypto \<Rightarrow> auditCodec \<Rightarrow> auditLog option \<Rightarrow> nat \<times> bool \<times> 64 word" where
  "handleAdminAuditVerify cr cd l =
     (case l of None \<Rightarrow> (0, True, 0)
      | Some a \<Rightarrow> (let (ok, broken) = auVerify cr cd a in (ok, broken = 0, broken)))"

subsection \<open>The ring\<close>

definition au_wf :: "auditLog \<Rightarrow> bool" where
  "au_wf a \<longleftrightarrow> length (auBuf a) = auditCap \<and> auNext a < auditCap \<and> auN a \<le> auditCap"

lemma mod_eq_close:
  assumes "(x::nat) mod c = y mod c" "x \<le> y" "y < x + c"
  shows "x = y"
proof -
  have "c dvd y - x" using assms(1,2) by (metis mod_eq_dvd_iff_nat)
  then show ?thesis using assms(2,3) by (metis dvd_imp_le le_add_diff_inverse less_diff_conv2 not_le zero_less_diff
        add.commute le_eq_less_or_eq)
qed

lemma auIdx_inj:
  assumes "au_wf a" "i < auN a" "j < auN a" "auIdx a i = auIdx a j"
  shows "i = j"
proof -
  have *: "i = j" if "i \<le> j" "i < auN a" "j < auN a" "auIdx a i = auIdx a j" for i j
  proof -
    have n: "auN a \<le> auditCap" using assms(1) by (simp add: au_wf_def)
    have "auNext a + auditCap * 2 + j - auN a < auNext a + auditCap * 2 + i - auN a + auditCap" using that n by linarith
    then have "auNext a + auditCap * 2 + i - auN a = auNext a + auditCap * 2 + j - auN a"
      using that by (intro mod_eq_close [OF that(4) [unfolded auIdx_def]]) auto
    then show ?thesis using n by linarith
  qed
  show ?thesis using * [of i j] * [of j i] assms by (cases "i \<le> j") auto
qed

lemma auIdx_less: "au_wf a \<Longrightarrow> auIdx a i < length (auBuf a)"
  by (simp add: auIdx_def au_wf_def)

lemma ring_update:
  assumes "au_wf a" "i < auN a"
  shows "ringEntries (a\<lparr>auBuf := (auBuf a)[auIdx a i := e]\<rparr>) = (ringEntries a)[i := e]"
proof (rule nth_equalityI)
  fix j assume "j < length (ringEntries (a\<lparr>auBuf := (auBuf a)[auIdx a i := e]\<rparr>))"
  then have j: "j < auN a" by (simp add: ringEntries_def)
  have "auIdx (a\<lparr>auBuf := (auBuf a)[auIdx a i := e]\<rparr>) j = auIdx a j" by (simp add: auIdx_def)
  then show "ringEntries (a\<lparr>auBuf := (auBuf a)[auIdx a i := e]\<rparr>) ! j = (ringEntries a)[i := e] ! j"
    using j auIdx_inj [OF assms j] auIdx_less [OF assms(1), of i] assms(2)
    by (cases "i = j") (auto simp: ringEntries_def nth_list_update)
qed (simp add: ringEntries_def)

lemma ringEntries_cong:
  "auBuf a = auBuf b \<Longrightarrow> auNext a = auNext b \<Longrightarrow> auN a = auN b \<Longrightarrow> ringEntries a = ringEntries b"
  by (simp add: ringEntries_def auIdx_def)

definition pushRing :: "auditEntry \<Rightarrow> auditLog \<Rightarrow> auditLog" where
  "pushRing e a = a\<lparr>auBuf := (auBuf a)[auNext a := e], auNext := (auNext a + 1) mod auditCap,
     auN := (if auN a < auditCap then auN a + 1 else auN a)\<rparr>"

lemma ring_push_room:
  assumes "au_wf a" "auN a < auditCap"
  shows "ringEntries (pushRing e a) = ringEntries a @ [e]"
proof (rule nth_equalityI)
  fix j assume "j < length (ringEntries (pushRing e a))"
  then have j: "j \<le> auN a" using assms(2) by (simp add: ringEntries_def pushRing_def)
  let ?x = "auNext a + auditCap * 2 + j - auN a"
  have w: "length (auBuf a) = auditCap" "auNext a < auditCap" using assms(1) by (auto simp: au_wf_def)
  have "((auNext a + 1) mod auditCap + auditCap * 2 + j - (auN a + 1)) mod auditCap = ?x mod auditCap"
  proof (cases "auNext a + 1 = auditCap")
    case True
    have "?x = (auditCap * 2 + j - (auN a + 1)) + auditCap" using True assms(2) by simp
    then show ?thesis using True by (simp only: mod_self mod_add_self2 add_0)
  qed (use w in simp)
  then have i: "auIdx (pushRing e a) j = ?x mod auditCap" using assms(2) by (simp add: auIdx_def pushRing_def)
  show "ringEntries (pushRing e a) ! j = (ringEntries a @ [e]) ! j"
  proof (cases "j = auN a")
    case True
    then have "?x mod auditCap = auNext a" using w by simp
    then show ?thesis using True i w assms(2) by (simp add: ringEntries_def pushRing_def nth_append)
  next
    case False
    then have jn: "j < auN a" using j by simp
    have "?x mod auditCap \<noteq> auNext a"
    proof
      assume "?x mod auditCap = auNext a"
      then have "?x mod auditCap = (auNext a + auditCap * 2) mod auditCap" using w by simp
      moreover have "?x < auNext a + auditCap * 2" "auNext a + auditCap * 2 < ?x + auditCap" using jn assms(2) by linarith+
      ultimately show False using mod_eq_close [of ?x auditCap "auNext a + auditCap * 2"] by linarith
    qed
    then show ?thesis using i jn assms(2) by (simp add: ringEntries_def pushRing_def nth_append auIdx_def)
  qed
qed (use assms in \<open>simp add: ringEntries_def pushRing_def\<close>)

lemma ring_push_full:
  assumes "au_wf a" "auN a = auditCap"
  shows "ringEntries (pushRing e a) = tl (ringEntries a) @ [e]"
proof (rule nth_equalityI)
  fix j assume "j < length (ringEntries (pushRing e a))"
  then have j: "j < auditCap" using assms(2) by (simp add: ringEntries_def pushRing_def)
  let ?x = "auNext a + auditCap + j + 1"
  have w: "length (auBuf a) = auditCap" "auNext a < auditCap" using assms(1) by (auto simp: au_wf_def)
  have "((auNext a + 1) mod auditCap + auditCap * 2 + j - auditCap) mod auditCap = ((auNext a + 1) mod auditCap + (auditCap + j)) mod auditCap"
    by (simp add: algebra_simps)
  also have "\<dots> = ((auNext a + 1) + (auditCap + j)) mod auditCap" by (rule mod_add_left_eq)
  also have "\<dots> = ?x mod auditCap" by (simp add: ac_simps)
  finally have i: "auIdx (pushRing e a) j = ?x mod auditCap" using assms(2) by (simp add: auIdx_def pushRing_def)
  show "ringEntries (pushRing e a) ! j = (tl (ringEntries a) @ [e]) ! j"
  proof (cases "j + 1 = auditCap")
    case True
    then have "?x = auNext a + auditCap * 2" by linarith
    then have "?x mod auditCap = (auNext a + auditCap * 2) mod auditCap" by (rule arg_cong)
    also have "\<dots> = auNext a" using w by simp
    finally have "?x mod auditCap = auNext a" .
    then show ?thesis using True i w assms(2) by (simp add: ringEntries_def pushRing_def nth_append)
  next
    case False
    then have jn: "j + 1 < auditCap" using j by simp
    have "?x mod auditCap \<noteq> auNext a"
    proof
      assume "?x mod auditCap = auNext a"
      then have "(auNext a + auditCap) mod auditCap = ?x mod auditCap" using w by simp
      from mod_eq_close [OF this] show False using jn by simp
    qed
    moreover have "auIdx a (Suc j) = ?x mod auditCap" using assms(2) by (simp add: auIdx_def algebra_simps)
    ultimately show ?thesis using i jn assms(2) by (simp add: ringEntries_def pushRing_def nth_append nth_tl)
  qed
qed (use assms in \<open>simp add: ringEntries_def pushRing_def\<close>)

lemma auRecord_push:
  assumes "e = raw\<lparr>aeSeq := auSeq a + 1, aePrevHash := auPrev a, aeHash := auditHash cr cd (auPrev a) (raw\<lparr>aeSeq := auSeq a + 1\<rparr>)\<rparr>"
  shows "ringEntries (auRecord cr cd today ok raw a) = ringEntries (pushRing e a)"
    "auSeq (auRecord cr cd today ok raw a) = auSeq a + 1" "auPrev (auRecord cr cd today ok raw a) = aeHash e"
    "au_wf a \<Longrightarrow> au_wf (auRecord cr cd today ok raw a)"
  unfolding assms
  by (auto simp: auRecord_def pushRing_def Let_def auditHash_def au_wf_def intro!: ringEntries_cong split: option.split)

subsection \<open>The chain\<close>

fun chained :: "crypto \<Rightarrow> auditCodec \<Rightarrow> string \<Rightarrow> auditEntry list \<Rightarrow> bool" where
  "chained cr cd p [] = True"
| "chained cr cd p (e # es) = (aePrevHash e = p \<and> aeHash e = auditHash cr cd p e \<and> chained cr cd (aeHash e) es)"

definition startHash :: "auditEntry list \<Rightarrow> string" where
  "startHash es = (case es of [] \<Rightarrow> [] | e # _ \<Rightarrow> aePrevHash e)"

lemma chained_snoc:
  "chained cr cd p (es @ [e]) \<longleftrightarrow> chained cr cd p es \<and> aePrevHash e = (if es = [] then p else aeHash (last es))
     \<and> aeHash e = auditHash cr cd (aePrevHash e) e"
  by (induction es arbitrary: p) auto

lemma chained_tl: "chained cr cd p es \<Longrightarrow> tl es \<noteq> [] \<Longrightarrow> chained cr cd (startHash (tl es)) (tl es)"
  by (cases es; cases "tl es") (auto simp: startHash_def)

lemma chained_verifies: "chained cr cd p es \<Longrightarrow> verifyLoop cr cd p ok es = (ok + length es, 0)"
  by (induction es arbitrary: p ok) auto

lemma chained_altered:
  assumes "chained cr cd p es" "Suc i < length es" "e' \<noteq> es ! i" "q = p \<or> i = 0"
    "auditHash cr cd (aePrevHash e') e' = aeHash (es ! i) \<Longrightarrow> e'\<lparr>aeHash := aeHash (es ! i)\<rparr> = es ! i"
  shows "verifyLoop cr cd q ok (es[i := e']) \<in> {(ok + i, aeSeq e'), (ok + i + 1, aeSeq (es ! Suc i))}"
  using assms
proof (induction i arbitrary: es p q ok)
  case 0
  then obtain e f es' where es: "es = e # f # es'" by (cases es; cases "tl es") auto
  have "aeHash e' \<noteq> aeHash e" if "aeHash e' = auditHash cr cd (aePrevHash e') e'"
  proof
    assume "aeHash e' = aeHash e"
    then have "e'\<lparr>aeHash := aeHash e'\<rparr> = e" using 0(5) that by (simp add: es)
    then show False using 0(3) by (simp add: es)
  qed
  then show ?case using 0(1) by (auto simp: es)
next
  case (Suc i)
  then obtain e es' where es: "es = e # es'" by (cases es) auto
  have "verifyLoop cr cd (aeHash e) (ok + 1) (es'[i := e']) \<in> {(ok + 1 + i, aeSeq e'), (ok + 1 + i + 1, aeSeq (es' ! Suc i))}"
    by (rule Suc.IH [of "aeHash e"]) (use Suc.prems es in auto)
  then show ?case using Suc.prems(1,4) by (auto simp: es)
qed

definition au_inv :: "crypto \<Rightarrow> auditCodec \<Rightarrow> nat \<Rightarrow> auditLog \<Rightarrow> bool" where
  "au_inv cr cd m a \<longleftrightarrow> au_wf a \<and> unat (auSeq a) = m \<and> chained cr cd (startHash (ringEntries a)) (ringEntries a)
     \<and> (ringEntries a \<noteq> [] \<longrightarrow> auPrev a = aeHash (last (ringEntries a))) \<and> (\<forall>e \<in> set (ringEntries a). aeSeq e \<noteq> 0)"

lemma auRecord_inv:
  assumes "au_inv cr cd m a" "m + 1 < 2 ^ 64"
  shows "au_inv cr cd (m + 1) (auRecord cr cd today ok e0 a)"
proof -
  let ?e = "e0\<lparr>aeSeq := auSeq a + 1, aePrevHash := auPrev a, aeHash := auditHash cr cd (auPrev a) (e0\<lparr>aeSeq := auSeq a + 1\<rparr>)\<rparr>"
  let ?r = "ringEntries a" and ?a = "auRecord cr cd today ok e0 a"
  note r = auRecord_push [where raw = e0 and a = a and cr = cr and cd = cd and today = today and ok = ok, OF refl]
  have i: "au_wf a" "unat (auSeq a) = m" "chained cr cd (startHash ?r) ?r" "?r \<noteq> [] \<Longrightarrow> auPrev a = aeHash (last ?r)"
    "\<And>e. e \<in> set ?r \<Longrightarrow> aeSeq e \<noteq> 0"
    using assms(1) by (auto simp: au_inv_def)
  have u: "unat (auSeq a + 1) = m + 1" using assms(2) i(2) by (simp add: unat_word_ariths)
  then have z: "auSeq a + 1 \<noteq> 0" by (metis Suc_eq_plus1 nat.distinct(1) unat_0)
  have h: "aeHash ?e = auditHash cr cd (aePrevHash ?e) ?e" by (simp add: auditHash_def)
  have "\<exists>t. ringEntries ?a = t @ [?e] \<and> set t \<subseteq> set ?r \<and> chained cr cd (startHash t) t \<and> (t \<noteq> [] \<longrightarrow> auPrev a = aeHash (last t))"
  proof (cases "auN a < auditCap")
    case True
    then show ?thesis using ring_push_room [OF i(1) True, of ?e] r(1) i(3,4) by auto
  next
    case False
    then have n: "auN a = auditCap" using i(1) by (simp add: au_wf_def)
    have "chained cr cd (startHash (tl ?r)) (tl ?r)" using chained_tl [OF i(3)] by (cases "tl ?r = []") auto
    moreover have "tl ?r \<noteq> [] \<Longrightarrow> auPrev a = aeHash (last (tl ?r))" using i(4) by (cases ?r) auto
    moreover have "set (tl ?r) \<subseteq> set ?r" by (cases ?r) auto
    ultimately show ?thesis using ring_push_full [OF i(1) n, of ?e] r(1) by auto
  qed
  then obtain t where t: "ringEntries ?a = t @ [?e]" "set t \<subseteq> set ?r" "chained cr cd (startHash t) t" "t \<noteq> [] \<Longrightarrow> auPrev a = aeHash (last t)" by auto
  have "startHash (t @ [?e]) = (if t = [] then auPrev a else startHash t)" by (cases t) (auto simp: startHash_def)
  then have "chained cr cd (startHash (t @ [?e])) (t @ [?e])" using t(3,4) h by (simp add: chained_snoc del: chained.simps(2))
  then show ?thesis using t r(2-4) i z u by (auto simp: au_inv_def)
qed

lemma newAuditLog_inv: "au_inv cr cd (unat (auSeq (newAuditLog cd v today fs))) (newAuditLog cd v today fs)"
  by (simp add: au_inv_def au_wf_def newAuditLog_def ringEntries_def Let_def split_beta)

definition auRecords :: "crypto \<Rightarrow> auditCodec \<Rightarrow> (string \<times> bool \<times> auditEntry) list \<Rightarrow> auditLog \<Rightarrow> auditLog" where
  "auRecords cr cd rs a = fold (\<lambda>(today, ok, e). auRecord cr cd today ok e) rs a"

lemma auRecords_inv: "au_inv cr cd m a \<Longrightarrow> m + length rs < 2 ^ 64 \<Longrightarrow> au_inv cr cd (m + length rs) (auRecords cr cd rs a)"
proof (induction rs arbitrary: a m)
  case (Cons r rs)
  obtain t k e where r: "r = (t, k, e)" by (cases r)
  have "au_inv cr cd (m + 1) (auRecord cr cd t k e a)" using auRecord_inv [OF Cons.prems(1)] Cons.prems(2) by simp
  from Cons.IH [OF this] show ?case using Cons.prems(2) by (simp add: r auRecords_def)
qed (simp add: auRecords_def)

subsection \<open>Restart\<close>

lemma find_append_None: "find P xs = None \<Longrightarrow> find P (xs @ ys) = find P ys"
  by (induction xs) (auto split: if_splits)

lemma lastLine_append:
  assumes "CHR 0x0A \<notin> set line" "b = [] \<or> last b = CHR 0x0A"
  shows "lastLine (b @ line @ [CHR 0x0A]) = line @ [CHR 0x0A]"
proof -
  let ?f = "b @ line @ [CHR 0x0A]" and ?n = "length b" and ?m = "length b + length line"
  let ?P = "\<lambda>i. ?f ! i = CHR 0x0A \<and> i \<noteq> length ?f - 1"
  have r: "rev [0..<length ?f] = rev [?n..<length ?f] @ rev [0..<?n]"
    by (simp add: rev_append [symmetric] upt_add_eq_append [symmetric] del: rev_append)
  have "\<not> ?P i" if "i \<in> set (rev [?n..<length ?f])" for i
  proof (cases "i = length ?f - 1")
    case False
    then have "i - ?n < length line" "?n \<le> i" using that by auto
    then show ?thesis using assms(1) by (auto simp: nth_append dest: nth_mem)
  qed simp
  then have "find ?P (rev [?n..<length ?f]) = None" by (simp only: find_None_iff) blast
  then have f: "find ?P (rev [0..<length ?f]) = find ?P (rev [0..<?n])" unfolding r by (rule find_append_None)
  show ?thesis
  proof (cases "b = []")
    case True
    then show ?thesis using f by (simp add: lastLine_def)
  next
    case False
    have l1: "rev [0..<?n] = (?n - 1) # rev [0..<?n - 1]" using False by (cases "?n") auto
    have l2: "?f ! (?n - 1) = CHR 0x0A" using False assms(2) by (auto simp: nth_append last_conv_nth)
    have "find ?P (rev [0..<?n]) = Some (?n - 1)" unfolding l1 using l2 False by (cases "length b") auto
    then show ?thesis using f False unfolding lastLine_def by simp
  qed
qed

text \<open>A log opened on the same day continues the chain of the last entry that reached the file.\<close>

lemma restart_continues_chain:
  assumes "auDir a" "aeMarshal cd e = Some line" "CHR 0x0A \<notin> set line" "aeUnmarshal cd (line @ [CHR 0x0A]) = Some e"
    "vol0 \<noteq> []" "\<And>b. map_of (auFiles a) today = Some b \<Longrightarrow> b = [] \<or> last b = CHR 0x0A"
    "e = e0\<lparr>aeSeq := auSeq a + 1, aePrevHash := auPrev a, aeHash := auditHash cr cd (auPrev a) (e0\<lparr>aeSeq := auSeq a + 1\<rparr>)\<rparr>"
  shows "auPrev (newAuditLog cd vol0 today (auFiles (auRecord cr cd today True e0 a))) = auPrev (auRecord cr cd today True e0 a)"
    "auSeq (newAuditLog cd vol0 today (auFiles (auRecord cr cd today True e0 a))) = auSeq (auRecord cr cd today True e0 a)"
proof -
  let ?b = "case map_of (auFiles a) today of Some b \<Rightarrow> b | None \<Rightarrow> []"
  have "auditHash cr cd (auPrev a) (e0\<lparr>aeSeq := auSeq a + 1, aePrevHash := auPrev a\<rparr>) = auditHash cr cd (auPrev a) (e0\<lparr>aeSeq := auSeq a + 1\<rparr>)"
    by (simp add: auditHash_def)
  then have f: "auFiles (auRecord cr cd today True e0 a) = (today, ?b @ line @ [CHR 0x0A]) # auFiles a"
    using assms(1,2,7) by (simp add: auRecord_def Let_def appendLine_def)
  have "?b = [] \<or> last ?b = CHR 0x0A" using assms(6) by (auto split: option.split)
  then have "lastLine (?b @ line @ [CHR 0x0A]) = line @ [CHR 0x0A]" by (rule lastLine_append [OF assms(3)])
  then have "lastPersisted cd today \<lparr>auBuf = replicate auditCap zeroEntry, auNext = 0, auN = 0, auSeq = 0, auPrev = [], auDir = True,
      auFiles = auFiles (auRecord cr cd today True e0 a)\<rparr> = (aeHash e, aeSeq e)"
    using assms(4) by (simp add: lastPersisted_def f)
  then show "auPrev (newAuditLog cd vol0 today (auFiles (auRecord cr cd today True e0 a))) = auPrev (auRecord cr cd today True e0 a)"
    "auSeq (newAuditLog cd vol0 today (auFiles (auRecord cr cd today True e0 a))) = auSeq (auRecord cr cd today True e0 a)"
    using auRecord_push(2,3) [OF assms(7), of today True] assms(5,7) by (simp_all add: newAuditLog_def Let_def)
qed

subsection \<open>Properties\<close>

text \<open>
  C29: the audit log's chain is intact after any sequence of records, ring wrap-around included, and an alteration of any entry but the
  newest is found: if the altered entry does not collide with the recorded one under the hash, verification stops at the altered entry or
  at its successor. The endpoint nevertheless answers that the chain is intact exactly when verification stopped at the altered entry and that
  entry's own sequence number was altered to zero, because zero also stands for an unbroken chain.
\<close>

theorem audit_alteration_found:
  fixes cr :: crypto and cd :: auditCodec
  assumes "a = auRecords cr cd rs (newAuditLog cd vol0 today files)"
    and "unat (auSeq (newAuditLog cd vol0 today files)) + length rs < 2 ^ 64"
    and "Suc i < length (ringEntries a)" "e' \<noteq> ringEntries a ! i"
    and "auditHash cr cd (aePrevHash e') e' = aeHash (ringEntries a ! i) \<Longrightarrow> e'\<lparr>aeHash := aeHash (ringEntries a ! i)\<rparr> = ringEntries a ! i"
  shows "auVerify cr cd a = (length (ringEntries a), 0)
    \<and> (let a' = a\<lparr>auBuf := (auBuf a)[auIdx a i := e']\<rparr> in
         fst (auVerify cr cd a') \<in> {i, i + 1}
         \<and> fst (snd (handleAdminAuditVerify cr cd (Some a'))) = (fst (auVerify cr cd a') = i \<and> aeSeq e' = 0))"
proof -
  let ?r = "ringEntries a" and ?a = "a\<lparr>auBuf := (auBuf a)[auIdx a i := e']\<rparr>"
  have inv: "au_inv cr cd (unat (auSeq (newAuditLog cd vol0 today files)) + length rs) a"
    unfolding assms(1) by (rule auRecords_inv [OF newAuditLog_inv assms(2)])
  then have c: "chained cr cd (startHash ?r) ?r" and w: "au_wf a" and z: "\<And>e. e \<in> set ?r \<Longrightarrow> aeSeq e \<noteq> 0" by (auto simp: au_inv_def)
  have i: "i < auN a" using assms(3) by (simp add: ringEntries_def)
  have r: "ringEntries ?a = ?r[i := e']" by (rule ring_update [OF w i])
  have v: "auVerify cr cd b = verifyLoop cr cd (startHash (ringEntries b)) 0 (ringEntries b)" for b
    by (simp add: auVerify_def Let_def startHash_def)
  have "startHash (?r[i := e']) = startHash ?r \<or> i = 0" using assms(3) by (cases ?r; cases i) (auto simp: startHash_def)
  then have l: "auVerify cr cd ?a \<in> {(0 + i, aeSeq e'), (0 + i + 1, aeSeq (?r ! Suc i))}"
    unfolding v r by (rule chained_altered [OF c assms(3,4) _ assms(5)])
  have "aeSeq (?r ! Suc i) \<noteq> 0" using z assms(3) nth_mem by blast
  then show ?thesis using l chained_verifies [OF c, of 0] by (auto simp: v [of a] handleAdminAuditVerify_def Let_def split_beta)
qed

definition wit_crypto :: crypto where "wit_crypto = \<lparr>hmacRaw = (\<lambda>k m. []), sha256Raw = (\<lambda>b. b)\<rparr>"

definition wit_codec :: auditCodec where
  "wit_codec = \<lparr>aeMarshal = (\<lambda>e. Some (aeMethod e)), aeUnmarshal = (\<lambda>b. None)\<rparr>"

definition wit_log :: auditLog where
  "wit_log = auRecords wit_crypto wit_codec
     [(''d'', True, zeroEntry\<lparr>aeMethod := ''PUT''\<rparr>), (''d'', True, zeroEntry\<lparr>aeMethod := ''DELETE''\<rparr>)] (newAuditLog wit_codec [] ''d'' [])"

lemma record_room:
  assumes "au_wf a" "auN a < auditCap"
  shows "ringEntries (auRecord cr cd today ok raw a) = ringEntries a
      @ [raw\<lparr>aeSeq := auSeq a + 1, aePrevHash := auPrev a, aeHash := auditHash cr cd (auPrev a) (raw\<lparr>aeSeq := auSeq a + 1\<rparr>)\<rparr>]"
    "auN (auRecord cr cd today ok raw a) = auN a + 1"
  using auRecord_push(1) [OF refl, of cr cd today ok raw a] ring_push_room [OF assms] assms(2)
  by (auto simp: auRecord_def Let_def split: option.split)

lemma wit_ring:
  "ringEntries wit_log =
     [zeroEntry\<lparr>aeSeq := 1, aeMethod := ''PUT'', aeHash := ''505554''\<rparr>,
      zeroEntry\<lparr>aeSeq := 2, aeMethod := ''DELETE'', aePrevHash := ''505554'', aeHash := hexEncode (''505554'' @ ''DELETE'')\<rparr>]"
proof -
  let ?p = "zeroEntry\<lparr>aeMethod := ''PUT''\<rparr>" and ?d = "zeroEntry\<lparr>aeMethod := ''DELETE''\<rparr>"
  let ?a = "newAuditLog wit_codec [] ''d'' []"
  let ?b = "auRecord wit_crypto wit_codec ''d'' True ?p ?a"
  have h: "hexEncode ''PUT'' = ''505554''" by code_simp
  have a: "au_wf ?a" "auN ?a = 0" "auSeq ?a = 0" "auPrev ?a = []" "ringEntries ?a = []"
    by (auto simp: newAuditLog_def au_wf_def ringEntries_def)
  note r = record_room [OF a(1) a(2) [THEN ord_eq_less_trans, OF auditCap_pos], of wit_crypto wit_codec "''d''" True ?p]
    and q = auRecord_push(2-4) [where raw = ?p and a = ?a and cr = wit_crypto and cd = wit_codec and today = "''d''" and ok = True, OF refl]
  have n: "auN ?b < auditCap" using r(2) a(2) by (simp add: auditCap_def)
  show ?thesis
    using record_room(1) [OF q(3) [OF a(1)] n, of wit_crypto wit_codec "''d''" True ?d] r(1) q(1,2) a h
    by (simp add: wit_log_def auRecords_def auditHash_def wit_crypto_def wit_codec_def zeroEntry_def)
qed

theorem audit_alteration_found_witness:
  "let e' = zeroEntry\<lparr>aeSeq := 1, aeMethod := ''GET'', aeHash := ''474554''\<rparr>; a' = wit_log\<lparr>auBuf := (auBuf wit_log)[auIdx wit_log 0 := e']\<rparr>
   in auVerify wit_crypto wit_codec wit_log = (2, 0) \<and> \<not> fst (snd (handleAdminAuditVerify wit_crypto wit_codec (Some a')))"
proof -
  let ?e = "zeroEntry\<lparr>aeSeq := 1, aeMethod := ''GET'', aeHash := ''474554''\<rparr>"
  have h: "hexEncode ''GET'' = ''474554''" by code_simp
  have "unat (auSeq (newAuditLog wit_codec [] ''d'' [])) + length [(''d'', True, zeroEntry\<lparr>aeMethod := ''PUT''\<rparr>), (''d'', True, zeroEntry\<lparr>aeMethod := ''DELETE''\<rparr>)] < 2 ^ 64"
    by (simp add: newAuditLog_def)
  from audit_alteration_found [OF wit_log_def this, of 0 ?e]
  show ?thesis by (simp add: wit_ring Let_def auditHash_def wit_crypto_def wit_codec_def zeroEntry_def h)
qed

end
