(* ===== verification/Handlers.thy ===== *)
theory Handlers
  imports Notify ObjCache
begin

text \<open>
  The handlers of objects, object locks and quotas (\<open>internal/api/handlers_object.go\<close>, \<open>handlers_append.go\<close>, \<open>handlers_objectlock.go\<close>,
  \<open>handlers_quota.go\<close>), over the object layer as an interface. A handler takes the server and returns the answer and the server.
\<close>

text \<open>
  The server behind the router: identities, bucket configurations, the object cache, the object layer, the scanner's last usage
  snapshot, and the goroutines it has started: deliveries of events, replications, deletes of expired objects.
\<close>

record ('b, 'c, 's) hserver =
  hsIam :: "'b manager"
  hsCfg :: "'c cfgStore"
  hsCache :: objCache
  hsObj :: 's
  hsUsage :: "dataUsage option"
  hsEvents :: "(webhookTarget \<times> event) list"
  hsRepl :: "(replicationRule \<times> replEvent) list"
  hsExpired :: "(string \<times> string) list"

definition onObj :: "('s \<Rightarrow> 'r \<times> 's) \<Rightarrow> ('b, 'c, 's) hserver \<Rightarrow> 'r \<times> ('b, 'c, 's) hserver" where
  "onObj f sv = (case f (hsObj sv) of (r, s) \<Rightarrow> (r, sv\<lparr>hsObj := s\<rparr>))"

definition resourceOf :: "string \<Rightarrow> string \<Rightarrow> string" where "resourceOf bucket key = ''/'' @ bucket @ ''/'' @ key"

abbreviation fails :: "apiCode \<Rightarrow> string \<Rightarrow> string \<Rightarrow> ('b, 'c, 's) hserver \<Rightarrow> resp \<times> ('b, 'c, 's) hserver" where
  "fails code bucket key sv \<equiv> (writeErrorResponse [] code (resourceOf bucket key), sv)"

subsection \<open>Quotas\<close>

definition quotaExceeded :: "string \<Rightarrow> int \<Rightarrow> ('b, 'c, 's) hserver \<Rightarrow> bool" where
  "quotaExceeded bucket addBytes sv =
     (let c = Get bucket (hsCfg sv) in
      if QuotaBytes c \<le> 0 \<and> QuotaObjects c \<le> 0 then False
      else case hsUsage sv of
        None \<Rightarrow> False
      | Some u \<Rightarrow>
          (let bu = (case map_of (duBuckets u) bucket of Some x \<Rightarrow> x | None \<Rightarrow> \<lparr>buObjects = 0, buBytes = 0\<rparr>) in
           (QuotaBytes c > 0 \<and> buBytes bu + addBytes > QuotaBytes c) \<or> (QuotaObjects c > 0 \<and> buObjects bu + 1 > QuotaObjects c)))"

subsection \<open>Options of a request\<close>

definition bypassAllowed :: "henv \<Rightarrow> time \<Rightarrow> hreq \<Rightarrow> string \<Rightarrow> string \<Rightarrow> string \<Rightarrow> 'b manager \<Rightarrow> bool \<times> 'b manager" where
  "bypassAllowed he now r bucket key ak m =
     (if hdr r ''x-amz-bypass-governance-retention'' \<noteq> ''true'' \<or> ak = [] then (False, m)
      else managerIsAllowed (heNet he) (heParse he) now m ak
             \<lparr>AccountName = [], ArgAction = ''s3:BypassGovernanceRetention'', BucketName = bucket, ObjectName = key, IsOwner = False,
              SourceIP = [], ConditionValues = Map.empty\<rparr>)"

text \<open>The retention the bucket's default rule gives, an \<open>int64\<close> of nanoseconds.\<close>

definition defaultSpan :: "objectLockConfig \<Rightarrow> int" where
  "defaultSpan lc = wrap64 (daysDuration (DefaultDays lc) + wrap64 (DefaultYears lc * (365 * day)))"

definition lockOptions :: "bucketConfig \<Rightarrow> time \<Rightarrow> hreq \<Rightarrow> objectOptions \<Rightarrow> objectOptions" where
  "lockOptions c now r opts =
     (let m = hdr r ''x-amz-object-lock-mode''; d = hdr r ''x-amz-object-lock-retain-until-date''; lh = hdr r ''x-amz-object-lock-legal-hold'';
          o1 = opts\<lparr>oLockMode := m, oLockRetainUntil := (case parseRFC3339 d of Some t \<Rightarrow> if d = [] then 0 else t | None \<Rightarrow> 0), oLockLegalHold := lh\<rparr>
      in case cfgObjectLock c of
           Some lc \<Rightarrow>
             if m = [] \<and> olEnabled lc \<and> DefaultMode lc \<noteq> [] \<and> defaultSpan lc > 0
             then o1\<lparr>oLockMode := DefaultMode lc, oLockRetainUntil := now + defaultSpan lc\<rparr> else o1
         | None \<Rightarrow> o1)"

definition vopts :: "henv \<Rightarrow> time \<Rightarrow> string \<Rightarrow> hreq \<Rightarrow> ('b, 'c, 's) hserver \<Rightarrow> objectOptions \<times> ('b, 'c, 's) hserver" where
  "vopts he now bucket r sv =
     (let c = Get bucket (hsCfg sv);
          locked = (case cfgObjectLock c of Some lc \<Rightarrow> olEnabled lc | None \<Rightarrow> False);
          o1 = lockOptions c now r
                 (noOptions\<lparr>oVersionID := queryGet (hrReq r) ''versionId'', oCompress := cfgCompress c,
                    oVersioned := (cfgVersioning c = ''Enabled'' \<or> locked), oVersionSuspended := (cfgVersioning c = ''Suspended'')\<rparr>)
      in if hdr r ''x-amz-bypass-governance-retention'' = ''true''
         then (case bypassAllowed he now r bucket [] (hrAK r) (hsIam sv) of (ok, m) \<Rightarrow> (o1\<lparr>oBypassGovernance := ok\<rparr>, sv\<lparr>hsIam := m\<rparr>))
         else (o1, sv))"

subsection \<open>After a change\<close>

definition notify :: "time \<Rightarrow> hreq \<Rightarrow> string \<Rightarrow> string \<Rightarrow> string \<Rightarrow> int \<Rightarrow> string \<Rightarrow> ('b, 'c, 's) hserver \<Rightarrow> ('b, 'c, 's) hserver" where
  "notify now r kind bucket key sz etag sv =
     (let c = Get bucket (hsCfg sv);
          e = \<lparr>evKind = kind, evBucket = bucket, evKey = key, evSize = sz, evETag = trimQuotes etag, evVersionID = [],
               evSourceIP = clientIP (hrRemote r) (hrReq r), evTime = 0\<rparr>;
          re = \<lparr>reOp = (if kind = ObjectRemoved then ReplDelete else ReplPut), reBucket = bucket, reKey = key\<rparr>
      in sv\<lparr>hsCache := ocEvict bucket key [] (hsCache sv), hsEvents := hsEvents sv @ busPublish c now e, hsRepl := hsRepl sv @ replPublish c re\<rparr>)"

subsection \<open>PUT\<close>

text \<open>The precondition of a conditional write, \<open>Inl\<close> when it already failed.\<close>

definition writeCondition ::
  "'s olayer \<Rightarrow> draws \<Rightarrow> hreq \<Rightarrow> string \<Rightarrow> string \<Rightarrow> ('b, 'c, 's) hserver \<Rightarrow> (unit + (objectInfo \<Rightarrow> bool) option) \<times> ('b, 'c, 's) hserver" where
  "writeCondition L dr r bucket key sv =
     (let inm = hdr r ''If-None-Match''; im = hdr r ''If-Match'' in
      if inm \<noteq> [] then
        (Inr (Some (if inm = ''*'' then (\<lambda>oi. iName oi \<noteq> [] \<and> iETag oi \<noteq> []) else (\<lambda>oi. etagMatches inm (trimQuotes (iETag oi))))), sv)
      else if im \<noteq> [] then
        (case onObj (olInfo L dr bucket key noOptions) sv of
           (Inl e, sv1) \<Rightarrow> (Inl (), sv1)
         | (Inr cur, sv1) \<Rightarrow>
             if im \<noteq> ''*'' \<and> \<not> etagMatches im (trimQuotes (iETag cur)) then (Inl (), sv1)
             else (Inr (Some (\<lambda>oi. im \<noteq> ''*'' \<and> \<not> etagMatches im (trimQuotes (iETag oi)))), sv1))
      else (Inr None, sv))"

text \<open>An append: the current object is read, extended and written again, on condition that its ETag has not changed.\<close>

definition appendDelta ::
  "'s olayer \<Rightarrow> draws \<Rightarrow> hreq \<Rightarrow> string \<Rightarrow> string \<Rightarrow> bytes \<Rightarrow> objectInfo \<Rightarrow> ('b, 'c, 's) hserver
     \<Rightarrow> (apiCode + (bytes \<times> objectOptions)) \<times> ('b, 'c, 's) hserver" where
  "appendDelta L dr r bucket key delta cur sv =
     (case onObj (olGet L dr bucket key None noOptions) sv of
        (Inl e, sv1) \<Rightarrow> (Inl (toAPIError e), sv1)
      | (Inr (oi, existing, err), sv1) \<Rightarrow>
          if err \<noteq> None then (Inl ErrInternalError, sv1)
          else if int (length existing) \<noteq> iSize cur then (Inl ErrInvalidWriteOffset, sv1)
          else (Inr (existing @ delta, noOptions\<lparr>oUserDefined := iUserDefined cur,
                  oCheckPrecondFn := Some (\<lambda>oi. trimQuotes (iETag oi) \<noteq> trimQuotes (iETag cur))\<rparr>), sv1))"

definition putAppended ::
  "'s olayer \<Rightarrow> draws \<Rightarrow> hreq \<Rightarrow> string \<Rightarrow> string \<Rightarrow> bytes \<Rightarrow> objectOptions \<Rightarrow> ('b, 'c, 's) hserver \<Rightarrow> resp \<times> ('b, 'c, 's) hserver" where
  "putAppended L dr r bucket key combined opts sv =
     (if quotaExceeded bucket (int (length combined)) sv then fails ErrQuotaExceeded bucket key sv
      else case onObj (olPut L dr bucket key \<lparr>rdata = combined, rfails = False\<rparr> (int (length combined)) opts) sv of
        (Inl e, sv1) \<Rightarrow> fails (if e = LPreconditionFailed then ErrInvalidWriteOffset else toAPIError e) bucket key sv1
      | (Inr ni, sv1) \<Rightarrow>
          (writeSuccessOK (setH ''x-amz-object-size'' (Itoa (iSize ni)) (setH ''ETag'' (quoteETag (iETag ni)) [])),
           notify (dNow dr) r ObjectCreated bucket key (iSize ni) (iETag ni) sv1))"

definition handleAppendObject ::
  "'s olayer \<Rightarrow> henv \<Rightarrow> draws \<Rightarrow> hreq \<Rightarrow> string \<Rightarrow> string \<Rightarrow> int \<Rightarrow> ('b, 'c, 's) hserver \<Rightarrow> resp \<times> ('b, 'c, 's) hserver" where
  "handleAppendObject L he dr r bucket key sz sv =
     (case Atoi (trimSpaceS (hdr r ''x-amz-write-offset-bytes'')) of
        None \<Rightarrow> fails (AuthErr ErrInvalidArgument) bucket key sv
      | Some off \<Rightarrow>
          if off < 0 then fails (AuthErr ErrInvalidArgument) bucket key sv
          else if cfgVersioning (Get bucket (hsCfg sv)) = ''Enabled'' then fails ErrNotImplemented bucket key sv
          else case onObj (olInfo L dr bucket key noOptions) sv of (cur, sv1) \<Rightarrow>
            (let delta = take (nat (sz + 1)) (rdata (hrBody r));
                 short = (rfails (hrBody r) \<and> length (rdata (hrBody r)) \<le> nat sz) \<or> int (length delta) \<noteq> sz
             in case cur of
                  Inl e \<Rightarrow>
                    if off \<noteq> 0 then fails ErrInvalidWriteOffset bucket key sv1
                    else if short then fails ErrIncompleteBody bucket key sv1
                    else putAppended L dr r bucket key delta (noOptions\<lparr>oUserDefined := extractMetadata he r key\<rparr>) sv1
                | Inr oi \<Rightarrow>
                    if iSize oi \<noteq> off
                    then (writeErrorResponse (setH ''x-amz-object-size'' (Itoa (iSize oi)) []) ErrInvalidWriteOffset (resourceOf bucket key), sv1)
                    else if iSize oi + sz > heAppendMax he then fails ErrEntityTooLarge bucket key sv1
                    else if short then fails ErrIncompleteBody bucket key sv1
                    else case appendDelta L dr r bucket key delta oi sv1 of
                      (Inl e, sv2) \<Rightarrow> fails e bucket key sv2
                    | (Inr (combined, opts), sv2) \<Rightarrow> putAppended L dr r bucket key combined opts sv2))"

definition putOptions :: "henv \<Rightarrow> time \<Rightarrow> hreq \<Rightarrow> string \<Rightarrow> objectOptions \<Rightarrow> objectOptions" where
  "putOptions he now r key opts =
     (let md = extractMetadata he r key; ex = parseExpiryDirective he r now;
          md1 = (if isZero ex then md else AList.update expiryMetaKey (heFormatRFC3339 he ex) md);
          md2 = (case checksumFromHeaders r of Some (algo, want) \<Rightarrow> AList.update (''x-amz-meta-checksum-'' @ algo) want md1 | None \<Rightarrow> md1)
      in opts\<lparr>oUserDefined := md2, oUserTags := hdr r ''x-amz-tagging''\<rparr>)"

definition putBody :: "henv \<Rightarrow> hreq \<Rightarrow> reader" where
  "putBody he r = (case checksumFromHeaders r of Some (algo, want) \<Rightarrow> verifyingReader he algo want (hrBody r) | None \<Rightarrow> hrBody r)"

definition badChecksum :: "henv \<Rightarrow> hreq \<Rightarrow> bool" where
  "badChecksum he r \<longleftrightarrow> rfails (putBody he r) \<and> \<not> rfails (hrBody r)"

definition handlePutObject ::
  "'s olayer \<Rightarrow> henv \<Rightarrow> draws \<Rightarrow> hreq \<Rightarrow> string \<Rightarrow> string \<Rightarrow> ('b, 'c, 's) hserver \<Rightarrow> resp \<times> ('b, 'c, 's) hserver" where
  "handlePutObject L he dr r bucket key sv =
     (let sz = bodySize r in
      if sz < 0 then fails ErrMissingContentLength bucket key sv
      else if sz > maxSinglePutSize then fails ErrEntityTooLarge bucket key sv
      else if quotaExceeded bucket sz sv then fails ErrQuotaExceeded bucket key sv
      else if hdr r ''x-amz-write-offset-bytes'' \<noteq> [] then handleAppendObject L he dr r bucket key sz sv
      else case vopts he (dNow dr) bucket r sv of (vo, sv1) \<Rightarrow>
        (case writeCondition L dr r bucket key sv1 of
           (Inl _, sv2) \<Rightarrow> fails ErrPreconditionFailed bucket key sv2
         | (Inr fn, sv2) \<Rightarrow>
             (case onObj (olPut L dr bucket key (putBody he r) sz ((putOptions he (dNow dr) r key vo)\<lparr>oCheckPrecondFn := fn\<rparr>)) sv2 of
                (Inl e, sv3) \<Rightarrow> fails (if e = LBody \<and> badChecksum he r then ErrBadDigest else toAPIError e) bucket key sv3
              | (Inr oi, sv3) \<Rightarrow>
                  (writeSuccessOK (setIfH ''x-amz-server-side-encryption'' (getKey (iUserDefined oi) ''x-amz-server-side-encryption'')
                     (setIfH ''x-amz-version-id'' (iVersionID oi) (setH ''ETag'' (quoteETag (iETag oi)) []))),
                   notify (dNow dr) r ObjectCreated bucket key (iSize oi) (iETag oi) sv3))))"

subsection \<open>GET and HEAD\<close>

definition serveCached :: "henv \<Rightarrow> hreq \<Rightarrow> cacheEntry \<Rightarrow> bool \<Rightarrow> resp" where
  "serveCached he r e withBody =
     (let h0 = setIfH ''x-amz-version-id'' (iVersionID (ceInfo e)) [];
          h1 = setH ''x-gostore-cache'' ''HIT'' (writeObjectHeaders he (ceInfo e) h0)
      in case evalGetConditionals he r (ceInfo e) of
           NotModified \<Rightarrow> \<lparr>rsStatus = 304, rsHdr = h1, rsBody = NoBody\<rparr>
         | PreconditionFailed \<Rightarrow> writeErrorResponse h0 ErrPreconditionFailed (URLPath (hrReq r))
         | Proceed \<Rightarrow>
             \<lparr>rsStatus = 200, rsHdr = setH ''Content-Length'' (itoaNat (length (ceData e))) h1,
              rsBody = (if withBody then Bytes (ceData e) None else NoBody)\<rparr>)"

text \<open>The lookup of a whole current object in the cache; an expired one is dropped.\<close>

definition fromCache ::
  "time \<Rightarrow> hreq \<Rightarrow> string \<Rightarrow> string \<Rightarrow> objectOptions \<Rightarrow> ('b, 'c, 's) hserver \<Rightarrow> cacheEntry option \<times> ('b, 'c, 's) hserver" where
  "fromCache now r bucket key gopts sv =
     (if oVersionID gopts = [] \<and> hdr r ''Range'' = [] \<and> ocEnabled (hsCache sv) then
        (case ocGet now (cacheKey bucket key []) (hsCache sv) of
           (None, c) \<Rightarrow> (None, sv\<lparr>hsCache := c\<rparr>)
         | (Some e, c) \<Rightarrow>
             if HasExpired (iUserDefined (ceInfo e)) now then (None, sv\<lparr>hsCache := ocEvict bucket key [] c\<rparr>)
             else (Some e, sv\<lparr>hsCache := c\<rparr>))
      else (None, sv))"

definition serveBody ::
  "'s olayer \<Rightarrow> draws \<Rightarrow> string \<Rightarrow> string \<Rightarrow> objectOptions \<Rightarrow> rangeSpec option \<Rightarrow> objectInfo \<Rightarrow> string gomap \<Rightarrow> ('b, 'c, 's) hserver
     \<Rightarrow> resp \<times> ('b, 'c, 's) hserver" where
  "serveBody L dr bucket key gopts rng oi h sv =
     (case onObj (olGet L dr bucket key rng gopts) sv of
        (Inl e, sv1) \<Rightarrow> (writeErrorResponse h (toAPIError e) (resourceOf bucket key), sv1)
      | (Inr (oi', body, err), sv1) \<Rightarrow>
          (case rng of
             Some rs \<Rightarrow>
               (case resolveRangeForHeader rs (iSize oi) of (start, len) \<Rightarrow>
                  (\<lparr>rsStatus = 206,
                    rsHdr = setH ''Content-Length'' (Itoa len)
                              (setH ''Content-Range'' (''bytes '' @ Itoa start @ ''-'' @ Itoa (start + len - 1) @ ''/'' @ Itoa (iSize oi)) h),
                    rsBody = Bytes body err\<rparr>, sv1))
           | None \<Rightarrow>
               (\<lparr>rsStatus = 200, rsHdr = setH ''Content-Length'' (Itoa (iSize oi)) h, rsBody = Bytes body err\<rparr>,
                if eligibleSize (iSize oi) (hsCache sv1) \<and> err = None \<and> int (length body) = iSize oi
                then sv1\<lparr>hsCache := ocPut (dNow dr) (cacheKey bucket key []) body oi (hsCache sv1)\<rparr> else sv1)))"

definition serveFound ::
  "'s olayer \<Rightarrow> henv \<Rightarrow> draws \<Rightarrow> hreq \<Rightarrow> string \<Rightarrow> string \<Rightarrow> bool \<Rightarrow> objectOptions \<Rightarrow> objectInfo \<Rightarrow> ('b, 'c, 's) hserver
     \<Rightarrow> resp \<times> ('b, 'c, 's) hserver" where
  "serveFound L he dr r bucket key withBody gopts oi sv =
     (let h0 = setIfH ''x-amz-version-id'' (iVersionID oi) []; rh = hdr r ''Range''; h1 = writeObjectHeaders he oi h0 in
      if HasExpired (iUserDefined oi) (dNow dr)
      then (writeErrorResponse h0 ErrNoSuchKey (resourceOf bucket key), sv\<lparr>hsExpired := hsExpired sv @ [(bucket, key)]\<rparr>)
      else case evalGetConditionals he r oi of
        NotModified \<Rightarrow> (\<lparr>rsStatus = 304, rsHdr = h1, rsBody = NoBody\<rparr>, sv)
      | PreconditionFailed \<Rightarrow> (writeErrorResponse h0 ErrPreconditionFailed (resourceOf bucket key), sv)
      | Proceed \<Rightarrow>
          if rh \<noteq> [] \<and> withBody \<and> parseRange rh = None
          then (writeErrorResponse (setH ''Content-Range'' (''bytes */'' @ Itoa (iSize oi)) h0) ErrInvalidRange (resourceOf bucket key), sv)
          else if \<not> withBody then (\<lparr>rsStatus = 200, rsHdr = setH ''Content-Length'' (Itoa (iSize oi)) h1, rsBody = NoBody\<rparr>, sv)
          else serveBody L dr bucket key gopts (if rh = [] then None else parseRange rh) oi h1 sv)"

definition getOrHeadObject ::
  "'s olayer \<Rightarrow> henv \<Rightarrow> draws \<Rightarrow> hreq \<Rightarrow> string \<Rightarrow> string \<Rightarrow> bool \<Rightarrow> ('b, 'c, 's) hserver \<Rightarrow> resp \<times> ('b, 'c, 's) hserver" where
  "getOrHeadObject L he dr r bucket key withBody sv =
     (case vopts he (dNow dr) bucket r sv of (gopts, sv1) \<Rightarrow>
        (case fromCache (dNow dr) r bucket key gopts sv1 of
           (Some e, sv2) \<Rightarrow> (serveCached he r e withBody, sv2)
         | (None, sv2) \<Rightarrow>
             (case onObj (olInfo L dr bucket key gopts) sv2 of
                (Inl e, sv3) \<Rightarrow> fails (toAPIError e) bucket key sv3
              | (Inr oi, sv3) \<Rightarrow> serveFound L he dr r bucket key withBody gopts oi sv3)))"

definition handleGetObject where "handleGetObject L he dr r bucket key sv = getOrHeadObject L he dr r bucket key True sv"

definition handleHeadObject where "handleHeadObject L he dr r bucket key sv = getOrHeadObject L he dr r bucket key False sv"

text \<open>The goroutine that deletes an expired object.\<close>

definition deleteExpired :: "'s olayer \<Rightarrow> draws \<Rightarrow> string \<times> string \<Rightarrow> ('b, 'c, 's) hserver \<Rightarrow> ('b, 'c, 's) hserver" where
  "deleteExpired L dr bk sv = snd (onObj (olDelete L dr (fst bk) (snd bk) noOptions) sv)"

subsection \<open>DELETE and copy\<close>

definition handleDeleteObject ::
  "'s olayer \<Rightarrow> henv \<Rightarrow> draws \<Rightarrow> hreq \<Rightarrow> string \<Rightarrow> string \<Rightarrow> ('b, 'c, 's) hserver \<Rightarrow> resp \<times> ('b, 'c, 's) hserver" where
  "handleDeleteObject L he dr r bucket key sv =
     (case vopts he (dNow dr) bucket r sv of (vo, sv1) \<Rightarrow>
        (case onObj (olDelete L dr bucket key vo) sv1 of (res, sv2) \<Rightarrow>
           (case res of
              Inl e \<Rightarrow>
                if toAPIError e \<noteq> ErrNoSuchKey then fails (toAPIError e) bucket key sv2
                else (writeSuccessNoContent [], notify (dNow dr) r ObjectRemoved bucket key 0 [] sv2)
            | Inr di \<Rightarrow>
                (writeSuccessNoContent ((if iDeleteMarker di then setH ''x-amz-delete-marker'' ''true'' else id)
                   (setIfH ''x-amz-version-id'' (iVersionID di) [])),
                 notify (dNow dr) r ObjectRemoved bucket key 0 [] sv2))))"

definition copyOptions :: "henv \<Rightarrow> hreq \<Rightarrow> string \<Rightarrow> objectOptions" where
  "copyOptions he r key =
     (let md = extractMetadata he r key;
          md1 = (if EqualFold (heNet he) (hdr r ''x-amz-metadata-directive'') ''REPLACE'' then AList.update ''_directive'' ''REPLACE'' md else md);
          tg = hdr r ''x-amz-tagging''
      in noOptions\<lparr>oUserDefined := md1,
           oUserTags := (if tg \<noteq> [] \<and> EqualFold (heNet he) (hdr r ''x-amz-tagging-directive'') ''REPLACE'' then tg else [])\<rparr>)"

definition handleCopyObject ::
  "'s olayer \<Rightarrow> henv \<Rightarrow> draws \<Rightarrow> hreq \<Rightarrow> string \<Rightarrow> string \<Rightarrow> ('b, 'c, 's) hserver \<Rightarrow> resp \<times> ('b, 'c, 's) hserver" where
  "handleCopyObject L he dr r bucket key sv =
     (case parseCopySource (hdr r ''x-amz-copy-source'') of
        None \<Rightarrow> fails (AuthErr ErrInvalidArgument) bucket key sv
      | Some (sb, sk) \<Rightarrow>
          (case onObj (olInfo L dr sb sk noOptions) sv of
             (Inl e, sv1) \<Rightarrow> fails (toAPIError e) sb sk sv1
           | (Inr src, sv1) \<Rightarrow>
               (case onObj (olCopy L dr sb sk bucket key noOptions (copyOptions he r key)) sv1 of
                  (Inl e, sv2) \<Rightarrow> fails (toAPIError e) bucket key sv2
                | (Inr oi, sv2) \<Rightarrow>
                    (writeXML [] (CopyDoc (iModTime oi) (quoteETag (iETag oi))),
                     notify (dNow dr) r ObjectCreated bucket key (iSize oi) (iETag oi) sv2))))"

end
