(* ===== verification/FsListing.thy ===== *)
theory FsListing
  imports FsOps
begin

text \<open>Listings and multipart uploads of the single-disk backend (\<open>internal/object/fs/list.go\<close>, \<open>versioning.go\<close>, \<open>multipart.go\<close>).\<close>

subsection \<open>Keys\<close>

definition fsWalkKeys :: "fenv \<Rightarrow> string \<Rightarrow> disk \<Rightarrow> (fsErr + string list) \<times> disk" where
  "fsWalkKeys fe bucket d =
     (case osWalk (bucketDir fe bucket) d of
        (Inl e, d1) \<Rightarrow> (Inl (FOs e), d1)
      | (Inr es, d1) \<Rightarrow> (Inr (sort (map (\<lambda>(q, _). unsegs q) (filter (\<lambda>(q, nd). q \<noteq> [] \<and> isFile (Some nd)) es))), d1))"

definition verRoot :: "fenv \<Rightarrow> string \<Rightarrow> path" where
  "verRoot fe bucket = fjoin (feRoot fe) [sysDir, ''objver'', bucket]"

definition bucketHasVersionsFs :: "fenv \<Rightarrow> string \<Rightarrow> disk \<Rightarrow> bool \<times> disk" where
  "bucketHasVersionsFs fe bucket d =
     (case osReadDir (verRoot fe bucket) d of (r, d1) \<Rightarrow> ((case r of Inr (e # es) \<Rightarrow> True | _ \<Rightarrow> False), d1))"

text \<open>Every entry named \<open>index.json\<close>, a directory too, names the key of the directory it is in.\<close>

definition walkVerKeys :: "fenv \<Rightarrow> string \<Rightarrow> disk \<Rightarrow> (fsErr + string list) \<times> disk" where
  "walkVerKeys fe bucket d =
     (case osWalk (verRoot fe bucket) d of
        (Inl OsNotExist, d1) \<Rightarrow> (Inr [], d1)
      | (Inl e, d1) \<Rightarrow> (Inl (FOs e), d1)
      | (Inr es, d1) \<Rightarrow>
          (Inr (sort (map (\<lambda>(q, _). if butlast q = [] then ''.'' else unsegs (butlast q))
             (filter (\<lambda>(q, nd). q \<noteq> [] \<and> last q = ''index.json'') es))), d1))"

subsection \<open>The version listing (versioning.go)\<close>

fun addEntries :: "string \<Rightarrow> string \<Rightarrow> verEntry list \<Rightarrow> nat \<Rightarrow> nat \<Rightarrow> versionsInfo \<Rightarrow> versionsInfo" where
  "addEntries bucket k idx 0 mx out = out"
| "addEntries bucket k idx (Suc i) mx out =
     (let out1 = out\<lparr>lvObjects := lvObjects out @ [entryToInfo bucket k (idx ! i) (i = length idx - 1)]\<rparr>
      in if length (lvObjects out1) \<ge> mx then out1\<lparr>lvIsTruncated := True\<rparr> else addEntries bucket k idx i mx out1)"

definition listOneKey :: "fenv \<Rightarrow> string \<Rightarrow> string \<Rightarrow> nat \<Rightarrow> bool \<Rightarrow> versionsInfo \<Rightarrow> disk \<Rightarrow> versionsInfo \<times> disk" where
  "listOneKey fe bucket k mx currentOnly out d =
     (case readVerIndex fe bucket k d of (r, d1) \<Rightarrow>
        (let idx = (case r of Inr i \<Rightarrow> idxOf i | Inl _ \<Rightarrow> []) in
         if idx = [] then
           (case getInfoUnlocked fe bucket k d1 of
              (Inr oi, d2) \<Rightarrow> (out\<lparr>lvObjects := lvObjects out @ [oi\<lparr>iVersionID := nullVersionID, iIsLatest := True\<rparr>]\<rparr>, d2)
            | (Inl _, d2) \<Rightarrow> (out, d2))
         else if currentOnly then
           (if veDeleteMarker (last idx) then (out, d1)
            else (let out1 = out\<lparr>lvObjects := lvObjects out @ [entryToInfo bucket k (last idx) True]\<rparr>
                  in (if length (lvObjects out1) \<ge> mx then out1\<lparr>lvIsTruncated := True\<rparr> else out1, d1)))
         else (addEntries bucket k idx (length idx) mx out, d1)))"

fun fsVersionLoop ::
  "fenv \<Rightarrow> string \<Rightarrow> string \<Rightarrow> string \<Rightarrow> nat \<Rightarrow> bool \<Rightarrow> string list \<Rightarrow> versionsInfo \<Rightarrow> disk \<Rightarrow> versionsInfo \<times> disk" where
  "fsVersionLoop fe bucket pre delimiter mx currentOnly [] out d = (out, d)"
| "fsVersionLoop fe bucket pre delimiter mx currentOnly (k # ks) out d =
     (if pre \<noteq> [] \<and> \<not> hasPrefix k pre then fsVersionLoop fe bucket pre delimiter mx currentOnly ks out d
      else case commonPrefix pre delimiter k of
        Some cp \<Rightarrow>
          fsVersionLoop fe bucket pre delimiter mx currentOnly ks
            (if cp \<in> set (lvPrefixes out) then out else out\<lparr>lvPrefixes := lvPrefixes out @ [cp]\<rparr>) d
      | None \<Rightarrow>
          (case listOneKey fe bucket k mx currentOnly out d of (out1, d1) \<Rightarrow>
             if lvIsTruncated out1 then (out1, d1)
             else fsVersionLoop fe bucket pre delimiter mx currentOnly ks out1 d1))"

definition listVersioned ::
  "fenv \<Rightarrow> string \<Rightarrow> string \<Rightarrow> string \<Rightarrow> int \<Rightarrow> bool \<Rightarrow> disk \<Rightarrow> (fsErr + versionsInfo) \<times> disk" where
  "listVersioned fe bucket pre delimiter maxKeys currentOnly d =
     (case ensureBucketFs fe bucket d of
        (Some e, d1) \<Rightarrow> (Inl e, d1)
      | (None, d1) \<Rightarrow>
          (case walkVerKeys fe bucket d1 of
             (Inl e, d2) \<Rightarrow> (Inl e, d2)
           | (Inr vks, d2) \<Rightarrow>
               (case fsWalkKeys fe bucket d2 of
                  (Inl e, d3) \<Rightarrow> (Inl e, d3)
                | (Inr pks, d3) \<Rightarrow>
                    (case fsVersionLoop fe bucket pre delimiter (clampKeys maxKeys) currentOnly (sort (remdups (vks @ pks)))
                            \<lparr>lvObjects = [], lvPrefixes = [], lvIsTruncated = False, lvNextMarker = []\<rparr> d3 of (out, d4) \<Rightarrow>
                       (Inr (out\<lparr>lvPrefixes := sort (lvPrefixes out)\<rparr>), d4)))))"

subsection \<open>Pages (list.go)\<close>

definition lastMarker :: "listPage \<Rightarrow> string" where
  "lastMarker pg =
     (let l = (if pgObjects pg = [] then [] else iName (last (pgObjects pg))) in
      if pgPrefixes pg \<noteq> [] \<and> last (pgPrefixes pg) > l then last (pgPrefixes pg) else l)"

definition pgCount :: "listPage \<Rightarrow> nat" where
  "pgCount pg = length (pgObjects pg) + length (pgPrefixes pg)"

definition cutPage :: "listPage \<Rightarrow> listPage" where
  "cutPage pg = pg\<lparr>pgIsTruncated := True, pgNextMarker := lastMarker pg\<rparr>"

fun fsPageLoop :: "fenv \<Rightarrow> string \<Rightarrow> listParams \<Rightarrow> nat \<Rightarrow> string list \<Rightarrow> listPage \<Rightarrow> disk \<Rightarrow> (fsErr + listPage) \<times> disk" where
  "fsPageLoop fe bucket lp mx [] pg d = (Inr (pg\<lparr>pgPrefixes := sort (pgPrefixes pg)\<rparr>), d)"
| "fsPageLoop fe bucket lp mx (k # ks) pg d =
     (if pageSkips lp k then fsPageLoop fe bucket lp mx ks pg d
      else case commonPrefix (lpPrefix lp) (lpDelimiter lp) k of
        Some cp \<Rightarrow>
          if cp \<in> set (pgPrefixes pg) then fsPageLoop fe bucket lp mx ks pg d
          else if pgCount pg \<ge> mx then (Inr (cutPage pg), d)
          else fsPageLoop fe bucket lp mx ks (pg\<lparr>pgPrefixes := pgPrefixes pg @ [cp], pgNextMarker := cp\<rparr>) d
      | None \<Rightarrow>
          if pgCount pg \<ge> mx then (Inr (cutPage pg), d)
          else case getInfoUnlocked fe bucket k d of
            (Inl e, d1) \<Rightarrow> if e = FOs OsNotExist then fsPageLoop fe bucket lp mx ks pg d1 else (Inl e, d1)
          | (Inr oi, d1) \<Rightarrow> fsPageLoop fe bucket lp mx ks (pg\<lparr>pgObjects := pgObjects pg @ [oi], pgNextMarker := k\<rparr>) d1)"

definition fsDoList :: "fenv \<Rightarrow> string \<Rightarrow> listParams \<Rightarrow> disk \<Rightarrow> (fsErr + listPage) \<times> disk" where
  "fsDoList fe bucket lp d =
     (case ensureBucketFs fe bucket d of
        (Some e, d1) \<Rightarrow> (Inl e, d1)
      | (None, d1) \<Rightarrow>
          (case bucketHasVersionsFs fe bucket d1 of (hv, d2) \<Rightarrow>
             if hv then
               (case listVersioned fe bucket (lpPrefix lp) (lpDelimiter lp) (int (clampKeys (lpMaxKeys lp))) True d2 of
                  (Inl e, d3) \<Rightarrow> (Inl e, d3)
                | (Inr lv, d3) \<Rightarrow> (Inr (versionedPage lp lv), d3))
             else
               (case fsWalkKeys fe bucket d2 of
                  (Inl e, d3) \<Rightarrow> (Inl e, d3)
                | (Inr ks, d3) \<Rightarrow>
                    fsPageLoop fe bucket lp (clampKeys (lpMaxKeys lp)) ks
                      \<lparr>pgObjects = [], pgPrefixes = [], pgIsTruncated = False, pgNextMarker = []\<rparr> d3)))"

definition fsListObjects ::
  "fenv \<Rightarrow> string \<Rightarrow> string \<Rightarrow> string \<Rightarrow> string \<Rightarrow> int \<Rightarrow> disk \<Rightarrow> (fsErr + listPage) \<times> disk" where
  "fsListObjects fe bucket pre marker delimiter maxKeys d =
     fsDoList fe bucket \<lparr>lpPrefix = pre, lpDelimiter = delimiter, lpStartAfter = marker, lpMaxKeys = maxKeys\<rparr> d"

definition decodeToken :: "string \<Rightarrow> string" where
  "decodeToken s = (if s = [] then [] else case DecodeString s of Some b \<Rightarrow> b | None \<Rightarrow> s)"

definition fsListObjectsV2 ::
  "fenv \<Rightarrow> string \<Rightarrow> string \<Rightarrow> string \<Rightarrow> string \<Rightarrow> int \<Rightarrow> string \<Rightarrow> disk \<Rightarrow> (fsErr + listV2Info) \<times> disk" where
  "fsListObjectsV2 fe bucket pre token delimiter maxKeys startAfter d =
     (case fsDoList fe bucket \<lparr>lpPrefix = pre, lpDelimiter = delimiter,
             lpStartAfter = (if token \<noteq> [] then decodeToken token else startAfter), lpMaxKeys = maxKeys\<rparr> d of
        (Inl e, d1) \<Rightarrow> (Inl e, d1)
      | (Inr pg, d1) \<Rightarrow> (Inr (pageV2 token pg), d1))"

definition fsListObjectVersions ::
  "fenv \<Rightarrow> string \<Rightarrow> string \<Rightarrow> string \<Rightarrow> string \<Rightarrow> int \<Rightarrow> disk \<Rightarrow> (fsErr + versionsInfo) \<times> disk" where
  "fsListObjectVersions fe bucket pre marker delimiter maxKeys d =
     (case bucketHasVersionsFs fe bucket d of (hv, d1) \<Rightarrow>
        if hv then listVersioned fe bucket pre delimiter maxKeys False d1
        else case fsListObjects fe bucket pre marker delimiter maxKeys d1 of
          (Inl e, d2) \<Rightarrow> (Inl e, d2)
        | (Inr li, d2) \<Rightarrow>
            (Inr \<lparr>lvObjects = map (\<lambda>ob. ob\<lparr>iVersionID := ''null'', iIsLatest := True\<rparr>) (pgObjects li),
                  lvPrefixes = pgPrefixes li, lvIsTruncated = pgIsTruncated li, lvNextMarker = pgNextMarker li\<rparr>, d2))"

subsection \<open>Multipart uploads (multipart.go)\<close>

definition partDataName :: "nat \<Rightarrow> string" where "partDataName n = partFile n"

definition partMetaName :: "nat \<Rightarrow> string" where "partMetaName n = partFile n @ ''.json''"

definition fsNewMultipartUpload :: "fenv \<Rightarrow> draws \<Rightarrow> string \<Rightarrow> string \<Rightarrow> objectOptions \<Rightarrow> disk \<Rightarrow> (fsErr + string) \<times> disk" where
  "fsNewMultipartUpload fe dr bucket obj opts d =
     (case ensureBucketFs fe bucket d of
        (Some e, d1) \<Rightarrow> (Inl e, d1)
      | (None, d1) \<Rightarrow>
          if \<not> fsValidObjectName obj then (Inl FObjectNameInvalid, d1)
          else
            (let uid = dId1 dr; dir = mpDir fe bucket uid in
             case osMkdirAll dir d1 of
               (False, d2) \<Rightarrow> (Inl (FOs OsFail), d2)
             | (True, d2) \<Rightarrow>
                 (case writeFileAtomic (fjoin dir [''upload.json''])
                         (MpUploadDoc \<lparr>muBucket = bucket, muObject = obj, muInitiated = dNow dr,
                            muContentType = getKey (oUserDefined opts) ''content-type'',
                            muContentEnc = getKey (oUserDefined opts) ''content-encoding'',
                            muUserMeta = stripReserved (oUserDefined opts), muUserTags = oUserTags opts\<rparr>) d2 of
                    (ok, d3) \<Rightarrow> ((if ok then Inr uid else Inl (FOs OsFail)), d3))))"

definition fsLoadUpload :: "fenv \<Rightarrow> string \<Rightarrow> string \<Rightarrow> disk \<Rightarrow> (fsErr + mpUploadMeta) \<times> disk" where
  "fsLoadUpload fe bucket uid d =
     (case osReadFile (fjoin (mpDir fe bucket uid) [''upload.json'']) d of
        (Inl OsNotExist, d1) \<Rightarrow> (Inl FInvalidUploadID, d1)
      | (Inl e, d1) \<Rightarrow> (Inl (FOs e), d1)
      | (Inr (MpUploadDoc u), d1) \<Rightarrow> (Inr u, d1)
      | (Inr _, d1) \<Rightarrow> (Inl FJson, d1))"

definition storePart ::
  "fenv \<Rightarrow> draws \<Rightarrow> string \<Rightarrow> string \<Rightarrow> nat \<Rightarrow> path \<times> int \<times> string \<Rightarrow> disk \<Rightarrow> (fsErr + mpPartMeta) \<times> disk" where
  "storePart fe dr bucket uid n t d =
     (case t of (tmp, sz, md5hex) \<Rightarrow>
        (let dir = mpDir fe bucket uid in
         case osRename tmp (fjoin dir [partDataName n]) d of
           (False, d1) \<Rightarrow> (Inl (FOs OsFail), d1)
         | (True, d1) \<Rightarrow>
             (let pm = \<lparr>mpNumber = int n, mpSize = sz, mpActualSize = sz, mpETag = md5hex, mpModified = dNow dr\<rparr> in
              case writeFileAtomic (fjoin dir [partMetaName n]) (MpPartDoc pm) d1 of (ok, d2) \<Rightarrow>
                ((if ok then Inr pm else Inl (FOs OsFail)), d2))))"

definition fsPutObjectPart ::
  "fenv \<Rightarrow> draws \<Rightarrow> string \<Rightarrow> string \<Rightarrow> string \<Rightarrow> int \<Rightarrow> reader \<Rightarrow> int \<Rightarrow> disk \<Rightarrow> (fsErr + mpPartMeta) \<times> disk" where
  "fsPutObjectPart fe dr bucket obj uid partID data sz d =
     (case fsLoadUpload fe bucket uid d of
        (Inl e, d1) \<Rightarrow> (Inl e, d1)
      | (Inr u, d1) \<Rightarrow>
          if partID < 1 \<or> partID > 10000 then (Inl FInvalidPart, d1)
          else case copyToTmpAndHash fe (dId1 dr) data sz d1 of
            (Inl e, d2) \<Rightarrow> (Inl e, d2)
          | (Inr (tmp, n, md5hex), d2) \<Rightarrow> withoutTmp tmp (storePart fe dr bucket uid (nat partID) (tmp, n, md5hex) d2))"

definition fsCopyObjectPart ::
  "fenv \<Rightarrow> draws \<Rightarrow> string \<Rightarrow> string \<Rightarrow> string \<Rightarrow> string \<Rightarrow> string \<Rightarrow> int \<Rightarrow> int \<Rightarrow> int \<Rightarrow> disk \<Rightarrow> (fsErr + mpPartMeta) \<times> disk" where
  "fsCopyObjectPart fe dr sb so db dob uid partID startOffset len d =
     (case osOpen (objDataPath fe sb so) d of
        (Inl OsNotExist, d1) \<Rightarrow> (Inl FObjectNotFound, d1)
      | (Inl e, d1) \<Rightarrow> (Inl (FOs e), d1)
      | (Inr r, d1) \<Rightarrow>
          (let body = (if startOffset > 0 then drop (nat startOffset) (rdata r) else rdata r)
           in fsPutObjectPart fe dr db dob uid partID
                \<lparr>rdata = (if len \<ge> 0 then take (nat len) body else body), rfails = rfails r\<rparr> len d1))"

fun readPartMetas :: "path \<Rightarrow> (string \<times> bool) list \<Rightarrow> disk \<Rightarrow> (fsErr + mpPartMeta list) \<times> disk" where
  "readPartMetas dir [] d = (Inr [], d)"
| "readPartMetas dir ((nm, isDir) # es) d =
     (if \<not> hasPrefix nm ''part.'' \<or> \<not> hasSuffix nm ''.json'' then readPartMetas dir es d
      else case osReadFile (fjoin dir [nm]) d of
        (Inr (MpPartDoc pm), d1) \<Rightarrow>
          (case readPartMetas dir es d1 of (Inr pms, d2) \<Rightarrow> (Inr (pm # pms), d2) | (Inl e, d2) \<Rightarrow> (Inl e, d2))
      | (Inr _, d1) \<Rightarrow> (Inl FJson, d1)
      | (Inl e, d1) \<Rightarrow> (Inl (FOs e), d1))"

definition fsListParts :: "fenv \<Rightarrow> string \<Rightarrow> string \<Rightarrow> disk \<Rightarrow> (fsErr + mpPartMeta list) \<times> disk" where
  "fsListParts fe bucket uid d =
     (case osReadDir (mpDir fe bucket uid) d of
        (Inl OsNotExist, d1) \<Rightarrow> (Inl FInvalidUploadID, d1)
      | (Inl e, d1) \<Rightarrow> (Inl (FOs e), d1)
      | (Inr es, d1) \<Rightarrow>
          (case readPartMetas (mpDir fe bucket uid) es d1 of
             (Inl e, d2) \<Rightarrow> (Inl e, d2) | (Inr pms, d2) \<Rightarrow> (Inr (sort_key mpNumber pms), d2)))"

definition partOfMeta :: "mpPartMeta \<Rightarrow> partInfo" where
  "partOfMeta p = \<lparr>piPartNumber = nat (mpNumber p), piLastModified = mpModified p, piETag = mpETag p, piSize = mpSize p\<rparr>"

definition fsListObjectParts ::
  "fenv \<Rightarrow> string \<Rightarrow> string \<Rightarrow> string \<Rightarrow> int \<Rightarrow> int \<Rightarrow> disk \<Rightarrow> (fsErr + listPartsInfo) \<times> disk" where
  "fsListObjectParts fe bucket obj uid marker maxParts d =
     (case fsLoadUpload fe bucket uid d of
        (Inl e, d1) \<Rightarrow> (Inl e, d1)
      | (Inr u, d1) \<Rightarrow>
          (case fsListParts fe bucket uid d1 of
             (Inl e, d2) \<Rightarrow> (Inl e, d2)
           | (Inr every, d2) \<Rightarrow>
               (let mx = clampKeys maxParts; rest = filter (\<lambda>p. \<not> mpNumber p \<le> marker) every; page = take mx rest
                in (Inr \<lparr>lpiNextPartNumberMarker = (if page = [] then 0 else mpNumber (last page)), lpiMaxParts = mx,
                         lpiIsTruncated = (mx < length rest), lpiParts = map partOfMeta page, lpiUserDefined = muUserMeta u\<rparr>, d2))))"

fun loadUploads :: "fenv \<Rightarrow> string \<Rightarrow> string \<Rightarrow> (string \<times> bool) list \<Rightarrow> disk \<Rightarrow> multipartInfo list \<times> disk" where
  "loadUploads fe bucket pre [] d = ([], d)"
| "loadUploads fe bucket pre ((nm, isDir) # es) d =
     (if \<not> isDir then loadUploads fe bucket pre es d
      else case fsLoadUpload fe bucket nm d of (r, d1) \<Rightarrow>
        (case loadUploads fe bucket pre es d1 of (ups, d2) \<Rightarrow>
           ((case r of
               Inl _ \<Rightarrow> ups
             | Inr u \<Rightarrow>
                 if pre \<noteq> [] \<and> \<not> hasPrefix (muObject u) pre then ups
                 else \<lparr>miBucket = bucket, miObject = muObject u, miUploadID = nm, miInitiated = muInitiated u,
                       miUserDefined = muUserMeta u\<rparr> # ups), d2)))"

record fsUploadsPage =
  fuMax :: int
  fuTruncated :: bool
  fuNextKey :: string
  fuNextUpload :: string
  fuUploads :: "multipartInfo list"

definition fsListMultipartUploads :: "fenv \<Rightarrow> string \<Rightarrow> string \<Rightarrow> int \<Rightarrow> disk \<Rightarrow> (fsErr + fsUploadsPage) \<times> disk" where
  "fsListMultipartUploads fe bucket pre maxUploads d =
     (case ensureBucketFs fe bucket d of
        (Some e, d1) \<Rightarrow> (Inl e, d1)
      | (None, d1) \<Rightarrow>
          (case osReadDir (mpBucketDir fe bucket) d1 of
             (Inl OsNotExist, d2) \<Rightarrow> (Inr \<lparr>fuMax = maxUploads, fuTruncated = False, fuNextKey = [], fuNextUpload = [], fuUploads = []\<rparr>, d2)
           | (Inl e, d2) \<Rightarrow> (Inl (FOs e), d2)
           | (Inr es, d2) \<Rightarrow>
               (case loadUploads fe bucket pre es d2 of (ups0, d3) \<Rightarrow>
                  (let mx = clampKeys maxUploads; ups = sort_key (\<lambda>u. [miObject u, miUploadID u]) ups0; tr = (mx < length ups)
                   in (Inr \<lparr>fuMax = int mx, fuTruncated = tr, fuNextKey = (if tr then miObject (ups ! mx) else []),
                            fuNextUpload = (if tr then miUploadID (ups ! mx) else []), fuUploads = take mx ups\<rparr>, d3)))))"

definition fsAbortMultipartUpload :: "fenv \<Rightarrow> string \<Rightarrow> string \<Rightarrow> disk \<Rightarrow> fsErr option \<times> disk" where
  "fsAbortMultipartUpload fe bucket uid d =
     (case fsLoadUpload fe bucket uid d of
        (Inl e, d1) \<Rightarrow> (Some e, d1)
      | (Inr u, d1) \<Rightarrow>
          (case osRemoveAll (mpDir fe bucket uid) d1 of (ok, d2) \<Rightarrow> ((if ok then None else Some (FOs OsFail)), d2)))"

definition fsNormalizeETag :: "string \<Rightarrow> string" where
  "fsNormalizeETag s = toLower (trimSuffix (trimPrefix (trimSpaceS s) [CHR 0x22]) [CHR 0x22])"

text \<open>The result: the concatenated MD5 sums and the parts of the sidecar.\<close>

fun fsCheckParts :: "mpPartMeta list \<Rightarrow> int \<Rightarrow> completePart list \<Rightarrow> fsErr + (bytes \<times> objMetaPart list)" where
  "fsCheckParts ps prev [] = Inr ([], [])"
| "fsCheckParts ps prev (cp # cps) =
     (if cpPartNumber cp \<le> prev then Inl FInvalidPartOrder
      else case find (\<lambda>p. mpNumber p = cpPartNumber cp) (rev ps) of
        None \<Rightarrow> Inl FInvalidPart
      | Some pm \<Rightarrow>
          if fsNormalizeETag (cpETag cp) \<noteq> mpETag pm then Inl FInvalidPart
          else if cps \<noteq> [] \<and> mpSize pm < minPartSize then Inl FPartTooSmall
          else case hexDecode (mpETag pm) of
            None \<Rightarrow> Inl FHex
          | Some raw \<Rightarrow>
              (case fsCheckParts ps (cpPartNumber cp) cps of
                 Inl e \<Rightarrow> Inl e
               | Inr (raws, mps) \<Rightarrow>
                   Inr (raw @ raws, \<lparr>ompNumber = mpNumber pm, ompSize = mpSize pm, ompActualSize = mpActualSize pm, ompETag = mpETag pm\<rparr> # mps)))"

fun copyParts :: "path \<Rightarrow> completePart list \<Rightarrow> disk \<Rightarrow> (fsErr + bytes) \<times> disk" where
  "copyParts dir [] d = (Inr [], d)"
| "copyParts dir (cp # cps) d =
     (case osOpen (fjoin dir [partDataName (nat (cpPartNumber cp))]) d of
        (Inl e, d1) \<Rightarrow> (Inl (FOs e), d1)
      | (Inr r, d1) \<Rightarrow>
          if rfails r then (Inl (FOs OsFail), d1)
          else case copyParts dir cps d1 of (Inl e, d2) \<Rightarrow> (Inl e, d2) | (Inr b, d2) \<Rightarrow> (Inr (rdata r @ b), d2))"

text \<open>The parts are assembled in a temporary file, which every error path removes; the file is written once they were read.\<close>

definition assembleParts ::
  "fenv \<Rightarrow> draws \<Rightarrow> string \<Rightarrow> string \<Rightarrow> string \<Rightarrow> mpUploadMeta \<Rightarrow> completePart list \<Rightarrow> bytes \<times> objMetaPart list \<Rightarrow> disk
     \<Rightarrow> (fsErr + objectInfo) \<times> disk" where
  "assembleParts fe dr bucket obj uid u cps chk d =
     (let tmp = tmpPath fe (dId1 dr); p = objDataPath fe bucket obj in
      case copyParts (mpDir fe bucket uid) cps d of
        (Inl e, d1) \<Rightarrow> (Inl e, d1)
      | (Inr body, d1) \<Rightarrow>
          (case writeTmp tmp \<lparr>rdata = body, rfails = False\<rparr> d1 of
             (Some e, d2) \<Rightarrow> (Inl e, d2)
           | (None, d2) \<Rightarrow>
               (case checkPathConflicts fe bucket obj d2 of (cf, d3) \<Rightarrow>
                  if cf then (Inl FObjectExistsAsDir, snd (osRemove tmp d3))
                  else case commitFile tmp p d3 of
                    (False, d4) \<Rightarrow> (Inl (FOs OsFail), snd (osRemove tmp d4))
                  | (True, d4) \<Rightarrow>
                      (let m = emptyMeta\<lparr>omSize := sum_list (map ompSize (snd chk)), omModTime := dNow dr,
                                 omETag := hexEncode (feMd5 fe (fst chk)) @ ''-'' @ itoaNat (length cps),
                                 omContentType := muContentType u, omContentEnc := muContentEnc u, omUserMeta := muUserMeta u,
                                 omUserTags := muUserTags u, omParts := snd chk\<rparr>
                       in case writeMetaFile (objMetaPath fe bucket obj) m d4 of
                            (False, d5) \<Rightarrow> (Inl (FOs OsFail), d5)
                          | (True, d5) \<Rightarrow> (Inr (toObjectInfo m bucket obj), snd (osRemoveAll (mpDir fe bucket uid) d5))))))"

definition fsCompleteMultipartUpload ::
  "fenv \<Rightarrow> draws \<Rightarrow> string \<Rightarrow> string \<Rightarrow> string \<Rightarrow> completePart list \<Rightarrow> disk \<Rightarrow> (fsErr + objectInfo) \<times> disk" where
  "fsCompleteMultipartUpload fe dr bucket obj uid cps d =
     (case fsLoadUpload fe bucket uid d of
        (Inl e, d1) \<Rightarrow> (Inl e, d1)
      | (Inr u, d1) \<Rightarrow>
          if cps = [] then (Inl FInvalidPart, d1)
          else case fsListParts fe bucket uid d1 of
            (Inl e, d2) \<Rightarrow> (Inl e, d2)
          | (Inr ps, d2) \<Rightarrow>
              (case fsCheckParts ps 0 cps of
                 Inl e \<Rightarrow> (Inl e, d2)
               | Inr chk \<Rightarrow> assembleParts fe dr bucket obj uid u cps chk d2))"

end
