(* ===== verification/CfgHandlers.thy ===== *)
theory CfgHandlers
  imports Handlers FsListing
begin

text \<open>
  The handlers of a bucket's configuration: versioning, object lock, retention and legal hold (\<open>handlers_objectlock.go\<close>), quota and
  compression (\<open>handlers_quota.go\<close>), tags, policy, CORS, notification and replication (\<open>handlers_bucketcfg.go\<close>), lifecycle
  (\<open>handlers_lifecycle.go\<close>) and website (\<open>handlers_website.go\<close>). The decoders of \<open>encoding/xml\<close> and \<open>encoding/json\<close> are parameters: what they
  make of a body, or \<open>None\<close> when they return an error.
\<close>

subsection \<open>The rest of the object layer\<close>

text \<open>
  The operations of \<open>object.Layer\<close> on buckets, tags, listings and uploads. The creation dates of buckets and the fields of \<open>BucketInfo\<close> are
  left out, and so are the arguments no backend looks at: the version marker of a version listing, the markers and the delimiter of an upload
  listing, the owner flag of a listing. A batch of deletes has the draws of each of its goroutines.
\<close>

record uploadsPage =
  upTruncated :: bool
  upNextKey :: string
  upNextUpload :: string
  upUploads :: "multipartInfo list"

record 's blayer = "'s olayer" +
  olMake :: "draws \<Rightarrow> string \<Rightarrow> bool \<Rightarrow> 's \<Rightarrow> layerErr option \<times> 's"
  olBucket :: "string \<Rightarrow> 's \<Rightarrow> layerErr option \<times> 's"
  olBuckets :: "'s \<Rightarrow> (layerErr + string list) \<times> 's"
  olRemove :: "string \<Rightarrow> bool \<Rightarrow> 's \<Rightarrow> layerErr option \<times> 's"
  olDeleteMany :: "(nat \<Rightarrow> draws) \<Rightarrow> string \<Rightarrow> objectToDelete list \<Rightarrow> objectOptions \<Rightarrow> 's \<Rightarrow> (layerErr + string) list \<times> 's"
  olPutTags :: "draws \<Rightarrow> string \<Rightarrow> string \<Rightarrow> string \<Rightarrow> 's \<Rightarrow> (layerErr + objectInfo) \<times> 's"
  olGetTags :: "string \<Rightarrow> string \<Rightarrow> 's \<Rightarrow> (layerErr + string) \<times> 's"
  olDelTags :: "draws \<Rightarrow> string \<Rightarrow> string \<Rightarrow> 's \<Rightarrow> layerErr option \<times> 's"
  olList :: "draws \<Rightarrow> string \<Rightarrow> string \<Rightarrow> string \<Rightarrow> string \<Rightarrow> int \<Rightarrow> 's \<Rightarrow> (layerErr + listPage) \<times> 's"
  olListV2 :: "draws \<Rightarrow> string \<Rightarrow> string \<Rightarrow> string \<Rightarrow> string \<Rightarrow> int \<Rightarrow> string \<Rightarrow> 's \<Rightarrow> (layerErr + listV2Info) \<times> 's"
  olListVersions :: "draws \<Rightarrow> string \<Rightarrow> string \<Rightarrow> string \<Rightarrow> string \<Rightarrow> int \<Rightarrow> 's \<Rightarrow> (layerErr + versionsInfo) \<times> 's"
  olNewUpload :: "draws \<Rightarrow> string \<Rightarrow> string \<Rightarrow> objectOptions \<Rightarrow> 's \<Rightarrow> (layerErr + string) \<times> 's"
  olPutPart :: "draws \<Rightarrow> string \<Rightarrow> string \<Rightarrow> string \<Rightarrow> int \<Rightarrow> reader \<Rightarrow> int \<Rightarrow> 's \<Rightarrow> (layerErr + partInfo) \<times> 's"
  olCopyPart :: "draws \<Rightarrow> string \<Rightarrow> string \<Rightarrow> string \<Rightarrow> string \<Rightarrow> string \<Rightarrow> int \<Rightarrow> int \<Rightarrow> int \<Rightarrow> 's \<Rightarrow> (layerErr + partInfo) \<times> 's"
  olListParts :: "string \<Rightarrow> string \<Rightarrow> string \<Rightarrow> int \<Rightarrow> int \<Rightarrow> 's \<Rightarrow> (layerErr + listPartsInfo) \<times> 's"
  olListUploads :: "draws \<Rightarrow> string \<Rightarrow> string \<Rightarrow> int \<Rightarrow> 's \<Rightarrow> (layerErr + uploadsPage) \<times> 's"
  olAbort :: "string \<Rightarrow> string \<Rightarrow> string \<Rightarrow> 's \<Rightarrow> layerErr option \<times> 's"
  olComplete :: "draws \<Rightarrow> string \<Rightarrow> string \<Rightarrow> string \<Rightarrow> completePart list \<Rightarrow> 's \<Rightarrow> (layerErr + objectInfo) \<times> 's"

definition poolBLayer :: "penv \<Rightarrow> pool blayer" where
  "poolBLayer pe = olayer.extend (poolLayer pe) (blayer.fields
     (\<lambda>dr b lock p. mapFst (map_option poolSentinel) (poolMakeBucket (dNow dr) b p))
     (\<lambda>b p. mapFst (map_option poolSentinel) (GetBucketInfo b p))
     (\<lambda>p. mapFst Inr (poolListBuckets p))
     (\<lambda>b force p. mapFst (map_option poolSentinel) (poolDeleteBucket b force p))
     (\<lambda>drs b objs opts p. mapFst (map (map_sum poolSentinel dobjName)) (DeleteObjects pe drs b objs opts p))
     (\<lambda>dr b k tags p. sentinels poolSentinel (PutObjectTags pe (dNow dr) b k tags p))
     (\<lambda>b k p. sentinels poolSentinel (GetObjectTags pe b k p))
     (\<lambda>dr b k p. mapFst (map_option poolSentinel) (DeleteObjectTags pe (dNow dr) b k p))
     (\<lambda>dr b pre marker delim n p. sentinels poolSentinel (ListObjects pe (dNow dr) b pre marker delim n p))
     (\<lambda>dr b pre token delim n after p. sentinels poolSentinel (ListObjectsV2 pe (dNow dr) b pre token delim n after p))
     (\<lambda>dr b pre marker delim n p. sentinels poolSentinel (ListObjectVersions pe (dNow dr) b pre marker delim n p))
     (\<lambda>dr b k opts p. sentinels poolSentinel (NewMultipartUpload dr b k opts p))
     (\<lambda>dr b k uid n r sz p. sentinels poolSentinel (PutObjectPart pe dr b k uid n r sz p))
     (\<lambda>dr sb sk b k uid n off len p. sentinels poolSentinel (CopyObjectPart pe dr sb sk b k uid n off len p))
     (\<lambda>b k uid marker n p. sentinels poolSentinel (ListObjectParts pe b k uid marker n p))
     (\<lambda>dr b pre n p. mapFst (map_sum poolSentinel
        (\<lambda>l. \<lparr>upTruncated = lmiIsTruncated l, upNextKey = [], upNextUpload = [], upUploads = lmiUploads l\<rparr>)) (ListMultipartUploads (dNow dr) b pre n p))
     (\<lambda>b k uid p. mapFst (map_option poolSentinel) (AbortMultipartUpload b k uid p))
     (\<lambda>dr b k uid parts p. sentinels poolSentinel (CompleteMultipartUpload pe dr b k uid parts p)))"

definition fsBLayer :: "fenv \<Rightarrow> disk blayer" where
  "fsBLayer fe = olayer.extend (fsLayer fe) (blayer.fields
     (\<lambda>dr b lock d. mapFst (map_option fsSentinel) (fsMakeBucket fe (dNow dr) b False lock False d))
     (\<lambda>b d. mapFst (\<lambda>r. case r of Inl e \<Rightarrow> Some (fsSentinel e) | Inr _ \<Rightarrow> None) (fsGetBucketInfo fe b d))
     (\<lambda>d. mapFst (map_sum fsSentinel (map bmName)) (fsListBuckets fe d))
     (\<lambda>b force d. mapFst (map_option fsSentinel) (fsDeleteBucket fe b force d))
     (\<lambda>drs b objs opts d. mapFst (\<lambda>rs. map2 (\<lambda>o1 r. map_sum fsSentinel (\<lambda>_. otdObjectName o1) r) objs rs) (fsDeleteObjects fe drs b (map otdObjectName objs) opts d))
     (\<lambda>dr b k tags d. sentinels fsSentinel (fsPutObjectTags fe (dNow dr) b k tags d))
     (\<lambda>b k d. sentinels fsSentinel (fsGetObjectTags fe b k d))
     (\<lambda>dr b k d. mapFst (map_option fsSentinel) (fsDeleteObjectTags fe (dNow dr) b k d))
     (\<lambda>dr b pre marker delim n d. sentinels fsSentinel (fsListObjects fe b pre marker delim n d))
     (\<lambda>dr b pre token delim n after d. sentinels fsSentinel (fsListObjectsV2 fe b pre token delim n after d))
     (\<lambda>dr b pre marker delim n d. sentinels fsSentinel (fsListObjectVersions fe b pre marker delim n d))
     (\<lambda>dr b k opts d. sentinels fsSentinel (fsNewMultipartUpload fe dr b k opts d))
     (\<lambda>dr b k uid n r sz d. mapFst (map_sum fsSentinel partOfMeta) (fsPutObjectPart fe dr b k uid n r sz d))
     (\<lambda>dr sb sk b k uid n off len d. mapFst (map_sum fsSentinel partOfMeta) (fsCopyObjectPart fe dr sb sk b k uid n off len d))
     (\<lambda>b k uid marker n d. sentinels fsSentinel (fsListObjectParts fe b k uid marker n d))
     (\<lambda>dr b pre n d. mapFst (map_sum fsSentinel
        (\<lambda>l. \<lparr>upTruncated = fuTruncated l, upNextKey = fuNextKey l, upNextUpload = fuNextUpload l, upUploads = fuUploads l\<rparr>)) (fsListMultipartUploads fe b pre n d))
     (\<lambda>b k uid d. mapFst (map_option fsSentinel) (fsAbortMultipartUpload fe b uid d))
     (\<lambda>dr b k uid parts d. sentinels fsSentinel (fsCompleteMultipartUpload fe dr b k uid parts d)))"

subsection \<open>Shared steps\<close>

record codecs =
  cxVersioning :: "bytes \<Rightarrow> string option"
  cxRetention :: "bytes \<Rightarrow> (string \<times> string) option"
  cxHold :: "bytes \<Rightarrow> string option"
  cxLock :: "bytes \<Rightarrow> (string \<times> int \<times> int) option option"
  cxQuota :: "bytes \<Rightarrow> (int \<times> int) option"
  cxFlag :: "bytes \<Rightarrow> bool option"
  cxTags :: "bytes \<Rightarrow> (string \<times> string) list option"
  cxValid :: "bytes \<Rightarrow> bool"
  cxCors :: "bytes \<Rightarrow> corsRule list option"
  cxNotification :: "bytes \<Rightarrow> webhookTarget list option"
  cxReplication :: "bytes \<Rightarrow> replicationRule list option"
  cxLifecycle :: "bytes \<Rightarrow> lifecycleRuleXML list option"
  cxWebsite :: "bytes \<Rightarrow> (string \<times> string) option"
  cxDelete :: "bytes \<Rightarrow> (bool \<times> objectToDelete list) option"
  cxComplete :: "bytes \<Rightarrow> completePart list option"

text \<open>\<open>io.ReadAll(io.LimitReader(r.Body, n))\<close> with its error ignored.\<close>

definition limited :: "nat \<Rightarrow> hreq \<Rightarrow> bytes" where "limited n r = take n (rdata (hrBody r))"

definition limitFails :: "nat \<Rightarrow> hreq \<Rightarrow> bool" where
  "limitFails n r \<longleftrightarrow> rfails (hrBody r) \<and> length (rdata (hrBody r)) < n"

text \<open>The limits of the bodies; a JSON decoder behind \<open>http.MaxBytesReader\<close> sees no more than the limit either.\<close>

abbreviation kb64 :: nat where "kb64 \<equiv> 65536"
abbreviation mb1 :: nat where "mb1 \<equiv> 1048576"

definition writeJSON :: "respBody \<Rightarrow> resp" where
  "writeJSON bd = \<lparr>rsStatus = 200, rsHdr = setH ''Content-Type'' ''application/json'' [], rsBody = bd\<rparr>"

abbreviation bfails :: "apiCode \<Rightarrow> string \<Rightarrow> ('b, 'c, 's) hserver \<Rightarrow> resp \<times> ('b, 'c, 's) hserver" where
  "bfails code bucket sv \<equiv> (writeErrorResponse [] code (''/'' @ bucket), sv)"

definition updateCfg :: "'c cfgWriter \<Rightarrow> time \<Rightarrow> string \<Rightarrow> (bucketConfig \<Rightarrow> bucketConfig) \<Rightarrow> ('b, 'c, 's) hserver \<Rightarrow> bool \<times> ('b, 'c, 's) hserver" where
  "updateCfg w now bucket fn sv = (case Update w now bucket fn (hsCfg sv) of (ok, c) \<Rightarrow> (ok, sv\<lparr>hsCfg := c\<rparr>))"

text \<open>The check with which several handlers begin.\<close>

definition withBucket ::
  "'s blayer \<Rightarrow> string \<Rightarrow> (('b, 'c, 's) hserver \<Rightarrow> resp \<times> ('b, 'c, 's) hserver) \<Rightarrow> ('b, 'c, 's) hserver \<Rightarrow> resp \<times> ('b, 'c, 's) hserver" where
  "withBucket L bucket k sv =
     (case onObj (olBucket L bucket) sv of
        (Some e, sv1) \<Rightarrow> bfails (toAPIError e) bucket sv1
      | (None, sv1) \<Rightarrow> k sv1)"

text \<open>An update whose error is reported, and one whose error is dropped.\<close>

definition setCfg ::
  "'c cfgWriter \<Rightarrow> time \<Rightarrow> string \<Rightarrow> (bucketConfig \<Rightarrow> bucketConfig) \<Rightarrow> resp \<Rightarrow> ('b, 'c, 's) hserver \<Rightarrow> resp \<times> ('b, 'c, 's) hserver" where
  "setCfg w now bucket fn ok sv =
     (case updateCfg w now bucket fn sv of
        (True, sv1) \<Rightarrow> (ok, sv1)
      | (False, sv1) \<Rightarrow> bfails ErrInternalError bucket sv1)"

definition trySetCfg ::
  "'c cfgWriter \<Rightarrow> time \<Rightarrow> string \<Rightarrow> (bucketConfig \<Rightarrow> bucketConfig) \<Rightarrow> resp \<Rightarrow> ('b, 'c, 's) hserver \<Rightarrow> resp \<times> ('b, 'c, 's) hserver" where
  "trySetCfg w now bucket fn ok sv = (ok, snd (updateCfg w now bucket fn sv))"

subsection \<open>Versioning (handlers_bucket.go)\<close>

definition handleGetBucketVersioning :: "'s blayer \<Rightarrow> string \<Rightarrow> ('b, 'c, 's) hserver \<Rightarrow> resp \<times> ('b, 'c, 's) hserver" where
  "handleGetBucketVersioning L bucket =
     withBucket L bucket (\<lambda>sv. (writeXML [] (VersioningDoc (cfgVersioning (Get bucket (hsCfg sv)))), sv))"

definition handlePutBucketVersioning ::
  "'s blayer \<Rightarrow> codecs \<Rightarrow> 'c cfgWriter \<Rightarrow> time \<Rightarrow> hreq \<Rightarrow> string \<Rightarrow> ('b, 'c, 's) hserver \<Rightarrow> resp \<times> ('b, 'c, 's) hserver" where
  "handlePutBucketVersioning L x w now r bucket =
     withBucket L bucket (\<lambda>sv.
       case cxVersioning x (limited kb64 r) of
         None \<Rightarrow> bfails ErrMalformedXML bucket sv
       | Some st \<Rightarrow>
           if st \<noteq> ''Enabled'' \<and> st \<noteq> ''Suspended'' then bfails (AuthErr ErrInvalidArgument) bucket sv
           else setCfg w now bucket (\<lambda>c. c\<lparr>cfgVersioning := st\<rparr>) (writeSuccessOK []) sv)"

subsection \<open>Object lock (handlers_objectlock.go)\<close>

definition handleGetObjectRetention :: "'s olayer \<Rightarrow> hreq \<Rightarrow> string \<Rightarrow> string \<Rightarrow> ('b, 'c, 's) hserver \<Rightarrow> resp \<times> ('b, 'c, 's) hserver" where
  "handleGetObjectRetention L r bucket key sv =
     (case onObj (olGetRetention L bucket key (queryGet (hrReq r) ''versionId'')) sv of
        (Inl e, sv1) \<Rightarrow> fails (toAPIError e) bucket key sv1
      | (Inr (mode, until), sv1) \<Rightarrow>
          if mode = [] then fails ErrNoSuchObjectLockConfiguration bucket key sv1
          else (writeXML [] (RetentionDoc mode until), sv1))"

definition handlePutObjectRetention ::
  "'s olayer \<Rightarrow> henv \<Rightarrow> codecs \<Rightarrow> draws \<Rightarrow> hreq \<Rightarrow> string \<Rightarrow> string \<Rightarrow> ('b, 'c, 's) hserver \<Rightarrow> resp \<times> ('b, 'c, 's) hserver" where
  "handlePutObjectRetention L he x dr r bucket key sv =
     (case cxRetention x (limited kb64 r) of
        None \<Rightarrow> fails ErrMalformedXML bucket key sv
      | Some (mode, date) \<Rightarrow>
          if date \<noteq> [] \<and> parseRFC3339 date = None then fails (AuthErr ErrInvalidArgument) bucket key sv
          else
            (let until = (if date = [] then 0 else the (parseRFC3339 date)) in
             case bypassAllowed he (dNow dr) r bucket key (hrAK r) (hsIam sv) of (bypass, m) \<Rightarrow>
               (case onObj (olPutRetention L dr bucket key (queryGet (hrReq r) ''versionId'') mode until bypass) (sv\<lparr>hsIam := m\<rparr>) of
                  (Some e, sv1) \<Rightarrow> fails (toAPIError e) bucket key sv1
                | (None, sv1) \<Rightarrow> (writeSuccessOK [], sv1))))"

definition handleGetObjectLegalHold :: "'s olayer \<Rightarrow> hreq \<Rightarrow> string \<Rightarrow> string \<Rightarrow> ('b, 'c, 's) hserver \<Rightarrow> resp \<times> ('b, 'c, 's) hserver" where
  "handleGetObjectLegalHold L r bucket key sv =
     (case onObj (olGetHold L bucket key (queryGet (hrReq r) ''versionId'')) sv of
        (Inl e, sv1) \<Rightarrow> fails (toAPIError e) bucket key sv1
      | (Inr st, sv1) \<Rightarrow> (writeXML [] (HoldDoc st), sv1))"

definition handlePutObjectLegalHold ::
  "'s olayer \<Rightarrow> codecs \<Rightarrow> hreq \<Rightarrow> string \<Rightarrow> string \<Rightarrow> ('b, 'c, 's) hserver \<Rightarrow> resp \<times> ('b, 'c, 's) hserver" where
  "handlePutObjectLegalHold L x r bucket key sv =
     (case cxHold x (limited kb64 r) of
        None \<Rightarrow> fails ErrMalformedXML bucket key sv
      | Some st \<Rightarrow>
          if st \<noteq> ''ON'' \<and> st \<noteq> ''OFF'' then fails ErrMalformedXML bucket key sv
          else case onObj (olPutHold L bucket key (queryGet (hrReq r) ''versionId'') st) sv of
            (Some e, sv1) \<Rightarrow> fails (toAPIError e) bucket key sv1
          | (None, sv1) \<Rightarrow> (writeSuccessOK [], sv1))"

definition handleGetBucketObjectLock :: "string \<Rightarrow> ('b, 'c, 's) hserver \<Rightarrow> resp \<times> ('b, 'c, 's) hserver" where
  "handleGetBucketObjectLock bucket sv =
     (case cfgObjectLock (Get bucket (hsCfg sv)) of
        None \<Rightarrow> bfails ErrNoSuchObjectLockConfiguration bucket sv
      | Some c \<Rightarrow>
          if \<not> olEnabled c then bfails ErrNoSuchObjectLockConfiguration bucket sv
          else (writeXML [] (LockConfigDoc (if DefaultMode c = [] then None else Some (DefaultMode c, DefaultDays c, DefaultYears c))), sv))"

definition handlePutBucketObjectLock ::
  "codecs \<Rightarrow> 'c cfgWriter \<Rightarrow> time \<Rightarrow> hreq \<Rightarrow> string \<Rightarrow> ('b, 'c, 's) hserver \<Rightarrow> resp \<times> ('b, 'c, 's) hserver" where
  "handlePutBucketObjectLock x w now r bucket sv =
     (case cxLock x (limited kb64 r) of
        None \<Rightarrow> bfails ErrMalformedXML bucket sv
      | Some rule \<Rightarrow>
          (let (mode, days, years) = (case rule of Some d \<Rightarrow> d | None \<Rightarrow> ([], 0, 0));
               nc = \<lparr>olEnabled = True, DefaultMode = mode, DefaultDays = days, DefaultYears = years\<rparr>
           in setCfg w now bucket
                (\<lambda>c. c\<lparr>cfgObjectLock := Some nc, cfgVersioning := (if cfgVersioning c = [] then ''Enabled'' else cfgVersioning c)\<rparr>) (writeSuccessOK []) sv))"

subsection \<open>Quota and compression (handlers_quota.go)\<close>

definition handleGetBucketQuota :: "string \<Rightarrow> ('b, 'c, 's) hserver \<Rightarrow> resp \<times> ('b, 'c, 's) hserver" where
  "handleGetBucketQuota bucket sv = (let c = Get bucket (hsCfg sv) in (writeJSON (QuotaDoc (QuotaBytes c) (QuotaObjects c)), sv))"

definition handlePutBucketQuota ::
  "codecs \<Rightarrow> 'c cfgWriter \<Rightarrow> time \<Rightarrow> hreq \<Rightarrow> string \<Rightarrow> ('b, 'c, 's) hserver \<Rightarrow> resp \<times> ('b, 'c, 's) hserver" where
  "handlePutBucketQuota x w now r bucket sv =
     (case cxQuota x (limited kb64 r) of
        None \<Rightarrow> bfails ErrMalformedXML bucket sv
      | Some (bs, os) \<Rightarrow>
          if bs < 0 \<or> os < 0 then bfails (AuthErr ErrInvalidArgument) bucket sv
          else setCfg w now bucket (\<lambda>c. c\<lparr>QuotaBytes := bs, QuotaObjects := os\<rparr>) (writeSuccessOK []) sv)"

definition handleDeleteBucketQuota :: "'c cfgWriter \<Rightarrow> time \<Rightarrow> string \<Rightarrow> ('b, 'c, 's) hserver \<Rightarrow> resp \<times> ('b, 'c, 's) hserver" where
  "handleDeleteBucketQuota w now bucket = setCfg w now bucket (\<lambda>c. c\<lparr>QuotaBytes := 0, QuotaObjects := 0\<rparr>) (writeSuccessNoContent [])"

definition handleGetBucketCompression :: "string \<Rightarrow> ('b, 'c, 's) hserver \<Rightarrow> resp \<times> ('b, 'c, 's) hserver" where
  "handleGetBucketCompression bucket sv = (writeJSON (FlagDoc (cfgCompress (Get bucket (hsCfg sv)))), sv)"

definition handlePutBucketCompression ::
  "codecs \<Rightarrow> 'c cfgWriter \<Rightarrow> time \<Rightarrow> hreq \<Rightarrow> string \<Rightarrow> ('b, 'c, 's) hserver \<Rightarrow> resp \<times> ('b, 'c, 's) hserver" where
  "handlePutBucketCompression x w now r bucket sv =
     (case cxFlag x (limited kb64 r) of
        None \<Rightarrow> bfails ErrMalformedXML bucket sv
      | Some f \<Rightarrow> setCfg w now bucket (\<lambda>c. c\<lparr>cfgCompress := f\<rparr>) (writeSuccessOK []) sv)"

end
