(* ===== verification/BucketDocs.thy ===== *)
theory BucketDocs
  imports CfgHandlers
begin

text \<open>
  The configuration documents of a bucket that clients read and write: tags, policy, CORS, notification and replication
  (\<open>handlers_bucketcfg.go\<close>), lifecycle (\<open>handlers_lifecycle.go\<close>) and website (\<open>handlers_website.go\<close>).
\<close>

subsection \<open>Package net/url: values\<close>

definition queryEscape :: "string \<Rightarrow> string" where
  "queryEscape s = concat (map (\<lambda>c. if c = CHR '' '' then ''+'' else encodeQueryByte c) s)"

text \<open>\<open>Values.Encode\<close> of a map with one value per key.\<close>

definition valuesEncode :: "string gomap \<Rightarrow> string" where
  "valuesEncode m = joinWith ''&'' (map (\<lambda>k. queryEscape k @ ''='' @ queryEscape (getKey m k)) (sort (remdups (map fst m))))"

text \<open>\<open>ParseQuery\<close> without its error: the pairs that can be read, in order.\<close>

definition queryPair :: "string \<Rightarrow> (string \<times> string) list" where
  "queryPair s =
     (if contains s '';'' \<or> s = [] then []
      else
        (let (k, v) = (case indexByte s (CHR ''='') of Some i \<Rightarrow> (take i s, drop (Suc i) s) | None \<Rightarrow> (s, []))
         in case (queryUnescape k, queryUnescape v) of (Some k', Some v') \<Rightarrow> [(k', v')] | _ \<Rightarrow> []))"

definition parseQuery :: "string \<Rightarrow> (string \<times> string) list" where
  "parseQuery s = concat (map queryPair (splitOn (CHR ''&'') s))"

subsection \<open>Tags (handlers_bucketcfg.go)\<close>

definition setAll :: "(string \<times> string) list \<Rightarrow> string gomap" where
  "setAll tags = fold (\<lambda>(k, v) m. AList.update k v m) tags []"

definition tagsFromXML :: "codecs \<Rightarrow> bytes \<Rightarrow> string option" where
  "tagsFromXML x b = map_option (\<lambda>tags. valuesEncode (setAll tags)) (cxTags x b)"

definition tagsToXML :: "string \<Rightarrow> (string \<times> string) list" where
  "tagsToXML raw = (let vals = parseQuery raw in map (\<lambda>k. (k, getKey vals k)) (sort (remdups (map fst vals))))"

definition handleGetObjectTagging :: "'s blayer \<Rightarrow> string \<Rightarrow> string \<Rightarrow> ('b, 'c, 's) hserver \<Rightarrow> resp \<times> ('b, 'c, 's) hserver" where
  "handleGetObjectTagging L bucket key sv =
     (case onObj (olGetTags L bucket key) sv of
        (Inl e, sv1) \<Rightarrow> fails (toAPIError e) bucket key sv1
      | (Inr raw, sv1) \<Rightarrow> (writeXML [] (TagsDoc (tagsToXML raw)), sv1))"

definition handlePutObjectTagging ::
  "'s blayer \<Rightarrow> codecs \<Rightarrow> draws \<Rightarrow> hreq \<Rightarrow> string \<Rightarrow> string \<Rightarrow> ('b, 'c, 's) hserver \<Rightarrow> resp \<times> ('b, 'c, 's) hserver" where
  "handlePutObjectTagging L x dr r bucket key sv =
     (case tagsFromXML x (limited mb1 r) of
        None \<Rightarrow> fails ErrMalformedXML bucket key sv
      | Some raw \<Rightarrow>
          (case onObj (olPutTags L dr bucket key raw) sv of
             (Inl e, sv1) \<Rightarrow> fails (toAPIError e) bucket key sv1
           | (Inr _, sv1) \<Rightarrow> (writeSuccessOK [], sv1\<lparr>hsCache := ocEvict bucket key [] (hsCache sv1)\<rparr>)))"

definition handleDeleteObjectTagging :: "'s blayer \<Rightarrow> draws \<Rightarrow> string \<Rightarrow> string \<Rightarrow> ('b, 'c, 's) hserver \<Rightarrow> resp \<times> ('b, 'c, 's) hserver" where
  "handleDeleteObjectTagging L dr bucket key sv =
     (case onObj (olDelTags L dr bucket key) sv of
        (Some e, sv1) \<Rightarrow> fails (toAPIError e) bucket key sv1
      | (None, sv1) \<Rightarrow> (writeSuccessNoContent [], sv1\<lparr>hsCache := ocEvict bucket key [] (hsCache sv1)\<rparr>))"

definition handleGetBucketTagging :: "'s blayer \<Rightarrow> string \<Rightarrow> ('b, 'c, 's) hserver \<Rightarrow> resp \<times> ('b, 'c, 's) hserver" where
  "handleGetBucketTagging L bucket =
     withBucket L bucket (\<lambda>sv. (writeXML [] (TagsDoc (tagsToXML (valuesEncode (cfgTags (Get bucket (hsCfg sv)))))), sv))"

definition handlePutBucketTagging ::
  "codecs \<Rightarrow> 'c cfgWriter \<Rightarrow> time \<Rightarrow> hreq \<Rightarrow> string \<Rightarrow> ('b, 'c, 's) hserver \<Rightarrow> resp \<times> ('b, 'c, 's) hserver" where
  "handlePutBucketTagging x w now r bucket sv =
     (case cxTags x (limited mb1 r) of
        None \<Rightarrow> bfails ErrMalformedXML bucket sv
      | Some tags \<Rightarrow> setCfg w now bucket (\<lambda>c. c\<lparr>cfgTags := setAll tags\<rparr>) (writeSuccessNoContent []) sv)"

definition handleDeleteBucketTagging :: "'c cfgWriter \<Rightarrow> time \<Rightarrow> string \<Rightarrow> ('b, 'c, 's) hserver \<Rightarrow> resp \<times> ('b, 'c, 's) hserver" where
  "handleDeleteBucketTagging w now bucket = trySetCfg w now bucket (\<lambda>c. c\<lparr>cfgTags := []\<rparr>) (writeSuccessNoContent [])"

subsection \<open>Policy, CORS and notification\<close>

definition handleGetBucketPolicy :: "string \<Rightarrow> ('b, 'c, 's) hserver \<Rightarrow> resp \<times> ('b, 'c, 's) hserver" where
  "handleGetBucketPolicy bucket sv =
     (let d = cfgPolicy (Get bucket (hsCfg sv)) in
      if d = [] then bfails ErrNoSuchBucketPolicy bucket sv else (writeJSON (Bytes d None), sv))"

definition handlePutBucketPolicy ::
  "'s blayer \<Rightarrow> codecs \<Rightarrow> 'c cfgWriter \<Rightarrow> time \<Rightarrow> hreq \<Rightarrow> string \<Rightarrow> ('b, 'c, 's) hserver \<Rightarrow> resp \<times> ('b, 'c, 's) hserver" where
  "handlePutBucketPolicy L x w now r bucket =
     withBucket L bucket (\<lambda>sv.
       if \<not> cxValid x (limited mb1 r) then bfails ErrMalformedXML bucket sv
       else setCfg w now bucket (\<lambda>c. c\<lparr>cfgPolicy := limited mb1 r\<rparr>) (writeSuccessNoContent []) sv)"

definition handleDeleteBucketPolicy :: "'c cfgWriter \<Rightarrow> time \<Rightarrow> string \<Rightarrow> ('b, 'c, 's) hserver \<Rightarrow> resp \<times> ('b, 'c, 's) hserver" where
  "handleDeleteBucketPolicy w now bucket = trySetCfg w now bucket (\<lambda>c. c\<lparr>cfgPolicy := []\<rparr>) (writeSuccessNoContent [])"

text \<open>The XML rule has the fields of the stored one under other names.\<close>

definition handleGetBucketCORS :: "string \<Rightarrow> ('b, 'c, 's) hserver \<Rightarrow> resp \<times> ('b, 'c, 's) hserver" where
  "handleGetBucketCORS bucket sv =
     (let rules = cfgCORS (Get bucket (hsCfg sv)) in
      if rules = [] then bfails ErrNoSuchCORSConfiguration bucket sv else (writeXML [] (CorsDoc rules), sv))"

definition handlePutBucketCORS ::
  "codecs \<Rightarrow> 'c cfgWriter \<Rightarrow> time \<Rightarrow> hreq \<Rightarrow> string \<Rightarrow> ('b, 'c, 's) hserver \<Rightarrow> resp \<times> ('b, 'c, 's) hserver" where
  "handlePutBucketCORS x w now r bucket sv =
     (case cxCors x (limited mb1 r) of
        None \<Rightarrow> bfails ErrMalformedXML bucket sv
      | Some rules \<Rightarrow> trySetCfg w now bucket (\<lambda>c. c\<lparr>cfgCORS := rules\<rparr>) (writeSuccessOK []) sv)"

definition handleDeleteBucketCORS :: "'c cfgWriter \<Rightarrow> time \<Rightarrow> string \<Rightarrow> ('b, 'c, 's) hserver \<Rightarrow> resp \<times> ('b, 'c, 's) hserver" where
  "handleDeleteBucketCORS w now bucket = trySetCfg w now bucket (\<lambda>c. c\<lparr>cfgCORS := []\<rparr>) (writeSuccessNoContent [])"

definition handleGetBucketNotification :: "string \<Rightarrow> ('b, 'c, 's) hserver \<Rightarrow> resp \<times> ('b, 'c, 's) hserver" where
  "handleGetBucketNotification bucket sv =
     (writeJSON (NotificationDoc (case cfgNotification (Get bucket (hsCfg sv)) of None \<Rightarrow> [] | Some ws \<Rightarrow> ws)), sv)"

definition handlePutBucketNotification ::
  "codecs \<Rightarrow> 'c cfgWriter \<Rightarrow> time \<Rightarrow> hreq \<Rightarrow> string \<Rightarrow> ('b, 'c, 's) hserver \<Rightarrow> resp \<times> ('b, 'c, 's) hserver" where
  "handlePutBucketNotification x w now r bucket sv =
     (case cxNotification x (limited mb1 r) of
        None \<Rightarrow> bfails ErrMalformedXML bucket sv
      | Some ws \<Rightarrow> trySetCfg w now bucket (\<lambda>c. c\<lparr>cfgNotification := Some ws\<rparr>) (writeSuccessOK []) sv)"

subsection \<open>Replication\<close>

definition masked :: string where "masked = ''***''"

definition maskRule :: "replicationRule \<Rightarrow> replicationRule" where
  "maskRule rl = (if DestSecretKey rl \<noteq> [] then rl\<lparr>DestSecretKey := masked\<rparr> else rl)"

definition handleGetBucketReplication :: "string \<Rightarrow> ('b, 'c, 's) hserver \<Rightarrow> resp \<times> ('b, 'c, 's) hserver" where
  "handleGetBucketReplication bucket sv = (writeJSON (ReplicationDoc (map maskRule (cfgReplication (Get bucket (hsCfg sv))))), sv)"

text \<open>The loop over the previous rules does not stop at the first with the same id.\<close>

definition unmaskRule :: "replicationRule list \<Rightarrow> replicationRule \<Rightarrow> replicationRule" where
  "unmaskRule prev rl =
     (if DestSecretKey rl = masked
      then fold (\<lambda>p acc. if rrID p = rrID rl then acc\<lparr>DestSecretKey := DestSecretKey p\<rparr> else acc) prev rl else rl)"

definition handlePutBucketReplication ::
  "'s blayer \<Rightarrow> codecs \<Rightarrow> 'c cfgWriter \<Rightarrow> time \<Rightarrow> hreq \<Rightarrow> string \<Rightarrow> ('b, 'c, 's) hserver \<Rightarrow> resp \<times> ('b, 'c, 's) hserver" where
  "handlePutBucketReplication L x w now r bucket =
     withBucket L bucket (\<lambda>sv.
       case cxReplication x (limited mb1 r) of
         None \<Rightarrow> bfails ErrMalformedXML bucket sv
       | Some rules \<Rightarrow>
           if list_ex (\<lambda>rl. DestBucket rl = []) rules then bfails (AuthErr ErrInvalidArgument) bucket sv
           else
             (let new = map (unmaskRule (cfgReplication (Get bucket (hsCfg sv)))) rules
              in trySetCfg w now bucket (\<lambda>c. c\<lparr>cfgReplication := new\<rparr>) (writeSuccessOK []) sv))"

definition handleDeleteBucketReplication :: "'c cfgWriter \<Rightarrow> time \<Rightarrow> string \<Rightarrow> ('b, 'c, 's) hserver \<Rightarrow> resp \<times> ('b, 'c, 's) hserver" where
  "handleDeleteBucketReplication w now bucket = trySetCfg w now bucket (\<lambda>c. c\<lparr>cfgReplication := []\<rparr>) (writeSuccessNoContent [])"

subsection \<open>Lifecycle (handlers_lifecycle.go)\<close>

definition ruleToXML :: "lifecycleRule \<Rightarrow> lifecycleRuleXML" where
  "ruleToXML rr =
     \<lparr>lxID = lcID rr, lxStatus = lcStatus rr, lxFilter = Some (lcPrefix rr), lxPrefix = [],
      lxExpiration = (if ExpirationDays rr > 0 \<or> ExpirationDate rr \<noteq> [] \<or> ExpiredObjectDeleteMarker rr
        then Some \<lparr>exDays = ExpirationDays rr, exDate = ExpirationDate rr, exMarker = ExpiredObjectDeleteMarker rr\<rparr> else None),
      lxNoncurrent = (if NoncurrentVersionExpirationDays rr > 0 then Some (NoncurrentVersionExpirationDays rr) else None),
      lxAbort = (if AbortIncompleteMultipartDays rr > 0 then Some (AbortIncompleteMultipartDays rr) else None),
      lxTransition = (if TransitionTier rr \<noteq> [] then Some (TransitionDays rr, TransitionTier rr) else None)\<rparr>"

definition ruleFromXML :: "henv \<Rightarrow> lifecycleRuleXML \<Rightarrow> lifecycleRule" where
  "ruleFromXML he x =
     \<lparr>lcID = lxID x,
      lcPrefix = (case lxFilter x of Some p \<Rightarrow> if p \<noteq> [] then p else lxPrefix x | None \<Rightarrow> lxPrefix x),
      lcStatus = (if lxStatus x = [] then ''Enabled'' else lxStatus x),
      ExpirationDays = (case lxExpiration x of Some e \<Rightarrow> exDays e | None \<Rightarrow> 0),
      ExpirationDate = (case lxExpiration x of
          Some e \<Rightarrow> if exDate e = [] then [] else (case parseRFC3339 (exDate e) of Some t \<Rightarrow> heFormatRFC3339 he t | None \<Rightarrow> [])
        | None \<Rightarrow> []),
      ExpiredObjectDeleteMarker = (case lxExpiration x of Some e \<Rightarrow> exMarker e | None \<Rightarrow> False),
      NoncurrentVersionExpirationDays = (case lxNoncurrent x of Some d \<Rightarrow> d | None \<Rightarrow> 0),
      AbortIncompleteMultipartDays = (case lxAbort x of Some d \<Rightarrow> d | None \<Rightarrow> 0),
      TransitionDays = (case lxTransition x of Some (d, t) \<Rightarrow> if t \<noteq> [] then d else 0 | None \<Rightarrow> 0),
      TransitionTier = (case lxTransition x of Some (d, t) \<Rightarrow> t | None \<Rightarrow> [])\<rparr>"

definition handleGetBucketLifecycle :: "string \<Rightarrow> ('b, 'c, 's) hserver \<Rightarrow> resp \<times> ('b, 'c, 's) hserver" where
  "handleGetBucketLifecycle bucket sv =
     (let rules = cfgLifecycle (Get bucket (hsCfg sv)) in
      if rules = [] then bfails ErrNoSuchLifecycleConfiguration bucket sv else (writeXML [] (LifecycleDoc (map ruleToXML rules)), sv))"

definition handlePutBucketLifecycle ::
  "'s blayer \<Rightarrow> henv \<Rightarrow> codecs \<Rightarrow> 'c cfgWriter \<Rightarrow> time \<Rightarrow> hreq \<Rightarrow> string \<Rightarrow> ('b, 'c, 's) hserver \<Rightarrow> resp \<times> ('b, 'c, 's) hserver" where
  "handlePutBucketLifecycle L he x w now r bucket =
     withBucket L bucket (\<lambda>sv.
       case cxLifecycle x (limited mb1 r) of
         None \<Rightarrow> bfails ErrMalformedXML bucket sv
       | Some rs \<Rightarrow> trySetCfg w now bucket (\<lambda>c. c\<lparr>cfgLifecycle := map (ruleFromXML he) rs\<rparr>) (writeSuccessOK []) sv)"

definition handleDeleteBucketLifecycle :: "'c cfgWriter \<Rightarrow> time \<Rightarrow> string \<Rightarrow> ('b, 'c, 's) hserver \<Rightarrow> resp \<times> ('b, 'c, 's) hserver" where
  "handleDeleteBucketLifecycle w now bucket = trySetCfg w now bucket (\<lambda>c. c\<lparr>cfgLifecycle := []\<rparr>) (writeSuccessNoContent [])"

subsection \<open>Website (handlers_website.go)\<close>

definition handleGetBucketWebsite :: "string \<Rightarrow> ('b, 'c, 's) hserver \<Rightarrow> resp \<times> ('b, 'c, 's) hserver" where
  "handleGetBucketWebsite bucket sv =
     (case cfgWebsite (Get bucket (hsCfg sv)) of
        None \<Rightarrow> bfails ErrNoSuchWebsiteConfiguration bucket sv
      | Some ws \<Rightarrow> (writeXML [] (WebsiteDoc (IndexDocument ws) (ErrorDocument ws)), sv))"

definition handlePutBucketWebsite ::
  "codecs \<Rightarrow> 'c cfgWriter \<Rightarrow> time \<Rightarrow> hreq \<Rightarrow> string \<Rightarrow> ('b, 'c, 's) hserver \<Rightarrow> resp \<times> ('b, 'c, 's) hserver" where
  "handlePutBucketWebsite x w now r bucket sv =
     (case cxWebsite x (limited (256 * 1024) r) of
        None \<Rightarrow> bfails ErrMalformedXML bucket sv
      | Some (sfx, err) \<Rightarrow>
          (let idx = (if trimSpaceS sfx = [] then ''index.html'' else trimSpaceS sfx) in
           if contains idx ''/'' then bfails (AuthErr ErrInvalidArgument) bucket sv
           else trySetCfg w now bucket (\<lambda>c. c\<lparr>cfgWebsite := Some \<lparr>IndexDocument = idx, ErrorDocument = trimSpaceS err\<rparr>\<rparr>) (writeSuccessOK []) sv))"

definition handleDeleteBucketWebsite :: "'c cfgWriter \<Rightarrow> time \<Rightarrow> string \<Rightarrow> ('b, 'c, 's) hserver \<Rightarrow> resp \<times> ('b, 'c, 's) hserver" where
  "handleDeleteBucketWebsite w now bucket = trySetCfg w now bucket (\<lambda>c. c\<lparr>cfgWebsite := None\<rparr>) (writeSuccessNoContent [])"

end
