(* ===== verification/BucketHandlers.thy ===== *)
theory BucketHandlers
  imports BucketDocs
begin

text \<open>
  The handlers of buckets, listings and batch deletes (\<open>handlers_bucket.go\<close>, \<open>handlers_service.go\<close>), of multipart uploads
  (\<open>handlers_multipart.go\<close>) and the serving of static sites (\<open>handlers_website.go\<close>).
\<close>

subsection \<open>Buckets\<close>

definition handleListBuckets :: "'s blayer \<Rightarrow> ('b, 'c, 's) hserver \<Rightarrow> resp \<times> ('b, 'c, 's) hserver" where
  "handleListBuckets L sv =
     (case onObj (olBuckets L) sv of
        (Inl e, sv1) \<Rightarrow> (writeErrorResponse [] (toAPIError e) ''/'', sv1)
      | (Inr bs, sv1) \<Rightarrow> (writeXML [] (BucketListDoc bs), sv1))"

text \<open>The location in the body is read and passed on, and both backends ignore it.\<close>

definition handleCreateBucket ::
  "'s blayer \<Rightarrow> 'c cfgWriter \<Rightarrow> draws \<Rightarrow> hreq \<Rightarrow> string \<Rightarrow> ('b, 'c, 's) hserver \<Rightarrow> resp \<times> ('b, 'c, 's) hserver" where
  "handleCreateBucket L w dr r bucket sv =
     (let lock = (hdr r ''x-amz-bucket-object-lock-enabled'' = ''true'') in
      case onObj (olMake L dr bucket lock) sv of
        (Some e, sv1) \<Rightarrow> bfails (toAPIError e) bucket sv1
      | (None, sv1) \<Rightarrow>
          (writeSuccessOK (setH ''Location'' (''/'' @ bucket) []),
           if lock
           then snd (updateCfg w (dNow dr) bucket
                  (\<lambda>c. c\<lparr>cfgObjectLock := Some \<lparr>olEnabled = True, DefaultMode = [], DefaultDays = 0, DefaultYears = 0\<rparr>, cfgVersioning := ''Enabled''\<rparr>) sv1)
           else sv1))"

definition handleHeadBucket :: "'s blayer \<Rightarrow> string \<Rightarrow> string \<Rightarrow> ('b, 'c, 's) hserver \<Rightarrow> resp \<times> ('b, 'c, 's) hserver" where
  "handleHeadBucket L region bucket = withBucket L bucket (\<lambda>sv. (writeSuccessOK (setH ''x-amz-bucket-region'' region []), sv))"

definition handleDeleteBucket ::
  "'s blayer \<Rightarrow> 'c cfgWriter \<Rightarrow> time \<Rightarrow> hreq \<Rightarrow> string \<Rightarrow> ('b, 'c, 's) hserver \<Rightarrow> resp \<times> ('b, 'c, 's) hserver" where
  "handleDeleteBucket L w now r bucket sv =
     (case onObj (olRemove L bucket (hdr r ''x-amz-force-delete'' = ''true'')) sv of
        (Some e, sv1) \<Rightarrow> bfails (toAPIError e) bucket sv1
      | (None, sv1) \<Rightarrow>
          (writeSuccessNoContent [],
           sv1\<lparr>hsCfg := snd (DeleteCfg w now bucket (hsCfg sv1)), hsCache := ocEvictBucket bucket (hsCache sv1)\<rparr>))"

definition handleGetBucketLocation :: "'s blayer \<Rightarrow> string \<Rightarrow> string \<Rightarrow> ('b, 'c, 's) hserver \<Rightarrow> resp \<times> ('b, 'c, 's) hserver" where
  "handleGetBucketLocation L region bucket =
     withBucket L bucket (\<lambda>sv. (writeXML [] (LocationDoc (if region = ''us-east-1'' then [] else region)), sv))"

subsection \<open>Listings\<close>

definition parseIntDefault :: "string \<Rightarrow> int \<Rightarrow> int" where
  "parseIntDefault s def = (if s = [] then def else case Atoi s of Some n \<Rightarrow> if n < 0 then def else n | None \<Rightarrow> def)"

definition toObjectXML :: "objectInfo \<Rightarrow> objectXML" where
  "toObjectXML oi =
     \<lparr>oxKey = iName oi, oxModified = iModTime oi, oxETag = quoteETag (iETag oi), oxSize = iSize oi,
      oxClass = (if iStorageClass oi = [] then ''STANDARD'' else iStorageClass oi), oxOwner = False\<rparr>"

definition handleListObjectsV1 :: "'s blayer \<Rightarrow> draws \<Rightarrow> hreq \<Rightarrow> string \<Rightarrow> ('b, 'c, 's) hserver \<Rightarrow> resp \<times> ('b, 'c, 's) hserver" where
  "handleListObjectsV1 L dr r bucket sv =
     (let q = queryGet (hrReq r); maxKeys = parseIntDefault (q ''max-keys'') 1000 in
      case onObj (olList L dr bucket (q ''prefix'') (q ''marker'') (q ''delimiter'') maxKeys) sv of
        (Inl e, sv1) \<Rightarrow> bfails (toAPIError e) bucket sv1
      | (Inr li, sv1) \<Rightarrow>
          (writeXML [] (ListDoc \<lparr>leBucket = bucket, lePrefix = q ''prefix'', leMarker = q ''marker'', leToken = [], leDelimiter = q ''delimiter'',
             leMaxKeys = maxKeys, leTruncated = pgIsTruncated li, leNext = pgNextMarker li\<rparr> (map toObjectXML (pgObjects li)) (pgPrefixes li) 0), sv1))"

definition handleListObjectsV2 :: "'s blayer \<Rightarrow> draws \<Rightarrow> hreq \<Rightarrow> string \<Rightarrow> ('b, 'c, 's) hserver \<Rightarrow> resp \<times> ('b, 'c, 's) hserver" where
  "handleListObjectsV2 L dr r bucket sv =
     (let q = queryGet (hrReq r); maxKeys = parseIntDefault (q ''max-keys'') 1000; owner = (q ''fetch-owner'' = ''true'') in
      case onObj (olListV2 L dr bucket (q ''prefix'') (q ''continuation-token'') (q ''delimiter'') maxKeys (q ''start-after'')) sv of
        (Inl e, sv1) \<Rightarrow> bfails (toAPIError e) bucket sv1
      | (Inr li, sv1) \<Rightarrow>
          (writeXML [] (ListDoc \<lparr>leBucket = bucket, lePrefix = q ''prefix'', leMarker = q ''start-after'', leToken = q ''continuation-token'',
             leDelimiter = q ''delimiter'', leMaxKeys = maxKeys, leTruncated = l2IsTruncated li, leNext = l2NextToken li\<rparr>
             (map (\<lambda>oi. (toObjectXML oi)\<lparr>oxOwner := owner\<rparr>) (l2Objects li)) (l2Prefixes li) (length (l2Objects li) + length (l2Prefixes li))), sv1))"

definition toVersionXML :: "objectInfo \<Rightarrow> versionXML" where
  "toVersionXML oi =
     \<lparr>vxKey = iName oi, vxVersionID = (if iVersionID oi = [] then ''null'' else iVersionID oi), vxIsLatest = iIsLatest oi, vxModified = iModTime oi,
      vxETag = (if iDeleteMarker oi then [] else quoteETag (iETag oi)), vxSize = (if iDeleteMarker oi then 0 else iSize oi)\<rparr>"

definition handleListObjectVersions :: "'s blayer \<Rightarrow> draws \<Rightarrow> hreq \<Rightarrow> string \<Rightarrow> ('b, 'c, 's) hserver \<Rightarrow> resp \<times> ('b, 'c, 's) hserver" where
  "handleListObjectVersions L dr r bucket sv =
     (let q = queryGet (hrReq r); maxKeys = parseIntDefault (q ''max-keys'') 1000 in
      case onObj (olListVersions L dr bucket (q ''prefix'') (q ''key-marker'') (q ''delimiter'') maxKeys) sv of
        (Inl e, sv1) \<Rightarrow> bfails (toAPIError e) bucket sv1
      | (Inr li, sv1) \<Rightarrow>
          (writeXML [] (VersionsDoc \<lparr>leBucket = bucket, lePrefix = q ''prefix'', leMarker = q ''key-marker'', leToken = [], leDelimiter = q ''delimiter'',
             leMaxKeys = maxKeys, leTruncated = lvIsTruncated li, leNext = []\<rparr>
             (map toVersionXML (filter (\<lambda>oi. \<not> iDeleteMarker oi) (lvObjects li))) (map toVersionXML (filter iDeleteMarker (lvObjects li))) (lvPrefixes li)), sv1))"

subsection \<open>Batch deletes\<close>

definition evictDeleted :: "string \<Rightarrow> (objectToDelete \<times> (layerErr + string)) list \<Rightarrow> objCache \<Rightarrow> objCache" where
  "evictDeleted bucket rs c = fold (\<lambda>(ob, res) c. case res of Inr _ \<Rightarrow> ocEvict bucket (otdObjectName ob) [] c | Inl _ \<Rightarrow> c) rs c"

definition deletedDoc :: "bool \<Rightarrow> (objectToDelete \<times> (layerErr + string)) list \<Rightarrow> respBody" where
  "deletedDoc quiet rs =
     DeletedDoc (if quiet then [] else concat (map (\<lambda>(ob, res). case res of Inr nm \<Rightarrow> [nm] | Inl _ \<Rightarrow> []) rs))
       (concat (map (\<lambda>(ob, res). case res of Inl e \<Rightarrow> [(otdObjectName ob, fst (GetAPIError (toAPIError e)))] | Inr _ \<Rightarrow> []) rs))"

definition handleDeleteObjects ::
  "'s blayer \<Rightarrow> codecs \<Rightarrow> (nat \<Rightarrow> draws) \<Rightarrow> hreq \<Rightarrow> string \<Rightarrow> ('b, 'c, 's) hserver \<Rightarrow> resp \<times> ('b, 'c, 's) hserver" where
  "handleDeleteObjects L x drs r bucket sv =
     (if limitFails (8 * mb1) r then bfails ErrInternalError bucket sv
      else case cxDelete x (limited (8 * mb1) r) of
        None \<Rightarrow> bfails ErrMalformedXML bucket sv
      | Some (quiet, objs) \<Rightarrow>
          (case onObj (olDeleteMany L drs bucket objs noOptions) sv of (rs, sv1) \<Rightarrow>
             (writeXML [] (deletedDoc quiet (zip objs rs)), sv1\<lparr>hsCache := evictDeleted bucket (zip objs rs) (hsCache sv1)\<rparr>)))"

subsection \<open>Multipart uploads (handlers_multipart.go)\<close>

definition handleNewMultipartUpload ::
  "'s blayer \<Rightarrow> henv \<Rightarrow> draws \<Rightarrow> hreq \<Rightarrow> string \<Rightarrow> string \<Rightarrow> ('b, 'c, 's) hserver \<Rightarrow> resp \<times> ('b, 'c, 's) hserver" where
  "handleNewMultipartUpload L he dr r bucket key sv =
     (case onObj (olNewUpload L dr bucket key (noOptions\<lparr>oUserDefined := extractMetadata he r key, oUserTags := hdr r ''x-amz-tagging''\<rparr>)) sv of
        (Inl e, sv1) \<Rightarrow> fails (toAPIError e) bucket key sv1
      | (Inr uid, sv1) \<Rightarrow> (writeXML [] (UploadDoc bucket key uid), sv1))"

definition partNumber :: "hreq \<Rightarrow> int option" where
  "partNumber r = (case Atoi (queryGet (hrReq r) ''partNumber'') of Some n \<Rightarrow> if n < 1 \<or> n > 10000 then None else Some n | None \<Rightarrow> None)"

definition handlePutObjectPart ::
  "'s blayer \<Rightarrow> draws \<Rightarrow> hreq \<Rightarrow> string \<Rightarrow> string \<Rightarrow> ('b, 'c, 's) hserver \<Rightarrow> resp \<times> ('b, 'c, 's) hserver" where
  "handlePutObjectPart L dr r bucket key sv =
     (case partNumber r of
        None \<Rightarrow> fails ErrInvalidPart bucket key sv
      | Some n \<Rightarrow>
          (let sz = bodySize r in
           if sz < 0 then fails ErrMissingContentLength bucket key sv
           else if quotaExceeded bucket sz sv then fails ErrQuotaExceeded bucket key sv
           else case onObj (olPutPart L dr bucket key (queryGet (hrReq r) ''uploadId'') n (hrBody r) sz) sv of
             (Inl e, sv1) \<Rightarrow> fails (toAPIError e) bucket key sv1
           | (Inr pt, sv1) \<Rightarrow> (writeSuccessOK (setH ''ETag'' (quoteETag (piETag pt)) []), sv1)))"

text \<open>The range of a copied part: \<open>(0, -1)\<close> stands for all of it, also when the range cannot be parsed.\<close>

definition copyRange ::
  "'s blayer \<Rightarrow> draws \<Rightarrow> hreq \<Rightarrow> string \<Rightarrow> string \<Rightarrow> ('b, 'c, 's) hserver \<Rightarrow> (layerErr + (int \<times> int)) \<times> ('b, 'c, 's) hserver" where
  "copyRange L dr r sb sk sv =
     (let rh = hdr r ''x-amz-copy-source-range'' in
      case (if rh = [] then None else parseRange rh) of
        None \<Rightarrow> (Inr (0, - 1), sv)
      | Some rs \<Rightarrow>
          (case onObj (olInfo L dr sb sk noOptions) sv of
             (Inl e, sv1) \<Rightarrow> (Inl e, sv1)
           | (Inr oi, sv1) \<Rightarrow> (Inr (resolveRangeForHeader rs (iSize oi)), sv1)))"

definition handleCopyObjectPart ::
  "'s blayer \<Rightarrow> draws \<Rightarrow> hreq \<Rightarrow> string \<Rightarrow> string \<Rightarrow> ('b, 'c, 's) hserver \<Rightarrow> resp \<times> ('b, 'c, 's) hserver" where
  "handleCopyObjectPart L dr r bucket key sv =
     (case partNumber r of
        None \<Rightarrow> fails ErrInvalidPart bucket key sv
      | Some n \<Rightarrow>
          (case parseCopySource (hdr r ''x-amz-copy-source'') of
             None \<Rightarrow> fails (AuthErr ErrInvalidArgument) bucket key sv
           | Some (sb, sk) \<Rightarrow>
               (case copyRange L dr r sb sk sv of
                  (Inl e, sv1) \<Rightarrow> fails (toAPIError e) sb sk sv1
                | (Inr (off, len), sv1) \<Rightarrow>
                    (case onObj (olCopyPart L dr sb sk bucket key (queryGet (hrReq r) ''uploadId'') n off len) sv1 of
                       (Inl e, sv2) \<Rightarrow> fails (toAPIError e) bucket key sv2
                     | (Inr pt, sv2) \<Rightarrow> (writeXML [] (CopyDoc (piLastModified pt) (quoteETag (piETag pt))), sv2)))))"

text \<open>\<open>strconv.Atoi\<close> with its error ignored: zero for what is no number, the nearest \<open>int64\<close> for one that is too large.\<close>

definition atoiValue :: "string \<Rightarrow> int" where
  "atoiValue s =
     (case Atoi s of
        Some n \<Rightarrow> n
      | None \<Rightarrow>
          (let ds = (if s \<noteq> [] \<and> hd s \<in> {CHR ''+'', CHR ''-''} then tl s else s) in
           if ds = [] \<or> parseDigits 0 ds = None then 0 else if hd s = CHR ''-'' then - (2 ^ 63) else 2 ^ 63 - 1))"

definition handleListObjectParts :: "'s blayer \<Rightarrow> hreq \<Rightarrow> string \<Rightarrow> string \<Rightarrow> ('b, 'c, 's) hserver \<Rightarrow> resp \<times> ('b, 'c, 's) hserver" where
  "handleListObjectParts L r bucket key sv =
     (let q = queryGet (hrReq r); uid = q ''uploadId''; marker = atoiValue (q ''part-number-marker'');
          maxParts = parseIntDefault (q ''max-parts'') 1000
      in case onObj (olListParts L bucket key uid marker maxParts) sv of
           (Inl e, sv1) \<Rightarrow> fails (toAPIError e) bucket key sv1
         | (Inr l, sv1) \<Rightarrow>
             (writeXML [] (PartsDoc bucket key uid marker (lpiNextPartNumberMarker l) maxParts (lpiIsTruncated l)
                (map (\<lambda>p. p\<lparr>piETag := quoteETag (piETag p)\<rparr>) (lpiParts l))), sv1))"

definition handleListMultipartUploads :: "'s blayer \<Rightarrow> draws \<Rightarrow> hreq \<Rightarrow> string \<Rightarrow> ('b, 'c, 's) hserver \<Rightarrow> resp \<times> ('b, 'c, 's) hserver" where
  "handleListMultipartUploads L dr r bucket sv =
     (let q = queryGet (hrReq r); maxUploads = parseIntDefault (q ''max-uploads'') 1000 in
      case onObj (olListUploads L dr bucket (q ''prefix'') maxUploads) sv of
        (Inl e, sv1) \<Rightarrow> bfails (toAPIError e) bucket sv1
      | (Inr l, sv1) \<Rightarrow>
          (writeXML [] (UploadsDoc bucket (q ''key-marker'') (q ''upload-id-marker'') maxUploads (upTruncated l) (upNextKey l) (upNextUpload l)
             (map (\<lambda>u. (miObject u, miUploadID u, miInitiated u)) (upUploads l))), sv1))"

definition handleAbortMultipartUpload :: "'s blayer \<Rightarrow> hreq \<Rightarrow> string \<Rightarrow> string \<Rightarrow> ('b, 'c, 's) hserver \<Rightarrow> resp \<times> ('b, 'c, 's) hserver" where
  "handleAbortMultipartUpload L r bucket key sv =
     (case onObj (olAbort L bucket key (queryGet (hrReq r) ''uploadId'')) sv of
        (Some e, sv1) \<Rightarrow> fails (toAPIError e) bucket key sv1
      | (None, sv1) \<Rightarrow> (writeSuccessNoContent [], sv1))"

text \<open>The connection is taken to be without TLS.\<close>

definition handleCompleteMultipartUpload ::
  "'s blayer \<Rightarrow> codecs \<Rightarrow> draws \<Rightarrow> hreq \<Rightarrow> string \<Rightarrow> string \<Rightarrow> ('b, 'c, 's) hserver \<Rightarrow> resp \<times> ('b, 'c, 's) hserver" where
  "handleCompleteMultipartUpload L x dr r bucket key sv =
     (if limitFails (4 * mb1) r then fails ErrInternalError bucket key sv
      else case cxComplete x (limited (4 * mb1) r) of
        None \<Rightarrow> fails ErrMalformedXML bucket key sv
      | Some parts \<Rightarrow>
          if parts = [] then fails ErrMalformedXML bucket key sv
          else case onObj (olComplete L dr bucket key (queryGet (hrReq r) ''uploadId'') parts) sv of
            (Inl e, sv1) \<Rightarrow> fails (toAPIError e) bucket key sv1
          | (Inr oi, sv1) \<Rightarrow>
              (writeXML [] (CompletedDoc (''http://'' @ Host (hrReq r) @ ''/'' @ bucket @ ''/'' @ key) bucket key (quoteETag (iETag oi))),
               notify (dNow dr) r ObjectCreated bucket key (iSize oi) (iETag oi) sv1))"

subsection \<open>Static sites (handlers_website.go)\<close>

definition websiteError ::
  "'s blayer \<Rightarrow> draws \<Rightarrow> hreq \<Rightarrow> string \<Rightarrow> websiteConfig \<Rightarrow> nat \<Rightarrow> string \<Rightarrow> ('b, 'c, 's) hserver \<Rightarrow> resp \<times> ('b, 'c, 's) hserver" where
  "websiteError L dr r bucket ws status fallback sv =
     (let isGet = (Method (hrReq r) = ''GET'');
          plain = \<lparr>rsStatus = status, rsHdr = setH ''Content-Type'' ''text/plain; charset=utf-8'' [],
                   rsBody = (if isGet then Bytes (fallback @ [CHR 0x0A]) None else NoBody)\<rparr>
      in if ErrorDocument ws = [] then (plain, sv)
         else case onObj (olGet L dr bucket (ErrorDocument ws) None noOptions) sv of
           (Inr (oi, body, err), sv1) \<Rightarrow>
             (\<lparr>rsStatus = status, rsHdr = setH ''Content-Type'' ''text/html; charset=utf-8'' [], rsBody = (if isGet then Bytes body err else NoBody)\<rparr>, sv1)
         | (Inl e, sv1) \<Rightarrow> (plain, sv1))"

definition websiteTarget :: "websiteConfig \<Rightarrow> string \<Rightarrow> string" where
  "websiteTarget ws obj = (if obj = [] \<or> hasSuffix obj ''/'' then obj @ IndexDocument ws else obj)"

text \<open>The key that is served: the target, or the index document below it; \<open>None\<close> when neither is there.\<close>

definition resolveSite ::
  "'s blayer \<Rightarrow> draws \<Rightarrow> string \<Rightarrow> string \<Rightarrow> websiteConfig \<Rightarrow> ('b, 'c, 's) hserver \<Rightarrow> string option \<times> ('b, 'c, 's) hserver" where
  "resolveSite L dr bucket obj ws sv =
     (case onObj (olInfo L dr bucket (websiteTarget ws obj) noOptions) sv of
        (Inr _, sv1) \<Rightarrow> (Some (websiteTarget ws obj), sv1)
      | (Inl _, sv1) \<Rightarrow>
          if hasSuffix obj ''/'' \<or> obj = [] then (None, sv1)
          else (case onObj (olInfo L dr bucket (obj @ ''/'' @ IndexDocument ws) noOptions) sv1 of
                  (Inr _, sv2) \<Rightarrow> (Some (obj @ ''/'' @ IndexDocument ws), sv2) | (Inl _, sv2) \<Rightarrow> (None, sv2)))"

text \<open>\<open>allowed\<close>: what \<open>authorizeS3\<close> answered for \<open>websiteTarget ws obj\<close>.\<close>

definition serveWebsite ::
  "'s blayer \<Rightarrow> henv \<Rightarrow> draws \<Rightarrow> hreq \<Rightarrow> string \<Rightarrow> string \<Rightarrow> websiteConfig \<Rightarrow> bool \<Rightarrow> ('b, 'c, 's) hserver \<Rightarrow> resp \<times> ('b, 'c, 's) hserver" where
  "serveWebsite L he dr r bucket obj ws allowed sv =
     (if \<not> allowed then websiteError L dr r bucket ws 403 ''403 Forbidden'' sv
      else case resolveSite L dr bucket obj ws sv of
        (None, sv1) \<Rightarrow> websiteError L dr r bucket ws 404 ''404 Not Found'' sv1
      | (Some target, sv1) \<Rightarrow>
          getOrHeadObject (olayer.truncate L) he dr (r\<lparr>hrReq := (hrReq r)\<lparr>URLPath := ''/'' @ bucket @ ''/'' @ target\<rparr>\<rparr>)
            bucket target (Method (hrReq r) = ''GET'') sv1)"

end
