(* ===== verification/FsProps.thy ===== *)
theory FsProps
  imports FsListing DiskTree ListingWalk
begin

text \<open>
  What the single-disk backend promises, and where it does not keep it. The lemmas describe each call of the operating
  system by what it does to the lookups of the tree, on a disk that works.
\<close>

subsection \<open>Calls on a disk that works\<close>

definition calm :: "disk \<Rightarrow> bool" where
  "calm d \<longleftrightarrow> (\<forall>n. dfaults d n = Works) \<and> tree_ok (dfs d)"

lemma calm_sched [simp]: "calm d \<Longrightarrow> sched d = Works"
  by (simp add: calm_def sched_def)

lemma calm_tick [simp]: "calm (d\<lparr>dopno := n\<rparr>) = calm d"
  by (simp add: calm_def)

lemma calm_put: "calm d \<Longrightarrow> tree_ok f \<Longrightarrow> calm (d\<lparr>dopno := n, dfs := f\<rparr>)"
  by (simp add: calm_def)

lemma resolve_some: "tree_ok f \<Longrightarrow> lookupF f p = Some nd \<Longrightarrow> resolveP f p = Inr nd"
proof -
  assume t: "tree_ok f" "lookupF f p = Some nd"
  have "\<not> isFile (lookupF f (take n p))" if "n \<in> set [1..<length p]" for n
  proof -
    have "strict_prefix (take n p) p" using that by (auto simp: strict_prefix_def take_is_prefix)
    then show ?thesis using tree_prefix [OF t] by (simp add: isFile_def)
  qed
  then show ?thesis using t by (auto simp: resolveP_def belowFile_def list_ex_iff)
qed

lemma resolve_none: "lookupF f p = None \<Longrightarrow> lookupF f (butlast p) = Some Dir \<Longrightarrow> tree_ok f \<Longrightarrow> p \<noteq> [] \<Longrightarrow> resolveP f p = Inl OsNotExist"
proof -
  assume t: "lookupF f p = None" "lookupF f (butlast p) = Some Dir" "tree_ok f" "p \<noteq> []"
  have "\<not> isFile (lookupF f (take n p))" if "n \<in> set [1..<length p]" for n
  proof -
    have "n \<le> length p - 1" using that by auto
    then have "take n p = take n (butlast p)" by (simp add: butlast_conv_take min_absorb1)
    moreover have "take n (butlast p) = butlast p \<or> strict_prefix (take n (butlast p)) (butlast p)"
      by (metis strict_prefix_def take_is_prefix)
    ultimately show ?thesis using tree_prefix [OF t(3,2)] t(2) by (auto simp: isFile_def)
  qed
  then show ?thesis using t(1) by (auto simp: resolveP_def belowFile_def list_ex_iff)
qed

lemma osStat_some:
  "calm d \<Longrightarrow> lookupF (dfs d) p = Some nd \<Longrightarrow> osStat p d = (Inr nd, d\<lparr>dopno := Suc (dopno d)\<rparr>)"
  by (simp add: osStat_def resolve_some calm_def sched_def)

lemma osReadFile_some:
  "calm d \<Longrightarrow> lookupF (dfs d) p = Some (File c) \<Longrightarrow> osReadFile p d = (Inr c, d\<lparr>dopno := Suc (dopno d)\<rparr>)"
  by (simp add: osReadFile_def resolve_some calm_def sched_def)

lemma osReadFile_none:
  "calm d \<Longrightarrow> lookupF (dfs d) p = None \<Longrightarrow> lookupF (dfs d) (butlast p) = Some Dir \<Longrightarrow> p \<noteq> []
   \<Longrightarrow> osReadFile p d = (Inl OsNotExist, d\<lparr>dopno := Suc (dopno d)\<rparr>)"
  by (simp add: osReadFile_def resolve_none calm_def sched_def)

lemma osOpen_some:
  "calm d \<Longrightarrow> lookupF (dfs d) p = Some (File (Raw b)) \<Longrightarrow> osOpen p d = (Inr \<lparr>rdata = b, rfails = False\<rparr>, d\<lparr>dopno := Suc (dopno d)\<rparr>)"
  by (simp add: osOpen_def resolve_some calm_def sched_def)

lemma mkdirAll_dir:
  assumes "tree_ok f" "lookupF f p = Some Dir"
  shows "mkdirAll p f = Some f"
proof -
  have "mkdirFrom dn ss f = Some f" if "p = dn @ ss" for dn ss
    using that
  proof (induction ss arbitrary: dn)
    case (Cons s ss)
    have "lookupF f (dn @ [s]) = Some Dir"
      using assms tree_prefix [OF assms, of "dn @ [s]"] Cons.prems by (cases ss) (auto simp: strict_prefix_def)
    then show ?case using Cons by simp
  qed simp
  then show ?thesis by (simp add: mkdirAll_def)
qed

lemma osMkdirAll_dir:
  "calm d \<Longrightarrow> lookupF (dfs d) p = Some Dir \<Longrightarrow> osMkdirAll p d = (True, d\<lparr>dopno := Suc (dopno d)\<rparr>)"
  by (simp add: osMkdirAll_def mkdirAll_dir calm_def sched_def)

lemma osRename_file:
  assumes "calm d" "lookupF (dfs d) src = Some (File c)" "lookupF (dfs d) (butlast dst) = Some Dir" "lookupF (dfs d) dst \<noteq> Some Dir"
    "dst \<noteq> []" "src \<noteq> dst" "list_all fileName dst"
  shows "\<exists>f. osRename src dst d = (True, d\<lparr>dopno := Suc (dopno d), dfs := f\<rparr>) \<and> tree_ok f
    \<and> (\<forall>q. lookupF f q = (if q = dst then Some (File c) else if q = src then None else lookupF (dfs d) q))"
proof -
  have "src \<noteq> []" using assms(2) by auto
  have u: "tree_ok (AList.update dst (File c) (dfs d))" using assms by (intro tree_update) (auto simp: calm_def)
  have l: "lookupF (AList.update dst (File c) (dfs d)) q = (if q = dst then Some (File c) else lookupF (dfs d) q)" for q
    by (rule lookupF_update [OF assms(5)])
  have "\<not> list_ex (\<lambda>(q, _). strict_prefix src q) (AList.update dst (File c) (dfs d))"
  proof
    assume "list_ex (\<lambda>(q, _). strict_prefix src q) (AList.update dst (File c) (dfs d))"
    then obtain q nd where "(q, nd) \<in> set (AList.update dst (File c) (dfs d))" "strict_prefix src q" by (auto simp: list_ex_iff)
    then have "lookupF (AList.update dst (File c) (dfs d)) src = Some Dir" using u tree_mem [OF u] tree_prefix [OF u] by blast
    then show False using l assms(2,6) by simp
  qed
  then have "removeF src (AList.update dst (File c) (dfs d)) = Inr (AList.delete src (AList.update dst (File c) (dfs d)))"
    using l [of src] assms(2,6) by (simp add: removeF_def)
  then have "tree_ok (AList.delete src (AList.update dst (File c) (dfs d)))" by (rule tree_removeF [OF u])
  moreover have "osRename src dst d = (True, d\<lparr>dopno := Suc (dopno d), dfs := AList.delete src (AList.update dst (File c) (dfs d))\<rparr>)"
    using assms by (simp add: osRename_def)
  ultimately show ?thesis using l \<open>src \<noteq> []\<close> assms(6) by (auto simp: lookupF_delete)
qed

lemma writeFileAtomic_in:
  assumes "calm d" "lookupF (dfs d) (butlast p) = Some Dir" "lookupF (dfs d) p \<noteq> Some Dir" "p \<noteq> []" "list_all fileName p"
  shows "\<exists>f. writeFileAtomic p c d = (True, d\<lparr>dopno := Suc (dopno d), dfs := f\<rparr>) \<and> tree_ok f
    \<and> (\<forall>q. lookupF f q = (if q = p then Some (File c) else lookupF (dfs d) q))"
proof -
  have t: "tree_ok (dfs d)" using assms(1) by (simp add: calm_def)
  have "tree_ok (AList.update p (File c) (dfs d))" using assms t by (intro tree_update) auto
  moreover have "writeFileAtomic p c d = (True, d\<lparr>dopno := Suc (dopno d), dfs := AList.update p (File c) (dfs d)\<rparr>)"
    using assms mkdirAll_dir [OF t assms(2)] by (simp add: writeFileAtomic_def)
  ultimately show ?thesis using lookupF_update [OF assms(4)] by auto
qed

lemma writeTmp_in:
  assumes "calm d" "lookupF (dfs d) (butlast p) = Some Dir" "lookupF (dfs d) p \<noteq> Some Dir" "p \<noteq> []" "list_all fileName p" "\<not> rfails r"
  shows "\<exists>f. writeTmp p r d = (None, d\<lparr>dopno := Suc (dopno d), dfs := f\<rparr>) \<and> tree_ok f
    \<and> (\<forall>q. lookupF f q = (if q = p then Some (File (Raw (rdata r))) else lookupF (dfs d) q))"
proof -
  have "tree_ok (AList.update p (File (Raw (rdata r))) (dfs d))" using assms by (intro tree_update) (auto simp: calm_def)
  moreover have "writeTmp p r d = (None, d\<lparr>dopno := Suc (dopno d), dfs := AList.update p (File (Raw (rdata r))) (dfs d)\<rparr>)"
    using assms by (simp add: writeTmp_def)
  ultimately show ?thesis using lookupF_update [OF assms(4)] by auto
qed

text \<open>Removing a file; the tree stays as it is when there is none.\<close>

lemma osRemove_calm:
  assumes "calm d"
  shows "calm (snd (osRemove p d))" "q \<noteq> p \<Longrightarrow> lookupF (dfs (snd (osRemove p d))) q = lookupF (dfs d) q"
    "lookupF (dfs d) p = Some (File c) \<Longrightarrow> lookupF (dfs (snd (osRemove p d))) p = None"
proof -
  show "calm (snd (osRemove p d))" "q \<noteq> p \<Longrightarrow> lookupF (dfs (snd (osRemove p d))) q = lookupF (dfs d) q"
    using assms tree_removeF [of "dfs d" p] lookupF_removeF [of p "dfs d" _ q]
    by (auto simp: osRemove_def calm_def split: sum.splits)
  assume l: "lookupF (dfs d) p = Some (File c)"
  have r: "resolveP (dfs d) p = Inr (File c)" by (rule resolve_some) (use assms l in \<open>auto simp: calm_def\<close>)
  have "p \<noteq> []" using l by auto
  moreover have "removeF p (dfs d) = Inr (AList.delete p (dfs d))" using l by (simp add: removeF_def)
  ultimately show "lookupF (dfs (snd (osRemove p d))) p = None" using assms l r by (simp add: osRemove_def lookupF_delete)
qed

subsection \<open>Paths\<close>

definition rootOK :: "fenv \<Rightarrow> bool" where
  "rootOK fe \<longleftrightarrow> list_all plainName (feRoot fe)"

lemma cleanAbs_plain: "\<forall>x \<in> set xs. plainSeg x \<Longrightarrow> cleanAbs acc xs = rev acc @ xs"
  by (induction xs arbitrary: acc) auto

lemma fjoin_plain: "\<forall>x \<in> set root \<union> set (concat (map segs es)). plainSeg x \<Longrightarrow> fjoin root es = root @ concat (map segs es)"
  unfolding fjoin_def by (subst cleanAbs_plain) auto

lemma bucket_plain:
  assumes "fsValidBucketName b"
  shows "plainName b" "segs b = [b]" "b \<noteq> sysDir"
proof -
  have a: "length b \<ge> 3" "\<not> hasPrefix b ''.''" "list_all isLowerName b" "b \<noteq> sysDir"
    using assms by (auto simp: fsValidBucketName_def split: if_splits)
  have "CHR ''/'' \<notin> set b" using a(3) by (auto simp: list_all_iff isLowerName_def)
  then show "plainName b" using a(1,2) by (auto simp: plainName_def hasPrefix_def)
  then show "segs b = [b]" by (rule segs_plainName)
  show "b \<noteq> sysDir" by (rule a(4))
qed

lemma object_plain:
  assumes "fsValidObjectName k"
  shows "\<forall>x \<in> set (segs k). plainSeg x" "segs k \<noteq> []"
proof -
  have a: "k \<noteq> []" "\<not> hasPrefix k ''/''" "\<forall>x \<in> set (splitOn (CHR ''/'') k). plainSeg x"
    using assms by (auto simp: fsValidObjectName_def list_ex_iff split: if_splits)
  then show "\<forall>x \<in> set (segs k). plainSeg x" by (auto simp: segs_def)
  obtain c k' where k: "k = c # k'" "c \<noteq> CHR ''/''" using a(1,2) by (cases k) (auto simp: hasPrefix_def)
  obtain x xs where "splitOn (CHR ''/'') k' = x # xs" by (cases "splitOn (CHR ''/'') k'") auto
  then show "segs k \<noteq> []" using k by (simp add: segs_def)
qed

lemma sys_plain [simp]: "segs sysDir = [sysDir]" "segs ''meta'' = [''meta'']" "segs ''objver'' = [''objver'']" "segs ''tmp'' = [''tmp'']"
  "segs ''index.json'' = [''index.json'']" "plainSeg sysDir"
  by (auto simp: segs_def sysDir_def)

lemma paths:
  assumes "rootOK fe" "fsValidBucketName b"
  shows "bucketDir fe b = feRoot fe @ [b]"
    "fsValidObjectName k \<Longrightarrow> objDataPath fe b k = feRoot fe @ b # segs k"
    "fsValidObjectName k \<Longrightarrow> verDir fe b k = feRoot fe @ sysDir # ''objver'' # b # segs k"
    "fsValidObjectName k \<Longrightarrow> verIndexPath fe b k = verDir fe b k @ [''index.json'']"
    "fsValidObjectName k \<Longrightarrow> plainName v \<Longrightarrow> verDataPath fe b k v = verDir fe b k @ [v]"
    "plainName t \<Longrightarrow> tmpPath fe t = feRoot fe @ [sysDir, ''tmp'', t]"
proof -
  note r = assms(1)[unfolded rootOK_def list_all_iff plainName_def] and b = bucket_plain [OF assms(2)]
  show "bucketDir fe b = feRoot fe @ [b]"
    using r b unfolding bucketDir_def by (subst fjoin_plain) (auto simp: plainName_def)
  show "objDataPath fe b k = feRoot fe @ b # segs k" if "fsValidObjectName k"
    using r b object_plain [OF that] unfolding objDataPath_def by (subst fjoin_plain) (auto simp: plainName_def)
  show v: "verDir fe b k = feRoot fe @ sysDir # ''objver'' # b # segs k" if "fsValidObjectName k"
    using r b object_plain [OF that] unfolding verDir_def by (subst fjoin_plain) (auto simp: plainName_def)
  have d: "fjoin (verDir fe b k) [x] = verDir fe b k @ [x]" if "fsValidObjectName k" "plainName x" for x
    using r b object_plain [OF that(1)] that(2) unfolding v [OF that(1)] by (subst fjoin_plain) (auto simp: plainName_def segs_single)
  show "verIndexPath fe b k = verDir fe b k @ [''index.json'']" if "fsValidObjectName k"
    unfolding verIndexPath_def by (rule d [OF that]) (simp add: plainName_def)
  show "verDataPath fe b k v = verDir fe b k @ [v]" if "fsValidObjectName k" "plainName v" for v
    unfolding verDataPath_def by (rule d [OF that])
  show "tmpPath fe t = feRoot fe @ [sysDir, ''tmp'', t]" if "plainName t"
    using r that unfolding tmpPath_def by (subst fjoin_plain) (auto simp: plainName_def segs_single)
qed

lemma plain_fileName: "plainName x \<Longrightarrow> fileName x"
  by (simp add: plainName_def fileName_def)

lemma path_fileNames:
  assumes "rootOK fe" "fsValidBucketName b" "fsValidObjectName k"
  shows "list_all fileName (verDir fe b k)" "list_all fileName (objDataPath fe b k)"
proof -
  have "list_all fileName (feRoot fe)" using assms(1) plain_fileName by (auto simp: rootOK_def list_all_iff)
  moreover have "fileName sysDir" "fileName ''objver''" "fileName b" using bucket_plain [OF assms(2)] plain_fileName by (auto simp: fileName_def sysDir_def)
  ultimately show "list_all fileName (verDir fe b k)" "list_all fileName (objDataPath fe b k)"
    using segs_fileName [of k] by (simp_all add: paths [OF assms(1,2)] assms(3))
qed

subsection \<open>Object lock\<close>

text \<open>A volume that works, with the bucket and the directory of temporary files.\<close>

definition volume :: "fenv \<Rightarrow> string \<Rightarrow> disk \<Rightarrow> bool" where
  "volume fe b d \<longleftrightarrow> calm d \<and> rootOK fe \<and> fsValidBucketName b \<and> at d (feRoot fe @ [b]) = Some Dir \<and> at d (feRoot fe @ [sysDir, ''tmp'']) = Some Dir"

lemma ensure_volume:
  "volume fe b d \<Longrightarrow> ensureBucketFs fe b d = (None, d\<lparr>dopno := Suc (dopno d)\<rparr>)"
  by (simp add: volume_def ensureBucketFs_def paths osStat_some)

lemma volume_tick [simp]: "volume fe b (d\<lparr>dopno := n\<rparr>) = volume fe b d"
  by (simp add: volume_def)

lemma copyToTmp_volume:
  assumes "volume fe b d" "plainName t" "at d (tmpPath fe t) = None" "\<not> rfails r" "sz = int (length (rdata r))"
  shows "\<exists>f n. copyToTmpAndHash fe t r sz d = (Inr (tmpPath fe t, sz, hexEncode (feMd5 fe (rdata r))), d\<lparr>dopno := n, dfs := f\<rparr>) \<and> tree_ok f
    \<and> (\<forall>q. lookupF f q = (if q = tmpPath fe t then Some (File (Raw (rdata r))) else at d q))"
proof -
  have v: "calm d" "rootOK fe" "fsValidBucketName b" "at d (feRoot fe @ [sysDir, ''tmp'']) = Some Dir" using assms(1) by (auto simp: volume_def)
  have p: "tmpPath fe t = feRoot fe @ [sysDir, ''tmp'', t]" by (rule paths(6) [OF v(2,3) assms(2)])
  have "list_all fileName (tmpPath fe t)"
    using v(2) assms(2) plain_fileName by (auto simp: p rootOK_def list_all_iff fileName_def sysDir_def plainName_def)
  moreover have "at d (butlast (tmpPath fe t)) = Some Dir" using v(4) by (simp add: p butlast_append)
  ultimately obtain f where f: "writeTmp (tmpPath fe t) r d = (None, d\<lparr>dopno := Suc (dopno d), dfs := f\<rparr>)" "tree_ok f"
      "\<forall>q. lookupF f q = (if q = tmpPath fe t then Some (File (Raw (rdata r))) else at d q)"
    using writeTmp_in [OF v(1) _ _ _ _ assms(4), of "tmpPath fe t"] assms(3) by (auto simp: p)
  then show ?thesis using assms(5) by (auto simp: copyToTmpAndHash_def Let_def)
qed

definition suspended :: objectOptions where "suspended = noOptions\<lparr>oVersionSuspended := True\<rparr>"

lemma loadIndex_volume:
  "calm d \<Longrightarrow> at d (verIndexPath fe b k) = Some (File (VerDoc idx)) \<Longrightarrow> loadIndex fe b k d = (Inr idx, d\<lparr>dopno := Suc (dopno d)\<rparr>)"
  by (simp add: loadIndex_def readVerIndex_def osReadFile_some migrateIfNeeded_def)

lemma removeFirst_append: "\<forall>x \<in> set es1. \<not> P x \<Longrightarrow> P e \<Longrightarrow> removeFirst P (es1 @ e # es2) = es1 @ es2"
  by (induction es1) auto

lemma locked_null_put:
  assumes v: "volume fe b d" and k: "fsValidObjectName k"
    and idx: "at d (verIndexPath fe b k) = Some (File (VerDoc idx))" and dat: "at d (verDataPath fe b k nullVersionID) = Some (File c)"
    and lock: "e \<in> set idx" "veID e = nullVersionID" "veLockBlocks (dNow dr) False e"
    and t: "plainName (dId1 dr)" "at d (tmpPath fe (dId1 dr)) = None" "\<not> rfails r" "sz = int (length (rdata r))"
  shows "fst (fsPutObject fe dr b k r sz suspended d) = Inl FObjectLocked
    \<and> at (snd (fsPutObject fe dr b k r sz suspended d)) (verDataPath fe b k nullVersionID) = Some (File (Raw (rdata r)))"
proof -
  have c: "calm d" "rootOK fe" "fsValidBucketName b" using v by (auto simp: volume_def)
  have tr: "tree_ok (dfs d)" using c(1) by (simp add: calm_def)
  have nul: "plainName nullVersionID" by (simp add: plainName_def nullVersionID_def)
  note p = paths [OF c(2,3)]
  have vp: "verDataPath fe b k nullVersionID = verDir fe b k @ [nullVersionID]" by (rule p(5) [OF k nul])
  have ne: "verDataPath fe b k nullVersionID \<noteq> tmpPath fe (dId1 dr)" by (simp add: vp p(3) [OF k] p(6) [OF t(1)])
  have dir: "at d (verDir fe b k) = Some Dir" using tree_entry(2) [OF tr dat] by (simp add: vp)
  define d1 where "d1 = d\<lparr>dopno := Suc (dopno d)\<rparr>"
  define d2 where "d2 = d\<lparr>dopno := Suc (Suc (dopno d))\<rparr>"
  define d3 where "d3 = d\<lparr>dopno := Suc (Suc (Suc (dopno d)))\<rparr>"
  have s1: "ensureBucketFs fe b d = (None, d1)" using ensure_volume [OF v] by (simp add: d1_def)
  have s2: "loadIndex fe b k d1 = (Inr idx, d2)" using loadIndex_volume [of d1 fe b k idx] c(1) idx by (simp add: d1_def d2_def)
  have s3: "osMkdirAll (verDir fe b k) d2 = (True, d3)" using osMkdirAll_dir [of d2 "verDir fe b k"] c(1) dir by (simp add: d2_def d3_def)
  obtain f n where s4: "copyToTmpAndHash fe (dId1 dr) r sz d3 = (Inr (tmpPath fe (dId1 dr), sz, hexEncode (feMd5 fe (rdata r))), d3\<lparr>dopno := n, dfs := f\<rparr>)"
      "tree_ok f" "\<forall>q. lookupF f q = (if q = tmpPath fe (dId1 dr) then Some (File (Raw (rdata r))) else at d q)"
    using copyToTmp_volume [of fe b d3, OF _ t(1) _ t(3,4)] v t(2) by (auto simp: d3_def)
  define d4 where "d4 = d3\<lparr>dopno := n, dfs := f\<rparr>"
  have c4: "calm d4" using c(1) s4(2) by (simp add: d4_def d3_def calm_def)
  have fn: "list_all fileName (verDataPath fe b k nullVersionID)"
    using path_fileNames(1) [OF c(2,3) k] plain_fileName [OF nul] by (simp add: vp)
  have a: "at d4 (tmpPath fe (dId1 dr)) = Some (File (Raw (rdata r)))" "at d4 (butlast (verDataPath fe b k nullVersionID)) = Some Dir"
    "at d4 (verDataPath fe b k nullVersionID) \<noteq> Some Dir" "verDataPath fe b k nullVersionID \<noteq> []"
    using s4(3) dir dat t(2) ne by (auto simp: d4_def vp)
  obtain g where s5: "osRename (tmpPath fe (dId1 dr)) (verDataPath fe b k nullVersionID) d4 = (True, d4\<lparr>dopno := Suc (dopno d4), dfs := g\<rparr>)"
      "tree_ok g" "\<forall>q. lookupF g q = (if q = verDataPath fe b k nullVersionID then Some (File (Raw (rdata r))) else if q = tmpPath fe (dId1 dr) then None else at d4 q)"
    using osRename_file [OF c4 a ne [symmetric] fn] by blast
  have lk: "list_ex (\<lambda>x. veID x = nullVersionID \<and> veLockBlocks (dNow dr) (oBypassGovernance suspended) x) idx"
    using lock by (auto simp: list_ex_iff suspended_def noOptions_def)
  have "fsPutObject fe dr b k r sz suspended d = (Inl FObjectLocked, snd (osRemove (tmpPath fe (dId1 dr)) (d4\<lparr>dopno := Suc (dopno d4), dfs := g\<rparr>)))"
    using s1 s2 s3 s4(1) s5(1) lk k
    by (simp add: fsPutObject_def putVersion_def storeVersion_def withoutTmp_def suspended_def d4_def Let_def)
  moreover have "calm (d4\<lparr>dopno := Suc (dopno d4), dfs := g\<rparr>)" using c4 s5(2) by (simp add: calm_def)
  ultimately show ?thesis using osRemove_calm(2) [of _ "verDataPath fe b k nullVersionID"] ne s5(3) by simp
qed

lemma locked_null_delete:
  assumes v: "volume fe b d" and k: "fsValidObjectName k"
    and idx: "at d (verIndexPath fe b k) = Some (File (VerDoc (es1 @ e # es2)))" and dat: "at d (verDataPath fe b k nullVersionID) = Some (File c)"
    and e: "veID e = nullVersionID" "\<not> veDeleteMarker e" "\<forall>x \<in> set es1. veID x \<noteq> nullVersionID"
  shows "(\<exists>oi. fst (fsDeleteObject fe dr b k suspended d) = Inr oi)
    \<and> at (snd (fsDeleteObject fe dr b k suspended d)) (verDataPath fe b k nullVersionID) = None
    \<and> (\<exists>mk. veDeleteMarker mk \<and> at (snd (fsDeleteObject fe dr b k suspended d)) (verIndexPath fe b k) = Some (File (VerDoc (es1 @ es2 @ [mk]))))"
proof -
  let ?p = "verDataPath fe b k nullVersionID" and ?i = "verIndexPath fe b k"
  have c: "calm d" "rootOK fe" "fsValidBucketName b" using v by (auto simp: volume_def)
  have nul: "plainName nullVersionID" by (simp add: plainName_def nullVersionID_def)
  note p = paths [OF c(2,3)]
  have vp: "?p = verDir fe b k @ [nullVersionID]" "?i = verDir fe b k @ [''index.json'']" using p(4,5) k nul by auto
  have ne: "?p \<noteq> ?i" unfolding vp by (simp add: nullVersionID_def)
  have dir: "at d (verDir fe b k) = Some Dir" using tree_entry(2) [of "dfs d" ?p] c(1) dat by (simp add: vp calm_def)
  define d1 where "d1 = d\<lparr>dopno := Suc (dopno d)\<rparr>"
  define d2 where "d2 = d\<lparr>dopno := Suc (Suc (dopno d))\<rparr>"
  have s1: "ensureBucketFs fe b d = (None, d1)" using ensure_volume [OF v] by (simp add: d1_def)
  have s2: "loadIndex fe b k d1 = (Inr (es1 @ e # es2), d2)" using loadIndex_volume [of d1 fe b k "es1 @ e # es2"] c(1) idx by (simp add: d1_def d2_def)
  define d3 where "d3 = snd (osRemove ?p d2)"
  have c3: "calm d3" "at d3 ?p = None" "at d3 (verDir fe b k) = Some Dir" "at d3 ?i = Some (File (VerDoc (es1 @ e # es2)))"
    using osRemove_calm(1,3) [where d = d2 and p = ?p] osRemove_calm(2) [where d = d2 and p = ?p and q = "verDir fe b k"]
      osRemove_calm(2) [where d = d2 and p = ?p and q = ?i] c(1) dat dir idx ne by (auto simp: d3_def d2_def vp)
  have fn: "list_all fileName ?i" using path_fileNames(1) [OF c(2,3) k] by (simp add: vp fileName_def)
  define mk where "mk = \<lparr>veID = nullVersionID, veDeleteMarker = True, veSize = 0, veETag = [], veModTime = dNow dr, veContentType = [], veContentEnc = [],
      veUserMeta = [], veUserTags = [], veParts = [], veLockMode = [], veRetainUntil = 0, veLegalHold = False\<rparr>"
  have idx3: "replaceOrAppend (es1 @ e # es2) mk True = es1 @ es2 @ [mk]"
    using e by (simp add: replaceOrAppend_def removeFirst_append)
  obtain g where s4: "writeVerIndex fe b k (es1 @ es2 @ [mk]) d3 = (True, d3\<lparr>dopno := Suc (dopno d3), dfs := g\<rparr>)"
      "\<forall>q. lookupF g q = (if q = ?i then Some (File (VerDoc (es1 @ es2 @ [mk]))) else at d3 q)"
    using writeFileAtomic_in [OF c3(1), of ?i "VerDoc (es1 @ es2 @ [mk])"] c3 fn by (auto simp: writeVerIndex_def vp)
  have fd: "find (\<lambda>x. veID x = nullVersionID) (es1 @ e # es2) = Some e" using e by (induction es1) auto
  have "fsDeleteObject fe dr b k suspended d
      = (Inr (noInfo\<lparr>iBucket := b, iName := k, iVersionID := nullVersionID, iDeleteMarker := True\<rparr>), d3\<lparr>dopno := Suc (dopno d3), dfs := g\<rparr>)"
    using s1 s2 s4(1) fd e(2) idx3
    by (simp add: fsDeleteObject_def wantsVersion_def suspended_def noOptions_def fsDeleteVersion_def addMarker_def Let_def d3_def mk_def [symmetric])
  then show ?thesis using s4(2) c3(2) ne by (auto simp: mk_def)
qed

text \<open>
  C34: the single-disk backend does not keep a lock on the null version of a key once versioning is suspended. With a null
  version under an active COMPLIANCE lock, a PUT is answered with the error for a locked object and has replaced the version's
  bytes all the same; a DELETE without a version succeeds, removes the bytes and drops the locked entry from the index.
\<close>

theorem fs_suspended_breaks_lock:
  assumes "volume fe b d" "fsValidObjectName k"
    and "at d (verIndexPath fe b k) = Some (File (VerDoc (es1 @ e # es2)))" "at d (verDataPath fe b k nullVersionID) = Some (File (Raw old))"
    and "veID e = nullVersionID" "\<not> veDeleteMarker e" "\<forall>x \<in> set es1. veID x \<noteq> nullVersionID"
    and "veLockMode e = ''COMPLIANCE''" "0 < veRetainUntil e" "dNow dr < veRetainUntil e"
    and "plainName (dId1 dr)" "at d (tmpPath fe (dId1 dr)) = None" "\<not> rfails r" "sz = int (length (rdata r))"
  shows "(case fsPutObject fe dr b k r sz suspended d of (res, d') \<Rightarrow>
      res = Inl FObjectLocked \<and> at d' (verDataPath fe b k nullVersionID) = Some (File (Raw (rdata r))))
    \<and> (case fsDeleteObject fe dr b k suspended d of (res, d') \<Rightarrow>
      \<not> isl res \<and> at d' (verDataPath fe b k nullVersionID) = None
      \<and> (\<exists>mk. veDeleteMarker mk \<and> at d' (verIndexPath fe b k) = Some (File (VerDoc (es1 @ es2 @ [mk])))))"
proof -
  have l: "veLockBlocks (dNow dr) False e" using assms(8-10) by (simp add: veLockBlocks_def)
  have "fst (fsPutObject fe dr b k r sz suspended d) = Inl FObjectLocked
      \<and> at (snd (fsPutObject fe dr b k r sz suspended d)) (verDataPath fe b k nullVersionID) = Some (File (Raw (rdata r)))"
    by (rule locked_null_put [OF assms(1-4) _ assms(5) l assms(11-14)]) simp
  moreover note locked_null_delete [OF assms(1-7), of dr]
  ultimately show ?thesis by (auto simp: split_beta)
qed

definition wit_fe :: fenv where
  "wit_fe = \<lparr>feRoot = [''vol''], feMd5 = (\<lambda>b. b), feMtime = (\<lambda>_. 7), feAead = wit_aead, feKms = None\<rparr>"

definition wit_fdraws :: draws where
  "wit_fdraws = \<lparr>dNow = 5, dVid = ''v1'', dId1 = ''t1'', dId2 = ''t2'', dDek = [], dPfx = [], dNonce = []\<rparr>"

definition wit_lockedEntry :: verEntry where
  "wit_lockedEntry = \<lparr>veID = ''null'', veDeleteMarker = False, veSize = 3, veETag = [], veModTime = 1, veContentType = [], veContentEnc = [],
     veUserMeta = [], veUserTags = [], veParts = [], veLockMode = ''COMPLIANCE'', veRetainUntil = 9, veLegalHold = False\<rparr>"

definition wit_vol :: disk where
  "wit_vol = \<lparr>dfs = [([''etc''], Dir), ([''etc'', ''pw''], File (Raw ''secret'')), ([''vol''], Dir), ([''vol'', ''bkt''], Dir), ([''vol'', sysDir], Dir),
      ([''vol'', sysDir, ''tmp''], Dir), ([''vol'', sysDir, ''meta''], Dir), ([''vol'', sysDir, ''meta'', ''bkt''], Dir),
      ([''vol'', sysDir, ''objver''], Dir), ([''vol'', sysDir, ''objver'', ''bkt''], Dir),
      ([''vol'', sysDir, ''objver'', ''bkt'', ''k''], Dir), ([''vol'', sysDir, ''objver'', ''bkt'', ''k'', ''index.json''], File (VerDoc [wit_lockedEntry])),
      ([''vol'', sysDir, ''objver'', ''bkt'', ''k'', ''null''], File (Raw ''old''))],
     dfaults = (\<lambda>_. Works), dopno = 0\<rparr>"

lemma wit_volume: "volume wit_fe ''bkt'' wit_vol"
proof -
  have "tree_ok (dfs wit_vol)" by (simp add: tree_ok_def wit_vol_def lookupF_def fileName_def sysDir_def)
  moreover have "fsValidBucketName ''bkt''" by code_simp
  ultimately show ?thesis by (simp add: volume_def calm_def wit_vol_def wit_fe_def rootOK_def plainName_def lookupF_def sysDir_def)
qed

theorem fs_suspended_breaks_lock_witness:
  "fst (fsPutObject wit_fe wit_fdraws ''bkt'' ''k'' \<lparr>rdata = ''new'', rfails = False\<rparr> 3 suspended wit_vol) = Inl FObjectLocked
   \<and> at (snd (fsPutObject wit_fe wit_fdraws ''bkt'' ''k'' \<lparr>rdata = ''new'', rfails = False\<rparr> 3 suspended wit_vol))
       (verDataPath wit_fe ''bkt'' ''k'' ''null'') = Some (File (Raw ''new''))"
proof -
  have k: "fsValidObjectName ''k''" by code_simp
  have i: "at wit_vol (verIndexPath wit_fe ''bkt'' ''k'') = Some (File (VerDoc ([] @ wit_lockedEntry # [])))"
    "at wit_vol (verDataPath wit_fe ''bkt'' ''k'' nullVersionID) = Some (File (Raw ''old''))" "at wit_vol (tmpPath wit_fe ''t1'') = None"
    by (simp_all add: verIndexPath_def verDataPath_def tmpPath_def verDir_def fjoin_def segs_def wit_fe_def wit_vol_def lookupF_def sysDir_def nullVersionID_def)
  have h: "veID wit_lockedEntry = nullVersionID" "\<not> veDeleteMarker wit_lockedEntry" "\<forall>x \<in> set []. veID x \<noteq> nullVersionID"
    "veLockMode wit_lockedEntry = ''COMPLIANCE''" "0 < veRetainUntil wit_lockedEntry" "dNow wit_fdraws < veRetainUntil wit_lockedEntry"
    "plainName (dId1 wit_fdraws)" "at wit_vol (tmpPath wit_fe (dId1 wit_fdraws)) = None"
    using i(3) by (simp_all add: wit_lockedEntry_def wit_fdraws_def nullVersionID_def plainName_def)
  from fs_suspended_breaks_lock [OF wit_volume k i(1,2) h, of "\<lparr>rdata = ''new'', rfails = False\<rparr>" 3, THEN conjunct1]
  show ?thesis by (simp add: split_beta nullVersionID_def)
qed

subsection \<open>Names that lead out of the volume\<close>

text \<open>A key that climbs out of the bucket and the volume and then follows a path of the host.\<close>

definition escapingKey :: "fenv \<Rightarrow> path \<Rightarrow> string" where
  "escapingKey fe t = (pjoin ''..'' ^^ Suc (length (feRoot fe))) (unsegs t)"

lemma segs_climb: "segs ((pjoin ''..'' ^^ n) s) = replicate n ''..'' @ segs s"
  by (induction n) (simp_all add: segs_single)

lemma cleanAbs_climb: "cleanAbs acc (replicate n ''..'' @ xs) = cleanAbs (drop n acc) xs"
  by (induction n arbitrary: acc) (simp_all add: drop_Suc)

lemma cleanAbs_append: "cleanAbs acc (xs @ ys) = cleanAbs (rev (cleanAbs acc xs)) ys"
  by (induction acc xs rule: cleanAbs.induct) auto

lemma escaping_path:
  assumes "rootOK fe" "fsValidBucketName b" "list_all plainName t" "t \<noteq> []"
  shows "objDataPath fe b (escapingKey fe t) = t" "\<not> fsValidObjectName (escapingKey fe t)"
proof -
  have t: "segs (unsegs t) = t" by (rule segs_unsegs) (use assms(3) plain_fileName in \<open>auto simp: list_all_iff\<close>)
  have r: "\<forall>x \<in> set (feRoot fe @ [b]). plainSeg x" using assms(1) bucket_plain(1) [OF assms(2)] by (auto simp: rootOK_def list_all_iff plainName_def)
  have "objDataPath fe b (escapingKey fe t) = cleanAbs [] ((feRoot fe @ [b]) @ replicate (Suc (length (feRoot fe))) ''..'' @ t)"
    unfolding objDataPath_def fjoin_def escapingKey_def by (simp only: segs_climb t bucket_plain(2) [OF assms(2)] list.map concat.simps append_assoc append_Nil2)
  also have "\<dots> = cleanAbs (drop (Suc (length (feRoot fe))) (rev (feRoot fe @ [b]))) t"
    by (simp only: cleanAbs_append [of _ "feRoot fe @ [b]"] cleanAbs_plain [OF r] cleanAbs_climb rev.simps append_Nil)
  also have "\<dots> = t" using assms(3) by (subst cleanAbs_plain) (auto simp: list_all_iff plainName_def)
  finally show "objDataPath fe b (escapingKey fe t) = t" .
  have "''..'' \<in> set (segs (escapingKey fe t))" by (simp add: escapingKey_def segs_climb del: funpow.simps)
  then show "\<not> fsValidObjectName (escapingKey fe t)" using object_plain(1) by blast
qed

lemma prune_shrinks: "q \<noteq> [] \<Longrightarrow> lookupF f q = None \<Longrightarrow> lookupF (prune stop leaf f) q = None"
proof (induction stop leaf f rule: prune.induct)
  case (1 stop leaf f)
  then show ?case
  proof (cases "removeF leaf f")
    case (Inr f')
    then have "lookupF f' q = None" using lookupF_removeF [OF Inr, of q] 1(3) by simp
    then show ?thesis using 1 Inr by (subst prune.simps) simp
  qed (use 1(3) in \<open>subst prune.simps, simp\<close>)
qed

lemma escaping_delete:
  assumes "calm d" "objDataPath fe b k = t" "at d t = Some (File c)"
  shows "at (fsDeletePlain fe b k d) t = None"
proof -
  have t: "t \<noteq> []" using assms(3) by auto
  let ?d1 = "snd (osRemove t d)" and ?m = "objMetaPath fe b k"
  let ?d2 = "snd (osRemove ?m ?d1)"
  have 1: "calm ?d1" "at ?d1 t = None" using osRemove_calm(1,3) [OF assms(1)] assms(3) by auto
  have "at ?d2 t = None"
  proof (cases "t = ?m")
    case True
    have "osRemove t ?d1 = (fst (osRemove t ?d1), ?d1\<lparr>dopno := Suc (dopno ?d1)\<rparr>)"
      using 1 t by (auto simp: osRemove_def resolveP_def)
    then have "dfs (snd (osRemove t ?d1)) = dfs ?d1" by (metis snd_conv disk.select_convs(1) disk.surjective disk.update_convs(3))
    then show ?thesis using 1(2) True by simp
  next
    case False
    then show ?thesis using osRemove_calm(2) [OF 1(1), of t ?m] 1(2) by simp
  qed
  then show ?thesis using prune_shrinks t assms(2) by (simp add: fsDeletePlain_def Let_def prunePath_def)
qed

text \<open>
  C35: the names of objects are checked where they are written and not where they are read or deleted. Through a key that climbs with
  \<open>..\<close>, which a PUT refuses, a GET on any existing bucket of the single-disk backend returns the bytes of any file of the
  host that has no sidecar at the corresponding place, and a DELETE removes the file. Such keys reach the backend from the source of a
  copy and from the list of a multi-object delete, which no router has cleaned.
\<close>

theorem fs_reads_outside_volume:
  assumes "volume fe b d" "list_all plainName t" "t \<noteq> []" "at d t = Some (File (Raw secret))"
    and "resolveP (dfs d) (objMetaPath fe b (escapingKey fe t)) = Inl OsNotExist"
  shows "(\<exists>oi d'. fsGetObjectNInfo fe b (escapingKey fe t) None noOptions d = (Inr (oi, secret, None), d'))
    \<and> at (snd (fsDeleteObject fe dr b (escapingKey fe t) noOptions d)) t = None
    \<and> (\<exists>d'. fsPutObject fe dr b (escapingKey fe t) r sz noOptions d = (Inl FObjectNameInvalid, d'))"
proof -
  let ?k = "escapingKey fe t"
  have c: "calm d" "rootOK fe" "fsValidBucketName b" using assms(1) by (auto simp: volume_def)
  note p = escaping_path [OF c(2,3) assms(2,3)]
  have m: "calm d' \<Longrightarrow> dfs d' = dfs d \<Longrightarrow> readMetaFile (objMetaPath fe b ?k) d' = (Inl (FOs OsNotExist), d'\<lparr>dopno := Suc (dopno d')\<rparr>)" for d'
    using assms(5) by (simp add: readMetaFile_def osReadFile_def)
  have s: "calm d' \<Longrightarrow> dfs d' = dfs d \<Longrightarrow> osStat t d' = (Inr (File (Raw secret)), d'\<lparr>dopno := Suc (dopno d')\<rparr>)" for d'
    using osStat_some assms(4) by simp
  have r: "calm d' \<Longrightarrow> dfs d' = dfs d \<Longrightarrow> osOpen t d' = (Inr \<lparr>rdata = secret, rfails = False\<rparr>, d'\<lparr>dopno := Suc (dopno d')\<rparr>)" for d'
    using osOpen_some assms(4) by simp
  note e = ensure_volume [OF assms(1)]
  have "\<exists>oi d'. fsGetObjectNInfo fe b ?k None noOptions d = (Inr (oi, secret, None), d')"
    using c(1) by (simp add: fsGetObjectNInfo_def e findForRead_def wantsVersion_def noOptions_def getInfoUnlocked_def p(1) s m r
        servePlain_def rangeOf_def toObjectInfo_def emptyMeta_def)
  moreover have "at (snd (fsDeleteObject fe dr b ?k noOptions d)) t = None"
    using escaping_delete [of "d\<lparr>dopno := Suc (dopno d)\<rparr>" fe b ?k t] c(1) p(1) assms(4)
    by (simp add: fsDeleteObject_def e wantsVersion_def noOptions_def)
  moreover have "\<exists>d'. fsPutObject fe dr b ?k r sz noOptions d = (Inl FObjectNameInvalid, d')"
    using p(2) by (simp add: fsPutObject_def fsPutPlain_def e noOptions_def)
  ultimately show ?thesis by blast
qed

theorem fs_reads_outside_volume_witness:
  "\<exists>oi d'. fsGetObjectNInfo wit_fe ''bkt'' ''../../etc/pw'' None noOptions wit_vol = (Inr (oi, ''secret'', None), d')"
proof -
  have k: "escapingKey wit_fe [''etc'', ''pw''] = ''../../etc/pw''"
    by (simp add: escapingKey_def wit_fe_def pjoin_def unsegs_def)
  have m: "objMetaPath wit_fe ''bkt'' ''../../etc/pw'' = [''vol'', sysDir, ''etc'', ''pw.json'']"
    by (simp add: objMetaPath_def fjoin_def segs_def wit_fe_def sysDir_def)
  have "resolveP (dfs wit_vol) (objMetaPath wit_fe ''bkt'' (escapingKey wit_fe [''etc'', ''pw''])) = Inl OsNotExist"
    unfolding k m by (simp add: resolveP_def belowFile_def isFile_def wit_vol_def lookupF_def sysDir_def upt_rec)
  moreover have "list_all plainName [''etc'', ''pw'']" "at wit_vol [''etc'', ''pw''] = Some (File (Raw ''secret''))"
    by (simp_all add: plainName_def wit_vol_def lookupF_def)
  ultimately show ?thesis using fs_reads_outside_volume [OF wit_volume, of "[''etc'', ''pw'']" "''secret''"] k by fastforce
qed

end
