(* ===== verification/FsRoundTrip.thy ===== *)
theory FsRoundTrip
  imports FsProps Durability
begin

text \<open>
  The write path of the single-disk backend: what a PUT that finds room for its key leaves on the disk, and what a GET makes of it.
\<close>

subsection \<open>Creating directories and files\<close>

lemma clear_tick [simp]: "clear p (d\<lparr>dopno := n\<rparr>) = clear p d"
  by (simp add: clear_def)

lemma osMkdirAll_clear:
  assumes "calm d" "clear p d" "list_all fileName p"
  shows "\<exists>f. osMkdirAll p d = (True, d\<lparr>dopno := Suc (dopno d), dfs := f\<rparr>) \<and> tree_ok f
    \<and> (\<forall>q. lookupF f q = (if prefix q p then Some Dir else at d q))"
proof -
  obtain f where f: "mkdirAll p (dfs d) = Some f" using mkdirAll_clear [OF assms(2)] by blast
  then have "tree_ok f" using assms by (auto simp: calm_def intro: tree_mkdirAll)
  then show ?thesis using f lookupF_mkdirAll [OF f] assms(1) by (auto simp: osMkdirAll_def)
qed

lemma writeFileAtomic_clear:
  assumes "calm d" "clear (butlast p) d" "at d p \<noteq> Some Dir" "p \<noteq> []" "list_all fileName p"
  shows "\<exists>f. writeFileAtomic p c d = (True, d\<lparr>dopno := Suc (dopno d), dfs := f\<rparr>) \<and> tree_ok f
    \<and> (\<forall>q. lookupF f q = (if q = p then Some (File c) else if prefix q (butlast p) then Some Dir else at d q))"
proof -
  obtain g where g: "mkdirAll (butlast p) (dfs d) = Some g" using mkdirAll_clear [OF assms(2)] by blast
  have t: "tree_ok g" using g assms(1,5) by (auto simp: calm_def intro: tree)
  note l = lookupF_mkdirAll [OF g]
  have p: "\<not> prefix p (butlast p)" using butlast_strict [OF assms(4)] by (metis prefix_order.less_le_not_le)
  have "tree_ok (AList.update p (File c) g)" using t assms p l by (intro tree_update) auto
  moreover have "writeFileAtomic p c d = (True, d\<lparr>dopno := Suc (dopno d), dfs := AList.update p (File c) g\<rparr>)"
    using assms g l p by (simp add: writeFileAtomic_def)
  ultimately show ?thesis using lookupF_update [OF assms(4)] l by auto
qed

text \<open>The temporary file becomes the data file.\<close>

lemma commitFile_clear:
  assumes "calm d" "clear (butlast p) d" "at d p \<noteq> Some Dir" "p \<noteq> []" "list_all fileName p"
    and "at d t = Some (File c)" "t \<noteq> p" "\<not> prefix t (butlast p)"
  shows "\<exists>f n. commitFile t p d = (True, d\<lparr>dopno := n, dfs := f\<rparr>) \<and> tree_ok f
    \<and> (\<forall>q. lookupF f q = (if q = p then Some (File c) else if q = t then None else if prefix q (butlast p) then Some Dir else at d q))"
proof -
  obtain g where g: "osMkdirAll (butlast p) d = (True, d\<lparr>dopno := Suc (dopno d), dfs := g\<rparr>)" "tree_ok g"
      "\<forall>q. lookupF g q = (if prefix q (butlast p) then Some Dir else at d q)"
    using osMkdirAll_clear [OF assms(1,2)] assms(5) butlast_fileName by blast
  define d1 where "d1 = d\<lparr>dopno := Suc (dopno d), dfs := g\<rparr>"
  have p: "\<not> prefix p (butlast p)" using butlast_strict [OF assms(4)] by (metis prefix_order.less_le_not_le)
  have c1: "calm d1" using assms(1) g(2) by (simp add: d1_def calm_def)
  have "at d1 t = Some (File c)" "at d1 (butlast p) = Some Dir" "at d1 p \<noteq> Some Dir"
    using g(3) assms p by (auto simp: d1_def)
  then obtain f where f: "osRename t p d1 = (True, d1\<lparr>dopno := Suc (dopno d1), dfs := f\<rparr>)" "tree_ok f"
      "\<forall>q. lookupF f q = (if q = p then Some (File c) else if q = t then None else at d1 q)"
    using osRename_file [OF c1 _ _ _ assms(4,7,5)] by blast
  then show ?thesis using g by (auto simp: commitFile_def d1_def)
qed

subsection \<open>Keys\<close>

lemma splitOn_append: "b \<notin> set ys \<Longrightarrow> splitOn b (xs @ ys) = butlast (splitOn b xs) @ [last (splitOn b xs) @ ys]"
proof (induction xs)
  case (Cons x xs)
  obtain z zs where "splitOn b xs = z # zs" by (cases "splitOn b xs") auto
  then show ?case using Cons by (cases zs) auto
qed (simp add: splitOn_no_sep)

lemma sidecar_plain:
  assumes "fsValidObjectName k"
  shows "\<forall>x \<in> set (segs (k @ ''.json'')). plainSeg x" "segs (k @ ''.json'') \<noteq> []"
proof -
  have a: "\<forall>x \<in> set (splitOn (CHR ''/'') k). plainSeg x"
    using assms by (auto simp: fsValidObjectName_def list_ex_iff split: if_splits)
  have s: "splitOn (CHR ''/'') (k @ ''.json'') = butlast (splitOn (CHR ''/'') k) @ [last (splitOn (CHR ''/'') k) @ ''.json'']"
    by (rule splitOn_append) simp
  show "\<forall>x \<in> set (segs (k @ ''.json'')). plainSeg x" using a by (auto simp: segs_def s append_eq_Cons_conv dest: in_set_butlastD)
  show "segs (k @ ''.json'') \<noteq> []" by (simp add: segs_def s)
qed

lemma objMetaPath_plain:
  assumes "rootOK fe" "fsValidBucketName b" "fsValidObjectName k"
  shows "objMetaPath fe b k = feRoot fe @ sysDir # ''meta'' # b # segs (k @ ''.json'')" "list_all fileName (objMetaPath fe b k)"
proof -
  note r = assms(1)[unfolded rootOK_def list_all_iff] and b = bucket_plain [OF assms(2)]
  show p: "objMetaPath fe b k = feRoot fe @ sysDir # ''meta'' # b # segs (k @ ''.json'')"
    using r b sidecar_plain [OF assms(3)] unfolding objMetaPath_def by (subst fjoin_plain) (auto simp: plainName_def)
  have "list_all fileName (feRoot fe)" "fileName b" using r b plain_fileName by (auto simp: list_all_iff)
  then show "list_all fileName (objMetaPath fe b k)" using segs_fileName by (simp add: p fileName_def sysDir_def)
qed

text \<open>A key that does not end in a slash: its directories are the proper prefixes of its data path.\<close>

lemma filter_butlast: "xs \<noteq> [] \<Longrightarrow> P (last xs) \<Longrightarrow> filter P (butlast xs) = butlast (filter P xs)"
  by (induction xs rule: rev_induct) auto

lemma conflictIn_clear:
  assumes "calm d" "\<forall>x \<in> set cur. plainSeg x" "\<forall>x \<in> set ps. plainSeg x \<and> CHR ''/'' \<notin> set x" "clear (cur @ filter (\<lambda>x. x \<noteq> []) ps) d"
  shows "\<exists>n. conflictIn cur ps d = (False, d\<lparr>dopno := n\<rparr>)"
  using assms
proof (induction ps arbitrary: cur d)
  case Nil
  then show ?case by (auto intro: exI [of _ "dopno d"])
next
  case (Cons p ps)
  have s: "segs p = (if p = [] then [] else [p])" using Cons.prems(3) by (simp add: segs_def splitOn_no_sep)
  have j: "fjoin cur [p] = cur @ segs p" using Cons.prems(2,3) s by (subst fjoin_plain) auto
  have "prefix (cur @ segs p) (cur @ filter (\<lambda>x. x \<noteq> []) (p # ps))" by (simp add: s)
  then have "at d (cur @ segs p) \<noteq> Some (File c)" for c using Cons.prems(4) by (auto simp: clear_def)
  then have "fst (osStat (cur @ segs p) d) \<noteq> Inr (File c)" for c by (auto simp: osStat_def resolveP_def split_beta split: if_splits option.splits)
  moreover have "snd (osStat (cur @ segs p) d) = d\<lparr>dopno := Suc (dopno d)\<rparr>" by (simp add: osStat_def split_beta)
  moreover have "\<exists>n. conflictIn (cur @ segs p) ps (d\<lparr>dopno := Suc (dopno d)\<rparr>) = (False, d\<lparr>dopno := n\<rparr>)"
    using Cons.IH [of "d\<lparr>dopno := Suc (dopno d)\<rparr>" "cur @ segs p"] Cons.prems s by (auto simp: clear_def split: if_splits)
  ultimately show ?case by (auto simp: j Let_def split_beta split: sum.splits node.splits)
qed

lemma conflicts_clear:
  assumes "volume fe b d" "fsValidObjectName k" "last (splitOn (CHR ''/'') k) \<noteq> []"
    and "clear (butlast (objDataPath fe b k)) d" "at d (objDataPath fe b k) \<noteq> Some Dir"
  shows "\<exists>n. checkPathConflicts fe b k d = (False, d\<lparr>dopno := n\<rparr>)"
proof -
  have c: "calm d" "rootOK fe" "fsValidBucketName b" using assms(1) by (auto simp: volume_def)
  note p = paths [OF c(2,3)] and b = bucket_plain [OF c(3)]
  let ?parts = "splitOn (CHR ''/'') k"
  have "filter (\<lambda>x. x \<noteq> []) (butlast ?parts) = butlast (segs k)" unfolding segs_def by (rule filter_butlast) (use assms(3) in auto)
  moreover have "butlast (objDataPath fe b k) = (feRoot fe @ [b]) @ butlast (segs k)"
    using object_plain(2) [OF assms(2)] by (simp add: p(2) [OF assms(2)] butlast_append)
  ultimately have cl: "clear ((feRoot fe @ [b]) @ filter (\<lambda>x. x \<noteq> []) (butlast ?parts)) d" using assms(4) by simp
  have "\<forall>x \<in> set ?parts. plainSeg x" using assms(2) by (auto simp: fsValidObjectName_def list_ex_iff split: if_splits)
  then have ps: "\<forall>x \<in> set (butlast ?parts). plainSeg x \<and> CHR ''/'' \<notin> set x"
    using splitOn_parts_no_sep by (auto dest: in_set_butlastD)
  have rt: "\<forall>x \<in> set (feRoot fe @ [b]). plainSeg x" using c(2) b(1) by (auto simp: rootOK_def list_all_iff plainName_def)
  obtain n where n: "conflictIn (feRoot fe @ [b]) (butlast ?parts) (d\<lparr>dopno := Suc (dopno d)\<rparr>) = (False, d\<lparr>dopno := n\<rparr>)"
    using conflictIn_clear [of "d\<lparr>dopno := Suc (dopno d)\<rparr>", OF _ rt ps] cl c(1) by auto
  have "fst (osStat (objDataPath fe b k) d) \<noteq> Inr Dir" "snd (osStat (objDataPath fe b k) d) = d\<lparr>dopno := Suc (dopno d)\<rparr>"
    using assms(5) by (auto simp: osStat_def resolveP_def split_beta split: if_splits option.splits)
  then show ?thesis using n p(1) by (auto simp: checkPathConflicts_def split_beta)
qed

subsection \<open>PUT and GET\<close>

definition room :: "fenv \<Rightarrow> string \<Rightarrow> string \<Rightarrow> disk \<Rightarrow> bool" where
  "room fe b k d \<longleftrightarrow> clear (butlast (objDataPath fe b k)) d \<and> at d (objDataPath fe b k) \<noteq> Some Dir
     \<and> clear (butlast (objMetaPath fe b k)) d \<and> at d (objMetaPath fe b k) \<noteq> Some Dir"

lemma room_tick [simp]: "room fe b k (d\<lparr>dopno := n\<rparr>) = room fe b k d"
  by (simp add: room_def)

lemma data_meta_apart:
  assumes "rootOK fe" "fsValidBucketName b" "fsValidObjectName k"
  shows "\<not> prefix (objDataPath fe b k) (objMetaPath fe b k)" "\<not> prefix (objMetaPath fe b k) (objDataPath fe b k)"
    "plainName t \<Longrightarrow> \<not> prefix (tmpPath fe t) (objDataPath fe b k)" "plainName t \<Longrightarrow> \<not> prefix (tmpPath fe t) (objMetaPath fe b k)"
    "plainName t \<Longrightarrow> \<not> prefix (objDataPath fe b k) (tmpPath fe t)" "plainName t \<Longrightarrow> \<not> prefix (objMetaPath fe b k) (tmpPath fe t)"
  using bucket_plain(3) [OF assms(2)] paths(2,6) [OF assms(1,2)] assms(3) objMetaPath_plain(1) [OF assms] by auto

text \<open>From the temporary file to the data file and its sidecar; no other file changes.\<close>

lemma commitPut_plain:
  assumes v: "volume fe b d" "fsValidObjectName k" "room fe b k d" and t: "plainName t" "at d (tmpPath fe t) = Some (File c)"
  shows "\<exists>f n. commitPut fe dr b k opts (tmpPath fe t, sz, md, None) d
        = (Inr (toObjectInfo (newMeta sz (putTime dr opts) md opts) b k), d\<lparr>dopno := n, dfs := f\<rparr>) \<and> tree_ok f
    \<and> lookupF f (objDataPath fe b k) = Some (File c)
    \<and> lookupF f (objMetaPath fe b k) = Some (File (ObjDoc (newMeta sz (putTime dr opts) md opts)))
    \<and> lookupF f (tmpPath fe t) = None
    \<and> (\<forall>q nd. at d q = Some nd \<longrightarrow> q \<notin> {objDataPath fe b k, objMetaPath fe b k, tmpPath fe t} \<longrightarrow> lookupF f q = Some nd)"
proof -
  let ?p = "objDataPath fe b k" and ?m = "objMetaPath fe b k" and ?t = "tmpPath fe t"
  have c: "calm d" "rootOK fe" "fsValidBucketName b" using v(1) by (auto simp: volume_def)
  note r = v(3) [unfolded room_def] and ap = data_meta_apart [OF c(2,3) v(2)] and fn = path_fileNames(2) [OF c(2,3) v(2)] objMetaPath_plain(2) [OF c(2,3) v(2)]
  have ne: "?p \<noteq> []" "?m \<noteq> []" "?t \<noteq> ?p" "?t \<noteq> ?m" "?p \<noteq> ?m" using ap(1,2) ap(3,4) [OF t(1)] by auto
  have bp: "prefix q (butlast xs) \<Longrightarrow> prefix q xs" for q xs :: path using prefixeq_butlast prefix_order.trans by blast
  have dirs: "prefix q (butlast ?p) \<Longrightarrow> at d q = Some nd \<Longrightarrow> nd = Dir" "prefix q (butlast ?m) \<Longrightarrow> at d q = Some nd \<Longrightarrow> nd = Dir" for q nd
    using r by (cases nd; auto simp: clear_def)+
  obtain f n where f: "commitFile ?t ?p d = (True, d\<lparr>dopno := n, dfs := f\<rparr>)" "tree_ok f"
      "\<forall>q. lookupF f q = (if q = ?p then Some (File c) else if q = ?t then None else if prefix q (butlast ?p) then Some Dir else at d q)"
    using commitFile_clear [OF c(1) _ _ ne(1) fn(1) t(2) ne(3)] r ap(3) [OF t(1)] bp by blast
  define d1 where "d1 = d\<lparr>dopno := n, dfs := f\<rparr>"
  have c1: "calm d1" using c(1) f(2) by (simp add: d1_def calm_def)
  have "clear (butlast ?m) d1" "at d1 ?m \<noteq> Some Dir"
    using r f(3) ap(1,2) bp ne(4) by (auto simp: clear_def d1_def split: if_splits)
  then obtain g where g: "writeFileAtomic ?m (ObjDoc (newMeta sz (putTime dr opts) md opts)) d1 = (True, d1\<lparr>dopno := Suc (dopno d1), dfs := g\<rparr>)" "tree_ok g"
      "\<forall>q. lookupF g q = (if q = ?m then Some (File (ObjDoc (newMeta sz (putTime dr opts) md opts))) else if prefix q (butlast ?m) then Some Dir else at d1 q)"
    using writeFileAtomic_clear [OF c1 _ _ ne(2) fn(2)] by blast
  have "lookupF g ?p = Some (File c)" "lookupF g ?t = None"
    using g(3) f(3) ne ap(1) ap(4) [OF t(1)] bp by (auto simp: d1_def)
  moreover have "lookupF g q = Some nd" if "at d q = Some nd" "q \<notin> {?p, ?m, ?t}" for q nd
    using that g(3) f(3) dirs [of q nd] by (auto simp: d1_def)
  moreover have "commitPut fe dr b k opts (?t, sz, md, None) d = (Inr (toObjectInfo (newMeta sz (putTime dr opts) md opts) b k), d\<lparr>dopno := Suc (dopno d1), dfs := g\<rparr>)"
    using f(1) g(1) by (simp add: commitPut_def writeMetaFile_def Let_def d1_def)
  ultimately show ?thesis using g(2,3) by auto
qed

text \<open>A stored plain object: its data file, and a sidecar that says what is in it.\<close>

definition stored :: "fenv \<Rightarrow> string \<Rightarrow> string \<Rightarrow> bytes \<Rightarrow> objMeta \<Rightarrow> disk \<Rightarrow> bool" where
  "stored fe b k body m d \<longleftrightarrow> volume fe b d \<and> at d (objDataPath fe b k) = Some (File (Raw body)) \<and> at d (objMetaPath fe b k) = Some (File (ObjDoc m))
     \<and> omSSE m = [] \<and> omSize m = int (length body)"

lemma stored_tick [simp]: "stored fe b k body m (d\<lparr>dopno := n\<rparr>) = stored fe b k body m d"
  by (simp add: stored_def)

lemma stored_size: "stored fe b k body m d \<Longrightarrow> iSize (toObjectInfo m b k) = int (length body)"
  by (simp add: stored_def toObjectInfo_def)

lemma getInfo_stored:
  assumes "stored fe b k body m d" "\<not> wantsVersion opts"
  shows "\<exists>n. fsGetObjectInfo fe b k opts d = (Inr (toObjectInfo m b k), d\<lparr>dopno := n\<rparr>)"
  using assms
  by (simp add: fsGetObjectInfo_def ensure_volume stored_def getInfoUnlocked_def osStat_some volume_def readMetaFile_def osReadFile_some)
    (metis disk.update_convs(3))

lemma getPlain_stored:
  assumes "stored fe b k body m d" "\<not> wantsVersion opts" "oCheckPrecondFn opts = None" "rangeOf rs (int (length body)) = Some (start, len)"
  shows "\<exists>n. fsGetObjectNInfo fe b k rs opts d
    = (Inr (if rs = None then toObjectInfo m b k else (toObjectInfo m b k)\<lparr>iSize := len\<rparr>, take (nat len) (drop (nat start) body), None), d\<lparr>dopno := n\<rparr>)"
proof -
  have v: "volume fe b d" "calm d" "omSSE m = []" "at d (objDataPath fe b k) = Some (File (Raw body))" "at d (objMetaPath fe b k) = Some (File (ObjDoc m))"
    using assms(1) by (auto simp: stored_def volume_def)
  show ?thesis
    using v(2-5) assms(2-4) stored_size [OF assms(1)]
    by (simp add: fsGetObjectNInfo_def ensure_volume [OF v(1)] findForRead_def getInfoUnlocked_def
        osStat_some readMetaFile_def osReadFile_some osOpen_some servePlain_def exI [of _ "Suc _"])
qed

text \<open>A PUT of a key with room for it succeeds and stores the object; no other file changes.\<close>

lemma fs_put_stored:
  assumes "volume fe b d" "fsValidObjectName k" "last (splitOn (CHR ''/'') k) \<noteq> []" "room fe b k d"
    and "\<not> oVersioned opts" "\<not> oVersionSuspended opts" "oCheckPrecondFn opts = None" "\<not> sseRequested fe opts"
    and "plainName (dId1 dr)" "at d (tmpPath fe (dId1 dr)) = None" "\<not> rfails r" "sz = int (length (rdata r))"
  shows "\<exists>m d'. fsPutObject fe dr b k r sz opts d = (Inr (toObjectInfo m b k), d') \<and> stored fe b k (rdata r) m d'
    \<and> m = newMeta sz (putTime dr opts) (hexEncode (feMd5 fe (rdata r))) opts
    \<and> (\<forall>q c. at d q = Some c \<longrightarrow> q \<notin> {objDataPath fe b k, objMetaPath fe b k} \<longrightarrow> at d' q = Some c)"
proof -
  let ?p = "objDataPath fe b k" and ?m = "objMetaPath fe b k" and ?t = "tmpPath fe (dId1 dr)" and ?md = "hexEncode (feMd5 fe (rdata r))"
  have c: "calm d" "rootOK fe" "fsValidBucketName b" using assms(1) by (auto simp: volume_def)
  note ap = data_meta_apart [OF c(2,3) assms(2)] and t = assms(9)
  define d1 where "d1 = d\<lparr>dopno := Suc (dopno d)\<rparr>"
  have s1: "ensureBucketFs fe b d = (None, d1)" "fsPrecond fe b k opts d1 = (False, d1)"
    using ensure_volume [OF assms(1)] assms(7) by (simp_all add: d1_def fsPrecond_def)
  obtain n where s2: "checkPathConflicts fe b k d1 = (False, d\<lparr>dopno := n\<rparr>)"
    using conflicts_clear [of fe b d1 k] assms(1-4) by (auto simp: d1_def room_def)
  obtain f n' where s3: "copyToTmpAndHash fe (dId1 dr) r sz (d\<lparr>dopno := n\<rparr>) = (Inr (?t, sz, ?md), d\<lparr>dopno := n', dfs := f\<rparr>)" "tree_ok f"
      "\<forall>q. lookupF f q = (if q = ?t then Some (File (Raw (rdata r))) else at d q)"
    using copyToTmp_volume [of fe b "d\<lparr>dopno := n\<rparr>", OF _ t _ assms(11,12)] assms(1,10) by auto
  define d2 where "d2 = d\<lparr>dopno := n', dfs := f\<rparr>"
  have at2: "at d2 q = (if q = ?t then Some (File (Raw (rdata r))) else at d q)" for q using s3(3) by (simp add: d2_def)
  have v2: "volume fe b d2"
    using assms(1,10) c s3(2) at2 by (auto simp: volume_def calm_def d2_def)
  have "\<not> prefix ?t (butlast ?p)" "\<not> prefix ?t (butlast ?m)"
    using ap(3,4) [OF t] prefixeq_butlast prefix_order.trans by blast+
  then have "room fe b k d2" using assms(4) ap(3,4) [OF t] at2 by (auto simp: room_def clear_def)
  then obtain g n2 where s4: "commitPut fe dr b k opts (?t, sz, ?md, None) d2
        = (Inr (toObjectInfo (newMeta sz (putTime dr opts) ?md opts) b k), d2\<lparr>dopno := n2, dfs := g\<rparr>)" "tree_ok g"
      "lookupF g ?p = Some (File (Raw (rdata r)))" "lookupF g ?m = Some (File (ObjDoc (newMeta sz (putTime dr opts) ?md opts)))" "lookupF g ?t = None"
      "\<forall>q nd. at d2 q = Some nd \<longrightarrow> q \<notin> {?p, ?m, ?t} \<longrightarrow> lookupF g q = Some nd"
    using commitPut_plain [OF v2 assms(2) _ t, of "Raw (rdata r)" dr opts sz ?md] at2 by auto
  define d3 where "d3 = d2\<lparr>dopno := n2, dfs := g\<rparr>"
  define d4 where "d4 = snd (osRemove ?t d3)"
  have c3: "calm d3" using c(1) s4(2) by (simp add: d3_def d2_def calm_def)
  have put: "fsPutObject fe dr b k r sz opts d = (Inr (toObjectInfo (newMeta sz (putTime dr opts) ?md opts) b k), d4)"
    using assms(2,5,6,8) s1 s2 s3(1) s4(1) by (simp add: fsPutObject_def fsPutPlain_def withoutTmp_def d4_def d3_def d2_def)
  have at4: "at d4 q = at d3 q" if "q \<noteq> ?t" for q using osRemove_calm(2) [OF c3 that] by (simp add: d4_def)
  have ne: "?p \<noteq> ?t" "?m \<noteq> ?t" using ap(3,4) [OF t] by auto
  have keep: "at d4 q = Some nd" if "at d q = Some nd" "q \<notin> {?p, ?m}" for q nd
  proof -
    have "q \<noteq> ?t" using that(1) assms(10) by auto
    then show ?thesis using that s4(6) at2 at4 by (simp add: d3_def)
  qed
  have ap': "feRoot fe @ [b] \<notin> {?p, ?m}" "feRoot fe @ [sysDir, ''tmp''] \<notin> {?p, ?m}"
    using object_plain(2) [OF assms(2)] bucket_plain(3) [OF c(3)] paths(2) [OF c(2,3) assms(2)] objMetaPath_plain(1) [OF c(2,3) assms(2)] by auto
  have "volume fe b d4"
    using assms(1) c keep ap' osRemove_calm(1) [OF c3] by (auto simp: volume_def d4_def)
  then have "stored fe b k (rdata r) (newMeta sz (putTime dr opts) ?md opts) d4"
    using s4(3,4) at4 ne assms(12) by (auto simp: stored_def d3_def newMeta_def emptyMeta_def)
  then show ?thesis using put keep by blast
qed

text \<open>
  On a working volume a PUT of a key with room for it (no file where a directory of the key or of its sidecar has to
  be, no directory in the place of either) succeeds, and a GET right after it returns the description the PUT
  answered with and exactly the bytes of the body, in full or in the range asked for; every other file of the volume, and of the host, is
  what it was.
\<close>

theorem fs_put_get:
  assumes "volume fe b d" "fsValidObjectName k" "last (splitOn (CHR ''/'') k) \<noteq> []" "room fe b k d"
    and "\<not> oVersioned opts" "\<not> oVersionSuspended opts" "oCheckPrecondFn opts = None" "\<not> sseRequested fe opts"
    and "plainName (dId1 dr)" "at d (tmpPath fe (dId1 dr)) = None" "\<not> rfails r" "sz = int (length (rdata r))"
    and "rangeOf rs sz = Some (start, len)"
  shows "\<exists>oi d' d''. fsPutObject fe dr b k r sz opts d = (Inr oi, d')
    \<and> fsGetObjectNInfo fe b k rs noOptions d'
        = (Inr (if rs = None then oi else oi\<lparr>iSize := len\<rparr>, take (nat len) (drop (nat start) (rdata r)), None), d'')
    \<and> (\<forall>q c. at d q = Some (File c) \<longrightarrow> q \<notin> {objDataPath fe b k, objMetaPath fe b k} \<longrightarrow> at d' q = Some (File c))"
proof -
  obtain m d' where p: "fsPutObject fe dr b k r sz opts d = (Inr (toObjectInfo m b k), d')" "stored fe b k (rdata r) m d'"
      "\<forall>q c. at d q = Some c \<longrightarrow> q \<notin> {objDataPath fe b k, objMetaPath fe b k} \<longrightarrow> at d' q = Some c"
    using fs_put_stored [OF assms(1-12)] by blast
  moreover have "\<not> wantsVersion noOptions" "oCheckPrecondFn noOptions = None" by (simp_all add: wantsVersion_def noOptions_def)
  ultimately show ?thesis using getPlain_stored [OF p(2), of noOptions rs start len] assms(12,13) by blast
qed

theorem fs_put_get_witness:
  "\<exists>oi d' d''. fsPutObject wit_fe wit_fdraws ''bkt'' ''a/b'' \<lparr>rdata = ''hello'', rfails = False\<rparr> 5 noOptions wit_vol = (Inr oi, d')
    \<and> fsGetObjectNInfo wit_fe ''bkt'' ''a/b'' (Some \<lparr>rsIsSuffixLength = False, rsStart = 1, rsEnd = 3\<rparr>) noOptions d' = (Inr (oi\<lparr>iSize := 3\<rparr>, ''ell'', None), d'')"
proof -
  have k: "fsValidObjectName ''a/b''" "last (splitOn (CHR ''/'') ''a/b'') \<noteq> []" by code_simp+
  have p: "objDataPath wit_fe ''bkt'' ''a/b'' = [''vol'', ''bkt'', ''a'', ''b'']" "objMetaPath wit_fe ''bkt'' ''a/b'' = [''vol'', sysDir, ''meta'', ''bkt'', ''a'', ''b.json'']"
    by (simp_all add: objDataPath_def objMetaPath_def fjoin_def segs_def wit_fe_def sysDir_def)
  have "clear [''vol'', ''bkt'', ''a''] wit_vol" "clear [''vol'', sysDir, ''meta'', ''bkt'', ''a''] wit_vol"
    by (auto simp: clear_def prefix_Cons wit_vol_def lookupF_def sysDir_def)
  then have r: "room wit_fe ''bkt'' ''a/b'' wit_vol" by (simp add: room_def p wit_vol_def lookupF_def sysDir_def)
  have o: "\<not> oVersioned noOptions" "\<not> oVersionSuspended noOptions" "oCheckPrecondFn noOptions = None" "\<not> sseRequested wit_fe noOptions"
    by (simp_all add: noOptions_def sseRequested_def wit_fe_def)
  have t: "plainName (dId1 wit_fdraws)" "at wit_vol (tmpPath wit_fe (dId1 wit_fdraws)) = None"
    by (simp_all add: plainName_def wit_fdraws_def tmpPath_def fjoin_def segs_def wit_fe_def wit_vol_def lookupF_def sysDir_def)
  have g: "rangeOf (Some \<lparr>rsIsSuffixLength = False, rsStart = 1, rsEnd = 3\<rparr>) 5 = Some (1, 3)" by (simp add: rangeOf_def resolveRange_def Let_def)
  from fs_put_get [OF wit_volume k r o t, of "\<lparr>rdata = ''hello'', rfails = False\<rparr>" 5, OF _ _ g] show ?thesis by auto
qed

end
