(* ===== verification/HandlerProps.thy ===== *)
theory HandlerProps
  imports Handlers FsRoundTrip ListingScan
begin

text \<open>
  What the object handlers promise a client, on top of both backends and the cache, and where they do not keep it.
\<close>

subsection \<open>Decimal numbers\<close>

lemma parseDigits_append: "parseDigits acc (s @ t) = (case parseDigits acc s of Some n \<Rightarrow> parseDigits n t | None \<Rightarrow> None)"
  by (induction acc s rule: parseDigits.induct) (auto split: option.splits)

lemma digitVal_nth: "d < 10 \<Longrightarrow> digitVal (''0123456789'' ! d) = Some d"
proof -
  have "\<forall>d \<in> set [0..<10]. digitVal (''0123456789'' ! d) = Some d" by code_simp
  then show "d < 10 \<Longrightarrow> digitVal (''0123456789'' ! d) = Some d" by auto
qed

lemma parseDigits_itoaNat: "parseDigits 0 (itoaNat n) = Some n"
proof (induction n rule: itoaNat.induct)
  case (1 n)
  show ?case
  proof (cases "n < 10")
    case False
    then have "itoaNat n = itoaNat (n div 10) @ [''0123456789'' ! (n mod 10)]" by (subst itoaNat.simps) simp
    then show ?thesis using 1 False digitVal_nth [of "n mod 10"] by (simp add: parseDigits_append)
  qed (simp add: itoaNat.simps digitVal_nth)
qed

lemma itoaNat_Cons: "\<exists>c s. itoaNat n = c # s \<and> c \<in> set ''0123456789''"
proof -
  have "itoaNat n \<noteq> []" by (subst itoaNat.simps) auto
  then obtain c s where e: "itoaNat n = c # s" by (cases "itoaNat n") auto
  then show ?thesis using itoaNat_digits [of c n] by auto
qed

lemma Atoi_Itoa: "0 \<le> n \<Longrightarrow> n < 2 ^ 63 \<Longrightarrow> Atoi (Itoa n) = Some n"
proof -
  assume n: "0 \<le> n" "n < 2 ^ 63"
  obtain c s where c: "itoaNat (nat n) = c # s" "c \<in> set ''0123456789''" using itoaNat_Cons by blast
  then have "c \<noteq> CHR ''+''" "c \<noteq> CHR ''-''" by auto
  moreover have "parseDigits 0 (c # s) = Some (nat n)" using parseDigits_itoaNat [of "nat n"] c by simp
  ultimately show ?thesis using n c by (simp add: Atoi_def Itoa_def nat_less_iff)
qed

lemma itoa_plain: "0 \<le> n \<Longrightarrow> CHR ''-'' \<notin> set (Itoa n) \<and> CHR '','' \<notin> set (Itoa n) \<and> Itoa n \<noteq> []"
  using itoaNat_digits [of _ "nat n"] itoaNat_Cons [of "nat n"] by (auto simp: Itoa_def)

lemma indexByte_sep: "c \<notin> set s \<Longrightarrow> indexByte (s @ c # t) c = Some (length s)"
  by (induction s) auto

lemma contains_char: "contains s [c] \<longleftrightarrow> c \<in> set s"
proof (induction s)
  case (Cons x s)
  then show ?case by (auto simp: contains_def hasPrefix_def split: option.splits)
qed (simp add: contains_def hasPrefix_def)

subsection \<open>Ranges\<close>

text \<open>A range that was parsed: the header describes the slice the backends serve, and it lies inside the object.\<close>

lemma range_header_agrees:
  assumes "parseRange v = Some rs" "0 \<le> n" "resolveRange rs n = Inr (start, len)"
  shows "resolveRangeForHeader rs n = (start, len)" "0 \<le> start" "0 \<le> len" "start + len \<le> n"
proof -
  have s: "rsIsSuffixLength rs \<or> 0 \<le> rsStart rs" using assms(1) by (auto simp: parseRange_def Let_def split: if_splits option.splits)
  show "resolveRangeForHeader rs n = (start, len)" "0 \<le> start" "0 \<le> len" "start + len \<le> n"
    using assms(2,3) s by (auto simp: resolveRange_def resolveRangeForHeader_def Let_def split: if_splits)
qed

lemma parseRange_closed:
  assumes "0 \<le> a" "a \<le> e" "e < 2 ^ 63"
  shows "parseRange (''bytes='' @ Itoa a @ ''-'' @ Itoa e) = Some \<lparr>rsIsSuffixLength = False, rsStart = a, rsEnd = e\<rparr>"
proof -
  let ?spec = "Itoa a @ ''-'' @ Itoa e"
  have i: "indexByte ?spec (CHR ''-'') = Some (length (Itoa a))" using indexByte_sep itoa_plain [OF assms(1)] by simp
  have c: "\<not> contains ?spec '',''" using itoa_plain assms by (simp add: contains_char)
  have t: "hasPrefix (''bytes='' @ ?spec) ''bytes=''" "trimPrefix (''bytes='' @ ?spec) ''bytes='' = ?spec" by (rule hasPrefix_append, rule trimPrefix_append)
  show ?thesis
    unfolding parseRange_def t using assms i c Atoi_Itoa [of a] Atoi_Itoa [of e] itoa_plain [of a] itoa_plain [of e] by (simp add: Let_def hasPrefix_def)
qed

subsection \<open>The cache behind GET\<close>

text \<open>A request that asks for the whole object without conditions.\<close>

definition bare :: "hreq \<Rightarrow> bool" where
  "bare r \<longleftrightarrow> list_all (\<lambda>h. hdr r h = []) [''Range'', ''If-None-Match'', ''If-Modified-Since'', ''If-Match'', ''If-Unmodified-Since'',
     ''x-amz-bypass-governance-retention'']"

lemma bare_vopts: "bare r \<Longrightarrow> snd (vopts he now b r sv) = sv"
  by (simp add: bare_def vopts_def Let_def)

lemma vopts_id: "oVersionID (fst (vopts he now b r sv)) = queryGet (hrReq r) ''versionId''" "oCheckPrecondFn (fst (vopts he now b r sv)) = None"
  by (auto simp: vopts_def Let_def lockOptions_def split_beta noOptions_def split: option.split)

lemma bare_proceeds: "bare r \<Longrightarrow> evalGetConditionals he r oi = Proceed"
  by (simp add: bare_def evalGetConditionals_def)

lemma shrink_frame: "ocMax (shrink c) = ocMax c \<and> ocObj (shrink c) = ocObj c \<and> ocTtl (shrink c) = ocTtl c"
proof (induction c rule: shrink.induct)
  case (1 c)
  then show ?case by (cases "ocCur c > ocMax c \<and> ocList c \<noteq> []") (subst (1 2 3) shrink.simps, simp)+
qed

lemma shrink_keeps_head:
  assumes "ocList c = e # es" "ocCur c = sum_list (map ceLen (ocList c))" "ceLen e \<le> ocMax c"
  shows "\<exists>es'. ocList (shrink c) = e # es' \<and> set es' \<subseteq> set es"
  using assms
proof (induction c arbitrary: es rule: shrink.induct)
  case (1 c)
  show ?case
  proof (cases "ocCur c > ocMax c")
    case True
    then have es: "es \<noteq> []" using 1(2-4) by auto
    let ?d = "c\<lparr>ocCur := ocCur c - ceLen (last (ocList c)), ocList := butlast (ocList c)\<rparr>"
    have l: "es = butlast es @ [last es]" using es by simp
    have "sum_list (map ceLen es) = sum_list (map ceLen (butlast es)) + ceLen (last es)" by (subst l) simp
    then have "\<exists>es'. ocList (shrink ?d) = e # es' \<and> set es' \<subseteq> set (butlast es)"
      using 1(2-4) es True by (intro 1(1)) auto
    moreover have "shrink c = shrink ?d" using True 1(2) by (subst shrink.simps) simp
    moreover have "set (butlast es) \<subseteq> set es" by (auto dest: in_set_butlastD)
    ultimately show ?thesis by auto
  next
    case False
    then have "shrink c = c" by (subst shrink.simps) simp
    then show ?thesis using 1(2) by auto
  qed
qed

text \<open>An object that fits is found again until its time is over.\<close>

lemma ocGet_ocPut:
  assumes "oc_ok c" "eligibleSize (int (length body)) c" "int (length body) \<le> ocMax c" "now' - now \<le> ocTtl c"
  shows "fst (ocGet now' k (ocPut now k body oi c)) = Some \<lparr>ceKey = k, ceData = body, ceInfo = oi, ceStored = now\<rparr>"
proof -
  let ?e = "\<lparr>ceKey = k, ceData = body, ceInfo = oi, ceStored = now\<rparr>"
  let ?c = "c\<lparr>ocCur := (case ceFind k c of Some old \<Rightarrow> ocCur c - ceLen old + ceLen ?e | None \<Rightarrow> ocCur c + ceLen ?e), ocList := ?e # without k (ocList c)\<rparr>"
  have p: "ocPut now k body oi c = shrink ?c" using assms(2) by (simp add: ocPut_def eligibleSize_def Let_def)
  have "ocCur ?c = sum_list (map ceLen (ocList ?c))"
    using without_sum [of "ocList c" k] assms(1) by (simp add: oc_ok_def ceFind_def split: option.split)
  then obtain es where es: "ocList (shrink ?c) = ?e # es"
    using shrink_keeps_head [of ?c ?e "without k (ocList c)"] assms(3) by (auto simp: ceLen_def)
  have "ocEnabled (shrink ?c)" "ocTtl (shrink ?c) = ocTtl c"
    using shrink_frame [of ?c] assms(2) by (simp_all add: ocEnabled_def eligibleSize_def)
  then show ?thesis using es assms(4) unfolding p by (simp add: ocGet_def ceFind_def)
qed

text \<open>
  C36: a GET that names a version fills the cache under the key of the current object. Whatever the current version is, the next GET of
  the object without a version is answered from the cache with the bytes and the description of the version the first request
  named, and the object layer is not asked.
\<close>

theorem versioned_get_poisons_cache:
  assumes "oc_ok (hsCache sv)" "eligibleSize (int (length old)) (hsCache sv)" "int (length old) \<le> ocMax (hsCache sv)"
    and "bare r" "queryGet (hrReq r) ''versionId'' = v" "v \<noteq> []"
    and "olInfo L dr b k (fst (vopts he (dNow dr) b r sv)) (hsObj sv) = (Inr oi, s1)"
    and "olGet L dr b k None (fst (vopts he (dNow dr) b r sv)) s1 = (Inr (oi', old, None), s2)"
    and "iSize oi = int (length old)" "\<not> HasExpired (iUserDefined oi) (dNow dr)"
    and "bare r'" "queryGet (hrReq r') ''versionId'' = []" "dNow dr' - dNow dr \<le> ocTtl (hsCache sv)" "\<not> HasExpired (iUserDefined oi) (dNow dr')"
  shows "case handleGetObject L he dr r b k sv of (w, sv1) \<Rightarrow>
    case handleGetObject L he dr' r' b k sv1 of (w', sv2) \<Rightarrow>
      rsStatus w' = 200 \<and> rsBody w' = Bytes old None \<and> hsObj sv2 = hsObj sv1"
proof -
  define gopts where "gopts = fst (vopts he (dNow dr) b r sv)"
  have vo: "vopts he (dNow dr) b r sv = (gopts, sv)" using bare_vopts [OF assms(4)] unfolding gopts_def by (metis prod.collapse)
  define sv1 where "sv1 = sv\<lparr>hsObj := s2, hsCache := ocPut (dNow dr) (cacheKey b k []) old oi (hsCache sv)\<rparr>"
  have id: "oVersionID gopts = v" unfolding gopts_def using vopts_id assms(5) by metis
  have h: "hdr r ''Range'' = []" using assms(4) by (simp add: bare_def)
  have "snd (handleGetObject L he dr r b k sv) = sv1"
    using assms(2,6-10) vo id h bare_proceeds [OF assms(4)] unfolding gopts_def [symmetric] sv1_def
    by (simp add: handleGetObject_def getOrHeadObject_def fromCache_def onObj_def serveFound_def serveBody_def Let_def)
  moreover have "\<exists>w' sv2. handleGetObject L he dr' r' b k sv1 = (w', sv2) \<and> rsStatus w' = 200 \<and> rsBody w' = Bytes old None \<and> hsObj sv2 = hsObj sv1"
  proof -
    obtain o2 where v2: "vopts he (dNow dr') b r' sv1 = (o2, sv1)" using bare_vopts [OF assms(11)] by (metis prod.collapse)
    have i2: "oVersionID o2 = []" using vopts_id(1) [of he "dNow dr'" b r' sv1] v2 assms(12) by simp
    have h2: "hdr r' ''Range'' = []" using assms(11) by (simp add: bare_def)
    let ?e = "\<lparr>ceKey = cacheKey b k [], ceData = old, ceInfo = oi, ceStored = dNow dr\<rparr>"
    have g: "fst (ocGet (dNow dr') (cacheKey b k []) (hsCache sv1)) = Some ?e"
      using ocGet_ocPut [OF assms(1-3,13)] by (simp add: sv1_def)
    then have "ocEnabled (hsCache sv1)" by (auto simp: ocGet_def split: if_splits)
    then have "fromCache (dNow dr') r' b k o2 sv1 = (Some ?e, sv1\<lparr>hsCache := snd (ocGet (dNow dr') (cacheKey b k []) (hsCache sv1))\<rparr>)"
      using i2 h2 g assms(14) by (simp add: fromCache_def split_beta)
    then show ?thesis using v2 bare_proceeds [OF assms(11)] by (simp add: handleGetObject_def getOrHeadObject_def serveCached_def Let_def)
  qed
  ultimately show ?thesis by (auto simp: split_beta)
qed

text \<open>A key with two versions in a bucket with versioning.\<close>

definition wit_two :: disk where
  "wit_two = \<lparr>dfs = [([''vol''], Dir), ([''vol'', ''bkt''], Dir), ([''vol'', sysDir], Dir), ([''vol'', sysDir, ''tmp''], Dir),
      ([''vol'', sysDir, ''objver''], Dir), ([''vol'', sysDir, ''objver'', ''bkt''], Dir), ([''vol'', sysDir, ''objver'', ''bkt'', ''k''], Dir),
      ([''vol'', sysDir, ''objver'', ''bkt'', ''k'', ''index.json''], File (VerDoc [wit_lockedEntry, wit_lockedEntry\<lparr>veID := ''v2'', veSize := 5\<rparr>])),
      ([''vol'', sysDir, ''objver'', ''bkt'', ''k'', ''null''], File (Raw ''old'')), ([''vol'', sysDir, ''objver'', ''bkt'', ''k'', ''v2''], File (Raw ''newer''))],
     dfaults = (\<lambda>_. Works), dopno = 0\<rparr>"

lemma wit_two_volume: "volume wit_fe ''bkt'' wit_two"
proof -
  have "tree_ok (dfs wit_two)" by (simp add: tree_ok_def wit_two_def lookupF_def fileName_def sysDir_def)
  moreover have "fsValidBucketName ''bkt''" by code_simp
  ultimately show ?thesis by (simp add: volume_def calm_def wit_two_def wit_fe_def rootOK_def plainName_def lookupF_def sysDir_def)
qed

definition wit_henv :: henv where
  "wit_henv = \<lparr>heMime = (\<lambda>_. []), heNoSniff = False, heHTTPTime = (\<lambda>_. []), heParseTime = (\<lambda>_. None), heParseRFC1123 = (\<lambda>_. None),
     heFormatRFC3339 = (\<lambda>_. []), heParseDuration = (\<lambda>_. None), heHash = (\<lambda>_ b. b), heNet = wit_nl, heParse = (\<lambda>_. None), heAppendMax = 67108864\<rparr>"

definition wit_cfg :: "string \<Rightarrow> unit cfgStore" where
  "wit_cfg st = \<lparr>cbe = (), call = [(''bkt'', emptyConfig\<lparr>cfgVersioning := st\<rparr>)], clastSync = 0\<rparr>"

definition wit_hserver :: "string \<Rightarrow> 's \<Rightarrow> (unit, unit, 's) hserver" where
  "wit_hserver st d = \<lparr>hsIam = wit_manager, hsCfg = wit_cfg st, hsCache = newObjCache None None None, hsObj = d, hsUsage = None, hsEvents = [], hsRepl = [],
     hsExpired = []\<rparr>"

definition wit_hreq :: "string \<Rightarrow> (string \<times> string list) list \<Rightarrow> (string \<Rightarrow> string) \<Rightarrow> bytes \<Rightarrow> hreq" where
  "wit_hreq meth q hs body = \<lparr>hrReq = \<lparr>Method = meth, URLPath = ''/bkt/k'', Query = q, Header = hs, Host = ''h'', ContentLength = int (length body)\<rparr>,
     hrHeaders = [], hrBody = \<lparr>rdata = body, rfails = False\<rparr>, hrRemote = ''1.2.3.4:80'', hrAK = []\<rparr>"

lemma wit_two_get:
  assumes "vid \<in> {''null'', []}" "e = (if vid = [] then wit_lockedEntry\<lparr>veID := ''v2'', veSize := 5\<rparr> else wit_lockedEntry)"
    "body = (if vid = [] then ''newer'' else ''old'')" "oVersionID opts = vid" "wantsVersion opts" "oCheckPrecondFn opts = None"
  shows "\<exists>n. fsGetObjectInfo wit_fe ''bkt'' ''k'' opts (wit_two\<lparr>dopno := m\<rparr>) = (Inr (entryToInfo ''bkt'' ''k'' e (vid = [])), wit_two\<lparr>dopno := n\<rparr>)"
    "\<exists>n. fsGetObjectNInfo wit_fe ''bkt'' ''k'' None opts (wit_two\<lparr>dopno := m\<rparr>) = (Inr (entryToInfo ''bkt'' ''k'' e (vid = []), body, None), wit_two\<lparr>dopno := n\<rparr>)"
proof -
  have c: "volume wit_fe ''bkt'' (wit_two\<lparr>dopno := j\<rparr>)" "calm (wit_two\<lparr>dopno := j\<rparr>)" for j using wit_two_volume by (simp_all add: volume_def)
  have i: "lookupF (dfs wit_two) (verIndexPath wit_fe ''bkt'' ''k'') = Some (File (VerDoc [wit_lockedEntry, wit_lockedEntry\<lparr>veID := ''v2'', veSize := 5\<rparr>]))"
    "lookupF (dfs wit_two) (verDataPath wit_fe ''bkt'' ''k'' (veID e)) = Some (File (Raw body))"
    using assms(1-3) by (auto simp: verIndexPath_def verDataPath_def verDir_def fjoin_def segs_def wit_fe_def wit_two_def lookupF_def sysDir_def wit_lockedEntry_def)
  have g: "getVersionInfo wit_fe ''bkt'' ''k'' vid (wit_two\<lparr>dopno := j\<rparr>) = (Inr (entryToInfo ''bkt'' ''k'' e (vid = []), Some e), wit_two\<lparr>dopno := Suc j\<rparr>)" for j
    using assms(1,2) osReadFile_some [OF c(2) [of j]] i(1)
    by (auto simp: getVersionInfo_def readVerIndex_def latestOrByID_def idxOf_def wit_lockedEntry_def)
  show "\<exists>n. fsGetObjectInfo wit_fe ''bkt'' ''k'' opts (wit_two\<lparr>dopno := m\<rparr>) = (Inr (entryToInfo ''bkt'' ''k'' e (vid = [])), wit_two\<lparr>dopno := n\<rparr>)"
    using assms(4,5) g by (auto simp: fsGetObjectInfo_def ensure_volume [OF c(1)])
  show "\<exists>n. fsGetObjectNInfo wit_fe ''bkt'' ''k'' None opts (wit_two\<lparr>dopno := m\<rparr>) = (Inr (entryToInfo ''bkt'' ''k'' e (vid = []), body, None), wit_two\<lparr>dopno := n\<rparr>)"
    using assms g osOpen_some [OF c(2)] i(2)
    by (auto simp: fsGetObjectNInfo_def ensure_volume [OF c(1)] findForRead_def servePlain_def openVersionData_def rangeOf_def entryToInfo_def wit_lockedEntry_def)
qed

lemma wit_two_current:
  "\<exists>d oi. olGet (fsLayer wit_fe) wit_fdraws ''bkt'' ''k'' None (noOptions\<lparr>oVersioned := True\<rparr>) wit_two = (Inr (oi, ''newer'', None), d)"
proof -
  have "wit_two\<lparr>dopno := 0\<rparr> = wit_two" by (simp add: wit_two_def)
  then show ?thesis
    using wit_two_get(2) [of "[]" _ "''newer''" "noOptions\<lparr>oVersioned := True\<rparr>" 0]
    by (auto simp: fsLayer_def sentinels_def mapFst_def noOptions_def wantsVersion_def)
qed

lemma wit_empty_cache: "oc_ok (newObjCache None None None)"
  by (simp add: oc_ok_def newObjCache_def)

theorem versioned_get_poisons_cache_witness:
  "case handleGetObject (fsLayer wit_fe) wit_henv wit_fdraws (wit_hreq ''GET'' [(''versionId'', [''null''])] (\<lambda>_. []) []) ''bkt'' ''k'' (wit_hserver ''Enabled'' wit_two) of (w, sv1) \<Rightarrow>
   case handleGetObject (fsLayer wit_fe) wit_henv wit_fdraws (wit_hreq ''GET'' [] (\<lambda>_. []) []) ''bkt'' ''k'' sv1 of (w', sv2) \<Rightarrow>
     rsStatus w' = 200 \<and> rsBody w' = Bytes ''old'' None \<and> hsObj sv2 = hsObj sv1"
proof -
  let ?r = "wit_hreq ''GET'' [(''versionId'', [''null''])] (\<lambda>_. []) []" and ?r' = "wit_hreq ''GET'' [] (\<lambda>_. []) []" and ?sv = "wit_hserver ''Enabled'' wit_two"
  let ?o = "fst (vopts wit_henv (dNow wit_fdraws) ''bkt'' ?r ?sv)" and ?oi = "entryToInfo ''bkt'' ''k'' wit_lockedEntry False"
  have c: "oc_ok (hsCache ?sv)" "eligibleSize (int (length ''old'')) (hsCache ?sv)" "int (length ''old'') \<le> ocMax (hsCache ?sv)"
    using wit_empty_cache by (simp_all add: wit_hserver_def eligibleSize_def ocEnabled_def newObjCache_def)
  have b: "bare ?r" "bare ?r'" by (simp_all add: bare_def wit_hreq_def)
  have q: "queryGet (hrReq ?r) ''versionId'' = ''null''" "queryGet (hrReq ?r') ''versionId'' = []" by (simp_all add: queryGet_def wit_hreq_def)
  have o: "oVersionID ?o = ''null''" "wantsVersion ?o" "oCheckPrecondFn ?o = None"
    using vopts_id(1) [of wit_henv _ "''bkt''" ?r ?sv] q(1) by (simp_all add: wantsVersion_def vopts_id(2))
  have w: "wit_two\<lparr>dopno := 0\<rparr> = wit_two" by (simp add: wit_two_def)
  obtain n where i: "fsGetObjectInfo wit_fe ''bkt'' ''k'' ?o wit_two = (Inr ?oi, wit_two\<lparr>dopno := n\<rparr>)"
    using wit_two_get(1) [OF _ _ refl o, of wit_lockedEntry 0] w by auto
  obtain n' where g: "fsGetObjectNInfo wit_fe ''bkt'' ''k'' None ?o (wit_two\<lparr>dopno := n\<rparr>) = (Inr (?oi, ''old'', None), wit_two\<lparr>dopno := n'\<rparr>)"
    using wit_two_get(2) [OF _ _ refl o, of wit_lockedEntry n] by auto
  have l: "olInfo (fsLayer wit_fe) wit_fdraws ''bkt'' ''k'' ?o (hsObj ?sv) = (Inr ?oi, wit_two\<lparr>dopno := n\<rparr>)"
    "olGet (fsLayer wit_fe) wit_fdraws ''bkt'' ''k'' None ?o (wit_two\<lparr>dopno := n\<rparr>) = (Inr (?oi, ''old'', None), wit_two\<lparr>dopno := n'\<rparr>)"
    using i g by (simp_all add: fsLayer_def sentinels_def mapFst_def wit_hserver_def)
  have z: "iSize ?oi = int (length ''old'')" "\<not> HasExpired (iUserDefined ?oi) (dNow wit_fdraws)"
    by (simp_all add: entryToInfo_def wit_lockedEntry_def setIf_def HasExpired_def getKey_def)
  have t: "dNow wit_fdraws - dNow wit_fdraws \<le> ocTtl (hsCache ?sv)" by (simp add: wit_hserver_def newObjCache_def)
  show "case handleGetObject (fsLayer wit_fe) wit_henv wit_fdraws ?r ''bkt'' ''k'' ?sv of (w, sv1) \<Rightarrow>
    case handleGetObject (fsLayer wit_fe) wit_henv wit_fdraws ?r' ''bkt'' ''k'' sv1 of (w', sv2) \<Rightarrow>
      rsStatus w' = 200 \<and> rsBody w' = Bytes ''old'' None \<and> hsObj sv2 = hsObj sv1"
    by (rule versioned_get_poisons_cache [OF c b(1) q(1) _ l z b(2) q(2) t z(2)]) simp
qed

subsection \<open>PUT and GET over HTTP\<close>

text \<open>Metadata that gives an object no end of its life.\<close>

definition lasting :: "string gomap \<Rightarrow> bool" where
  "lasting m \<longleftrightarrow> (\<forall>k \<in> fst ` set m. \<not> isExpiryKey k)"

lemma lasting_update: "lasting m \<Longrightarrow> \<not> isExpiryKey k \<Longrightarrow> lasting (AList.update k v m)"
  by (auto simp: lasting_def AList.dom_update)

lemma lasting_not_expired: "lasting m \<Longrightarrow> \<not> HasExpired m now"
proof -
  have "lasting m \<Longrightarrow> ExpiryOf m = 0" by (induction m rule: ExpiryOf.induct) (auto simp: lasting_def)
  then show "lasting m \<Longrightarrow> \<not> HasExpired m now" by (simp add: HasExpired_def)
qed

lemma lasting_fold: "(\<And>kv m. kv \<in> set kvs \<Longrightarrow> lasting m \<Longrightarrow> lasting (f kv m)) \<Longrightarrow> lasting m \<Longrightarrow> lasting (fold f kvs m)"
  by (induction kvs arbitrary: m) auto

lemma lowerChar_idem: "lowerChar (lowerChar c) = lowerChar c"
proof (cases "CHR ''A'' \<le> c \<and> c \<le> CHR ''Z''")
  case True
  then have "(of_char c :: nat) + 32 < 256" "(of_char c :: nat) \<ge> 65" by (simp_all add: less_eq_char_def)
  then have "\<not> char_of (of_char c + 32 :: nat) \<le> CHR ''Z''" by (simp add: less_eq_char_def)
  then show ?thesis using True by (simp add: lowerChar_def)
qed (auto simp: lowerChar_def)

lemma isExpiryKey_iff: "isExpiryKey k \<longleftrightarrow> (\<exists>r. toLower k = r @ ''gostore-expires'')"
proof -
  have "hasSuffix s t \<longleftrightarrow> (\<exists>r. s = r @ t)" for s t by (simp add: hasSuffix_def hasPrefix_iff rev_eq_append_conv) (metis rev_rev_ident)
  then show ?thesis by (auto simp: isExpiryKey_def Let_def simp del: append_Cons append_Nil)
qed

lemma isExpiryKey_lower: "isExpiryKey (toLower k) = isExpiryKey k"
  by (simp add: isExpiryKey_iff toLower_def comp_def lowerChar_idem)

lemma isExpiryKey_trim: "isExpiryKey (trimPrefix k p) \<Longrightarrow> isExpiryKey k"
  unfolding isExpiryKey_iff trimPrefix_def toLower_def hasPrefix_iff
  by (auto split: if_splits)

lemma lasting_strip: "lasting m \<Longrightarrow> lasting (stripReserved m)"
  unfolding stripReserved_def Let_def case_prod_beta
proof (rule lasting_fold)
  fix kv and m' :: "string gomap" assume m: "lasting m" "kv \<in> set m" "lasting m'"
  then have "\<not> isExpiryKey (trimPrefix (toLower (fst kv)) ''x-amz-meta-'')"
    using isExpiryKey_trim isExpiryKey_lower by (fastforce simp: lasting_def)
  then show "lasting (if toLower (fst kv) \<in> {''content-type'', ''content-encoding'', ''etag''} then m'
        else if hasPrefix (toLower (fst kv)) ''x-amz-'' \<and> \<not> hasPrefix (toLower (fst kv)) ''x-amz-meta-'' then m'
        else AList.update (trimPrefix (toLower (fst kv)) ''x-amz-meta-'') (snd kv) m')"
    using m(3) lasting_update by simp
qed (simp add: lasting_def)

text \<open>A request without a time to live, in its own headers or in the metadata.\<close>

definition noExpiry :: "henv \<Rightarrow> time \<Rightarrow> hreq \<Rightarrow> bool" where
  "noExpiry he now r \<longleftrightarrow> parseExpiryDirective he r now = 0 \<and> list_all (\<lambda>(k, _). \<not> isExpiryKey k) (hrHeaders r)"

lemma expiry_literals: "\<not> isExpiryKey ''content-type''" "\<not> isExpiryKey ''content-encoding''"
    "a \<in> set checksumAlgos \<Longrightarrow> \<not> isExpiryKey (''x-amz-meta-checksum-'' @ a)"
proof -
  have "list_all (\<lambda>k. \<not> isExpiryKey k) ([''content-type'', ''content-encoding''] @ map (\<lambda>a. ''x-amz-meta-checksum-'' @ a) checksumAlgos)" by code_simp
  then show "\<not> isExpiryKey ''content-type''" "\<not> isExpiryKey ''content-encoding''"
    "a \<in> set checksumAlgos \<Longrightarrow> \<not> isExpiryKey (''x-amz-meta-checksum-'' @ a)" by (simp_all add: list_all_iff)
qed

lemma lasting_extract:
  assumes "noExpiry he now r"
  shows "lasting (extractMetadata he r key)"
  unfolding extractMetadata_def Let_def case_prod_beta
proof (rule lasting_fold, goal_cases)
  case (1 kv m)
  then have "\<not> isExpiryKey (toLower (fst kv))" using assms by (auto simp: noExpiry_def list_all_iff isExpiryKey_lower)
  then show ?case using 1(2) by (simp add: lasting_update)
next
  case 2
  show ?case using expiry_literals by (auto simp: lasting_def AList.dom_update)
qed

lemma lasting_put:
  assumes "noExpiry he now r"
  shows "lasting (oUserDefined (putOptions he now r key opts))"
proof -
  have "a \<in> set checksumAlgos" if "checksumFromHeaders r = Some (a, w)" for a w
    using that by (auto simp: checksumFromHeaders_def find_Some_iff)
  then show ?thesis using lasting_extract [OF assms] assms expiry_literals(3)
    by (auto simp: putOptions_def noExpiry_def Let_def intro: lasting_update split: option.split)
qed

lemma lasting_info:
  assumes "lasting (oUserDefined opts)"
  shows "lasting (iUserDefined (toObjectInfo (newMeta sz t e opts) b k))"
  using lasting_strip [OF assms] expiry_literals by (auto simp: toObjectInfo_def newMeta_def emptyMeta_def setIf_def intro: lasting_update)

text \<open>A bucket without versioning and without object lock.\<close>

definition plainBucket :: "string \<Rightarrow> ('b, 'c, 's) hserver \<Rightarrow> bool" where
  "plainBucket b sv \<longleftrightarrow> (let c = Get b (hsCfg sv) in cfgVersioning c \<notin> {''Enabled'', ''Suspended''} \<and> cfgObjectLock c = None)"

lemma vopts_plain:
  assumes "bare r" "plainBucket b sv"
  shows "\<exists>vo. vopts he now b r sv = (vo, sv) \<and> \<not> oVersioned vo \<and> \<not> oVersionSuspended vo \<and> oVersionID vo = queryGet (hrReq r) ''versionId''
    \<and> oCheckPrecondFn vo = None"
  using assms by (simp add: bare_def plainBucket_def vopts_def lockOptions_def noOptions_def Let_def)

text \<open>The cache knows nothing else of the object.\<close>

definition cached :: "string \<Rightarrow> string \<Rightarrow> bytes \<Rightarrow> objectInfo \<Rightarrow> objCache \<Rightarrow> bool" where
  "cached b k body oi c \<longleftrightarrow> oc_ok c \<and> (ocEnabled c \<longrightarrow> (\<forall>e \<in> set (ocList c). ceKey e = cacheKey b k [] \<longrightarrow> ceData e = body \<and> ceInfo e = oi))"

lemma cached_evict: "oc_ok c \<Longrightarrow> cached b k body oi (ocEvict b k [] c)"
  using evictIf_ok [of c] by (auto simp: cached_def ocEvict_def ocEnabled_def)

lemma shrink_subset: "set (ocList (shrink c)) \<subseteq> set (ocList c)"
proof (induction c rule: shrink.induct)
  case (1 c)
  show ?case
  proof (cases "ocCur c > ocMax c \<and> ocList c \<noteq> []")
    case True
    then show ?thesis using 1 by (subst shrink.simps) (auto dest: in_set_butlastD)
  qed (subst shrink.simps, auto)
qed

lemma cached_get:
  assumes "cached b k body oi c"
  shows "cached b k body oi (snd (ocGet now (cacheKey b k []) c))"
    "fst (ocGet now (cacheKey b k []) c) = Some e \<Longrightarrow> ceData e = body \<and> ceInfo e = oi"
proof -
  have f: "e \<in> set (ocList c) \<and> ceKey e = cacheKey b k []" if "ceFind (cacheKey b k []) c = Some e" for e
    using that by (auto simp: ceFind_def find_Some_iff)
  have "set (ocList (snd (ocGet now (cacheKey b k []) c))) \<subseteq> set (ocList c)"
    using f by (auto simp: ocGet_def removeLocked_def without_def split: option.split)
  then show "cached b k body oi (snd (ocGet now (cacheKey b k []) c))"
    using assms get_ok [where c = c and now = now and k = "cacheKey b k []"] by (auto simp: cached_def ocEnabled_def)
  show "fst (ocGet now (cacheKey b k []) c) = Some e \<Longrightarrow> ceData e = body \<and> ceInfo e = oi"
    using assms f by (auto simp: ocGet_def cached_def split: if_splits option.splits)
qed

lemma cached_put:
  assumes "cached b k body oi c"
  shows "cached b k body oi (ocPut now (cacheKey b k []) body oi c)"
proof -
  have "set (ocList (ocPut now (cacheKey b k []) body oi c)) \<subseteq> insert \<lparr>ceKey = cacheKey b k [], ceData = body, ceInfo = oi, ceStored = now\<rparr> (set (ocList c))"
    by (auto simp: ocPut_def Let_def without_def dest!: subsetD [OF shrink_subset])
  then show ?thesis using assms put_ok [of c now "cacheKey b k []" body oi] by (fastforce simp: cached_def ocEnabled_def)
qed

text \<open>Requests for the object one after the other.\<close>

fun getAll :: "'s olayer \<Rightarrow> henv \<Rightarrow> string \<Rightarrow> string \<Rightarrow> (draws \<times> hreq) list \<Rightarrow> ('b, 'c, 's) hserver \<Rightarrow> resp list \<times> ('b, 'c, 's) hserver" where
  "getAll L he b k [] sv = ([], sv)"
| "getAll L he b k ((dr, r) # gs) sv =
     (case handleGetObject L he dr r b k sv of (w, sv1) \<Rightarrow> (case getAll L he b k gs sv1 of (ws, sv2) \<Rightarrow> (w # ws, sv2)))"

text \<open>The server has the object, on its volume and in its cache.\<close>

definition serves :: "fenv \<Rightarrow> string \<Rightarrow> string \<Rightarrow> bytes \<Rightarrow> objMeta \<Rightarrow> ('b, 'c, disk) hserver \<Rightarrow> bool" where
  "serves fe b k body m sv \<longleftrightarrow> plainBucket b sv \<and> stored fe b k body m (hsObj sv) \<and> lasting (iUserDefined (toObjectInfo m b k))
     \<and> cached b k body (toObjectInfo m b k) (hsCache sv)"

lemma serves_get:
  assumes "serves fe b k body m sv" "bare r" "queryGet (hrReq r) ''versionId'' = []"
  shows "\<exists>w sv'. handleGetObject (fsLayer fe) he dr r b k sv = (w, sv') \<and> rsStatus w = 200 \<and> rsBody w = Bytes body None \<and> serves fe b k body m sv'"
proof -
  let ?oi = "toObjectInfo m b k"
  note s = assms(1) [unfolded serves_def]
  obtain vo where vo: "vopts he (dNow dr) b r sv = (vo, sv)" "\<not> oVersioned vo" "\<not> oVersionSuspended vo" "oVersionID vo = []" "oCheckPrecondFn vo = None"
    using vopts_plain [OF assms(2), of b sv he "dNow dr"] s assms(3) by auto
  have nw: "\<not> wantsVersion vo" using vo by (simp add: wantsVersion_def)
  have h: "hdr r ''Range'' = []" using assms(2) by (simp add: bare_def)
  note ex = lasting_not_expired [of "iUserDefined ?oi"]
  obtain e c where g: "ocGet (dNow dr) (cacheKey b k []) (hsCache sv) = (e, c)" by fastforce
  have c: "cached b k body ?oi c" "\<And>x. e = Some x \<Longrightarrow> ceData x = body \<and> ceInfo x = ?oi"
    using cached_get [of b k body ?oi "hsCache sv" "dNow dr"] s g by auto
  show ?thesis
  proof (cases "ocEnabled (hsCache sv) \<and> e \<noteq> None")
    case True
    then obtain x where x: "e = Some x" by auto
    have f: "fromCache (dNow dr) r b k vo sv = (Some x, sv\<lparr>hsCache := c\<rparr>)"
      using True x g h vo(4) c(2) ex s by (simp add: fromCache_def)
    have "serves fe b k body m (sv\<lparr>hsCache := c\<rparr>)" using s c(1) by (simp add: serves_def plainBucket_def)
    then show ?thesis using f vo(1) c(2) [OF x] bare_proceeds [OF assms(2)] by (simp add: handleGetObject_def getOrHeadObject_def serveCached_def Let_def)
  next
    case False
    define sv1 where "sv1 = sv\<lparr>hsCache := (if ocEnabled (hsCache sv) then c else hsCache sv)\<rparr>"
    have f: "fromCache (dNow dr) r b k vo sv = (None, sv1)"
      using False g h vo(4) by (auto simp: fromCache_def sv1_def)
    have c1: "cached b k body ?oi (hsCache sv1)" "hsObj sv1 = hsObj sv" "plainBucket b sv1"
      using c(1) s by (auto simp: sv1_def plainBucket_def)
    obtain n where i: "fsGetObjectInfo fe b k vo (hsObj sv) = (Inr ?oi, (hsObj sv)\<lparr>dopno := n\<rparr>)" using getInfo_stored [OF _ nw] s by blast
    obtain n' where d: "fsGetObjectNInfo fe b k None vo ((hsObj sv)\<lparr>dopno := n\<rparr>) = (Inr (?oi, body, None), (hsObj sv)\<lparr>dopno := n'\<rparr>)"
      using getPlain_stored [of fe b k body m "(hsObj sv)\<lparr>dopno := n\<rparr>" vo None 0 "int (length body)"] nw vo(5) s by (auto simp: rangeOf_def)
    have st: "stored fe b k body m (hsObj sv)" using s by simp
    define sv2 where "sv2 = sv1\<lparr>hsObj := (hsObj sv)\<lparr>dopno := n'\<rparr>\<rparr>"
    let ?put = "eligibleSize (iSize ?oi) (hsCache sv2)"
    let ?sv' = "if ?put then sv2\<lparr>hsCache := ocPut (dNow dr) (cacheKey b k []) body ?oi (hsCache sv2)\<rparr> else sv2"
    have "serves fe b k body m sv2" using s c1 by (simp add: serves_def sv2_def plainBucket_def)
    then have "serves fe b k body m ?sv'" using cached_put [of b k body ?oi "hsCache sv2" "dNow dr"] by (simp add: serves_def plainBucket_def)
    moreover have "\<exists>w. handleGetObject (fsLayer fe) he dr r b k sv = (w, ?sv') \<and> rsStatus w = 200 \<and> rsBody w = Bytes body None"
      using f vo(1) i d h ex s c1(2) stored_size [OF st] bare_proceeds [OF assms(2)]
      by (simp add: handleGetObject_def getOrHeadObject_def onObj_def fsLayer_def sentinels_def mapFst_def serveFound_def serveBody_def sv2_def Let_def)
    ultimately show ?thesis by metis
  qed
qed

lemma serves_getAll:
  assumes "serves fe b k body m sv" "list_all (\<lambda>(dr, r). bare r \<and> queryGet (hrReq r) ''versionId'' = []) gs"
  shows "list_all (\<lambda>w. rsStatus w = 200 \<and> rsBody w = Bytes body None) (fst (getAll (fsLayer fe) he b k gs sv))"
  using assms
proof (induction gs arbitrary: sv)
  case (Cons g gs)
  obtain dr r where g: "g = (dr, r)" by fastforce
  obtain w sv' where "handleGetObject (fsLayer fe) he dr r b k sv = (w, sv')" "rsStatus w = 200 \<and> rsBody w = Bytes body None" "serves fe b k body m sv'"
    using serves_get [OF Cons.prems(1), of r he dr] Cons.prems(2) g by auto
  then show ?case using Cons g by (simp add: split_beta)
qed simp

lemma putBody_data: "rdata (putBody he r) = rdata (hrBody r)"
  by (auto simp: putBody_def verifyingReader_def split: option.split)


text \<open>The cache still has old bytes of the key when the PUT comes.\<close>

definition wit_stale :: objCache where
  "wit_stale = ocPut 0 (cacheKey ''bkt'' ''a/b'' []) ''stale'' noInfo (newObjCache None None None)"


subsection \<open>Part of an object\<close>

definition unranged :: "hreq \<Rightarrow> hreq" where
  "unranged r = r\<lparr>hrReq := (hrReq r)\<lparr>Header := (Header (hrReq r))(''Range'' := [])\<rparr>\<rparr>"

lemma getH_setH: "getH k \<lparr>rsStatus = s, rsHdr = setH k' v h, rsBody = bd\<rparr> = (if k = toLower k' then Some v else getH k \<lparr>rsStatus = s, rsHdr = h, rsBody = bd\<rparr>)"
  by (auto simp: getH_def setH_def AList.update_conv)

lemma range_headers: "toLower ''Content-Range'' = ''content-range''" "toLower ''Content-Length'' = ''content-length''"
  by code_simp+

text \<open>What the handler does with a range the object can satisfy.\<close>

lemma serves_range:
  assumes "serves fe b k body m sv" "bare (unranged r)" "queryGet (hrReq r) ''versionId'' = []"
    and "hdr r ''Range'' = v" "v \<noteq> []" "parseRange v = Some rs" "resolveRange rs (int (length body)) = Inr (start, len)"
  shows "\<exists>w. fst (handleGetObject (fsLayer fe) he dr r b k sv) = w \<and> rsStatus w = 206 \<and> rsBody w = Bytes (take (nat len) (drop (nat start) body)) None
    \<and> getH ''content-range'' w = Some (''bytes '' @ Itoa start @ ''-'' @ Itoa (start + len - 1) @ ''/'' @ Itoa (int (length body)))
    \<and> getH ''content-length'' w = Some (Itoa len)"
proof -
  let ?oi = "toObjectInfo m b k"
  note s = assms(1) [unfolded serves_def]
  have b: "list_all (\<lambda>h. hdr r h = []) [''If-None-Match'', ''If-Modified-Since'', ''If-Match'', ''If-Unmodified-Since'', ''x-amz-bypass-governance-retention'']"
    using assms(2) by (simp add: bare_def unranged_def)
  then obtain vo where vo: "vopts he (dNow dr) b r sv = (vo, sv)" "\<not> wantsVersion vo" "oVersionID vo = []" "oCheckPrecondFn vo = None"
    using s assms(3) by (simp add: plainBucket_def vopts_def lockOptions_def noOptions_def Let_def wantsVersion_def)
  have pr: "evalGetConditionals he r ?oi = Proceed" using b by (simp add: evalGetConditionals_def)
  have ca: "fromCache (dNow dr) r b k vo sv = (None, sv)" using assms(4,5) by (simp add: fromCache_def)
  have st: "stored fe b k body m (hsObj sv)" using s by simp
  obtain n where i: "fsGetObjectInfo fe b k vo (hsObj sv) = (Inr ?oi, (hsObj sv)\<lparr>dopno := n\<rparr>)" using getInfo_stored [OF st vo(2)] by blast
  have rg: "rangeOf (Some rs) (int (length body)) = Some (start, len)" using assms(7) by (simp add: rangeOf_def)
  obtain n' where d: "fsGetObjectNInfo fe b k (Some rs) vo ((hsObj sv)\<lparr>dopno := n\<rparr>)
      = (Inr (?oi\<lparr>iSize := len\<rparr>, take (nat len) (drop (nat start) body), None), (hsObj sv)\<lparr>dopno := n'\<rparr>)"
    using getPlain_stored [of fe b k body m "(hsObj sv)\<lparr>dopno := n\<rparr>" vo "Some rs" start len] st vo(2,4) rg by auto
  have hr: "resolveRangeForHeader rs (int (length body)) = (start, len)" by (rule range_header_agrees(1) [OF assms(6) _ assms(7)]) simp
  show ?thesis
    using vo(1) ca i d pr hr assms(4-6) stored_size [OF st] lasting_not_expired [of "iUserDefined ?oi"] s
    by (simp add: handleGetObject_def getOrHeadObject_def onObj_def fsLayer_def sentinels_def mapFst_def serveFound_def serveBody_def Let_def getH_setH range_headers)
qed


text \<open>An object of five bytes on the volume.\<close>

definition wit_meta :: objMeta where "wit_meta = newMeta 5 1 ''e'' noOptions"

definition wit_plain :: disk where
  "wit_plain = \<lparr>dfs = [([''vol''], Dir), ([''vol'', ''bkt''], Dir), ([''vol'', ''bkt'', ''k''], File (Raw ''hello'')), ([''vol'', sysDir], Dir),
      ([''vol'', sysDir, ''tmp''], Dir), ([''vol'', sysDir, ''meta''], Dir), ([''vol'', sysDir, ''meta'', ''bkt''], Dir),
      ([''vol'', sysDir, ''meta'', ''bkt'', ''k.json''], File (ObjDoc wit_meta))],
     dfaults = (\<lambda>_. Works), dopno = 0\<rparr>"

lemma wit_serves: "serves wit_fe ''bkt'' ''k'' ''hello'' wit_meta (wit_hserver [] wit_plain)"
proof -
  have "tree_ok (dfs wit_plain)" by (simp add: tree_ok_def wit_plain_def lookupF_def fileName_def sysDir_def)
  moreover have "fsValidBucketName ''bkt''" by code_simp
  ultimately have "volume wit_fe ''bkt'' wit_plain" by (simp add: volume_def calm_def wit_plain_def wit_fe_def rootOK_def plainName_def lookupF_def sysDir_def)
  moreover have "objDataPath wit_fe ''bkt'' ''k'' = [''vol'', ''bkt'', ''k'']" "objMetaPath wit_fe ''bkt'' ''k'' = [''vol'', sysDir, ''meta'', ''bkt'', ''k.json'']"
    by (simp_all add: objDataPath_def objMetaPath_def fjoin_def segs_def wit_fe_def sysDir_def)
  ultimately have "stored wit_fe ''bkt'' ''k'' ''hello'' wit_meta wit_plain"
    by (simp add: stored_def wit_meta_def newMeta_def emptyMeta_def) (simp add: wit_plain_def lookupF_def sysDir_def wit_meta_def newMeta_def emptyMeta_def)
  moreover have "lasting (iUserDefined (toObjectInfo wit_meta ''bkt'' ''k''))"
    unfolding wit_meta_def by (rule lasting_info) (simp add: lasting_def noOptions_def)
  ultimately show ?thesis
    using wit_empty_cache
    by (simp add: serves_def cached_def plainBucket_def wit_hserver_def wit_cfg_def Get_def emptyConfig_def) (simp add: newObjCache_def)
qed


subsection \<open>Conditional writes\<close>

text \<open>The request without its \<open>If-None-Match\<close>.\<close>

definition unconditional :: "hreq \<Rightarrow> hreq" where
  "unconditional r = r\<lparr>hrReq := (hrReq r)\<lparr>Header := (Header (hrReq r))(''If-None-Match'' := [])\<rparr>\<rparr>"

text \<open>A layer whose versioned PUT does not look at the condition.\<close>

locale unconditional_put =
  fixes L :: "'s olayer"
  assumes put_any: "oVersioned opts \<Longrightarrow> olPut L dr b k r sz (opts\<lparr>oCheckPrecondFn := f\<rparr>) s = olPut L dr b k r sz (opts\<lparr>oCheckPrecondFn := None\<rparr>) s"
begin

lemma put_ignores_condition:
  assumes "cfgVersioning (Get b (hsCfg sv)) = ''Enabled''" "hdr r ''If-Match'' = []"
  shows "handlePutObject L he dr r b k sv = handlePutObject L he dr (unconditional r) b k sv"
proof -
  have h: "hdr (unconditional r) x = (if x = ''If-None-Match'' then [] else hdr r x)" for x by (simp add: unconditional_def)
  have q: "hrHeaders (unconditional r) = hrHeaders r" "hrBody (unconditional r) = hrBody r" "hrRemote (unconditional r) = hrRemote r"
    "ContentLength (hrReq (unconditional r)) = ContentLength (hrReq r)" "queryGet (hrReq (unconditional r)) x = queryGet (hrReq r) x"
    "hrAK (unconditional r) = hrAK r" for x
    by (simp_all add: unconditional_def queryGet_def)
  have s: "bodySize (unconditional r) = bodySize r" by (simp add: bodySize_def h q Let_def split: option.split)
  have o: "lockOptions c now (unconditional r) vo = lockOptions c now r vo" "bypassAllowed he now (unconditional r) x y z m = bypassAllowed he now r x y z m" for c now vo x y z m
    by (simp_all add: lockOptions_def bypassAllowed_def h)
  have v0: "vopts he now b (unconditional r) sv = vopts he now b r sv" for now unfolding vopts_def o q by (simp add: h)
  have cs: "checksumFromHeaders (unconditional r) = checksumFromHeaders r" by (simp add: checksumFromHeaders_def checksumAlgos_def h)
  have p: "putBody he (unconditional r) = putBody he r" "badChecksum he (unconditional r) = badChecksum he r"
    unfolding badChecksum_def putBody_def cs q by simp_all
  have x: "extractMetadata he (unconditional r) k = extractMetadata he r k" "parseExpiryDirective he (unconditional r) now = parseExpiryDirective he r now" for now
    by (simp_all add: extractMetadata_def parseExpiryDirective_def h q)
  have po: "putOptions he now (unconditional r) k vo = putOptions he now r k vo" for now vo unfolding putOptions_def cs x by (simp add: h)
  have n: "notify now (unconditional r) kd b k z et sv' = notify now r kd b k z et sv'" for now kd z et and sv' :: "('b, 'c, 's) hserver"
  proof -
    have "clientIP (hrRemote r) (hrReq (unconditional r)) = clientIP (hrRemote r) (hrReq r)" by (simp add: clientIP_def h)
    then show ?thesis unfolding notify_def q by simp
  qed
  note e = s v0 p po n
  have a: "handleAppendObject L he dr (unconditional r) b k sz sv = handleAppendObject L he dr r b k sz sv" for sz
    using assms(1) by (simp add: handleAppendObject_def h split: option.split)
  obtain vo sv1 where vo: "vopts he (dNow dr) b r sv = (vo, sv1)" by fastforce
  then have "oVersioned vo"
    using assms(1) by (auto simp: vopts_def lockOptions_def noOptions_def Let_def split_beta split: option.splits if_splits)
  then have v: "oVersioned (putOptions he (dNow dr) r k vo)" by (simp add: putOptions_def Let_def)
  have "\<exists>f. writeCondition L dr r b k sv1 = (Inr f, sv1)"
    using assms(2) by (cases "hdr r ''If-None-Match'' = []") (simp_all add: writeCondition_def Let_def)
  moreover have "writeCondition L dr (unconditional r) b k sv1 = (Inr None, sv1)" using assms(2) by (simp add: writeCondition_def h)
  ultimately obtain f where "writeCondition L dr r b k sv1 = (Inr f, sv1)" "writeCondition L dr (unconditional r) b k sv1 = (Inr None, sv1)" by blast
  moreover have "olPut L dr b k (putBody he r) (bodySize r) ((putOptions he (dNow dr) r k vo)\<lparr>oCheckPrecondFn := f\<rparr>)
      = olPut L dr b k (putBody he r) (bodySize r) ((putOptions he (dNow dr) r k vo)\<lparr>oCheckPrecondFn := None\<rparr>)"
    using put_any [OF v] by blast
  ultimately show ?thesis unfolding handlePutObject_def e a q vo Let_def by (simp add: h)
qed

end

lemma condition_free:
  "lockFields dr (opts\<lparr>oCheckPrecondFn := f\<rparr>) = lockFields dr opts" "toUserMeta (opts\<lparr>oCheckPrecondFn := f\<rparr>) = toUserMeta opts"
  "sseWanted a km al dr (opts\<lparr>oCheckPrecondFn := f\<rparr>) = sseWanted a km al dr opts" "oVersionSuspended (opts\<lparr>oCheckPrecondFn := f\<rparr>) = oVersionSuspended opts"
  "newEntry vid n md now (opts\<lparr>oCheckPrecondFn := f\<rparr>) = newEntry vid n md now opts" "putTime dr (opts\<lparr>oCheckPrecondFn := f\<rparr>) = putTime dr opts"
  "oBypassGovernance (opts\<lparr>oCheckPrecondFn := f\<rparr>) = oBypassGovernance opts"
  by (simp_all add: lockFields_def toUserMeta_def sseWanted_def newEntry_def putTime_def fun_eq_iff Let_def split: option.split)

lemma pool_put_unconditional:
  assumes "oVersioned opts"
  shows "PutObject pe dr b k r sz (opts\<lparr>oCheckPrecondFn := f\<rparr>) p = PutObject pe dr b k r sz (opts\<lparr>oCheckPrecondFn := None\<rparr>) p"
proof -
  have e: "putVersionOn pe km dr b k r sz (opts\<lparr>oCheckPrecondFn := f\<rparr>) = putVersionOn pe km dr b k r sz (opts\<lparr>oCheckPrecondFn := None\<rparr>)" for km
    unfolding putVersionOn_def condition_free ..
  have "putObjectVersionedOn pe dr i b k r sz (opts\<lparr>oCheckPrecondFn := f\<rparr>) p = putObjectVersionedOn pe dr i b k r sz (opts\<lparr>oCheckPrecondFn := None\<rparr>) p" for i
    unfolding putObjectVersionedOn_def e ..
  then show ?thesis using assms by (simp add: PutObject_def hasVersioning_def putObjectVersioned_def)
qed

lemma fs_put_unconditional:
  assumes "oVersioned opts"
  shows "fsPutObject fe dr b k r sz (opts\<lparr>oCheckPrecondFn := f\<rparr>) d = fsPutObject fe dr b k r sz (opts\<lparr>oCheckPrecondFn := None\<rparr>) d"
proof -
  have e: "storeVersion fe dr b k (opts\<lparr>oCheckPrecondFn := f\<rparr>) = storeVersion fe dr b k (opts\<lparr>oCheckPrecondFn := None\<rparr>)"
    unfolding storeVersion_def condition_free ..
  have "putVersion fe dr b k r sz (opts\<lparr>oCheckPrecondFn := f\<rparr>) d = putVersion fe dr b k r sz (opts\<lparr>oCheckPrecondFn := None\<rparr>) d"
    unfolding putVersion_def e ..
  then show ?thesis using assms by (simp add: fsPutObject_def)
qed

interpretation pool_put: unconditional_put "poolLayer pe"
  by unfold_locales (simp add: poolLayer_def, rule arg_cong [OF pool_put_unconditional])

interpretation fs_put: unconditional_put "fsLayer fe"
  by unfold_locales (simp add: fsLayer_def, rule arg_cong [OF fs_put_unconditional])

text \<open>
  C37: in a bucket with versioning the condition of a create-only PUT is not looked at, on either backend: a PUT with
  \<open>If-None-Match\<close> is answered like the same PUT without it and leaves the same server, whether or not the object exists.
\<close>

theorem create_only_put_unchecked:
  assumes "cfgVersioning (Get b (hsCfg sv)) = ''Enabled''" "cfgVersioning (Get b (hsCfg sv')) = ''Enabled''" "hdr r ''If-Match'' = []"
  shows "handlePutObject (poolLayer pe) he dr r b k sv = handlePutObject (poolLayer pe) he dr (unconditional r) b k sv
    \<and> handlePutObject (fsLayer fe) he dr r b k sv' = handlePutObject (fsLayer fe) he dr (unconditional r) b k sv'"
  using pool_put.put_ignores_condition [OF assms(1,3)] fs_put.put_ignores_condition [OF assms(2,3)] by blast

lemma wit_enabled: "cfgVersioning (Get ''bkt'' (hsCfg (wit_hserver ''Enabled'' s))) = ''Enabled''"
  by (simp add: wit_hserver_def wit_cfg_def Get_def emptyConfig_def)

theorem create_only_put_unchecked_witness:
  "let h = (\<lambda>x. if x = ''If-None-Match'' then ''*'' else []); r = wit_hreq ''PUT'' [] h ''hello'' in
     handlePutObject (poolLayer wit_lenv) wit_henv wit_fdraws r ''bkt'' ''k'' (wit_hserver ''Enabled'' wit_lpool)
       = handlePutObject (poolLayer wit_lenv) wit_henv wit_fdraws (unconditional r) ''bkt'' ''k'' (wit_hserver ''Enabled'' wit_lpool)
     \<and> handlePutObject (fsLayer wit_fe) wit_henv wit_fdraws r ''bkt'' ''k'' (wit_hserver ''Enabled'' wit_two)
       = handlePutObject (fsLayer wit_fe) wit_henv wit_fdraws (unconditional r) ''bkt'' ''k'' (wit_hserver ''Enabled'' wit_two)
     \<and> hdr r ''If-None-Match'' = ''*'' \<and> hdr (unconditional r) ''If-None-Match'' = []"
proof -
  let ?r = "wit_hreq ''PUT'' [] (\<lambda>x. if x = ''If-None-Match'' then ''*'' else []) ''hello''"
  have m: "hdr ?r ''If-Match'' = []" "hdr ?r ''If-None-Match'' = ''*''" "hdr (unconditional ?r) ''If-None-Match'' = []"
    by (simp_all add: wit_hreq_def unconditional_def)
  show ?thesis unfolding Let_def using create_only_put_unchecked [OF wit_enabled wit_enabled m(1)] m(2,3) by blast
qed

end
