(* ===== verification/BucketProps.thy ===== *)
theory BucketProps
  imports BucketHandlers HandlerProps
begin

text \<open>
  What a client that reads and writes the configuration of a bucket gets back.
\<close>

subsection \<open>Replication rules\<close>

lemma fold_none: "rrID rl \<notin> rrID ` set ps \<Longrightarrow> fold (\<lambda>p acc. if rrID p = rrID rl then acc\<lparr>DestSecretKey := DestSecretKey p\<rparr> else acc) ps a = a"
  by (induction ps) auto

lemma fold_secret:
  assumes "distinct (map rrID ps)" "p \<in> set ps" "rrID p = rrID rl"
  shows "fold (\<lambda>p acc. if rrID p = rrID rl then acc\<lparr>DestSecretKey := DestSecretKey p\<rparr> else acc) ps a = a\<lparr>DestSecretKey := DestSecretKey p\<rparr>"
  using assms
proof (induction ps arbitrary: a)
  case (Cons q ps)
  show ?case
  proof (cases "q = p")
    case True
    then have "rrID rl \<notin> rrID ` set ps" using Cons.prems by auto
    then show ?thesis using True Cons.prems(3) fold_none by simp
  next
    case False
    then have "rrID q \<noteq> rrID rl" using Cons.prems by (auto simp: image_iff)
    then show ?thesis using Cons False by simp
  qed
qed simp

lemma unmask_mask:
  assumes "distinct (map rrID rules)" "rl \<in> set rules"
  shows "unmaskRule rules (maskRule rl) = rl"
proof (cases "DestSecretKey rl = []")
  case False
  then have "unmaskRule rules (maskRule rl) = (maskRule rl)\<lparr>DestSecretKey := DestSecretKey rl\<rparr>"
    using fold_secret [where a = "maskRule rl" and rl = "maskRule rl", OF assms] by (simp add: unmaskRule_def maskRule_def)
  then show ?thesis using False by (simp add: maskRule_def)
qed (simp add: unmaskRule_def maskRule_def masked_def)


subsection \<open>Tags\<close>

lemma upper_index: "n < 16 \<Longrightarrow> indexByte hexLower (lowerChar (hexDigit hexUpper n)) = Some n"
proof -
  have "\<forall>n \<in> set [0..<16]. indexByte hexLower (lowerChar (hexDigit hexUpper n)) = Some n" by code_simp
  then show "n < 16 \<Longrightarrow> ?thesis" by auto
qed

lemma unescape_pct: "queryUnescape (pctByte c @ s) = map_option (Cons c) (queryUnescape s)"
proof -
  obtain n :: nat where n: "n = of_char c" by simp
  have "n < 256" unfolding n by (rule of_char_bound)
  then have "n div 16 < 16" "n mod 16 < 16" by auto
  moreover have "char_of (16 * (n div 16) + n mod 16) = c" by (simp add: n)
  ultimately show ?thesis by (simp add: pctByte_def upper_index flip: n)
qed

lemma unescape_byte: "queryUnescape ((if c = CHR '' '' then ''+'' else encodeQueryByte c) @ s) = map_option (Cons c) (queryUnescape s)"
proof (cases "isAlnum c \<or> c \<in> set ''-_.~''")
  case True
  then have "c \<noteq> CHR ''%''" "c \<noteq> CHR ''+''" "c \<noteq> CHR '' ''" using isAlnum_pct by (auto simp: isAlnum_def less_eq_char_def)
  then show ?thesis using True by (auto simp: encodeQueryByte_def)
next
  case False
  then have "encodeQueryByte c = pctByte c" by (auto simp: encodeQueryByte_def)
  then show ?thesis using unescape_pct [of c s] by simp
qed

lemma unescape_escape: "queryUnescape (queryEscape s) = Some s"
proof (induction s)
  case (Cons c s)
  then show ?case using unescape_byte [of c "queryEscape s"] by (simp add: queryEscape_def)
qed (simp add: queryEscape_def)

lemma hexUpper_plain: "n < 16 \<Longrightarrow> hexDigit hexUpper n \<notin> set ''&=;''"
proof -
  have "\<forall>n \<in> set [0..<16]. hexDigit hexUpper n \<notin> set ''&=;''" by code_simp
  then show "n < 16 \<Longrightarrow> ?thesis" by auto
qed

lemma escape_plain: "c \<in> set ''&=;'' \<Longrightarrow> c \<notin> set (queryEscape s)"
proof -
  assume c: "c \<in> set ''&=;''"
  have "c \<notin> set (pctByte x)" for x
  proof -
    have "(of_char x :: nat) div 16 < 16" "(of_char x :: nat) mod 16 < 16" using of_char_bound [of x] less_mult_imp_div_less [of "of_char x" 16 16] by auto
    then have "hexDigit hexUpper (of_char x div 16) \<noteq> c" "hexDigit hexUpper (of_char x mod 16) \<noteq> c" using c hexUpper_plain by metis+
    moreover have "c \<noteq> CHR ''%''" using c by auto
    ultimately show ?thesis by (simp add: pctByte_def)
  qed
  then show ?thesis using c by (auto simp: queryEscape_def encodeQueryByte_def isAlnum_def less_eq_char_def split: if_splits)
qed

lemma queryPair_escaped: "queryPair (queryEscape k @ ''='' @ queryEscape v) = [(k, v)]"
proof -
  have "indexByte (queryEscape k @ ''='' @ queryEscape v) (CHR ''='') = Some (length (queryEscape k))"
    using indexByte_sep [of "CHR ''=''" "queryEscape k"] escape_plain by simp
  moreover have "\<not> contains (queryEscape k @ ''='' @ queryEscape v) '';''" using escape_plain by (simp add: contains_char)
  ultimately show ?thesis by (simp add: queryPair_def unescape_escape)
qed

text \<open>The query form of tags loses nothing but their order.\<close>

lemma parseQuery_encode: "parseQuery (valuesEncode m) = map (\<lambda>k. (k, getKey m k)) (sort (remdups (map fst m)))"
proof -
  let ?ps = "map (\<lambda>k. queryEscape k @ ''='' @ queryEscape (getKey m k)) (sort (remdups (map fst m)))"
  have pairs: "concat (map queryPair ?ps) = map (\<lambda>k. (k, getKey m k)) (sort (remdups (map fst m)))"
    by (simp add: comp_def queryPair_escaped [simplified])
  show ?thesis
  proof (cases "?ps = []")
    case True
    then have "parseQuery (valuesEncode m) = []" by (simp add: valuesEncode_def parseQuery_def queryPair_def)
    then show ?thesis using True by simp
  next
    case False
    have "\<forall>p \<in> set ?ps. CHR ''&'' \<notin> set p" using escape_plain by auto
    then have "splitOn (CHR ''&'') (valuesEncode m) = ?ps" unfolding valuesEncode_def by (rule splitOn_joinWith [OF False])
    then show ?thesis by (simp only: parseQuery_def pairs)
  qed
qed

lemma tags_roundtrip: "tagsToXML (valuesEncode m) = map (\<lambda>k. (k, getKey m k)) (sort (remdups (map fst m)))"
proof -
  let ?ks = "sort (remdups (map fst m))"
  have "getKey (map (\<lambda>k. (k, getKey m k)) ks) k = getKey m k" if "k \<in> set ks" for k ks
    using that by (simp add: getKey_def map_of_map_restrict [unfolded comp_def] restrict_map_def)
  then show ?thesis unfolding tagsToXML_def parseQuery_encode Let_def by (simp add: comp_def distinct_remdups_id sorted_sort_id)
qed

lemma map_of_setAll: "map_of (setAll tags) = map_of (rev tags)"
proof (induction tags rule: rev_induct)
  case (snoc kv tags)
  then show ?case by (cases kv) (simp add: setAll_def update_conv)
qed (simp add: setAll_def)

lemma keys_setAll: "fst ` set (setAll tags) = fst ` set tags"
  using map_of_setAll [of tags] dom_map_of_conv_image_fst [of "setAll tags"] dom_map_of_conv_image_fst [of "rev tags"] by simp

text \<open>
  C16: the tags of a bucket that was given tags are those tags: a GET after the PUT lists every key once, in order, with the last
  value the PUT had for it, whatever characters keys and values are made of.
\<close>

theorem bucket_tags_roundtrip:
  assumes "cxTags x (limited mb1 r) = Some tags" "olBucket L b (hsObj sv) = (None, s1)"
  shows "case handlePutBucketTagging x w now r b sv of (_, sv1) \<Rightarrow>
    rsBody (fst (handleGetBucketTagging L b sv1)) = TagsDoc (map (\<lambda>k. (k, the (map_of (rev tags) k))) (sort (remdups (map fst tags))))"
proof -
  define sv1 where "sv1 = snd (handlePutBucketTagging x w now r b sv)"
  have p: "Get b (hsCfg sv1) = (Get b (hsCfg sv))\<lparr>cfgTags := setAll tags\<rparr>" "hsObj sv1 = hsObj sv"
    using assms(1) Get_Update [of b w now b "\<lambda>c. c\<lparr>cfgTags := setAll tags\<rparr>" "hsCfg sv"]
    by (auto simp: sv1_def handlePutBucketTagging_def setCfg_def updateCfg_def split: prod.splits bool.splits)
  have k: "sort (remdups (map fst (setAll tags))) = sort (remdups (map fst tags))"
    by (rule sorted_distinct_set_unique) (auto simp: keys_setAll)
  have "k \<in> set (sort (remdups (map fst tags))) \<Longrightarrow> getKey (setAll tags) k = the (map_of (rev tags) k)" for k
    by (auto simp: getKey_def map_of_setAll split: option.split dest: weak_map_of_SomeI)
      (metis image_eqI fst_conv list.set_map map_of_eq_None_iff set_rev)
  then have "tagsToXML (valuesEncode (setAll tags)) = map (\<lambda>k. (k, the (map_of (rev tags) k))) (sort (remdups (map fst tags)))"
    unfolding tags_roundtrip k by simp
  then have "rsBody (fst (handleGetBucketTagging L b sv1)) = TagsDoc (map (\<lambda>k. (k, the (map_of (rev tags) k))) (sort (remdups (map fst tags))))"
    using p assms(2) by (simp add: handleGetBucketTagging_def withBucket_def onObj_def writeXML_def)
  then show ?thesis by (simp add: sv1_def split_beta)
qed

subsection \<open>Lifecycle rules\<close>

text \<open>A rule as PUT stores it, with days that are not negative.\<close>

definition normalRule :: "henv \<Rightarrow> lifecycleRule \<Rightarrow> bool" where
  "normalRule he rr \<longleftrightarrow> lcStatus rr \<noteq> [] \<and> 0 \<le> ExpirationDays rr \<and> 0 \<le> NoncurrentVersionExpirationDays rr \<and> 0 \<le> AbortIncompleteMultipartDays rr
     \<and> (TransitionTier rr = [] \<longrightarrow> TransitionDays rr = 0)
     \<and> (ExpirationDate rr \<noteq> [] \<longrightarrow> (\<exists>t. parseRFC3339 (ExpirationDate rr) = Some t \<and> heFormatRFC3339 he t = ExpirationDate rr))"

lemma rule_roundtrip: "normalRule he rr \<Longrightarrow> ruleFromXML he (ruleToXML rr) = rr"
  by (cases rr) (auto simp: normalRule_def ruleFromXML_def ruleToXML_def)

text \<open>A client that reads the lifecycle of a bucket and writes back what it read changes nothing.\<close>

lemma lifecycle_roundtrip:
  assumes "rsBody (fst (handleGetBucketLifecycle b sv)) = LifecycleDoc docs" "cxLifecycle x (limited mb1 r) = Some docs"
    and "olBucket L b (hsObj sv) = (None, s1)" "list_all (normalRule he) (cfgLifecycle (Get b (hsCfg sv)))"
  shows "Get b (hsCfg (snd (handlePutBucketLifecycle L he x w now r b sv))) = Get b (hsCfg sv)"
proof -
  let ?rules = "cfgLifecycle (Get b (hsCfg sv))"
  have "docs = map ruleToXML ?rules"
    using assms(1) by (auto simp: handleGetBucketLifecycle_def writeXML_def writeErrorResponse_def Let_def split: if_splits)
  then have "map (ruleFromXML he) docs = ?rules" using assms(4) rule_roundtrip by (auto simp: list_all_iff intro: map_idI)
  then show ?thesis
    using assms(2,3) by (simp add: handlePutBucketLifecycle_def withBucket_def onObj_def trySetCfg_def updateCfg_def split_beta Get_Update)
qed

subsection \<open>Object lock and suspended versioning\<close>

text \<open>Versioning can be suspended in a bucket with object lock, and requests are then handled as suspended and as versioned at once.\<close>

lemma lock_bucket_suspended:
  assumes "olBucket L b (hsObj sv) = (None, s1)" "cxVersioning x (limited kb64 r) = Some ''Suspended''"
    and "cfgObjectLock (Get b (hsCfg sv)) = Some lc" "olEnabled lc" "bare r'"
  shows "case handlePutBucketVersioning L x w now r b sv of (_, sv1) \<Rightarrow>
    oVersioned (fst (vopts he now' b r' sv1)) \<and> oVersionSuspended (fst (vopts he now' b r' sv1))"
proof -
  define sv1 where "sv1 = snd (handlePutBucketVersioning L x w now r b sv)"
  have "Get b (hsCfg sv1) = (Get b (hsCfg sv))\<lparr>cfgVersioning := ''Suspended''\<rparr>"
    using assms(1,2) Get_Update [of b w now b "\<lambda>c. c\<lparr>cfgVersioning := ''Suspended''\<rparr>" "hsCfg sv"]
    by (auto simp: sv1_def handlePutBucketVersioning_def withBucket_def onObj_def setCfg_def updateCfg_def split: prod.splits bool.splits)
  then have "oVersioned (fst (vopts he now' b r' sv1)) \<and> oVersionSuspended (fst (vopts he now' b r' sv1))"
    using assms(3-5) by (simp add: vopts_def bare_def lockOptions_def noOptions_def Let_def)
  then show ?thesis by (simp add: sv1_def split_beta)
qed

subsection \<open>Witnesses\<close>

text \<open>A bucket of the single-disk backend, decoders that know one document, and a configuration backend that works.\<close>

definition wit_codecs :: "replicationRule list \<Rightarrow> (string \<times> string) list \<Rightarrow> codecs" where
  "wit_codecs rules tags = \<lparr>cxVersioning = (\<lambda>_. None), cxRetention = (\<lambda>_. None), cxHold = (\<lambda>_. None), cxLock = (\<lambda>_. None), cxQuota = (\<lambda>_. None),
     cxFlag = (\<lambda>_. None), cxTags = (\<lambda>_. Some tags), cxValid = (\<lambda>_. True), cxCors = (\<lambda>_. None), cxNotification = (\<lambda>_. None),
     cxReplication = (\<lambda>_. Some rules), cxLifecycle = (\<lambda>_. None), cxWebsite = (\<lambda>_. None), cxDelete = (\<lambda>_. None), cxComplete = (\<lambda>_. None)\<rparr>"

definition wit_writer :: "unit cfgWriter" where "wit_writer be e = (True, be)"

lemma wit_bucket: "\<exists>n. olBucket (fsBLayer wit_fe) ''bkt'' wit_vol = (None, wit_vol\<lparr>dopno := n\<rparr>)"
proof -
  have c: "calm wit_vol" using wit_volume by (simp add: volume_def)
  have p: "bucketMetaPath wit_fe ''bkt'' = [''vol'', sysDir, ''buckets'', ''bkt.json'']" "bucketDir wit_fe ''bkt'' = [''vol'', ''bkt'']"
    by (simp_all add: bucketMetaPath_def bucketDir_def fjoin_def segs_def wit_fe_def sysDir_def)
  have r: "osReadFile (bucketMetaPath wit_fe ''bkt'') wit_vol = (Inl OsNotExist, wit_vol\<lparr>dopno := 1\<rparr>)"
    unfolding p by (simp add: osReadFile_def resolveP_def belowFile_def isFile_def upt_rec wit_vol_def lookupF_def sysDir_def sched_def)
  have s: "osStat (bucketDir wit_fe ''bkt'') (wit_vol\<lparr>dopno := 1\<rparr>) = (Inr Dir, wit_vol\<lparr>dopno := 2\<rparr>)"
    using osStat_some [of "wit_vol\<lparr>dopno := 1\<rparr>" "bucketDir wit_fe ''bkt''" Dir] c by (simp add: p wit_vol_def lookupF_def sysDir_def numeral_2_eq_2 calm_def)
  have "fsValidBucketName ''bkt''" by code_simp
  then have "fsGetBucketInfo wit_fe ''bkt'' wit_vol
      = (Inr \<lparr>bmName = ''bkt'', bmCreated = feMtime wit_fe (bucketDir wit_fe ''bkt''), bmVersioning = False, bmObjectLock = False\<rparr>, wit_vol\<lparr>dopno := 2\<rparr>)"
    by (simp add: fsGetBucketInfo_def readBucketMeta_def r s [simplified])
  then show ?thesis by (simp add: fsBLayer_def olayer.defs blayer.defs mapFst_def) blast
qed

definition wit_rule :: replicationRule where
  "wit_rule = \<lparr>rrID = ''r1'', rrPrefix = [], DestBucket = ''copy'', DestEndpoint = ''https://far'', DestRegion = [], DestAccessKey = ''AK'',
     DestSecretKey = ''hush'', DeleteRepl = False\<rparr>"

definition wit_replServer :: "(unit, unit, disk) hserver" where
  "wit_replServer = (wit_hserver [] wit_vol)\<lparr>hsCfg := \<lparr>cbe = (), call = [(''bkt'', emptyConfig\<lparr>cfgReplication := [wit_rule]\<rparr>)], clastSync = 0\<rparr>\<rparr>"


theorem bucket_tags_roundtrip_witness:
  "case handlePutBucketTagging (wit_codecs [] [(''b&c'', ''1''), (''a'', ''x y''), (''b&c'', ''2'')]) wit_writer 9 (wit_hreq ''PUT'' [] (\<lambda>_. []) []) ''bkt''
      (wit_hserver [] wit_vol) of (_, sv1) \<Rightarrow>
    rsBody (fst (handleGetBucketTagging (fsBLayer wit_fe) ''bkt'' sv1)) = TagsDoc [(''a'', ''x y''), (''b&c'', ''2'')]"
proof -
  let ?tags = "[(''b&c'', ''1''), (''a'', ''x y''), (''b&c'', ''2'')]"
  have x: "cxTags (wit_codecs [] ?tags) (limited mb1 (wit_hreq ''PUT'' [] (\<lambda>_. []) [])) = Some ?tags" by (simp add: wit_codecs_def)
  obtain n where b: "olBucket (fsBLayer wit_fe) ''bkt'' (hsObj (wit_hserver [] wit_vol)) = (None, wit_vol\<lparr>dopno := n\<rparr>)"
    using wit_bucket by (auto simp: wit_hserver_def)
  have s: "sort (remdups (map fst ?tags)) = [''a'', ''b&c'']" by code_simp
  show ?thesis using bucket_tags_roundtrip [OF x b, of wit_writer 9] unfolding s by simp
qed

end
