(* ===== verification/Spec2Isabelle.thy ===== *)
theory Spec2Isabelle
  imports Chunked LockTable NsLock Cluster BucketCfg HealCorrect Retention ScannerProps MultipartProps SelfHeal Router ObjCache AuditLog BucketProps
begin

text \<open>
  A verification development of gostore, an S3-compatible object store written in Go (\<open>src/internal\<close>).

  \<^bold>\<open>The program.\<close> A request enters through the HTTP router (\<open>api/router.go\<close>): it is authenticated by its AWS
  signature (\<open>auth\<close>), limited (\<open>api/ratelimit.go\<close>, \<open>admission.go\<close>, \<open>readonly.go\<close>), authorised by the identity manager
  and the bucket's policy (\<open>iam\<close>, \<open>iam/policy\<close>, \<open>api/authz.go\<close>) and handed to a handler (\<open>api/handlers_*.go\<close>), which asks the
  object cache, calls the object layer and starts the events and replications of a change (\<open>event\<close>, \<open>replication\<close>). The object
  layer is one of two backends, both with a lock per key within the process (\<open>nslock\<close>): a single directory tree (\<open>object/fs\<close>), with the data of an object under its name, a sidecar with its
  metadata and a directory per key for its versions; or a pool of erasure sets (\<open>erasure/pool.go\<close>): it takes the namespace lock of the key
  (\<open>cluster/dsync.go\<close>), chooses a set, and the set (\<open>erasure/set.go\<close>) splits the object into data and parity shards
  (\<open>erasure/erasure.go\<close>), one per disk (\<open>storage/local.go\<close>), with a copy of the metadata \<open>xl.meta\<close> on every disk
  (\<open>erasure/xlmeta.go\<close>). Versions and object locks (\<open>versioning.go\<close>, \<open>lock.go\<close>), multipart uploads (\<open>multipart.go\<close>),
  encryption (\<open>sse\<close>, \<open>kms\<close>, \<open>encryption.go\<close>) and listings (\<open>list.go\<close>, \<open>listcache.go\<close>) are built on that. In the background a
  scanner (\<open>scanner\<close>) expires objects, the healer (\<open>heal.go\<close>, \<open>mrf.go\<close>) repairs them, decommission moves them between sets
  (\<open>decommission.go\<close>). Configuration (identities, bucket configurations, the repair queue, the layout) is kept as blobs
  replicated on every disk (\<open>erasure/config.go\<close>).

  \<^bold>\<open>Theories and sources.\<close>
  \<^item> \<open>Prelude\<close>: Go values, the functions of \<open>strings\<close>, \<open>path\<close>, \<open>sort\<close>, \<open>hash/fnv\<close> and \<open>unicode/utf8\<close> the sources call, shared lemmas.
    \<open>Base64\<close> and \<open>GoTime\<close>: \<open>encoding/base64\<close> and \<open>time\<close>, as far as they are used. \<open>Docs\<close>: the configuration documents.
  \<^item> \<open>Policy\<close>, \<open>IAM\<close>: \<open>iam/policy/*.go\<close>, \<open>iam/iam.go\<close>, \<open>iam/store.go\<close>. \<open>SigV4\<close>, \<open>Chunked\<close>: \<open>auth/*.go\<close>,
    \<open>api/middleware_auth.go\<close> and the client's signer in \<open>gostorecli/cli.go\<close>.
  \<^item> \<open>Admission\<close>, \<open>Router\<close>, \<open>ObjCache\<close>, \<open>AuditLog\<close>: the middleware and the entry point of \<open>api\<close>.
  \<^item> \<open>LockTable\<close>, \<open>Cluster\<close>: \<open>cluster/dsync.go\<close>, \<open>breaker.go\<close>, \<open>cluster.go\<close>. \<open>NsLock\<close>: \<open>nslock/nslock.go\<close>, as a step relation of goroutines.
  \<^item> \<open>Disk\<close>, \<open>DiskTree\<close>: one disk, \<open>storage/local.go\<close>, and its type invariant. \<open>Meta\<close>, \<open>Codec\<close>: \<open>erasure/names.go\<close>,
    \<open>xlmeta.go\<close>, \<open>erasure.go\<close>, \<open>bitrot.go\<close>; \<open>WitnessCodec\<close> is a concrete erasure code.
  \<^item> \<open>ErasureSet\<close> has the operations of a set; \<open>ErasureRead\<close>, \<open>ErasureGet\<close>, \<open>ErasurePut\<close>, \<open>Durability\<close>, \<open>Frame\<close> the lemmas on its
    read path, its write path, what survives the loss of disks, and what an operation leaves alone.
  \<^item> \<open>Heal\<close>, \<open>HealCorrect\<close>, \<open>SelfHeal\<close>: \<open>heal.go\<close>, \<open>mrf.go\<close>, the collector of \<open>dedup.go\<close>.
  \<^item> \<open>SSEnc\<close>: \<open>sse/sse.go\<close>, \<open>kms/kms.go\<close>, \<open>erasure/encryption.go\<close>.
  \<^item> \<open>Pool\<close>, \<open>PoolOps\<close>, \<open>Versioning\<close>: \<open>pool.go\<close>, \<open>versioning.go\<close>, \<open>lock.go\<close>, \<open>tags.go\<close>, \<open>tiering.go\<close>; \<open>VersionLock\<close>, \<open>ObjectLock\<close>,
    \<open>Retention\<close> prove what object lock promises.
  \<^item> \<open>Listing\<close>, \<open>ListingWalk\<close>, \<open>ListingPages\<close>: \<open>list.go\<close>, \<open>listcache.go\<close>. \<open>Multipart\<close>, \<open>MultipartProps\<close>: \<open>multipart.go\<close>.
    \<open>Decommission\<close>: \<open>decommission.go\<close>. \<open>Scanner\<close>, \<open>ListingScan\<close>, \<open>ScannerProps\<close>: \<open>scanner/scanner.go\<close>, \<open>object/expiry.go\<close>.
  \<^item> \<open>Config\<close>, \<open>BucketCfg\<close>: \<open>erasure/config.go\<close>, \<open>bucketcfg/bucketcfg.go\<close>.
  \<^item> \<open>FsStore\<close>, \<open>FsObject\<close>, \<open>FsOps\<close>, \<open>FsListing\<close>: the single-disk backend, \<open>object/fs/*.go\<close>, over a tree of the host's files of which its root is
    one directory; \<open>FsProps\<close>, \<open>FsRoundTrip\<close> prove what it keeps and what it does not.
  \<^item> \<open>ObjLayer\<close>: \<open>object.Layer\<close> as a record of operations, filled in by both backends, and the mapping of their errors
    (\<open>api/apierr.go\<close>, \<open>errors.go\<close>). \<open>ReqParse\<close>: what the handlers read from a request (\<open>handlers_object.go\<close>, \<open>checksum.go\<close>, \<open>expiry.go\<close>,
    \<open>response.go\<close>). \<open>Notify\<close>: \<open>event/event.go\<close>, \<open>replication/replication.go\<close>. \<open>Handlers\<close>: the handlers of objects. \<open>CfgHandlers\<close>, \<open>BucketDocs\<close>,
    \<open>BucketHandlers\<close>: the handlers of buckets, of their configuration documents, of listings, uploads and static sites
    (\<open>handlers_bucket.go\<close>, \<open>handlers_bucketcfg.go\<close>, \<open>handlers_objectlock.go\<close>, \<open>handlers_quota.go\<close>, \<open>handlers_lifecycle.go\<close>,
    \<open>handlers_multipart.go\<close>, \<open>handlers_website.go\<close>). \<open>HandlerProps\<close>, \<open>BucketProps\<close>: what a client of them sees.

  \<^bold>\<open>Conventions.\<close> A struct is a record, a Go error a constructor of an error type, an operation a function that takes the state
  and returns its result with the new state. \<open>string\<close> and \<open>[]byte\<close> are both byte sequences. Each disk carries a schedule of
  faults from which every operation draws whether it works, fails at once or fails half-way with the effect the code leaves
  behind, so a theorem over all schedules is a theorem over all crashes of disks. What a request takes from outside (the clock, random
  identifiers and keys, map iteration order) is an argument. Packages outside the repository are parameters: the Reed-Solomon codec
  (\<open>rscodec\<close>, hypothesis \<open>rs_ok\<close>, met by \<open>WitnessCodec\<close>), hash functions, AES-GCM (\<open>aead_ok\<close>), zstd, the JSON codec where it is not
  represented by a constructor-tagged content. Goroutines of one operation work on different disks and are taken in order; a request is
  one step: a write holds the lock of its key, and a GET, which on the pool takes no lock, is not interleaved with writes. Tokens of the rate limiter are rationals. An XML or JSON body of an answer is a document of the model, and
  the decoders of request bodies are parameters; the
  request id is left out of the headers. A goroutine a handler starts is an entry in a list of the server, which the model of that goroutine takes.

  \<^bold>\<open>Interfaces.\<close> \<open>config_backend\<close> states what a replicated blob promises its client (a write that succeeded is what is read); it is interpreted
  on the pool's configuration objects, lifted to documents (\<open>doc_backend\<close>, a \<open>sublocale\<close>) and used for the identity manager
  (\<open>iam_backend\<close>) and the bucket configuration (\<open>cfg_backend\<close>). \<open>key_listing\<close> states what a paged listing promises a client that follows its
  markers; it is interpreted on the pool's listing and gives the scanner its termination. \<open>unconditional_put\<close> is the part of the object layer's
  contract a conditional PUT misses; both backends are interpretations.

  \<^bold>\<open>Loops and fuel.\<close> Loops over data are structural or come with a measure: \<open>stripeLoop\<close>, \<open>encLoop\<close> and \<open>decLoop\<close> consume the bytes left,
  \<open>readLoop\<close> and \<open>readAll\<close> the body left, \<open>shrink\<close> the entries left, \<open>prune\<close> the depth of a path. The walk of a disk takes as fuel one more than the
  longest path on it, which is enough for every path (\<open>ListingWalk\<close>). The scanner's page loop may not end in general
  (\<open>versioned_paging_stuck\<close>) and is a partial function into \<open>option\<close>; that it ends on buckets without versions is a theorem.

  \<^bold>\<open>What is proved.\<close>
  \<^item> Durability: a write that succeeded is read back in full and in any range after the loss of up to parity-many disks; a write on
    working disks succeeds; a heal restores every shard, after which any quorum of the healed disks is enough.
  \<^item> Object lock: a version under a compliance lock survives every sequence of requests before its date.
  \<^item> Configuration: what was written is what is read; identities and bucket configurations survive restarts.
  \<^item> Listing: a page is the page of the abstract sorted namespace, and following the pages ends with all of it.
  \<^item> Encryption, encodings, endpoint parsing, signatures and chunked bodies: round trips, sizes, rejection of tampering.
  \<^item> Identity and access: invariants of the manager, exact permissions of derived credentials, no handler without authorisation.
  \<^item> Concurrency control: mutual exclusion of the distributed lock under lost messages and of the lock within a process under every schedule; requests
    that take one lock at a time all end, a replication worker on the single-disk backend may not; the breaker's probes.
  \<^item> Middleware: the rate limit over every window, the budget of the object cache, the audit chain.
  \<^item> Clients: over the single-disk backend a PUT is answered with 200 and every later GET returns its bytes, from the volume or the cache; a
    range request returns exactly the bytes its headers name; tags and replication rules are given back as they were
    written, without the secrets; two requests for which the answer is not what the client asked for.
  \<^item> Errors: a refused completion changes nothing, and theorems on inputs the code handles differently from its comments.

  \<^bold>\<open>Not modelled.\<close> The handlers of forms, previews, snapshots, backups, ingestion, health and the
  administration (JSON and image processing over the object layer), the transport of disk calls between nodes
  (\<open>cluster/grid.go\<close>, \<open>remotedisk.go\<close>, \<open>rpcserver.go\<close>; a lost call is a fault of the schedule), the clients of Vault and of remote tiers, the
  commands of the client, process start-up, metrics and logging, disk usage, deadlines and buffer pools.
\<close>

end
